(* ===== verification/VT_Prelude.thy ===== *)
theory VT_Prelude
  imports Main "HOL-Library.Sublist" "HOL-Library.Word"
begin

text \<open>
  The prelude of the development: the parts of the Rust standard library that the modelled
  sources call, written as HOL functions, and the lemmas on them that every component shares.

  Strings are \<open>string\<close> (lists of bytes). Every delimiter, option and keyword the sources test is
  ASCII, and in UTF-8 no ASCII byte occurs inside a longer character, so a scan over bytes takes
  the same branches as the source's scan over \<open>char\<close>s. The two functions of the standard library
  that look at characters beyond ASCII (\<open>trim\<close> and \<open>split_whitespace\<close> also cut at U+0085, U+00A0
  and the other non-ASCII white space) are modelled on ASCII white space.

  An \<open>anyhow::Result\<close> is a sum \<open>err + 'a\<close> with the error on the left; an error is the list of its
  messages with the outermost context first, so \<open>with_context\<close> is a cons.
\<close>

subsection \<open>Results\<close>

type_synonym err = "string list"
type_synonym 'a rresult = "err + 'a"

abbreviation ok_unit :: "'e + unit" where "ok_unit \<equiv> Inr ()"

definition bail :: "string \<Rightarrow> 'a rresult" where
  "bail m = Inl [m]"

fun bindr :: "'e + 'a \<Rightarrow> ('a \<Rightarrow> 'e + 'b) \<Rightarrow> 'e + 'b" where
  "bindr (Inl e) f = Inl e"
| "bindr (Inr x) f = f x"

fun with_context :: "string \<Rightarrow> 'a rresult \<Rightarrow> 'a rresult" where
  "with_context c (Inl e) = Inl (c # e)"
| "with_context c (Inr x) = Inr x"

fun is_ok :: "'e + 'a \<Rightarrow> bool" where
  "is_ok (Inl e) \<longleftrightarrow> False"
| "is_ok (Inr x) \<longleftrightarrow> True"

text \<open>A loop whose body may return early with an error.\<close>

fun for_each :: "('a \<Rightarrow> 'e + unit) \<Rightarrow> 'a list \<Rightarrow> 'e + unit" where
  "for_each f [] = Inr ()"
| "for_each f (x # xs) = bindr (f x) (\<lambda>_. for_each f xs)"

named_theorems result_simps \<open>when a composed check succeeds\<close>

lemma bail_neq_Inr [simp]: "bail m \<noteq> Inr x" "Inr x \<noteq> bail m"
  by (simp_all add: bail_def)

lemma is_ok_bail [simp]: "\<not> is_ok (bail m)"
  by (simp add: bail_def)

lemma is_ok_iff: "is_ok r \<longleftrightarrow> (\<exists>x. r = Inr x)"
  by (cases r) auto

lemma bindr_Inr_iff [result_simps]: "bindr r f = Inr y \<longleftrightarrow> (\<exists>x. r = Inr x \<and> f x = Inr y)"
  by (cases r) auto

lemma is_ok_bindr [result_simps]: "is_ok (bindr r f) \<longleftrightarrow> (\<exists>x. r = Inr x \<and> is_ok (f x))"
  by (cases r) auto

lemma with_context_Inr_iff [result_simps, simp]: "with_context c r = Inr y \<longleftrightarrow> r = Inr y"
  by (cases r) auto

lemma is_ok_with_context [result_simps, simp]: "is_ok (with_context c r) \<longleftrightarrow> is_ok r"
  by (cases r) auto

lemma for_each_Inr_iff [result_simps]: "for_each f xs = Inr u \<longleftrightarrow> (\<forall>x \<in> set xs. f x = Inr ())"
proof (induction xs)
  case (Cons x xs)
  then show ?case by (cases "f x") auto
qed simp

lemma is_ok_for_each [result_simps]: "is_ok (for_each f xs) \<longleftrightarrow> (\<forall>x \<in> set xs. is_ok (f x))"
proof (induction xs)
  case (Cons x xs)
  then show ?case by (cases "f x") auto
qed simp

lemma for_each_append:
  "for_each f (xs @ ys) = bindr (for_each f xs) (\<lambda>_. for_each f ys)"
proof (induction xs)
  case (Cons x xs)
  then show ?case by (cases "f x") auto
qed simp

subsection \<open>Characters\<close>

definition is_ascii_digit :: "char \<Rightarrow> bool" where
  "is_ascii_digit c \<longleftrightarrow> (48::nat) \<le> of_char c \<and> (of_char c :: nat) \<le> 57"

definition is_ascii_upper :: "char \<Rightarrow> bool" where
  "is_ascii_upper c \<longleftrightarrow> (65::nat) \<le> of_char c \<and> (of_char c :: nat) \<le> 90"

definition is_ascii_lower :: "char \<Rightarrow> bool" where
  "is_ascii_lower c \<longleftrightarrow> (97::nat) \<le> of_char c \<and> (of_char c :: nat) \<le> 122"

definition is_ascii_alphabetic :: "char \<Rightarrow> bool" where
  "is_ascii_alphabetic c \<longleftrightarrow> is_ascii_upper c \<or> is_ascii_lower c"

definition is_ascii_alphanumeric :: "char \<Rightarrow> bool" where
  "is_ascii_alphanumeric c \<longleftrightarrow> is_ascii_alphabetic c \<or> is_ascii_digit c"

text \<open>\<open>char::is_whitespace\<close> below 128, and the narrower \<open>is_ascii_whitespace\<close> (no vertical tab).\<close>

definition is_whitespace :: "char \<Rightarrow> bool" where
  "is_whitespace c \<longleftrightarrow> (9::nat) \<le> of_char c \<and> (of_char c :: nat) \<le> 13 \<or> (of_char c :: nat) = 32"

definition is_ascii_whitespace :: "char \<Rightarrow> bool" where
  "is_ascii_whitespace c \<longleftrightarrow> (of_char c :: nat) \<in> {9, 10, 12, 13, 32}"

definition to_lower_char :: "char \<Rightarrow> char" where
  "to_lower_char c = (if is_ascii_upper c then char_of (of_char c + (32::nat)) else c)"

definition to_ascii_lowercase :: "string \<Rightarrow> string" where
  "to_ascii_lowercase s = map to_lower_char s"

lemmas char_class_defs =
  is_ascii_digit_def is_ascii_upper_def is_ascii_lower_def is_ascii_alphabetic_def
  is_ascii_alphanumeric_def is_whitespace_def is_ascii_whitespace_def

lemma not_whitespace_digit: "is_ascii_digit c \<Longrightarrow> \<not> is_whitespace c"
  by (auto simp: char_class_defs)

lemma to_lower_char_idem [simp]: "to_lower_char (to_lower_char c) = to_lower_char c"
  by (auto simp: to_lower_char_def is_ascii_upper_def)

lemma to_ascii_lowercase_idem [simp]:
  "to_ascii_lowercase (to_ascii_lowercase s) = to_ascii_lowercase s"
  by (simp add: to_ascii_lowercase_def)

lemma length_to_ascii_lowercase [simp]: "length (to_ascii_lowercase s) = length s"
  by (simp add: to_ascii_lowercase_def)

subsection \<open>Strings\<close>

definition starts_with :: "string \<Rightarrow> string \<Rightarrow> bool" where
  "starts_with s p \<longleftrightarrow> take (length p) s = p"

definition ends_with :: "string \<Rightarrow> string \<Rightarrow> bool" where
  "ends_with s p \<longleftrightarrow> drop (length s - length p) s = p"

fun contains_str :: "string \<Rightarrow> string \<Rightarrow> bool" where
  "contains_str [] p \<longleftrightarrow> p = []"
| "contains_str (c # s) p \<longleftrightarrow> starts_with (c # s) p \<or> contains_str s p"

definition strip_prefix_str :: "string \<Rightarrow> string \<Rightarrow> string option" where
  "strip_prefix_str s p = (if starts_with s p then Some (drop (length p) s) else None)"

definition strip_suffix_str :: "string \<Rightarrow> string \<Rightarrow> string option" where
  "strip_suffix_str s p = (if ends_with s p then Some (take (length s - length p) s) else None)"

text \<open>\<open>str::split_once\<close> and \<open>str::split\<close> at a character.\<close>

fun split_once :: "char \<Rightarrow> string \<Rightarrow> (string \<times> string) option" where
  "split_once d [] = None"
| "split_once d (c # s) =
     (if c = d then Some ([], s)
      else map_option (\<lambda>(a, b). (c # a, b)) (split_once d s))"

fun split_char :: "char \<Rightarrow> string \<Rightarrow> string list" where
  "split_char d [] = [[]]"
| "split_char d (c # s) =
     (if c = d then [] # split_char d s
      else (case split_char d s of [] \<Rightarrow> [[c]] | w # ws \<Rightarrow> (c # w) # ws))"

fun split_ws_go :: "string \<Rightarrow> string \<Rightarrow> string list" where
  "split_ws_go acc [] = (if acc = [] then [] else [acc])"
| "split_ws_go acc (c # s) =
     (if is_whitespace c
      then (if acc = [] then split_ws_go [] s else acc # split_ws_go [] s)
      else split_ws_go (acc @ [c]) s)"

definition split_whitespace :: "string \<Rightarrow> string list" where
  "split_whitespace s = split_ws_go [] s"

definition trim_start_matches :: "(char \<Rightarrow> bool) \<Rightarrow> string \<Rightarrow> string" where
  "trim_start_matches P s = dropWhile P s"

definition trim_matches :: "(char \<Rightarrow> bool) \<Rightarrow> string \<Rightarrow> string" where
  "trim_matches P s = rev (dropWhile P (rev (dropWhile P s)))"

definition trim :: "string \<Rightarrow> string" where
  "trim s = trim_matches is_whitespace s"

fun join :: "string \<Rightarrow> string list \<Rightarrow> string" where
  "join sep [] = []"
| "join sep [x] = x"
| "join sep (x # y # xs) = x @ sep @ join sep (y # xs)"

named_theorems str_simps \<open>characterisations of the string functions\<close>

lemma starts_with_prefix: "starts_with s p \<longleftrightarrow> prefix p s"
  by (metis append_eq_conv_conj append_take_drop_id prefix_def starts_with_def)

lemma starts_with_Nil [simp]: "starts_with s []"
  by (simp add: starts_with_def)

lemma starts_with_Cons [simp]:
  "starts_with (x # s) (y # p) \<longleftrightarrow> x = y \<and> starts_with s p"
  "\<not> starts_with [] (y # p)"
  by (auto simp: starts_with_def)

lemma starts_with_append [simp]: "starts_with (p @ s) p"
  by (simp add: starts_with_def)

lemma ends_with_suffix: "ends_with s p \<longleftrightarrow> suffix p s"
  unfolding ends_with_def suffix_def
proof
  assume "drop (length s - length p) s = p"
  then show "\<exists>zs. s = zs @ p"
    by (metis append_take_drop_id)
next
  assume "\<exists>zs. s = zs @ p"
  then show "drop (length s - length p) s = p" by auto
qed

lemma contains_str_iff: "contains_str s p \<longleftrightarrow> (\<exists>a b. s = a @ p @ b)"
proof (induction s)
  case Nil
  then show ?case by auto
next
  case (Cons c s)
  have "(\<exists>a b. c # s = a @ p @ b) \<longleftrightarrow> (\<exists>b. c # s = p @ b) \<or> (\<exists>a b. s = a @ p @ b)"
    by (metis append_Cons append_Nil list.inject neq_Nil_conv)
  with Cons.IH show ?case
    by (auto simp: starts_with_prefix prefix_def)
qed

lemma strip_prefix_Some: "strip_prefix_str s p = Some r \<longleftrightarrow> s = p @ r"
  by (auto simp: strip_prefix_str_def starts_with_def) (metis append_take_drop_id)

lemma strip_suffix_Some: "strip_suffix_str s p = Some r \<longleftrightarrow> s = r @ p"
  by (auto simp: strip_suffix_str_def ends_with_def) (metis append_take_drop_id)

lemma split_once_Some:
  "split_once d s = Some (a, b) \<longleftrightarrow> s = a @ d # b \<and> d \<notin> set a"
proof (induction s arbitrary: a)
  case (Cons c s)
  then show ?case by (cases a) auto
qed simp

lemma split_once_None: "split_once d s = None \<longleftrightarrow> d \<notin> set s"
  by (induction s) auto

lemma split_char_neq_Nil [simp]: "split_char d s \<noteq> []"
  by (induction s) (auto split: list.splits)

lemma join_split_char: "join [d] (split_char d s) = s"
proof (induction s)
  case (Cons c s)
  obtain w ws where w: "split_char d s = w # ws"
    by (meson neq_Nil_conv split_char_neq_Nil)
  with Cons show ?case by (cases ws) auto
qed simp

lemma split_char_no_delim: "w \<in> set (split_char d s) \<Longrightarrow> d \<notin> set w"
proof (induction s arbitrary: w)
  case (Cons c s)
  obtain v vs where "split_char d s = v # vs"
    by (meson neq_Nil_conv split_char_neq_Nil)
  with Cons show ?case by (auto split: if_splits)
qed simp

lemma split_char_single: "d \<notin> set s \<Longrightarrow> split_char d s = [s]"
  by (induction s) auto

lemma split_char_append: "d \<notin> set a \<Longrightarrow> split_char d (a @ d # s) = a # split_char d s"
  by (induction a) auto

lemma split_char_join:
  "xs \<noteq> [] \<Longrightarrow> \<forall>x \<in> set xs. d \<notin> set x \<Longrightarrow> split_char d (join [d] xs) = xs"
proof (induction "[d]" xs rule: join.induct)
  case (3 x y xs)
  then show ?case by (simp add: split_char_append)
qed (auto simp: split_char_single)

lemma split_ws_go_no_ws:
  "\<forall>c \<in> set w. \<not> is_whitespace c \<Longrightarrow> split_ws_go acc (w @ s) = split_ws_go (acc @ w) s"
  by (induction w arbitrary: acc) auto

lemma split_ws_go_words:
  "\<forall>c \<in> set acc. \<not> is_whitespace c \<Longrightarrow>
     \<forall>w \<in> set (split_ws_go acc s). w \<noteq> [] \<and> (\<forall>c \<in> set w. \<not> is_whitespace c)"
proof (induction acc s rule: split_ws_go.induct)
  case (2 acc c s)
  show ?case
  proof (cases "is_whitespace c")
    case ws: True
    show ?thesis
    proof (cases "acc = []")
      case True
      from "2.IH"(1) [OF ws True] True ws show ?thesis by simp
    next
      case False
      from "2.IH"(2) [OF ws False] "2.prems" False ws show ?thesis by simp
    qed
  next
    case False
    from "2.IH"(3) [OF False] "2.prems" False show ?thesis by simp
  qed
qed simp

lemma split_whitespace_words:
  assumes "w \<in> set (split_whitespace s)"
  shows "w \<noteq> []" "\<forall>c \<in> set w. \<not> is_whitespace c"
  using split_ws_go_words [of "[]" s] assms by (simp_all add: split_whitespace_def)

lemma is_whitespace_space [simp]: "is_whitespace CHR '' ''"
  by (simp add: is_whitespace_def)

lemma split_whitespace_join:
  "\<forall>w \<in> set ws. w \<noteq> [] \<and> (\<forall>c \<in> set w. \<not> is_whitespace c) \<Longrightarrow>
     split_whitespace (join '' '' ws) = ws"
proof (induction "'' ''" ws rule: join.induct)
  case (2 x)
  then show ?case
    using split_ws_go_no_ws [of x "[]" "[]"] by (simp add: split_whitespace_def)
next
  case (3 x y xs)
  then show ?case
    using split_ws_go_no_ws [of x "[]" "'' '' @ join '' '' (y # xs)"]
    by (simp add: split_whitespace_def)
qed (simp add: split_whitespace_def)

lemma split_ws_go_length:
  "sum_list (map length (split_ws_go acc s)) \<le> length acc + length s"
proof (induction acc s rule: split_ws_go.induct)
  case (2 acc c s)
  then show ?case by (cases "acc = []"; cases "is_whitespace c") simp_all
qed simp

lemma split_whitespace_length: "sum_list (map length (split_whitespace s)) \<le> length s"
  using split_ws_go_length [of "[]" s] by (simp add: split_whitespace_def)

lemma length_trim_matches: "length (trim_matches P s) \<le> length s"
  unfolding trim_matches_def
  by (metis length_dropWhile_le length_rev le_trans)

lemma length_trim: "length (trim s) \<le> length s"
  by (simp add: trim_def length_trim_matches)

lemma trim_matches_id:
  "s = [] \<or> \<not> P (hd s) \<and> \<not> P (last s) \<Longrightarrow> trim_matches P s = s"
  by (simp add: trim_matches_def)
    (metis append_self_conv2 dropWhile_eq_self_iff hd_rev rev.simps(1) rev_is_Nil_conv rev_rev_ident)

lemma trim_no_ws: "\<forall>c \<in> set s. \<not> is_whitespace c \<Longrightarrow> trim s = s"
  unfolding trim_def by (rule trim_matches_id) (cases s, auto)

subsection \<open>Numbers and file names\<close>

text \<open>An unsigned integer in decimal.\<close>

fun show_nat :: "nat \<Rightarrow> string" where
  "show_nat n =
     (if n < 10 then [char_of (48 + n)] else show_nat (n div 10) @ [char_of (48 + n mod 10)])"

declare show_nat.simps [simp del]

text \<open>\<open>str::parse::<u64>\<close>: an optional plus sign, at least one digit, no overflow.\<close>

definition digit_value :: "char \<Rightarrow> nat" where
  "digit_value c = of_char c - 48"

fun decimal_value :: "nat \<Rightarrow> string \<Rightarrow> nat" where
  "decimal_value acc [] = acc"
| "decimal_value acc (c # s) = decimal_value (10 * acc + digit_value c) s"

definition parse_u64 :: "string \<Rightarrow> nat rresult" where
  "parse_u64 s =
     (if s = [] then bail ''cannot parse integer from empty string''
      else let ds = (if hd s = CHR ''+'' then tl s else s)
           in if ds = [] \<or> \<not> list_all is_ascii_digit ds
              then bail ''invalid digit found in string''
              else if decimal_value 0 ds < 2 ^ 64 then Inr (decimal_value 0 ds)
              else bail ''number too large to fit in target type'')"

lemma parse_u64_bound: "parse_u64 s = Inr n \<Longrightarrow> n < 2 ^ 64"
  by (auto simp: parse_u64_def Let_def split: if_splits)

text \<open>
  \<open>Path::file_name\<close> followed by \<open>to_str\<close>: the last component if it is a normal one. Empty
  segments and \<open>.\<close> segments are not components (a leading \<open>.\<close> is one, but not a normal one).
\<close>

definition file_name :: "string \<Rightarrow> string option" where
  "file_name s =
     (let segs = filter (\<lambda>x. x \<noteq> [] \<and> x \<noteq> ''.'') (split_char CHR ''/'' s)
      in if segs = [] \<or> last segs = ''..'' then None else Some (last segs))"

lemma file_name_no_slash:
  assumes "CHR ''/'' \<notin> set s" "s \<noteq> []" "s \<noteq> ''.''" "s \<noteq> ''..''"
  shows "file_name s = Some s"
  using assms by (simp add: file_name_def split_char_single)

lemma file_name_SomeD:
  assumes "file_name s = Some n"
  shows "n \<noteq> []" "CHR ''/'' \<notin> set n"
proof -
  let ?segs = "filter (\<lambda>x. x \<noteq> [] \<and> x \<noteq> ''.'') (split_char CHR ''/'' s)"
  from assms have "n = last ?segs" "?segs \<noteq> []"
    by (auto simp: file_name_def Let_def split: if_splits)
  then have "n \<in> set ?segs" by (metis last_in_set)
  then show "n \<noteq> []" "CHR ''/'' \<notin> set n"
    by (auto dest: split_char_no_delim)
qed

end
