(* ===== verification/Paths_Model.thy ===== *)
theory Paths_Model
  imports VT_Prelude
begin

text \<open>
  Paths and workspace containment, \<^verbatim>\<open>crates/common/vtcode-commons/src/paths.rs\<close>, on Unix
  (the source's \<open>cfg(windows)\<close> branches are not modelled). A \<open>Path\<close> is the list of its components,
  which is what \<open>==\<close>, \<open>starts_with\<close>, \<open>strip_prefix\<close>, \<open>push\<close> and \<open>pop\<close> of the standard library
  work on; \<open>components\<close> reads the list off a string and \<open>display_path\<close> writes it back.

  The file system is the record \<open>filesystem\<close>: canonicalisation, \<open>lstat\<close>, \<open>stat\<close> and existence of a
  path, the current directory and the home directory, as functions of the component list. Each call
  reads the same record: a concurrent change of the file system between two calls is not modelled.
\<close>

datatype component = RootDir | CurDir | ParentDir | Normal string

type_synonym path = "component list"

definition segment_component :: "string \<Rightarrow> component list" where
  "segment_component seg =
     (if seg = [] \<or> seg = ''.'' then [] else if seg = ''..'' then [ParentDir] else [Normal seg])"

definition components :: "string \<Rightarrow> path" where
  "components s =
     (let segs = split_char CHR ''/'' s; body = concat (map segment_component segs)
      in if starts_with s ''/'' then RootDir # body
         else if hd segs = ''.'' then CurDir # body
         else body)"

fun display_component :: "component \<Rightarrow> string" where
  "display_component RootDir = []"
| "display_component CurDir = ''.''"
| "display_component ParentDir = ''..''"
| "display_component (Normal s) = s"

definition display_path :: "path \<Rightarrow> string" where
  "display_path p = (if p = [RootDir] then ''/'' else join ''/'' (map display_component p))"

definition is_absolute :: "path \<Rightarrow> bool" where
  "is_absolute p \<longleftrightarrow> p \<noteq> [] \<and> hd p = RootDir"

definition path_join :: "path \<Rightarrow> path \<Rightarrow> path" where
  "path_join p q =
     (if is_absolute q then q else if p = [] then q else p @ filter (\<lambda>c. c \<noteq> CurDir) q)"

definition path_parent :: "path \<Rightarrow> path option" where
  "path_parent p = (if p = [] \<or> last p = RootDir then None else Some (butlast p))"

definition path_pop :: "path \<Rightarrow> path" where
  "path_pop p = (case path_parent p of Some q \<Rightarrow> q | None \<Rightarrow> p)"

definition path_file_name :: "path \<Rightarrow> string option" where
  "path_file_name p =
     (if p = [] then None else case last p of Normal s \<Rightarrow> Some s | _ \<Rightarrow> None)"

definition path_starts_with :: "path \<Rightarrow> path \<Rightarrow> bool" where
  "path_starts_with p q \<longleftrightarrow> take (length q) p = q"

definition path_strip_prefix :: "path \<Rightarrow> path \<Rightarrow> path option" where
  "path_strip_prefix p q = (if path_starts_with p q then Some (drop (length q) p) else None)"

datatype lstat_result = LNotFound | LError string | LMeta (l_symlink: bool) (l_file: bool)

record filesystem =
  fs_canon :: "path \<Rightarrow> string + path"
  fs_lstat :: "path \<Rightarrow> lstat_result"
  fs_stat :: "path \<Rightarrow> string + (bool \<times> bool)"  \<comment> \<open>is a file, is a directory\<close>
  fs_exists :: "path \<Rightarrow> bool"
  fs_cwd :: "string + path"
  fs_home :: "path option"

subsection \<open>Normalisation and the lexical checks\<close>

fun normalize_step :: "path \<Rightarrow> component \<Rightarrow> path" where
  "normalize_step acc ParentDir = path_pop acc"
| "normalize_step acc CurDir = acc"
| "normalize_step acc RootDir = [RootDir]"
| "normalize_step acc (Normal s) = acc @ [Normal s]"

definition normalize_path :: "path \<Rightarrow> path" where
  "normalize_path p = foldl normalize_step [] p"

definition expand_tilde :: "filesystem \<Rightarrow> string \<Rightarrow> path" where
  "expand_tilde fs path =
     (if path = ''~'' then (case fs_home fs of Some h \<Rightarrow> h | None \<Rightarrow> components path)
      else case strip_prefix_str path ''~/'' of
             Some rest \<Rightarrow> (case fs_home fs of Some h \<Rightarrow> path_join h (components rest)
                                          | None \<Rightarrow> components path)
           | None \<Rightarrow> components path)"

definition ensure_path_within_workspace :: "path \<Rightarrow> path \<Rightarrow> path rresult" where
  "ensure_path_within_workspace candidate workspace_root =
     (let normalized_candidate = normalize_path candidate;
          normalized_workspace = normalize_path workspace_root
      in if \<not> path_starts_with normalized_candidate normalized_workspace
         then bail (''Path '' @ [CHR 0x27] @ display_path candidate @ [CHR 0x27] @ '' escapes workspace ''
                    @ [CHR 0x27] @ display_path workspace_root @ [CHR 0x27])
         else Inr normalized_candidate)"

definition normalize_ascii_identifier :: "string \<Rightarrow> string" where
  "normalize_ascii_identifier v = map to_lower_char (filter is_ascii_alphanumeric v)"

definition is_safe_relative_path :: "string \<Rightarrow> bool" where
  "is_safe_relative_path s =
     (let path = trim s
      in if path = [] then False
         else if contains_str path ''..'' then False
         else if starts_with path ''/'' \<or> CHR '':'' \<in> set path then False
         else True)"

definition unix_critical :: "string list" where
  "unix_critical = [''/etc'', ''/usr'', ''/bin'', ''/sbin'', ''/var'', ''/boot'', ''/root'', ''/dev'']"

definition matches_critical_prefix :: "string \<Rightarrow> string \<Rightarrow> bool" where
  "matches_critical_prefix path pfx \<longleftrightarrow>
     path = pfx
     \<or> (case strip_prefix_str path pfx of Some rest \<Rightarrow> starts_with rest ''/'' | None \<Rightarrow> False)"

definition dangerous_path_chars :: "char list" where
  "dangerous_path_chars = [CHR ''$'', CHR 0x60, CHR ''|'', CHR '';'', CHR ''&'', CHR 0x0A, CHR 0x0D,
     CHR ''>'', CHR ''<'', CHR 0x00]"

definition critical_prefix_check :: "string \<Rightarrow> string \<Rightarrow> unit rresult" where
  "critical_prefix_check path pfx =
     (let is_var_temp_exception =
            pfx = ''/var'' \<and> (starts_with path ''/var/folders/'' \<or> path = ''/var/folders''
                                 \<or> starts_with path ''/var/tmp/'' \<or> path = ''/var/tmp'')
      in if \<not> is_var_temp_exception \<and> matches_critical_prefix path pfx
         then bail (''Access to system directory denied: '' @ pfx) else ok_unit)"

definition validate_path_safety :: "string \<Rightarrow> unit rresult" where
  "validate_path_safety path =
     (if path = [] then ok_unit
      else if contains_str path ''..'' then bail ''Path traversal attempt detected ('..')''
      else if contains_str path ''~/../'' \<or> contains_str path ''/.../''
      then bail ''Advanced path traversal detected''
      else bindr (if starts_with path ''/'' then for_each (critical_prefix_check path) unix_critical
                  else ok_unit)
             (\<lambda>_. for_each (\<lambda>c. if c \<in> set dangerous_path_chars
                              then bail ''Path contains dangerous shell characters''
                              else ok_unit) path))"

definition file_name_from_path :: "string \<Rightarrow> string" where
  "file_name_from_path path = (case file_name path of Some n \<Rightarrow> n | None \<Rightarrow> path)"

subsection \<open>Checks that consult the file system\<close>

definition resolve_workspace_path :: "filesystem \<Rightarrow> path \<Rightarrow> path \<Rightarrow> path rresult" where
  "resolve_workspace_path fs workspace_root user_path =
     (let candidate = (if is_absolute user_path then user_path else path_join workspace_root user_path)
      in case fs_canon fs candidate of
           Inl e \<Rightarrow> Inl [''Failed to canonicalize path '' @ display_path candidate, e]
         | Inr canonical \<Rightarrow>
             (case fs_canon fs workspace_root of
                Inl e \<Rightarrow> Inl [''Failed to canonicalize workspace root '' @ display_path workspace_root, e]
              | Inr workspace_canonical \<Rightarrow>
                  if \<not> path_starts_with canonical workspace_canonical
                  then bail (''Path '' @ display_path canonical @ '' escapes workspace root ''
                             @ display_path workspace_canonical)
                  else Inr canonical))"

definition quoted :: "string \<Rightarrow> string" where
  "quoted s = [CHR 0x27] @ s @ [CHR 0x27]"

fun walk_components ::
  "filesystem \<Rightarrow> path \<Rightarrow> path \<Rightarrow> path \<Rightarrow> component list \<Rightarrow> unit rresult" where
  "walk_components fs canonical_root candidate pfx [] = ok_unit"
| "walk_components fs canonical_root candidate pfx (component # rest) =
     (let pfx' = pfx @ [component]
      in case fs_lstat fs pfx' of
           LNotFound \<Rightarrow> ok_unit
         | LError e \<Rightarrow> Inl [''failed to inspect path component '' @ quoted (display_path pfx'), e]
         | LMeta symlink file \<Rightarrow>
             (case fs_canon fs pfx' of
                Inl e \<Rightarrow> Inl [''failed to canonicalize path component '' @ quoted (display_path pfx'), e]
              | Inr resolved \<Rightarrow>
                  if symlink
                  then (if \<not> path_starts_with resolved canonical_root
                        then bail (''path '' @ quoted (display_path candidate)
                               @ '' escapes the workspace root via symlink '' @ quoted (display_path pfx'))
                        else walk_components fs canonical_root candidate pfx' rest)
                  else if \<not> path_starts_with resolved canonical_root
                  then bail (''path '' @ quoted (display_path candidate)
                         @ '' escapes the workspace root via component '' @ quoted (display_path pfx'))
                  else if file \<and> rest \<noteq> []
                  then bail (''path '' @ quoted (display_path candidate)
                         @ '' traverses through file component '' @ quoted (display_path pfx'))
                  else walk_components fs canonical_root candidate pfx' rest))"

definition canonical_or_self :: "filesystem \<Rightarrow> path \<Rightarrow> path" where
  "canonical_or_self fs p = (case fs_canon fs p of Inr q \<Rightarrow> q | Inl _ \<Rightarrow> p)"

definition ensure_path_within_workspace_resolved ::
  "filesystem \<Rightarrow> path \<Rightarrow> path \<Rightarrow> path rresult" where
  "ensure_path_within_workspace_resolved fs candidate workspace_root =
     (let normalized_root = normalize_path workspace_root;
          normalized_candidate = normalize_path candidate;
          canonical_root = canonical_or_self fs normalized_root
      in if normalized_root = normalized_candidate then Inr normalized_candidate
         else case path_strip_prefix normalized_candidate normalized_root of
                None \<Rightarrow> bail (''path '' @ quoted (display_path candidate) @ '' escapes the workspace root'')
              | Some relative \<Rightarrow>
                  bindr (walk_components fs canonical_root candidate normalized_root relative)
                    (\<lambda>_. Inr normalized_candidate))"

function nearest_existing :: "filesystem \<Rightarrow> path \<Rightarrow> path \<Rightarrow> path rresult" where
  "nearest_existing fs normalized current =
     (case path_parent current of
        None \<Rightarrow> Inr normalized
      | Some parent \<Rightarrow>
          if fs_exists fs parent
          then (case fs_canon fs parent of
                  Inl e \<Rightarrow> bail (''Failed to resolve canonical path for '' @ quoted (display_path parent) @ '': '' @ e)
                | Inr canonical_parent \<Rightarrow>
                    let remainder = (case path_strip_prefix normalized parent of Some r \<Rightarrow> r | None \<Rightarrow> [])
                    in if remainder = [] then Inr canonical_parent
                       else Inr (path_join canonical_parent remainder))
          else nearest_existing fs normalized parent)"
  by pat_completeness auto
termination
  by (relation "measure (\<lambda>(fs, normalized, current). length current)")
    (auto simp: path_parent_def split: if_splits)

declare nearest_existing.simps [simp del]

definition canonicalize_allow_missing :: "filesystem \<Rightarrow> path \<Rightarrow> path rresult" where
  "canonicalize_allow_missing fs normalized =
     (if fs_exists fs normalized
      then (case fs_canon fs normalized of
              Inl e \<Rightarrow> bail (''Failed to resolve canonical path for '' @ quoted (display_path normalized) @ '': '' @ e)
            | Inr q \<Rightarrow> Inr q)
      else nearest_existing fs normalized normalized)"

subsection \<open>Display of workspace paths\<close>

definition canonicalize_workspace :: "filesystem \<Rightarrow> path \<Rightarrow> path" where
  "canonicalize_workspace fs workspace_root =
     (case fs_canon fs workspace_root of Inr q \<Rightarrow> q | Inl _ \<Rightarrow> workspace_root)"

definition secure_path :: "filesystem \<Rightarrow> path \<Rightarrow> path \<Rightarrow> path rresult" where
  "secure_path fs workspace_root user_path = resolve_workspace_path fs workspace_root user_path"

text \<open>\<open>None\<close> is \<open>DisplayResolution::Unresolved\<close>. The loop pushes each missing name and continues with
  the parent; the names are pushed back in reverse order, so the tail is built by a cons.\<close>

function existing_ancestor :: "filesystem \<Rightarrow> path \<Rightarrow> path \<Rightarrow> (path \<times> path) option" where
  "existing_ancestor fs existing_prefix missing_tail =
     (case fs_lstat fs existing_prefix of
        LMeta _ _ \<Rightarrow> Some (existing_prefix, missing_tail)
      | LError _ \<Rightarrow> None
      | LNotFound \<Rightarrow>
          (case path_file_name existing_prefix of
             None \<Rightarrow> None
           | Some name \<Rightarrow>
               (case path_parent existing_prefix of
                  None \<Rightarrow> None
                | Some parent \<Rightarrow> existing_ancestor fs parent (Normal name # missing_tail))))"
  by pat_completeness auto
termination
  by (relation "measure (\<lambda>(fs, p, tail). length p)") (auto simp: path_parent_def split: if_splits)

declare existing_ancestor.simps [simp del]

definition canonicalize_for_display :: "filesystem \<Rightarrow> path \<Rightarrow> path option" where
  "canonicalize_for_display fs p =
     (case fs_canon fs p of
        Inr canonical \<Rightarrow> Some canonical
      | Inl _ \<Rightarrow>
          (case existing_ancestor fs p [] of
             None \<Rightarrow> None
           | Some (existing_prefix, missing_tail) \<Rightarrow>
               (case fs_canon fs existing_prefix of
                  Inl _ \<Rightarrow> None
                | Inr canonical \<Rightarrow> Some (canonical @ missing_tail))))"

text \<open>The path is given by its text, which is what is shown when it lies outside the workspace.\<close>

definition workspace_relative_display :: "filesystem \<Rightarrow> path \<Rightarrow> string \<Rightarrow> string" where
  "workspace_relative_display fs workspace_root given =
     (let p = components given;
          candidate = (if is_absolute p then p else path_join workspace_root p)
      in case fs_canon fs workspace_root of
           Inr canonical_workspace \<Rightarrow>
             (case canonicalize_for_display fs candidate of
                Some canonical_candidate \<Rightarrow>
                  (case path_strip_prefix canonical_candidate canonical_workspace of
                     Some relative \<Rightarrow> display_path relative
                   | None \<Rightarrow> given)
              | None \<Rightarrow> given)
         | Inl _ \<Rightarrow>
             (case path_strip_prefix (normalize_path candidate) (normalize_path workspace_root) of
                Some relative \<Rightarrow> display_path relative
              | None \<Rightarrow> given))"

subsection \<open>Scopes of the workspace directories\<close>

datatype path_scope = ScopeWorkspace | ScopeConfig | ScopeCache | ScopeTelemetry

record workspace_paths =
  wp_root :: path
  wp_config :: path
  wp_cache :: "path option"
  wp_telemetry :: "path option"

definition path_is_within :: "path \<Rightarrow> path option \<Rightarrow> bool" where
  "path_is_within p dir \<longleftrightarrow> (case dir of Some d \<Rightarrow> path_starts_with p d | None \<Rightarrow> False)"

definition scope_for_path :: "workspace_paths \<Rightarrow> path \<Rightarrow> path_scope" where
  "scope_for_path ws p =
     (if path_starts_with p (wp_root ws) then ScopeWorkspace
      else if path_starts_with p (wp_config ws) then ScopeConfig
      else if path_is_within p (wp_cache ws) then ScopeCache
      else if path_is_within p (wp_telemetry ws) then ScopeTelemetry
      else ScopeCache)"

fun scope_description :: "path_scope \<Rightarrow> string" where
  "scope_description ScopeWorkspace = ''workspace''"
| "scope_description ScopeConfig = ''configuration''"
| "scope_description ScopeCache = ''cache''"
| "scope_description ScopeTelemetry = ''telemetry''"

definition resolve_in :: "workspace_paths \<Rightarrow> path \<Rightarrow> path" where
  "resolve_in ws relative = path_join (wp_root ws) relative"

definition resolve_config :: "workspace_paths \<Rightarrow> path \<Rightarrow> path" where
  "resolve_config ws relative = path_join (wp_config ws) relative"

end
