(* ===== verification/Paths_Facts.thy ===== *)
theory Paths_Facts
  imports Paths_Model
begin

text \<open>
  Properties of the path functions: what normalisation leaves, what the lexical and the
  symlink-resolving containment checks guarantee, what the textual check of a path excludes and the
  spelling of a system directory that it lets through.
\<close>

subsection \<open>Normal paths\<close>

definition plain_names :: "path \<Rightarrow> bool" where
  "plain_names p \<longleftrightarrow> (\<forall>c \<in> set p. \<exists>s. c = Normal s)"

definition normal_path :: "path \<Rightarrow> bool" where
  "normal_path p \<longleftrightarrow> plain_names p \<or> (\<exists>q. p = RootDir # q \<and> plain_names q)"

lemma plain_names_simps [simp]:
  "plain_names []"
  "plain_names (c # p) \<longleftrightarrow> (\<exists>s. c = Normal s) \<and> plain_names p"
  "plain_names (p @ q) \<longleftrightarrow> plain_names p \<and> plain_names q"
  by (auto simp: plain_names_def)

lemma plain_names_butlast: "plain_names p \<Longrightarrow> plain_names (butlast p)"
  by (auto simp: plain_names_def dest: in_set_butlastD)

lemma plain_names_drop: "plain_names p \<Longrightarrow> plain_names (drop n p)"
  by (auto simp: plain_names_def dest: in_set_dropD)

lemma path_pop_normal: "normal_path p \<Longrightarrow> normal_path (path_pop p)"
  by (auto simp: normal_path_def path_pop_def path_parent_def plain_names_butlast split: if_splits)

lemma normal_path_snoc: "normal_path acc \<Longrightarrow> normal_path (acc @ [Normal s])"
  by (auto simp: normal_path_def)

lemma normal_path_root [simp]: "normal_path [RootDir]" "normal_path []"
  by (auto simp: normal_path_def)

lemma normalize_step_normal: "normal_path acc \<Longrightarrow> normal_path (normalize_step acc c)"
  by (cases c) (auto simp: path_pop_normal normal_path_snoc)

lemma foldl_normalize_normal: "normal_path acc \<Longrightarrow> normal_path (foldl normalize_step acc p)"
  by (induction p arbitrary: acc) (simp_all add: normalize_step_normal)

lemma normalize_path_normal: "normal_path (normalize_path p)"
  unfolding normalize_path_def by (rule foldl_normalize_normal) (simp add: normal_path_def)

lemma foldl_normalize_plain: "plain_names p \<Longrightarrow> foldl normalize_step acc p = acc @ p"
  by (induction p arbitrary: acc) auto

lemma normalize_path_id: "normal_path p \<Longrightarrow> normalize_path p = p"
  by (auto simp: normal_path_def normalize_path_def foldl_normalize_plain)

lemma path_starts_with_iff: "path_starts_with p q \<longleftrightarrow> (\<exists>r. p = q @ r)"
  unfolding path_starts_with_def by (metis append_eq_conv_conj append_take_drop_id)

lemma normal_path_rest: "normal_path (p @ q) \<Longrightarrow> p \<noteq> [] \<Longrightarrow> plain_names q"
  by (cases p) (auto simp: normal_path_def)

lemma normalize_path_append: "normal_path p \<Longrightarrow> plain_names q \<Longrightarrow> normalize_path (p @ q) = p @ q"
  using normalize_path_id [of p] by (simp add: normalize_path_def foldl_normalize_plain)

subsection \<open>The component walk\<close>

text \<open>Every component up to the first missing one resolves inside the root.\<close>

definition confined :: "filesystem \<Rightarrow> path \<Rightarrow> path \<Rightarrow> nat \<Rightarrow> bool" where
  "confined fs canonical_root p k \<longleftrightarrow>
     (\<exists>r. fs_canon fs (take k p) = Inr r \<and> path_starts_with r canonical_root)"

lemma walk_components_ok:
  assumes "walk_components fs root candidate pfx rest = Inr ()"
    "length pfx < k" "k \<le> length (pfx @ rest)"
    "\<forall>j. length pfx < j \<and> j \<le> k \<longrightarrow> fs_lstat fs (take j (pfx @ rest)) \<noteq> LNotFound"
  shows "confined fs root (pfx @ rest) k
    \<and> (k < length (pfx @ rest) \<longrightarrow> fs_lstat fs (take k (pfx @ rest)) \<noteq> LMeta False True)"
  using assms
proof (induction rest arbitrary: pfx)
  case (Cons c rest)
  let ?p = "pfx @ c # rest" and ?pfx = "pfx @ [c]"
  have "fs_lstat fs (take (Suc (length pfx)) ?p) \<noteq> LNotFound" using Cons.prems by auto
  then have exists: "fs_lstat fs ?pfx \<noteq> LNotFound" by simp
  with Cons.prems(1) obtain symlink is_file where meta: "fs_lstat fs ?pfx = LMeta symlink is_file"
    by (auto simp: Let_def bail_def split: lstat_result.splits)
  with Cons.prems(1) obtain r where r: "fs_canon fs ?pfx = Inr r" "path_starts_with r root"
    and walk: "walk_components fs root candidate ?pfx rest = Inr ()"
    and no_file: "\<not> (\<not> symlink \<and> is_file \<and> rest \<noteq> [])"
    by (auto simp: Let_def bail_def split: sum.splits if_splits)
  show ?case
  proof (cases "k = Suc (length pfx)")
    case True
    with r meta no_file show ?thesis by (auto simp: confined_def)
  next
    case False
    with Cons.prems have "length ?pfx < k" by simp
    with Cons.IH [OF walk this] Cons.prems(3,4) show ?thesis by simp
  qed
qed simp

subsection \<open>The nearest existing ancestor\<close>

lemma normal_path_nth_root: "normal_path p \<Longrightarrow> m < length p \<Longrightarrow> p ! m = RootDir \<Longrightarrow> m = 0"
proof (cases m)
  case (Suc k)
  assume "normal_path p" "m < length p" "p ! m = RootDir"
  with Suc have "RootDir \<in> set (tl p)" by (cases p) (auto dest: nth_mem)
  with \<open>normal_path p\<close> show ?thesis by (cases p) (auto simp: normal_path_def plain_names_def)
qed simp

lemma nearest_existing_spec:
  assumes "nearest_existing fs p cur = Inr q" "cur = take n p" "n \<le> length p" "normal_path p"
    "\<forall>j. n \<le> j \<and> j \<le> length p \<longrightarrow> \<not> fs_exists fs (take j p)"
  shows "(\<exists>k c. k < length p \<and> fs_exists fs (take k p) \<and> (\<forall>j. k < j \<and> j \<le> length p \<longrightarrow> \<not> fs_exists fs (take j p))
            \<and> fs_canon fs (take k p) = Inr c \<and> q = path_join c (drop k p))
    \<or> q = p \<and> (\<forall>j. 0 < j \<and> j \<le> length p \<longrightarrow> \<not> fs_exists fs (take j p))"
  using assms
proof (induction fs p cur arbitrary: n rule: nearest_existing.induct)
  case (1 fs p cur)
  show ?case
  proof (cases "path_parent cur")
    case None
    with "1.prems"(1) have "q = p" by (simp add: nearest_existing.simps)
    moreover have "n \<le> 1"
    proof (cases n)
      case (Suc m)
      with "1.prems"(2,3) have "cur = take m p @ [p ! m]" by (simp add: take_Suc_conv_app_nth)
      with None have "p ! m = RootDir" by (simp add: path_parent_def split: if_splits)
      with Suc "1.prems"(3,4) show ?thesis using normal_path_nth_root by fastforce
    qed simp
    ultimately show ?thesis using "1.prems"(5) by auto
  next
    case (Some parent)
    then have cur: "cur \<noteq> []" "parent = butlast cur" by (auto simp: path_parent_def split: if_splits)
    with "1.prems"(2,3) have n: "0 < n" "parent = take (n - 1) p" by (auto simp: butlast_take)
    show ?thesis
    proof (cases "fs_exists fs parent")
      case True
      from "1.prems"(5) n have above: "\<forall>j. n - 1 < j \<and> j \<le> length p \<longrightarrow> \<not> fs_exists fs (take j p)"
        by auto
      from True Some "1.prems"(1) obtain c where c: "fs_canon fs parent = Inr c"
        by (auto simp: nearest_existing.simps bail_def split: sum.splits)
      have "path_strip_prefix p parent = Some (drop (n - 1) p)"
        using n "1.prems"(3) by (auto simp: path_strip_prefix_def path_starts_with_def)
      moreover have "drop (n - 1) p \<noteq> []" using n "1.prems"(3) by simp
      ultimately have "q = path_join c (drop (n - 1) p)"
        using True Some "1.prems"(1) c by (simp add: nearest_existing.simps Let_def)
      moreover have "n - 1 < length p" using n "1.prems"(3) by simp
      ultimately show ?thesis using True above c n(2) by blast
    next
      case False
      have "nearest_existing fs p parent = Inr q"
        using False Some "1.prems"(1) by (simp add: nearest_existing.simps)
      moreover have "\<forall>j. n - 1 \<le> j \<and> j \<le> length p \<longrightarrow> \<not> fs_exists fs (take j p)"
      proof (intro allI impI)
        fix j assume "n - 1 \<le> j \<and> j \<le> length p"
        with False n "1.prems"(5) show "\<not> fs_exists fs (take j p)"
          by (cases "j = n - 1") auto
      qed
      ultimately show ?thesis
        using "1.IH" [OF Some False, of "n - 1"] n "1.prems"(3,4) by simp
    qed
  qed
qed

lemma foldl_normalize_absolute: "is_absolute acc \<Longrightarrow> is_absolute (foldl normalize_step acc p)"
proof (induction p arbitrary: acc)
  case (Cons c p)
  have "is_absolute (normalize_step acc c)"
    using Cons.prems
    by (cases c; cases acc rule: rev_cases)
      (auto simp: is_absolute_def path_pop_def path_parent_def hd_append split: if_splits)
  with Cons.IH show ?case by simp
qed simp

lemma normalize_path_absolute: "is_absolute p \<Longrightarrow> is_absolute (normalize_path p)"
  using foldl_normalize_absolute [of "[RootDir]"]
  by (cases p) (auto simp: normalize_path_def is_absolute_def)

subsection \<open>Texts and components\<close>

lemma join_contains: "w \<in> set ws \<Longrightarrow> contains_str (join d ws) w"
proof (induction d ws rule: join.induct)
  case (3 d x y ys)
  consider "w = x" | "w \<in> set (y # ys)" using 3 by auto
  then show ?case
  proof cases
    case 1
    have "join d (x # y # ys) = [] @ x @ (d @ join d (y # ys))" by simp
    then show ?thesis unfolding contains_str_iff 1 by blast
  next
    case 2
    with 3 obtain a b where "join d (y # ys) = a @ w @ b" by (auto simp: contains_str_iff)
    then have "join d (x # y # ys) = (x @ d @ a) @ w @ b" by simp
    then show ?thesis unfolding contains_str_iff by blast
  qed
next
  case (2 d x)
  then have "join d [x] = [] @ w @ []" by simp
  then show ?case unfolding contains_str_iff by blast
qed simp

lemma ParentDir_contains: "ParentDir \<in> set (components s) \<Longrightarrow> contains_str s ''..''"
proof -
  assume "ParentDir \<in> set (components s)"
  then have "''..'' \<in> set (split_char CHR ''/'' s)"
    by (auto simp: components_def segment_component_def Let_def split: if_splits)
  then have "contains_str (join ''/'' (split_char CHR ''/'' s)) ''..''" by (rule join_contains)
  then show ?thesis by (simp add: join_split_char)
qed

lemma is_ok_unit: "is_ok r \<longleftrightarrow> r = ok_unit"
  by (auto simp: is_ok_iff)

lemma validate_path_safety_ok:
  "is_ok (validate_path_safety s) \<longleftrightarrow> s = []
    \<or> \<not> contains_str s ''..'' \<and> \<not> contains_str s ''/.../''
      \<and> (starts_with s ''/'' \<longrightarrow> (\<forall>d \<in> set unix_critical. is_ok (critical_prefix_check s d)))
      \<and> (\<forall>c \<in> set s. c \<notin> set dangerous_path_chars)"
proof -
  have "contains_str s ''..''" if "contains_str s ''~/../''"
  proof -
    from that obtain a b where "s = a @ ''~/../'' @ b" by (auto simp: contains_str_iff)
    then have "s = (a @ ''~/'') @ ''..'' @ (''/'' @ b)" by simp
    then show ?thesis unfolding contains_str_iff by blast
  qed
  then show ?thesis
    by (auto simp: validate_path_safety_def result_simps is_ok_unit)
qed

lemma critical_prefix_ok:
  "is_ok (critical_prefix_check s d) \<longleftrightarrow>
    d = ''/var'' \<and> (\<exists>e \<in> {''/var/folders'', ''/var/tmp''}. s = e \<or> starts_with s (e @ ''/''))
    \<or> s \<noteq> d \<and> \<not> starts_with s (d @ ''/'')"
proof -
  have "matches_critical_prefix s d \<longleftrightarrow> s = d \<or> starts_with s (d @ ''/'')"
    by (auto simp: matches_critical_prefix_def strip_prefix_Some starts_with_prefix prefix_def
        split: option.splits)
      (metis not_Some_eq strip_prefix_Some)
  then show ?thesis by (auto simp: critical_prefix_check_def Let_def)
qed

subsection \<open>Properties\<close>

text \<open>a normalised path has no \<open>.\<close> and no \<open>..\<close> and at most a leading root, it is its own normal form,
  and an absolute path stays absolute: no \<open>..\<close> climbs above the root.\<close>

theorem normalize_path_correct:
  "normal_path (normalize_path p) \<and> normalize_path (normalize_path p) = normalize_path p
   \<and> (is_absolute p \<longrightarrow> is_absolute (normalize_path p))"
  using normalize_path_normal normalize_path_id normalize_path_absolute by blast

theorem normalize_path_correct_witness:
  "is_absolute (normalize_path (components ''/../a/./b/../c''))"
proof -
  have "is_absolute (components ''/../a/./b/../c'')" by code_simp
  with normalize_path_correct show ?thesis by blast
qed

text \<open>the lexical check accepts a path under an absolute root exactly when its normal form is the
  root's followed by plain names, and returns that normal form.\<close>

theorem lexical_containment:
  assumes "is_absolute root"
  shows "ensure_path_within_workspace candidate root = Inr q \<longleftrightarrow>
    q = normalize_path candidate \<and> (\<exists>names. plain_names names \<and> q = normalize_path root @ names)"
proof -
  have "normalize_path root \<noteq> []" using normalize_path_absolute [OF assms] by (auto simp: is_absolute_def)
  then have "plain_names names" if "normalize_path candidate = normalize_path root @ names" for names
    using that normalize_path_normal [of candidate] normal_path_rest by simp
  then show ?thesis
    by (auto simp: ensure_path_within_workspace_def bail_def path_starts_with_iff Let_def)
qed

theorem lexical_containment_witness:
  "\<exists>names. plain_names names \<and> normalize_path (components ''/w/a/../b'') = normalize_path (components ''/w'') @ names"
proof -
  have "is_absolute (components ''/w'')" by code_simp
  from lexical_containment [OF this]
  have "ensure_path_within_workspace (components ''/w/a/../b'') (components ''/w'') = Inr (normalize_path (components ''/w/a/../b''))
          \<longrightarrow> ?thesis" by auto
  moreover have "ensure_path_within_workspace (components ''/w/a/../b'') (components ''/w'')
                   = Inr (normalize_path (components ''/w/a/../b''))" by code_simp
  ultimately show ?thesis by blast
qed

lemma resolved_components:
  assumes "ensure_path_within_workspace_resolved fs candidate root = Inr q"
    "length (normalize_path root) < k" "k \<le> length q"
    "\<forall>j. length (normalize_path root) < j \<and> j \<le> k \<longrightarrow> fs_lstat fs (take j q) \<noteq> LNotFound"
  shows "q = normalize_path candidate
    \<and> confined fs (canonical_or_self fs (normalize_path root)) q k
    \<and> (k < length q \<longrightarrow> fs_lstat fs (take k q) \<noteq> LMeta False True)"
proof -
  from assms(1) have q: "q = normalize_path candidate"
    by (auto simp: ensure_path_within_workspace_resolved_def bail_def result_simps Let_def
        split: if_splits option.splits)
  have "normalize_path root \<noteq> q" using assms(2,3) by auto
  with assms(1) q obtain rest where rest: "q = normalize_path root @ rest"
    and walk: "walk_components fs (canonical_or_self fs (normalize_path root)) candidate (normalize_path root) rest = Inr ()"
    by (auto simp: ensure_path_within_workspace_resolved_def bail_def result_simps Let_def
        path_strip_prefix_def path_starts_with_iff split: if_splits option.splits)
  from walk_components_ok [OF walk assms(2)] assms(3,4) rest q show ?thesis by simp
qed

text \<open>C6: the resolving check follows symbolic links: in an accepted path every component below the root,
  up to the first that does not exist, resolves inside the canonical root, and none but the last is a
  plain file.\<close>

theorem resolved_containment:
  assumes "ensure_path_within_workspace_resolved fs candidate root = Inr q"
    "length (normalize_path root) < k" "k \<le> length q"
    "\<forall>j. length (normalize_path root) < j \<and> j \<le> k \<longrightarrow> fs_lstat fs (take j q) \<noteq> LNotFound"
  shows "q = normalize_path candidate
    \<and> confined fs (canonical_or_self fs (normalize_path root)) q k
    \<and> (k < length q \<longrightarrow> fs_lstat fs (take k q) \<noteq> LMeta False True)"
  using assms by (rule resolved_components)

definition link_fs :: filesystem where
  "link_fs = \<lparr>fs_canon = (\<lambda>p. Inr (if p = components ''/w/ln'' then components ''/w/real'' else p)),
     fs_lstat = (\<lambda>p. if p = components ''/w/ln/new'' then LNotFound
                   else LMeta (p = components ''/w/ln'') False),
     fs_stat = (\<lambda>p. Inr (False, True)), fs_exists = (\<lambda>p. p \<noteq> components ''/w/ln/new''),
     fs_cwd = Inr (components ''/w''), fs_home = None\<rparr>"

theorem resolved_containment_witness:
  "confined link_fs (canonical_or_self link_fs (normalize_path (components ''/w''))) (components ''/w/ln/new'') 3"
proof -
  have ok: "ensure_path_within_workspace_resolved link_fs (components ''/w/ln/new'') (components ''/w'')
              = Inr (components ''/w/ln/new'')" by code_simp
  have n: "normalize_path (components ''/w'') = [RootDir, Normal ''w'']"
    "components ''/w/ln/new'' = [RootDir, Normal ''w'', Normal ''ln'', Normal ''new'']" by code_simp+
  show ?thesis
    using resolved_containment [OF ok, of 3] unfolding n
    by (auto simp: link_fs_def n numeral_3_eq_3 less_Suc_eq_le le_Suc_eq)
qed

text \<open>the textual check accepts exactly the paths with no parent step, no shell character, and, when
  absolute, no text that continues a system directory other than the temporary parts of \<open>/var\<close>; so no
  component of an accepted path is \<open>..\<close>.\<close>

theorem path_safety_iff:
  "(is_ok (validate_path_safety s) \<longleftrightarrow> s = []
      \<or> \<not> contains_str s ''..'' \<and> \<not> contains_str s ''/.../''
        \<and> (\<forall>c \<in> set s. c \<notin> set dangerous_path_chars)
        \<and> (starts_with s ''/'' \<longrightarrow>
             (\<forall>d \<in> set unix_critical. (s = d \<or> starts_with s (d @ ''/'')) \<longrightarrow>
                d = ''/var'' \<and> (\<exists>e \<in> {''/var/folders'', ''/var/tmp''}. s = e \<or> starts_with s (e @ ''/'')))))
   \<and> (is_ok (validate_path_safety s) \<longrightarrow> ParentDir \<notin> set (components s))"
proof (intro conjI impI)
  show "is_ok (validate_path_safety s) \<longleftrightarrow> s = []
      \<or> \<not> contains_str s ''..'' \<and> \<not> contains_str s ''/.../''
        \<and> (\<forall>c \<in> set s. c \<notin> set dangerous_path_chars)
        \<and> (starts_with s ''/'' \<longrightarrow>
             (\<forall>d \<in> set unix_critical. (s = d \<or> starts_with s (d @ ''/'')) \<longrightarrow>
                d = ''/var'' \<and> (\<exists>e \<in> {''/var/folders'', ''/var/tmp''}. s = e \<or> starts_with s (e @ ''/''))))"
    unfolding validate_path_safety_ok critical_prefix_ok by blast
next
  assume "is_ok (validate_path_safety s)"
  moreover have "components [] = []" by code_simp
  ultimately show "ParentDir \<notin> set (components s)"
    using ParentDir_contains by (auto simp: validate_path_safety_ok)
qed

theorem path_safety_iff_witness:
  "ParentDir \<notin> set (components ''/var/tmp/x'')"
proof -
  have "is_ok (validate_path_safety ''/var/tmp/x'')" by code_simp
  with path_safety_iff show ?thesis by blast
qed

text \<open>the system directories are compared as text, so a doubled slash or a \<open>.\<close> segment, which the
  standard library reads as the same path, passes the check that the usual spelling fails.\<close>

theorem critical_spelling_bypass:
  "components ''//etc/passwd'' = components ''/etc/passwd''
   \<and> components ''/./etc/passwd'' = components ''/etc/passwd''
   \<and> is_ok (validate_path_safety ''//etc/passwd'') \<and> is_ok (validate_path_safety ''/./etc/passwd'')
   \<and> \<not> is_ok (validate_path_safety ''/etc/passwd'')"
  by code_simp

text \<open>a missing path is resolved through its nearest existing ancestor: the result is the canonical form of
  the longest existing proper prefix followed by the names after it, or the path itself when there is none.\<close>

theorem canonicalize_missing_spec:
  assumes "canonicalize_allow_missing fs p = Inr q" "\<not> fs_exists fs p" "normal_path p"
  shows "(\<exists>k c. k < length p \<and> fs_exists fs (take k p)
            \<and> (\<forall>j. k < j \<and> j \<le> length p \<longrightarrow> \<not> fs_exists fs (take j p))
            \<and> fs_canon fs (take k p) = Inr c \<and> q = path_join c (drop k p))
    \<or> q = p \<and> (\<forall>j. 0 < j \<and> j \<le> length p \<longrightarrow> \<not> fs_exists fs (take j p))"
  using assms nearest_existing_spec [of fs p p q "length p"]
  by (auto simp: canonicalize_allow_missing_def le_antisym)

theorem canonicalize_missing_spec_witness:
  "\<not> fs_exists link_fs (components ''/w/ln/new'')
   \<and> ((\<exists>k c. k < length (components ''/w/ln/new'') \<and> fs_exists link_fs (take k (components ''/w/ln/new''))
            \<and> (\<forall>j. k < j \<and> j \<le> length (components ''/w/ln/new'') \<longrightarrow> \<not> fs_exists link_fs (take j (components ''/w/ln/new'')))
            \<and> fs_canon link_fs (take k (components ''/w/ln/new'')) = Inr c
            \<and> components ''/w/real/new'' = path_join c (drop k (components ''/w/ln/new'')))
    \<or> components ''/w/real/new'' = components ''/w/ln/new'' \<and> (\<forall>j. 0 < j \<and> j \<le> length (components ''/w/ln/new'') \<longrightarrow> \<not> fs_exists link_fs (take j (components ''/w/ln/new''))))"
proof
  show missing: "\<not> fs_exists link_fs (components ''/w/ln/new'')" by code_simp
  have "components ''/w/ln/new'' = [RootDir, Normal ''w'', Normal ''ln'', Normal ''new'']" by code_simp
  then have normal: "normal_path (components ''/w/ln/new'')" by (auto simp: normal_path_def)
  have ok: "canonicalize_allow_missing link_fs (components ''/w/ln/new'') = Inr (components ''/w/real/new'')"
    by code_simp
  from canonicalize_missing_spec [OF ok missing normal]
  show "(\<exists>k c. k < length (components ''/w/ln/new'') \<and> fs_exists link_fs (take k (components ''/w/ln/new''))
            \<and> (\<forall>j. k < j \<and> j \<le> length (components ''/w/ln/new'') \<longrightarrow> \<not> fs_exists link_fs (take j (components ''/w/ln/new'')))
            \<and> fs_canon link_fs (take k (components ''/w/ln/new'')) = Inr c
            \<and> components ''/w/real/new'' = path_join c (drop k (components ''/w/ln/new'')))
    \<or> components ''/w/real/new'' = components ''/w/ln/new'' \<and> (\<forall>j. 0 < j \<and> j \<le> length (components ''/w/ln/new'') \<longrightarrow> \<not> fs_exists link_fs (take j (components ''/w/ln/new'')))" .
qed

text \<open>a path below both the workspace and the configuration directory is in the workspace scope, also
  when the configuration directory is the more specific of the two.\<close>

theorem scope_prefers_workspace:
  "scope_for_path \<lparr>wp_root = components ''/w'', wp_config = components ''/w/.vtcode'',
                   wp_cache = None, wp_telemetry = None\<rparr> (components ''/w/.vtcode/tools.toml'') = ScopeWorkspace"
  by code_simp

end
