(* ===== verification/Shell_Syntax.thy ===== *)
theory Shell_Syntax
  imports VT_Prelude
begin

text \<open>
  The shell parser of the safety crate,
  \<^verbatim>\<open>crates/codegen/vtcode-safety/src/command_safety/shell_parser.rs\<close>: the character scanners
  (dynamic syntax, background operators, segment splitting), the walkers over the syntax tree, and
  the fallback tokenizer.

  Two third-party packages are parameters, bundled in the record \<open>shell_lib\<close>: the tree-sitter
  bash grammar (\<open>ts_ready\<close>: the parser could be built and locked, or the message of the error;
  \<open>ts_parse\<close>: the syntax tree of a script and whether it has an error node) and the crate
  \<^verbatim>\<open>shell_words\<close> (\<open>sw_split\<close>: the words of a command line, or the error message). A syntax
  node is what the walkers read of one: its kind, whether it is named, the field it fills in its
  parent, its text (or the message of a decoding error) and its children.
\<close>

datatype ts_node =
  TsNode (ts_kind: string) (ts_named: bool) (ts_field: "string option")
         (ts_text: "string + string") (ts_children: "ts_node list")

record shell_lib =
  ts_ready :: "string + unit"
  ts_parse :: "string \<Rightarrow> (ts_node \<times> bool) option"
  sw_split :: "string \<Rightarrow> string + string list"

abbreviation "SQ \<equiv> CHR 0x27"
abbreviation "DQ \<equiv> CHR 0x22"
abbreviation "BS \<equiv> CHR 0x5C"
abbreviation "BQ \<equiv> CHR 0x60"
abbreviation "NL \<equiv> CHR 0x0A"

subsection \<open>Character scanners\<close>

datatype shell_quote = SingleQuote | DoubleQuote

fun dynamic_scan :: "shell_quote option \<Rightarrow> string \<Rightarrow> bool" where
  "dynamic_scan q [] \<longleftrightarrow> q \<noteq> None"
| "dynamic_scan (Some SingleQuote) (c # cs) \<longleftrightarrow>
     dynamic_scan (if c = SQ then None else Some SingleQuote) cs"
| "dynamic_scan (Some DoubleQuote) (c # cs) \<longleftrightarrow>
     (if c = DQ then dynamic_scan None cs
      else if c = CHR ''$'' \<or> c = BQ then True
      else if c = BS then (case cs of [] \<Rightarrow> True | _ # cs' \<Rightarrow> dynamic_scan (Some DoubleQuote) cs')
      else dynamic_scan (Some DoubleQuote) cs)"
| "dynamic_scan None (c # cs) \<longleftrightarrow>
     (if c = SQ then dynamic_scan (Some SingleQuote) cs
      else if c = DQ then dynamic_scan (Some DoubleQuote) cs
      else if c \<in> {BS, CHR ''$'', BQ, CHR ''{'', CHR ''}'', CHR ''*'', CHR ''?'', CHR ''['', CHR '']''}
      then True
      else dynamic_scan None cs)"

definition contains_dynamic_shell_syntax :: "string \<Rightarrow> bool" where
  "contains_dynamic_shell_syntax command \<longleftrightarrow> dynamic_scan None command"

fun background_scan :: "char option \<Rightarrow> bool \<Rightarrow> bool \<Rightarrow> string \<Rightarrow> bool" where
  "background_scan previous in_single in_double [] \<longleftrightarrow> False"
| "background_scan previous in_single in_double (c # cs) \<longleftrightarrow>
     (if c = SQ \<and> \<not> in_double then background_scan (Some c) (\<not> in_single) in_double cs
      else if c = DQ \<and> \<not> in_single then background_scan (Some c) in_single (\<not> in_double) cs
      else if in_single \<or> in_double then background_scan (Some c) in_single in_double cs
      else if c = CHR ''&''
      then (case cs of
              [] \<Rightarrow> previous \<notin> {Some CHR ''>'', Some CHR ''|'', Some CHR ''<''}
            | n # cs' \<Rightarrow>
                if n = CHR ''&'' then background_scan (Some n) in_single in_double cs'
                else if n = CHR ''>'' \<or> previous \<in> {Some CHR ''>'', Some CHR ''|'', Some CHR ''<''}
                then background_scan (Some c) in_single in_double cs
                else True)
      else background_scan (Some c) in_single in_double cs)"

definition contains_background_operator :: "string \<Rightarrow> bool" where
  "contains_background_operator script \<longleftrightarrow> background_scan None False False script"

definition is_output_redirection :: "string \<Rightarrow> bool" where
  "is_output_redirection text =
     (let redirect = trim_start_matches is_ascii_digit text
      in if starts_with redirect ''&>'' then \<not> starts_with redirect ''&>-''
         else case strip_prefix_str redirect ''>&'' of
                Some destination \<Rightarrow> list_all is_ascii_digit (trim destination)
              | None \<Rightarrow> starts_with redirect ''>'' \<and> \<not> starts_with redirect ''>&-'')"

subsection \<open>Segments of a command line\<close>

datatype quote_state = QNone | QSingle | QDouble

definition injection_msg :: string where
  "injection_msg = ''Command injection pattern detected''"

definition multiline_msg :: string where
  "multiline_msg = ''multi-line shell commands are not allowed; use file tools (write_file/apply_patch) for multi-line content instead of heredocs''"

text \<open>\<open>push_segment\<close>: the slice since the last boundary is the text \<open>seg\<close> read since then.\<close>

definition push_segment :: "string \<Rightarrow> string list \<Rightarrow> string list" where
  "push_segment seg segments =
     (let segment = trim seg in if segment \<noteq> [] then segments @ [segment] else segments)"

fun segment_scan :: "quote_state \<Rightarrow> bool \<Rightarrow> string \<Rightarrow> string list \<Rightarrow> string \<Rightarrow> string list rresult" where
  "segment_scan state escaped seg segments [] = Inr (push_segment seg segments)"
| "segment_scan QSingle escaped seg segments (c # cs) =
     segment_scan (if c = SQ then QNone else QSingle) escaped (seg @ [c]) segments cs"
| "segment_scan QDouble escaped seg segments (c # cs) =
     (if escaped then segment_scan QDouble False (seg @ [c]) segments cs
      else if c = BS then segment_scan QDouble True (seg @ [c]) segments cs
      else if c = DQ then segment_scan QNone False (seg @ [c]) segments cs
      else if c = BQ then bail injection_msg
      else if c = CHR ''$'' \<and> starts_with cs ''('' then bail injection_msg
      else segment_scan QDouble False (seg @ [c]) segments cs)"
| "segment_scan QNone escaped seg segments (c # cs) =
     (if escaped then segment_scan QNone False (seg @ [c]) segments cs
      else if c = BS then segment_scan QNone True (seg @ [c]) segments cs
      else if c = SQ then segment_scan QSingle False (seg @ [c]) segments cs
      else if c = DQ then segment_scan QDouble False (seg @ [c]) segments cs
      else if c = BQ then bail injection_msg
      else if c = CHR ''$'' \<and> starts_with cs ''('' then bail injection_msg
      else if c = CHR '';'' then bail ''Unquoted command chaining detected''
      else if c = NL then bail multiline_msg
      else if c = CHR ''|'' \<or> c = CHR ''&''
      then (case cs of
              [] \<Rightarrow> segment_scan QNone False [] (push_segment seg segments) cs
            | n # cs' \<Rightarrow>
                if n = c then segment_scan QNone False [] (push_segment seg segments) cs'
                else segment_scan QNone False [] (push_segment seg segments) cs)
      else segment_scan QNone False (seg @ [c]) segments cs)"

definition split_shell_segments :: "string \<Rightarrow> string list rresult" where
  "split_shell_segments command = segment_scan QNone False [] [] command"

subsection \<open>Command names\<close>

definition base_command_name :: "string \<Rightarrow> string" where
  "base_command_name command = (case file_name command of Some n \<Rightarrow> n | None \<Rightarrow> command)"

definition strip_wrapping_quotes :: "string \<Rightarrow> string" where
  "strip_wrapping_quotes token =
     (case Option.bind (strip_prefix_str token [SQ]) (\<lambda>t. strip_suffix_str t [SQ]) of
        Some t \<Rightarrow> t
      | None \<Rightarrow>
          (case Option.bind (strip_prefix_str token [DQ]) (\<lambda>t. strip_suffix_str t [DQ]) of
             Some t \<Rightarrow> t
           | None \<Rightarrow> token))"

definition fork_bomb :: string where
  "fork_bomb = '':(){:|:&};:''"

definition additional_dangerous_pattern :: "shell_lib \<Rightarrow> string \<Rightarrow> string option" where
  "additional_dangerous_pattern lib segment =
     (if starts_with (to_ascii_lowercase segment) fork_bomb then Some fork_bomb
      else let tokens = (case sw_split lib segment of Inr ws \<Rightarrow> ws
                                                    | Inl e \<Rightarrow> split_whitespace segment)
           in case tokens of
                [] \<Rightarrow> None
              | first # rest \<Rightarrow>
                  let name = to_ascii_lowercase (base_command_name (strip_wrapping_quotes first))
                  in if name = ''rmdir'' then Some ''rmdir''
                     else if name = ''wget'' then Some ''wget''
                     else if name = ''curl'' then Some ''curl''
                     else if name = ''chmod''
                             \<and> list_ex (\<lambda>arg. starts_with (strip_wrapping_quotes arg) ''777'') rest
                          then Some ''chmod 777''
                     else if name = ''chown''
                             \<and> list_ex (\<lambda>arg. let a = to_ascii_lowercase (strip_wrapping_quotes arg)
                                              in a = ''root'' \<or> starts_with a ''root:'') rest
                          then Some ''chown root''
                     else None)"

end
