(* ===== verification/Shell_Tree.thy ===== *)
theory Shell_Tree
  imports Shell_Syntax Paths_Model
begin

text \<open>
  The second half of \<^verbatim>\<open>shell_parser.rs\<close>: the walkers over the bash syntax tree, the
  fallback tokenizer and the checks built on them. The syntax tree and the word splitter come from
  the record \<open>shell_lib\<close>.
\<close>

subsection \<open>Extracting commands\<close>

definition word_kinds :: "string list" where
  "word_kinds = [''word'', ''string'', ''raw_string'', ''ansi_c_string'', ''simple_expansion'',
                 ''variable_expansion'']"

text \<open>The trimmed text of a child, if it decodes and is not blank.\<close>

definition node_word :: "ts_node \<Rightarrow> string list" where
  "node_word child =
     (case ts_text child of
        Inr arg \<Rightarrow> (let trimmed = trim arg in if trimmed \<noteq> [] then [trimmed] else [])
      | Inl e \<Rightarrow> [])"

definition child_words :: "ts_node \<Rightarrow> string list" where
  "child_words child =
     (if ts_kind child = ''command_name'' then node_word child
      else if ts_kind child \<in> set word_kinds then node_word child
      else [])"

text \<open>
  The outer option of \<open>extract_first\<close> is "a command child was found", the inner one its result.
\<close>

fun extract_command_from_node :: "ts_node \<Rightarrow> string list option"
  and extract_first :: "ts_node list \<Rightarrow> string list option option" where
  "extract_command_from_node (TsNode kind named field text children) =
     (case (if kind = ''pipeline'' then extract_first children else None) of
        Some r \<Rightarrow> r
      | None \<Rightarrow>
          (let command = concat (map child_words children)
           in if command = [] then None else Some command))"
| "extract_first [] = None"
| "extract_first (child # rest) =
     (if ts_kind child = ''command'' \<or> ts_kind child = ''simple_command''
      then Some (extract_command_from_node child)
      else extract_first rest)"

fun collect_commands_from_node :: "ts_node \<Rightarrow> string list list" where
  "collect_commands_from_node (TsNode kind named field text children) =
     (if kind = ''command'' \<or> kind = ''simple_command''
      then (case extract_command_from_node (TsNode kind named field text children) of
              Some cmd \<Rightarrow> if cmd \<noteq> [] then [cmd] else []
            | None \<Rightarrow> [])
      else concat (map collect_commands_from_node children))"

definition parse_with_tree_sitter :: "shell_lib \<Rightarrow> string \<Rightarrow> bool \<Rightarrow> string + string list list" where
  "parse_with_tree_sitter lib script reject_syntax_errors =
     (case ts_ready lib of
        Inl e \<Rightarrow> Inl e
      | Inr _ \<Rightarrow>
          (case ts_parse lib script of
             None \<Rightarrow> Inl ''Failed to parse script''
           | Some (root, has_error) \<Rightarrow>
               if reject_syntax_errors \<and> has_error
               then Inl ''Shell script contains syntax errors''
               else Inr (collect_commands_from_node root)))"

subsection \<open>The fallback tokenizer\<close>

definition tokenize_command :: "shell_lib \<Rightarrow> string \<Rightarrow> string + string list" where
  "tokenize_command lib cmd =
     (case sw_split lib cmd of
        Inr ws \<Rightarrow> Inr ws
      | Inl e \<Rightarrow> Inl (''failed to tokenize command: '' @ e))"

definition push_command :: "shell_lib \<Rightarrow> string \<Rightarrow> string list list \<Rightarrow> string list list" where
  "push_command lib current commands =
     (if trim current \<noteq> []
      then (case tokenize_command lib current of Inr cmd \<Rightarrow> commands @ [cmd] | Inl _ \<Rightarrow> commands)
      else commands)"

fun basic_scan ::
  "shell_lib \<Rightarrow> string list list \<Rightarrow> string \<Rightarrow> bool \<Rightarrow> char \<Rightarrow> bool \<Rightarrow> string \<Rightarrow> string list list" where
  "basic_scan lib commands current in_quotes quote_char escaped [] =
     push_command lib current commands"
| "basic_scan lib commands current in_quotes quote_char escaped (c # cs) =
     (if escaped then basic_scan lib commands (current @ [c]) in_quotes quote_char False cs
      else if c = BS then basic_scan lib commands current in_quotes quote_char True cs
      else if (c = SQ \<or> c = DQ) \<and> \<not> in_quotes
           then basic_scan lib commands current True c False cs
      else if c = quote_char \<and> in_quotes
           then basic_scan lib commands current False quote_char False cs
      else if (c = CHR ''&'' \<or> c = CHR ''|'' \<or> c = CHR '';'') \<and> \<not> in_quotes
           then basic_scan lib (push_command lib current commands) [] in_quotes quote_char False cs
      else basic_scan lib commands (current @ [c]) in_quotes quote_char False cs)"

definition parse_with_basic_tokenization :: "shell_lib \<Rightarrow> string \<Rightarrow> string + string list list" where
  "parse_with_basic_tokenization lib script =
     Inr (basic_scan lib [] [] False (CHR '' '') False script)"

definition parse_shell_commands :: "shell_lib \<Rightarrow> string \<Rightarrow> string + string list list" where
  "parse_shell_commands lib script =
     (case parse_with_tree_sitter lib script False of
        Inr commands \<Rightarrow>
          if commands \<noteq> [] then Inr commands else parse_with_basic_tokenization lib script
      | Inl _ \<Rightarrow> parse_with_basic_tokenization lib script)"

definition parse_shell_commands_tree_sitter :: "shell_lib \<Rightarrow> string \<Rightarrow> string + string list list" where
  "parse_shell_commands_tree_sitter lib script = parse_with_tree_sitter lib script True"

fun find_script :: "string list \<Rightarrow> string option" where
  "find_script (a # b # rest) =
     (if a \<in> {''-lc'', ''-c'', ''-il'', ''-ic''} then Some b else find_script (b # rest))"
| "find_script _ = None"

definition parse_bash_lc_commands :: "shell_lib \<Rightarrow> string list \<Rightarrow> string list list option" where
  "parse_bash_lc_commands lib command =
     (case command of
        [] \<Rightarrow> None
      | cmd_name # _ \<Rightarrow>
          (let base_cmd = (case file_name cmd_name of Some n \<Rightarrow> n | None \<Rightarrow> [])
           in if base_cmd \<noteq> ''bash'' \<and> base_cmd \<noteq> ''zsh'' \<and> base_cmd \<noteq> ''sh'' then None
              else case find_script command of
                     None \<Rightarrow> None
                   | Some script \<Rightarrow>
                       (case parse_shell_commands lib script of Inr cs \<Rightarrow> Some cs | Inl _ \<Rightarrow> None)))"

subsection \<open>Dynamic \<open>find\<close> syntax and redirections\<close>

definition contains_dynamic_find_syntax :: "shell_lib \<Rightarrow> string \<Rightarrow> bool" where
  "contains_dynamic_find_syntax lib script =
     ((case parse_shell_commands_tree_sitter lib script of
         Inr commands \<Rightarrow>
           list_ex (\<lambda>command.
             (case command of [] \<Rightarrow> False | program # _ \<Rightarrow> base_command_name program = ''find'')
             \<and> list_ex contains_dynamic_shell_syntax command) commands
       | Inl _ \<Rightarrow> False)
      \<or> (list_ex (\<lambda>word. base_command_name
             (trim_matches (\<lambda>c. \<not> is_ascii_alphanumeric c \<and> c \<noteq> CHR ''/'') word) = ''find'')
           (split_whitespace script)
         \<and> contains_dynamic_shell_syntax script))"

text \<open>The second component is the flag \<open>saw_redirection\<close>, threaded through the walk.\<close>

fun collect_output_redirections :: "ts_node \<Rightarrow> bool \<Rightarrow> bool \<times> bool"
  and collect_all :: "ts_node list \<Rightarrow> bool \<Rightarrow> bool \<times> bool" where
  "collect_output_redirections (TsNode kind named field text children) saw =
     (if kind = ''file_redirect''
      then (case text of
              Inl _ \<Rightarrow> (False, True)
            | Inr t \<Rightarrow> if is_output_redirection t then collect_all children True else (False, True))
      else if kind = ''heredoc_redirect'' \<or> kind = ''herestring_redirect'' then (False, saw)
      else collect_all children saw)"
| "collect_all [] saw = (True, saw)"
| "collect_all (child # rest) saw =
     (case collect_output_redirections child saw of
        (True, saw') \<Rightarrow> collect_all rest saw'
      | (False, saw') \<Rightarrow> (False, saw'))"

definition has_only_output_redirections :: "shell_lib \<Rightarrow> string \<Rightarrow> bool" where
  "has_only_output_redirections lib script =
     (if contains_dynamic_shell_syntax script then False
      else if contains_background_operator script then False
      else case ts_ready lib of
             Inl _ \<Rightarrow> False
           | Inr _ \<Rightarrow>
               (case ts_parse lib script of
                  None \<Rightarrow> False
                | Some (root, has_error) \<Rightarrow>
                    if has_error then False
                    else case collect_output_redirections root False of
                           (True, saw) \<Rightarrow> saw
                         | (False, saw) \<Rightarrow> False))"

text \<open>One \<open>destination\<close> of a \<open>file_redirect\<close> node: the body of the inner loop.\<close>

definition check_destination :: "shell_lib \<Rightarrow> bool \<Rightarrow> ts_node \<Rightarrow> unit rresult" where
  "check_destination lib descriptor_route destination =
     (case ts_text destination of
        Inl e \<Rightarrow> Inl [''invalid redirection destination'', e]
      | Inr raw \<Rightarrow>
          if contains_dynamic_shell_syntax raw
          then bail ''dynamic redirection destination is not allowed''
          else case sw_split lib raw of
                 Inl e \<Rightarrow> Inl [''invalid quoted redirection destination'', e]
               | Inr words \<Rightarrow>
                   (case words of
                      [path] \<Rightarrow>
                        if descriptor_route \<and> (path = ''-'' \<or> list_all is_ascii_digit path)
                        then ok_unit
                        else if starts_with path ''~''
                        then bail ''home-directory redirection destinations are not allowed''
                        else if path = ''/dev/null'' then ok_unit
                        else with_context (''unsafe shell redirection destination: '' @ path)
                               (validate_path_safety path)
                    | _ \<Rightarrow> bail ''redirection destination must be one literal path''))"

definition check_redirect :: "shell_lib \<Rightarrow> ts_node \<Rightarrow> unit rresult" where
  "check_redirect lib node =
     (if ts_kind node = ''file_redirect''
      then (case ts_text node of
              Inl e \<Rightarrow> Inl [''invalid shell redirection text'', e]
            | Inr text \<Rightarrow>
                let operator = trim_start_matches is_ascii_digit text;
                    descriptor_route = starts_with operator ''>&'' \<or> starts_with operator ''<&''
                in for_each (check_destination lib descriptor_route)
                     (filter (\<lambda>c. ts_field c = Some ''destination'') (ts_children node)))
      else ok_unit)"

text \<open>The stack \<open>pending\<close>, its top first: children are pushed in order, so the last comes off first.\<close>

function redirect_loop :: "shell_lib \<Rightarrow> ts_node list \<Rightarrow> unit rresult" where
  "redirect_loop lib [] = ok_unit"
| "redirect_loop lib (node # pending) =
     bindr (check_redirect lib node)
       (\<lambda>_. redirect_loop lib (rev (filter ts_named (ts_children node)) @ pending))"
  by pat_completeness auto
termination
proof (relation "measure (\<lambda>(lib, pending). sum_list (map size pending))")
  fix lib :: shell_lib and node pending
  have children: "sum_list (map size (filter ts_named cs)) \<le> size_list size cs" for cs
    by (induction cs) auto
  then have "sum_list (map size (filter ts_named (ts_children node))) < size node"
    by (cases node) (simp add: le_imp_less_Suc trans_le_add2)
  then show "((lib, rev (filter ts_named (ts_children node)) @ pending), lib, node # pending)
      \<in> measure (\<lambda>(lib, pending). sum_list (map size pending))"
    by (simp add: sum_list_rev rev_map [symmetric])
qed simp

definition validate_redirection_paths :: "shell_lib \<Rightarrow> string \<Rightarrow> unit rresult" where
  "validate_redirection_paths lib script =
     (if CHR ''<'' \<notin> set script \<and> CHR ''>'' \<notin> set script then ok_unit
      else case ts_ready lib of
             Inl e \<Rightarrow> bail e
           | Inr _ \<Rightarrow>
               (case ts_parse lib script of
                  None \<Rightarrow> bail ''failed to parse shell redirections''
                | Some (root, has_error) \<Rightarrow>
                    if has_error then bail ''cannot validate malformed shell redirections''
                    else redirect_loop lib [root]))"

end
