(* ===== verification/Dangerous_Commands.thy ===== *)
theory Dangerous_Commands
  imports Shell_Tree
begin

text \<open>
  The dangerous-command detector,
  \<^verbatim>\<open>crates/codegen/vtcode-safety/src/command_safety/dangerous_commands.rs\<close> (the Unix build;
  the \<open>cfg(windows)\<close> call is not modelled). A command is its argument vector, a list of strings.

  \<open>command_might_be_dangerous\<close> calls itself on the commands of a \<open>sh -c\<close> script, which the
  tree-sitter grammar and \<^verbatim>\<open>shell_words\<close> deliver, so it is defined with fuel: \<open>None\<close> is a
  recursion deeper than the fuel. \<open>Dangerous_Facts\<close> proves that the fuel chosen here is enough for
  every command as long as the libraries return pieces of the script they were given.
\<close>

subsection \<open>Command prefixes\<close>

definition extract_command_name :: "string \<Rightarrow> string" where
  "extract_command_name cmd = (case file_name cmd of Some n \<Rightarrow> n | None \<Rightarrow> cmd)"

definition executable_is_dynamic :: "string \<Rightarrow> bool" where
  "executable_is_dynamic executable \<longleftrightarrow>
     list_ex (\<lambda>c. c \<in> {CHR ''$'', BQ, CHR ''*'', CHR ''?'', CHR ''['', CHR '']'', CHR ''{'', CHR ''}''})
       executable"

definition is_environment_assignment :: "string \<Rightarrow> bool" where
  "is_environment_assignment argument =
     (case split_once CHR ''='' argument of
        None \<Rightarrow> False
      | Some (name, v) \<Rightarrow>
          (case name of
             [] \<Rightarrow> False
           | c # cs \<Rightarrow> (c = CHR ''_'' \<or> is_ascii_alphabetic c)
                       \<and> list_all (\<lambda>d. d = CHR ''_'' \<or> is_ascii_alphanumeric d) cs))"

text \<open>The option loops of \<open>env\<close> and \<open>sudo\<close>; \<open>None\<close> is the early return on an unknown option.\<close>

fun env_options :: "string list \<Rightarrow> string list option" where
  "env_options [] = Some []"
| "env_options (argument # rest) =
     (if is_environment_assignment argument \<or> argument \<in> {''-i'', ''--ignore-environment''}
      then env_options rest
      else if argument \<in> {''-u'', ''--unset''}
      then (case rest of [] \<Rightarrow> None | _ # rest' \<Rightarrow> env_options rest')
      else if starts_with argument ''--unset='' then env_options rest
      else if argument = ''--'' then Some rest
      else if starts_with argument ''-'' then None
      else Some (argument # rest))"

definition sudo_value_options :: "string list" where
  "sudo_value_options =
     [''-u'', ''--user'', ''-g'', ''--group'', ''-h'', ''--host'', ''-C'', ''--chdir'']"

definition sudo_flags :: "string list" where
  "sudo_flags = [''-E'', ''-H'', ''-n'', ''-S'', ''-k'', ''-K'', ''-b'']"

fun sudo_options :: "string list \<Rightarrow> string list option" where
  "sudo_options [] = Some []"
| "sudo_options (argument # rest) =
     (if argument = ''--'' then Some rest
      else if argument \<in> set sudo_value_options
      then (case rest of [] \<Rightarrow> None | _ # rest' \<Rightarrow> sudo_options rest')
      else if argument \<in> set sudo_flags
              \<or> starts_with argument ''--user='' \<or> starts_with argument ''--group=''
              \<or> starts_with argument ''--host='' \<or> starts_with argument ''--chdir=''
      then sudo_options rest
      else if starts_with argument ''-'' then None
      else Some (argument # rest))"

lemma env_options_suffix: "env_options xs = Some ys \<Longrightarrow> suffix ys xs"
  by (induction xs arbitrary: ys rule: env_options.induct)
    (auto simp: suffix_ConsI split: if_splits list.splits)

lemma sudo_options_suffix: "sudo_options xs = Some ys \<Longrightarrow> suffix ys xs"
  by (induction xs arbitrary: ys rule: sudo_options.induct)
    (auto simp: suffix_ConsI split: if_splits list.splits)

lemma dropWhile_Cons_length: "dropWhile P xs = y # ys \<Longrightarrow> length ys < length xs"
  by (metis Suc_le_lessD length_Cons length_dropWhile_le)

function unwrap_command_prefix :: "string list \<Rightarrow> string list option" where
  "unwrap_command_prefix command =
     (case dropWhile is_environment_assignment command of
        [] \<Rightarrow> None
      | executable # rest \<Rightarrow>
          if extract_command_name executable = ''env''
          then (case env_options rest of None \<Rightarrow> None | Some c \<Rightarrow> unwrap_command_prefix c)
          else if extract_command_name executable = ''sudo''
          then (case sudo_options rest of None \<Rightarrow> None | Some c \<Rightarrow> unwrap_command_prefix c)
          else Some (executable # rest))"
  by pat_completeness auto

termination
  by (relation "measure length")
    (auto dest!: env_options_suffix sudo_options_suffix suffix_length_le dropWhile_Cons_length)

declare unwrap_command_prefix.simps [simp del]

subsection \<open>Inline code\<close>

definition inline_powershell_flags :: "string list" where
  "inline_powershell_flags = [''-command'', ''-c'', ''-encodedcommand'', ''-encoded'', ''-enc'', ''-e'']"

definition powershell_names :: "string list" where
  "powershell_names = [''powershell'', ''powershell.exe'', ''pwsh'', ''pwsh.exe'']"

definition is_inline_code_execution :: "string list \<Rightarrow> bool" where
  "is_inline_code_execution command =
     (case command of
        [] \<Rightarrow> False
      | first # arguments \<Rightarrow>
          let executable = to_ascii_lowercase (extract_command_name first)
          in if executable \<in> {''python'', ''python3'', ''python.exe'', ''python3.exe''}
             then list_ex (\<lambda>a. a = ''-c'') arguments
             else if executable \<in> {''node'', ''node.exe'', ''ruby'', ''ruby.exe'', ''perl'', ''perl.exe'',
                                   ''osascript''}
             then list_ex (\<lambda>a. a = ''-e'') arguments
             else if executable \<in> {''php'', ''php.exe''}
             then list_ex (\<lambda>a. a = ''-r'') arguments
             else if executable \<in> set powershell_names
             then list_ex (\<lambda>a. to_ascii_lowercase a \<in> set inline_powershell_flags) arguments
             else False)"

definition is_encoded_powershell_invocation :: "string list \<Rightarrow> bool" where
  "is_encoded_powershell_invocation command =
     (case command of
        [] \<Rightarrow> False
      | first # arguments \<Rightarrow>
          if to_ascii_lowercase (extract_command_name first) \<notin> set powershell_names then False
          else list_ex (\<lambda>a. to_ascii_lowercase a
                             \<in> {''-encodedcommand'', ''-encoded'', ''-enc'', ''-e''}) arguments)"

subsection \<open>Git\<close>

definition git_value_options :: "string list" where
  "git_value_options = [''-C'', ''-c'', ''--config-env'', ''--exec-path'', ''--git-dir'',
     ''--namespace'', ''--super-prefix'', ''--work-tree'']"

definition git_inline_prefixes :: "string list" where
  "git_inline_prefixes = [''--config-env='', ''--exec-path='', ''--git-dir='', ''--namespace='',
     ''--super-prefix='', ''--work-tree='']"

definition is_git_global_option_with_value :: "string \<Rightarrow> bool" where
  "is_git_global_option_with_value arg \<longleftrightarrow> arg \<in> set git_value_options"

definition is_git_global_option_with_inline_value :: "string \<Rightarrow> bool" where
  "is_git_global_option_with_inline_value arg \<longleftrightarrow>
     list_ex (starts_with arg) git_inline_prefixes
     \<or> (starts_with arg ''-C'' \<or> starts_with arg ''-c'') \<and> length arg > 2"

definition git_global_option_requires_prompt :: "string \<Rightarrow> bool" where
  "git_global_option_requires_prompt arg \<longleftrightarrow>
     arg \<in> set git_value_options
     \<or> (starts_with arg ''-C'' \<and> length arg > 2)
     \<or> (starts_with arg ''-c'' \<and> length arg > 2)
     \<or> list_ex (starts_with arg) git_inline_prefixes"

text \<open>The scan shared by \<open>find_git_subcommand\<close> and \<open>find_git_subcommand_from_args\<close>.\<close>

fun git_scan :: "nat \<Rightarrow> bool \<Rightarrow> string list \<Rightarrow> string list \<Rightarrow> (nat \<times> string) option" where
  "git_scan idx skip_next [] subcommands = None"
| "git_scan idx skip_next (arg # rest) subcommands =
     (if skip_next then git_scan (Suc idx) False rest subcommands
      else if is_git_global_option_with_inline_value arg
      then git_scan (Suc idx) False rest subcommands
      else if is_git_global_option_with_value arg
      then git_scan (Suc idx) True rest subcommands
      else if arg = ''--'' \<or> starts_with arg ''-'' then git_scan (Suc idx) False rest subcommands
      else if arg \<in> set subcommands then Some (idx, arg)
      else None)"

definition find_git_subcommand :: "string list \<Rightarrow> string list \<Rightarrow> (nat \<times> string) option" where
  "find_git_subcommand command subcommands =
     (case command of
        [] \<Rightarrow> None
      | cmd0 # rest \<Rightarrow>
          if \<not> ends_with cmd0 ''git'' then None else git_scan 1 False rest subcommands)"

definition find_git_subcommand_from_args :: "string list \<Rightarrow> string list \<Rightarrow> (nat \<times> string) option" where
  "find_git_subcommand_from_args args subcommands = git_scan 0 False args subcommands"

definition short_flag_group_contains :: "string \<Rightarrow> char \<Rightarrow> bool" where
  "short_flag_group_contains arg target \<longleftrightarrow>
     starts_with arg ''-'' \<and> \<not> starts_with arg ''--'' \<and> list_ex (\<lambda>c. c = target) (drop 1 arg)"

definition git_branch_is_delete :: "string list \<Rightarrow> bool" where
  "git_branch_is_delete branch_args \<longleftrightarrow>
     list_ex (\<lambda>arg. arg \<in> {''-d'', ''-D'', ''--delete''}
                    \<or> starts_with arg ''--delete=''
                    \<or> short_flag_group_contains arg CHR ''d''
                    \<or> short_flag_group_contains arg CHR ''D'') branch_args"

definition git_push_refspec_is_dangerous :: "string \<Rightarrow> bool" where
  "git_push_refspec_is_dangerous arg \<longleftrightarrow>
     (starts_with arg ''+'' \<or> starts_with arg '':'') \<and> length arg > 1"

definition git_push_is_dangerous :: "string list \<Rightarrow> bool" where
  "git_push_is_dangerous push_args \<longleftrightarrow>
     list_ex (\<lambda>arg. arg \<in> {''--force'', ''--force-with-lease'', ''--force-if-includes'', ''--delete'',
                             ''-f'', ''-d''}
                    \<or> starts_with arg ''--force-with-lease=''
                    \<or> starts_with arg ''--force-if-includes=''
                    \<or> starts_with arg ''--delete=''
                    \<or> short_flag_group_contains arg CHR ''f''
                    \<or> short_flag_group_contains arg CHR ''d''
                    \<or> git_push_refspec_is_dangerous arg) push_args"

definition git_clean_is_force :: "string list \<Rightarrow> bool" where
  "git_clean_is_force clean_args \<longleftrightarrow>
     list_ex (\<lambda>arg. arg \<in> {''--force'', ''-f''} \<or> starts_with arg ''--force=''
                    \<or> short_flag_group_contains arg CHR ''f'') clean_args"

definition dangerous_git_subcommands :: "string list" where
  "dangerous_git_subcommands = [''reset'', ''rm'', ''branch'', ''push'', ''clean'']"

text \<open>The match on a found subcommand, with the arguments after it.\<close>

definition git_subcommand_is_dangerous :: "string \<Rightarrow> string list \<Rightarrow> bool" where
  "git_subcommand_is_dangerous subcommand args =
     (if subcommand = ''reset'' \<or> subcommand = ''rm'' then True
      else if subcommand = ''branch'' then git_branch_is_delete args
      else if subcommand = ''push'' then git_push_is_dangerous args
      else if subcommand = ''clean'' then git_clean_is_force args
      else False)"

definition is_dangerous_git_subcommand :: "string list \<Rightarrow> bool" where
  "is_dangerous_git_subcommand command =
     (case command of
        [] \<Rightarrow> False
      | first_arg # args \<Rightarrow>
          if first_arg \<in> set dangerous_git_subcommands
          then git_subcommand_is_dangerous first_arg args
          else if starts_with first_arg ''-''
          then (case find_git_subcommand_from_args command dangerous_git_subcommands of
                  Some (idx, subcommand) \<Rightarrow>
                    git_subcommand_is_dangerous subcommand (drop (Suc idx) command)
                | None \<Rightarrow> False)
          else False)"

subsection \<open>The detector\<close>

fun is_dangerous_to_call_with_exec :: "string list \<Rightarrow> bool" where
  "is_dangerous_to_call_with_exec [] \<longleftrightarrow> False"
| "is_dangerous_to_call_with_exec (cmd0 # args) =
     (let base_cmd = extract_command_name cmd0
      in if base_cmd = ''git''
         then (case find_git_subcommand (cmd0 # args) dangerous_git_subcommands of
                 None \<Rightarrow> False
               | Some (idx, subcommand) \<Rightarrow>
                   git_subcommand_is_dangerous subcommand (drop (Suc idx) (cmd0 # args)))
         else if base_cmd = ''rm''
         then (case args of [] \<Rightarrow> False | a # _ \<Rightarrow> a \<in> {''-f'', ''-rf'', ''-fr'', ''-r''})
         else if base_cmd = ''mkfs'' \<or> starts_with base_cmd ''mkfs.'' then True
         else if base_cmd \<in> {''dd'', ''shutdown'', ''reboot'', ''init''} then True
         else if ends_with base_cmd '':'' \<and> args \<noteq> [] then hd args = ''(){:|:&};:''
         else if base_cmd = ''sudo''
         then (if args \<noteq> [] then is_dangerous_to_call_with_exec args else False)
         else is_dangerous_git_subcommand (cmd0 # args))"

definition shell_names :: "string list" where
  "shell_names = [''bash'', ''sh'', ''zsh'']"

definition shell_script_flags :: "string list" where
  "shell_script_flags = [''-c'', ''-lc'', ''-ilc'']"

text \<open>The script of \<open>bash -c script\<close> and its variants.\<close>

definition shell_script :: "string list \<Rightarrow> string option" where
  "shell_script command =
     (case command of
        executable # flag # script # _ \<Rightarrow>
          if extract_command_name executable \<in> set shell_names \<and> flag \<in> set shell_script_flags
          then Some script else None
      | _ \<Rightarrow> None)"

text \<open>\<open>any\<close> over a predicate that may run out of fuel.\<close>

fun any_opt :: "('a \<Rightarrow> bool option) \<Rightarrow> 'a list \<Rightarrow> bool option" where
  "any_opt f [] = Some False"
| "any_opt f (x # xs) =
     (case f x of None \<Rightarrow> None | Some True \<Rightarrow> Some True | Some False \<Rightarrow> any_opt f xs)"

fun dangerous_fuel :: "shell_lib \<Rightarrow> nat \<Rightarrow> string list \<Rightarrow> bool option" where
  "dangerous_fuel lib 0 command = None"
| "dangerous_fuel lib (Suc fuel) command =
     (case unwrap_command_prefix command of
        None \<Rightarrow> Some (command \<noteq> [])
      | Some inner \<Rightarrow>
          (case inner of
             [] \<Rightarrow> Some False
           | executable # _ \<Rightarrow>
               if executable_is_dynamic executable then Some True
               else if is_encoded_powershell_invocation inner then Some True
               else if is_dangerous_to_call_with_exec inner then Some True
               else case shell_script inner of
                      None \<Rightarrow> Some False
                    | Some script \<Rightarrow>
                        (case parse_shell_commands lib script of
                           Inr sub_commands \<Rightarrow> any_opt (dangerous_fuel lib fuel) sub_commands
                         | Inl _ \<Rightarrow> Some True)))"

fun approval_fuel :: "shell_lib \<Rightarrow> nat \<Rightarrow> string list \<Rightarrow> bool option" where
  "approval_fuel lib 0 command = None"
| "approval_fuel lib (Suc fuel) command =
     (case unwrap_command_prefix command of
        None \<Rightarrow> Some False
      | Some inner \<Rightarrow>
          if is_inline_code_execution inner then Some True
          else case shell_script inner of
                 None \<Rightarrow> Some False
               | Some script \<Rightarrow>
                   (case parse_shell_commands lib script of
                      Inr sub_commands \<Rightarrow> any_opt (approval_fuel lib fuel) sub_commands
                    | Inl _ \<Rightarrow> Some False))"

text \<open>The total length of the arguments bounds the depth of the recursion.\<close>

definition command_size :: "string list \<Rightarrow> nat" where
  "command_size command = sum_list (map length command)"

definition command_might_be_dangerous :: "shell_lib \<Rightarrow> string list \<Rightarrow> bool" where
  "command_might_be_dangerous lib command =
     (dangerous_fuel lib (Suc (command_size command)) command \<noteq> Some False)"

definition command_requires_approval :: "shell_lib \<Rightarrow> string list \<Rightarrow> bool" where
  "command_requires_approval lib command =
     (approval_fuel lib (Suc (command_size command)) command \<noteq> Some False)"

end
