(* ===== verification/Safe_Registry.thy ===== *)
theory Safe_Registry
  imports Dangerous_Commands
begin

text \<open>
  The allow lists,
  \<^verbatim>\<open>crates/codegen/vtcode-safety/src/command_safety/safe_command_registry.rs\<close> and
  \<^verbatim>\<open>command_db.rs\<close>. A registry is a map from command names to rules; the custom check of a rule,
  a function pointer in the source, is the value of a HOL function.
\<close>

datatype safety_decision = Allow | Deny string | Unknown

record command_rule =
  safe_subcommands :: "string list option"
  forbidden_options :: "string list"
  custom_check :: "(string list \<Rightarrow> safety_decision) option"

type_synonym registry = "string \<rightharpoonup> command_rule"

definition safe_readonly :: command_rule where
  "safe_readonly = \<lparr>safe_subcommands = None, forbidden_options = [], custom_check = None\<rparr>"

definition with_allowed_subcommands :: "string list \<Rightarrow> command_rule" where
  "with_allowed_subcommands subcommands =
     \<lparr>safe_subcommands = Some subcommands, forbidden_options = [], custom_check = None\<rparr>"

definition with_forbidden_options :: "string list \<Rightarrow> command_rule" where
  "with_forbidden_options options =
     \<lparr>safe_subcommands = None, forbidden_options = options, custom_check = None\<rparr>"

subsection \<open>Custom checks\<close>

definition read_only_branch_flags :: "string list" where
  "read_only_branch_flags = [''--show-current'', ''--list'', ''-l'', ''-v'', ''-vv'', ''-a'', ''-r'',
     ''--all'', ''--remote'', ''--verbose'', ''--format'']"

definition read_only_branch_prefixes :: "string list" where
  "read_only_branch_prefixes = [''--format='', ''--sort='', ''--contains='', ''--no-contains='',
     ''--merged='', ''--no-merged='', ''--points-at='']"

definition branch_arg_is_read_only :: "string \<Rightarrow> bool" where
  "branch_arg_is_read_only arg \<longleftrightarrow>
     arg \<in> set read_only_branch_flags \<or> list_ex (starts_with arg) read_only_branch_prefixes"

definition dangerous_branch_flags :: "string list" where
  "dangerous_branch_flags = [''-d'', ''-D'', ''--delete'', ''-m'', ''-M'', ''--move'', ''-c'', ''-C'',
     ''--create'', ''--set-upstream'', ''--set-upstream-to'', ''--unset-upstream'']"

definition dangerous_branch_prefixes :: "string list" where
  "dangerous_branch_prefixes = [''--delete='', ''--move='', ''--create='', ''--set-upstream-to='']"

definition branch_arg_is_dangerous :: "string \<Rightarrow> bool" where
  "branch_arg_is_dangerous arg \<longleftrightarrow>
     arg \<in> set dangerous_branch_flags \<or> list_ex (starts_with arg) dangerous_branch_prefixes"

definition check_git :: "string list \<Rightarrow> safety_decision" where
  "check_git command =
     (if length command < 2 then Unknown
      else if list_ex git_global_option_requires_prompt (tl command)
      then Deny ''git global options that redirect config, repository, or helper lookup are not allowed''
      else case find_git_subcommand command [''status'', ''log'', ''diff'', ''show'', ''branch''] of
             None \<Rightarrow> Unknown
           | Some (idx, subcommand) \<Rightarrow>
               if subcommand \<in> {''status'', ''log'', ''diff'', ''show''} then Allow
               else if subcommand = ''branch''
               then (let branch_args = drop (Suc idx) command
                     in if list_ex branch_arg_is_dangerous branch_args
                        then Deny ''git branch with modification flags is not allowed''
                        else if list_all branch_arg_is_read_only branch_args \<or> branch_args = []
                        then Allow
                        else Deny ''git branch with unknown flags requires approval'')
               else Unknown)"

definition check_cargo :: "string list \<Rightarrow> safety_decision" where
  "check_cargo command =
     (case command of
        _ # sub # _ \<Rightarrow>
          if sub \<in> {''check'', ''build'', ''clippy''} then Allow
          else if sub = ''fmt''
          then (if ''--check'' \<in> set command then Allow
                else Deny ''cargo fmt without --check is not allowed'')
          else Deny (''cargo '' @ sub @ '' is not in safe subcommand list'')
      | _ \<Rightarrow> Unknown)"

fun base64_args :: "string list \<Rightarrow> safety_decision" where
  "base64_args [] = Unknown"
| "base64_args (arg # rest) =
     (if arg \<in> {''-o'', ''--output''}
      then Deny (''base64 '' @ arg @ '' is not allowed (output redirection)'')
      else if starts_with arg ''--output='' \<or> starts_with arg ''-o'' \<and> arg \<noteq> ''-o''
      then Deny ''base64 output redirection is not allowed''
      else base64_args rest)"

definition check_base64 :: "string list \<Rightarrow> safety_decision" where
  "check_base64 command = base64_args (drop 1 command)"

definition is_valid_sed_n_arg :: "string \<Rightarrow> bool" where
  "is_valid_sed_n_arg arg =
     (case strip_suffix_str arg ''p'' of
        None \<Rightarrow> False
      | Some core \<Rightarrow>
          (case split_char CHR '','' core of
             [num] \<Rightarrow> num \<noteq> [] \<and> list_all is_ascii_digit num
           | [a, b] \<Rightarrow> a \<noteq> [] \<and> b \<noteq> [] \<and> list_all is_ascii_digit a \<and> list_all is_ascii_digit b
           | _ \<Rightarrow> False))"

definition check_sed :: "string list \<Rightarrow> safety_decision" where
  "check_sed command =
     (if length command \<le> 2 then Unknown
      else if length command \<le> 4 \<and> command ! 1 = ''-n'' \<and> is_valid_sed_n_arg (command ! 2)
      then Allow
      else Deny ''sed only allows safe pattern: sed -n {N|M,N}p'')"

subsection \<open>The default rules\<close>

definition find_forbidden :: "string list" where
  "find_forbidden = [''-exec'', ''-execdir'', ''-ok'', ''-okdir'', ''-delete'', ''-fls'', ''-fprint'',
     ''-fprint0'', ''-fprintf'']"

definition rg_forbidden :: "string list" where
  "rg_forbidden = [''--pre'', ''--hostname-bin'', ''--search-zip'', ''-z'']"

definition read_only_tools :: "string list" where
  "read_only_tools = [''cat'', ''ls'', ''pwd'', ''echo'', ''grep'', ''head'', ''tail'', ''wc'', ''tr'',
     ''cut'', ''paste'', ''sort'', ''uniq'', ''rev'', ''seq'', ''expr'', ''uname'', ''whoami'', ''id'',
     ''stat'', ''which'']"

definition default_rules :: registry where
  "default_rules =
     foldl (\<lambda>rules cmd. rules(cmd \<mapsto> safe_readonly))
       [''git'' \<mapsto> \<lparr>safe_subcommands = Some [''status'', ''log'', ''diff'', ''show''],
                    forbidden_options = [], custom_check = Some check_git\<rparr>,
        ''cargo'' \<mapsto> \<lparr>safe_subcommands = Some [''check'', ''build'', ''clippy''],
                      forbidden_options = [], custom_check = Some check_cargo\<rparr>,
        ''find'' \<mapsto> with_forbidden_options find_forbidden,
        ''base64'' \<mapsto> \<lparr>safe_subcommands = None, forbidden_options = [''-o'', ''--output''],
                       custom_check = Some check_base64\<rparr>,
        ''sed'' \<mapsto> \<lparr>safe_subcommands = None, forbidden_options = [], custom_check = Some check_sed\<rparr>,
        ''rg'' \<mapsto> with_forbidden_options rg_forbidden]
       read_only_tools"

subsection \<open>The check\<close>

definition forbidden_match :: "string \<Rightarrow> string \<Rightarrow> bool" where
  "forbidden_match arg forbidden \<longleftrightarrow> arg = forbidden \<or> starts_with arg (forbidden @ ''='')"

text \<open>The first argument that matches, with the first option it matches.\<close>

definition find_forbidden_option :: "string list \<Rightarrow> string list \<Rightarrow> string option" where
  "find_forbidden_option forbidden command =
     (case List.find (\<lambda>arg. list_ex (forbidden_match arg) forbidden) command of
        None \<Rightarrow> None
      | Some arg \<Rightarrow> List.find (forbidden_match arg) forbidden)"

definition registry_name :: "string \<Rightarrow> string" where
  "registry_name cmd = (case file_name cmd of Some n \<Rightarrow> n | None \<Rightarrow> cmd)"

definition check_subcommands :: "string \<Rightarrow> command_rule \<Rightarrow> string list \<Rightarrow> safety_decision option" where
  "check_subcommands cmd_name rule command =
     (case safe_subcommands rule of
        None \<Rightarrow> None
      | Some safe_subs \<Rightarrow>
          (case command of
             _ # subcommand # _ \<Rightarrow>
               if subcommand \<notin> set safe_subs
               then Some (Deny (''Subcommand '' @ subcommand @ '' not in safe list for '' @ cmd_name))
               else None
           | _ \<Rightarrow> Some (Deny (''Command '' @ cmd_name @ '' requires a subcommand''))))"

definition is_safe :: "registry \<Rightarrow> string list \<Rightarrow> safety_decision" where
  "is_safe rules command =
     (case command of
        [] \<Rightarrow> Unknown
      | cmd # _ \<Rightarrow>
          let cmd_name = registry_name cmd
          in case rules cmd_name of
               None \<Rightarrow> Unknown
             | Some rule \<Rightarrow>
                 let custom = (case custom_check rule of Some check \<Rightarrow> check command | None \<Rightarrow> Unknown)
                 in if custom \<noteq> Unknown then custom
                    else case check_subcommands cmd_name rule command of
                           Some d \<Rightarrow> d
                         | None \<Rightarrow>
                             (case find_forbidden_option (forbidden_options rule) command of
                                Some opt \<Rightarrow> Deny (''Option '' @ opt @ '' is not allowed for '' @ cmd_name)
                              | None \<Rightarrow> Allow))"

definition new_registry :: registry where
  "new_registry = default_rules"

subsection \<open>The command database\<close>

definition file_operations :: "string list" where
  "file_operations = [''cat'', ''head'', ''tail'', ''wc'', ''file'', ''stat'', ''ls'', ''find'',
     ''locate'', ''which'', ''whereis'', ''tree'', ''du'', ''df'']"

definition source_control :: "string list" where
  "source_control = [''git'', ''hg'', ''svn'', ''bzr'']"

definition build_systems :: "string list" where
  "build_systems = [''cargo'', ''make'', ''cmake'', ''ninja'', ''gradle'', ''mvn'', ''ant'']"

definition version_managers :: "string list" where
  "version_managers = [''rustup'', ''rbenv'', ''nvm'', ''pyenv'', ''jenv'', ''sdkman'']"

definition development_tools :: "string list" where
  "development_tools = [''node'', ''python'', ''ruby'', ''go'', ''java'', ''javac'', ''gcc'', ''g++'',
     ''clang'', ''rustc'']"

definition text_processing :: "string list" where
  "text_processing = [''grep'', ''sed'', ''awk'', ''cut'', ''paste'', ''sort'', ''uniq'', ''tr'', ''rev'',
     ''expand'', ''unexpand'', ''fmt'', ''pr'']"

definition insert_all :: "command_rule \<Rightarrow> string list \<Rightarrow> registry \<Rightarrow> registry" where
  "insert_all rule cmds rules = foldl (\<lambda>rs cmd. rs(cmd \<mapsto> rule)) rules cmds"

definition all_rules :: registry where
  "all_rules =
     insert_all safe_readonly text_processing
       (insert_all safe_readonly development_tools
         (insert_all safe_readonly version_managers
           (insert_all safe_readonly build_systems
             (insert_all (with_allowed_subcommands
                           [''branch'', ''status'', ''log'', ''diff'', ''show'', ''rev-parse''])
               source_control
               (insert_all safe_readonly file_operations Map.empty)))))"

end
