(* ===== verification/Safety_Cache.thy ===== *)
theory Safety_Cache
  imports VT_Prelude
begin

text \<open>
  The decision cache and the audit log of the safety crate,
  \<^verbatim>\<open>crates/codegen/vtcode-safety/src/command_safety/cache.rs\<close> and \<^verbatim>\<open>audit.rs\<close>. The locks
  around them serialise the operations, so each is a function of the state.

  The map of the source is a \<^verbatim>\<open>hashbrown::HashMap\<close>; here it is an association list with distinct
  keys. Which of several least used entries \<open>min_by_key\<close> meets first depends on the iteration order
  of that package, so the choice is a parameter \<open>victim\<close>; \<open>victim_ok\<close> says that it is a least
  used entry, and \<open>first_least\<close> is an instance. Access counts are \<open>u64\<close> in the source, incremented
  once per lookup; they are \<open>nat\<close> here.
\<close>

subsection \<open>The cache\<close>

record cached_decision =
  cd_is_safe :: bool
  cd_reason :: string
  cd_access_count :: nat

type_synonym entries = "(string \<times> cached_decision) list"
type_synonym victim = "entries \<Rightarrow> string option"

record safety_cache =
  sc_entries :: entries
  sc_max_size :: nat

definition new_cache :: "nat \<Rightarrow> safety_cache" where
  "new_cache max_size = \<lparr>sc_entries = [], sc_max_size = max_size\<rparr>"

definition default_cache :: safety_cache where
  "default_cache = new_cache 1000"

fun bump_entry :: "string \<Rightarrow> entries \<Rightarrow> entries" where
  "bump_entry k [] = []"
| "bump_entry k ((k', d) # es) =
     (if k' = k then (k', d\<lparr>cd_access_count := cd_access_count d + 1\<rparr>) # es
      else (k', d) # bump_entry k es)"

definition cache_get :: "safety_cache \<Rightarrow> string \<Rightarrow> cached_decision option \<times> safety_cache" where
  "cache_get c command =
     (let es = bump_entry command (sc_entries c)
      in (map_of es command, c\<lparr>sc_entries := es\<rparr>))"

definition remove_entry :: "string \<Rightarrow> entries \<Rightarrow> entries" where
  "remove_entry k es = filter (\<lambda>(k', d). k' \<noteq> k) es"

fun insert_entry :: "string \<Rightarrow> cached_decision \<Rightarrow> entries \<Rightarrow> entries" where
  "insert_entry k v [] = [(k, v)]"
| "insert_entry k v ((k', d) # es) =
     (if k' = k then (k, v) # es else (k', d) # insert_entry k v es)"

definition cache_put :: "victim \<Rightarrow> safety_cache \<Rightarrow> string \<Rightarrow> bool \<Rightarrow> string \<Rightarrow> safety_cache" where
  "cache_put victim c command is_safe reason =
     (let es = sc_entries c;
          es' = (if length es \<ge> sc_max_size c \<and> map_of es command = None
                 then (case victim es of Some least_used \<Rightarrow> remove_entry least_used es | None \<Rightarrow> es)
                 else es)
      in c\<lparr>sc_entries := insert_entry command
              \<lparr>cd_is_safe = is_safe, cd_reason = reason, cd_access_count = 1\<rparr> es'\<rparr>)"

definition cache_clear :: "safety_cache \<Rightarrow> safety_cache" where
  "cache_clear c = c\<lparr>sc_entries := []\<rparr>"

definition cache_size :: "safety_cache \<Rightarrow> nat" where
  "cache_size c = length (sc_entries c)"

record cache_stats =
  st_entry_count :: nat
  st_total_accesses :: nat
  st_avg_access_per_entry :: nat

definition cache_stats_of :: "safety_cache \<Rightarrow> cache_stats" where
  "cache_stats_of c =
     (let total = sum_list (map (\<lambda>(k, d). cd_access_count d) (sc_entries c));
          n = length (sc_entries c)
      in \<lparr>st_entry_count = n, st_total_accesses = total,
          st_avg_access_per_entry = (if n > 0 then total div n else 0)\<rparr>)"

subsection \<open>The choice of a victim\<close>

definition victim_ok :: "victim \<Rightarrow> bool" where
  "victim_ok v \<longleftrightarrow>
     (\<forall>es. es \<noteq> [] \<longrightarrow>
        (\<exists>k d. v es = Some k \<and> (k, d) \<in> set es
               \<and> (\<forall>(k', d') \<in> set es. cd_access_count d \<le> cd_access_count d')))"

fun least_entry :: "string \<times> cached_decision \<Rightarrow> entries \<Rightarrow> string" where
  "least_entry e [] = fst e"
| "least_entry e (x # es) =
     least_entry (if cd_access_count (snd x) < cd_access_count (snd e) then x else e) es"

definition first_least :: victim where
  "first_least es = (case es of [] \<Rightarrow> None | e # rest \<Rightarrow> Some (least_entry e rest))"

lemma least_entry_ok:
  "\<exists>d. (least_entry e es, d) \<in> insert e (set es)
     \<and> (\<forall>(k', d') \<in> insert e (set es). cd_access_count d \<le> cd_access_count d')"
proof (induction es arbitrary: e)
  case Nil
  then show ?case by (cases e) auto
next
  case (Cons x es)
  show ?case
  proof (cases "cd_access_count (snd x) < cd_access_count (snd e)")
    case True
    with Cons [of x] show ?thesis by (cases e; cases x) fastforce
  next
    case False
    with Cons [of e] show ?thesis by (cases e; cases x) fastforce
  qed
qed

lemma victim_ok_first_least [simp]: "victim_ok first_least"
  unfolding victim_ok_def
proof (intro allI impI)
  fix es :: entries assume "es \<noteq> []"
  then obtain e rest where es: "es = e # rest" by (cases es) auto
  show "\<exists>k d. first_least es = Some k \<and> (k, d) \<in> set es
          \<and> (\<forall>(k', d') \<in> set es. cd_access_count d \<le> cd_access_count d')"
    using least_entry_ok [of e rest] by (simp add: es first_least_def)
qed

subsection \<open>The interface the evaluator uses\<close>

text \<open>
  What a client may rely on: a lookup returns the stored decision and changes no stored decision,
  an insertion stores its own decision and invents no other.
\<close>

locale decision_cache =
  fixes lookup :: "'c \<Rightarrow> string \<Rightarrow> (bool \<times> string) option"
    and get :: "'c \<Rightarrow> string \<Rightarrow> (bool \<times> string) option \<times> 'c"
    and put :: "'c \<Rightarrow> string \<Rightarrow> bool \<Rightarrow> string \<Rightarrow> 'c"
    and inv :: "'c \<Rightarrow> bool"
  assumes get_result: "inv c \<Longrightarrow> fst (get c k) = lookup c k"
    and get_lookup: "inv c \<Longrightarrow> lookup (snd (get c k)) = lookup c"
    and get_inv: "inv c \<Longrightarrow> inv (snd (get c k))"
    and put_same: "inv c \<Longrightarrow> lookup (put c k b r) k = Some (b, r)"
    and put_other: "inv c \<Longrightarrow> k' \<noteq> k \<Longrightarrow> lookup (put c k b r) k' = Some v \<Longrightarrow> lookup c k' = Some v"
    and put_inv: "inv c \<Longrightarrow> inv (put c k b r)"
begin

text \<open>Every stored decision satisfies \<open>P\<close>.\<close>

definition all_stored :: "(string \<Rightarrow> bool \<Rightarrow> bool) \<Rightarrow> 'c \<Rightarrow> bool" where
  "all_stored P c \<longleftrightarrow> inv c \<and> (\<forall>k b r. lookup c k = Some (b, r) \<longrightarrow> P k b)"

lemma all_stored_get: "all_stored P c \<Longrightarrow> all_stored P (snd (get c k))"
  by (simp add: all_stored_def get_inv get_lookup)

lemma all_stored_put: "all_stored P c \<Longrightarrow> P k b \<Longrightarrow> all_stored P (put c k b r)"
  unfolding all_stored_def
  by (metis option.inject prod.inject put_inv put_other put_same)

lemma all_stored_hit: "all_stored P c \<Longrightarrow> fst (get c k) = Some (b, r) \<Longrightarrow> P k b"
  by (simp add: all_stored_def get_result)

end

definition cache_inv :: "safety_cache \<Rightarrow> bool" where
  "cache_inv c \<longleftrightarrow> distinct (map fst (sc_entries c)) \<and> length (sc_entries c) \<le> sc_max_size c \<and> sc_max_size c > 0"

definition cache_lookup :: "safety_cache \<Rightarrow> string \<Rightarrow> (bool \<times> string) option" where
  "cache_lookup c k = map_option (\<lambda>d. (cd_is_safe d, cd_reason d)) (map_of (sc_entries c) k)"

definition cache_get_decision :: "safety_cache \<Rightarrow> string \<Rightarrow> (bool \<times> string) option \<times> safety_cache" where
  "cache_get_decision c k = (case cache_get c k of
     (d, c') \<Rightarrow> (map_option (\<lambda>d. (cd_is_safe d, cd_reason d)) d, c'))"

lemma bump_entry_keys [simp]: "map fst (bump_entry k es) = map fst es"
  by (induction k es rule: bump_entry.induct) auto

lemma bump_entry_length [simp]: "length (bump_entry k es) = length es"
  by (metis bump_entry_keys length_map)

lemma bump_entry_decision:
  "map_option (\<lambda>d. (cd_is_safe d, cd_reason d)) (map_of (bump_entry k es) k')
     = map_option (\<lambda>d. (cd_is_safe d, cd_reason d)) (map_of es k')"
  by (induction k es rule: bump_entry.induct) auto

lemma map_of_insert_entry: "map_of (insert_entry k v es) = (map_of es)(k \<mapsto> v)"
  by (induction k v es rule: insert_entry.induct) auto

lemma insert_entry_keys:
  "set (map fst (insert_entry k v es)) = insert k (set (map fst es))"
  by (induction k v es rule: insert_entry.induct) auto

lemma insert_entry_distinct:
  "distinct (map fst es) \<Longrightarrow> distinct (map fst (insert_entry k v es))"
proof (induction k v es rule: insert_entry.induct)
  case (2 k v k' d es)
  then show ?case using insert_entry_keys [of k v es] by (auto simp: image_image)
qed simp

lemma insert_entry_length:
  "length (insert_entry k v es) = (if map_of es k = None then Suc (length es) else length es)"
  by (induction k v es rule: insert_entry.induct) auto

lemma remove_entry_distinct: "distinct (map fst es) \<Longrightarrow> distinct (map fst (remove_entry k es))"
  by (simp add: remove_entry_def distinct_map_filter)

lemma map_of_remove_entry: "map_of (remove_entry k es) k' = (if k' = k then None else map_of es k')"
  by (induction es) (auto simp: remove_entry_def)

lemma remove_entry_length:
  "(k, d) \<in> set es \<Longrightarrow> length (remove_entry k es) < length es"
  unfolding remove_entry_def by (rule length_filter_less) auto

lemma cache_put_inv:
  assumes "victim_ok victim" "cache_inv c"
  shows "cache_inv (cache_put victim c k b r)"
proof -
  let ?es = "sc_entries c"
  have d: "distinct (map fst ?es)" "length ?es \<le> sc_max_size c" "sc_max_size c > 0"
    using assms(2) by (auto simp: cache_inv_def)
  show ?thesis
  proof (cases "length ?es \<ge> sc_max_size c \<and> map_of ?es k = None")
    case True
    then have "?es \<noteq> []" using d by auto
    with assms(1) obtain k' d' where v: "victim ?es = Some k'" "(k', d') \<in> set ?es"
      unfolding victim_ok_def by blast
    then have "length (remove_entry k' ?es) < sc_max_size c"
      using remove_entry_length d(2) by fastforce
    with True v d show ?thesis
      by (simp add: cache_put_def cache_inv_def Let_def insert_entry_distinct remove_entry_distinct
          insert_entry_length)
  next
    case False
    with d show ?thesis
      by (auto simp: cache_put_def cache_inv_def Let_def insert_entry_distinct insert_entry_length)
  qed
qed

lemma cache_lookup_put:
  "cache_lookup (cache_put victim c k b r) k = Some (b, r)"
  "k' \<noteq> k \<Longrightarrow> cache_lookup (cache_put victim c k b r) k' = Some v \<Longrightarrow> cache_lookup c k' = Some v"
  by (auto simp: cache_lookup_def cache_put_def Let_def map_of_insert_entry map_of_remove_entry
      split: option.splits if_splits)

lemma cache_contract:
  assumes victim: "victim_ok victim"
  shows "decision_cache cache_lookup cache_get_decision (cache_put victim) cache_inv"
proof unfold_locales
  fix c k b r k' v
  assume inv: "cache_inv c"
  show "fst (cache_get_decision c k) = cache_lookup c k"
    by (simp add: cache_get_decision_def cache_get_def cache_lookup_def Let_def bump_entry_decision)
  show "cache_lookup (snd (cache_get_decision c k)) = cache_lookup c"
    by (rule ext) (simp add: cache_get_decision_def cache_get_def cache_lookup_def Let_def bump_entry_decision)
  show "cache_inv (snd (cache_get_decision c k))"
    using inv by (simp add: cache_get_decision_def cache_get_def cache_inv_def Let_def)
  show "cache_lookup (cache_put victim c k b r) k = Some (b, r)"
    by (rule cache_lookup_put)
  show "cache_inv (cache_put victim c k b r)"
    using victim inv by (rule cache_put_inv)
  show "cache_lookup c k' = Some v"
    if "k' \<noteq> k" "cache_lookup (cache_put victim c k b r) k' = Some v"
    using that by (rule cache_lookup_put)
qed

interpretation fl: decision_cache cache_lookup cache_get_decision "cache_put first_least" cache_inv
  by (rule cache_contract) simp

subsection \<open>The audit log\<close>

record audit_entry =
  ae_command :: "string list"
  ae_allowed :: bool
  ae_reason :: string
  ae_decision_type :: string
  ae_timestamp :: string

record audit_logger =
  al_entries :: "audit_entry list"
  al_enabled :: bool

text \<open>The clock is an argument: the seconds since the epoch, or \<open>unknown\<close>.\<close>

definition new_audit_entry ::
  "string \<Rightarrow> string list \<Rightarrow> bool \<Rightarrow> string \<Rightarrow> string \<Rightarrow> audit_entry" where
  "new_audit_entry now command allowed reason decision_type =
     \<lparr>ae_command = command, ae_allowed = allowed, ae_reason = reason,
      ae_decision_type = decision_type, ae_timestamp = now\<rparr>"

definition new_audit_logger :: "bool \<Rightarrow> audit_logger" where
  "new_audit_logger enabled = \<lparr>al_entries = [], al_enabled = enabled\<rparr>"

definition audit_log :: "audit_logger \<Rightarrow> audit_entry \<Rightarrow> audit_logger" where
  "audit_log l entry = (if al_enabled l then l\<lparr>al_entries := al_entries l @ [entry]\<rparr> else l)"

definition entries_for_command :: "audit_logger \<Rightarrow> string \<Rightarrow> audit_entry list" where
  "entries_for_command l cmd =
     filter (\<lambda>e. contains_str (join '' '' (ae_command e)) cmd) (al_entries l)"

definition denied_entries :: "audit_logger \<Rightarrow> audit_entry list" where
  "denied_entries l = filter (\<lambda>e. \<not> ae_allowed e) (al_entries l)"

definition audit_clear :: "audit_logger \<Rightarrow> audit_logger" where
  "audit_clear l = l\<lparr>al_entries := []\<rparr>"

definition audit_count :: "audit_logger \<Rightarrow> nat" where
  "audit_count l = length (al_entries l)"

end
