(* ===== verification/Unified_Evaluator.thy ===== *)
theory Unified_Evaluator
  imports Safe_Registry Safety_Cache
begin

text \<open>
  The unified command evaluator and its policy adapter,
  \<^verbatim>\<open>crates/codegen/vtcode-safety/src/command_safety/unified.rs\<close>: cache, detector, registry, the
  commands of a shell script, audit log. The evaluator's state is its registry, cache and audit
  log; \<open>evaluate\<close> returns the result with the new state. The clock (\<open>now\<close>) and the choice of an
  eviction victim are arguments. The source's \<open>evaluate\<close> returns \<open>Ok\<close> on every path.
\<close>

datatype evaluation_reason =
    PolicyAllow string | PolicyDeny string | SafetyAllow | SafetyDeny string
  | DangerousCommand string | CacheHit bool string

fun show_reason :: "evaluation_reason \<Rightarrow> string" where
  "show_reason (PolicyAllow msg) = ''Policy Allow: '' @ msg"
| "show_reason (PolicyDeny msg) = ''Policy Deny: '' @ msg"
| "show_reason SafetyAllow = ''Safety Allow''"
| "show_reason (SafetyDeny msg) = ''Safety Deny: '' @ msg"
| "show_reason (DangerousCommand msg) = ''Dangerous: '' @ msg"
| "show_reason (CacheHit ok msg) = ''Cache '' @ (if ok then ''Allow'' else ''Deny'') @ '' '' @ msg"

record evaluation_result =
  er_allowed :: bool
  er_primary_reason :: evaluation_reason
  er_secondary_reasons :: "string list"
  er_resolved_path :: "string option"

record evaluator =
  ev_registry :: registry
  ev_cache :: safety_cache
  ev_audit :: audit_logger

definition new_evaluator :: evaluator where
  "new_evaluator = \<lparr>ev_registry = new_registry, ev_cache = new_cache 1000,
                    ev_audit = new_audit_logger True\<rparr>"

definition eval_result :: "bool \<Rightarrow> evaluation_reason \<Rightarrow> string list \<Rightarrow> evaluation_result" where
  "eval_result allowed primary secondary =
     \<lparr>er_allowed = allowed, er_primary_reason = primary, er_secondary_reasons = secondary,
      er_resolved_path = None\<rparr>"

definition log_audit_entry ::
  "string \<Rightarrow> evaluator \<Rightarrow> string list \<Rightarrow> bool \<Rightarrow> string \<Rightarrow> string \<Rightarrow> evaluator" where
  "log_audit_entry now ev command allowed reason decision_type =
     ev\<lparr>ev_audit := audit_log (ev_audit ev)
                     (new_audit_entry now command allowed reason decision_type)\<rparr>"

definition put_decision :: "victim \<Rightarrow> evaluator \<Rightarrow> string \<Rightarrow> bool \<Rightarrow> string \<Rightarrow> evaluator" where
  "put_decision victim ev text safe reason =
     ev\<lparr>ev_cache := cache_put victim (ev_cache ev) text safe reason\<rparr>"

text \<open>The loop over the commands of a script: the reason of the first one that is refused.\<close>

fun first_refused :: "shell_lib \<Rightarrow> registry \<Rightarrow> string list list \<Rightarrow> evaluation_reason option" where
  "first_refused lib rules [] = None"
| "first_refused lib rules (script # scripts) =
     (if command_might_be_dangerous lib script
      then Some (DangerousCommand (''dangerous in sub-script: '' @ join '' '' script))
      else case is_safe rules script of
             Deny reason \<Rightarrow> Some (SafetyDeny (''sub-command denied: '' @ reason))
           | _ \<Rightarrow> first_refused lib rules scripts)"

definition evaluate ::
  "shell_lib \<Rightarrow> victim \<Rightarrow> string \<Rightarrow> evaluator \<Rightarrow> string list \<Rightarrow> evaluation_result \<times> evaluator" where
  "evaluate lib victim now ev command =
     (if command = [] then (eval_result False (SafetyDeny ''empty command'') [], ev)
      else let text = join '' '' command;
               (cached, cache1) = cache_get_decision (ev_cache ev) text;
               ev1 = ev\<lparr>ev_cache := cache1\<rparr>
           in case cached of
                Some (ok, reason) \<Rightarrow> (eval_result ok (CacheHit ok reason) [], ev1)
              | None \<Rightarrow>
                  if command_might_be_dangerous lib command
                  then (eval_result False (DangerousCommand ''matches dangerous patterns'') [],
                        put_decision victim
                          (log_audit_entry now ev1 command False ''matches dangerous patterns'' ''Dangerous'')
                          text False ''dangerous command pattern'')
                  else case is_safe (ev_registry ev1) command of
                         Deny reason \<Rightarrow>
                           (eval_result False (SafetyDeny reason) [''registry rule''],
                            put_decision victim (log_audit_entry now ev1 command False reason ''Deny'')
                              text False reason)
                       | _ \<Rightarrow>
                           (case (case parse_bash_lc_commands lib command of
                                    Some scripts \<Rightarrow> first_refused lib (ev_registry ev1) scripts
                                  | None \<Rightarrow> None) of
                              Some reason \<Rightarrow>
                                (eval_result False reason [],
                                 put_decision victim ev1 text False (show_reason reason))
                            | None \<Rightarrow>
                                (eval_result True SafetyAllow [''passed all safety checks''],
                                 put_decision victim
                                   (log_audit_entry now ev1 command True ''passed all safety checks'' ''Allow'')
                                   text True ''passed all safety checks'')))"

definition evaluate_with_policy ::
  "shell_lib \<Rightarrow> victim \<Rightarrow> string \<Rightarrow> evaluator \<Rightarrow> string list \<Rightarrow> bool \<Rightarrow> string \<Rightarrow> evaluation_result \<times> evaluator" where
  "evaluate_with_policy lib victim now ev command policy_allowed policy_reason =
     (if \<not> policy_allowed then (eval_result False (PolicyDeny policy_reason) [], ev)
      else evaluate lib victim now ev command)"

subsection \<open>The policy-aware adapter\<close>

record policy_aware =
  pa_unified :: evaluator
  pa_allow :: "bool option"
  pa_reason :: "string option"

definition new_policy_aware :: policy_aware where
  "new_policy_aware = \<lparr>pa_unified = new_evaluator, pa_allow = None, pa_reason = None\<rparr>"

definition policy_aware_with_policy :: "bool \<Rightarrow> string \<Rightarrow> policy_aware" where
  "policy_aware_with_policy allow reason =
     \<lparr>pa_unified = new_evaluator, pa_allow = Some allow, pa_reason = Some reason\<rparr>"

definition policy_aware_evaluate ::
  "shell_lib \<Rightarrow> victim \<Rightarrow> string \<Rightarrow> policy_aware \<Rightarrow> string list \<Rightarrow> evaluation_result \<times> policy_aware" where
  "policy_aware_evaluate lib victim now pa command =
     (let (r, ev) = (case (pa_allow pa, pa_reason pa) of
                       (Some policy_allowed, Some reason) \<Rightarrow>
                         evaluate_with_policy lib victim now (pa_unified pa) command policy_allowed reason
                     | _ \<Rightarrow> evaluate lib victim now (pa_unified pa) command)
      in (r, pa\<lparr>pa_unified := ev\<rparr>))"

definition set_policy :: "policy_aware \<Rightarrow> bool \<Rightarrow> string \<Rightarrow> policy_aware" where
  "set_policy pa allowed reason = pa\<lparr>pa_allow := Some allowed, pa_reason := Some reason\<rparr>"

definition clear_policy :: "policy_aware \<Rightarrow> policy_aware" where
  "clear_policy pa = pa\<lparr>pa_allow := None, pa_reason := None\<rparr>"

subsection \<open>The verdict without a cache\<close>

text \<open>The specification: what the pipeline decides about a command it has not seen before.\<close>

definition is_deny :: "safety_decision \<Rightarrow> bool" where
  "is_deny d \<longleftrightarrow> (case d of Deny _ \<Rightarrow> True | _ \<Rightarrow> False)"

definition passes :: "shell_lib \<Rightarrow> registry \<Rightarrow> string list \<Rightarrow> bool" where
  "passes lib rules command \<longleftrightarrow>
     \<not> command_might_be_dangerous lib command \<and> \<not> is_deny (is_safe rules command)"

definition verdict :: "shell_lib \<Rightarrow> registry \<Rightarrow> string list \<Rightarrow> bool" where
  "verdict lib rules command \<longleftrightarrow>
     command \<noteq> [] \<and> passes lib rules command
     \<and> (case parse_bash_lc_commands lib command of
          Some scripts \<Rightarrow> list_all (passes lib rules) scripts | None \<Rightarrow> True)"

lemma first_refused_None: "first_refused lib rules scripts = None \<longleftrightarrow> list_all (passes lib rules) scripts"
  by (induction scripts) (auto simp: passes_def is_deny_def split: safety_decision.splits)

lemma evaluate_miss:
  assumes "fst (cache_get_decision (ev_cache ev) (join '' '' command)) = None"
  shows "er_allowed (fst (evaluate lib victim now ev command)) \<longleftrightarrow> verdict lib (ev_registry ev) command"
  using assms
  by (auto simp: evaluate_def verdict_def passes_def [of _ _ command] is_deny_def
      first_refused_None [symmetric] eval_result_def Let_def
      split: prod.splits safety_decision.splits option.splits)

lemma evaluate_hit:
  assumes "fst (cache_get_decision (ev_cache ev) (join '' '' command)) = Some (ok, reason)" "command \<noteq> []"
  shows "er_allowed (fst (evaluate lib victim now ev command)) = ok"
    and "snd (evaluate lib victim now ev command)
           = ev\<lparr>ev_cache := snd (cache_get_decision (ev_cache ev) (join '' '' command))\<rparr>"
  using assms by (auto simp: evaluate_def eval_result_def Let_def split: prod.splits)

text \<open>A miss stores the decision it returned, under the joined text.\<close>

lemma evaluate_miss_cache:
  assumes "fst (cache_get_decision (ev_cache ev) (join '' '' command)) = None" "command \<noteq> []"
  shows "\<exists>reason. ev_cache (snd (evaluate lib victim now ev command))
    = cache_put victim (snd (cache_get_decision (ev_cache ev) (join '' '' command))) (join '' '' command)
        (er_allowed (fst (evaluate lib victim now ev command))) reason"
  using assms
  by (auto simp: evaluate_def eval_result_def put_decision_def log_audit_entry_def Let_def
      split: prod.splits safety_decision.splits option.splits)

lemma evaluate_registry [simp]:
  "ev_registry (snd (evaluate lib victim now ev command)) = ev_registry ev"
  by (auto simp: evaluate_def put_decision_def log_audit_entry_def Let_def
      split: prod.splits safety_decision.splits option.splits)

end
