(* ===== verification/Shell_Facts.thy ===== *)
theory Shell_Facts
  imports Shell_Tree
begin

text \<open>
  Facts on the shell parser. The assumption on the libraries is \<open>lib_ok\<close>: the texts of the children
  of a syntax node are disjoint pieces of the node's text and the root's text is a piece of the
  script (tree-sitter nodes are byte ranges of the source), and \<^verbatim>\<open>shell_words\<close> returns words no
  longer in total than its input (it only removes quotes, escapes and blanks).
\<close>

definition text_len :: "ts_node \<Rightarrow> nat" where
  "text_len node = (case ts_text node of Inr t \<Rightarrow> length t | Inl _ \<Rightarrow> 0)"

fun node_fits :: "ts_node \<Rightarrow> bool" where
  "node_fits (TsNode kind named field text children) \<longleftrightarrow>
     sum_list (map text_len children) \<le> text_len (TsNode kind named field text children)
     \<and> list_all node_fits children"

definition words_size :: "string list \<Rightarrow> nat" where
  "words_size ws = sum_list (map length ws)"

definition lib_ok :: "shell_lib \<Rightarrow> bool" where
  "lib_ok lib \<longleftrightarrow>
     (\<forall>s root e. ts_parse lib s = Some (root, e) \<longrightarrow> node_fits root \<and> text_len root \<le> length s)
     \<and> (\<forall>s ws. sw_split lib s = Inr ws \<longrightarrow> words_size ws \<le> length s)"

text \<open>An instance for concrete evaluation: no grammar, and words cut at white space.\<close>

definition plain_lib :: shell_lib where
  "plain_lib = \<lparr>ts_ready = Inl ''no grammar'', ts_parse = (\<lambda>_. None),
                sw_split = (\<lambda>s. Inr (split_whitespace s))\<rparr>"

lemma lib_ok_plain [simp]: "lib_ok plain_lib"
  by (simp add: lib_ok_def plain_lib_def words_size_def split_whitespace_length)

lemma words_size_simps [simp]:
  "words_size [] = 0"
  "words_size (w # ws) = length w + words_size ws"
  "words_size (xs @ ys) = words_size xs + words_size ys"
  by (simp_all add: words_size_def)

lemma words_size_suffix: "suffix ys xs \<Longrightarrow> words_size ys \<le> words_size xs"
  by (auto simp: suffix_def)

subsection \<open>Parsed commands are pieces of the script\<close>

lemma node_word_size: "words_size (node_word n) \<le> text_len n"
  by (auto simp: node_word_def text_len_def Let_def length_trim split: sum.splits)

lemma child_words_size: "words_size (child_words n) \<le> text_len n"
  by (simp add: child_words_def node_word_size)

lemma concat_child_words_size:
  "words_size (concat (map child_words cs)) \<le> sum_list (map text_len cs)"
  by (induction cs) (auto intro: add_mono child_words_size)

lemma text_len_child:
  assumes "node_fits (TsNode k n f t cs)" "c \<in> set cs"
  shows "text_len c \<le> text_len (TsNode k n f t cs)" "node_fits c"
proof -
  have "text_len c \<le> sum_list (map text_len cs)"
    using assms(2) by (simp add: member_le_sum_list)
  with assms show "text_len c \<le> text_len (TsNode k n f t cs)" "node_fits c"
    by (auto simp: list_all_iff)
qed

lemma extract_size:
  "node_fits node \<Longrightarrow> extract_command_from_node node = Some cmd \<Longrightarrow> words_size cmd \<le> text_len node"
  "\<forall>c \<in> set cs. node_fits c \<Longrightarrow> extract_first cs = Some (Some cmd) \<Longrightarrow>
     \<exists>c \<in> set cs. words_size cmd \<le> text_len c"
proof (induction node and cs arbitrary: cmd and cmd
    rule: extract_command_from_node_extract_first.induct)
  case (1 kind named field t children)
  show ?case
  proof (cases "if kind = ''pipeline'' then extract_first children else None")
    case None
    then have "cmd = concat (map child_words children)"
      using "1.prems" by (auto simp: Let_def split: if_splits)
    with "1.prems"(1) concat_child_words_size [of children] show ?thesis by simp
  next
    case (Some r)
    then have p: "kind = ''pipeline''" "extract_first children = Some (Some cmd)"
      using "1.prems" by (auto split: if_splits)
    with "1.IH" "1.prems"(1) obtain c where "c \<in> set children" "words_size cmd \<le> text_len c"
      by (auto simp: list_all_iff)
    with text_len_child "1.prems"(1) show ?thesis by (meson le_trans)
  qed
qed (auto split: if_splits)

lemma collect_size:
  "node_fits node \<Longrightarrow> cmd \<in> set (collect_commands_from_node node) \<Longrightarrow> words_size cmd \<le> text_len node"
proof (induction node rule: collect_commands_from_node.induct)
  case (1 kind named field t children)
  show ?case
  proof (cases "kind = ''command'' \<or> kind = ''simple_command''")
    case True
    then have "extract_command_from_node (TsNode kind named field t children) = Some cmd"
      using "1.prems"(2) by (auto split: option.splits if_splits)
    with "1.prems"(1) show ?thesis by (rule extract_size(1))
  next
    case False
    then obtain c where c: "c \<in> set children" "cmd \<in> set (collect_commands_from_node c)"
      using "1.prems"(2) by auto
    with "1.IH" False text_len_child(2) "1.prems"(1) have "words_size cmd \<le> text_len c" by blast
    with text_len_child(1) [OF "1.prems"(1) c(1)] show ?thesis by simp
  qed
qed

lemma push_command_size:
  assumes "lib_ok lib" "\<forall>c \<in> set commands. words_size c \<le> L" "length current \<le> L"
  shows "\<forall>c \<in> set (push_command lib current commands). words_size c \<le> L"
proof -
  have "words_size ws \<le> L" if "sw_split lib current = Inr ws" for ws
    using assms(1,3) that unfolding lib_ok_def by (meson le_trans)
  with assms(2) show ?thesis
    by (auto simp: push_command_def tokenize_command_def split: sum.splits)
qed

lemma basic_scan_size:
  "lib_ok lib \<Longrightarrow> \<forall>c \<in> set commands. words_size c \<le> L \<Longrightarrow> length current + length s \<le> L \<Longrightarrow>
     \<forall>c \<in> set (basic_scan lib commands current in_quotes quote_char escaped s). words_size c \<le> L"
proof (induction lib commands current in_quotes quote_char escaped s rule: basic_scan.induct)
  case (1 lib commands current in_quotes quote_char escaped)
  then show ?case by (simp add: push_command_size)
next
  case (2 lib commands current in_quotes quote_char escaped c cs)
  have "length current \<le> L" using "2.prems"(3) by simp
  with "2.prems" have "\<forall>c \<in> set (push_command lib current commands). words_size c \<le> L"
    by (meson push_command_size)
  with 2 show ?case by (cases "c = quote_char") simp_all
qed

lemma parse_shell_commands_size:
  assumes "lib_ok lib" "parse_shell_commands lib script = Inr cs" "c \<in> set cs"
  shows "words_size c \<le> length script"
proof -
  have basic: "words_size d \<le> length script"
    if "d \<in> set (basic_scan lib [] [] False CHR '' '' False script)" for d
    using basic_scan_size [OF assms(1), of "[]" "length script" "[]" script] that by simp
  have tree: "words_size d \<le> length script"
    if "parse_with_tree_sitter lib script b = Inr ds" "d \<in> set ds" for b d ds
  proof -
    from that obtain root e where r: "ts_parse lib script = Some (root, e)"
      and ds: "ds = collect_commands_from_node root"
      by (auto simp: parse_with_tree_sitter_def split: sum.splits option.splits if_splits)
    from assms(1) r have "node_fits root" "text_len root \<le> length script"
      unfolding lib_ok_def by blast+
    with collect_size ds that(2) show ?thesis by (meson le_trans)
  qed
  from assms(2,3) basic tree show ?thesis
    by (auto simp: parse_shell_commands_def parse_with_basic_tokenization_def
        split: sum.splits if_splits)
qed

text \<open>\<open>parse_shell_commands\<close> never fails: the fallback tokenizer has no error.\<close>

lemma parse_shell_commands_Inr: "\<exists>cs. parse_shell_commands lib script = Inr cs"
  by (auto simp: parse_shell_commands_def parse_with_basic_tokenization_def split: sum.splits)

end
