(* ===== verification/Dangerous_Facts.thy ===== *)
theory Dangerous_Facts
  imports Dangerous_Commands Shell_Facts
begin

text \<open>
  Correctness of the dangerous-command detector: the fuel is enough, so the recursive equation of
  the source holds; \<open>env\<close>, \<open>sudo\<close> and assignment prefixes do not change the verdict, unknown wrapper
  options fail closed; a script is dangerous when one of its commands is; and the git scan finds
  the subcommand behind any global options.
\<close>

lemma command_size_words: "command_size = words_size"
  by (rule ext) (simp add: command_size_def words_size_def)

subsection \<open>Enough fuel\<close>

lemma unwrap_suffix: "unwrap_command_prefix c = Some inner \<Longrightarrow> suffix inner c"
proof (induction c rule: unwrap_command_prefix.induct)
  case (1 c)
  have d: "suffix (dropWhile is_environment_assignment c) c" by (rule suffix_dropWhile)
  from "1.prems" obtain e rest where er: "dropWhile is_environment_assignment c = e # rest"
    by (subst (asm) unwrap_command_prefix.simps) (auto split: list.splits)
  then have r: "suffix rest c" using d by (metis suffix_ConsD)
  consider "inner = e # rest" | c' where "suffix c' rest" "unwrap_command_prefix c' = Some inner"
      "suffix inner c'"
    using "1.prems" er "1.IH"
    by (subst (asm) unwrap_command_prefix.simps)
      (auto split: if_splits option.splits dest: env_options_suffix sudo_options_suffix)
  then show ?case
  proof cases
    case 1 with d er show ?thesis by simp
  next
    case 2 with r show ?thesis by (meson suffix_order.trans)
  qed
qed

lemma unwrap_Some_neq_Nil: "unwrap_command_prefix c = Some inner \<Longrightarrow> inner \<noteq> []"
proof (induction c rule: unwrap_command_prefix.induct)
  case (1 c)
  then show ?case
    by (subst (asm) (2) unwrap_command_prefix.simps) (auto split: list.splits if_splits option.splits)
qed

lemma shell_script_size:
  assumes "shell_script c = Some script"
  shows "length script < words_size c"
proof -
  from assms obtain e f r where c: "c = e # f # script # r" and "f \<in> set shell_script_flags"
    by (auto simp: shell_script_def split: list.splits if_splits)
  then have "0 < length f" by (auto simp: shell_script_flags_def)
  with c show ?thesis by simp
qed

lemma any_opt_cong: "(\<And>x. x \<in> set xs \<Longrightarrow> f x = g x) \<Longrightarrow> any_opt f xs = any_opt g xs"
  by (induction xs) (auto split: option.splits bool.splits)

lemma any_opt_neq_None: "(\<And>x. x \<in> set xs \<Longrightarrow> f x \<noteq> None) \<Longrightarrow> any_opt f xs \<noteq> None"
  by (induction xs) (auto split: option.splits bool.splits)

lemma known_verdict: "x = y \<and> x \<noteq> None \<Longrightarrow> x = Some (y \<noteq> Some False)"
  by (cases x) auto

lemma any_opt_Some: "any_opt (\<lambda>x. Some (P x)) xs = Some (list_ex P xs)"
  by (induction xs) (auto split: bool.splits)

text \<open>The commands of a script of \<open>c\<close> are smaller than \<open>c\<close>.\<close>

lemma sub_command_size:
  assumes "lib_ok lib" "unwrap_command_prefix c = Some inner" "shell_script inner = Some script"
    "parse_shell_commands lib script = Inr subs" "d \<in> set subs"
  shows "words_size d < words_size c"
proof -
  have "words_size d \<le> length script"
    using assms(1,4,5) by (rule parse_shell_commands_size)
  also have "\<dots> < words_size inner" using assms(3) by (rule shell_script_size)
  also have "\<dots> \<le> words_size c" using assms(2) by (intro words_size_suffix unwrap_suffix)
  finally show ?thesis .
qed

text \<open>
  Both recursions have the same shape, so one lemma serves them: with fuel above the size of the
  command the result exists and does not depend on the fuel.
\<close>

lemma fuel_enough_aux:
  fixes f :: "nat \<Rightarrow> string list \<Rightarrow> bool option"
  assumes lib: "lib_ok lib"
    and step: "\<And>n c. f (Suc n) c =
      (case unwrap_command_prefix c of None \<Rightarrow> Some (base c)
       | Some inner \<Rightarrow>
           if early inner then Some (verdict inner)
           else case shell_script inner of None \<Rightarrow> Some False
                | Some script \<Rightarrow>
                    (case parse_shell_commands lib script of
                       Inr subs \<Rightarrow> any_opt (f n) subs | Inl _ \<Rightarrow> Some failed))"
  shows "words_size c < n \<Longrightarrow> words_size c < m \<Longrightarrow> f n c = f m c \<and> f n c \<noteq> None"
proof (induction "words_size c" arbitrary: c n m rule: less_induct)
  case less
  obtain n' m' where nm: "n = Suc n'" "m = Suc m'"
    using less.prems by (metis Nat.lessE)
  have sub: "any_opt (f n') subs = any_opt (f m') subs \<and> any_opt (f n') subs \<noteq> None"
    if "unwrap_command_prefix c = Some inner" "shell_script inner = Some script"
      "parse_shell_commands lib script = Inr subs" for inner script subs
  proof -
    have IH: "f n' d = f m' d \<and> f n' d \<noteq> None" if "d \<in> set subs" for d
    proof -
      have "words_size d < words_size c"
        using lib \<open>unwrap_command_prefix c = _\<close> \<open>shell_script inner = _\<close> \<open>parse_shell_commands _ _ = _\<close> that
        by (rule sub_command_size)
      moreover from calculation less.prems nm have "words_size d < n'" "words_size d < m'"
        by linarith+
      ultimately show ?thesis by (rule less.hyps)
    qed
    then have "any_opt (f n') subs = any_opt (f m') subs"
      by (blast intro: any_opt_cong)
    moreover have "any_opt (f n') subs \<noteq> None"
      by (rule any_opt_neq_None) (use IH in blast)
    ultimately show ?thesis by blast
  qed
  show ?case
  proof (cases "unwrap_command_prefix c")
    case None
    then show ?thesis by (simp add: nm step)
  next
    case inner: (Some inner)
    show ?thesis
    proof (cases "shell_script inner")
      case None
      with inner show ?thesis unfolding nm step by simp (metis (full_types))
    next
      case (Some script)
      obtain subs where subs: "parse_shell_commands lib script = Inr subs"
        using parse_shell_commands_Inr by blast
      obtain y where "any_opt (f n') subs = Some y" "any_opt (f m') subs = Some y"
        using sub [OF inner Some subs] by (metis option.exhaust)
      with inner Some subs show ?thesis by (simp add: nm step)
    qed
  qed
qed

lemma dangerous_fuel_Suc:
  "dangerous_fuel lib (Suc n) c =
     (case unwrap_command_prefix c of None \<Rightarrow> Some (c \<noteq> [])
      | Some inner \<Rightarrow>
          if executable_is_dynamic (hd inner) \<or> is_encoded_powershell_invocation inner
             \<or> is_dangerous_to_call_with_exec inner
          then Some True
          else case shell_script inner of None \<Rightarrow> Some False
               | Some script \<Rightarrow>
                   (case parse_shell_commands lib script of
                      Inr subs \<Rightarrow> any_opt (dangerous_fuel lib n) subs | Inl _ \<Rightarrow> Some True))"
  by (auto simp: shell_script_def dest: unwrap_Some_neq_Nil split: option.splits list.splits)

lemma approval_fuel_Suc:
  "approval_fuel lib (Suc n) c =
     (case unwrap_command_prefix c of None \<Rightarrow> Some False
      | Some inner \<Rightarrow>
          if is_inline_code_execution inner then Some True
          else case shell_script inner of None \<Rightarrow> Some False
               | Some script \<Rightarrow>
                   (case parse_shell_commands lib script of
                      Inr subs \<Rightarrow> any_opt (approval_fuel lib n) subs | Inl _ \<Rightarrow> Some False))"
  by simp

lemma dangerous_fuel_enough:
  assumes "lib_ok lib" "words_size c < n"
  shows "dangerous_fuel lib n c = Some (command_might_be_dangerous lib c)"
proof -
  have "dangerous_fuel lib n c = dangerous_fuel lib (Suc (words_size c)) c \<and> dangerous_fuel lib n c \<noteq> None"
    using assms(2) by (intro fuel_enough_aux [where f = "dangerous_fuel lib", OF assms(1) dangerous_fuel_Suc]) simp_all
  then show ?thesis
    unfolding command_might_be_dangerous_def command_size_words by (rule known_verdict)
qed

lemma approval_fuel_enough:
  assumes "lib_ok lib" "words_size c < n"
  shows "approval_fuel lib n c = Some (command_requires_approval lib c)"
proof -
  have "approval_fuel lib n c = approval_fuel lib (Suc (words_size c)) c \<and> approval_fuel lib n c \<noteq> None"
    using assms(2) by (intro fuel_enough_aux [where f = "approval_fuel lib", OF assms(1) approval_fuel_Suc]) simp_all
  then show ?thesis
    unfolding command_requires_approval_def command_size_words by (rule known_verdict)
qed

text \<open>The recursive equation of the source, for libraries that return pieces of the script.\<close>

lemma command_might_be_dangerous_rec:
  assumes "lib_ok lib"
  shows "command_might_be_dangerous lib c =
     (case unwrap_command_prefix c of None \<Rightarrow> c \<noteq> []
      | Some inner \<Rightarrow>
          executable_is_dynamic (hd inner) \<or> is_encoded_powershell_invocation inner
          \<or> is_dangerous_to_call_with_exec inner
          \<or> (case shell_script inner of None \<Rightarrow> False
              | Some script \<Rightarrow>
                  (case parse_shell_commands lib script of
                     Inr subs \<Rightarrow> list_ex (command_might_be_dangerous lib) subs | Inl _ \<Rightarrow> True)))"
proof -
  have sub: "any_opt (dangerous_fuel lib (words_size c)) subs
               = Some (list_ex (command_might_be_dangerous lib) subs)"
    if "unwrap_command_prefix c = Some inner" "shell_script inner = Some script"
      "parse_shell_commands lib script = Inr subs" for inner script subs
  proof -
    have "any_opt (dangerous_fuel lib (words_size c)) subs
            = any_opt (\<lambda>d. Some (command_might_be_dangerous lib d)) subs"
      using assms that by (intro any_opt_cong dangerous_fuel_enough) (auto intro: sub_command_size)
    then show ?thesis by (simp add: any_opt_Some)
  qed
  have eq: "Some (command_might_be_dangerous lib c) = dangerous_fuel lib (Suc (words_size c)) c"
    using assms by (simp add: dangerous_fuel_enough del: dangerous_fuel.simps)
  show ?thesis
  proof (cases "unwrap_command_prefix c")
    case None
    with eq show ?thesis by (simp add: dangerous_fuel_Suc del: dangerous_fuel.simps)
  next
    case inner: (Some inner)
    show ?thesis
    proof (cases "shell_script inner")
      case None
      with inner eq show ?thesis
        by (auto simp: dangerous_fuel_Suc simp del: dangerous_fuel.simps split: if_splits)
    next
      case (Some script)
      obtain subs where "parse_shell_commands lib script = Inr subs"
        using parse_shell_commands_Inr by blast
      with sub [OF inner Some this] inner Some eq show ?thesis
        by (auto simp: dangerous_fuel_Suc simp del: dangerous_fuel.simps split: if_splits)
    qed
  qed
qed

subsection \<open>Wrappers\<close>

lemma unwrap_assignment:
  "is_environment_assignment a \<Longrightarrow> unwrap_command_prefix (a # c) = unwrap_command_prefix c"
  by (subst (1 2) unwrap_command_prefix.simps) simp

lemma sudo_not_assignment [simp]: "\<not> is_environment_assignment ''sudo''" "\<not> is_environment_assignment ''env''"
  by (simp_all add: is_environment_assignment_def)

lemma extract_command_name_plain [simp]:
  "extract_command_name ''sudo'' = ''sudo''" "extract_command_name ''env'' = ''env''"
  "extract_command_name ''git'' = ''git''" "extract_command_name ''rm'' = ''rm''"
  by (simp_all add: extract_command_name_def file_name_no_slash)

lemma unwrap_sudo:
  "unwrap_command_prefix (''sudo'' # c) = Option.bind (sudo_options c) unwrap_command_prefix"
  by (subst unwrap_command_prefix.simps) (simp split: option.split)

lemma unwrap_env:
  "unwrap_command_prefix (''env'' # c) = Option.bind (env_options c) unwrap_command_prefix"
  by (subst unwrap_command_prefix.simps) (simp split: option.split)

lemma unwrap_cong_dangerous:
  assumes "lib_ok lib" "unwrap_command_prefix c = unwrap_command_prefix d" "c = [] \<longleftrightarrow> d = []"
  shows "command_might_be_dangerous lib c = command_might_be_dangerous lib d"
  using assms by (simp add: command_might_be_dangerous_rec split: option.split)

lemma sudo_options_plain:
  "c \<noteq> [] \<Longrightarrow> \<not> starts_with (hd c) ''-'' \<Longrightarrow> sudo_options c = Some c"
  by (cases c; cases "hd c") (auto simp: sudo_value_options_def sudo_flags_def)

lemma env_options_plain:
  "c \<noteq> [] \<Longrightarrow> \<not> starts_with (hd c) ''-'' \<Longrightarrow> \<not> is_environment_assignment (hd c) \<Longrightarrow>
     env_options c = Some c"
  by (cases c; cases "hd c") auto

subsection \<open>The git scan\<close>

text \<open>Global options of git in front of a subcommand, each with its value where it takes one.\<close>

fun git_globals :: "string list \<Rightarrow> bool" where
  "git_globals [] \<longleftrightarrow> True"
| "git_globals (a # rest) \<longleftrightarrow>
     (if is_git_global_option_with_inline_value a then git_globals rest
      else if is_git_global_option_with_value a
      then (case rest of [] \<Rightarrow> False | _ # rest' \<Rightarrow> git_globals rest')
      else starts_with a ''-'' \<and> git_globals rest)"

lemma not_dash_not_global:
  assumes "\<not> starts_with a ''-''"
  shows "\<not> is_git_global_option_with_inline_value a" "\<not> is_git_global_option_with_value a" "a \<noteq> ''--''"
  using assms
  by (cases a; auto simp: is_git_global_option_with_inline_value_def is_git_global_option_with_value_def
      git_value_options_def git_inline_prefixes_def)+

lemma git_scan_globals:
  assumes "\<not> starts_with sub ''-''"
  shows "git_globals opts \<Longrightarrow>
    git_scan idx False (opts @ sub # args) subs = (if sub \<in> set subs then Some (idx + length opts, sub) else None)"
proof (induction opts arbitrary: idx rule: git_globals.induct)
  case 1
  then show ?case using assms by (simp add: not_dash_not_global)
next
  case (2 a rest)
  then show ?case by (auto split: if_splits list.splits)
qed

lemma git_subcommand_other:
  "sub \<notin> set dangerous_git_subcommands \<Longrightarrow> \<not> git_subcommand_is_dangerous sub args"
  by (auto simp: git_subcommand_is_dangerous_def dangerous_git_subcommands_def)

lemma git_exec_verdict:
  assumes "git_globals opts" "\<not> starts_with sub ''-''"
  shows "is_dangerous_to_call_with_exec (''git'' # opts @ sub # args) = git_subcommand_is_dangerous sub args"
proof -
  have "ends_with ''git'' ''git''" by (simp add: ends_with_def)
  with git_scan_globals [OF assms(2,1)] show ?thesis
    by (auto simp: find_git_subcommand_def git_subcommand_other)
qed

lemma shell_exec_not_dangerous:
  assumes "extract_command_name e \<in> set shell_names" "\<not> starts_with e ''-''"
  shows "\<not> is_dangerous_to_call_with_exec (e # args)" "\<not> is_encoded_powershell_invocation (e # args)"
proof -
  have "e \<notin> set dangerous_git_subcommands"
    using assms(1)
    by (auto simp: dangerous_git_subcommands_def shell_names_def extract_command_name_def file_name_no_slash)
  with assms show "\<not> is_dangerous_to_call_with_exec (e # args)"
    by (auto simp: shell_names_def is_dangerous_git_subcommand_def ends_with_def Let_def)
  show "\<not> is_encoded_powershell_invocation (e # args)"
    using assms(1)
    by (auto simp: shell_names_def is_encoded_powershell_invocation_def powershell_names_def
        to_ascii_lowercase_def to_lower_char_def is_ascii_upper_def)
qed

lemma unwrap_plain:
  "\<not> is_environment_assignment e \<Longrightarrow> extract_command_name e \<noteq> ''env'' \<Longrightarrow> extract_command_name e \<noteq> ''sudo'' \<Longrightarrow>
     unwrap_command_prefix (e # args) = Some (e # args)"
  by (subst unwrap_command_prefix.simps) simp

subsection \<open>Properties\<close>

text \<open>C5: both recursive classifiers return: with libraries that return pieces of the script, fuel
  above the total length of the arguments gives a verdict, the one the definitions take.\<close>

theorem classifiers_return:
  assumes "lib_ok lib" "command_size c < n"
  shows "dangerous_fuel lib n c = Some (command_might_be_dangerous lib c)
    \<and> approval_fuel lib n c = Some (command_requires_approval lib c)"
  using assms by (simp add: dangerous_fuel_enough approval_fuel_enough command_size_words
      del: dangerous_fuel.simps approval_fuel.simps)

theorem classifiers_return_witness:
  "lib_ok plain_lib \<and> command_size [''sh'', ''-c'', ''rm -rf /''] < 20
   \<and> dangerous_fuel plain_lib 20 [''sh'', ''-c'', ''rm -rf /'']
       = Some (command_might_be_dangerous plain_lib [''sh'', ''-c'', ''rm -rf /''])"
  using classifiers_return [of plain_lib "[''sh'', ''-c'', ''rm -rf /'']" 20]
  by (simp add: command_size_def)

text \<open>C7: \<open>sudo\<close>, \<open>env\<close> and an assignment in front of a command do not change its verdict.\<close>

theorem wrappers_transparent:
  assumes "lib_ok lib" "c \<noteq> []" "\<not> starts_with (hd c) ''-''" "\<not> is_environment_assignment (hd c)"
    "is_environment_assignment a"
  shows "command_might_be_dangerous lib (''sudo'' # c) = command_might_be_dangerous lib c
    \<and> command_might_be_dangerous lib (''env'' # a # c) = command_might_be_dangerous lib c
    \<and> command_might_be_dangerous lib (a # c) = command_might_be_dangerous lib c"
proof (intro conjI)
  show "command_might_be_dangerous lib (''sudo'' # c) = command_might_be_dangerous lib c"
    using assms by (intro unwrap_cong_dangerous) (simp_all add: unwrap_sudo sudo_options_plain)
  show "command_might_be_dangerous lib (''env'' # a # c) = command_might_be_dangerous lib c"
    using assms by (intro unwrap_cong_dangerous) (simp_all add: unwrap_env env_options_plain)
  show "command_might_be_dangerous lib (a # c) = command_might_be_dangerous lib c"
    using assms by (intro unwrap_cong_dangerous) (simp_all add: unwrap_assignment)
qed

theorem wrappers_transparent_witness:
  "command_might_be_dangerous plain_lib [''sudo'', ''git'', ''status'']
     = command_might_be_dangerous plain_lib [''git'', ''status'']
   \<and> command_might_be_dangerous plain_lib [''env'', ''MODE=test'', ''git'', ''status'']
     = command_might_be_dangerous plain_lib [''git'', ''status'']
   \<and> command_might_be_dangerous plain_lib [''MODE=test'', ''git'', ''status'']
     = command_might_be_dangerous plain_lib [''git'', ''status'']"
  by (rule wrappers_transparent) (simp_all add: is_environment_assignment_def char_class_defs)

text \<open>an option that \<open>sudo\<close> or \<open>env\<close> is not known to take makes the command dangerous.\<close>

theorem unknown_wrapper_option_fails_closed:
  assumes "starts_with opt ''-''" "\<not> is_environment_assignment opt" "opt \<noteq> ''--''"
    "opt \<notin> set sudo_value_options" "opt \<notin> set sudo_flags"
    "\<forall>p \<in> {''--user='', ''--group='', ''--host='', ''--chdir='', ''--unset=''}. \<not> starts_with opt p"
    "opt \<notin> {''-i'', ''--ignore-environment'', ''--unset''}"
  shows "command_might_be_dangerous lib (''sudo'' # opt # c) \<and> command_might_be_dangerous lib (''env'' # opt # c)"
proof -
  have "opt \<noteq> ''-u''" using assms(4) by (auto simp: sudo_value_options_def)
  with assms show ?thesis
    by (simp add: command_might_be_dangerous_def unwrap_sudo unwrap_env)
qed

theorem unknown_wrapper_option_witness:
  "command_might_be_dangerous plain_lib [''sudo'', ''--unknown'', ''git'', ''status'']
   \<and> command_might_be_dangerous plain_lib [''env'', ''--unknown'', ''git'', ''status'']"
  by (rule unknown_wrapper_option_fails_closed)
    (simp_all add: is_environment_assignment_def sudo_value_options_def sudo_flags_def)

text \<open>C24: a shell invocation is dangerous exactly when the shell's own name is dynamic or a command
  of its script is dangerous.\<close>

theorem shell_script_verdict:
  assumes "lib_ok lib" "extract_command_name e \<in> set shell_names" "flag \<in> set shell_script_flags"
    "\<not> is_environment_assignment e" "\<not> starts_with e ''-''"
    "parse_shell_commands lib script = Inr subs"
  shows "command_might_be_dangerous lib (e # flag # script # rest) \<longleftrightarrow>
    executable_is_dynamic e \<or> (\<exists>sub \<in> set subs. command_might_be_dangerous lib sub)"
proof -
  have "unwrap_command_prefix (e # flag # script # rest) = Some (e # flag # script # rest)"
    using assms(2,4) by (intro unwrap_plain) (auto simp: shell_names_def)
  moreover have "shell_script (e # flag # script # rest) = Some script"
    using assms(2,3) by (simp add: shell_script_def)
  ultimately show ?thesis
    using assms(1,6) shell_exec_not_dangerous [OF assms(2,5)]
    by (subst command_might_be_dangerous_rec) (simp_all add: list_ex_iff del: is_dangerous_to_call_with_exec.simps)
qed

theorem shell_script_verdict_witness:
  "command_might_be_dangerous plain_lib [''/bin/sh'', ''-c'', ''ls; rm -rf x''] \<longleftrightarrow>
    executable_is_dynamic ''/bin/sh''
    \<or> (\<exists>sub \<in> set [[''ls''], [''rm'', ''-rf'', ''x'']]. command_might_be_dangerous plain_lib sub)"
proof (rule shell_script_verdict)
  show "parse_shell_commands plain_lib ''ls; rm -rf x'' = Inr [[''ls''], [''rm'', ''-rf'', ''x'']]"
    by code_simp
  show "extract_command_name ''/bin/sh'' \<in> set shell_names" by code_simp
qed (simp_all add: shell_script_flags_def is_environment_assignment_def)

text \<open>whatever global options precede it, the first word of a git command that is no option decides
  the verdict, with the arguments after it.\<close>

theorem git_verdict:
  assumes "git_globals opts" "\<not> starts_with sub ''-''"
  shows "is_dangerous_to_call_with_exec (''git'' # opts @ sub # args) = git_subcommand_is_dangerous sub args"
  using assms by (rule git_exec_verdict)

theorem git_verdict_witness:
  "is_dangerous_to_call_with_exec [''git'', ''-C'', ''dir'', ''--no-pager'', ''push'', ''origin'', ''+main'']
     = git_subcommand_is_dangerous ''push'' [''origin'', ''+main'']"
  using git_verdict [of "[''-C'', ''dir'', ''--no-pager'']" "''push''" "[''origin'', ''+main'']"]
  by (simp add: is_git_global_option_with_inline_value_def is_git_global_option_with_value_def
      git_value_options_def git_inline_prefixes_def del: is_dangerous_to_call_with_exec.simps)

text \<open>the \<open>rm\<close> branch compares the first argument with four spellings only: the same deletion
  with combined, long or reordered flags passes the detector.\<close>

theorem rm_other_spellings_pass:
  "\<not> command_might_be_dangerous lib [''rm'', ''-rfv'', ''/'']
   \<and> \<not> command_might_be_dangerous lib [''rm'', ''--recursive'', ''--force'', ''/'']
   \<and> \<not> command_might_be_dangerous lib [''rm'', ''-Rf'', ''/'']
   \<and> \<not> command_might_be_dangerous lib [''rm'', ''--'', ''-rf'', ''/'']
   \<and> command_might_be_dangerous lib [''rm'', ''-rf'', ''/'']"
proof -
  have u: "unwrap_command_prefix (''rm'' # args) = Some (''rm'' # args)" for args
    by (rule unwrap_plain) (simp_all add: is_environment_assignment_def)
  have n: "shell_script (''rm'' # args) = None" "\<not> executable_is_dynamic ''rm''"
    "\<not> is_encoded_powershell_invocation (''rm'' # args)" for args
    by (auto simp: shell_script_def shell_names_def executable_is_dynamic_def
        is_encoded_powershell_invocation_def powershell_names_def to_ascii_lowercase_def
        to_lower_char_def is_ascii_upper_def split: list.splits)
  show ?thesis by (simp add: command_might_be_dangerous_def u n)
qed

end
