(* ===== verification/Evaluator_Facts.thy ===== *)
theory Evaluator_Facts
  imports Unified_Evaluator Dangerous_Facts
begin

text \<open>
  Correctness of the allow lists, the cache and the unified evaluator.
\<close>

subsection \<open>The registry\<close>

text \<open>An executable whose spelling is neither an option, an assignment nor dynamic.\<close>

definition plain_executable :: "string \<Rightarrow> bool" where
  "plain_executable e \<longleftrightarrow>
     \<not> starts_with e ''-'' \<and> \<not> is_environment_assignment e \<and> \<not> executable_is_dynamic e"

lemma registry_name_extract: "registry_name = extract_command_name"
  by (rule ext) (simp add: registry_name_def extract_command_name_def)

definition registry_commands :: "string list" where
  "registry_commands = [''git'', ''cargo'', ''find'', ''base64'', ''sed'', ''rg''] @ read_only_tools"

lemma dom_foldl_upd: "dom (foldl (\<lambda>m k. m(k \<mapsto> v)) m ks) = set ks \<union> dom m"
  by (induction ks arbitrary: m) auto

lemma dom_new_registry: "dom new_registry = set registry_commands"
  by (auto simp: new_registry_def default_rules_def dom_foldl_upd registry_commands_def)

lemma foldl_upd_other: "k \<notin> set ks \<Longrightarrow> foldl (\<lambda>m k. m(k \<mapsto> v)) m ks k = m k"
  by (induction ks arbitrary: m) auto

lemma new_registry_git:
  "new_registry ''git'' = Some \<lparr>safe_subcommands = Some [''status'', ''log'', ''diff'', ''show''],
     forbidden_options = [], custom_check = Some check_git\<rparr>"
  by (simp add: new_registry_def default_rules_def foldl_upd_other read_only_tools_def)

lemma new_registry_find: "new_registry ''find'' = Some (with_forbidden_options find_forbidden)"
  by (simp add: new_registry_def default_rules_def foldl_upd_other read_only_tools_def)

lemma new_registry_sed:
  "new_registry ''sed'' = Some \<lparr>safe_subcommands = None, forbidden_options = [], custom_check = Some check_sed\<rparr>"
  by (simp add: new_registry_def default_rules_def foldl_upd_other read_only_tools_def)

lemma find_forbidden_option_None:
  "find_forbidden_option forbidden command = None \<longleftrightarrow>
     (\<forall>arg \<in> set command. \<forall>f \<in> set forbidden. \<not> forbidden_match arg f)"
  unfolding find_forbidden_option_def
  by (auto simp: find_None_iff list_ex_iff find_Some_iff split: option.splits)

lemma is_safe_Allow_rule:
  assumes "is_safe rules (e # args) = Allow"
  shows "\<exists>rule. rules (registry_name e) = Some rule
    \<and> (let custom = (case custom_check rule of Some check \<Rightarrow> check (e # args) | None \<Rightarrow> Unknown)
       in custom = Allow
          \<or> custom = Unknown \<and> check_subcommands (registry_name e) rule (e # args) = None
             \<and> find_forbidden_option (forbidden_options rule) (e # args) = None)"
  using assms
  by (auto simp: is_safe_def Let_def check_subcommands_def split: option.splits if_splits list.splits)

lemma git_scan_other:
  "git_scan idx skip args S = Some (i, s) \<Longrightarrow>
     s \<in> set S \<and> git_scan idx skip args S' = (if s \<in> set S' then Some (i, s) else None)"
  by (induction idx skip args S rule: git_scan.induct) (auto split: if_splits)

lemma read_only_branch_not_delete:
  assumes "list_all branch_arg_is_read_only args" "\<not> list_ex branch_arg_is_dangerous args"
  shows "\<not> git_branch_is_delete args"
proof -
  have "\<not> (arg \<in> {''-d'', ''-D'', ''--delete''} \<or> starts_with arg ''--delete=''
          \<or> short_flag_group_contains arg CHR ''d'' \<or> short_flag_group_contains arg CHR ''D'')"
    if "arg \<in> set args" for arg
  proof -
    have ro: "branch_arg_is_read_only arg" and nd: "\<not> branch_arg_is_dangerous arg"
      using assms that by (auto simp: list_all_iff list_ex_iff)
    have "\<not> short_flag_group_contains arg c" if "c = CHR ''d'' \<or> c = CHR ''D''" for c
    proof (cases "starts_with arg ''--''")
      case True
      then show ?thesis by (simp add: short_flag_group_contains_def)
    next
      case False
      then have "\<not> list_ex (starts_with arg) read_only_branch_prefixes"
        by (cases arg; cases "tl arg") (auto simp: read_only_branch_prefixes_def)
      with ro that show ?thesis
        by (auto simp: branch_arg_is_read_only_def read_only_branch_flags_def short_flag_group_contains_def)
    qed
    with nd show ?thesis
      by (auto simp: branch_arg_is_dangerous_def dangerous_branch_flags_def dangerous_branch_prefixes_def)
  qed
  then show ?thesis by (auto simp: git_branch_is_delete_def list_ex_iff)
qed

lemma git_branch_is_delete_Nil: "\<not> git_branch_is_delete []"
  by (simp add: git_branch_is_delete_def)

text \<open>None of the other names is one the detector or the prefix loop looks at.\<close>

definition unremarkable :: "string \<Rightarrow> bool" where
  "unremarkable n \<longleftrightarrow>
     n \<notin> {''git'', ''rm'', ''mkfs'', ''dd'', ''shutdown'', ''reboot'', ''init'', ''sudo'', ''env''}
     \<and> n \<notin> set shell_names \<and> to_ascii_lowercase n \<notin> set powershell_names
     \<and> \<not> starts_with n ''mkfs.'' \<and> \<not> ends_with n '':'' \<and> n \<notin> set dangerous_git_subcommands"

lemma registry_commands_unremarkable:
  "n \<in> set registry_commands \<Longrightarrow> n \<noteq> ''git'' \<Longrightarrow> unremarkable n"
proof -
  have "list_all (\<lambda>n. n \<noteq> ''git'' \<longrightarrow> unremarkable n) registry_commands" by code_simp
  then show "n \<in> set registry_commands \<Longrightarrow> n \<noteq> ''git'' \<Longrightarrow> unremarkable n"
    by (simp add: list_all_iff)
qed

lemma git_Allow_not_dangerous:
  assumes "is_safe new_registry (e # args) = Allow" "registry_name e = ''git''"
  shows "\<not> is_dangerous_to_call_with_exec (e # args)"
proof (rule notI)
  assume "is_dangerous_to_call_with_exec (e # args)"
  then obtain i s where f: "find_git_subcommand (e # args) dangerous_git_subcommands = Some (i, s)"
    and d: "git_subcommand_is_dangerous s (drop (Suc i) (e # args))"
    using assms(2) by (auto simp: registry_name_extract split: option.splits)
  then have scan: "git_scan 1 False args dangerous_git_subcommands = Some (i, s)" and g: "ends_with e ''git''"
    by (auto simp: find_git_subcommand_def split: if_splits)
  note other = git_scan_other [OF scan]
  have allow: "check_git (e # args) = Allow \<or> check_git (e # args) = Unknown
      \<and> check_subcommands ''git'' (the (new_registry ''git'')) (e # args) = None"
    using is_safe_Allow_rule [OF assms(1)] assms(2) by (auto simp: new_registry_git Let_def)
  show False
  proof (cases "s = ''branch''")
    case True
    then have "find_git_subcommand (e # args) [''status'', ''log'', ''diff'', ''show'', ''branch''] = Some (i, s)"
      using other [of "[''status'', ''log'', ''diff'', ''show'', ''branch'']"] g by (simp add: find_git_subcommand_def)
    with True allow have "\<not> git_branch_is_delete (drop i args)"
      by (auto simp: check_git_def Let_def read_only_branch_not_delete git_branch_is_delete_Nil split: if_splits)
    with True d show False by (simp add: git_subcommand_is_dangerous_def)
  next
    case False
    then have "s \<in> {''reset'', ''rm'', ''push'', ''clean''}"
      using other by (auto simp: dangerous_git_subcommands_def)
    then have "find_git_subcommand (e # args) [''status'', ''log'', ''diff'', ''show'', ''branch''] = None"
      using other [of "[''status'', ''log'', ''diff'', ''show'', ''branch'']"] g by (auto simp: find_git_subcommand_def)
    then have "check_git (e # args) \<noteq> Allow" by (simp add: check_git_def)
    with allow obtain a rest where a: "args = a # rest" "a \<in> {''status'', ''log'', ''diff'', ''show''}"
      by (cases args) (auto simp: check_subcommands_def new_registry_git split: if_splits)
    with scan show False
      by (auto simp: is_git_global_option_with_inline_value_def is_git_global_option_with_value_def
          git_value_options_def git_inline_prefixes_def dangerous_git_subcommands_def)
  qed
qed

lemma other_Allow_not_dangerous:
  assumes "unremarkable (registry_name e)" "\<not> starts_with e ''-''"
  shows "\<not> is_dangerous_to_call_with_exec (e # args)"
proof -
  have "e \<notin> set dangerous_git_subcommands"
    using assms(1)
    by (auto simp: dangerous_git_subcommands_def unremarkable_def registry_name_def file_name_no_slash)
  with assms show ?thesis
    by (simp add: unremarkable_def registry_name_extract is_dangerous_git_subcommand_def Let_def)
qed

lemma Allow_not_dangerous:
  assumes allow: "is_safe new_registry (e # args) = Allow" and plain: "plain_executable e"
  shows "\<not> command_might_be_dangerous lib (e # args)"
proof -
  have name: "registry_name e \<in> set registry_commands"
    using is_safe_Allow_rule [OF allow] dom_new_registry by blast
  have "\<not> is_dangerous_to_call_with_exec (e # args)"
    using plain name allow git_Allow_not_dangerous other_Allow_not_dangerous registry_commands_unremarkable
    by (metis plain_executable_def)
  moreover have "registry_name e = ''git'' \<or> unremarkable (registry_name e)"
    using name registry_commands_unremarkable by blast
  then have "extract_command_name e \<notin> set shell_names" "extract_command_name e \<notin> {''env'', ''sudo''}"
    "to_ascii_lowercase (extract_command_name e) \<notin> set powershell_names"
    by (auto simp: unremarkable_def registry_name_extract shell_names_def powershell_names_def
        to_ascii_lowercase_def to_lower_char_def is_ascii_upper_def)
  then have "unwrap_command_prefix (e # args) = Some (e # args)" "shell_script (e # args) = None"
    "\<not> is_encoded_powershell_invocation (e # args)"
    using plain by (auto simp: plain_executable_def unwrap_plain shell_script_def
        is_encoded_powershell_invocation_def split: list.splits)
  ultimately show ?thesis
    using plain by (simp add: command_might_be_dangerous_def plain_executable_def
        del: is_dangerous_to_call_with_exec.simps)
qed

subsection \<open>The cache\<close>

text \<open>The states of a cache of size \<open>cap\<close>: its operations in any order.\<close>

inductive cache_reachable :: "victim \<Rightarrow> nat \<Rightarrow> safety_cache \<Rightarrow> bool"
  for victim cap where
  new: "cache_reachable victim cap (new_cache cap)"
| get: "cache_reachable victim cap c \<Longrightarrow> cache_reachable victim cap (snd (cache_get c k))"
| put: "cache_reachable victim cap c \<Longrightarrow> cache_reachable victim cap (cache_put victim c k b r)"
| clear: "cache_reachable victim cap c \<Longrightarrow> cache_reachable victim cap (cache_clear c)"

inductive_cases cache_reachableE: "cache_reachable victim cap c"

lemma cache_put_max [simp]: "sc_max_size (cache_put victim c k b r) = sc_max_size c"
  by (simp add: cache_put_def Let_def)

lemma cache_get_inv: "cache_inv c \<Longrightarrow> cache_inv (snd (cache_get c k))"
  by (simp add: cache_get_def cache_inv_def Let_def)

lemma cache_reachable_inv:
  "cache_reachable victim cap c \<Longrightarrow> victim_ok victim \<Longrightarrow> 0 < cap \<Longrightarrow> cache_inv c \<and> sc_max_size c = cap"
proof (induction rule: cache_reachable.induct)
  case new
  then show ?case by (simp add: new_cache_def cache_inv_def)
next
  case (get c k)
  then show ?case by (simp add: cache_get_inv) (simp add: cache_get_def Let_def)
next
  case (put c k b r)
  then show ?case by (simp add: cache_put_inv)
next
  case (clear c)
  then show ?case by (simp add: cache_clear_def cache_inv_def)
qed

text \<open>whatever the order of its operations, a cache never holds more entries than its limit, and
  never two decisions for one command text.\<close>

theorem cache_bounded:
  assumes "cache_reachable victim cap c" "victim_ok victim" "0 < cap"
  shows "cache_size c \<le> cap \<and> distinct (map fst (sc_entries c))"
  using cache_reachable_inv [OF assms] by (auto simp: cache_inv_def cache_size_def)

theorem cache_bounded_witness:
  "cache_size (cache_put first_least (cache_put first_least (new_cache 1) ''a'' True ''x'') ''b'' False ''y'') \<le> 1"
  using cache_bounded [of first_least 1, OF cache_reachable.put [OF cache_reachable.put [OF cache_reachable.new]]]
  by simp

text \<open>an insertion into a full cache evicts one entry, and no remaining or evicted entry was used
  less often than the evicted one.\<close>

theorem eviction_is_least_used:
  assumes "victim_ok victim" "cache_inv c" "cache_lookup c k = None" "cache_size c = sc_max_size c"
  shows "\<exists>k' d'. map_of (sc_entries c) k' = Some d'
    \<and> (\<forall>k'' d''. map_of (sc_entries c) k'' = Some d'' \<longrightarrow> cd_access_count d' \<le> cd_access_count d'')
    \<and> (\<forall>q. q \<noteq> k \<longrightarrow> map_of (sc_entries (cache_put victim c k b r)) q
                     = (if q = k' then None else map_of (sc_entries c) q))"
proof -
  have d: "distinct (map fst (sc_entries c))" and ne: "sc_entries c \<noteq> []"
    using assms(2,4) by (auto simp: cache_inv_def cache_size_def)
  then obtain k' d' where v: "victim (sc_entries c) = Some k'" "(k', d') \<in> set (sc_entries c)"
    and least: "\<forall>(k'', d'') \<in> set (sc_entries c). cd_access_count d' \<le> cd_access_count d''"
    using assms(1) unfolding victim_ok_def by blast
  have "map_of (sc_entries c) k = None" using assms(3) by (simp add: cache_lookup_def)
  with v assms(4) have "sc_entries (cache_put victim c k b r) = insert_entry k
      \<lparr>cd_is_safe = b, cd_reason = r, cd_access_count = 1\<rparr> (remove_entry k' (sc_entries c))"
    by (simp add: cache_put_def cache_size_def Let_def)
  then have "\<forall>q. q \<noteq> k \<longrightarrow> map_of (sc_entries (cache_put victim c k b r)) q
                     = (if q = k' then None else map_of (sc_entries c) q)"
    by (simp add: map_of_insert_entry map_of_remove_entry)
  moreover have "map_of (sc_entries c) k' = Some d'" using d v(2) by simp
  moreover have "\<forall>k'' d''. map_of (sc_entries c) k'' = Some d'' \<longrightarrow> cd_access_count d' \<le> cd_access_count d''"
    using least by (auto dest: map_of_SomeD)
  ultimately show ?thesis by blast
qed

theorem eviction_is_least_used_witness:
  "\<exists>k' d'. map_of (sc_entries (cache_put first_least (new_cache 1) ''a'' True ''x'')) k' = Some d'"
  using eviction_is_least_used [of first_least "cache_put first_least (new_cache 1) ''a'' True ''x''" "''b''"]
  by (auto simp: cache_inv_def cache_put_def new_cache_def cache_lookup_def cache_size_def first_least_def Let_def)

subsection \<open>The evaluator over a run\<close>

fun eval_all ::
  "shell_lib \<Rightarrow> victim \<Rightarrow> evaluator \<Rightarrow> (string \<times> string list) list \<Rightarrow> bool list" where
  "eval_all lib victim ev [] = []"
| "eval_all lib victim ev ((now, command) # rest) =
     (let (r, ev') = evaluate lib victim now ev command
      in er_allowed r # eval_all lib victim ev' rest)"

text \<open>Commands whose joined text determines them: no empty word, no white space inside a word.\<close>

definition clean_command :: "string list \<Rightarrow> bool" where
  "clean_command c \<longleftrightarrow> c \<noteq> [] \<and> list_all (\<lambda>w. w \<noteq> [] \<and> list_all (\<lambda>ch. \<not> is_whitespace ch) w) c"

lemma clean_join_inj: "clean_command c \<Longrightarrow> clean_command d \<Longrightarrow> join '' '' c = join '' '' d \<Longrightarrow> c = d"
proof -
  have words: "split_whitespace (join '' '' e) = e" if "clean_command e" for e
  proof (rule split_whitespace_join)
    show "\<forall>w \<in> set e. w \<noteq> [] \<and> (\<forall>ch \<in> set w. \<not> is_whitespace ch)"
      using that by (auto simp: clean_command_def list_all_iff)
  qed
  assume "clean_command c" "clean_command d" "join '' '' c = join '' '' d"
  with words [of c] words [of d] show "c = d" by metis
qed

definition sound_entry :: "shell_lib \<Rightarrow> registry \<Rightarrow> string \<Rightarrow> bool \<Rightarrow> bool" where
  "sound_entry lib rules text allowed \<longleftrightarrow>
     (\<forall>c. clean_command c \<longrightarrow> join '' '' c = text \<longrightarrow> allowed = verdict lib rules c)"

lemma evaluate_clean:
  assumes victim: "victim_ok victim" and clean: "clean_command command"
    and inv: "decision_cache.all_stored cache_lookup cache_inv (sound_entry lib (ev_registry ev)) (ev_cache ev)"
  shows "er_allowed (fst (evaluate lib victim now ev command)) = verdict lib (ev_registry ev) command"
    and "decision_cache.all_stored cache_lookup cache_inv (sound_entry lib (ev_registry ev))
           (ev_cache (snd (evaluate lib victim now ev command)))"
proof -
  note contract = cache_contract [OF victim]
  let ?text = "join '' '' command"
  have ne: "command \<noteq> []" using clean by (simp add: clean_command_def)
  note after_get = decision_cache.all_stored_get [OF contract inv, of ?text]
  show allowed: "er_allowed (fst (evaluate lib victim now ev command)) = verdict lib (ev_registry ev) command"
  proof (cases "fst (cache_get_decision (ev_cache ev) ?text)")
    case None
    then show ?thesis by (rule evaluate_miss)
  next
    case (Some br)
    obtain ok reason where br: "br = (ok, reason)" by (cases br)
    from decision_cache.all_stored_hit [OF contract inv] Some br
    have "sound_entry lib (ev_registry ev) ?text ok" by blast
    with clean have "ok = verdict lib (ev_registry ev) command" by (simp add: sound_entry_def)
    with evaluate_hit(1) Some br ne show ?thesis by blast
  qed
  show "decision_cache.all_stored cache_lookup cache_inv (sound_entry lib (ev_registry ev))
          (ev_cache (snd (evaluate lib victim now ev command)))"
  proof (cases "fst (cache_get_decision (ev_cache ev) ?text)")
    case None
    have "sound_entry lib (ev_registry ev) ?text (er_allowed (fst (evaluate lib victim now ev command)))"
      unfolding sound_entry_def using clean allowed clean_join_inj by blast
    with evaluate_miss_cache [OF None ne] after_get show ?thesis
      by (metis decision_cache.all_stored_put [OF contract])
  next
    case (Some br)
    obtain ok reason where "br = (ok, reason)" by (cases br)
    with evaluate_hit(2) Some ne after_get show ?thesis by simp
  qed
qed

lemma new_evaluator_stored:
  "decision_cache.all_stored cache_lookup cache_inv (sound_entry lib (ev_registry new_evaluator)) (ev_cache new_evaluator)"
  unfolding fl.all_stored_def
  by (simp add: new_evaluator_def new_cache_def cache_inv_def cache_lookup_def)

lemma eval_all_clean:
  "victim_ok victim \<Longrightarrow> \<forall>(now, c) \<in> set runs. clean_command c \<Longrightarrow>
   decision_cache.all_stored cache_lookup cache_inv (sound_entry lib (ev_registry ev)) (ev_cache ev) \<Longrightarrow>
     eval_all lib victim ev runs = map (\<lambda>(now, c). verdict lib (ev_registry ev) c) runs"
proof (induction runs arbitrary: ev)
  case (Cons x runs)
  obtain now c where x: "x = (now, c)" by (cases x)
  with Cons.prems have clean: "clean_command c" by auto
  note step = evaluate_clean [OF Cons.prems(1) clean Cons.prems(3), of now]
  obtain r ev' where ev': "evaluate lib victim now ev c = (r, ev')" by (cases "evaluate lib victim now ev c")
  have "ev_registry ev' = ev_registry ev" using evaluate_registry [of lib victim now ev c] ev' by simp
  with Cons.IH [of ev'] Cons.prems step ev' x show ?case by simp
qed simp

text \<open>C1: on commands whose words have no white space the evaluator is its specification: over any run
  from a new evaluator, with any eviction, every answer is the uncached verdict.\<close>

theorem evaluator_refines_verdict:
  assumes "victim_ok victim" "\<forall>(now, c) \<in> set runs. clean_command c"
  shows "eval_all lib victim new_evaluator runs = map (\<lambda>(now, c). verdict lib new_registry c) runs"
  using eval_all_clean [OF assms new_evaluator_stored] by (simp add: new_evaluator_def)

theorem evaluator_refines_verdict_witness:
  "eval_all plain_lib first_least new_evaluator [(''0'', [''git'', ''status'']), (''1'', [''git'', ''status''])]
     = map (\<lambda>(now, c). verdict plain_lib new_registry c) [(''0'', [''git'', ''status'']), (''1'', [''git'', ''status''])]"
  by (rule evaluator_refines_verdict) (simp_all add: clean_command_def is_whitespace_def)

text \<open>the cache key is the arguments joined by spaces, so one argument vector can answer for
  another: after the single word \<open>rm -rf /\<close>, which no rule knows, the deletion itself is allowed.\<close>

theorem cache_key_collision:
  "eval_all plain_lib first_least new_evaluator [(''0'', [''rm'', ''-rf'', ''/''])] = [False]
   \<and> eval_all plain_lib first_least new_evaluator [(''0'', [''rm -rf /'']), (''1'', [''rm'', ''-rf'', ''/''])]
       = [True, True]
   \<and> \<not> verdict plain_lib new_registry [''rm'', ''-rf'', ''/'']"
  by code_simp

subsection \<open>The audit trail\<close>

lemma evaluate_audit:
  "\<exists>log. al_entries (ev_audit (snd (evaluate lib victim now ev command))) = al_entries (ev_audit ev) @ log
    \<and> length log \<le> 1
    \<and> (\<forall>e \<in> set log. ae_command e = command \<and> ae_timestamp e = now
                   \<and> ae_allowed e = er_allowed (fst (evaluate lib victim now ev command)))"
  by (auto simp: evaluate_def eval_result_def log_audit_entry_def put_decision_def audit_log_def
      new_audit_entry_def Let_def split: prod.split safety_decision.split option.split)

lemma evaluate_allowed_logged:
  assumes "al_enabled (ev_audit ev)" "er_allowed (fst (evaluate lib victim now ev command))"
    "fst (cache_get_decision (ev_cache ev) (join '' '' command)) = None"
  shows "al_entries (ev_audit (snd (evaluate lib victim now ev command)))
    = al_entries (ev_audit ev) @ [new_audit_entry now command True ''passed all safety checks'' ''Allow'']"
  using assms
  by (auto simp: evaluate_def eval_result_def log_audit_entry_def put_decision_def audit_log_def Let_def
      split: prod.splits safety_decision.splits option.splits if_splits)

text \<open>the audit log only grows, by at most one entry per evaluation, which names the command and
  the decision returned; and a command allowed without a cached decision always leaves its entry.\<close>

theorem audit_trail:
  "\<exists>log. al_entries (ev_audit (snd (evaluate lib victim now ev command))) = al_entries (ev_audit ev) @ log
    \<and> length log \<le> 1
    \<and> (\<forall>e \<in> set log. ae_command e = command \<and> ae_timestamp e = now
                   \<and> ae_allowed e = er_allowed (fst (evaluate lib victim now ev command)))
    \<and> (al_enabled (ev_audit ev) \<and> er_allowed (fst (evaluate lib victim now ev command))
       \<and> fst (cache_get_decision (ev_cache ev) (join '' '' command)) = None \<longrightarrow> log \<noteq> [])"
  using evaluate_audit [of lib victim now ev command] evaluate_allowed_logged [of ev lib victim now command]
  by fastforce

theorem audit_trail_witness:
  "al_entries (ev_audit (snd (evaluate plain_lib first_least ''0'' new_evaluator [''ls'']))) \<noteq> []"
proof -
  have "er_allowed (fst (evaluate plain_lib first_least ''0'' new_evaluator [''ls'']))" by code_simp
  moreover have "fst (cache_get_decision (ev_cache new_evaluator) (join '' '' [''ls''])) = None" by code_simp
  moreover have "al_enabled (ev_audit new_evaluator)" by (simp add: new_evaluator_def new_audit_logger_def)
  ultimately show ?thesis
    using audit_trail [of plain_lib first_least "''0''" new_evaluator "[''ls'']"] by auto
qed

text \<open>a denial caused by a command of a shell script is cached but leaves no audit entry.\<close>

theorem script_denial_not_audited:
  "er_allowed (fst (evaluate plain_lib first_least ''0'' new_evaluator [''bash'', ''-lc'', ''git push origin main''])) = False
   \<and> al_entries (ev_audit (snd (evaluate plain_lib first_least ''0'' new_evaluator
        [''bash'', ''-lc'', ''git push origin main'']))) = []
   \<and> cache_size (ev_cache (snd (evaluate plain_lib first_least ''0'' new_evaluator
        [''bash'', ''-lc'', ''git push origin main'']))) = 1"
  by code_simp

subsection \<open>Policies and registries\<close>

text \<open>the policy layer only restricts: what it allows, the safety evaluation of the same state
  allows, and a policy denial changes no state.\<close>

theorem policy_only_restricts:
  "(er_allowed (fst (policy_aware_evaluate lib victim now pa command))
      \<longrightarrow> pa_allow pa \<noteq> Some False \<or> pa_reason pa = None)
   \<and> (er_allowed (fst (policy_aware_evaluate lib victim now pa command))
      \<longrightarrow> er_allowed (fst (evaluate lib victim now (pa_unified pa) command)))
   \<and> (policy_aware_evaluate lib victim now (set_policy pa False reason) command
      = (eval_result False (PolicyDeny reason) [], set_policy pa False reason))"
  by (auto simp: policy_aware_evaluate_def evaluate_with_policy_def eval_result_def set_policy_def Let_def
      split: prod.splits option.splits if_splits)

theorem policy_only_restricts_witness:
  "er_allowed (fst (policy_aware_evaluate plain_lib first_least ''0'' new_policy_aware [''ls'']))
   \<and> er_allowed (fst (evaluate plain_lib first_least ''0'' (pa_unified new_policy_aware) [''ls'']))"
proof -
  have h: "er_allowed (fst (policy_aware_evaluate plain_lib first_least ''0'' new_policy_aware [''ls'']))"
    by code_simp
  with policy_only_restricts [of plain_lib first_least "''0''" new_policy_aware "[''ls'']"]
  show ?thesis by blast
qed

text \<open>C35: what the default registry allows, the detector calls dangerous exactly when the executable is written with
  an expansion character (a variable, a command substitution, a pattern or a brace), for an executable that is neither
  an option nor an assignment: on plainly written executables the allow list and the detector are disjoint.\<close>

theorem registry_allow_dangerous_iff:
  assumes "is_safe new_registry (e # args) = Allow" "\<not> is_environment_assignment e" "\<not> starts_with e ''-''"
  shows "command_might_be_dangerous lib (e # args) \<longleftrightarrow> executable_is_dynamic e"
proof (cases "executable_is_dynamic e")
  case True
  have "registry_name e \<in> set registry_commands"
    using is_safe_Allow_rule [OF assms(1)] dom_new_registry by blast
  then have "registry_name e = ''git'' \<or> unremarkable (registry_name e)" using registry_commands_unremarkable by blast
  then have "extract_command_name e \<noteq> ''env''" "extract_command_name e \<noteq> ''sudo''"
    by (auto simp: unremarkable_def registry_name_extract)
  then have "unwrap_command_prefix (e # args) = Some (e # args)" using assms(2) by (intro unwrap_plain)
  then show ?thesis using True by (simp add: command_might_be_dangerous_def)
next
  case False
  then show ?thesis using Allow_not_dangerous [OF assms(1)] assms(2,3) by (simp add: plain_executable_def)
qed

theorem registry_allow_dangerous_iff_witness:
  "\<not> command_might_be_dangerous plain_lib [''git'', ''branch'', ''--list'']
   \<and> command_might_be_dangerous plain_lib [''$X/git'', ''status'']"
proof -
  have "is_safe new_registry [''git'', ''branch'', ''--list''] = Allow" "is_safe new_registry [''$X/git'', ''status''] = Allow"
    "\<not> is_environment_assignment ''git''" "\<not> is_environment_assignment ''$X/git''"
    "\<not> executable_is_dynamic ''git''" "executable_is_dynamic ''$X/git''" by code_simp+
  with registry_allow_dangerous_iff [of "''git''" "[''branch'', ''--list'']" plain_lib]
    registry_allow_dangerous_iff [of "''$X/git''" "[''status'']" plain_lib]
  show ?thesis by simp
qed

text \<open>the registry reads the name behind the last slash of the first word, even of an assignment: a command behind one
  is allowed although the detector calls it dangerous.\<close>

theorem registry_reads_assignment:
  "is_safe new_registry [''A=/cat'', ''rm'', ''-rf'', ''/''] = Allow
   \<and> command_might_be_dangerous plain_lib [''A=/cat'', ''rm'', ''-rf'', ''/'']"
  by code_simp

text \<open>\<open>find\<close> is allowed exactly when no argument is one of the forbidden options, alone or with an
  inline value.\<close>

theorem find_allowed_iff:
  assumes "registry_name e = ''find''"
  shows "is_safe new_registry (e # args) = Allow \<longleftrightarrow>
    (\<forall>arg \<in> set (e # args). \<forall>f \<in> set find_forbidden. arg \<noteq> f \<and> \<not> starts_with arg (f @ ''=''))"
proof -
  have "is_safe new_registry (e # args) = Allow \<longleftrightarrow> find_forbidden_option find_forbidden (e # args) = None"
    using assms
    by (auto simp: is_safe_def new_registry_find with_forbidden_options_def check_subcommands_def Let_def
        split: option.splits)
  then show ?thesis by (auto simp: find_forbidden_option_None forbidden_match_def)
qed

theorem find_allowed_iff_witness:
  "is_safe new_registry [''/usr/bin/find'', ''.'', ''-delete''] \<noteq> Allow"
  using find_allowed_iff [of "''/usr/bin/find''" "[''.'', ''-delete'']"]
  by (simp add: find_forbidden_def registry_name_def file_name_def)

text \<open>commands the allow list calls read-only but that can write or run: a one-argument \<open>sed\<close> script
  skips the \<open>sed -n\<close> pattern check, and git's output option is not looked at.\<close>

theorem allow_list_admits_writers:
  "is_safe new_registry [''sed'', ''1e rm -rf x''] = Allow
   \<and> is_safe new_registry [''git'', ''diff'', ''--output=x''] = Allow
   \<and> is_safe new_registry [''sort'', ''-o'', ''x''] = Allow
   \<and> (\<exists>reason. is_safe new_registry [''sed'', ''w x'', ''y''] = Deny reason)"
proof -
  have "is_safe new_registry [''sed'', ''w x'', ''y'']
      = Deny ''sed only allows safe pattern: sed -n {N|M,N}p''" by code_simp
  moreover have "is_safe new_registry [''sed'', ''1e rm -rf x''] = Allow" by code_simp
  moreover have "is_safe new_registry [''git'', ''diff'', ''--output=x''] = Allow" by code_simp
  moreover have "is_safe new_registry [''sort'', ''-o'', ''x''] = Allow" by code_simp
  ultimately show ?thesis by blast
qed

end
