(* ===== verification/Safety_Gate.thy ===== *)
theory Safety_Gate
  imports Evaluator_Facts
begin

text \<open>
  The entry points of the command safety module,
  \<^verbatim>\<open>crates/codegen/vtcode-safety/src/command_safety/mod.rs\<close>: the checks that a tool calls before it
  runs a shell string, an argument vector or an explicit shell script, composed from the parser, the
  dangerous-command detector and the registry. The properties say which parts of a request an accepted
  one is guaranteed to have passed.
\<close>

subsection \<open>The entry points\<close>

definition is_safe_command :: "shell_lib \<Rightarrow> registry \<Rightarrow> string list \<Rightarrow> bool" where
  "is_safe_command lib rules command =
     (if command = [] then False
      else if command_might_be_dangerous lib command then False
      else (case is_safe rules command of Allow \<Rightarrow> True | _ \<Rightarrow> False))"

definition shell_string_might_be_dangerous :: "shell_lib \<Rightarrow> string \<Rightarrow> bool" where
  "shell_string_might_be_dangerous lib command =
     (if (case parse_shell_commands lib command of
            Inr parsed_commands \<Rightarrow>
              list_ex (\<lambda>cmd. cmd \<noteq> [] \<and> command_might_be_dangerous lib cmd) parsed_commands
          | Inl _ \<Rightarrow> False)
      then True
      else let fallback_tokens = split_whitespace command
           in fallback_tokens \<noteq> [] \<and> command_might_be_dangerous lib fallback_tokens)"

definition find_msg :: string where
  "find_msg = ''dynamic shell expansion in find commands is not allowed''"

definition danger_msg :: string where
  "danger_msg = ''Potential dangerous command detected''"

definition check_pattern :: "shell_lib \<Rightarrow> string \<Rightarrow> unit rresult" where
  "check_pattern lib segment =
     (case additional_dangerous_pattern lib segment of
        Some pat \<Rightarrow> bail (''Potential dangerous command: '' @ pat)
      | None \<Rightarrow> ok_unit)"

definition validate_command_safety :: "shell_lib \<Rightarrow> string \<Rightarrow> unit rresult" where
  "validate_command_safety lib command =
     (if length command < 3 then ok_unit
      else if contains_dynamic_find_syntax lib command then bail find_msg
      else bindr (validate_redirection_paths lib command) (\<lambda>_.
           bindr (split_shell_segments command) (\<lambda>segments.
             if shell_string_might_be_dangerous lib command then bail danger_msg
             else for_each (check_pattern lib) segments)))"

text \<open>\<open>substitution_scan in_single in_double escaped\<close> is the loop over the characters.\<close>

fun substitution_scan :: "bool \<Rightarrow> bool \<Rightarrow> bool \<Rightarrow> string \<Rightarrow> bool" where
  "substitution_scan in_single in_double escaped [] \<longleftrightarrow> False"
| "substitution_scan in_single in_double escaped (c # cs) \<longleftrightarrow>
     (if escaped then substitution_scan in_single in_double False cs
      else if c = BS \<and> \<not> in_single then substitution_scan in_single in_double True cs
      else if c = SQ \<and> \<not> in_double then substitution_scan (\<not> in_single) in_double False cs
      else if c = DQ \<and> \<not> in_single then substitution_scan in_single (\<not> in_double) False cs
      else if \<not> in_single \<and> c = BQ then True
      else if \<not> in_single \<and> c = CHR ''$'' \<and> starts_with cs ''('' \<and> \<not> starts_with cs ''((''
      then True
      else substitution_scan in_single in_double False cs)"

definition contains_command_substitution :: "string \<Rightarrow> bool" where
  "contains_command_substitution script \<longleftrightarrow> substitution_scan False False False script"

definition check_script_command :: "shell_lib \<Rightarrow> string list \<Rightarrow> unit rresult" where
  "check_script_command lib command =
     (if command_might_be_dangerous lib command then bail danger_msg
      else check_pattern lib (join '' '' command))"

definition validate_shell_script :: "shell_lib \<Rightarrow> string \<Rightarrow> unit rresult" where
  "validate_shell_script lib script =
     (if contains_dynamic_find_syntax lib script then bail find_msg
      else if contains_command_substitution script then bail injection_msg
      else bindr (validate_redirection_paths lib script) (\<lambda>_.
           case parse_shell_commands lib script of
             Inl e \<Rightarrow> bail (''invalid explicit shell script: '' @ e)
           | Inr commands \<Rightarrow> for_each (check_script_command lib) commands))"

definition path_shell_script :: "string list \<Rightarrow> string option" where
  "path_shell_script command =
     (case command of
        executable # flag # script # _ \<Rightarrow>
          (case file_name executable of
             Some name \<Rightarrow> if name \<in> set shell_names \<and> flag \<in> set shell_script_flags then Some script else None
           | None \<Rightarrow> None)
      | _ \<Rightarrow> None)"

definition validate_command_argv :: "shell_lib \<Rightarrow> string list \<Rightarrow> unit rresult" where
  "validate_command_argv lib command =
     (if command = [] then bail ''empty command''
      else if command_might_be_dangerous lib command then bail danger_msg
      else case unwrap_command_prefix command of
             None \<Rightarrow> bail ''dynamic or malformed executable prefix''
           | Some unwrapped \<Rightarrow>
               (case path_shell_script unwrapped of
                  Some script \<Rightarrow> validate_shell_script lib script
                | None \<Rightarrow> ok_unit))"

subsection \<open>What an accepted string cannot contain\<close>

text \<open>
  The specification of the segment splitter: the characters the shell would not take literally,
  each with the quoting it stands in and the text after it.
\<close>

fun live_chars :: "quote_state \<Rightarrow> bool \<Rightarrow> string \<Rightarrow> (quote_state \<times> char \<times> string) list" where
  "live_chars state escaped [] = []"
| "live_chars QSingle escaped (c # cs) = live_chars (if c = SQ then QNone else QSingle) escaped cs"
| "live_chars QDouble escaped (c # cs) =
     (if escaped then live_chars QDouble False cs
      else if c = BS then live_chars QDouble True cs
      else if c = DQ then live_chars QNone False cs
      else (QDouble, c, cs) # live_chars QDouble False cs)"
| "live_chars QNone escaped (c # cs) =
     (if escaped then live_chars QNone False cs
      else if c = BS then live_chars QNone True cs
      else if c = SQ then live_chars QSingle False cs
      else if c = DQ then live_chars QDouble False cs
      else (QNone, c, cs) # live_chars QNone False cs)"

definition injects :: "quote_state \<times> char \<times> string \<Rightarrow> bool" where
  "injects x \<longleftrightarrow> (case x of (state, c, cs) \<Rightarrow>
     c = BQ \<or> c = CHR ''$'' \<and> starts_with cs ''('' \<or> state = QNone \<and> (c = CHR '';'' \<or> c = NL))"

lemma injects_simps [simp]:
  "injects (QDouble, c, cs) \<longleftrightarrow> c = BQ \<or> c = CHR ''$'' \<and> starts_with cs ''(''"
  "injects (QNone, c, cs) \<longleftrightarrow> c = BQ \<or> c = CHR ''$'' \<and> starts_with cs ''('' \<or> c = CHR '';'' \<or> c = NL"
  by (auto simp: injects_def)

lemma segment_scan_pipe:
  "c = CHR ''|'' \<or> c = CHR ''&'' \<Longrightarrow> segment_scan QNone False seg segments (c # cs) =
     segment_scan QNone False [] (push_segment seg segments) (case cs of [] \<Rightarrow> [] | n # cs' \<Rightarrow> if n = c then cs' else cs)"
  by (elim disjE) (simp_all split: list.split)

lemma live_chars_pipe:
  "c = CHR ''|'' \<or> c = CHR ''&'' \<Longrightarrow> (\<forall>x \<in> set (live_chars QNone False (c # cs)). \<not> injects x) \<longleftrightarrow>
     (\<forall>x \<in> set (live_chars QNone False (case cs of [] \<Rightarrow> [] | n # cs' \<Rightarrow> if n = c then cs' else cs)). \<not> injects x)"
  by (elim disjE) (simp_all split: list.split)

lemma segment_scan_ok:
  "is_ok (segment_scan state escaped seg segments s) \<longleftrightarrow> (\<forall>x \<in> set (live_chars state escaped s). \<not> injects x)"
proof (induction "length s" arbitrary: state escaped seg segments s rule: less_induct)
  case less
  show ?case
  proof (cases s)
    case (Cons c cs)
    have IH: "is_ok (segment_scan st e sg sgs cs) \<longleftrightarrow> (\<forall>x \<in> set (live_chars st e cs). \<not> injects x)" for st e sg sgs
      using less Cons by simp
    show ?thesis
    proof (cases "state = QNone \<and> \<not> escaped \<and> (c = CHR ''|'' \<or> c = CHR ''&'')")
      case True
      then have pipe: "c = CHR ''|'' \<or> c = CHR ''&''" by simp
      let ?rest = "case cs of [] \<Rightarrow> [] | n # cs' \<Rightarrow> if n = c then cs' else cs"
      have "length ?rest < length s" using Cons by (auto split: list.split)
      from less [OF this, of QNone False "[]" "push_segment seg segments"] True Cons
      show ?thesis by (simp only: segment_scan_pipe [OF pipe] live_chars_pipe [OF pipe])
    next
      case False
      show ?thesis
      proof (cases state)
        case QNone
        with False Cons IH show ?thesis
          by (cases escaped; cases "c = BS"; cases "c = SQ"; cases "c = DQ"; cases "c = BQ") simp_all
      next
        case QSingle
        with Cons IH show ?thesis by simp
      next
        case QDouble
        with Cons IH show ?thesis
          by (cases escaped; cases "c = BS"; cases "c = DQ"; cases "c = BQ") simp_all
      qed
    qed
  qed simp
qed

lemma live_chars_unquoted:
  assumes "SQ \<notin> set s" "DQ \<notin> set s" "BS \<notin> set s"
  shows "live_chars QNone False s = map (\<lambda>i. (QNone, s ! i, drop (Suc i) s)) [0..<length s]"
  using assms
proof (induction s)
  case (Cons c cs)
  then show ?case by (auto simp: upt_conv_Cons map_Suc_upt [symmetric] simp del: upt_Suc)
qed simp

lemma validate_command_safety_okD:
  assumes "validate_command_safety lib c = Inr ()" "3 \<le> length c"
  shows "is_ok (validate_redirection_paths lib c)"
    and "\<exists>segments. split_shell_segments c = Inr segments
           \<and> (\<forall>seg \<in> set segments. additional_dangerous_pattern lib seg = None)"
    and "\<not> shell_string_might_be_dangerous lib c"
  using assms
  by (auto simp: validate_command_safety_def result_simps is_ok_iff check_pattern_def
      split: if_splits option.splits)

subsection \<open>Shell scripts and argument vectors\<close>




subsection \<open>Properties\<close>

text \<open>C36: the segment splitter accepts a line exactly when no character that the shell would act on, outside
  single quotes and escapes, starts a substitution and none outside all quotes chains commands.\<close>

theorem split_accepts_iff:
  "is_ok (split_shell_segments s) \<longleftrightarrow>
     (\<forall>(state, c, cs) \<in> set (live_chars QNone False s).
        c \<noteq> BQ \<and> \<not> (c = CHR ''$'' \<and> starts_with cs ''('') \<and> (state = QNone \<longrightarrow> c \<noteq> CHR '';'' \<and> c \<noteq> NL))"
  unfolding split_shell_segments_def segment_scan_ok by (auto simp: injects_def)

theorem split_accepts_iff_witness:
  "is_ok (split_shell_segments ''git log; ls'') = False"
proof -
  have "(QNone, CHR '';'', '' ls'') \<in> set (live_chars QNone False ''git log; ls'')" by code_simp
  with split_accepts_iff [of "''git log; ls''"] show ?thesis by auto
qed

text \<open>a shell string that is accepted has passed every layer: no command the parser finds in it is
  dangerous, its words read as one command are not, no segment calls a listed tool, and without quotes
  or escapes it holds no semicolon, newline, backquote or command substitution.\<close>

theorem accepted_string_is_clean:
  assumes "validate_command_safety lib s = Inr ()" "3 \<le> length s"
  shows "(\<forall>commands. parse_shell_commands lib s = Inr commands
            \<longrightarrow> (\<forall>c \<in> set commands. c \<noteq> [] \<longrightarrow> \<not> command_might_be_dangerous lib c))
    \<and> (split_whitespace s \<noteq> [] \<longrightarrow> \<not> command_might_be_dangerous lib (split_whitespace s))
    \<and> (\<exists>segments. split_shell_segments s = Inr segments
         \<and> (\<forall>seg \<in> set segments. additional_dangerous_pattern lib seg = None))
    \<and> (SQ \<notin> set s \<and> DQ \<notin> set s \<and> BS \<notin> set s
         \<longrightarrow> CHR '';'' \<notin> set s \<and> NL \<notin> set s \<and> BQ \<notin> set s)"
proof -
  note parts = validate_command_safety_okD [OF assms]
  have "CHR '';'' \<notin> set s \<and> NL \<notin> set s \<and> BQ \<notin> set s" if "SQ \<notin> set s" "DQ \<notin> set s" "BS \<notin> set s"
  proof -
    have "is_ok (segment_scan QNone False [] [] s)"
      using parts(2) by (auto simp: split_shell_segments_def is_ok_iff)
    then show ?thesis
      by (auto simp: segment_scan_ok live_chars_unquoted [OF that] in_set_conv_nth)
  qed
  with parts show ?thesis
    by (auto simp: shell_string_might_be_dangerous_def Let_def list_ex_iff split: if_splits)
qed

theorem accepted_string_is_clean_witness:
  "validate_command_safety plain_lib ''git status'' = Inr ()
   \<and> \<not> command_might_be_dangerous plain_lib (split_whitespace ''git status'')"
proof -
  have ok: "validate_command_safety plain_lib ''git status'' = Inr ()" by code_simp
  moreover have "split_whitespace ''git status'' \<noteq> []" by code_simp
  moreover have "3 \<le> length ''git status''" by simp
  ultimately show ?thesis using accepted_string_is_clean [OF ok] by blast
qed



text \<open>the script is looked for in the second argument only and under three spellings of the flag: an
  option in front of \<open>-c\<close>, or stacked with it, hides the script from the argument-vector check,
  although the evaluator's own decomposition finds it.\<close>

theorem shell_option_hides_script:
  "validate_command_argv plain_lib [''bash'', ''-x'', ''-c'', ''rm -rf /''] = Inr ()
   \<and> validate_command_argv plain_lib [''bash'', ''-ec'', ''rm -rf /''] = Inr ()
   \<and> is_ok (validate_command_argv plain_lib [''bash'', ''-c'', ''rm -rf /'']) = False
   \<and> parse_bash_lc_commands plain_lib [''bash'', ''-x'', ''-c'', ''rm -rf /''] = Some [[''rm'', ''-rf'', ''/'']]"
  by code_simp

end
