(* ===== verification/Sandbox_Policy.thy ===== *)
theory Sandbox_Policy
  imports Paths_Facts
begin

text \<open>
  Sandbox policies, \<^verbatim>\<open>crates/codegen/vtcode-safety/src/sandboxing/policy.rs\<close>, on Unix: which
  paths a command may write and read, which network destinations it may reach, its resource limits and
  its system call profile. \<open>u16\<close>, \<open>u32\<close> and \<open>u64\<close> fields are words of that width.

  The environment is a record: the home directory and the eight directories of VT Code that
  \<open>VtCodePaths::resolve\<close> delivers (or its error). A path is its component list, so
  \<open>root.join(name).display()\<close> is \<open>display_path\<close> of the joined list.
\<close>

subsection \<open>Entries\<close>

record sandbox_env =
  se_fs :: filesystem
  se_vtcode_dirs :: "string + path list"

record network_entry =
  ne_domain :: string
  ne_port :: "16 word"
  ne_protocol :: string

definition https_entry :: "string \<Rightarrow> network_entry" where
  "https_entry domain = \<lparr>ne_domain = domain, ne_port = 443, ne_protocol = ''tcp''\<rparr>"

definition entry_with_port :: "string \<Rightarrow> 16 word \<Rightarrow> network_entry" where
  "entry_with_port domain port = \<lparr>ne_domain = domain, ne_port = port, ne_protocol = ''tcp''\<rparr>"

definition network_entry_matches :: "network_entry \<Rightarrow> string \<Rightarrow> 16 word \<Rightarrow> bool" where
  "network_entry_matches entry domain port =
     (if ne_port entry \<noteq> port then False
      else if starts_with (ne_domain entry) ''*.''
      then ends_with domain (drop 1 (ne_domain entry)) \<or> domain = drop 2 (ne_domain entry)
      else domain = ne_domain entry)"

definition default_sensitive :: "string list" where
  "default_sensitive =
     [''~/.ssh'', ''~/.aws'', ''~/.config/gcloud'', ''~/.azure'', ''~/.kube'', ''~/.docker'', ''~/.npmrc'',
      ''~/.pypirc'', ''~/.config/gh'', ''~/.secrets'', ''~/.gnupg'', ''~/.config/op'', ''~/.vault-token'',
      ''~/.terraform.d/credentials.tfrc.json'', ''~/.cargo/credentials.toml'', ''~/.git-credentials'',
      ''~/.netrc'']"

record sensitive_path =
  sp_path :: string
  sp_block_read :: bool
  sp_block_write :: bool

definition new_sensitive :: "string \<Rightarrow> sensitive_path" where
  "new_sensitive p = \<lparr>sp_path = p, sp_block_read = True, sp_block_write = True\<rparr>"

definition write_only_sensitive :: "string \<Rightarrow> sensitive_path" where
  "write_only_sensitive p = \<lparr>sp_path = p, sp_block_read = False, sp_block_write = True\<rparr>"

definition expand_path :: "sandbox_env \<Rightarrow> sensitive_path \<Rightarrow> path" where
  "expand_path env sp =
     (case fs_home (se_fs env) of
        Some home \<Rightarrow>
          if starts_with (sp_path sp) ''~/'' then path_join home (components (drop 2 (sp_path sp)))
          else if sp_path sp = ''~'' then home
          else components (sp_path sp)
      | None \<Rightarrow> components (sp_path sp))"

text \<open>\<open>as_os_str\<close> of a component.\<close>

fun component_text :: "component \<Rightarrow> string" where
  "component_text RootDir = ''/''"
| "component_text c = display_component c"

fun path_starts_with_ci :: "path \<Rightarrow> path \<Rightarrow> bool" where
  "path_starts_with_ci p [] \<longleftrightarrow> True"
| "path_starts_with_ci [] (c # pre) \<longleftrightarrow> False"
| "path_starts_with_ci (d # p) (c # pre) \<longleftrightarrow>
     to_ascii_lowercase (component_text d) = to_ascii_lowercase (component_text c) \<and> path_starts_with_ci p pre"

definition sensitive_matches :: "sandbox_env \<Rightarrow> sensitive_path \<Rightarrow> path \<Rightarrow> bool" where
  "sensitive_matches env sp p \<longleftrightarrow> path_starts_with_ci p (expand_path env sp)"

definition push_sensitive :: "sensitive_path list \<Rightarrow> string \<Rightarrow> sensitive_path list" where
  "push_sensitive ps p = (if list_ex (\<lambda>e. sp_path e = p) ps then ps else ps @ [new_sensitive p])"

definition vtcode_sensitive_paths :: "sandbox_env \<Rightarrow> string + sensitive_path list" where
  "vtcode_sensitive_paths env =
     (case se_vtcode_dirs env of
        Inl e \<Rightarrow> Inl e
      | Inr roots \<Rightarrow> Inr (foldl push_sensitive (map new_sensitive default_sensitive) (map display_path roots)))"

definition default_sensitive_paths :: "sandbox_env \<Rightarrow> sensitive_path list" where
  "default_sensitive_paths env =
     (case vtcode_sensitive_paths env of
        Inr ps \<Rightarrow> ps
      | Inl _ \<Rightarrow> map new_sensitive default_sensitive @ [new_sensitive ''/''])"

definition protected_dir_names :: "string list" where
  "protected_dir_names = [''.git'', ''.vtcode'', ''.codex'', ''.agents'']"

definition push_protected :: "sensitive_path list \<Rightarrow> string \<Rightarrow> sensitive_path list" where
  "push_protected ps p =
     (if list_ex (\<lambda>e. sp_path e = p \<and> \<not> sp_block_read e \<and> sp_block_write e) ps then ps
      else ps @ [write_only_sensitive p])"

definition protected_writable_root_sensitive_paths :: "path list \<Rightarrow> sensitive_path list" where
  "protected_writable_root_sensitive_paths roots =
     foldl push_protected []
       (concat (map (\<lambda>root. map (\<lambda>dir. display_path (path_join root [Normal dir])) protected_dir_names) roots))"

subsection \<open>Limits and profiles\<close>

record resource_limits =
  max_memory_mb :: "64 word"
  max_pids :: "32 word"
  max_disk_mb :: "64 word"
  cpu_time_secs :: "64 word"
  timeout_secs :: "64 word"

definition default_limits :: resource_limits where
  "default_limits = \<lparr>max_memory_mb = 0, max_pids = 0, max_disk_mb = 0, cpu_time_secs = 0, timeout_secs = 300\<rparr>"

definition unlimited_limits :: resource_limits where
  "unlimited_limits = \<lparr>max_memory_mb = 0, max_pids = 0, max_disk_mb = 0, cpu_time_secs = 0, timeout_secs = 0\<rparr>"

definition conservative_limits :: resource_limits where
  "conservative_limits =
     \<lparr>max_memory_mb = 512, max_pids = 64, max_disk_mb = 1024, cpu_time_secs = 60, timeout_secs = 120\<rparr>"

definition moderate_limits :: resource_limits where
  "moderate_limits =
     \<lparr>max_memory_mb = 2048, max_pids = 256, max_disk_mb = 4096, cpu_time_secs = 300, timeout_secs = 600\<rparr>"

definition generous_limits :: resource_limits where
  "generous_limits =
     \<lparr>max_memory_mb = 8192, max_pids = 1024, max_disk_mb = 16384, cpu_time_secs = 0, timeout_secs = 3600\<rparr>"

definition has_limits :: "resource_limits \<Rightarrow> bool" where
  "has_limits l \<longleftrightarrow>
     max_memory_mb l > 0 \<or> max_pids l > 0 \<or> max_disk_mb l > 0 \<or> cpu_time_secs l > 0 \<or> timeout_secs l > 0"

definition effective_timeout_secs :: "resource_limits \<Rightarrow> 64 word" where
  "effective_timeout_secs l = (if timeout_secs l > 0 then timeout_secs l else 300)"

definition blocked_syscall_names :: "string list" where
  "blocked_syscall_names =
     [''ptrace'', ''mount'', ''umount'', ''umount2'', ''init_module'', ''finit_module'', ''delete_module'',
      ''kexec_load'', ''kexec_file_load'', ''bpf'', ''perf_event_open'', ''userfaultfd'', ''process_vm_readv'',
      ''process_vm_writev'', ''reboot'', ''swapon'', ''swapoff'', ''settimeofday'', ''clock_settime'',
      ''adjtimex'', ''add_key'', ''request_key'', ''keyctl'', ''ioperm'', ''iopl'', ''iopl'', ''acct'',
      ''quotactl'', ''unshare'', ''setns'', ''personality'']"

record seccomp_profile =
  blocked_syscalls :: "string list"
  allow_namespaces :: bool
  allow_network_sockets :: bool
  log_only :: bool

definition strict_profile :: seccomp_profile where
  "strict_profile = \<lparr>blocked_syscalls = blocked_syscall_names, allow_namespaces = False,
                     allow_network_sockets = False, log_only = False\<rparr>"

definition permissive_profile :: seccomp_profile where
  "permissive_profile = \<lparr>blocked_syscalls = [''ptrace'', ''kexec_load'', ''kexec_file_load'', ''reboot''],
                         allow_namespaces = False, allow_network_sockets = True, log_only = False\<rparr>"

definition logging_profile :: seccomp_profile where
  "logging_profile = strict_profile\<lparr>log_only := True\<rparr>"

definition block_syscall :: "seccomp_profile \<Rightarrow> string \<Rightarrow> seccomp_profile" where
  "block_syscall p syscall =
     (if syscall \<in> set (blocked_syscalls p) then p
      else p\<lparr>blocked_syscalls := blocked_syscalls p @ [syscall]\<rparr>)"

definition profile_with_network :: "seccomp_profile \<Rightarrow> seccomp_profile" where
  "profile_with_network p = p\<lparr>allow_network_sockets := True\<rparr>"

definition profile_with_logging :: "seccomp_profile \<Rightarrow> seccomp_profile" where
  "profile_with_logging p = p\<lparr>log_only := True\<rparr>"

definition is_blocked :: "seccomp_profile \<Rightarrow> string \<Rightarrow> bool" where
  "is_blocked p syscall \<longleftrightarrow> list_ex (\<lambda>s. s = syscall) (blocked_syscalls p)"

subsection \<open>Policies\<close>

record workspace_write_config =
  ww_roots :: "path list"
  ww_network_access :: bool
  ww_allowlist :: "network_entry list"
  ww_sensitive :: "sensitive_path list option"
  ww_limits :: resource_limits
  ww_seccomp :: seccomp_profile
  ww_exclude_tmpdir :: bool
  ww_exclude_slash_tmp :: bool

datatype sandbox_policy =
    ReadOnly bool "network_entry list"
  | WorkspaceWrite workspace_write_config
  | DangerFullAccess
  | ExternalSandbox string

definition read_only :: sandbox_policy where
  "read_only = ReadOnly False []"

definition read_only_with_network :: "network_entry list \<Rightarrow> sandbox_policy" where
  "read_only_with_network allowlist = ReadOnly (allowlist \<noteq> []) allowlist"

definition read_only_with_full_network :: sandbox_policy where
  "read_only_with_full_network = ReadOnly True []"

definition workspace_write_full ::
  "path list \<Rightarrow> network_entry list \<Rightarrow> sensitive_path list option \<Rightarrow> resource_limits \<Rightarrow> seccomp_profile
     \<Rightarrow> sandbox_policy" where
  "workspace_write_full roots allowlist sensitive limits seccomp =
     WorkspaceWrite \<lparr>ww_roots = roots, ww_network_access = (allowlist \<noteq> []), ww_allowlist = allowlist,
       ww_sensitive = sensitive, ww_limits = limits, ww_seccomp = seccomp, ww_exclude_tmpdir = True,
       ww_exclude_slash_tmp = True\<rparr>"

definition workspace_write :: "path list \<Rightarrow> sandbox_policy" where
  "workspace_write roots = workspace_write_full roots [] None default_limits strict_profile"

definition workspace_write_with_network :: "path list \<Rightarrow> network_entry list \<Rightarrow> sandbox_policy" where
  "workspace_write_with_network roots allowlist =
     workspace_write_full roots allowlist None default_limits (profile_with_network strict_profile)"

definition workspace_write_with_sensitive_paths :: "path list \<Rightarrow> sensitive_path list \<Rightarrow> sandbox_policy" where
  "workspace_write_with_sensitive_paths roots sensitive =
     workspace_write_full roots [] (Some sensitive) default_limits strict_profile"

definition workspace_write_no_sensitive_blocking :: "path list \<Rightarrow> sandbox_policy" where
  "workspace_write_no_sensitive_blocking roots =
     workspace_write_full roots [] (Some []) default_limits strict_profile"

definition workspace_write_with_limits :: "path list \<Rightarrow> resource_limits \<Rightarrow> sandbox_policy" where
  "workspace_write_with_limits roots limits = workspace_write_full roots [] None limits strict_profile"

fun has_full_network_access :: "sandbox_policy \<Rightarrow> bool" where
  "has_full_network_access (ReadOnly access allowlist) \<longleftrightarrow> access \<and> allowlist = []"
| "has_full_network_access (WorkspaceWrite w) \<longleftrightarrow> ww_network_access w \<and> ww_allowlist w = []"
| "has_full_network_access _ \<longleftrightarrow> True"

fun network_allowlist :: "sandbox_policy \<Rightarrow> network_entry list" where
  "network_allowlist (ReadOnly access allowlist) = allowlist"
| "network_allowlist (WorkspaceWrite w) = ww_allowlist w"
| "network_allowlist _ = []"

fun has_network_allowlist :: "sandbox_policy \<Rightarrow> bool" where
  "has_network_allowlist (ReadOnly access allowlist) \<longleftrightarrow> allowlist \<noteq> []"
| "has_network_allowlist (WorkspaceWrite w) \<longleftrightarrow> ww_allowlist w \<noteq> []"
| "has_network_allowlist _ \<longleftrightarrow> False"

definition listed_network_allowed :: "bool \<Rightarrow> network_entry list \<Rightarrow> string \<Rightarrow> 16 word \<Rightarrow> bool" where
  "listed_network_allowed access allowlist domain port =
     (if allowlist = [] then access else list_ex (\<lambda>e. network_entry_matches e domain port) allowlist)"

fun is_network_allowed :: "sandbox_policy \<Rightarrow> string \<Rightarrow> 16 word \<Rightarrow> bool" where
  "is_network_allowed (ReadOnly access allowlist) domain port = listed_network_allowed access allowlist domain port"
| "is_network_allowed (WorkspaceWrite w) domain port =
     listed_network_allowed (ww_network_access w) (ww_allowlist w) domain port"
| "is_network_allowed _ domain port = True"

fun sensitive_paths :: "sandbox_env \<Rightarrow> sandbox_policy \<Rightarrow> sensitive_path list" where
  "sensitive_paths env (ReadOnly _ _) = default_sensitive_paths env"
| "sensitive_paths env (WorkspaceWrite w) =
     (case ww_sensitive w of Some ps \<Rightarrow> ps | None \<Rightarrow> default_sensitive_paths env)"
| "sensitive_paths env _ = []"

fun get_writable_roots_with_cwd :: "sandbox_policy \<Rightarrow> path \<Rightarrow> path list" where
  "get_writable_roots_with_cwd (ReadOnly _ _) cwd = []"
| "get_writable_roots_with_cwd (WorkspaceWrite w) cwd =
     (if cwd \<in> set (ww_roots w) then ww_roots w else ww_roots w @ [cwd])"
| "get_writable_roots_with_cwd _ cwd = [cwd]"

fun is_workspace_write :: "sandbox_policy \<Rightarrow> bool" where
  "is_workspace_write (WorkspaceWrite w) \<longleftrightarrow> True"
| "is_workspace_write _ \<longleftrightarrow> False"

definition sensitive_paths_for_execution :: "sandbox_env \<Rightarrow> sandbox_policy \<Rightarrow> path \<Rightarrow> sensitive_path list" where
  "sensitive_paths_for_execution env policy cwd =
     (if is_workspace_write policy
      then sensitive_paths env policy
             @ protected_writable_root_sensitive_paths (get_writable_roots_with_cwd policy cwd)
      else sensitive_paths env policy)"

definition is_sensitive_path :: "sandbox_env \<Rightarrow> sandbox_policy \<Rightarrow> path \<Rightarrow> bool" where
  "is_sensitive_path env policy p \<longleftrightarrow>
     list_ex (\<lambda>sp. sensitive_matches env sp p \<and> sp_block_read sp) (sensitive_paths env policy)"

fun has_full_disk_write_access :: "sandbox_policy \<Rightarrow> bool" where
  "has_full_disk_write_access DangerFullAccess \<longleftrightarrow> True"
| "has_full_disk_write_access (ExternalSandbox d) \<longleftrightarrow> True"
| "has_full_disk_write_access _ \<longleftrightarrow> False"

definition is_path_write_blocked :: "sandbox_env \<Rightarrow> sandbox_policy \<Rightarrow> path \<Rightarrow> path \<Rightarrow> bool" where
  "is_path_write_blocked env policy p cwd =
     (if has_full_disk_write_access policy then False
      else list_ex (\<lambda>sp. sensitive_matches env sp p \<and> sp_block_write sp)
             (sensitive_paths_for_execution env policy cwd))"

definition is_path_readable :: "sandbox_env \<Rightarrow> sandbox_policy \<Rightarrow> path \<Rightarrow> bool" where
  "is_path_readable env policy p =
     (if has_full_disk_write_access policy then True else \<not> is_sensitive_path env policy p)"

fun is_path_writable :: "sandbox_env \<Rightarrow> sandbox_policy \<Rightarrow> path \<Rightarrow> path \<Rightarrow> bool" where
  "is_path_writable env (ReadOnly access allowlist) p cwd \<longleftrightarrow> False"
| "is_path_writable env (WorkspaceWrite w) p cwd \<longleftrightarrow>
     list_ex (path_starts_with p) (get_writable_roots_with_cwd (WorkspaceWrite w) cwd)
     \<and> \<not> is_path_write_blocked env (WorkspaceWrite w) p cwd"
| "is_path_writable env _ p cwd \<longleftrightarrow> True"

fun policy_limits :: "sandbox_policy \<Rightarrow> resource_limits" where
  "policy_limits (ReadOnly _ _) = conservative_limits"
| "policy_limits (WorkspaceWrite w) = ww_limits w"
| "policy_limits _ = unlimited_limits"

fun policy_seccomp :: "sandbox_policy \<Rightarrow> seccomp_profile" where
  "policy_seccomp (ReadOnly access allowlist) =
     (if access \<or> allowlist \<noteq> [] then profile_with_network strict_profile else strict_profile)"
| "policy_seccomp (WorkspaceWrite w) = ww_seccomp w"
| "policy_seccomp _ = permissive_profile"

fun can_set :: "sandbox_policy \<Rightarrow> sandbox_policy \<Rightarrow> unit rresult" where
  "can_set DangerFullAccess _ = ok_unit"
| "can_set (ReadOnly _ _) (WorkspaceWrite w) = bail ''cannot escalate from read-only to write-capable policy''"
| "can_set (ReadOnly _ _) DangerFullAccess = bail ''cannot escalate from read-only to write-capable policy''"
| "can_set _ _ = ok_unit"

fun policy_description :: "sandbox_policy \<Rightarrow> string" where
  "policy_description (ReadOnly _ _) = ''read-only access''"
| "policy_description (WorkspaceWrite w) = ''workspace write access''"
| "policy_description DangerFullAccess = ''full access (dangerous)''"
| "policy_description (ExternalSandbox d) = ''external sandbox''"

end
