(* ===== verification/Sandbox_Exec.thy ===== *)
theory Sandbox_Exec
  imports Sandbox_Policy
begin

text \<open>
  How a command is wrapped for the sandbox,
  \<^verbatim>\<open>crates/codegen/vtcode-safety/src/sandboxing/permissions.rs\<close>, \<^verbatim>\<open>exec_env.rs\<close>,
  \<^verbatim>\<open>child_spawn.rs\<close> (the environment filters) and \<^verbatim>\<open>manager.rs\<close>. The target operating
  system, which the source selects with \<open>cfg\<close>, and the kernel's Landlock support are the record
  \<open>host\<close>; \<^verbatim>\<open>serde_json\<close> is the record \<open>json_lib\<close>. An environment is a map from names to values.
\<close>

subsection \<open>Permissions of a call\<close>

datatype sandbox_permissions = UseDefault | RequireEscalated | WithAdditionalPermissions | BypassSandbox

record additional_permissions =
  fs_read :: "path list"
  fs_write :: "path list"

definition additional_is_empty :: "additional_permissions \<Rightarrow> bool" where
  "additional_is_empty a \<longleftrightarrow> fs_read a = [] \<and> fs_write a = []"

definition normalized_for :: "sandbox_permissions \<Rightarrow> additional_permissions option \<Rightarrow> sandbox_permissions" where
  "normalized_for p additional =
     (if p = UseDefault \<and> (case additional of Some a \<Rightarrow> \<not> additional_is_empty a | None \<Rightarrow> False)
      then WithAdditionalPermissions else p)"

definition permission_requires_approval :: "sandbox_permissions \<Rightarrow> bool" where
  "permission_requires_approval p \<longleftrightarrow> p \<in> {RequireEscalated, WithAdditionalPermissions, BypassSandbox}"

definition requires_escalated_permissions :: "sandbox_permissions \<Rightarrow> bool" where
  "requires_escalated_permissions p \<longleftrightarrow> p \<in> {RequireEscalated, BypassSandbox}"

definition requires_additional_permissions :: "sandbox_permissions \<Rightarrow> bool" where
  "requires_additional_permissions p \<longleftrightarrow> p \<noteq> UseDefault"

definition uses_additional_permissions :: "sandbox_permissions \<Rightarrow> bool" where
  "uses_additional_permissions p \<longleftrightarrow> p = WithAdditionalPermissions"

definition bypasses_sandbox :: "sandbox_permissions \<Rightarrow> bool" where
  "bypasses_sandbox p \<longleftrightarrow> p = BypassSandbox"

definition merge_permissions :: "sandbox_permissions \<Rightarrow> sandbox_permissions \<Rightarrow> sandbox_permissions" where
  "merge_permissions a b =
     (if a = BypassSandbox \<or> b = BypassSandbox then BypassSandbox
      else if a = RequireEscalated \<or> b = RequireEscalated then RequireEscalated
      else if a = WithAdditionalPermissions \<or> b = WithAdditionalPermissions then WithAdditionalPermissions
      else UseDefault)"

subsection \<open>Commands and their environments\<close>

type_synonym env = "string \<rightharpoonup> string"

text \<open>A \<open>Duration\<close> is its number of nanoseconds; a cancellation token is a number.\<close>

datatype exec_expiration = Timeout nat | DefaultTimeout | Cancellation nat

definition expiration_from_ms :: "64 word option \<Rightarrow> exec_expiration" where
  "expiration_from_ms timeout_ms =
     (case timeout_ms of Some ms \<Rightarrow> Timeout (unat ms * 10 ^ 6) | None \<Rightarrow> DefaultTimeout)"

fun expiration_timeout_ms :: "exec_expiration \<Rightarrow> 64 word option" where
  "expiration_timeout_ms (Timeout d) =
     Some (if d div 10 ^ 6 < 2 ^ 64 then word_of_nat (d div 10 ^ 6) else - 1)"
| "expiration_timeout_ms DefaultTimeout = Some 30000"
| "expiration_timeout_ms (Cancellation token) = None"

fun timeout_duration :: "exec_expiration \<Rightarrow> nat option" where
  "timeout_duration (Timeout d) = Some d"
| "timeout_duration DefaultTimeout = Some (30 * 10 ^ 9)"
| "timeout_duration (Cancellation token) = None"

record command_spec =
  cs_program :: string
  cs_args :: "string list"
  cs_cwd :: path
  cs_env :: env
  cs_expiration :: exec_expiration
  cs_permissions :: sandbox_permissions
  cs_justification :: "string option"

definition new_command_spec :: "string \<Rightarrow> command_spec" where
  "new_command_spec program =
     \<lparr>cs_program = program, cs_args = [], cs_cwd = [], cs_env = Map.empty, cs_expiration = DefaultTimeout,
      cs_permissions = UseDefault, cs_justification = None\<rparr>"

definition full_command :: "command_spec \<Rightarrow> string list" where
  "full_command spec = cs_program spec # cs_args spec"

datatype sandbox_type = NoSandbox | MacosSeatbelt | LinuxLandlock | WindowsRestrictedToken

record exec_env =
  ee_program :: string
  ee_args :: "string list"
  ee_cwd :: path
  ee_env :: env
  ee_expiration :: exec_expiration
  ee_sandbox_active :: bool
  ee_sandbox_type :: sandbox_type

record launcher =
  la_program :: string
  la_prefix_args :: "string list"

definition external_launcher :: "string \<Rightarrow> launcher" where
  "external_launcher helper = \<lparr>la_program = helper, la_prefix_args = []\<rparr>"

definition busybox_launcher :: "string \<Rightarrow> launcher" where
  "busybox_launcher binary = \<lparr>la_program = binary, la_prefix_args = [''sandbox-exec'']\<rparr>"

datatype operating_system = MacOS | Linux | Windows | OtherOS

record host =
  h_os :: operating_system
  h_landlock :: bool

definition resolve_launcher :: "host \<Rightarrow> env \<Rightarrow> string option \<Rightarrow> launcher option" where
  "resolve_launcher h vars current_exe =
     (if h_os h = Linux
      then (case vars ''VTCODE_LINUX_SANDBOX_EXECUTABLE'' of
              Some helper \<Rightarrow> Some (external_launcher helper)
            | None \<Rightarrow> map_option busybox_launcher current_exe)
      else None)"

definition platform_default :: "host \<Rightarrow> sandbox_type" where
  "platform_default h =
     (case h_os h of MacOS \<Rightarrow> MacosSeatbelt | Linux \<Rightarrow> LinuxLandlock
      | Windows \<Rightarrow> WindowsRestrictedToken | OtherOS \<Rightarrow> NoSandbox)"

fun is_available :: "host \<Rightarrow> sandbox_type \<Rightarrow> bool" where
  "is_available h NoSandbox \<longleftrightarrow> True"
| "is_available h MacosSeatbelt \<longleftrightarrow> h_os h = MacOS"
| "is_available h LinuxLandlock \<longleftrightarrow> h_os h = Linux \<and> h_landlock h"
| "is_available h WindowsRestrictedToken \<longleftrightarrow> False"

subsection \<open>Environment filters\<close>

definition filtered_env_vars :: "string list" where
  "filtered_env_vars =
     [''OPENAI_API_KEY'', ''ANTHROPIC_API_KEY'', ''GEMINI_API_KEY'', ''XAI_API_KEY'', ''DEEPSEEK_API_KEY'',
      ''META_API_KEY'', ''MODEL_API_KEY'', ''OPENROUTER_API_KEY'', ''GROQ_API_KEY'', ''MISTRAL_API_KEY'',
      ''COHERE_API_KEY'', ''AZURE_OPENAI_API_KEY'', ''HUGGINGFACE_API_KEY'', ''HF_TOKEN'',
      ''AWS_ACCESS_KEY_ID'', ''AWS_SECRET_ACCESS_KEY'', ''AWS_SESSION_TOKEN'',
      ''GOOGLE_APPLICATION_CREDENTIALS'', ''GOOGLE_CLOUD_PROJECT'', ''AZURE_CLIENT_ID'',
      ''AZURE_CLIENT_SECRET'', ''AZURE_TENANT_ID'', ''AZURE_SUBSCRIPTION_ID'', ''GITHUB_TOKEN'',
      ''GH_TOKEN'', ''GITHUB_PAT'', ''NPM_TOKEN'', ''NPM_AUTH_TOKEN'', ''CARGO_REGISTRY_TOKEN'',
      ''PYPI_TOKEN'', ''DATABASE_URL'', ''DB_PASSWORD'', ''PGPASSWORD'', ''MYSQL_PWD'', ''REDIS_PASSWORD'',
      ''MONGO_PASSWORD'', ''SSH_AUTH_SOCK'', ''GPG_AGENT_INFO'', ''LD_PRELOAD'', ''LD_LIBRARY_PATH'',
      ''LD_AUDIT'', ''LD_DEBUG'', ''LD_PROFILE'', ''DYLD_INSERT_LIBRARIES'', ''DYLD_LIBRARY_PATH'',
      ''DYLD_FRAMEWORK_PATH'', ''DYLD_FALLBACK_LIBRARY_PATH'', ''VAULT_TOKEN'', ''CONSUL_HTTP_TOKEN'',
      ''DOCKER_AUTH_CONFIG'', ''KUBECONFIG'', ''KUBE_TOKEN'', ''SLACK_TOKEN'', ''SLACK_BOT_TOKEN'',
      ''DISCORD_TOKEN'', ''TELEGRAM_BOT_TOKEN'']"

definition preserved_env_vars :: "string list" where
  "preserved_env_vars =
     [''PATH'', ''SystemRoot'', ''SYSTEMROOT'', ''WINDIR'', ''COMSPEC'', ''PATHEXT'', ''USERPROFILE'',
      ''HOME'', ''USER'', ''SHELL'', ''TERM'', ''LANG'', ''LC_ALL'', ''LC_CTYPE'', ''TZ'',
      ''XDG_CONFIG_HOME'', ''XDG_CONFIG_DIRS'', ''XDG_DATA_HOME'', ''XDG_DATA_DIRS'', ''XDG_BIN_HOME'',
      ''XDG_STATE_HOME'', ''XDG_CACHE_HOME'', ''XDG_RUNTIME_DIR'', ''VTCODE_CONFIG'',
      ''VTCODE_CONFIG_PATH'', ''VTCODE_DATA'', ''VTCODE_HOME'', ''CODEX_HOME'', ''EDITOR'', ''VISUAL'',
      ''PAGER'', ''GIT_PAGER'', ''LESS'', ''COLUMNS'', ''LINES'', ''WORKSPACE_DIR'', ''CLICOLOR'',
      ''CLICOLOR_FORCE'', ''LS_COLORS'', ''CARGO_TERM_COLOR'', ''CARGO_HOME'', ''RUSTUP_HOME'', ''GOPATH'',
      ''GOROOT'', ''JAVA_HOME'', ''PYTHON'', ''COLORTERM'', ''FORCE_COLOR'', ''NO_COLOR'', ''CLICOLOR'',
      ''CLICOLOR_FORCE'', ''TMPDIR'', ''TEMP'', ''TMP'']"

text \<open>The lookup of a name on Unix, where names are compared exactly.\<close>

definition preserve_var :: "env \<Rightarrow> env \<Rightarrow> string \<Rightarrow> env" where
  "preserve_var current sanitized key =
     (case current key of Some v \<Rightarrow> sanitized(key \<mapsto> v) | None \<Rightarrow> sanitized)"

definition sandbox_markers :: "bool \<Rightarrow> string \<Rightarrow> path list \<Rightarrow> env \<Rightarrow> env" where
  "sandbox_markers network_disabled sandbox_type roots e =
     (let e1 = e(''VTCODE_SANDBOX_ACTIVE'' \<mapsto> ''1'', ''VTCODE_SANDBOX_TYPE'' \<mapsto> sandbox_type);
          e2 = (if network_disabled then e1(''VTCODE_SANDBOX_NETWORK_DISABLED'' \<mapsto> ''1'') else e1)
      in if roots \<noteq> [] then e2(''VTCODE_SANDBOX_WRITABLE_ROOTS'' \<mapsto> join '':'' (map display_path roots)) else e2)"

definition build_sanitized_env :: "env \<Rightarrow> bool \<Rightarrow> bool \<Rightarrow> string \<Rightarrow> path list \<Rightarrow> env" where
  "build_sanitized_env current sandbox_active network_disabled sandbox_type roots =
     (let sanitized = foldl (preserve_var current) Map.empty preserved_env_vars
      in if sandbox_active then sandbox_markers network_disabled sandbox_type roots sanitized else sanitized)"

definition to_upper_char :: "char \<Rightarrow> char" where
  "to_upper_char c = (if is_ascii_lower c then char_of (of_char c - 32 :: nat) else c)"

definition filtered_prefixes :: "string list" where
  "filtered_prefixes = [''AWS_'', ''AZURE_'', ''GOOGLE_'', ''GCP_'', ''CLOUDSDK_'', ''LD_'', ''DYLD_'']"

definition filtered_names :: "string list" where
  "filtered_names = [''TOKEN'', ''SECRET'', ''PASSWORD'', ''PASS'', ''PWD'', ''CREDENTIALS'']"

definition filtered_suffixes :: "string list" where
  "filtered_suffixes =
     [''_TOKEN'', ''_KEY'', ''_SECRET'', ''_PASS'', ''_PWD'', ''_PASSWORD'', ''_CREDENTIALS'']"

definition should_filter_env_var :: "string \<Rightarrow> bool" where
  "should_filter_env_var name =
     (let key = map to_upper_char name
      in key \<in> set filtered_env_vars \<or> list_ex (starts_with key) filtered_prefixes
         \<or> key \<in> set filtered_names \<or> list_ex (ends_with key) filtered_suffixes)"

definition filter_sensitive_env :: "env \<Rightarrow> env" where
  "filter_sensitive_env e = (\<lambda>k. if should_filter_env_var k then None else e k)"

subsection \<open>The seatbelt profile\<close>

text \<open>A profile is the list of its lines; the source writes each followed by a newline.\<close>

datatype transform_error =
    MissingSandboxExecutable
  | UnavailableSandboxType sandbox_type
  | CreationFailed string
  | InvalidPolicy string

abbreviation DQc :: string where "DQc \<equiv> [CHR 0x22]"

definition seatbelt_base :: "string list" where
  "seatbelt_base =
     [''(version 1)'',
      ''(deny default)'',
      ''(allow process-exec)'',
      ''(allow process-fork)'',
      ''(allow sysctl-read)'',
      ''(allow mach-lookup)'',
      ''(allow ipc-posix-shm-read* (ipc-posix-name-prefix '' @ DQc @ ''apple.cfprefs.'' @ DQc @ ''))'',
      ''(allow mach-lookup (global-name '' @ DQc @ ''com.apple.cfprefsd.daemon'' @ DQc @ '') (global-name '' @ DQc @ ''com.apple.cfprefsd.agent'' @ DQc @ '') (local-name '' @ DQc @ ''com.apple.cfprefsd.agent'' @ DQc @ ''))'',
      ''(allow user-preference-read)'']"

definition seatbelt_denials :: "sandbox_env \<Rightarrow> sensitive_path \<Rightarrow> string list" where
  "seatbelt_denials env sp =
     (let path_str = display_path (expand_path env sp)
      in (if sp_block_read sp then [''(deny file-read* (subpath '' @ DQc @ path_str @ DQc @ ''))''] else [])
         @ (if sp_block_write sp then [''(deny file-write* (subpath '' @ DQc @ path_str @ DQc @ ''))''] else []))"

definition append_network_rules :: "bool \<Rightarrow> network_entry list \<Rightarrow> transform_error + string list" where
  "append_network_rules network_access allowlist =
     (if allowlist \<noteq> []
      then Inl (InvalidPolicy ''macOS Seatbelt cannot enforce hostname network allowlists exactly; refusing to widen access'')
      else Inr ((if \<not> network_access then [''(allow network* (local unix))''] else [])
                @ (if network_access then [''(allow network*)''] else [])))"

fun seatbelt_writes :: "sandbox_policy \<Rightarrow> path \<Rightarrow> transform_error + string list" where
  "seatbelt_writes (ReadOnly network_access allowlist) cwd =
     bindr (append_network_rules network_access allowlist)
       (\<lambda>rules. Inr ((''(allow file-write* (literal '' @ DQc @ ''/dev/null'' @ DQc @ ''))'') # rules))"
| "seatbelt_writes (WorkspaceWrite w) cwd =
     bindr (append_network_rules (ww_network_access w) (ww_allowlist w))
       (\<lambda>rules. Inr (map (\<lambda>root. ''(allow file-write* (subpath '' @ DQc @ display_path root @ DQc @ ''))'')
                        (get_writable_roots_with_cwd (WorkspaceWrite w) cwd) @ rules))"
| "seatbelt_writes _ cwd = Inr []"

definition build_seatbelt_profile :: "sandbox_env \<Rightarrow> sandbox_policy \<Rightarrow> path \<Rightarrow> transform_error + string list" where
  "build_seatbelt_profile env policy cwd =
     bindr (seatbelt_writes policy cwd)
       (\<lambda>writes. Inr (seatbelt_base
                      @ concat (map (seatbelt_denials env) (sensitive_paths_for_execution env policy cwd))
                      @ [''(allow file-read*)''] @ writes))"

definition profile_text :: "string list \<Rightarrow> string" where
  "profile_text lines = concat (map (\<lambda>l. l @ [CHR 0x0A]) lines)"

subsection \<open>The transformation\<close>

record json_lib =
  js_policy :: "sandbox_policy \<Rightarrow> string + string"
  js_seccomp :: "seccomp_profile \<Rightarrow> string + string"
  js_limits :: "resource_limits \<Rightarrow> string + string"

fun determine_sandbox_type :: "host \<Rightarrow> sandbox_policy \<Rightarrow> sandbox_type" where
  "determine_sandbox_type h DangerFullAccess = NoSandbox"
| "determine_sandbox_type h (ExternalSandbox d) = NoSandbox"
| "determine_sandbox_type h (ReadOnly _ _) = platform_default h"
| "determine_sandbox_type h (WorkspaceWrite w) = platform_default h"

definition transform_seatbelt ::
  "host \<Rightarrow> sandbox_env \<Rightarrow> command_spec \<Rightarrow> sandbox_policy \<Rightarrow> path \<Rightarrow> transform_error + exec_env" where
  "transform_seatbelt h env spec policy cwd =
     (if h_os h \<noteq> MacOS then Inl (UnavailableSandboxType MacosSeatbelt)
      else bindr (build_seatbelt_profile env policy cwd)
             (\<lambda>profile. Inr \<lparr>ee_program = ''/usr/bin/sandbox-exec'',
                ee_args = [''-p'', profile_text profile, cs_program spec] @ cs_args spec,
                ee_cwd = cs_cwd spec, ee_env = cs_env spec, ee_expiration = cs_expiration spec,
                ee_sandbox_active = True, ee_sandbox_type = MacosSeatbelt\<rparr>))"

text \<open>A serialisation error becomes \<open>CreationFailed\<close>.\<close>

definition creation :: "string \<Rightarrow> string + 'a \<Rightarrow> transform_error + 'a" where
  "creation what r = (case r of Inl e \<Rightarrow> Inl (CreationFailed (what @ e)) | Inr x \<Rightarrow> Inr x)"

definition explicit_limits :: "sandbox_policy \<Rightarrow> resource_limits" where
  "explicit_limits policy = (case policy of WorkspaceWrite w \<Rightarrow> ww_limits w | _ \<Rightarrow> unlimited_limits)"

definition transform_landlock ::
  "json_lib \<Rightarrow> command_spec \<Rightarrow> sandbox_policy \<Rightarrow> path \<Rightarrow> launcher option \<Rightarrow> transform_error + exec_env" where
  "transform_landlock js spec policy cwd linux_launcher =
     (case linux_launcher of
        None \<Rightarrow> Inl MissingSandboxExecutable
      | Some la \<Rightarrow>
          if has_network_allowlist policy
          then Inl (InvalidPolicy ''Linux sandbox cannot enforce hostname network allowlists exactly; refusing to run with unrestricted network'')
          else bindr (creation ''failed to serialize sandbox policy: '' (js_policy js policy)) (\<lambda>policy_json.
               bindr (creation ''failed to serialize seccomp profile: '' (js_seccomp js (policy_seccomp policy))) (\<lambda>seccomp_json.
               bindr (creation ''failed to serialize resource limits: '' (js_limits js (explicit_limits policy))) (\<lambda>limits_json.
                 Inr \<lparr>ee_program = la_program la,
                   ee_args = la_prefix_args la
                     @ [''--sandbox-policy-cwd'', display_path cwd, ''--sandbox-policy'', policy_json,
                        ''--seccomp-profile'', seccomp_json, ''--resource-limits'', limits_json, ''--'',
                        cs_program spec]
                     @ cs_args spec,
                   ee_cwd = cs_cwd spec, ee_env = cs_env spec, ee_expiration = cs_expiration spec,
                   ee_sandbox_active = True, ee_sandbox_type = LinuxLandlock\<rparr>))))"

definition direct_env :: "command_spec \<Rightarrow> exec_env" where
  "direct_env spec =
     \<lparr>ee_program = cs_program spec, ee_args = cs_args spec, ee_cwd = cs_cwd spec, ee_env = cs_env spec,
      ee_expiration = cs_expiration spec, ee_sandbox_active = False, ee_sandbox_type = NoSandbox\<rparr>"

definition transform ::
  "host \<Rightarrow> sandbox_env \<Rightarrow> json_lib \<Rightarrow> command_spec \<Rightarrow> sandbox_policy \<Rightarrow> path \<Rightarrow> launcher option
     \<Rightarrow> transform_error + exec_env" where
  "transform h env js spec policy cwd linux_launcher =
     (let st = determine_sandbox_type h policy;
          spec' = (if st = NoSandbox then spec
                   else spec\<lparr>cs_env := build_sanitized_env (cs_env spec) False False [] []\<rparr>)
      in if st = NoSandbox then Inr (direct_env spec')
         else if \<not> is_available h st then Inl (UnavailableSandboxType st)
         else (case st of
                 MacosSeatbelt \<Rightarrow> transform_seatbelt h env spec' policy cwd
               | LinuxLandlock \<Rightarrow> transform_landlock js spec' policy cwd linux_launcher
               | WindowsRestrictedToken \<Rightarrow> Inl (UnavailableSandboxType WindowsRestrictedToken)
               | NoSandbox \<Rightarrow> Inl (InvalidPolicy ''Cannot transform with SandboxType::None'')))"

end
