(* ===== verification/Sandbox_Facts.thy ===== *)
theory Sandbox_Facts
  imports Sandbox_Exec
begin

text \<open>
  Properties of the sandbox policies and of the command transformation: confinement of writes, protected
  directories, sensitive paths, network lists, policy changes, environment filters, and that a
  restrictive policy is never run without its sandbox on the supported systems.
\<close>

subsection \<open>Texts of clean absolute paths\<close>

definition clean_name :: "string \<Rightarrow> bool" where
  "clean_name s \<longleftrightarrow> s \<noteq> [] \<and> s \<noteq> ''.'' \<and> s \<noteq> ''..'' \<and> CHR ''/'' \<notin> set s"

definition clean_absolute :: "path \<Rightarrow> bool" where
  "clean_absolute p \<longleftrightarrow> (\<exists>names. p = RootDir # map Normal names \<and> list_all clean_name names)"

lemma concat_segments: "list_all clean_name names \<Longrightarrow> concat (map segment_component names) = map Normal names"
  by (induction names) (auto simp: segment_component_def clean_name_def)

lemma display_components: "display_component \<circ> Normal = id"
  by (rule ext) simp

lemma components_display:
  assumes "clean_absolute p"
  shows "components (display_path p) = p" "starts_with (display_path p) ''/''"
proof -
  obtain names where p: "p = RootDir # map Normal names" "list_all clean_name names"
    using assms by (auto simp: clean_absolute_def)
  have "components (display_path p) = p \<and> starts_with (display_path p) ''/''"
  proof (cases names)
    case Nil
    have "components ''/'' = [RootDir]" by code_simp
    with Nil p show ?thesis by (simp add: display_path_def)
  next
    case (Cons n ns)
    then have d: "display_path p = CHR ''/'' # join ''/'' names"
      using p by (simp add: display_path_def display_components)
    have "\<forall>w \<in> set names. CHR ''/'' \<notin> set w" using p(2) by (auto simp: list_all_iff clean_name_def)
    with Cons have "split_char CHR ''/'' (join ''/'' names) = names" by (intro split_char_join) auto
    then have "split_char CHR ''/'' (display_path p) = [] # names"
      using split_char_append [of "CHR ''/''" "[]" "join ''/'' names"] d by simp
    with d p concat_segments show ?thesis
      by (simp add: components_def Let_def segment_component_def)
  qed
  then show "components (display_path p) = p" "starts_with (display_path p) ''/''" by simp_all
qed

lemma clean_absolute_append: "clean_absolute p \<Longrightarrow> clean_name d \<Longrightarrow> clean_absolute (p @ [Normal d])"
proof -
  assume "clean_absolute p" "clean_name d"
  then obtain names where "p = RootDir # map Normal names" "list_all clean_name names" "clean_name d"
    by (auto simp: clean_absolute_def)
  then have "p @ [Normal d] = RootDir # map Normal (names @ [d])" "list_all clean_name (names @ [d])" by simp_all
  then show ?thesis unfolding clean_absolute_def by blast
qed

lemma expand_absolute:
  assumes "starts_with (sp_path sp) ''/''"
  shows "expand_path env sp = components (sp_path sp)"
proof -
  obtain rest where "sp_path sp = CHR ''/'' # rest" using assms by (cases "sp_path sp") auto
  then show ?thesis by (auto simp: expand_path_def split: option.split)
qed

lemma starts_with_ci: "path_starts_with p q \<Longrightarrow> path_starts_with_ci p q"
proof -
  have "path_starts_with_ci (q @ r) q" for r by (induction q) auto
  then show "path_starts_with p q \<Longrightarrow> path_starts_with_ci p q" by (auto simp: path_starts_with_iff)
qed

subsection \<open>Sensitive entries\<close>

lemma push_protected_keeps: "e \<in> set ps \<Longrightarrow> e \<in> set (push_protected ps t)"
  by (simp add: push_protected_def)

lemma push_protected_adds: "\<exists>e \<in> set (push_protected ps t). sp_path e = t \<and> sp_block_write e"
  by (auto simp: push_protected_def list_ex_iff write_only_sensitive_def)

lemma foldl_push_protected_keeps: "e \<in> set ps \<Longrightarrow> e \<in> set (foldl push_protected ps ts)"
  by (induction ts arbitrary: ps) (simp_all add: push_protected_keeps)

lemma foldl_push_protected:
  "t \<in> set ts \<Longrightarrow> \<exists>e \<in> set (foldl push_protected ps ts). sp_path e = t \<and> sp_block_write e"
proof (induction ts arbitrary: ps)
  case (Cons u ts)
  show ?case
  proof (cases "t = u")
    case True
    obtain e where "e \<in> set (push_protected ps u)" "sp_path e = u" "sp_block_write e"
      using push_protected_adds by blast
    with True show ?thesis by (auto dest: foldl_push_protected_keeps)
  next
    case False
    with Cons show ?thesis by simp
  qed
qed simp

text \<open>The path that protects a directory of a writable root: the joined path, written out and read again.\<close>

definition protected_target :: "sandbox_env \<Rightarrow> path \<Rightarrow> string \<Rightarrow> path" where
  "protected_target env root d = expand_path env (write_only_sensitive (display_path (path_join root [Normal d])))"

definition declared_sensitive :: "sandbox_env \<Rightarrow> workspace_write_config \<Rightarrow> sensitive_path list" where
  "declared_sensitive env w = (case ww_sensitive w of Some es \<Rightarrow> es | None \<Rightarrow> default_sensitive_paths env)"

lemma foldl_push_protected_only:
  "e \<in> set (foldl push_protected ps ts) \<Longrightarrow> e \<in> set ps \<or> (\<exists>t \<in> set ts. e = write_only_sensitive t)"
proof (induction ts arbitrary: ps)
  case (Cons t ts)
  then have "e \<in> set (push_protected ps t) \<or> (\<exists>t \<in> set ts. e = write_only_sensitive t)" by simp
  then show ?case by (auto simp: push_protected_def split: if_splits)
qed simp

lemma expand_path_text: "sp_path e = t \<Longrightarrow> expand_path env e = expand_path env (write_only_sensitive t)"
  by (cases "fs_home (se_fs env)") (simp_all add: expand_path_def write_only_sensitive_def)

lemma protected_blocks:
  "(\<exists>e \<in> set (protected_writable_root_sensitive_paths roots). sensitive_matches env e p \<and> sp_block_write e) \<longleftrightarrow>
     (\<exists>root \<in> set roots. \<exists>d \<in> set protected_dir_names. path_starts_with_ci p (protected_target env root d))"
  (is "?blocked \<longleftrightarrow> ?inside")
proof
  let ?ts = "concat (map (\<lambda>r. map (\<lambda>dir. display_path (path_join r [Normal dir])) protected_dir_names) roots)"
  {
    assume ?blocked
    then obtain e where e: "e \<in> set (foldl push_protected [] ?ts)" "sensitive_matches env e p"
      unfolding protected_writable_root_sensitive_paths_def by blast
    have "\<exists>t \<in> set ?ts. e = write_only_sensitive t" using foldl_push_protected_only [OF e(1)] by (simp only: list.set empty_iff) blast
    then obtain t where t: "t \<in> set ?ts" "e = write_only_sensitive t" by blast
    from t(1) obtain root d where "root \<in> set roots" "d \<in> set protected_dir_names" "t = display_path (path_join root [Normal d])"
      by (simp only: set_concat set_map image_image) blast
    with e(2) t(2) show ?inside unfolding sensitive_matches_def protected_target_def by blast
  next
    assume ?inside
    then obtain root d where rd: "root \<in> set roots" "d \<in> set protected_dir_names"
      "path_starts_with_ci p (protected_target env root d)" by blast
    then have "display_path (path_join root [Normal d]) \<in> set ?ts" by (simp only: set_concat set_map image_image) blast
    from foldl_push_protected [OF this, of "[]"] obtain e where
      "e \<in> set (protected_writable_root_sensitive_paths roots)" "sp_block_write e" "sp_path e = display_path (path_join root [Normal d])"
      unfolding protected_writable_root_sensitive_paths_def by blast
    with rd(3) show ?blocked unfolding sensitive_matches_def protected_target_def using expand_path_text by metis
  }
qed

lemma protected_target_clean:
  assumes "clean_absolute root" "clean_name d"
  shows "protected_target env root d = root @ [Normal d]"
proof -
  have "path_join root [Normal d] = root @ [Normal d]"
    using assms(1) by (auto simp: path_join_def is_absolute_def clean_absolute_def)
  then show ?thesis
    using components_display [OF clean_absolute_append [OF assms]]
    by (simp add: protected_target_def expand_absolute write_only_sensitive_def)
qed

definition blocks_both :: "sensitive_path \<Rightarrow> bool" where
  "blocks_both e \<longleftrightarrow> sp_block_read e \<and> sp_block_write e"

lemma blocks_both_new [simp]: "blocks_both (new_sensitive p)"
  by (simp add: blocks_both_def new_sensitive_def)

lemma push_sensitive_both: "list_all blocks_both ps \<Longrightarrow> list_all blocks_both (foldl push_sensitive ps ts)"
  by (induction ts arbitrary: ps) (simp_all add: push_sensitive_def)

lemma map_new_sensitive_both: "list_all blocks_both (map new_sensitive ps)"
  by (induction ps) simp_all

lemma default_sensitive_both: "list_all blocks_both (default_sensitive_paths env)"
  by (simp add: default_sensitive_paths_def vtcode_sensitive_paths_def push_sensitive_both
      map_new_sensitive_both split: sum.split)

subsection \<open>Sequences of policy changes\<close>

inductive policy_run :: "sandbox_policy \<Rightarrow> sandbox_policy list \<Rightarrow> bool" where
  stay: "policy_run p []"
| change: "can_set p q = ok_unit \<Longrightarrow> policy_run q qs \<Longrightarrow> policy_run p (q # qs)"

inductive_cases policy_run_ConsE: "policy_run p (q # qs)"
inductive_simps policy_run_Cons: "policy_run p (q # qs)"

fun is_read_only :: "sandbox_policy \<Rightarrow> bool" where
  "is_read_only (ReadOnly _ _) \<longleftrightarrow> True"
| "is_read_only _ \<longleftrightarrow> False"

fun is_external :: "sandbox_policy \<Rightarrow> bool" where
  "is_external (ExternalSandbox d) \<longleftrightarrow> True"
| "is_external _ \<longleftrightarrow> False"

lemma can_set_read_only: "is_read_only p \<Longrightarrow> can_set p q = ok_unit \<Longrightarrow> is_read_only q \<or> is_external q"
  by (cases p; cases q) (simp_all add: bail_def)

lemma policy_run_read_only:
  "policy_run p qs \<Longrightarrow> is_read_only p \<Longrightarrow> \<not> list_ex is_external qs \<Longrightarrow> list_all is_read_only qs"
  by (induction rule: policy_run.induct) (auto dest: can_set_read_only)

subsection \<open>The order of permissions\<close>

instantiation sandbox_permissions :: linorder
begin

fun permission_rank :: "sandbox_permissions \<Rightarrow> nat" where
  "permission_rank UseDefault = 0"
| "permission_rank WithAdditionalPermissions = 1"
| "permission_rank RequireEscalated = 2"
| "permission_rank BypassSandbox = 3"

definition less_eq_sandbox_permissions :: "sandbox_permissions \<Rightarrow> sandbox_permissions \<Rightarrow> bool" where
  "less_eq_sandbox_permissions a b \<longleftrightarrow> permission_rank a \<le> permission_rank b"

definition less_sandbox_permissions :: "sandbox_permissions \<Rightarrow> sandbox_permissions \<Rightarrow> bool" where
  "less_sandbox_permissions a b \<longleftrightarrow> permission_rank a < permission_rank b"

instance
proof
  fix a b :: sandbox_permissions
  show "a \<le> b \<Longrightarrow> b \<le> a \<Longrightarrow> a = b"
    by (cases a; cases b) (simp_all add: less_eq_sandbox_permissions_def)
qed (auto simp: less_eq_sandbox_permissions_def less_sandbox_permissions_def)

end

subsection \<open>Environments\<close>

lemma foldl_preserve_var:
  "foldl (preserve_var e) m ks k = (if k \<in> set ks \<and> e k \<noteq> None then e k else m k)"
  by (induction ks arbitrary: m) (auto simp: preserve_var_def split: option.splits)

lemma sanitized_lookup:
  "build_sanitized_env e False nd st roots k = (if k \<in> set preserved_env_vars then e k else None)"
  by (auto simp: build_sanitized_env_def foldl_preserve_var Let_def)

lemma preserved_not_filtered: "list_all (\<lambda>k. \<not> should_filter_env_var k) preserved_env_vars"
  by code_simp

subsection \<open>Concrete instances\<close>

definition home_env :: sandbox_env where
  "home_env = \<lparr>se_fs = link_fs\<lparr>fs_home := Some (components ''/home/u'')\<rparr>, se_vtcode_dirs = Inr []\<rparr>"



subsection \<open>Properties\<close>

text \<open>C9: a workspace policy lets a command write a path exactly when the path lies, component by component, below
  a writable root or the working directory, in none of the protected directories of any of these roots, and below none
  of the sensitive paths of the policy, its own list or else the default one, that block writing; it lets a command read
  a path exactly when no sensitive path that blocks reading covers it. Letters are compared without case. With the
  default sensitive paths what may be written may also be read, and the protected directory of a root written
  absolutely and without \<open>.\<close> and \<open>..\<close> is the directory of that name in the root.\<close>

theorem workspace_write_confined:
  "(is_path_writable env (WorkspaceWrite w) p cwd \<longleftrightarrow>
      (\<exists>root \<in> insert cwd (set (ww_roots w)). path_starts_with p root)
      \<and> (\<forall>root \<in> insert cwd (set (ww_roots w)). \<forall>d \<in> {''.git'', ''.vtcode'', ''.codex'', ''.agents''}.
           \<not> path_starts_with_ci p (protected_target env root d))
      \<and> (\<forall>e \<in> set (declared_sensitive env w). sp_block_write e \<longrightarrow> \<not> path_starts_with_ci p (expand_path env e)))
   \<and> (is_path_readable env (WorkspaceWrite w) p \<longleftrightarrow>
      (\<forall>e \<in> set (declared_sensitive env w). sp_block_read e \<longrightarrow> \<not> path_starts_with_ci p (expand_path env e)))
   \<and> (ww_sensitive w = None \<and> is_path_writable env (WorkspaceWrite w) p cwd \<longrightarrow> is_path_readable env (WorkspaceWrite w) p)
   \<and> (\<forall>root d. clean_absolute root \<and> clean_name d \<longrightarrow> protected_target env root d = root @ [Normal d])"
proof (intro conjI)
  let ?roots = "get_writable_roots_with_cwd (WorkspaceWrite w) cwd"
  have roots: "set ?roots = insert cwd (set (ww_roots w))" by auto
  have declared: "sensitive_paths env (WorkspaceWrite w) = declared_sensitive env w" by (simp add: declared_sensitive_def)
  have blocked: "is_path_write_blocked env (WorkspaceWrite w) p cwd \<longleftrightarrow>
      (\<exists>e \<in> set (declared_sensitive env w). path_starts_with_ci p (expand_path env e) \<and> sp_block_write e)
      \<or> (\<exists>root \<in> insert cwd (set (ww_roots w)). \<exists>d \<in> set protected_dir_names. path_starts_with_ci p (protected_target env root d))"
    unfolding is_path_write_blocked_def sensitive_paths_for_execution_def declared
    using protected_blocks [of ?roots env p] roots by (auto simp: list_ex_iff sensitive_matches_def simp del: get_writable_roots_with_cwd.simps)
  show writable: "is_path_writable env (WorkspaceWrite w) p cwd \<longleftrightarrow>
      (\<exists>root \<in> insert cwd (set (ww_roots w)). path_starts_with p root)
      \<and> (\<forall>root \<in> insert cwd (set (ww_roots w)). \<forall>d \<in> {''.git'', ''.vtcode'', ''.codex'', ''.agents''}.
           \<not> path_starts_with_ci p (protected_target env root d))
      \<and> (\<forall>e \<in> set (declared_sensitive env w). sp_block_write e \<longrightarrow> \<not> path_starts_with_ci p (expand_path env e))"
    unfolding is_path_writable.simps blocked list_ex_iff roots by (auto simp: protected_dir_names_def)
  show readable: "is_path_readable env (WorkspaceWrite w) p \<longleftrightarrow>
      (\<forall>e \<in> set (declared_sensitive env w). sp_block_read e \<longrightarrow> \<not> path_starts_with_ci p (expand_path env e))"
    unfolding is_path_readable_def is_sensitive_path_def declared by (auto simp: list_ex_iff sensitive_matches_def)
  show "ww_sensitive w = None \<and> is_path_writable env (WorkspaceWrite w) p cwd \<longrightarrow> is_path_readable env (WorkspaceWrite w) p"
    unfolding writable readable using default_sensitive_both [of env] by (auto simp: declared_sensitive_def list_all_iff blocks_both_def)
  show "\<forall>root d. clean_absolute root \<and> clean_name d \<longrightarrow> protected_target env root d = root @ [Normal d]"
    using protected_target_clean by blast
qed

theorem workspace_write_confined_witness:
  "\<not> is_path_writable home_env (workspace_write_with_sensitive_paths [components ''/w''] [write_only_sensitive ''/w/secret''])
     (components ''/w/Secret/key'') (components ''/w'')
   \<and> \<not> is_path_writable home_env (workspace_write [components ''/w'']) (components ''/w/.GIT/hooks'') (components ''/w'')
   \<and> is_path_writable home_env (workspace_write [components ''/w'']) (components ''/w/src/a.rs'') (components ''/w'')"
proof (intro conjI)
  have w: "workspace_write_full [components ''/w''] [] ps default_limits strict_profile = WorkspaceWrite
      \<lparr>ww_roots = [components ''/w''], ww_network_access = False, ww_allowlist = [], ww_sensitive = ps,
       ww_limits = default_limits, ww_seccomp = strict_profile, ww_exclude_tmpdir = True, ww_exclude_slash_tmp = True\<rparr>" for ps
    by (simp add: workspace_write_full_def)
  have secret: "path_starts_with_ci (components ''/w/Secret/key'') (expand_path home_env (write_only_sensitive ''/w/secret''))"
    by code_simp
  show "\<not> is_path_writable home_env (workspace_write_with_sensitive_paths [components ''/w''] [write_only_sensitive ''/w/secret''])
     (components ''/w/Secret/key'') (components ''/w'')"
    unfolding workspace_write_with_sensitive_paths_def w
    by (subst workspace_write_confined [THEN conjunct1]) (use secret in \<open>simp add: declared_sensitive_def write_only_sensitive_def\<close>)
  have "components ''/w'' = RootDir # map Normal [''w'']" by code_simp
  then have "clean_absolute (components ''/w'')"
    by (auto simp: clean_absolute_def clean_name_def intro!: exI [of _ "[''w'']"])
  then have "protected_target home_env (components ''/w'') ''.git'' = components ''/w'' @ [Normal ''.git'']"
    using workspace_write_confined [of home_env undefined undefined undefined] by (simp add: clean_name_def)
  moreover have "path_starts_with_ci (components ''/w/.GIT/hooks'') (components ''/w'' @ [Normal ''.git''])" by code_simp
  ultimately show "\<not> is_path_writable home_env (workspace_write [components ''/w'']) (components ''/w/.GIT/hooks'') (components ''/w'')"
    unfolding workspace_write_def w by (subst workspace_write_confined [THEN conjunct1]) simp
  show "is_path_writable home_env (workspace_write [components ''/w'']) (components ''/w/src/a.rs'') (components ''/w'')"
    by code_simp
qed

text \<open>when the directories of VT Code cannot be determined the policy fails closed: no absolute path may
  be read or written under the default sensitive paths.\<close>

theorem unresolved_dirs_fail_closed:
  assumes "se_vtcode_dirs env = Inl e" "is_absolute p" "ww_sensitive w = None"
  shows "\<not> is_path_readable env (ReadOnly access allowlist) p
    \<and> \<not> is_path_readable env (WorkspaceWrite w) p \<and> \<not> is_path_writable env (WorkspaceWrite w) p cwd"
proof -
  have "components ''/'' = [RootDir]" by code_simp
  then have m: "sensitive_matches env (new_sensitive ''/'') p"
    using assms(2) by (cases p) (auto simp: sensitive_matches_def expand_absolute new_sensitive_def is_absolute_def)
  have "new_sensitive ''/'' \<in> set (default_sensitive_paths env)"
    using assms(1) by (simp add: default_sensitive_paths_def vtcode_sensitive_paths_def)
  with m assms(3) show ?thesis
    by (auto simp: is_path_readable_def is_sensitive_path_def is_path_write_blocked_def list_ex_iff
        sensitive_paths_for_execution_def new_sensitive_def)
qed

theorem unresolved_dirs_fail_closed_witness:
  "\<not> is_path_readable (home_env\<lparr>se_vtcode_dirs := Inl ''no home''\<rparr>) read_only (components ''/w/a'')"
proof -
  have "is_absolute (components ''/w/a'')" by code_simp
  with unresolved_dirs_fail_closed [of "home_env\<lparr>se_vtcode_dirs := Inl ''no home''\<rparr>" "''no home''" "components ''/w/a''"
      "\<lparr>ww_roots = [], ww_network_access = False, ww_allowlist = [], ww_sensitive = None, ww_limits = default_limits,
        ww_seccomp = strict_profile, ww_exclude_tmpdir = True, ww_exclude_slash_tmp = True\<rparr>" False "[]"]
  show ?thesis by (simp add: read_only_def)
qed

text \<open>with an allow list a destination is reachable exactly when an entry has its port and names the
  domain, or is a wildcard for the domain itself or one of its subdomains.\<close>

theorem network_allowlist_iff:
  assumes "ww_allowlist w \<noteq> []"
  shows "is_network_allowed (WorkspaceWrite w) domain port \<longleftrightarrow>
    (\<exists>entry \<in> set (ww_allowlist w). ne_port entry = port
       \<and> (if starts_with (ne_domain entry) ''*.''
          then domain = drop 2 (ne_domain entry) \<or> (\<exists>sub. domain = sub @ ''.'' @ drop 2 (ne_domain entry))
          else domain = ne_domain entry))"
proof -
  have "ends_with domain (drop 1 (ne_domain entry)) \<longleftrightarrow> (\<exists>sub. domain = sub @ ''.'' @ drop 2 (ne_domain entry))"
    if "starts_with (ne_domain entry) ''*.''" for entry
  proof -
    obtain rest where "ne_domain entry = ''*.'' @ rest"
      using \<open>starts_with (ne_domain entry) ''*.''\<close> by (auto simp: starts_with_prefix prefix_def)
    then show ?thesis by (auto simp: ends_with_suffix suffix_def numeral_2_eq_2)
  qed
  with assms show ?thesis
    by (auto simp: listed_network_allowed_def network_entry_matches_def list_ex_iff split: if_splits)
qed

theorem network_allowlist_iff_witness:
  "is_network_allowed (workspace_write_with_network [] [https_entry ''*.npmjs.org'']) ''registry.npmjs.org'' 443
   \<and> \<not> is_network_allowed (workspace_write_with_network [] [https_entry ''*.npmjs.org'']) ''evilnpmjs.org'' 443"
proof -
  let ?w = "\<lparr>ww_roots = [], ww_network_access = True, ww_allowlist = [https_entry ''*.npmjs.org''], ww_sensitive = None,
       ww_limits = default_limits, ww_seccomp = profile_with_network strict_profile,
       ww_exclude_tmpdir = True, ww_exclude_slash_tmp = True\<rparr>"
  have w: "workspace_write_with_network [] [https_entry ''*.npmjs.org''] = WorkspaceWrite ?w"
    by (simp add: workspace_write_with_network_def workspace_write_full_def)
  have "is_network_allowed (WorkspaceWrite ?w) ''registry.npmjs.org'' 443"
    by (subst network_allowlist_iff) (auto simp: https_entry_def intro: exI [of _ "''registry''"])
  moreover have "\<not> is_network_allowed (WorkspaceWrite ?w) ''evilnpmjs.org'' 443"
    by (subst network_allowlist_iff) (auto simp: https_entry_def append_eq_Cons_conv Cons_eq_append_conv)
  ultimately show ?thesis by (simp add: w)
qed

text \<open>a read-only policy stays read-only through any sequence of permitted changes that sets no
  external sandbox.\<close>

theorem read_only_is_kept:
  assumes "policy_run p qs" "is_read_only p" "\<not> list_ex is_external qs"
  shows "list_all is_read_only qs"
  using assms by (rule policy_run_read_only)

theorem read_only_is_kept_witness:
  "list_all is_read_only [read_only_with_full_network, read_only]"
  by (rule read_only_is_kept [of read_only])
    (auto simp: read_only_def read_only_with_full_network_def intro!: policy_run.intros)

text \<open>but the restriction is enforced for one change at a time: through an external sandbox, which
  itself permits everything, a read-only policy reaches full access in two permitted changes, although
  the direct change is refused.\<close>

theorem escalation_through_external:
  "can_set read_only DangerFullAccess \<noteq> ok_unit
   \<and> policy_run read_only [ExternalSandbox ''ci'', DangerFullAccess]
   \<and> is_path_writable env (ExternalSandbox ''ci'') p cwd"
  by (simp add: read_only_def bail_def policy_run_Cons policy_run.stay)

text \<open>the path tests compare components without resolving parent steps: a path that leaves the writable
  root by \<open>..\<close> is writable, and one that enters a sensitive directory through \<open>..\<close> is readable.\<close>

theorem parent_steps_not_resolved:
  "is_path_writable home_env (workspace_write [components ''/w'']) (components ''/w/../etc/passwd'') (components ''/w'')
   \<and> \<not> is_path_readable home_env read_only (components ''/home/u/.ssh/id_rsa'')
   \<and> is_path_readable home_env read_only (components ''/home/u/x/../.ssh/id_rsa'')"
  by code_simp












text \<open>on any other system the default sandbox type is none, and a restrictive policy runs the command
  directly, with its full environment.\<close>

theorem other_systems_run_unsandboxed:
  "transform \<lparr>h_os = OtherOS, h_landlock = l\<rparr> env js spec read_only cwd la = Inr (direct_env spec)"
  by (simp add: transform_def read_only_def platform_default_def Let_def)

text \<open>the environment of a sandboxed command is part of the filtered one: no preserved variable is
  one that the filter calls sensitive.\<close>

theorem sanitized_env_filtered:
  "build_sanitized_env e False nd st roots \<subseteq>\<^sub>m filter_sensitive_env e"
  using preserved_not_filtered
  by (auto simp: map_le_def sanitized_lookup filter_sensitive_env_def list_all_iff dom_def split: if_splits)

text \<open>merging two permission requests takes the more permissive, the maximum in the order of the
  modes, and the merge needs approval exactly when one of them does.\<close>

theorem merge_is_maximum:
  "merge_permissions a b = max a b
   \<and> permission_requires_approval (merge_permissions a b)
       = (permission_requires_approval a \<or> permission_requires_approval b)"
  by (cases a; cases b)
    (simp_all add: merge_permissions_def permission_requires_approval_def max_def less_eq_sandbox_permissions_def)

text \<open>a timeout given in milliseconds is read back unchanged, for every 64-bit value.\<close>

theorem timeout_round_trip:
  "expiration_timeout_ms (expiration_from_ms (Some ms)) = Some ms"
proof -
  have "unat ms < 2 ^ 64" using unsigned_less [of ms] by simp
  then show ?thesis by (simp add: expiration_from_ms_def)
qed

end
