(* ===== verification/Exec_Policy.thy ===== *)
theory Exec_Policy
  imports VT_Prelude
begin

text \<open>
  The execution policy: rules that match a prefix of an argument vector, the policy that holds them in
  order, the approval modes and the requirements they yield,
  \<^verbatim>\<open>crates/codegen/vtcode-safety/src/exec_policy/policy.rs\<close> and \<^verbatim>\<open>approval.rs\<close>, and the
  parser of rule files, \<^verbatim>\<open>parser.rs\<close>. The TOML and JSON decoders are the record \<open>decoders\<close>.
\<close>

subsection \<open>Decisions and rules\<close>

datatype decision = DAllow | DPrompt | DForbidden

record prefix_rule =
  pr_pattern :: "string list"
  pr_decision :: decision

definition new_prefix_rule :: "string list \<Rightarrow> decision \<Rightarrow> prefix_rule" where
  "new_prefix_rule pat d = \<lparr>pr_pattern = pat, pr_decision = d\<rparr>"

text \<open>The comparison that \<open>PrefixRule::matches\<close> and \<open>ExecPolicyAmendment::matches\<close> both write out.\<close>

definition matches_pattern :: "string list \<Rightarrow> string list \<Rightarrow> bool" where
  "matches_pattern pat command =
     (if length command < length pat then False
      else list_all (\<lambda>(p, c). p = c) (zip pat command))"

definition rule_matches :: "prefix_rule \<Rightarrow> string list \<Rightarrow> bool" where
  "rule_matches rule command = matches_pattern (pr_pattern rule) command"

datatype rule_match = PrefixRuleMatch prefix_rule decision | HeuristicsRuleMatch decision

fun match_decision :: "rule_match \<Rightarrow> decision" where
  "match_decision (PrefixRuleMatch rule d) = d"
| "match_decision (HeuristicsRuleMatch d) = d"

fun is_policy_match :: "rule_match \<Rightarrow> bool" where
  "is_policy_match (PrefixRuleMatch rule d) \<longleftrightarrow> True"
| "is_policy_match (HeuristicsRuleMatch d) \<longleftrightarrow> False"

subsection \<open>Policies\<close>

record policy =
  po_rules :: "prefix_rule list"

definition empty_policy :: policy where
  "empty_policy = \<lparr>po_rules = []\<rparr>"

definition add_prefix_rule :: "policy \<Rightarrow> string list \<Rightarrow> decision \<Rightarrow> policy" where
  "add_prefix_rule p pat d = p\<lparr>po_rules := po_rules p @ [new_prefix_rule pat d]\<rparr>"

definition layer_step :: "policy \<Rightarrow> prefix_rule list \<Rightarrow> prefix_rule \<Rightarrow> prefix_rule list" where
  "layer_step p new_rules rule =
     (let duplicate = list_ex (\<lambda>e. pr_pattern e = pr_pattern rule) new_rules
                      \<or> list_ex (\<lambda>e. pr_pattern e = pr_pattern rule) (po_rules p)
      in if \<not> duplicate then new_rules @ [rule] else new_rules)"

definition prepend_layer :: "policy \<Rightarrow> prefix_rule list \<Rightarrow> policy" where
  "prepend_layer p rules = p\<lparr>po_rules := foldl (layer_step p) [] rules @ po_rules p\<rparr>"

fun check_rules :: "prefix_rule list \<Rightarrow> string list \<Rightarrow> rule_match" where
  "check_rules [] command = HeuristicsRuleMatch DPrompt"
| "check_rules (rule # rules) command =
     (if rule_matches rule command then PrefixRuleMatch rule (pr_decision rule)
      else check_rules rules command)"

definition check :: "policy \<Rightarrow> string list \<Rightarrow> rule_match" where
  "check p command = check_rules (po_rules p) command"

record policy_evaluation =
  pe_decision :: decision
  pe_matched :: "rule_match list"

fun combine_decisions :: "decision \<Rightarrow> decision \<Rightarrow> decision" where
  "combine_decisions a b =
     (if a = DForbidden \<or> b = DForbidden then DForbidden
      else if a = DPrompt \<or> b = DPrompt then DPrompt else DAllow)"

definition resolve_decision :: "(string list \<Rightarrow> decision) \<Rightarrow> string list \<Rightarrow> rule_match \<Rightarrow> decision" where
  "resolve_decision heuristics command m =
     (case m of PrefixRuleMatch rule d \<Rightarrow> d | HeuristicsRuleMatch d \<Rightarrow> heuristics command)"

definition check_multiple ::
  "policy \<Rightarrow> string list list \<Rightarrow> (string list \<Rightarrow> decision) \<Rightarrow> policy_evaluation" where
  "check_multiple p commands heuristics =
     foldl (\<lambda>ev command.
              let m = check p command
              in \<lparr>pe_decision = combine_decisions (pe_decision ev) (resolve_decision heuristics command m),
                  pe_matched = pe_matched ev @ [m]\<rparr>)
       \<lparr>pe_decision = DAllow, pe_matched = []\<rparr> commands"

subsection \<open>Approval\<close>

record reject_config =
  rc_sandbox_approval :: bool
  rc_rules :: bool
  rc_request_permissions :: bool
  rc_mcp_elicitations :: bool

datatype ask_for_approval = Never | OnRequest | UnlessTrusted | OnFailure | Reject reject_config

definition requires_approval_for_unknown :: "ask_for_approval \<Rightarrow> bool" where
  "requires_approval_for_unknown a =
     (case a of UnlessTrusted \<Rightarrow> True | OnRequest \<Rightarrow> True | Reject _ \<Rightarrow> True | _ \<Rightarrow> False)"

fun rejects_rule_prompt :: "ask_for_approval \<Rightarrow> bool" where
  "rejects_rule_prompt Never = True"
| "rejects_rule_prompt (Reject rc) = rc_rules rc"
| "rejects_rule_prompt _ = False"

fun rejects_sandbox_prompt :: "ask_for_approval \<Rightarrow> bool" where
  "rejects_sandbox_prompt Never = True"
| "rejects_sandbox_prompt (Reject rc) = rc_sandbox_approval rc"
| "rejects_sandbox_prompt _ = False"

fun rejects_request_permission_prompt :: "ask_for_approval \<Rightarrow> bool" where
  "rejects_request_permission_prompt Never = True"
| "rejects_request_permission_prompt (Reject rc) = rc_request_permissions rc"
| "rejects_request_permission_prompt _ = False"

fun rejects_mcp_elicitation :: "ask_for_approval \<Rightarrow> bool" where
  "rejects_mcp_elicitation Never = True"
| "rejects_mcp_elicitation (Reject rc) = rc_mcp_elicitations rc"
| "rejects_mcp_elicitation _ = False"

record amendment =
  am_pattern :: "string list"

definition from_prefix :: "string \<Rightarrow> amendment" where
  "from_prefix p = \<lparr>am_pattern = [p]\<rparr>"

definition amendment_matches :: "amendment \<Rightarrow> string list \<Rightarrow> bool" where
  "amendment_matches a command = matches_pattern (am_pattern a) command"

datatype approval_requirement =
    Skip bool "amendment option"
  | NeedsApproval "string option" "amendment option"
  | Forbidden string

definition skip :: approval_requirement where
  "skip = Skip False None"

definition skip_with_bypass :: approval_requirement where
  "skip_with_bypass = Skip True None"

definition needs_approval :: "string \<Rightarrow> approval_requirement" where
  "needs_approval reason = NeedsApproval (Some reason) None"

definition needs_approval_with_amendment :: "string option \<Rightarrow> amendment \<Rightarrow> approval_requirement" where
  "needs_approval_with_amendment reason a = NeedsApproval reason (Some a)"

fun requirement_requires_approval :: "approval_requirement \<Rightarrow> bool" where
  "requirement_requires_approval (NeedsApproval _ _) = True"
| "requirement_requires_approval _ = False"

fun is_forbidden :: "approval_requirement \<Rightarrow> bool" where
  "is_forbidden (Forbidden _) = True"
| "is_forbidden _ = False"

fun can_proceed :: "approval_requirement \<Rightarrow> bool" where
  "can_proceed (Skip _ _) = True"
| "can_proceed _ = False"

fun get_amendment :: "approval_requirement \<Rightarrow> amendment option" where
  "get_amendment (Skip _ a) = a"
| "get_amendment (NeedsApproval _ a) = a"
| "get_amendment (Forbidden _) = None"

definition default_exec_approval_requirement :: "ask_for_approval \<Rightarrow> bool \<Rightarrow> approval_requirement" where
  "default_exec_approval_requirement p requires_sandbox_prompt =
     (let needs = (case p of Never \<Rightarrow> False | OnFailure \<Rightarrow> False
                   | OnRequest \<Rightarrow> requires_sandbox_prompt | Reject _ \<Rightarrow> requires_sandbox_prompt
                   | UnlessTrusted \<Rightarrow> True)
      in if needs \<and> rejects_sandbox_prompt p
         then Forbidden ''approval policy rejected sandbox approval prompt''
         else if needs then NeedsApproval None None
         else skip)"

subsection \<open>Rule files\<close>

record policy_rule =
  fr_pattern :: string
  fr_decision :: decision
  fr_comment :: "string option"

record policy_file =
  pf_version :: "32 word"
  pf_rules :: "policy_rule list"

record decoders =
  de_toml :: "string \<Rightarrow> string + policy_file"
  de_json :: "string \<Rightarrow> policy_file rresult"

definition parse_toml :: "decoders \<Rightarrow> string \<Rightarrow> policy_file rresult" where
  "parse_toml de content =
     (case de_toml de content of Inl e \<Rightarrow> Inl [''Failed to parse policy TOML'', e] | Inr f \<Rightarrow> Inr f)"

text \<open>\<open>to_lowercase\<close> as far as a comparison with ASCII words can tell: besides the ASCII letters only the Kelvin
  sign, in UTF-8 the bytes E2, 84 and AA, becomes an ASCII letter.\<close>

fun kelvin_sign :: "string \<Rightarrow> string" where
  "kelvin_sign (a # b # c # s) =
     (if a = CHR 0xE2 \<and> b = CHR 0x84 \<and> c = CHR 0xAA then CHR ''k'' # kelvin_sign s else a # kelvin_sign (b # c # s))"
| "kelvin_sign s = s"

definition to_lowercase_word :: "string \<Rightarrow> string" where
  "to_lowercase_word s = to_ascii_lowercase (kelvin_sign s)"

definition parse_decision :: "string \<Rightarrow> decision rresult" where
  "parse_decision s =
     (let l = to_lowercase_word s
      in if l \<in> {''allow'', ''yes'', ''true'', ''1''} then Inr DAllow
         else if l \<in> {''prompt'', ''ask'', ''confirm''} then Inr DPrompt
         else if l \<in> {''forbidden'', ''forbid'', ''deny'', ''no'', ''false'', ''0''} then Inr DForbidden
         else bail (''Invalid decision: '' @ s))"

definition parse_pattern :: "string \<Rightarrow> string list" where
  "parse_pattern s = split_whitespace s"

definition rule_format_msg :: string where
  "rule_format_msg =
     ''Invalid rule format. Expected '' @ [CHR 0x27] @ ''decision: pattern'' @ [CHR 0x27] @ '' or ''
       @ [CHR 0x27] @ ''pattern = decision'' @ [CHR 0x27]"

definition parse_rule_line :: "string \<Rightarrow> prefix_rule rresult" where
  "parse_rule_line line =
     (case split_once CHR '':'' line of
        Some (decision_str, pat) \<Rightarrow>
          bindr (parse_decision (trim decision_str)) (\<lambda>d. Inr (new_prefix_rule (parse_pattern (trim pat)) d))
      | None \<Rightarrow>
          (case split_once CHR ''='' line of
             Some (pat, decision_str) \<Rightarrow>
               bindr (parse_decision (trim decision_str)) (\<lambda>d. Inr (new_prefix_rule (parse_pattern (trim pat)) d))
           | None \<Rightarrow> bail rule_format_msg))"

text \<open>\<open>str::lines\<close>: a line ends with a newline, of which a preceding carriage return is part.\<close>

definition strip_cr :: "string \<Rightarrow> string" where
  "strip_cr l = (case strip_suffix_str l [CHR 0x0D] of Some r \<Rightarrow> r | None \<Rightarrow> l)"

definition str_lines :: "string \<Rightarrow> string list" where
  "str_lines s =
     (let segs = split_char (CHR 0x0A) s
      in map strip_cr (butlast segs) @ (if last segs = [] then [] else [last segs]))"

fun parse_lines :: "nat \<Rightarrow> string list \<Rightarrow> prefix_rule list rresult" where
  "parse_lines n [] = Inr []"
| "parse_lines n (raw # rest) =
     (let line = trim raw
      in if line = [] \<or> starts_with line ''#'' \<or> starts_with line ''//'' then parse_lines (Suc n) rest
         else bindr (with_context (''Failed to parse line '' @ show_nat (Suc n) @ '': '' @ line) (parse_rule_line line))
                (\<lambda>rule. bindr (parse_lines (Suc n) rest) (\<lambda>rules. Inr (rule # rules))))"

definition parse_simple :: "string \<Rightarrow> prefix_rule list rresult" where
  "parse_simple content = parse_lines 0 (str_lines content)"

text \<open>\<open>Path::extension\<close>: the text after the last dot of the file name, unless the name starts with it.\<close>

definition path_extension :: "string \<Rightarrow> string" where
  "path_extension p =
     (case file_name p of
        None \<Rightarrow> []
      | Some name \<Rightarrow>
          if CHR ''.'' \<in> set (tl name) then last (split_char CHR ''.'' name) else [])"

definition file_prefix_rules :: "policy_file \<Rightarrow> prefix_rule list" where
  "file_prefix_rules f = map (\<lambda>r. new_prefix_rule (split_whitespace (fr_pattern r)) (fr_decision r)) (pf_rules f)"

definition load_from_content :: "decoders \<Rightarrow> string \<Rightarrow> string \<Rightarrow> policy rresult" where
  "load_from_content de content p =
     (let ext = path_extension p
      in bindr (if ext = ''toml'' then bindr (parse_toml de content) (\<lambda>f. Inr (file_prefix_rules f))
                else if ext = ''json'' then bindr (de_json de content) (\<lambda>f. Inr (file_prefix_rules f))
                else parse_simple content)
           (\<lambda>rules. Inr (foldl (\<lambda>p r. add_prefix_rule p (pr_pattern r) (pr_decision r)) empty_policy rules)))"

end
