(* ===== verification/Policy_Manager.thy ===== *)
theory Policy_Manager
  imports Exec_Policy Dangerous_Commands Sandbox_Policy "HOL-Library.Char_ord" "HOL-Library.List_Lexorder"
begin

text \<open>
  The execution policy manager, \<^verbatim>\<open>crates/codegen/vtcode-safety/src/exec_policy/manager.rs\<close>. Its
  locks each guard one field, so the state is a record and every operation a function on it. Rule files
  are read through the record \<open>rule_store\<close>: which paths are files, their contents, the entries of a
  directory, and the home directory.
\<close>

subsection \<open>State\<close>

record manager_config =
  mc_sandbox :: sandbox_policy
  mc_approval :: ask_for_approval
  mc_use_heuristics :: bool
  mc_max_auto_approve_length :: nat

definition default_config :: manager_config where
  "default_config = \<lparr>mc_sandbox = read_only, mc_approval = UnlessTrusted, mc_use_heuristics = True,
                     mc_max_auto_approve_length = 256\<rparr>"

record manager =
  pm_policy :: policy
  pm_trusted :: "amendment list"
  pm_sandbox :: sandbox_policy
  pm_config :: manager_config
  pm_workspace :: path
  pm_session :: "string set"

definition new_manager :: "path \<Rightarrow> manager_config \<Rightarrow> manager" where
  "new_manager workspace_root config =
     \<lparr>pm_policy = empty_policy, pm_trusted = [], pm_sandbox = mc_sandbox config, pm_config = config,
      pm_workspace = workspace_root, pm_session = {}\<rparr>"

definition with_defaults :: "path \<Rightarrow> manager" where
  "with_defaults workspace_root = new_manager workspace_root default_config"

subsection \<open>Rule layers\<close>

record rule_store =
  rs_is_file :: "string \<Rightarrow> bool"
  rs_read :: "string \<Rightarrow> string rresult"
  rs_entries :: "string \<Rightarrow> string list"
  rs_home :: "string option"

definition load_file :: "decoders \<Rightarrow> rule_store \<Rightarrow> string \<Rightarrow> policy rresult" where
  "load_file de rs p = bindr (rs_read rs p) (\<lambda>content. load_from_content de content p)"

definition load_policy :: "decoders \<Rightarrow> rule_store \<Rightarrow> string \<Rightarrow> manager \<Rightarrow> manager rresult" where
  "load_policy de rs p m =
     bindr (with_context ''Failed to load policy file'' (load_file de rs p)) (\<lambda>q. Inr (m\<lparr>pm_policy := q\<rparr>))"

fun merge_layers :: "decoders \<Rightarrow> rule_store \<Rightarrow> policy \<Rightarrow> nat \<Rightarrow> string list \<Rightarrow> (policy \<times> nat) rresult" where
  "merge_layers de rs merged loaded [] = Inr (merged, loaded)"
| "merge_layers de rs merged loaded (layer # layers) =
     (if \<not> rs_is_file rs layer then merge_layers de rs merged loaded layers
      else bindr (with_context (''Failed to load policy layer '' @ layer) (load_file de rs layer))
             (\<lambda>q. merge_layers de rs (prepend_layer merged (po_rules q)) (Suc loaded) layers))"

definition load_policy_layers :: "decoders \<Rightarrow> rule_store \<Rightarrow> string list \<Rightarrow> manager \<Rightarrow> (nat \<times> manager) rresult" where
  "load_policy_layers de rs layers m =
     bindr (merge_layers de rs empty_policy 0 layers)
       (\<lambda>(merged, loaded). Inr (loaded, m\<lparr>pm_policy := merged\<rparr>))"

definition dir_layers :: "rule_store \<Rightarrow> string \<Rightarrow> string list" where
  "dir_layers rs dir = sort (filter (\<lambda>p. path_extension p = ''rules'') (rs_entries rs dir))"

definition rules_layers :: "rule_store \<Rightarrow> string \<Rightarrow> string list" where
  "rules_layers rs workspace_root =
     dir_layers rs (workspace_root @ ''/.vtcode/rules'')
     @ (case rs_home rs of Some home \<Rightarrow> dir_layers rs (home @ ''/.vtcode/rules'') | None \<Rightarrow> [])"

definition shared_manager_with_rules :: "decoders \<Rightarrow> rule_store \<Rightarrow> string \<Rightarrow> manager rresult" where
  "shared_manager_with_rules de rs workspace_root =
     bindr (load_policy_layers de rs (rules_layers rs workspace_root) (with_defaults (components workspace_root)))
       (\<lambda>(loaded, m). Inr m)"

subsection \<open>Changes of the state\<close>

definition manager_add_prefix_rule :: "string list \<Rightarrow> decision \<Rightarrow> manager \<Rightarrow> manager" where
  "manager_add_prefix_rule pat d m = m\<lparr>pm_policy := add_prefix_rule (pm_policy m) pat d\<rparr>"

definition add_trusted_pattern :: "amendment \<Rightarrow> manager \<Rightarrow> manager" where
  "add_trusted_pattern a m = m\<lparr>pm_trusted := pm_trusted m @ [a]\<rparr>"

definition set_sandbox_policy :: "sandbox_policy \<Rightarrow> manager \<Rightarrow> manager" where
  "set_sandbox_policy p m = m\<lparr>pm_sandbox := p\<rparr>"

definition approve_command :: "string list \<Rightarrow> manager \<Rightarrow> manager" where
  "approve_command command m = m\<lparr>pm_session := insert (join '' '' command) (pm_session m)\<rparr>"

definition clear_session_approvals :: "manager \<Rightarrow> manager" where
  "clear_session_approvals m = m\<lparr>pm_session := {}\<rparr>"

subsection \<open>Decisions\<close>

definition prompt_conflict_reason :: string where
  "prompt_conflict_reason = ''approval required by policy, but AskForApproval is set to Never''"

definition reject_sandbox_reason :: string where
  "reject_sandbox_reason = ''approval required by policy, but AskForApproval::Reject.sandbox_approval is set''"

definition reject_rules_reason :: string where
  "reject_rules_reason = ''approval required by policy rule, but AskForApproval::Reject.rules is set''"

definition prompt_is_rejected_by_policy :: "ask_for_approval \<Rightarrow> bool \<Rightarrow> string option" where
  "prompt_is_rejected_by_policy approval prompt_is_rule =
     (if prompt_is_rule
      then (if \<not> rejects_rule_prompt approval then None
            else Some (if approval = Never then prompt_conflict_reason else reject_rules_reason))
      else if \<not> rejects_sandbox_prompt approval then None
      else Some (if approval = Never then prompt_conflict_reason else reject_sandbox_reason))"

definition safe_commands :: "string list" where
  "safe_commands =
     [''ls'', ''cat'', ''head'', ''tail'', ''grep'', ''find'', ''echo'', ''pwd'', ''which'', ''type'', ''less'',
      ''more'', ''wc'', ''sort'', ''uniq'', ''diff'', ''env'', ''printenv'', ''hostname'', ''uname'', ''date'',
      ''whoami'', ''id'', ''file'', ''stat'', ''tree'', ''df'', ''du'', ''uptime'']"

definition heuristics_decision :: "shell_lib \<Rightarrow> manager \<Rightarrow> string list \<Rightarrow> decision" where
  "heuristics_decision lib m command =
     (if \<not> mc_use_heuristics (pm_config m) then DPrompt
      else case command of
             [] \<Rightarrow> DPrompt
           | cmd # _ \<Rightarrow>
               if cmd \<in> set safe_commands then DAllow
               else if command_might_be_dangerous lib command
               then (if list_ex (\<lambda>arg. arg = ''--dry-run'' \<or> arg = ''-n'') command then DPrompt else DForbidden)
               else DPrompt)"

definition quote :: "string \<Rightarrow> string" where
  "quote s = [CHR 0x27] @ s @ [CHR 0x27]"

fun format_approval_reason :: "string list \<Rightarrow> rule_match \<Rightarrow> string" where
  "format_approval_reason command (PrefixRuleMatch rule d) =
     ''Command '' @ quote (join '' '' command) @ '' matched rule '' @ quote (join '' '' (pr_pattern rule))
       @ '' requiring confirmation''"
| "format_approval_reason command (HeuristicsRuleMatch d) =
     ''Command '' @ quote (join '' '' command) @ '' requires confirmation (no explicit policy rule)''"

fun format_forbidden_reason :: "string list \<Rightarrow> rule_match \<Rightarrow> string" where
  "format_forbidden_reason command (PrefixRuleMatch rule d) =
     ''Command '' @ quote (join '' '' command) @ '' is forbidden by rule '' @ quote (join '' '' (pr_pattern rule))"
| "format_forbidden_reason command (HeuristicsRuleMatch d) =
     ''Command '' @ quote (join '' '' command) @ '' is forbidden by safety heuristics''"

definition is_prompt_rule :: "rule_match \<Rightarrow> bool" where
  "is_prompt_rule m \<longleftrightarrow> (case m of PrefixRuleMatch rule d \<Rightarrow> d = DPrompt | HeuristicsRuleMatch d \<Rightarrow> False)"

definition requirement_of :: "ask_for_approval \<Rightarrow> string list \<Rightarrow> rule_match \<Rightarrow> decision \<Rightarrow> approval_requirement" where
  "requirement_of approval command rm d =
     (case d of
        DAllow \<Rightarrow> skip
      | DPrompt \<Rightarrow>
          (case prompt_is_rejected_by_policy approval (is_prompt_rule rm) of
             Some reason \<Rightarrow> Forbidden reason
           | None \<Rightarrow> needs_approval (format_approval_reason command rm))
      | DForbidden \<Rightarrow> Forbidden (format_forbidden_reason command rm))"

definition check_approval :: "shell_lib \<Rightarrow> manager \<Rightarrow> string list \<Rightarrow> approval_requirement" where
  "check_approval lib m command =
     (if join '' '' command \<in> pm_session m then skip
      else if list_ex (\<lambda>a. amendment_matches a command) (pm_trusted m) then skip
      else let rm = check (pm_policy m) command
           in requirement_of (mc_approval (pm_config m)) command rm
                (resolve_decision (heuristics_decision lib m) command rm))"

fun batch_loop ::
  "shell_lib \<Rightarrow> manager \<Rightarrow> bool \<Rightarrow> string list \<Rightarrow> string list list \<Rightarrow> approval_requirement" where
  "batch_loop lib m flag reasons [] = (if flag then needs_approval (join ''; '' reasons) else skip)"
| "batch_loop lib m flag reasons (command # commands) =
     (let approval = check_approval lib m command
      in if is_forbidden approval then approval
         else if requirement_requires_approval approval
         then batch_loop lib m True
                (case approval of NeedsApproval (Some r) _ \<Rightarrow> reasons @ [r] | _ \<Rightarrow> reasons) commands
         else batch_loop lib m flag reasons commands)"

definition check_approval_batch :: "shell_lib \<Rightarrow> manager \<Rightarrow> string list list \<Rightarrow> approval_requirement" where
  "check_approval_batch lib m commands = batch_loop lib m False [] commands"

definition manager_evaluate :: "shell_lib \<Rightarrow> manager \<Rightarrow> string list \<Rightarrow> policy_evaluation" where
  "manager_evaluate lib m command = check_multiple (pm_policy m) [command] (heuristics_decision lib m)"

end
