(* ===== verification/Policy_Facts.thy ===== *)
theory Policy_Facts
  imports Policy_Manager Evaluator_Facts
begin

text \<open>
  Properties of the execution policy and its manager: first-match evaluation, layers, batches, approval
  modes, session approvals and the rule parser. Rules and trusted patterns share one contract, the
  locale \<open>prefix_matcher\<close>, which both instantiate.
\<close>

subsection \<open>Prefix matching\<close>

locale prefix_matcher =
  fixes pat :: "'r \<Rightarrow> string list"
    and hit :: "'r \<Rightarrow> string list \<Rightarrow> bool"
  assumes hit_iff: "hit r c \<longleftrightarrow> prefix (pat r) c"
begin

lemma hit_extend: "hit r c \<Longrightarrow> hit r (c @ d)"
  by (auto simp: hit_iff)

lemma hit_general: "hit r c \<Longrightarrow> prefix (pat g) (pat r) \<Longrightarrow> hit g c"
  unfolding hit_iff by (rule prefix_order.trans)

lemma hit_comparable: "hit r c \<Longrightarrow> hit s c \<Longrightarrow> prefix (pat r) (pat s) \<or> prefix (pat s) (pat r)"
  using hit_iff prefix_same_cases by blast

text \<open>The first rule that hits, and the rules that can never be it.\<close>

definition first_hit :: "'r list \<Rightarrow> string list \<Rightarrow> 'r option" where
  "first_hit rules c = find (\<lambda>r. hit r c) rules"

lemma first_hit_simps:
  "first_hit [] c = None"
  "first_hit (x # xs) c = (if prefix (pat x) c then Some x else first_hit xs c)"
  unfolding first_hit_def hit_iff by simp_all

lemma first_hit_Some:
  "first_hit rules c = Some r \<longleftrightarrow>
     (\<exists>before after. rules = before @ r # after \<and> prefix (pat r) c \<and> (\<forall>b \<in> set before. \<not> prefix (pat b) c))"
proof (induction rules)
  case (Cons x xs)
  show ?case
  proof (cases "prefix (pat x) c")
    case True
    then show ?thesis by (fastforce simp: first_hit_simps Cons_eq_append_conv)
  next
    case False
    have "first_hit (x # xs) c = first_hit xs c" using False by (simp add: first_hit_simps)
    moreover have "(\<exists>before after. x # xs = before @ r # after \<and> prefix (pat r) c \<and> (\<forall>b \<in> set before. \<not> prefix (pat b) c))
        \<longleftrightarrow> (\<exists>before after. xs = before @ r # after \<and> prefix (pat r) c \<and> (\<forall>b \<in> set before. \<not> prefix (pat b) c))"
      (is "?l \<longleftrightarrow> ?r")
    proof
      assume ?l
      then obtain before after where b: "x # xs = before @ r # after" "prefix (pat r) c"
        "\<forall>b \<in> set before. \<not> prefix (pat b) c" by blast
      with False obtain before' where "before = x # before'" by (cases before) auto
      with b show ?r by auto
    next
      assume ?r
      then obtain before after where "xs = before @ r # after" "prefix (pat r) c"
        "\<forall>b \<in> set before. \<not> prefix (pat b) c" by blast
      with False show ?l by (intro exI [of _ "x # before"] exI [of _ after]) auto
    qed
    ultimately show ?thesis using Cons by simp
  qed
qed (simp add: first_hit_simps)

lemma first_hit_None: "first_hit rules c = None \<longleftrightarrow> (\<forall>r \<in> set rules. \<not> prefix (pat r) c)"
  by (induction rules) (auto simp: first_hit_simps)

lemma first_hit_shadowed:
  assumes "g \<in> set before" "prefix (pat g) (pat r)"
  shows "first_hit (before @ r # after) c = first_hit (before @ after) c"
  using assms
proof (induction before)
  case (Cons b before)
  show ?case
  proof (cases "g = b")
    case True
    have skip: "\<not> prefix (pat r) c \<Longrightarrow> first_hit (bs @ r # after) c = first_hit (bs @ after) c" for bs
      by (induction bs) (simp_all add: first_hit_simps)
    from True Cons.prems have "prefix (pat r) c \<Longrightarrow> prefix (pat b) c" by (auto intro: prefix_order.trans)
    with skip [of "b # before"] show ?thesis
      by (cases "prefix (pat r) c") (simp_all add: first_hit_simps)
  next
    case False
    with Cons show ?thesis by (simp add: first_hit_simps)
  qed
qed simp

end

lemma zip_all_prefix: "length p \<le> length c \<Longrightarrow> list_all (\<lambda>(a, b). a = b) (zip p c) \<longleftrightarrow> prefix p c"
proof (induction p arbitrary: c)
  case (Cons a p)
  then show ?case by (cases c) auto
qed simp

lemma matches_pattern_iff: "matches_pattern p c \<longleftrightarrow> prefix p c"
  by (auto simp: matches_pattern_def zip_all_prefix dest: prefix_length_le)

interpretation rules: prefix_matcher pr_pattern rule_matches
  by unfold_locales (simp add: rule_matches_def matches_pattern_iff)

interpretation trusted: prefix_matcher am_pattern amendment_matches
  by unfold_locales (simp add: amendment_matches_def matches_pattern_iff)

lemma check_rules_first_hit:
  "check_rules rs c = (case rules.first_hit rs c of Some r \<Rightarrow> PrefixRuleMatch r (pr_decision r)
                                                | None \<Rightarrow> HeuristicsRuleMatch DPrompt)"
  by (induction rs) (simp_all add: rules.first_hit_simps rules.hit_iff [symmetric])

subsection \<open>Decisions\<close>

instantiation decision :: linorder
begin

fun severity :: "decision \<Rightarrow> nat" where
  "severity DAllow = 0"
| "severity DPrompt = 1"
| "severity DForbidden = 2"

definition less_eq_decision :: "decision \<Rightarrow> decision \<Rightarrow> bool" where
  "less_eq_decision a b \<longleftrightarrow> severity a \<le> severity b"

definition less_decision :: "decision \<Rightarrow> decision \<Rightarrow> bool" where
  "less_decision a b \<longleftrightarrow> severity a < severity b"

instance
proof
  fix a b :: decision
  show "a \<le> b \<Longrightarrow> b \<le> a \<Longrightarrow> a = b" by (cases a; cases b) (simp_all add: less_eq_decision_def)
qed (auto simp: less_eq_decision_def less_decision_def)

end

lemma combine_is_max: "combine_decisions a b = max a b"
  by (cases a; cases b) (simp_all add: max_def less_eq_decision_def)

definition decide :: "policy \<Rightarrow> (string list \<Rightarrow> decision) \<Rightarrow> string list \<Rightarrow> decision" where
  "decide p heuristics c = resolve_decision heuristics c (check p c)"

lemma check_multiple_eq:
  "check_multiple p cs h = \<lparr>pe_decision = foldl max DAllow (map (decide p h) cs), pe_matched = map (check p) cs\<rparr>"
proof -
  have "foldl (\<lambda>ev command. let m = check p command
              in \<lparr>pe_decision = combine_decisions (pe_decision ev) (resolve_decision h command m),
                  pe_matched = pe_matched ev @ [m]\<rparr>) ev cs
      = \<lparr>pe_decision = foldl max (pe_decision ev) (map (decide p h) cs), pe_matched = pe_matched ev @ map (check p) cs\<rparr>"
    for ev :: policy_evaluation
    by (induction cs arbitrary: ev) (simp_all add: Let_def combine_is_max decide_def del: combine_decisions.simps)
  then show ?thesis by (simp add: check_multiple_def)
qed

lemma foldl_max_decision: "foldl max (a :: decision) ds = Max (insert a (set ds))"
proof (induction ds arbitrary: a)
  case (Cons d ds)
  have "Max (insert (max a d) (set ds)) = Max (insert a (insert d (set ds)))"
    by (cases "ds = []") (simp_all add: max.assoc)
  with Cons show ?case by simp
qed simp

subsection \<open>Layers\<close>

lemma layer_steps:
  "\<exists>kept. foldl (layer_step p) acc rs = acc @ kept \<and> set kept \<subseteq> set rs
     \<and> (\<forall>r \<in> set kept. \<forall>e \<in> set (po_rules p). pr_pattern e \<noteq> pr_pattern r)"
proof (induction rs arbitrary: acc)
  case (Cons r rs)
  obtain kept where k: "foldl (layer_step p) (layer_step p acc r) rs = layer_step p acc r @ kept"
    "set kept \<subseteq> set rs" "\<forall>x \<in> set kept. \<forall>e \<in> set (po_rules p). pr_pattern e \<noteq> pr_pattern x"
    using Cons.IH by blast
  show ?case
  proof (cases "layer_step p acc r = acc")
    case True
    with k show ?thesis by (intro exI [of _ kept]) auto
  next
    case False
    then have new: "layer_step p acc r = acc @ [r]" "\<forall>e \<in> set (po_rules p). pr_pattern e \<noteq> pr_pattern r"
      by (auto simp: layer_step_def Let_def list_ex_iff split: if_splits)
    with k show ?thesis by (intro exI [of _ "r # kept"]) auto
  qed
qed auto

subsection \<open>Approvals\<close>

lemma requirement_cases:
  "can_proceed (requirement_of a c rm d) \<longleftrightarrow> d = DAllow"
  "requirement_requires_approval (requirement_of a c rm d) \<longleftrightarrow>
     d = DPrompt \<and> prompt_is_rejected_by_policy a (is_prompt_rule rm) = None"
  "is_forbidden (requirement_of a c rm d) \<longleftrightarrow>
     d = DForbidden \<or> d = DPrompt \<and> prompt_is_rejected_by_policy a (is_prompt_rule rm) \<noteq> None"
  by (auto simp: requirement_of_def skip_def needs_approval_def split: decision.split option.split)

lemma requirement_trichotomy:
  "can_proceed r \<longleftrightarrow> \<not> is_forbidden r \<and> \<not> requirement_requires_approval r"
  by (cases r) simp_all

definition pre_approved :: "manager \<Rightarrow> string list \<Rightarrow> bool" where
  "pre_approved m c \<longleftrightarrow> join '' '' c \<in> pm_session m \<or> (\<exists>a \<in> set (pm_trusted m). prefix (am_pattern a) c)"

lemma check_approval_eq:
  "check_approval lib m c =
     (if pre_approved m c then skip
      else requirement_of (mc_approval (pm_config m)) c (check (pm_policy m) c)
             (decide (pm_policy m) (heuristics_decision lib m) c))"
  by (auto simp: check_approval_def pre_approved_def list_ex_iff trusted.hit_iff decide_def Let_def)

lemma needs_approval_requires [simp]: "requirement_requires_approval (needs_approval r)"
  "\<not> can_proceed (needs_approval r)" "\<not> is_forbidden (needs_approval r)" "can_proceed skip"
  "\<not> is_forbidden skip" "\<not> requirement_requires_approval skip"
  by (simp_all add: needs_approval_def skip_def)

lemma forbidden_not_requires: "is_forbidden r \<Longrightarrow> \<not> requirement_requires_approval r"
  by (cases r) simp_all

lemma batch_loop_cases:
  "is_forbidden (batch_loop lib m flag reasons cs) \<longleftrightarrow> (\<exists>c \<in> set cs. is_forbidden (check_approval lib m c))"
  "requirement_requires_approval (batch_loop lib m flag reasons cs) \<longleftrightarrow>
     (\<forall>c \<in> set cs. \<not> is_forbidden (check_approval lib m c))
     \<and> (flag \<or> (\<exists>c \<in> set cs. requirement_requires_approval (check_approval lib m c)))"
  by (induction lib m flag reasons cs rule: batch_loop.induct)
    (auto simp: Let_def forbidden_not_requires split: if_splits)

subsection \<open>Rule texts\<close>

fun show_decision :: "decision \<Rightarrow> string" where
  "show_decision DAllow = ''allow''"
| "show_decision DPrompt = ''prompt''"
| "show_decision DForbidden = ''forbidden''"

definition show_rule :: "prefix_rule \<Rightarrow> string" where
  "show_rule r = show_decision (pr_decision r) @ '': '' @ join '' '' (pr_pattern r)"

lemma parse_show_decision: "parse_decision (trim (show_decision d)) = Inr d"
  by (cases d; simp only: show_decision.simps) code_simp+

lemma show_decision_no_colon: "CHR '':'' \<notin> set (show_decision d)"
  by (cases d) simp_all

lemma split_once_append: "d \<notin> set a \<Longrightarrow> split_once d (a @ d # b) = Some (a, b)"
  by (induction a) auto

lemma clean_command_words:
  "clean_command ws \<longleftrightarrow> ws \<noteq> [] \<and> (\<forall>w \<in> set ws. w \<noteq> [] \<and> (\<forall>c \<in> set w. \<not> is_whitespace c))"
  by (auto simp: clean_command_def list_all_iff)

lemma clean_join_ends:
  "clean_command ws \<Longrightarrow> join sep ws \<noteq> [] \<and> hd (join sep ws) = hd (hd ws) \<and> last (join sep ws) = last (last ws)"
proof (induction sep ws rule: join.induct)
  case (3 sep x y xs)
  then have "clean_command (y # xs)" "x \<noteq> []" by (auto simp: clean_command_words)
  with 3 show ?case by (simp add: last_append)
qed (auto simp: clean_command_words)

lemma whitespace_chars [simp]: "is_whitespace (CHR 0x0A)" "is_whitespace (CHR 0x0D)"
  by (simp_all add: is_whitespace_def)

lemma clean_join_solid:
  assumes "clean_command ws"
  shows "\<not> is_whitespace (hd (join sep ws))" "\<not> is_whitespace (last (join sep ws))"
proof -
  have solid: "\<not> is_whitespace c" if "w \<in> set ws" "c \<in> set w" for w c
    using assms that by (auto simp: clean_command_words)
  have "hd ws \<in> set ws" "last ws \<in> set ws" "hd ws \<noteq> []" "last ws \<noteq> []"
    using assms by (auto simp: clean_command_words)
  then have "\<not> is_whitespace (hd (hd ws))" "\<not> is_whitespace (last (last ws))"
    using solid hd_in_set last_in_set by blast+
  with clean_join_ends [OF assms, of sep]
  show "\<not> is_whitespace (hd (join sep ws))" "\<not> is_whitespace (last (join sep ws))" by simp_all
qed

lemma trim_solid: "s \<noteq> [] \<Longrightarrow> \<not> is_whitespace (hd s) \<Longrightarrow> \<not> is_whitespace (last s) \<Longrightarrow> trim s = s"
  unfolding trim_def by (rule trim_matches_id) simp

lemma trim_space_Cons: "trim (CHR '' '' # s) = trim s"
  by (simp add: trim_def trim_matches_def)

lemma parse_pattern_join:
  assumes "clean_command ws"
  shows "parse_pattern (trim (CHR '' '' # join '' '' ws)) = ws"
  using assms clean_join_ends [OF assms, of "'' ''"] clean_join_solid [OF assms, of "'' ''"]
    split_whitespace_join [of ws]
  by (simp add: trim_space_Cons trim_solid parse_pattern_def clean_command_words)

lemma parse_show_rule:
  assumes "clean_command (pr_pattern r)"
  shows "parse_rule_line (show_rule r) = Inr r"
proof -
  have "split_once CHR '':'' (show_rule r) = Some (show_decision (pr_decision r), CHR '' '' # join '' '' (pr_pattern r))"
    using split_once_append [OF show_decision_no_colon] by (simp add: show_rule_def)
  then show ?thesis
    by (simp add: parse_rule_line_def parse_show_decision parse_pattern_join [OF assms] new_prefix_rule_def)
qed

lemma show_decision_head: "\<exists>c cs. show_decision d = c # cs \<and> \<not> is_whitespace c \<and> c \<noteq> CHR ''#'' \<and> c \<noteq> CHR ''/''"
  by (cases d) (auto simp: is_whitespace_def)

lemma trim_show_rule:
  assumes "clean_command (pr_pattern r)"
  shows "trim (show_rule r) = show_rule r" "\<not> is_whitespace (last (show_rule r))"
proof -
  have ne: "join '' '' (pr_pattern r) \<noteq> []" using clean_join_ends [OF assms] by blast
  then have last: "last (show_rule r) = last (join '' '' (pr_pattern r))" by (simp add: show_rule_def)
  then show "\<not> is_whitespace (last (show_rule r))" using clean_join_solid(2) [OF assms] by simp
  moreover obtain c cs where "show_decision (pr_decision r) = c # cs" "\<not> is_whitespace c"
    using show_decision_head by blast
  ultimately show "trim (show_rule r) = show_rule r"
    by (intro trim_solid) (simp_all add: show_rule_def)
qed

lemma join_chars: "set (join sep ws) \<subseteq> set sep \<union> (\<Union>w \<in> set ws. set w)"
  by (induction sep ws rule: join.induct) auto

lemma show_rule_one_line:
  assumes "clean_command (pr_pattern r)"
  shows "CHR 0x0A \<notin> set (show_rule r)"
proof -
  have "CHR 0x0A \<notin> set w" if "w \<in> set (pr_pattern r)" for w
  proof
    assume "CHR 0x0A \<in> set w"
    with assms that have "\<not> is_whitespace (CHR 0x0A)" unfolding clean_command_words by blast
    then show False by simp
  qed
  then have "CHR 0x0A \<notin> set (join '' '' (pr_pattern r))"
    using join_chars [of "'' ''" "pr_pattern r"] by auto
  then show ?thesis by (cases "pr_decision r") (simp_all add: show_rule_def)
qed

lemma split_char_lines:
  "\<forall>l \<in> set ls. d \<notin> set l \<Longrightarrow> split_char d (concat (map (\<lambda>l. l @ [d]) ls)) = ls @ [[]]"
  by (induction ls) (simp_all add: split_char_append)

lemma strip_cr_id: "l \<noteq> [] \<Longrightarrow> last l \<noteq> CHR 0x0D \<Longrightarrow> strip_cr l = l"
  by (auto simp: strip_cr_def strip_suffix_Some split: option.split)

lemma str_lines_rules:
  assumes "\<forall>r \<in> set rs. clean_command (pr_pattern r)"
  shows "str_lines (concat (map (\<lambda>r. show_rule r @ [CHR 0x0A]) rs)) = map show_rule rs"
proof -
  have "split_char (CHR 0x0A) (concat (map (\<lambda>r. show_rule r @ [CHR 0x0A]) rs)) = map show_rule rs @ [[]]"
    using split_char_lines [of "map show_rule rs" "CHR 0x0A"] assms show_rule_one_line by (simp add: comp_def)
  moreover have "strip_cr (show_rule r) = show_rule r" if "r \<in> set rs" for r
  proof (rule strip_cr_id)
    obtain c cs where "show_decision (pr_decision r) = c # cs" using show_decision_head by blast
    then show "show_rule r \<noteq> []" by (simp add: show_rule_def)
    show "last (show_rule r) \<noteq> CHR 0x0D" using trim_show_rule(2) [of r] assms that by auto
  qed
  ultimately show ?thesis by (simp add: str_lines_def)
qed

lemma parse_lines_rules:
  "\<forall>r \<in> set rs. clean_command (pr_pattern r) \<Longrightarrow> parse_lines n (map show_rule rs) = Inr rs"
proof (induction rs arbitrary: n)
  case (Cons r rs)
  obtain c cs where head: "show_decision (pr_decision r) = c # cs" "c \<noteq> CHR ''#''" "c \<noteq> CHR ''/''"
    using show_decision_head by blast
  have "trim (show_rule r) = show_rule r" "parse_rule_line (show_rule r) = Inr r"
    using Cons.prems by (simp_all add: trim_show_rule parse_show_rule)
  moreover have "show_rule r \<noteq> []" "\<not> starts_with (show_rule r) ''#''" "\<not> starts_with (show_rule r) ''//''"
    using head by (simp_all add: show_rule_def)
  ultimately show ?case using Cons by (simp add: Let_def)
qed simp

subsection \<open>Concrete instances\<close>

definition rule :: "string list \<Rightarrow> decision \<Rightarrow> prefix_rule" where
  "rule p d = new_prefix_rule p d"

definition never_manager :: manager where
  "never_manager = new_manager [RootDir] (default_config\<lparr>mc_approval := Never\<rparr>)"

subsection \<open>Properties\<close>

text \<open>C25: a command is decided by the first rule whose pattern is a prefix of it and, when there is none,
  left to the heuristics; so a rule behind one with a more general pattern never decides.\<close>

theorem first_match_wins:
  "(check p c = PrefixRuleMatch r d \<longleftrightarrow> d = pr_decision r \<and>
      (\<exists>before after. po_rules p = before @ r # after \<and> prefix (pr_pattern r) c
         \<and> (\<forall>b \<in> set before. \<not> prefix (pr_pattern b) c)))
   \<and> (is_policy_match (check p c) \<longleftrightarrow> (\<exists>r \<in> set (po_rules p). prefix (pr_pattern r) c))
   \<and> (g \<in> set before \<and> prefix (pr_pattern g) (pr_pattern r) \<longrightarrow>
        check \<lparr>po_rules = before @ r # after\<rparr> c = check \<lparr>po_rules = before @ after\<rparr> c)"
proof (intro conjI impI)
  have "check p c = PrefixRuleMatch r d \<longleftrightarrow> d = pr_decision r \<and> rules.first_hit (po_rules p) c = Some r"
    by (auto simp: check_def check_rules_first_hit split: option.splits)
  then show "check p c = PrefixRuleMatch r d \<longleftrightarrow> d = pr_decision r \<and>
      (\<exists>before after. po_rules p = before @ r # after \<and> prefix (pr_pattern r) c
         \<and> (\<forall>b \<in> set before. \<not> prefix (pr_pattern b) c))"
    unfolding rules.first_hit_Some .
  have "is_policy_match (check p c) \<longleftrightarrow> rules.first_hit (po_rules p) c \<noteq> None"
    by (auto simp: check_def check_rules_first_hit split: option.splits)
  then show "is_policy_match (check p c) \<longleftrightarrow> (\<exists>r \<in> set (po_rules p). prefix (pr_pattern r) c)"
    unfolding rules.first_hit_None by blast
  assume "g \<in> set before \<and> prefix (pr_pattern g) (pr_pattern r)"
  then show "check \<lparr>po_rules = before @ r # after\<rparr> c = check \<lparr>po_rules = before @ after\<rparr> c"
    using rules.first_hit_shadowed [of g before r after c] by (simp add: check_def check_rules_first_hit)
qed

theorem first_match_wins_witness:
  "check \<lparr>po_rules = [rule [''git''] DPrompt, rule [''git'', ''push''] DForbidden]\<rparr> [''git'', ''push'', ''-f'']
     = check \<lparr>po_rules = [rule [''git''] DPrompt]\<rparr> [''git'', ''push'', ''-f'']"
proof -
  have "rule [''git''] DPrompt \<in> set [rule [''git''] DPrompt]
      \<and> prefix (pr_pattern (rule [''git''] DPrompt)) (pr_pattern (rule [''git'', ''push''] DForbidden))"
    by (simp add: rule_def new_prefix_rule_def)
  with first_match_wins [of undefined "[''git'', ''push'', ''-f'']" "rule [''git'', ''push''] DForbidden" undefined
      "rule [''git''] DPrompt" "[rule [''git''] DPrompt]" "[]"]
  show ?thesis by simp
qed

text \<open>a list of commands gets the most restrictive of their decisions, and one match per command.\<close>

theorem check_multiple_most_restrictive:
  "pe_decision (check_multiple p cs h) = Max (insert DAllow (set (map (decide p h) cs)))
   \<and> pe_matched (check_multiple p cs h) = map (check p) cs"
  by (simp add: check_multiple_eq foldl_max_decision del: list.set_map)

text \<open>merging a layer never changes what a rule already in the policy decides for its own pattern:
  the rules before are kept in order and the new ones have patterns of their own.\<close>

theorem layer_keeps_rules:
  "\<exists>added. po_rules (prepend_layer p rs) = added @ po_rules p \<and> set added \<subseteq> set rs
     \<and> (\<forall>r \<in> set added. \<forall>e \<in> set (po_rules p). pr_pattern e \<noteq> pr_pattern r)"
  using layer_steps [of p "[]" rs] by (simp add: prepend_layer_def)

theorem layer_keeps_rules_witness:
  "\<exists>added. po_rules (prepend_layer \<lparr>po_rules = [rule [''a''] DAllow]\<rparr> [rule [''a''] DPrompt, rule [''b''] DPrompt])
     = added @ [rule [''a''] DAllow]"
  using layer_keeps_rules [of "\<lparr>po_rules = [rule [''a''] DAllow]\<rparr>" "[rule [''a''] DPrompt, rule [''b''] DPrompt]"]
  by auto

text \<open>but later, lower layers go in front: a broader rule of a user file overrides a narrower one of
  the project file that was loaded first.\<close>

theorem lower_layer_overrides:
  "(let project = [rule [''git'', ''push''] DForbidden]; user = [rule [''git''] DAllow];
        merged = prepend_layer (prepend_layer empty_policy project) user
    in match_decision (check merged [''git'', ''push'']) = DAllow
       \<and> match_decision (check (prepend_layer empty_policy project) [''git'', ''push'']) = DForbidden)"
  by code_simp

text \<open>The specification of an approval, on the rules as they are listed: the first rule whose pattern begins the
  command governs it, else the heuristics; a prompt is refused by the mode \<open>Never\<close>, and by a mode \<open>Reject\<close> with the
  flag for prompts of that origin.\<close>

definition governing_rule :: "manager \<Rightarrow> string list \<Rightarrow> prefix_rule option" where
  "governing_rule m c = find (\<lambda>r. prefix (pr_pattern r) c) (po_rules (pm_policy m))"

definition heuristically_allowed :: "manager \<Rightarrow> string list \<Rightarrow> bool" where
  "heuristically_allowed m c \<longleftrightarrow> mc_use_heuristics (pm_config m) \<and> c \<noteq> [] \<and> hd c \<in> set safe_commands"

definition heuristically_forbidden :: "shell_lib \<Rightarrow> manager \<Rightarrow> string list \<Rightarrow> bool" where
  "heuristically_forbidden lib m c \<longleftrightarrow>
     mc_use_heuristics (pm_config m) \<and> c \<noteq> [] \<and> hd c \<notin> set safe_commands \<and> command_might_be_dangerous lib c
     \<and> ''--dry-run'' \<notin> set c \<and> ''-n'' \<notin> set c"

definition allowed_by :: "manager \<Rightarrow> string list \<Rightarrow> bool" where
  "allowed_by m c \<longleftrightarrow> (case governing_rule m c of Some r \<Rightarrow> pr_decision r = DAllow | None \<Rightarrow> heuristically_allowed m c)"

definition forbidden_by :: "shell_lib \<Rightarrow> manager \<Rightarrow> string list \<Rightarrow> bool" where
  "forbidden_by lib m c \<longleftrightarrow>
     (case governing_rule m c of Some r \<Rightarrow> pr_decision r = DForbidden | None \<Rightarrow> heuristically_forbidden lib m c)"

definition prompt_refused :: "manager \<Rightarrow> string list \<Rightarrow> bool" where
  "prompt_refused m c \<longleftrightarrow>
     (case mc_approval (pm_config m) of
        Never \<Rightarrow> True
      | Reject rc \<Rightarrow> if governing_rule m c = None then rc_sandbox_approval rc else rc_rules rc
      | _ \<Rightarrow> False)"

lemma governing_check:
  "check (pm_policy m) c =
     (case governing_rule m c of Some r \<Rightarrow> PrefixRuleMatch r (pr_decision r) | None \<Rightarrow> HeuristicsRuleMatch DPrompt)"
  by (simp add: check_def check_rules_first_hit governing_rule_def rules.first_hit_def rules.hit_iff)

lemma heuristics_cases:
  "heuristics_decision lib m c = DAllow \<longleftrightarrow> heuristically_allowed m c"
  "heuristics_decision lib m c = DForbidden \<longleftrightarrow> heuristically_forbidden lib m c"
  by (cases c; auto simp: heuristics_decision_def heuristically_allowed_def heuristically_forbidden_def list_ex_iff)+

lemma decide_cases:
  "decide (pm_policy m) (heuristics_decision lib m) c = DAllow \<longleftrightarrow> allowed_by m c"
  "decide (pm_policy m) (heuristics_decision lib m) c = DForbidden \<longleftrightarrow> forbidden_by lib m c"
  unfolding decide_def governing_check
  by (cases "governing_rule m c"; simp add: resolve_decision_def allowed_by_def forbidden_by_def heuristics_cases)+

lemma rejected_cases:
  assumes "decide (pm_policy m) (heuristics_decision lib m) c = DPrompt"
  shows "prompt_is_rejected_by_policy (mc_approval (pm_config m)) (is_prompt_rule (check (pm_policy m) c)) \<noteq> None \<longleftrightarrow> prompt_refused m c"
  using assms unfolding decide_def governing_check
  by (cases "governing_rule m c"; cases "mc_approval (pm_config m)")
    (simp_all add: resolve_decision_def is_prompt_rule_def prompt_is_rejected_by_policy_def prompt_refused_def)

text \<open>C10: what a command needs. A command approved for the session or matched by a trusted pattern proceeds. Any
  other proceeds exactly when it is allowed by the rule that governs it or, without one, by the heuristics; is forbidden
  exactly when that verdict is forbidden, or is neither and the approval mode refuses its prompt; and asks in the
  remaining case. The first rule whose pattern begins the command governs it.\<close>

theorem approval_outcome:
  "(can_proceed (check_approval lib m c) \<longleftrightarrow> pre_approved m c \<or> allowed_by m c)
   \<and> (is_forbidden (check_approval lib m c) \<longleftrightarrow>
        \<not> pre_approved m c \<and> (forbidden_by lib m c \<or> \<not> allowed_by m c \<and> prompt_refused m c))
   \<and> (requirement_requires_approval (check_approval lib m c) \<longleftrightarrow>
        \<not> pre_approved m c \<and> \<not> allowed_by m c \<and> \<not> forbidden_by lib m c \<and> \<not> prompt_refused m c)"
proof (cases "pre_approved m c")
  case False
  let ?d = "decide (pm_policy m) (heuristics_decision lib m) c"
  have r: "check_approval lib m c = requirement_of (mc_approval (pm_config m)) c (check (pm_policy m) c) ?d"
    using False by (simp add: check_approval_eq)
  show ?thesis
  proof (cases ?d)
    case DPrompt
    then show ?thesis unfolding r requirement_cases decide_cases [symmetric, where lib = lib] using False rejected_cases [of m lib c] by auto
  qed (use False in \<open>simp_all add: r requirement_cases decide_cases [symmetric, where lib = lib]\<close>)
qed (simp add: check_approval_eq)

theorem approval_outcome_witness:
  "is_forbidden (check_approval plain_lib never_manager [''make''])
   \<and> requirement_requires_approval (check_approval plain_lib (never_manager\<lparr>pm_config := default_config\<rparr>) [''make''])"
proof -
  have "\<not> pre_approved never_manager [''make'']" "\<not> allowed_by never_manager [''make'']" "prompt_refused never_manager [''make'']"
    "\<not> pre_approved (never_manager\<lparr>pm_config := default_config\<rparr>) [''make'']"
    "\<not> allowed_by (never_manager\<lparr>pm_config := default_config\<rparr>) [''make'']"
    "\<not> prompt_refused (never_manager\<lparr>pm_config := default_config\<rparr>) [''make'']"
    "\<not> forbidden_by plain_lib (never_manager\<lparr>pm_config := default_config\<rparr>) [''make'']"
    by code_simp+
  with approval_outcome [of plain_lib never_manager "[''make'']"]
    approval_outcome [of plain_lib "never_manager\<lparr>pm_config := default_config\<rparr>" "[''make'']"]
  show ?thesis by blast
qed

text \<open>a batch is forbidden exactly when a command of it is, needs approval when none is forbidden and one
  needs it, and proceeds exactly when all proceed.\<close>

theorem batch_combines:
  "(is_forbidden (check_approval_batch lib m cs) \<longleftrightarrow> (\<exists>c \<in> set cs. is_forbidden (check_approval lib m c)))
   \<and> (can_proceed (check_approval_batch lib m cs) \<longleftrightarrow> (\<forall>c \<in> set cs. can_proceed (check_approval lib m c)))"
  unfolding check_approval_batch_def
  using requirement_trichotomy batch_loop_cases [of lib m False "[]" cs] by blast

theorem batch_combines_witness:
  "can_proceed (check_approval_batch plain_lib never_manager [[''ls''], [''pwd'']])"
proof -
  have "can_proceed (check_approval plain_lib never_manager [''ls''])"
    "can_proceed (check_approval plain_lib never_manager [''pwd''])" by code_simp+
  with batch_combines [of plain_lib never_manager "[[''ls''], [''pwd'']]"] show ?thesis by simp
qed

text \<open>approving a command for the session lets that command proceed and changes the requirement of no
  other command whose words have no white space; clearing the approvals undoes it.\<close>

theorem session_approval:
  assumes "clean_command c" "clean_command c'"
  shows "check_approval lib (approve_command c m) c' = (if c' = c then skip else check_approval lib m c')
    \<and> (pm_session m = {} \<longrightarrow> clear_session_approvals (approve_command c m) = m)"
proof -
  have "join '' '' c' = join '' '' c \<longleftrightarrow> c' = c" using clean_join_inj assms by blast
  moreover have "heuristics_decision lib (approve_command c m) = heuristics_decision lib m"
    by (rule ext) (simp add: heuristics_decision_def approve_command_def)
  ultimately show ?thesis
    by (auto simp: check_approval_eq pre_approved_def approve_command_def clear_session_approvals_def)
qed

theorem session_approval_witness:
  "check_approval plain_lib (approve_command [''make'', ''x''] never_manager) [''make'', ''x''] = skip
   \<and> check_approval plain_lib (approve_command [''make'', ''x''] never_manager) [''make'']
       = check_approval plain_lib never_manager [''make'']"
  using session_approval [of "[''make'', ''x'']" "[''make'', ''x'']" plain_lib never_manager]
    session_approval [of "[''make'', ''x'']" "[''make'']" plain_lib never_manager]
  by (simp add: clean_command_def is_whitespace_def)

text \<open>the heuristics look at the first word only: a wrapper or a tool that can delete is allowed before the
  dangerous-command detector is asked, and any argument \<open>-n\<close> turns a forbidden command into a prompt.\<close>

theorem heuristics_bypass:
  "heuristics_decision plain_lib (with_defaults [RootDir]) [''env'', ''rm'', ''-rf'', ''/''] = DAllow
   \<and> command_might_be_dangerous plain_lib [''env'', ''rm'', ''-rf'', ''/'']
   \<and> heuristics_decision plain_lib (with_defaults [RootDir]) [''find'', ''.'', ''-delete''] = DAllow
   \<and> heuristics_decision plain_lib (with_defaults [RootDir]) [''rm'', ''-rf'', ''/''] = DForbidden
   \<and> heuristics_decision plain_lib (with_defaults [RootDir]) [''rm'', ''-rf'', ''/'', ''-n''] = DPrompt"
  by code_simp

text \<open>C37: a rule file written from rules with clean patterns reads back as those rules in order.\<close>

theorem rule_file_round_trip:
  assumes "\<forall>r \<in> set rs. clean_command (pr_pattern r)"
  shows "parse_simple (concat (map (\<lambda>r. show_rule r @ [CHR 0x0A]) rs)) = Inr rs"
  unfolding parse_simple_def str_lines_rules [OF assms] by (rule parse_lines_rules [OF assms])

theorem rule_file_round_trip_witness:
  "parse_simple (concat (map (\<lambda>r. show_rule r @ [CHR 0x0A])
       [rule [''git'', ''push''] DForbidden, rule [''ls''] DAllow]))
     = Inr [rule [''git'', ''push''] DForbidden, rule [''ls''] DAllow]"
  by (rule rule_file_round_trip) (simp add: rule_def new_prefix_rule_def clean_command_def is_whitespace_def)

text \<open>a colon decides the format of a line before the equals sign, so a pattern with a colon cannot be
  written in the second format; and a rule without a pattern matches every command.\<close>

theorem rule_line_surprises:
  "parse_rule_line ''npm run build:prod = allow'' = Inl [''Invalid decision: npm run build'']
   \<and> parse_rule_line ''allow:'' = Inr (rule [] DAllow)
   \<and> rule_matches (rule [] DAllow) c"
proof -
  have "parse_rule_line ''npm run build:prod = allow'' = Inl [''Invalid decision: npm run build'']" by code_simp
  moreover have "parse_rule_line ''allow:'' = Inr (rule [] DAllow)" by code_simp
  moreover have "rule_matches (rule [] DAllow) c" by (simp add: rules.hit_iff rule_def new_prefix_rule_def)
  ultimately show ?thesis by blast
qed

end
