(* ===== verification/Utf8_Text.thy ===== *)
theory Utf8_Text
  imports VT_Prelude "HOL-Library.Monad_Syntax"
begin

text \<open>
  Rust's \<open>str\<close> for text the user edits: a list of Unicode scalar values addressed by byte offsets of its UTF-8
  encoding. Slicing at an offset that is not a character boundary panics, which is the value \<open>None\<close> here.
  Every fact is stated on a text split at a character, \<open>l @ r\<close> with the offset \<open>blen l\<close>. The table of
  alphanumeric characters is a parameter of the functions that use it.
\<close>

type_synonym rchar = nat
type_synonym rtext = "rchar list"

definition len_utf8 :: "rchar \<Rightarrow> nat" where
  "len_utf8 c = (if c < 0x80 then 1 else if c < 0x800 then 2 else if c < 0x10000 then 3 else 4)"

fun blen :: "rtext \<Rightarrow> nat" where
  "blen [] = 0"
| "blen (c # s) = len_utf8 c + blen s"

fun split_at_byte :: "rtext \<Rightarrow> nat \<Rightarrow> (rtext \<times> rtext) option" where
  "split_at_byte s 0 = Some ([], s)"
| "split_at_byte [] (Suc p) = None"
| "split_at_byte (c # s) (Suc p) =
     (if len_utf8 c \<le> Suc p
      then map_option (\<lambda>(l, r). (c # l, r)) (split_at_byte s (Suc p - len_utf8 c))
      else None)"

definition is_char_boundary :: "rtext \<Rightarrow> nat \<Rightarrow> bool" where
  "is_char_boundary s p \<longleftrightarrow> split_at_byte s p \<noteq> None"

definition slice_to :: "rtext \<Rightarrow> nat \<Rightarrow> rtext option" where
  "slice_to s p = map_option fst (split_at_byte s p)"

definition slice_from :: "rtext \<Rightarrow> nat \<Rightarrow> rtext option" where
  "slice_from s p = map_option snd (split_at_byte s p)"

definition slice :: "rtext \<Rightarrow> nat \<Rightarrow> nat \<Rightarrow> rtext option" where
  "slice s a b = (if b < a then None else Option.bind (slice_to s b) (\<lambda>l. slice_from l a))"

text \<open>\<open>String::replace_range\<close>.\<close>

definition splice :: "rtext \<Rightarrow> nat \<Rightarrow> nat \<Rightarrow> rtext \<Rightarrow> rtext option" where
  "splice s a b t =
     (if b < a then None
      else do { l \<leftarrow> slice_to s a; r \<leftarrow> slice_from s b; Some (l @ t @ r) })"

fun find_char :: "(rchar \<Rightarrow> bool) \<Rightarrow> rtext \<Rightarrow> nat option" where
  "find_char P [] = None"
| "find_char P (c # s) = (if P c then Some 0 else map_option ((+) (len_utf8 c)) (find_char P s))"

fun rfind_char :: "(rchar \<Rightarrow> bool) \<Rightarrow> rtext \<Rightarrow> nat option" where
  "rfind_char P [] = None"
| "rfind_char P (c # s) =
     (case rfind_char P s of Some i \<Rightarrow> Some (len_utf8 c + i) | None \<Rightarrow> if P c then Some 0 else None)"

text \<open>\<open>char_indices().nth(k)\<close>: the offset of the character with index \<open>k\<close>.\<close>

fun nth_offset :: "rtext \<Rightarrow> nat \<Rightarrow> nat option" where
  "nth_offset [] k = None"
| "nth_offset (c # s) 0 = Some 0"
| "nth_offset (c # s) (Suc k) = map_option ((+) (len_utf8 c)) (nth_offset s k)"

fun first_or :: "rchar \<Rightarrow> rtext \<Rightarrow> rchar" where
  "first_or d [] = d"
| "first_or d (c # s) = c"

definition nl :: rchar where "nl = 10"
definition space :: rchar where "space = 32"

fun split_nl :: "rtext \<Rightarrow> rtext list" where
  "split_nl [] = [[]]"
| "split_nl (c # s) =
     (if c = nl then [] # split_nl s
      else case split_nl s of [] \<Rightarrow> [[c]] | w # ws \<Rightarrow> (c # w) # ws)"

fun join_nl :: "rtext list \<Rightarrow> rtext" where
  "join_nl [] = []"
| "join_nl [w] = w"
| "join_nl (w # ws) = w @ nl # join_nl ws"

text \<open>\<open>char::is_whitespace\<close>, the characters of the property White\_Space.\<close>

definition char_is_whitespace :: "rchar \<Rightarrow> bool" where
  "char_is_whitespace c \<longleftrightarrow>
     9 \<le> c \<and> c \<le> 13 \<or> c = 0x20 \<or> c = 0x85 \<or> c = 0xA0 \<or> c = 0x1680 \<or> 0x2000 \<le> c \<and> c \<le> 0x200A
     \<or> c = 0x2028 \<or> c = 0x2029 \<or> c = 0x202F \<or> c = 0x205F \<or> c = 0x3000"

definition rtrim_start :: "rtext \<Rightarrow> rtext" where
  "rtrim_start s = dropWhile char_is_whitespace s"

definition rtrim_end :: "rtext \<Rightarrow> rtext" where
  "rtrim_end s = rev (dropWhile char_is_whitespace (rev s))"

definition rtrim :: "rtext \<Rightarrow> rtext" where
  "rtrim s = rtrim_end (rtrim_start s)"

fun contains_text :: "rtext \<Rightarrow> rtext \<Rightarrow> bool" where
  "contains_text [] p \<longleftrightarrow> p = []"
| "contains_text (c # s) p \<longleftrightarrow> prefix p (c # s) \<or> contains_text s p"

section \<open>The bytes of a text\<close>

definition rt :: "string \<Rightarrow> rtext" where
  "rt s = map of_char s"

definition utf8_char :: "rchar \<Rightarrow> string" where
  "utf8_char c =
     map char_of
       (if c < 0x80 then [c]
        else if c < 0x800 then [0xC0 + c div 64, 0x80 + c mod 64]
        else if c < 0x10000 then [0xE0 + c div 4096, 0x80 + c div 64 mod 64, 0x80 + c mod 64]
        else [0xF0 + c div 262144, 0x80 + c div 4096 mod 64, 0x80 + c div 64 mod 64, 0x80 + c mod 64])"

definition utf8 :: "rtext \<Rightarrow> string" where
  "utf8 s = concat (map utf8_char s)"

text \<open>\<open>OsStr::to_str\<close>: the text whose encoding the bytes are, if there is one.\<close>

fun decode_bytes :: "nat list \<Rightarrow> rtext" where
  "decode_bytes (a # b # c # d # s) =
     (if a < 0x80 then a # decode_bytes (b # c # d # s)
      else if a < 0xE0 then ((a - 0xC0) * 64 + (b - 0x80)) # decode_bytes (c # d # s)
      else if a < 0xF0 then ((a - 0xE0) * 4096 + (b - 0x80) * 64 + (c - 0x80)) # decode_bytes (d # s)
      else ((a - 0xF0) * 262144 + (b - 0x80) * 4096 + (c - 0x80) * 64 + (d - 0x80)) # decode_bytes s)"
| "decode_bytes [a, b, c] =
     (if a < 0x80 then a # decode_bytes [b, c]
      else if a < 0xE0 then ((a - 0xC0) * 64 + (b - 0x80)) # decode_bytes [c]
      else [(a - 0xE0) * 4096 + (b - 0x80) * 64 + (c - 0x80)])"
| "decode_bytes [a, b] = (if a < 0x80 then [a, b] else [(a - 0xC0) * 64 + (b - 0x80)])"
| "decode_bytes s = s"

definition scalar_value :: "rchar \<Rightarrow> bool" where
  "scalar_value c \<longleftrightarrow> c < 0xD800 \<or> 0xDFFF < c \<and> c < 0x110000"

definition to_str :: "string \<Rightarrow> rtext option" where
  "to_str s =
     (let t = decode_bytes (map of_char s)
      in if utf8 t = s \<and> list_all scalar_value t then Some t else None)"

text \<open>The characters of a \<open>str\<close> given by its bytes.\<close>

definition chars_of :: "string \<Rightarrow> rtext" where
  "chars_of s = decode_bytes (map of_char s)"

text \<open>A predicate on ASCII characters, false of all others.\<close>

definition ascii_char :: "(char \<Rightarrow> bool) \<Rightarrow> rchar \<Rightarrow> bool" where
  "ascii_char P c \<longleftrightarrow> c < 128 \<and> P (char_of c)"

section \<open>Facts on a split text\<close>

named_theorems text_simps \<open>the string functions on a text split at a character boundary\<close>

lemma len_utf8_pos [simp]: "0 < len_utf8 c"
  by (simp add: len_utf8_def)

lemma len_utf8_neq_0 [simp]: "len_utf8 c \<noteq> 0"
  by (simp add: len_utf8_def)

lemma len_utf8_nl [simp]: "len_utf8 nl = Suc 0"
  by (simp add: len_utf8_def nl_def)

lemma len_utf8_space [simp]: "len_utf8 space = Suc 0" "space \<noteq> nl" "nl \<noteq> space"
  by (simp_all add: len_utf8_def space_def nl_def)

lemma blen_append [simp]: "blen (a @ b) = blen a + blen b"
  by (induction a) simp_all

lemma blen_0 [simp]: "blen s = 0 \<longleftrightarrow> s = []"
  by (cases s) simp_all

lemma blen_pos [simp]: "0 < blen s \<longleftrightarrow> s \<noteq> []"
  by (cases s) simp_all

lemma blen_rev [simp]: "blen (rev s) = blen s"
  by (induction s) simp_all

lemma split_at_byte_Cons:
  "0 < p \<Longrightarrow> split_at_byte (c # s) p =
     (if len_utf8 c \<le> p then map_option (\<lambda>(l, r). (c # l, r)) (split_at_byte s (p - len_utf8 c)) else None)"
  by (cases p) simp_all

lemma split_at_byte_append [text_simps, simp]: "split_at_byte (l @ r) (blen l) = Some (l, r)"
  by (induction l) (simp_all add: split_at_byte_Cons)

lemma split_at_byte_Some: "split_at_byte s p = Some (l, r) \<longleftrightarrow> s = l @ r \<and> p = blen l"
proof
  show "split_at_byte s p = Some (l, r) \<Longrightarrow> s = l @ r \<and> p = blen l"
  proof (induction s p arbitrary: l r rule: split_at_byte.induct)
    case (3 c s p)
    then obtain l' where "len_utf8 c \<le> Suc p" "l = c # l'" "split_at_byte s (Suc p - len_utf8 c) = Some (l', r)"
      by (auto split: if_splits)
    with 3 show ?case by auto
  qed auto
qed auto

lemma boundary_iff: "is_char_boundary s p \<longleftrightarrow> (\<exists>l r. s = l @ r \<and> p = blen l)"
  by (auto simp: is_char_boundary_def split_at_byte_Some)

lemma boundaryE:
  assumes "is_char_boundary s p"
  obtains l r where "s = l @ r" "p = blen l"
  using assms boundary_iff by blast

lemma boundary_append [text_simps, simp]: "is_char_boundary (l @ r) (blen l)"
  by (auto simp: boundary_iff)

lemma boundary_ends [simp]: "is_char_boundary s 0" "is_char_boundary s (blen s)"
  using boundary_append [of s "[]"] by (simp_all add: is_char_boundary_def)

lemma boundary_le: "is_char_boundary s p \<Longrightarrow> p \<le> blen s"
  by (auto simp: boundary_iff)

lemma split_at_byte_shift:
  "split_at_byte (l @ r) (blen l + k) = map_option (\<lambda>(a, b). (l @ a, b)) (split_at_byte r k)"
proof (induction l)
  case (Cons c l)
  then show ?case by (simp add: split_at_byte_Cons option.map_comp comp_def split_beta)
qed (simp add: option.map_ident)

lemma boundary_shift [text_simps]: "is_char_boundary (l @ r) (blen l + k) \<longleftrightarrow> is_char_boundary r k"
  by (simp add: is_char_boundary_def split_at_byte_shift)

lemma boundary_Cons [text_simps]:
  "is_char_boundary (c # s) k \<longleftrightarrow> k = 0 \<or> len_utf8 c \<le> k \<and> is_char_boundary s (k - len_utf8 c)"
  by (cases k) (auto simp: is_char_boundary_def split_at_byte_Cons)

lemma boundary_prefix:
  assumes "is_char_boundary (l @ r) p" "p \<le> blen l"
  shows "is_char_boundary l p"
  using assms
proof (induction l arbitrary: p)
  case (Cons c l)
  then show ?case by (auto simp: boundary_Cons)
qed simp

lemma append_eq_blen: "l @ r = l' @ r' \<Longrightarrow> blen l = blen l' \<Longrightarrow> l = l' \<and> r = r'"
  by (metis split_at_byte_append option.inject prod.inject)

lemma slice_to_append [text_simps, simp]: "slice_to (l @ r) (blen l) = Some l"
  by (simp add: slice_to_def)

lemma slice_from_append [text_simps, simp]: "slice_from (l @ r) (blen l) = Some r"
  by (simp add: slice_from_def)

lemma slice_from_0 [simp]: "slice_from s 0 = Some s" and slice_to_0 [simp]: "slice_to s 0 = Some []"
  by (simp_all add: slice_from_def slice_to_def)

lemma slice_from_end [simp]: "slice_from s (blen s) = Some []" and slice_to_end [simp]: "slice_to s (blen s) = Some s"
  using slice_from_append [of s "[]"] slice_to_append [of s "[]"] by simp_all

lemma slice_mid [text_simps, simp]: "slice (a @ b @ c) (blen a) (blen a + blen b) = Some b"
  using slice_to_append [of "a @ b" c] by (simp add: slice_def)

lemma slice_None: "b < a \<Longrightarrow> slice s a b = None"
  by (simp add: slice_def)

lemma slice_defined: "slice s a b \<noteq> None \<longleftrightarrow> a \<le> b \<and> is_char_boundary s a \<and> is_char_boundary s b"
proof
  assume "slice s a b \<noteq> None"
  then obtain l r l' r' where "a \<le> b" "s = l @ r" "b = blen l" "l = l' @ r'" "a = blen l'"
    by (auto simp: slice_def slice_to_def slice_from_def split_at_byte_Some bind_eq_Some_conv split: if_splits)
  then show "a \<le> b \<and> is_char_boundary s a \<and> is_char_boundary s b" using boundary_append [of "l' @ r'" r] by simp
next
  assume b: "a \<le> b \<and> is_char_boundary s a \<and> is_char_boundary s b"
  then obtain l r where s: "s = l @ r" "b = blen l" by (auto elim: boundaryE)
  with b have "is_char_boundary l a" by (auto intro: boundary_prefix)
  then obtain l' r' where "l = l' @ r'" "a = blen l'" by (auto elim: boundaryE)
  with s b slice_to_append [of "l' @ r'" r] show "slice s a b \<noteq> None" by (simp add: slice_def)
qed

lemma slice_split:
  assumes "a \<le> b" "is_char_boundary s a" "is_char_boundary s b"
  obtains l m r where "s = l @ m @ r" "a = blen l" "b = blen l + blen m"
proof -
  obtain l' r where s: "s = l' @ r" "b = blen l'" using assms by (auto elim: boundaryE)
  with assms have "is_char_boundary l' a" by (auto intro: boundary_prefix)
  then obtain l m where "l' = l @ m" "a = blen l" by (auto elim: boundaryE)
  with s that show ?thesis by simp
qed

lemma splice_mid [text_simps, simp]: "splice (l @ m @ r) (blen l) (blen l + blen m) t = Some (l @ t @ r)"
  using slice_from_append [of "l @ m" r] by (simp add: splice_def)

lemma splice_point [text_simps, simp]: "splice (l @ r) (blen l) (blen l) t = Some (l @ t @ r)"
  using splice_mid [of l "[]" r] by simp

lemma find_char_None: "find_char P s = None \<longleftrightarrow> (\<forall>c \<in> set s. \<not> P c)"
  by (induction s) auto

lemma find_char_append [text_simps]: "(\<forall>x \<in> set a. \<not> P x) \<Longrightarrow> P c \<Longrightarrow> find_char P (a @ c # b) = Some (blen a)"
  by (induction a) auto

lemma find_charE:
  assumes "find_char P s = Some i"
  obtains a c b where "s = a @ c # b" "i = blen a" "P c" "\<forall>x \<in> set a. \<not> P x"
  using assms
proof (induction s arbitrary: i thesis)
  case (Cons d s)
  show ?case
  proof (cases "P d")
    case True
    with Cons.prems(2) show ?thesis by (auto intro: Cons.prems(1) [of "[]"])
  next
    case False
    with Cons.prems(2) obtain j where j: "find_char P s = Some j" "i = len_utf8 d + j" by auto
    obtain a c b where "s = a @ c # b" "j = blen a" "P c" "\<forall>x \<in> set a. \<not> P x" using Cons.IH [OF _ j(1)] by blast
    with False j(2) show ?thesis by (intro Cons.prems(1) [of "d # a"]) auto
  qed
qed simp

lemma rfind_char_None: "rfind_char P s = None \<longleftrightarrow> (\<forall>c \<in> set s. \<not> P c)"
  by (induction s) (auto split: option.splits)

lemma rfind_char_append [text_simps]: "(\<forall>x \<in> set b. \<not> P x) \<Longrightarrow> P c \<Longrightarrow> rfind_char P (a @ c # b) = Some (blen a)"
proof (induction a)
  case Nil
  then have "rfind_char P b = None" by (simp add: rfind_char_None)
  with Nil show ?case by simp
qed simp

lemma rfind_charE:
  assumes "rfind_char P s = Some i"
  obtains a c b where "s = a @ c # b" "i = blen a" "P c" "\<forall>x \<in> set b. \<not> P x"
  using assms
proof (induction s arbitrary: i thesis)
  case (Cons d s)
  show ?case
  proof (cases "rfind_char P s")
    case None
    with Cons.prems(2) show ?thesis by (auto simp: rfind_char_None split: if_splits intro: Cons.prems(1) [of "[]"])
  next
    case (Some j)
    obtain a c b where "s = a @ c # b" "j = blen a" "P c" "\<forall>x \<in> set b. \<not> P x" using Cons.IH [OF _ Some] by blast
    with Some Cons.prems(2) show ?thesis by (intro Cons.prems(1) [of "d # a"]) auto
  qed
qed simp

lemma nth_offset_Some: "nth_offset s k = Some i \<longleftrightarrow> k < length s \<and> i = blen (take k s)"
  by (induction s k arbitrary: i rule: nth_offset.induct) auto

lemma nth_offset_None: "nth_offset s k = None \<longleftrightarrow> length s \<le> k"
  by (induction s k rule: nth_offset.induct) auto

lemma nth_offset_or: "(case nth_offset s k of None \<Rightarrow> blen s | Some i \<Rightarrow> i) = blen (take k s)"
proof (cases "length s \<le> k")
  case True
  then show ?thesis using nth_offset_None [of s k] by simp
next
  case False
  then show ?thesis using nth_offset_Some [of s k "blen (take k s)"] by simp
qed

lemma split_nl_neq_Nil [simp]: "split_nl s \<noteq> []"
  by (induction s) (auto split: list.split)

lemma join_split_nl [simp]: "join_nl (split_nl s) = s"
proof (induction s)
  case (Cons c s)
  obtain w ws where "split_nl s = w # ws" by (cases "split_nl s") auto
  with Cons show ?case by (cases ws) auto
qed simp

lemma join_nl_Cons: "ws \<noteq> [] \<Longrightarrow> join_nl (w # ws) = w @ nl # join_nl ws"
  by (cases ws) simp_all

lemma join_nl_append: "a \<noteq> [] \<Longrightarrow> b \<noteq> [] \<Longrightarrow> join_nl (a @ b) = join_nl a @ nl # join_nl b"
proof (induction a)
  case (Cons w a)
  then show ?case by (cases "a = []") (simp_all add: join_nl_Cons)
qed simp

lemma split_nl_no_nl: "w \<in> set (split_nl s) \<Longrightarrow> nl \<notin> set w"
  by (induction s arbitrary: w) (auto split: list.splits if_splits)

lemma split_nl_single: "nl \<notin> set s \<Longrightarrow> split_nl s = [s]"
  by (induction s) auto

lemma split_nl_append: "nl \<notin> set a \<Longrightarrow> split_nl (a @ nl # s) = a # split_nl s"
  by (induction a) auto

lemma split_join_nl: "ws \<noteq> [] \<Longrightarrow> \<forall>w \<in> set ws. nl \<notin> set w \<Longrightarrow> split_nl (join_nl ws) = ws"
proof (induction ws)
  case (Cons w ws)
  then show ?case by (cases "ws = []") (auto simp: join_nl_Cons split_nl_append split_nl_single)
qed simp

end
