(* ===== verification/Command_Validators.thy ===== *)
theory Command_Validators
  imports Paths_Facts Utf8_Text
begin

text \<open>
  The allow list of commands with argument validation,
  \<^verbatim>\<open>crates/codegen/vtcode-safety/src/exec_policy/command_validation.rs\<close>: which programs may run
  and which of their options and operands are accepted. Paths are checked against the workspace through
  the file system record of \<open>Paths_Model\<close>. An index loop over the arguments is a recursion over the
  rest of the list.
\<close>

subsection \<open>Path operands\<close>

definition normalize_workspace_root :: "filesystem \<Rightarrow> path \<Rightarrow> path rresult" where
  "normalize_workspace_root fs root =
     (if is_absolute root then Inr (normalize_path root)
      else case fs_cwd fs of
             Inl e \<Rightarrow> Inl [''failed to resolve current working directory'', e]
           | Inr cwd \<Rightarrow> Inr (normalize_path (path_join cwd root)))"

definition ensure_within_workspace :: "filesystem \<Rightarrow> path \<Rightarrow> path \<Rightarrow> unit rresult" where
  "ensure_within_workspace fs normalized_root candidate =
     bindr (ensure_path_within_workspace_resolved fs candidate normalized_root) (\<lambda>_. ok_unit)"

definition build_candidate_path :: "filesystem \<Rightarrow> path \<Rightarrow> path \<Rightarrow> string \<Rightarrow> path rresult" where
  "build_candidate_path fs root wd v =
     bindr (normalize_workspace_root fs root) (\<lambda>normalized_root.
       let raw_path = components v;
           candidate = (if is_absolute raw_path then normalize_path raw_path
                        else normalize_path (path_join (normalize_path wd) raw_path))
       in if \<not> path_starts_with candidate normalized_root
          then bail (''path '' @ quoted v @ '' escapes the workspace root'')
          else bindr (ensure_within_workspace fs normalized_root candidate) (\<lambda>_. Inr candidate))"

definition resolve_path :: "filesystem \<Rightarrow> path \<Rightarrow> path \<Rightarrow> string \<Rightarrow> path rresult" where
  "resolve_path fs root wd v =
     bindr (build_candidate_path fs root wd v) (\<lambda>base.
       if \<not> fs_exists fs base then bail (''path '' @ quoted v @ '' does not exist'')
       else if \<not> path_starts_with base root then bail (''path '' @ quoted v @ '' is outside the workspace root'')
       else Inr base)"

definition resolve_path_allow_new :: "filesystem \<Rightarrow> path \<Rightarrow> path \<Rightarrow> string \<Rightarrow> path rresult" where
  "resolve_path_allow_new fs root wd v =
     bindr (build_candidate_path fs root wd v) (\<lambda>candidate.
       if \<not> path_starts_with candidate root then bail (''path '' @ quoted v @ '' is outside the workspace root'')
       else Inr candidate)"

definition resolve_path_allow_dir :: "filesystem \<Rightarrow> path \<Rightarrow> path \<Rightarrow> string \<Rightarrow> path rresult" where
  "resolve_path_allow_dir fs root wd v =
     bindr (build_candidate_path fs root wd v) (\<lambda>candidate.
       if \<not> path_starts_with candidate root then bail (''path '' @ quoted v @ '' is outside the workspace root'')
       else Inr candidate)"

definition ensure_path_exists :: "filesystem \<Rightarrow> path \<Rightarrow> unit rresult" where
  "ensure_path_exists fs p =
     (if fs_exists fs p then ok_unit else bail (''path '' @ quoted (display_path p) @ '' does not exist''))"

definition ensure_is_file :: "filesystem \<Rightarrow> path \<Rightarrow> unit rresult" where
  "ensure_is_file fs p =
     (case fs_stat fs p of
        Inl e \<Rightarrow> Inl [''failed to inspect '' @ quoted (display_path p), e]
      | Inr (file, dir) \<Rightarrow> if file then ok_unit else bail (quoted (display_path p) @ '' is not a file''))"

definition parse_positive_int :: "string \<Rightarrow> nat rresult" where
  "parse_positive_int v =
     bindr (parse_u64 v) (\<lambda>n. if n = 0 then bail ''value must be greater than zero'' else Inr n)"

text \<open>The value of an option: missing, or checked by \<open>parse_positive_int\<close>.\<close>

definition positive_value :: "string \<Rightarrow> string \<Rightarrow> unit rresult" where
  "positive_value option_name v =
     bindr (with_context (''invalid value '' @ quoted v @ '' for '' @ quoted option_name) (parse_positive_int v)) (\<lambda>_. ok_unit)"

definition existing_file :: "filesystem \<Rightarrow> path \<Rightarrow> path \<Rightarrow> string \<Rightarrow> path rresult" where
  "existing_file fs root wd v =
     bindr (resolve_path fs root wd v) (\<lambda>p. bindr (ensure_is_file fs p) (\<lambda>_. Inr p))"

definition sanitize_working_dir :: "filesystem \<Rightarrow> path \<Rightarrow> string option \<Rightarrow> path rresult" where
  "sanitize_working_dir fs root working_dir =
     bindr (normalize_workspace_root fs root) (\<lambda>normalized_root.
       case working_dir of
         None \<Rightarrow> Inr normalized_root
       | Some dir \<Rightarrow>
           if trim dir = [] then Inr normalized_root
           else let candidate = normalize_path (path_join normalized_root (components dir))
                in if \<not> path_starts_with candidate normalized_root
                   then bail (''working directory '' @ quoted dir @ '' escapes the workspace root'')
                   else bindr (ensure_within_workspace fs normalized_root candidate) (\<lambda>_. Inr candidate))"

subsection \<open>Simple programs\<close>

definition unsupported :: "string \<Rightarrow> string \<Rightarrow> 'a rresult" where
  "unsupported command_name flag = bail (''unsupported '' @ command_name @ '' flag '' @ quoted flag)"

definition validate_allowed_flags :: "string list \<Rightarrow> string list \<Rightarrow> string \<Rightarrow> unit rresult" where
  "validate_allowed_flags args allowed_flags command_name =
     for_each (\<lambda>arg. if starts_with arg ''-'' \<and> arg \<notin> set allowed_flags then unsupported command_name arg else ok_unit) args"

definition validate_no_args :: "string list \<Rightarrow> string \<Rightarrow> unit rresult" where
  "validate_no_args args command_name =
     (if args = [] then ok_unit else bail (command_name @ '' does not accept arguments''))"

definition validate_echo :: "string list \<Rightarrow> unit rresult" where
  "validate_echo args = validate_allowed_flags args [''-n'', ''-e'', ''-E''] ''echo''"

definition validate_ls :: "filesystem \<Rightarrow> path \<Rightarrow> path \<Rightarrow> string list \<Rightarrow> unit rresult" where
  "validate_ls fs root wd args =
     for_each (\<lambda>arg.
       if starts_with arg ''-''
       then (if arg \<notin> {''-1'', ''-a'', ''-l''} then unsupported ''ls'' arg else ok_unit)
       else bindr (resolve_path fs root wd arg) (ensure_path_exists fs)) args"

definition validate_cat :: "filesystem \<Rightarrow> path \<Rightarrow> path \<Rightarrow> string list \<Rightarrow> unit rresult" where
  "validate_cat fs root wd args =
     bindr (for_each (\<lambda>arg.
              if starts_with arg ''-''
              then (if arg \<notin> {''-b'', ''-n'', ''-t''} then unsupported ''cat'' arg else ok_unit)
              else bindr (existing_file fs root wd arg) (\<lambda>_. ok_unit)) args)
       (\<lambda>_. if list_all (\<lambda>arg. starts_with arg ''-'') args
            then bail ''cat requires at least one readable file'' else ok_unit)"

text \<open>The first loop of \<open>validate_cp\<close>: the positional arguments and the recursive flag.\<close>

fun cp_scan :: "string list \<Rightarrow> bool \<Rightarrow> string list \<Rightarrow> (string list \<times> bool) rresult" where
  "cp_scan positional recursive [] = Inr (positional, recursive)"
| "cp_scan positional recursive (arg # args) =
     (if arg \<in> {''-r'', ''-R'', ''--recursive''} then cp_scan positional True args
      else if starts_with arg ''-'' then unsupported ''cp'' arg
      else cp_scan (positional @ [arg]) recursive args)"

definition check_cp_source :: "filesystem \<Rightarrow> path \<Rightarrow> path \<Rightarrow> bool \<Rightarrow> string \<Rightarrow> unit rresult" where
  "check_cp_source fs root wd allow_recursive source =
     bindr (resolve_path fs root wd source) (\<lambda>p.
       case fs_stat fs p of
         Inl e \<Rightarrow> Inl [''failed to inspect source '' @ quoted source, e]
       | Inr (file, dir) \<Rightarrow>
           if dir \<and> \<not> allow_recursive
           then bail (''copying directories requires the recursive flag for '' @ quoted source)
           else if \<not> file \<and> \<not> dir then bail (''unsupported source type for '' @ quoted source)
           else ok_unit)"

definition validate_cp :: "filesystem \<Rightarrow> path \<Rightarrow> path \<Rightarrow> string list \<Rightarrow> unit rresult" where
  "validate_cp fs root wd args =
     bindr (cp_scan [] False args) (\<lambda>(positional, allow_recursive).
       if length positional < 2 then bail ''cp requires a source and destination''
       else bindr (for_each (check_cp_source fs root wd allow_recursive) (butlast positional)) (\<lambda>_.
            bindr (resolve_path_allow_new fs root wd (last positional)) (\<lambda>dest_path.
              case path_parent dest_path of
                Some parent \<Rightarrow>
                  if \<not> fs_exists fs parent
                  then bail (''destination parent '' @ quoted (display_path parent) @ '' must exist'')
                  else ok_unit
              | None \<Rightarrow> ok_unit)))"

fun head_scan :: "string list \<Rightarrow> string list \<Rightarrow> string list rresult" where
  "head_scan positional [] = Inr positional"
| "head_scan positional (current # args) =
     (if current = ''-c'' \<or> current = ''-n''
      then (case args of
              [] \<Rightarrow> bail (''option '' @ quoted current @ '' requires a value'')
            | v # rest \<Rightarrow> bindr (positive_value current v) (\<lambda>_. head_scan positional rest))
      else if starts_with current ''-'' then unsupported ''head'' current
      else head_scan (positional @ [current]) args)"

definition validate_head :: "filesystem \<Rightarrow> path \<Rightarrow> path \<Rightarrow> string list \<Rightarrow> unit rresult" where
  "validate_head fs root wd args =
     bindr (head_scan [] args) (\<lambda>positional.
       if positional = [] then bail ''head requires at least one file''
       else for_each (\<lambda>file_name. bindr (existing_file fs root wd file_name) (\<lambda>_. ok_unit)) positional)"

definition validate_printenv :: "string list \<Rightarrow> unit rresult" where
  "validate_printenv args =
     (case args of
        [] \<Rightarrow> ok_unit
      | [name] \<Rightarrow>
          if name = [] \<or> \<not> list_all (\<lambda>ch. is_ascii_alphanumeric ch \<or> ch = CHR ''_'') name
          then bail (''invalid environment variable name '' @ quoted name) else ok_unit
      | _ \<Rightarrow> bail ''printenv accepts zero or one argument'')"

definition validate_pwd :: "string list \<Rightarrow> unit rresult" where
  "validate_pwd args = validate_no_args args ''pwd''"

definition rg_number_options :: "string list" where
  "rg_number_options = [''-A'', ''-B'', ''-C'', ''-d'', ''--max-depth'', ''-m'', ''--max-count'']"

definition rg_listing_flags :: "string list" where
  "rg_listing_flags = [''--files'', ''--files-with-matches'', ''--files-without-match'']"

text \<open>The option loop of \<open>validate_rg\<close>: the arguments it leaves and whether the pattern may be absent.\<close>

fun rg_scan :: "bool \<Rightarrow> string list \<Rightarrow> (string list \<times> bool) rresult" where
  "rg_scan no_pattern [] = Inr ([], no_pattern)"
| "rg_scan no_pattern (current # args) =
     (if current = ''--'' then Inr (args, no_pattern)
      else if current = ''--pre'' \<or> current = ''--pre-glob''
      then bail (''ripgrep preprocessor flag '' @ quoted current @ '' is not permitted for security reasons. This flag enables arbitrary command execution.'')
      else if current \<in> set rg_number_options
      then (case args of
              [] \<Rightarrow> bail (''option '' @ quoted current @ '' requires a value'')
            | v # rest \<Rightarrow> bindr (positive_value current v) (\<lambda>_. rg_scan no_pattern rest))
      else if current = ''-g'' \<or> current = ''--glob''
      then (case args of
              [] \<Rightarrow> bail (''option '' @ quoted current @ '' requires a value'')
            | v # rest \<Rightarrow>
                if v = [] then bail (''glob value for '' @ quoted current @ '' cannot be empty'')
                else rg_scan no_pattern rest)
      else if current \<in> {''-n'', ''-i'', ''-l''} then rg_scan no_pattern args
      else if current \<in> set rg_listing_flags then rg_scan True args
      else if starts_with current ''-'' then unsupported ''ripgrep'' current
      else Inr (current # args, no_pattern))"

definition validate_rg :: "filesystem \<Rightarrow> path \<Rightarrow> path \<Rightarrow> string list \<Rightarrow> unit rresult" where
  "validate_rg fs root wd args =
     bindr (rg_scan False args) (\<lambda>(remaining, allow_no_pattern).
       case remaining of
         [] \<Rightarrow> if \<not> allow_no_pattern then bail ''ripgrep requires a pattern unless file listing flags are used'' else ok_unit
       | pat # rest \<Rightarrow>
           if pat = [] then bail ''ripgrep pattern cannot be empty''
           else case rest of
                  [] \<Rightarrow> ok_unit
                | search_root # extra \<Rightarrow>
                    bindr (resolve_path_allow_dir fs root wd search_root) (\<lambda>p.
                      if \<not> fs_exists fs p then bail (''search path '' @ quoted search_root @ '' does not exist'')
                      else if extra \<noteq> [] then bail ''ripgrep accepts at most one search path''
                      else ok_unit))"

subsection \<open>Sed\<close>

text \<open>Scripts are scanned by character. The result is the unescaped section and the characters after the closing
  delimiter.\<close>

fun parse_sed_section :: "rchar \<Rightarrow> bool \<Rightarrow> rtext \<Rightarrow> rtext \<Rightarrow> (rtext \<times> rtext) rresult" where
  "parse_sed_section delimiter escaped target [] = bail ''sed command is missing a closing delimiter''"
| "parse_sed_section delimiter escaped target (ch # cs) =
     (if escaped then parse_sed_section delimiter False (target @ [ch]) cs
      else if ch = 0x5C then parse_sed_section delimiter True target cs
      else if ch = delimiter then Inr (target, cs)
      else parse_sed_section delimiter False (target @ [ch]) cs)"

definition collect_sed_flags :: "rtext \<Rightarrow> rtext rresult" where
  "collect_sed_flags cs =
     (if list_all (ascii_char is_ascii_alphabetic) cs then Inr cs else bail ''sed flags contain unsupported characters'')"

definition sed_control_chars :: "rtext" where
  "sed_control_chars = rt [CHR '';'', CHR ''|'', CHR ''&'', CHR 0x60]"

definition sed_execution_flags :: "rtext" where
  "sed_execution_flags = rt ''eEFf''"

definition ensure_safe_sed_command :: "rtext \<Rightarrow> unit rresult" where
  "ensure_safe_sed_command v =
     (if rtrim v = [] then bail ''sed command cannot be empty''
      else if list_ex (\<lambda>c. c \<in> set sed_control_chars) v
      then bail ''sed command contains unsupported control characters''
      else case v of
             [] \<Rightarrow> bail ''only sed substitution commands are supported''
           | c # rest \<Rightarrow>
               if c \<noteq> of_char CHR ''s'' then bail ''only sed substitution commands are supported''
               else case rest of
                      [] \<Rightarrow> bail ''sed substitution is missing a delimiter''
                    | delimiter # chars \<Rightarrow>
                        if ascii_char is_ascii_alphanumeric delimiter \<or> ascii_char is_ascii_whitespace delimiter
                        then bail ''invalid sed delimiter''
                        else bindr (parse_sed_section delimiter False [] chars) (\<lambda>(pat, chars1).
                             bindr (parse_sed_section delimiter False [] chars1) (\<lambda>(replacement, chars2).
                             bindr (collect_sed_flags chars2) (\<lambda>flags.
                               if list_ex (\<lambda>ch. ch \<in> set sed_execution_flags) flags
                               then bail ''sed execution flags are not permitted in substitution''
                               else ok_unit))))"

text \<open>Whether a command and a file have been seen stands for the two lists.\<close>

fun sed_scan :: "filesystem \<Rightarrow> path \<Rightarrow> path \<Rightarrow> bool \<Rightarrow> bool \<Rightarrow> string list \<Rightarrow> (bool \<times> bool) rresult" where
  "sed_scan fs root wd commands files [] = Inr (commands, files)"
| "sed_scan fs root wd commands files (current # args) =
     (if current = ''-n'' \<or> current = ''-u'' then sed_scan fs root wd commands files args
      else if current = ''-e''
      then (case args of
              [] \<Rightarrow> bail ''-e requires a sed command''
            | v # rest \<Rightarrow> bindr (ensure_safe_sed_command (chars_of v)) (\<lambda>_. sed_scan fs root wd True files rest))
      else if starts_with current ''-'' then unsupported ''sed'' current
      else if \<not> commands then bindr (ensure_safe_sed_command (chars_of current)) (\<lambda>_. sed_scan fs root wd True files args)
      else bindr (existing_file fs root wd current) (\<lambda>_. sed_scan fs root wd commands True args))"

definition validate_sed :: "filesystem \<Rightarrow> path \<Rightarrow> path \<Rightarrow> string list \<Rightarrow> unit rresult" where
  "validate_sed fs root wd args =
     bindr (sed_scan fs root wd False False args) (\<lambda>(commands, files).
       if \<not> commands then bail ''sed requires at least one command''
       else if \<not> files then bail ''sed requires at least one readable file''
       else ok_unit)"

definition validate_which :: "string list \<Rightarrow> unit rresult" where
  "validate_which args =
     (if args = [] then bail ''which requires at least one program name''
      else for_each (\<lambda>arg.
             if arg = ''-a'' \<or> arg = ''-s'' then ok_unit
             else if starts_with arg ''-'' then unsupported ''which'' arg
             else if arg = [] \<or> CHR ''/'' \<in> set arg \<or> list_ex is_whitespace arg
             then bail (''program name '' @ quoted arg @ '' contains unsupported characters'')
             else ok_unit) args)"

subsection \<open>Git\<close>

definition git_log_flags :: "string list" where
  "git_log_flags =
     [''-n'', ''--oneline'', ''--graph'', ''--decorate'', ''--all'', ''--grep'', ''-S'', ''-p'', ''-U'', ''--stat'',
      ''--shortstat'', ''--name-status'', ''--name-only'', ''--author'', ''--since'', ''--until'', ''--date'']"

definition git_diff_flags :: "string list" where
  "git_diff_flags =
     [''-p'', ''-U'', ''--stat'', ''--shortstat'', ''--name-status'', ''--name-only'', ''--no-index'', ''-w'',
      ''--ignore-all-space'', ''-b'', ''--ignore-space-change'']"

text \<open>The arms that \<open>continue\<close> with the next argument.\<close>

definition git_arg_passes :: "string \<Rightarrow> string \<Rightarrow> bool" where
  "git_arg_passes subcommand arg \<longleftrightarrow>
     starts_with arg ''--'' \<and> CHR ''='' \<in> set arg \<and> hd (split_char CHR ''='' arg) = ''--format''
     \<or> arg \<in> {''-q'', ''--quiet'', ''--verbose'', ''-v''}
     \<or> (if subcommand = ''log'' \<or> subcommand = ''show'' then arg \<in> set git_log_flags
        else if subcommand = ''diff'' then arg \<in> set git_diff_flags
        else if subcommand = ''branch'' then arg \<in> {''-a'', ''-r'', ''-v'', ''--verbose''}
        else \<not> starts_with arg ''-'' \<or> starts_with arg ''--'')"

definition validate_git_read_only :: "string \<Rightarrow> string list \<Rightarrow> unit rresult" where
  "validate_git_read_only subcommand subargs =
     for_each (\<lambda>arg.
       if git_arg_passes subcommand arg then ok_unit
       else if CHR '';'' \<in> set arg \<or> CHR ''|'' \<in> set arg \<or> CHR ''&'' \<in> set arg
       then bail ''git argument contains suspicious shell metacharacters''
       else ok_unit) subargs"

definition git_add_flags :: "string list" where
  "git_add_flags = [''-u'', ''--update'', ''-A'', ''--all'', ''.'', ''-p'', ''--patch'', ''-i'', ''--interactive'',
     ''-n'', ''--dry-run'']"

definition contained_path :: "filesystem \<Rightarrow> path \<Rightarrow> path \<Rightarrow> string \<Rightarrow> unit rresult" where
  "contained_path fs root wd v = bindr (resolve_path fs root wd v) (ensure_within_workspace fs root)"

definition validate_git_add :: "filesystem \<Rightarrow> path \<Rightarrow> path \<Rightarrow> string list \<Rightarrow> unit rresult" where
  "validate_git_add fs root wd args =
     (if list_ex (\<lambda>a. a = ''-f'' \<or> a = ''--force'') args
      then bail ''git add --force is not permitted. Use regular add operations only.''
      else for_each (\<lambda>arg.
             if arg \<in> set git_add_flags then ok_unit
             else if starts_with arg ''-'' then unsupported ''git add'' arg
             else contained_path fs root wd arg) args)"

definition git_commit_flags :: "string list" where
  "git_commit_flags = [''-a'', ''--all'', ''-p'', ''--patch'', ''--amend'', ''--no-verify'', ''-q'', ''--quiet'']"

fun validate_git_commit :: "string list \<Rightarrow> unit rresult" where
  "validate_git_commit [] = ok_unit"
| "validate_git_commit (arg # args) =
     (if arg = ''-m'' \<or> arg = ''--message''
      then (case args of [] \<Rightarrow> bail ''-m requires a commit message'' | _ # rest \<Rightarrow> validate_git_commit rest)
      else if arg = ''-F'' \<or> arg = ''--file''
      then (case args of [] \<Rightarrow> bail ''-F requires a file path'' | _ # rest \<Rightarrow> validate_git_commit rest)
      else if arg \<in> set git_commit_flags then validate_git_commit args
      else if starts_with arg ''-'' then unsupported ''git commit'' arg
      else validate_git_commit args)"

definition destructive_modes :: "string list" where
  "destructive_modes = [''--hard'', ''--merge'', ''--keep'']"

definition reset_arg :: "bool \<Rightarrow> string \<Rightarrow> unit rresult" where
  "reset_arg confirm arg =
     (if starts_with arg ''-''
      then (let safe = list_ex (contains_str arg) [''--soft'', ''--mixed'', ''--unstage''];
                allowed_destructive = list_ex (contains_str arg) (if confirm then destructive_modes else [])
            in if \<not> safe \<and> \<not> allowed_destructive
               then (if arg \<in> {''-q'', ''--quiet'', ''-p'', ''--patch''} then ok_unit
                     else bail (''unsupported git reset flag '' @ quoted arg
                                @ ''. Use --soft, --mixed, or --hard (with confirm) modes.''))
               else ok_unit)
      else ok_unit)"

definition validate_git_reset :: "string list \<Rightarrow> bool \<Rightarrow> unit rresult" where
  "validate_git_reset args confirm =
     (if list_ex (\<lambda>a. a \<in> set destructive_modes) args \<and> \<not> confirm
      then bail ''git reset with --hard, --merge, or --keep is potentially destructive. Set `confirm=true` to proceed.''
      else for_each (reset_arg confirm) args)"

text \<open>Where the paths of a checkout start: after \<open>--\<close>, else at the first argument that is no option.\<close>

fun paths_start_from :: "nat \<Rightarrow> string list \<Rightarrow> nat" where
  "paths_start_from i [] = 0"
| "paths_start_from i (arg # args) =
     (if arg = ''--'' then i + 1 else if \<not> starts_with arg ''-'' then i else paths_start_from (Suc i) args)"

definition validate_git_checkout :: "filesystem \<Rightarrow> path \<Rightarrow> path \<Rightarrow> string list \<Rightarrow> bool \<Rightarrow> unit rresult" where
  "validate_git_checkout fs root wd args confirm =
     (if args = [] then ok_unit
      else if list_ex (\<lambda>a. a = ''-f'' \<or> a = ''--force'') args \<and> \<not> confirm
      then bail ''git checkout --force is potentially destructive; set `confirm=true` to proceed.''
      else let paths_start = paths_start_from 0 args
           in if paths_start > 0 then for_each (contained_path fs root wd) (drop paths_start args) else ok_unit)"

definition stash_ops :: "string list" where
  "stash_ops = [''list'', ''show'', ''pop'', ''apply'', ''drop'', ''clear'', ''create'']"

definition stash_flags :: "string list" where
  "stash_flags = [''-q'', ''--quiet'', ''-p'', ''--patch'', ''-k'', ''--keep-index'', ''-u'', ''--include-untracked'',
     ''-a'', ''--all'']"

definition validate_git_stash :: "string list \<Rightarrow> unit rresult" where
  "validate_git_stash args =
     (case args of
        [] \<Rightarrow> ok_unit
      | first # rest \<Rightarrow>
          if first \<notin> set stash_ops then bail (''git stash operation '' @ quoted first @ '' is not permitted'')
          else for_each (\<lambda>arg. if starts_with arg ''-'' \<and> arg \<notin> set stash_flags then unsupported ''git stash'' arg
                              else ok_unit) rest)"

definition validate_git_merge :: "string list \<Rightarrow> unit rresult" where
  "validate_git_merge args =
     (if args = [] then bail ''git merge requires a branch''
      else for_each (\<lambda>arg. if arg \<in> {''--no-ff'', ''--squash''}
                         then bail (''git merge with '' @ arg @ '' flag is not permitted; use simpler merge'')
                         else ok_unit) args)"

definition git_inspection :: "string list" where
  "git_inspection = [''status'', ''log'', ''show'', ''diff'', ''branch'', ''tag'', ''remote'',
     ''ls-tree'', ''ls-files'', ''cat-file'', ''rev-parse'', ''describe'']"

definition not_permitted_git :: "string \<Rightarrow> 'a rresult" where
  "not_permitted_git other =
     bail (''git subcommand '' @ quoted other @ '' is not permitted by the execution policy'')"

definition validate_git :: "filesystem \<Rightarrow> path \<Rightarrow> path \<Rightarrow> string list \<Rightarrow> bool \<Rightarrow> unit rresult" where
  "validate_git fs root wd args confirm =
     (case args of
        [] \<Rightarrow> bail ''git requires a subcommand''
      | sub # subargs \<Rightarrow>
          if sub \<in> set git_inspection then validate_git_read_only sub subargs
          else if sub = ''config'' \<and> list_all (\<lambda>a. \<not> starts_with a ''--'') subargs
          then validate_git_read_only sub subargs
          else if sub \<in> {''blame'', ''grep'', ''shortlog'', ''format-patch''} then validate_git_read_only sub subargs
          else if sub = ''stash'' \<and> subargs \<noteq> [] \<and> hd subargs \<in> {''list'', ''show'', ''pop'', ''apply'', ''drop''}
          then validate_git_stash subargs
          else if sub = ''add'' then validate_git_add fs root wd subargs
          else if sub = ''commit'' then validate_git_commit subargs
          else if sub = ''reset'' then validate_git_reset subargs confirm
          else if sub \<in> {''checkout'', ''switch'', ''restore''} then validate_git_checkout fs root wd subargs confirm
          else if sub = ''merge'' then validate_git_merge subargs
          else if sub = ''push''
          then (if list_ex (\<lambda>a. contains_str a ''force'' \<or> a = ''-f'' \<or> a = ''--no-verify'') subargs
                then bail ''git push with force flags is not permitted. Use safe push operations only.''
                else validate_git_read_only sub subargs)
          else if sub = ''force-push'' then bail ''git force-push is not permitted by the execution policy''
          else if sub = ''clean''
          then bail ''git clean is not permitted by the execution policy. Use explicit rm commands instead.''
          else if sub = ''gc'' \<and> list_ex (\<lambda>a. contains_str a ''aggressive'') subargs
          then bail ''git gc with aggressive flag is not permitted''
          else if sub \<in> {''filter-branch'', ''rebase'', ''cherry-pick''}
          then bail (''git '' @ sub @ '' is not permitted - complex history operations require confirmation'')
          else not_permitted_git sub)"

subsection \<open>The other programs\<close>

text \<open>An operand joined to the working directory as it is given.\<close>

definition inside :: "filesystem \<Rightarrow> path \<Rightarrow> path \<Rightarrow> string \<Rightarrow> unit rresult" where
  "inside fs root wd arg = ensure_within_workspace fs root (normalize_path (path_join wd (components arg)))"

definition validate_tail :: "filesystem \<Rightarrow> path \<Rightarrow> path \<Rightarrow> string list \<Rightarrow> unit rresult" where
  "validate_tail fs root wd args =
     for_each (\<lambda>arg. if \<not> starts_with arg ''-'' then inside fs root wd arg else ok_unit) args"

fun grep_args :: "filesystem \<Rightarrow> path \<Rightarrow> path \<Rightarrow> bool \<Rightarrow> string list \<Rightarrow> unit rresult" where
  "grep_args fs root wd pattern_seen [] = ok_unit"
| "grep_args fs root wd pattern_seen (arg # args) =
     (if \<not> starts_with arg ''-'' \<and> pattern_seen
      then bindr (inside fs root wd arg) (\<lambda>_. grep_args fs root wd pattern_seen args)
      else if \<not> starts_with arg ''-'' then grep_args fs root wd True args
      else grep_args fs root wd pattern_seen args)"

definition validate_grep :: "filesystem \<Rightarrow> path \<Rightarrow> path \<Rightarrow> string list \<Rightarrow> unit rresult" where
  "validate_grep fs root wd args = grep_args fs root wd False args"

definition validate_date :: "string list \<Rightarrow> unit rresult" where
  "validate_date args = ok_unit"

definition validate_whoami :: "string list \<Rightarrow> unit rresult" where
  "validate_whoami args = ok_unit"

definition validate_hostname :: "string list \<Rightarrow> unit rresult" where
  "validate_hostname args = ok_unit"

definition validate_uname :: "string list \<Rightarrow> unit rresult" where
  "validate_uname args = validate_allowed_flags args [''-a'', ''-s'', ''-n'', ''-r'', ''-v'', ''-m''] ''uname''"

definition validate_wc :: "filesystem \<Rightarrow> path \<Rightarrow> path \<Rightarrow> string list \<Rightarrow> unit rresult" where
  "validate_wc fs root wd args =
     for_each (\<lambda>arg. if \<not> starts_with arg ''-'' then inside fs root wd arg else ok_unit) args"

definition cargo_safe :: "string list" where
  "cargo_safe = [''build'', ''check'', ''test'', ''doc'', ''clippy'', ''fmt'', ''run'', ''bench'', ''expand'',
     ''tree'', ''metadata'', ''search'', ''cache'']"

definition cargo_destructive :: "string list" where
  "cargo_destructive = [''clean'', ''install'', ''uninstall'', ''publish'', ''yank'']"

definition validate_cargo :: "filesystem \<Rightarrow> path \<Rightarrow> path \<Rightarrow> string list \<Rightarrow> bool \<Rightarrow> unit rresult" where
  "validate_cargo fs root wd args confirm =
     (case args of
        [] \<Rightarrow> bail ''cargo requires a subcommand''
      | sub # _ \<Rightarrow>
          if sub \<in> set cargo_safe then ensure_within_workspace fs root wd
          else if sub \<in> set cargo_destructive
          then (if confirm then ensure_within_workspace fs root wd
                else bail (''cargo '' @ sub @ '' is potentially destructive; set `confirm=true` to proceed.''))
          else bail (''cargo subcommand '' @ quoted sub @ '' is not permitted by the execution policy''))"

definition validate_python :: "filesystem \<Rightarrow> path \<Rightarrow> path \<Rightarrow> string list \<Rightarrow> unit rresult" where
  "validate_python fs root wd args =
     bindr (ensure_within_workspace fs root wd) (\<lambda>_.
       case args of
         [] \<Rightarrow> ok_unit
       | first_arg # rest \<Rightarrow>
           if first_arg = ''-c''
           then bail ''python -c is not permitted for security reasons: it enables arbitrary code execution outside the workspace sandbox''
           else if first_arg = ''-e'' \<or> first_arg = ''-exec''
           then bail (''python '' @ first_arg @ '' is not permitted: it enables arbitrary code execution'')
           else if first_arg = ''-m'' \<or> first_arg = ''-W''
           then (case rest of
                   second # _ \<Rightarrow> if first_arg \<noteq> ''-m'' then inside fs root wd second else ok_unit
                 | [] \<Rightarrow> ok_unit)
           else if \<not> starts_with first_arg ''-'' then inside fs root wd first_arg
           else ok_unit)"

definition validate_npm :: "filesystem \<Rightarrow> path \<Rightarrow> path \<Rightarrow> string list \<Rightarrow> unit rresult" where
  "validate_npm fs root wd args =
     bindr (ensure_within_workspace fs root wd) (\<lambda>_.
       case args of
         [] \<Rightarrow> ok_unit
       | sub # _ \<Rightarrow>
           if sub = ''publish'' \<or> sub = ''unpublish''
           then bail (''npm '' @ sub @ '' is not permitted by the execution policy'') else ok_unit)"

definition validate_node :: "filesystem \<Rightarrow> path \<Rightarrow> path \<Rightarrow> string list \<Rightarrow> unit rresult" where
  "validate_node fs root wd args =
     bindr (ensure_within_workspace fs root wd) (\<lambda>_.
       case args of
         [] \<Rightarrow> ok_unit
       | first_arg # _ \<Rightarrow>
           if first_arg = ''-e'' \<or> first_arg = ''--eval''
           then bail (''node '' @ first_arg @ '' is not permitted for security reasons: it enables arbitrary code execution outside the workspace sandbox'')
           else if \<not> starts_with first_arg ''-'' then inside fs root wd first_arg
           else ok_unit)"

subsection \<open>The dispatcher\<close>

definition validate_command :: "filesystem \<Rightarrow> path \<Rightarrow> path \<Rightarrow> string list \<Rightarrow> bool \<Rightarrow> unit rresult" where
  "validate_command fs root wd command confirm =
     (case command of
        [] \<Rightarrow> bail ''command cannot be empty''
      | program # args \<Rightarrow>
          if program = ''echo'' then validate_echo args
          else if program = ''ls'' then validate_ls fs root wd args
          else if program = ''cat'' then validate_cat fs root wd args
          else if program = ''cp'' then validate_cp fs root wd args
          else if program = ''head'' then validate_head fs root wd args
          else if program = ''tail'' then validate_tail fs root wd args
          else if program = ''printenv'' then validate_printenv args
          else if program = ''pwd'' then validate_pwd args
          else if program = ''rg'' then validate_rg fs root wd args
          else if program = ''grep'' then validate_grep fs root wd args
          else if program = ''sed'' then validate_sed fs root wd args
          else if program = ''which'' then validate_which args
          else if program = ''date'' then validate_date args
          else if program = ''whoami'' then validate_whoami args
          else if program = ''hostname'' then validate_hostname args
          else if program = ''uname'' then validate_uname args
          else if program = ''wc'' then validate_wc fs root wd args
          else if program = ''git'' then validate_git fs root wd args confirm
          else if program = ''cargo'' then validate_cargo fs root wd args confirm
          else if program = ''python'' \<or> program = ''python3'' then validate_python fs root wd args
          else if program = ''npm'' then validate_npm fs root wd args
          else if program = ''node'' then validate_node fs root wd args
          else bail (''command '' @ quoted program @ '' is not permitted by the execution policy''))"

end
