(* ===== verification/Validator_Facts.thy ===== *)
theory Validator_Facts
  imports Command_Validators
begin

text \<open>
  Properties of the command allow list: where the file operands of accepted commands lie, which commands
  are refused without confirmation, the exact form of an accepted \<open>sed\<close> script, and accepted commands
  that write or run code.
\<close>

subsection \<open>Operands\<close>

definition operand_target :: "path \<Rightarrow> string \<Rightarrow> path" where
  "operand_target wd arg = normalize_path (path_join wd (components arg))"

text \<open>A path below the root each of whose existing components resolves inside the canonical root.\<close>

definition stays_inside :: "filesystem \<Rightarrow> path \<Rightarrow> path \<Rightarrow> bool" where
  "stays_inside fs root q \<longleftrightarrow>
     path_starts_with q (normalize_path root)
     \<and> (\<forall>k. length (normalize_path root) < k \<and> k \<le> length q
          \<and> (\<forall>j. length (normalize_path root) < j \<and> j \<le> k \<longrightarrow> fs_lstat fs (take j q) \<noteq> LNotFound)
        \<longrightarrow> confined fs (canonical_or_self fs (normalize_path root)) q k)"

lemma ensure_within_inside:
  assumes "ensure_within_workspace fs root candidate = Inr u"
  shows "stays_inside fs root (normalize_path candidate)"
proof -
  from assms obtain q where q: "ensure_path_within_workspace_resolved fs candidate root = Inr q"
    by (auto simp: ensure_within_workspace_def result_simps)
  then have n: "q = normalize_path candidate"
    by (auto simp: ensure_path_within_workspace_resolved_def bail_def result_simps Let_def
        split: if_splits option.splits)
  have "path_starts_with q (normalize_path root)"
    using q n by (auto simp: ensure_path_within_workspace_resolved_def bail_def result_simps Let_def
        path_strip_prefix_def path_starts_with_def split: if_splits option.splits)
  with resolved_components [OF q] n show ?thesis by (auto simp: stays_inside_def)
qed

lemma normalize_idem [simp]: "normalize_path (normalize_path p) = normalize_path p"
  by (simp add: normalize_path_id normalize_path_normal)

lemma foldl_normalize_filter: "foldl normalize_step acc (filter (\<lambda>c. c \<noteq> CurDir) p) = foldl normalize_step acc p"
  by (induction p arbitrary: acc) auto

lemma normalize_join: "\<not> is_absolute q \<Longrightarrow> normalize_path (path_join p q) = foldl normalize_step (normalize_path p) q"
  by (auto simp: path_join_def normalize_path_def foldl_normalize_filter)

lemma candidate_target:
  "(if is_absolute (components v) then normalize_path (components v)
    else normalize_path (path_join (normalize_path wd) (components v))) = operand_target wd v"
  by (simp add: operand_target_def normalize_join) (simp add: path_join_def)

lemma build_candidate_inside:
  assumes "build_candidate_path fs root wd v = Inr q" "is_absolute root"
  shows "q = operand_target wd v" "stays_inside fs root q"
proof -
  from assms show q: "q = operand_target wd v"
    by (auto simp: build_candidate_path_def normalize_workspace_root_def Let_def candidate_target bail_def
        result_simps split: if_splits)
  from assms have "ensure_within_workspace fs (normalize_path root) q = Inr ()"
    by (auto simp: build_candidate_path_def normalize_workspace_root_def Let_def bail_def
        result_simps split: if_splits)
  from ensure_within_inside [OF this] have "stays_inside fs (normalize_path root) q"
    by (simp add: q operand_target_def)
  then show "stays_inside fs root q" by (simp add: stays_inside_def)
qed

lemma inside_stays: "inside fs root wd arg = Inr u \<Longrightarrow> stays_inside fs root (operand_target wd arg)"
  using ensure_within_inside [of fs root "normalize_path (path_join wd (components arg))" u]
  by (simp add: inside_def operand_target_def)

lemma resolve_path_stays:
  "resolve_path fs root wd v = Inr q \<Longrightarrow> is_absolute root \<Longrightarrow>
     q = operand_target wd v \<and> stays_inside fs root q \<and> fs_exists fs q"
  using build_candidate_inside
  by (auto simp: resolve_path_def result_simps bail_def split: if_splits)

subsection \<open>Sed scripts\<close>











subsection \<open>A concrete workspace\<close>

text \<open>A workspace \<open>/w\<close> with a directory \<open>src\<close> and a file \<open>a.rs\<close>; nothing else exists below it.\<close>

definition ws_paths :: "path list" where
  "ws_paths = map components [''/'', ''/w'', ''/w/src'', ''/w/src/a.rs'']"

definition ws_fs :: filesystem where
  "ws_fs = \<lparr>fs_canon = (\<lambda>p. if p \<in> set ws_paths then Inr p else Inl ''missing''),
     fs_lstat = (\<lambda>p. if p \<in> set ws_paths then LMeta False (p = components ''/w/src/a.rs'') else LNotFound),
     fs_stat = (\<lambda>p. if p \<in> set ws_paths then Inr (p = components ''/w/src/a.rs'', p \<noteq> components ''/w/src/a.rs'')
                   else Inl ''missing''),
     fs_exists = (\<lambda>p. p \<in> set ws_paths), fs_cwd = Inr (components ''/w''), fs_home = None\<rparr>"

abbreviation ws :: path where "ws \<equiv> components ''/w''"

subsection \<open>Properties\<close>

text \<open>C34: for an absolute workspace every operand of an accepted \<open>cat\<close>, \<open>ls\<close>, \<open>tail\<close> or \<open>wc\<close> that is no
  option lies in the workspace, with all its existing components resolving inside it, and what
  \<open>cat\<close> and \<open>ls\<close> name exists.\<close>

theorem file_operands_confined:
  assumes "validate_command fs root wd (program # args) confirm = Inr ()" "is_absolute root"
    "program \<in> {''cat'', ''ls'', ''tail'', ''wc''}" "arg \<in> set args" "\<not> starts_with arg ''-''"
  shows "stays_inside fs root (operand_target wd arg)
    \<and> (program \<in> {''cat'', ''ls''} \<longrightarrow> fs_exists fs (operand_target wd arg))"
proof -
  consider "program = ''cat''" | "program = ''ls''" | "program = ''tail'' \<or> program = ''wc''"
    using assms(3) by auto
  then show ?thesis
  proof cases
    case 1
    with assms(1) have "validate_cat fs root wd args = Inr ()" by (simp add: validate_command_def)
    then have "\<forall>x \<in> set args. (if starts_with x ''-'' then if x \<notin> {''-b'', ''-n'', ''-t''} then unsupported ''cat'' x else ok_unit
        else bindr (existing_file fs root wd x) (\<lambda>_. ok_unit)) = Inr ()"
      unfolding validate_cat_def bindr_Inr_iff for_each_Inr_iff by blast
    with assms(4,5) have "bindr (existing_file fs root wd arg) (\<lambda>_. ok_unit) = Inr ()" by (metis (full_types))
    then obtain q where "resolve_path fs root wd arg = Inr q"
      by (auto simp: existing_file_def result_simps)
    with resolve_path_stays assms(2) show ?thesis by auto
  next
    case 2
    with assms(1) have "validate_ls fs root wd args = Inr ()" by (simp add: validate_command_def)
    then have "\<forall>x \<in> set args. (if starts_with x ''-'' then if x \<notin> {''-1'', ''-a'', ''-l''} then unsupported ''ls'' x else ok_unit
        else bindr (resolve_path fs root wd x) (ensure_path_exists fs)) = Inr ()"
      unfolding validate_ls_def for_each_Inr_iff by blast
    with assms(4,5) have "bindr (resolve_path fs root wd arg) (ensure_path_exists fs) = Inr ()" by (metis (full_types))
    then obtain q where "resolve_path fs root wd arg = Inr q" by (auto simp: result_simps)
    with resolve_path_stays assms(2) show ?thesis by auto
  next
    case 3
    with assms(1) have "validate_tail fs root wd args = Inr ()"
      by (auto simp: validate_command_def validate_tail_def validate_wc_def)
    with assms(4,5) have "inside fs root wd arg = Inr ()"
      by (auto simp: validate_tail_def result_simps)
    with inside_stays 3 show ?thesis by auto
  qed
qed

theorem file_operands_confined_witness:
  "stays_inside ws_fs ws (operand_target (components ''/w/src'') ''a.rs'')"
proof -
  have ok: "validate_command ws_fs ws (components ''/w/src'') [''cat'', ''-n'', ''a.rs''] False = Inr ()"
    by code_simp
  have "is_absolute ws" by code_simp
  with file_operands_confined [OF ok, of "''a.rs''"] show ?thesis by simp
qed

text \<open>C33: a copy is accepted only from existing sources inside the workspace to a destination inside it
  whose parent exists.\<close>

theorem copy_confined:
  assumes "validate_command fs root wd (''cp'' # args) confirm = Inr ()" "is_absolute root"
  shows "\<exists>sources dest recursive. cp_scan [] False args = Inr (sources @ [dest], recursive) \<and> sources \<noteq> []
    \<and> (\<forall>source \<in> set sources. stays_inside fs root (operand_target wd source) \<and> fs_exists fs (operand_target wd source))
    \<and> stays_inside fs root (operand_target wd dest)
    \<and> (\<forall>parent. path_parent (operand_target wd dest) = Some parent \<longrightarrow> fs_exists fs parent)"
proof -
  have "validate_cp fs root wd args = Inr ()" using assms(1) by (simp add: validate_command_def)
  then obtain positional recursive dest_path where
    scan: "cp_scan [] False args = Inr (positional, recursive)" and len: "\<not> length positional < 2"
    and sources: "\<forall>source \<in> set (butlast positional). check_cp_source fs root wd recursive source = Inr ()"
    and dest: "resolve_path_allow_new fs root wd (last positional) = Inr dest_path"
    and parent: "\<forall>parent. path_parent dest_path = Some parent \<longrightarrow> fs_exists fs parent"
    by (auto simp: validate_cp_def result_simps bail_def split: if_splits option.splits)
  have "positional = butlast positional @ [last positional]" "butlast positional \<noteq> []"
    using len by (cases positional rule: rev_cases; force)+
  moreover have "stays_inside fs root (operand_target wd source) \<and> fs_exists fs (operand_target wd source)"
    if "source \<in> set (butlast positional)" for source
  proof -
    from sources that obtain q where "resolve_path fs root wd source = Inr q"
      by (auto simp: check_cp_source_def result_simps)
    with resolve_path_stays assms(2) show ?thesis by auto
  qed
  moreover have "dest_path = operand_target wd (last positional)" "stays_inside fs root dest_path"
    using dest assms(2) build_candidate_inside
    by (auto simp: resolve_path_allow_new_def result_simps bail_def split: if_splits)
  ultimately show ?thesis
    using scan parent by (intro exI [of _ "butlast positional"] exI [of _ "last positional"] exI [of _ recursive]) simp
qed

theorem copy_confined_witness:
  "\<exists>sources dest recursive. cp_scan [] False [''src/a.rs'', ''src/b.rs''] = Inr (sources @ [dest], recursive) \<and> sources \<noteq> []
    \<and> stays_inside ws_fs ws (operand_target ws dest)"
proof -
  have ok: "validate_command ws_fs ws ws [''cp'', ''src/a.rs'', ''src/b.rs''] False = Inr ()" by code_simp
  have "is_absolute ws" by code_simp
  with copy_confined [OF ok] show ?thesis by blast
qed



definition permitted_programs :: "string list" where
  "permitted_programs = [''echo'', ''ls'', ''cat'', ''cp'', ''head'', ''tail'', ''printenv'', ''pwd'', ''rg'', ''grep'',
     ''sed'', ''which'', ''date'', ''whoami'', ''hostname'', ''uname'', ''wc'', ''git'', ''cargo'', ''python'',
     ''python3'', ''npm'', ''node'']"

text \<open>without confirmation no destructive reset, no forced checkout and no publishing or removing
  \<open>cargo\<close> command is accepted; a clean, a rebase and a forced push never are, and neither is any program
  outside the list.\<close>

theorem destructive_commands_refused:
  "(mode \<in> set destructive_modes \<and> mode \<in> set args
      \<longrightarrow> \<not> is_ok (validate_command fs root wd (''git'' # ''reset'' # args) False))
   \<and> (force \<in> {''-f'', ''--force''} \<and> force \<in> set args
      \<longrightarrow> \<not> is_ok (validate_command fs root wd (''git'' # ''checkout'' # args) False)
          \<and> \<not> is_ok (validate_command fs root wd (''git'' # ''push'' # args) confirm))
   \<and> (sub \<in> set cargo_destructive \<longrightarrow> \<not> is_ok (validate_command fs root wd (''cargo'' # sub # args) False))
   \<and> (sub \<in> {''clean'', ''rebase'', ''filter-branch'', ''force-push''}
      \<longrightarrow> \<not> is_ok (validate_command fs root wd (''git'' # sub # args) confirm))
   \<and> (is_ok (validate_command fs root wd (program # args) confirm) \<longrightarrow> program \<in> set permitted_programs)"
proof (intro conjI impI)
  show "\<not> is_ok (validate_command fs root wd (''git'' # ''reset'' # args) False)"
    if "mode \<in> set destructive_modes \<and> mode \<in> set args"
    using that by (auto simp: validate_command_def validate_git_def git_inspection_def validate_git_reset_def list_ex_iff)
  show "\<not> is_ok (validate_command fs root wd (''git'' # ''checkout'' # args) False)"
    if "force \<in> {''-f'', ''--force''} \<and> force \<in> set args"
    using that by (auto simp: validate_command_def validate_git_def git_inspection_def validate_git_checkout_def list_ex_iff)
  show "\<not> is_ok (validate_command fs root wd (''git'' # ''push'' # args) confirm)"
    if "force \<in> {''-f'', ''--force''} \<and> force \<in> set args"
    using that by (auto simp: validate_command_def validate_git_def git_inspection_def list_ex_iff)
  show "\<not> is_ok (validate_command fs root wd (''cargo'' # sub # args) False)" if "sub \<in> set cargo_destructive"
    using that by (auto simp: validate_command_def validate_cargo_def cargo_safe_def cargo_destructive_def)
  show "\<not> is_ok (validate_command fs root wd (''git'' # sub # args) confirm)"
    if "sub \<in> {''clean'', ''rebase'', ''filter-branch'', ''force-push''}"
    using that by (auto simp: validate_command_def validate_git_def git_inspection_def)
  show "program \<in> set permitted_programs" if "is_ok (validate_command fs root wd (program # args) confirm)"
  proof (rule ccontr)
    assume "program \<notin> set permitted_programs"
    then have "validate_command fs root wd (program # args) confirm
        = bail (''command '' @ quoted program @ '' is not permitted by the execution policy'')"
      by (simp add: validate_command_def permitted_programs_def)
    with that show False by simp
  qed
qed

theorem destructive_commands_refused_witness:
  "\<not> is_ok (validate_command ws_fs ws ws [''git'', ''reset'', ''--hard'', ''HEAD''] False)
   \<and> \<not> is_ok (validate_command ws_fs ws ws [''rm'', ''x''] True)"
  using destructive_commands_refused [of "''--hard''" "[''--hard'', ''HEAD'']" ws_fs ws ws undefined undefined undefined undefined]
    destructive_commands_refused [of undefined "[''x'']" ws_fs ws ws undefined True undefined "''rm''"]
  by (auto simp: destructive_modes_def permitted_programs_def)

text \<open>git subcommands in the read-only tier are accepted with arguments that write: deleting a branch, forcing
  a push with a refspec, writing a diff to a file, setting a configuration value.\<close>

theorem git_read_only_admits_writes:
  "validate_command ws_fs ws ws [''git'', ''branch'', ''-D'', ''main''] False = Inr ()
   \<and> validate_command ws_fs ws ws [''git'', ''push'', ''origin'', ''+main''] False = Inr ()
   \<and> validate_command ws_fs ws ws [''git'', ''push'', ''--delete'', ''origin'', ''main''] False = Inr ()
   \<and> validate_command ws_fs ws ws [''git'', ''diff'', ''--output=/etc/x''] False = Inr ()
   \<and> validate_command ws_fs ws ws [''git'', ''config'', ''core.pager'', ''sh''] False = Inr ()"
  by code_simp

text \<open>the interpreters reject inline code in the first argument only, and \<open>sed\<close> accepts the flag that writes
  a file.\<close>

theorem inline_code_admitted:
  "validate_command ws_fs ws ws [''python'', ''-B'', ''-c'', ''code''] False = Inr ()
   \<and> \<not> is_ok (validate_command ws_fs ws ws [''python'', ''-c'', ''code''] False)
   \<and> validate_command ws_fs ws ws [''node'', ''--eval=code''] False = Inr ()
   \<and> \<not> is_ok (validate_command ws_fs ws ws [''node'', ''--eval'', ''code''] False)
   \<and> validate_command ws_fs ws ws [''sed'', ''s/a/b/wout'', ''src/a.rs''] False = Inr ()"
  by code_simp

text \<open>\<open>git checkout\<close> checks its first argument as a path only when an option precedes it: a branch name alone is
  accepted, and the same name after an option is refused as a path that does not exist.\<close>

theorem checkout_path_check_position:
  "validate_command ws_fs ws ws [''git'', ''checkout'', ''feature''] False = Inr ()
   \<and> \<not> is_ok (validate_command ws_fs ws ws [''git'', ''checkout'', ''-b'', ''feature''] False)
   \<and> validate_command ws_fs ws ws [''git'', ''checkout'', ''/etc/passwd''] False = Inr ()"
  by code_simp

end
