(* ===== verification/Rust_Float.thy ===== *)
theory Rust_Float
  imports Complex_Main VT_Prelude "HOL-Library.Log_Nat"
begin

text \<open>
  The parts of Rust's \<open>f64\<close> and \<open>std::time::Duration\<close> that the modelled sources use. A finite float is the
  rational it denotes (the two zeros are one value; the sources never divide by a float that can be
  zero), each operation is the exact one followed by rounding to the nearest float with a 53-bit
  significand, ties to even, with gradual underflow and overflow to an infinity. A duration is its
  number of nanoseconds.
\<close>

subsection \<open>Rounding\<close>

text \<open>The exponent of the leading bit of a positive rational.\<close>

definition rat_log2 :: "rat \<Rightarrow> int" where
  "rat_log2 q =
     (case quotient_of q of (a, b) \<Rightarrow>
        let k = bitlen a - bitlen b
        in if 2 powi k \<le> q then k else k - 1)"

definition round_half_even :: "rat \<Rightarrow> int" where
  "round_half_even q =
     (let d = q - of_int \<lfloor>q\<rfloor>
      in if d < 1 / 2 then \<lfloor>q\<rfloor>
         else if d > 1 / 2 then \<lfloor>q\<rfloor> + 1
         else if even \<lfloor>q\<rfloor> then \<lfloor>q\<rfloor> else \<lfloor>q\<rfloor> + 1)"

definition float_exponent :: "rat \<Rightarrow> int" where
  "float_exponent q = max (rat_log2 \<bar>q\<bar> - 52) (- 1074)"

definition round_rat :: "rat \<Rightarrow> rat" where
  "round_rat q =
     (if q = 0 then 0
      else of_int (round_half_even (q / 2 powi float_exponent q)) * 2 powi float_exponent q)"

datatype f64 = FFin rat | FPosInf | FNegInf | FNaN

definition round_f64 :: "rat \<Rightarrow> f64" where
  "round_f64 q =
     (let r = round_rat q
      in if r \<ge> 2 ^ 1024 then FPosInf else if r \<le> - (2 ^ 1024) then FNegInf else FFin r)"

subsection \<open>Arithmetic\<close>

fun fneg :: "f64 \<Rightarrow> f64" where
  "fneg (FFin a) = FFin (- a)"
| "fneg FPosInf = FNegInf"
| "fneg FNegInf = FPosInf"
| "fneg FNaN = FNaN"

fun fadd :: "f64 \<Rightarrow> f64 \<Rightarrow> f64" where
  "fadd (FFin a) (FFin b) = round_f64 (a + b)"
| "fadd FNaN _ = FNaN"
| "fadd _ FNaN = FNaN"
| "fadd FPosInf FNegInf = FNaN"
| "fadd FNegInf FPosInf = FNaN"
| "fadd FPosInf _ = FPosInf"
| "fadd FNegInf _ = FNegInf"
| "fadd _ FPosInf = FPosInf"
| "fadd _ FNegInf = FNegInf"

definition fsub :: "f64 \<Rightarrow> f64 \<Rightarrow> f64" where
  "fsub a b = fadd a (fneg b)"

fun fsign :: "f64 \<Rightarrow> rat" where
  "fsign (FFin a) = sgn a"
| "fsign FPosInf = 1"
| "fsign FNegInf = - 1"
| "fsign FNaN = 0"

definition inf_of_sign :: "rat \<Rightarrow> f64" where
  "inf_of_sign s = (if s > 0 then FPosInf else if s < 0 then FNegInf else FNaN)"

fun fmul :: "f64 \<Rightarrow> f64 \<Rightarrow> f64" where
  "fmul (FFin a) (FFin b) = round_f64 (a * b)"
| "fmul FNaN _ = FNaN"
| "fmul _ FNaN = FNaN"
| "fmul x y = inf_of_sign (fsign x * fsign y)"

text \<open>Division; a zero divisor gives NaN or an infinity of the sign of the dividend.\<close>

fun fdiv :: "f64 \<Rightarrow> f64 \<Rightarrow> f64" where
  "fdiv (FFin a) (FFin b) = (if b = 0 then inf_of_sign (sgn a) else round_f64 (a / b))"
| "fdiv FNaN _ = FNaN"
| "fdiv _ FNaN = FNaN"
| "fdiv (FFin a) _ = FFin 0"
| "fdiv x (FFin b) = inf_of_sign (fsign x * (if b < 0 then - 1 else 1))"
| "fdiv _ _ = FNaN"

fun fle :: "f64 \<Rightarrow> f64 \<Rightarrow> bool" where
  "fle FNaN _ \<longleftrightarrow> False"
| "fle _ FNaN \<longleftrightarrow> False"
| "fle FNegInf _ \<longleftrightarrow> True"
| "fle _ FPosInf \<longleftrightarrow> True"
| "fle (FFin a) (FFin b) \<longleftrightarrow> a \<le> b"
| "fle _ _ \<longleftrightarrow> False"

definition flt :: "f64 \<Rightarrow> f64 \<Rightarrow> bool" where
  "flt a b \<longleftrightarrow> fle a b \<and> \<not> fle b a"

fun is_finite :: "f64 \<Rightarrow> bool" where
  "is_finite (FFin _) \<longleftrightarrow> True"
| "is_finite _ \<longleftrightarrow> False"

text \<open>\<open>f64::min\<close> and \<open>f64::max\<close> ignore a NaN operand.\<close>

definition fmin :: "f64 \<Rightarrow> f64 \<Rightarrow> f64" where
  "fmin a b = (if a = FNaN then b else if b = FNaN then a else if fle a b then a else b)"

definition fmax :: "f64 \<Rightarrow> f64 \<Rightarrow> f64" where
  "fmax a b = (if a = FNaN then b else if b = FNaN then a else if fle b a then a else b)"

definition f_of_nat :: "nat \<Rightarrow> f64" where
  "f_of_nat n = round_f64 (of_nat n)"

text \<open>The saturating conversion \<open>as\<close> to an unsigned integer with the given maximum, and \<open>f64::round\<close>
  (half away from zero).\<close>

fun f_to_uint :: "nat \<Rightarrow> f64 \<Rightarrow> nat" where
  "f_to_uint m (FFin a) = (if a \<le> 0 then 0 else min m (nat \<lfloor>a\<rfloor>))"
| "f_to_uint m FPosInf = m"
| "f_to_uint m FNegInf = 0"
| "f_to_uint m FNaN = 0"

fun f_round :: "f64 \<Rightarrow> f64" where
  "f_round (FFin a) = FFin (of_int (if a \<ge> 0 then \<lfloor>a + 1 / 2\<rfloor> else - \<lfloor>- a + 1 / 2\<rfloor>))"
| "f_round x = x"

abbreviation u64_max :: nat where "u64_max \<equiv> 2 ^ 64 - 1"
abbreviation u32_max :: nat where "u32_max \<equiv> 2 ^ 32 - 1"

subsection \<open>Durations\<close>

type_synonym duration = nat

abbreviation nanos_per_sec :: nat where "nanos_per_sec \<equiv> 1000000000"

definition from_secs :: "nat \<Rightarrow> duration" where
  "from_secs s = s * nanos_per_sec"

definition from_millis :: "nat \<Rightarrow> duration" where
  "from_millis m = m * 1000000"

definition as_millis :: "duration \<Rightarrow> nat" where
  "as_millis d = d div 1000000"

definition duration_limit :: nat where
  "duration_limit = 2 ^ 64 * nanos_per_sec"

definition duration_saturating_add :: "duration \<Rightarrow> duration \<Rightarrow> duration" where
  "duration_saturating_add a b = min (a + b) (duration_limit - 1)"

definition duration_checked_sub :: "duration \<Rightarrow> duration \<Rightarrow> duration option" where
  "duration_checked_sub a b = (if b \<le> a then Some (a - b) else None)"

definition as_secs_f64 :: "duration \<Rightarrow> f64" where
  "as_secs_f64 d = fadd (f_of_nat (d div nanos_per_sec))
                        (fdiv (f_of_nat (d mod nanos_per_sec)) (f_of_nat nanos_per_sec))"

text \<open>\<open>Duration::try_from_secs_f64\<close>: an error for a negative, overflowing or non-finite number of seconds,
  otherwise the nearest number of nanoseconds, ties to even.\<close>

fun try_from_secs_f64 :: "f64 \<Rightarrow> duration option" where
  "try_from_secs_f64 (FFin a) =
     (if a < 0 then None
      else let n = nat (round_half_even (a * of_nat nanos_per_sec))
           in if n < duration_limit then Some n else None)"
| "try_from_secs_f64 _ = None"

subsection \<open>Facts on rounding\<close>

lemma rat_log2_bounds:
  assumes "0 < q"
  shows "2 powi rat_log2 q \<le> q" "q < 2 powi (rat_log2 q + 1)"
proof -
  obtain a b where ab: "quotient_of q = (a, b)" by fastforce
  have b: "b > 0" using quotient_of_denom_pos [OF ab] .
  have q: "q = of_int a / of_int b" using quotient_of_div [OF ab] .
  with assms b have a: "a > 0" by (simp add: zero_less_divide_iff)
  define m n where "m = nat (bitlen a)" and "n = nat (bitlen b)"
  have bl: "bitlen a > 0" "bitlen b > 0" using a b bitlen_nonneg bitlen_eq_zero_iff by (smt (verit))+
  have A: "2 ^ (m - 1) \<le> a" "a < 2 ^ m" "m > 0" and B: "2 ^ (n - 1) \<le> b" "b < 2 ^ n" "n > 0"
    using bitlen_bounds [OF a] bitlen_bounds [OF b] bl by (auto simp: m_def n_def nat_diff_distrib)
  have pow: "(2::rat) ^ (k - 1) = 2 powi (int k - 1)" if "k > 0" for k
    using that by (simp add: power_int_def nat_diff_distrib)
  have A': "2 powi (int m - 1) \<le> (of_int a :: rat)" "(of_int a :: rat) < 2 powi int m"
    using A pow [of m] by (metis of_int_le_iff of_int_numeral of_int_power, metis of_int_less_iff of_int_numeral of_int_power power_int_of_nat)
  have B': "2 powi (int n - 1) \<le> (of_int b :: rat)" "(of_int b :: rat) < 2 powi int n"
    using B pow [of n] by (metis of_int_le_iff of_int_numeral of_int_power, metis of_int_less_iff of_int_numeral of_int_power power_int_of_nat)
  define k where "k = int m - int n"
  have low: "2 powi (k - 1) \<le> q"
  proof -
    have "2 powi (k - 1) * of_int b \<le> 2 powi (k - 1) * (2 powi int n :: rat)" using B' by simp
    also have "\<dots> = 2 powi (int m - 1)" by (subst power_int_add [symmetric]) (simp_all add: k_def)
    also have "\<dots> \<le> of_int a" using A' by simp
    finally show ?thesis using b by (simp add: q pos_le_divide_eq)
  qed
  have high: "q < 2 powi (k + 1)"
  proof -
    have "of_int a < (2 powi int m :: rat)" using A' by simp
    also have "\<dots> = 2 powi (k + 1) * 2 powi (int n - 1)" by (subst power_int_add [symmetric]) (simp_all add: k_def)
    also have "\<dots> \<le> 2 powi (k + 1) * of_int b" using B' by simp
    finally show ?thesis using b by (simp add: q pos_divide_less_eq)
  qed
  have eq: "rat_log2 q = (if 2 powi k \<le> q then k else k - 1)"
    using bl by (simp add: rat_log2_def ab k_def m_def n_def)
  show "2 powi rat_log2 q \<le> q" using eq low by simp
  show "q < 2 powi (rat_log2 q + 1)" using eq high by auto
qed

lemma round_half_even_mono: "q \<le> r \<Longrightarrow> round_half_even q \<le> round_half_even r"
proof -
  assume le: "q \<le> r"
  have bounds: "\<lfloor>x\<rfloor> \<le> round_half_even x \<and> round_half_even x \<le> \<lfloor>x\<rfloor> + 1" for x
    by (simp add: round_half_even_def Let_def)
  show ?thesis
  proof (cases "\<lfloor>q\<rfloor> = \<lfloor>r\<rfloor>")
    case True
    with le show ?thesis by (auto simp: round_half_even_def Let_def)
  next
    case False
    with le have "\<lfloor>q\<rfloor> + 1 \<le> \<lfloor>r\<rfloor>" using floor_mono [OF le] by linarith
    with bounds [of q] bounds [of r] show ?thesis by linarith
  qed
qed

lemma round_half_even_of_int [simp]: "round_half_even (of_int i) = i"
  by (simp add: round_half_even_def)

lemma round_half_even_minus: "round_half_even (- q) = - round_half_even q"
proof (cases "q = of_int \<lfloor>q\<rfloor>")
  case True
  then have "- q = of_int (- \<lfloor>q\<rfloor>)" by simp
  with True show ?thesis by (metis round_half_even_of_int)
next
  case False
  then have fl: "\<lfloor>- q\<rfloor> = - \<lfloor>q\<rfloor> - 1" by (simp add: floor_minus ceiling_altdef)
  show ?thesis by (auto simp: round_half_even_def Let_def fl)
qed

lemma float_exponent_minus [simp]: "float_exponent (- q) = float_exponent q"
  by (simp add: float_exponent_def)

lemma round_rat_minus: "round_rat (- q) = - round_rat q"
  by (simp add: round_rat_def round_half_even_minus)

lemma round_rat_nonneg: "0 \<le> q \<Longrightarrow> 0 \<le> round_rat q"
  using round_half_even_mono [of 0 "q / 2 powi float_exponent q"] round_half_even_of_int [of 0]
  by (simp add: round_rat_def)

lemma rat_log2_mono:
  assumes "0 < q" "q \<le> r"
  shows "rat_log2 q \<le> rat_log2 r"
proof -
  have "2 powi rat_log2 q \<le> q" "r < 2 powi (rat_log2 r + 1)" using rat_log2_bounds assms by auto
  with assms have lt: "(2::rat) powi rat_log2 q < 2 powi (rat_log2 r + 1)" by linarith
  show ?thesis
  proof (rule ccontr)
    assume "\<not> ?thesis"
    then have "(2::rat) powi (rat_log2 r + 1) \<le> 2 powi rat_log2 q" by (intro power_int_increasing) auto
    with lt show False by simp
  qed
qed

lemma round_rat_mono_pos:
  assumes "0 < q" "q \<le> r"
  shows "round_rat q \<le> round_rat r"
proof -
  let ?e = "float_exponent q" and ?f = "float_exponent r"
  have pos: "(0::rat) < 2 powi i" for i by simp
  have ef: "?e \<le> ?f" using rat_log2_mono [OF assms] assms by (simp add: float_exponent_def)
  show ?thesis
  proof (cases "?e = ?f")
    case True
    have "q / 2 powi ?f \<le> r / 2 powi ?f" using assms by (simp add: divide_right_mono)
    then have "round_half_even (q / 2 powi ?f) \<le> round_half_even (r / 2 powi ?f)" by (rule round_half_even_mono)
    then show ?thesis using True assms by (simp add: round_rat_def)
  next
    case False
    with ef have lt: "?e + 1 \<le> ?f" by simp
    have "rat_log2 q + 1 \<le> ?e + 53" using assms by (simp add: float_exponent_def)
    then have "(2::rat) powi (rat_log2 q + 1) \<le> 2 powi (?e + 53)" by (simp add: power_int_increasing)
    with rat_log2_bounds [OF assms(1)] have "q \<le> 2 powi (?e + 53)" by linarith
    then have "q / 2 powi ?e \<le> of_int (2 ^ 53)" by (simp add: pos_divide_le_eq power_int_add)
    then have "round_half_even (q / 2 powi ?e) \<le> 2 ^ 53"
      using round_half_even_mono round_half_even_of_int by metis
    then have "of_int (round_half_even (q / 2 powi ?e)) \<le> (of_int (2 ^ 53) :: rat)" by (simp only: of_int_le_iff)
    then have upper: "round_rat q \<le> of_int (2 ^ 53) * 2 powi ?e" using assms by (simp add: round_rat_def)
    have f: "?f = rat_log2 r - 52" using lt assms by (simp add: float_exponent_def)
    have "2 powi rat_log2 r \<le> r" using rat_log2_bounds assms by auto
    then have "of_int (2 ^ 52) \<le> r / 2 powi ?f" by (simp add: f pos_le_divide_eq power_int_diff)
    then have "2 ^ 52 \<le> round_half_even (r / 2 powi ?f)"
      using round_half_even_mono round_half_even_of_int by metis
    then have "(of_int (2 ^ 52) :: rat) \<le> of_int (round_half_even (r / 2 powi ?f))" by (simp only: of_int_le_iff)
    then have lower: "of_int (2 ^ 52) * 2 powi ?f \<le> round_rat r" using assms by (simp add: round_rat_def)
    have "of_int (2 ^ 53) * (2::rat) powi ?e = of_int (2 ^ 52) * 2 powi (?e + 1)" by (simp add: power_int_add)
    also have "\<dots> \<le> of_int (2 ^ 52) * 2 powi ?f" using lt by (simp add: power_int_increasing)
    finally show ?thesis using upper lower by linarith
  qed
qed

lemma round_rat_mono:
  assumes "q \<le> r"
  shows "round_rat q \<le> round_rat r"
proof -
  consider "0 < q" | "q \<le> 0" "0 \<le> r" | "r < 0" by linarith
  then show ?thesis
  proof cases
    case 1
    then show ?thesis using assms by (rule round_rat_mono_pos)
  next
    case 2
    then have "0 \<le> round_rat (- q)" "0 \<le> round_rat r" by (auto intro: round_rat_nonneg)
    then show ?thesis by (simp add: round_rat_minus)
  next
    case 3
    then have "round_rat (- r) \<le> round_rat (- q)" using assms by (intro round_rat_mono_pos) auto
    then show ?thesis by (simp add: round_rat_minus)
  qed
qed

lemma round_f64_mono: "q \<le> r \<Longrightarrow> fle (round_f64 q) (round_f64 r)"
  using round_rat_mono [of q r] by (simp add: round_f64_def Let_def)

text \<open>Integers below \<open>2 ^ 53\<close> are floats.\<close>

lemma round_rat_of_nat:
  assumes "n < 2 ^ 53"
  shows "round_rat (of_nat n) = of_nat n"
proof (cases "n = 0")
  case False
  define e where "e = float_exponent (of_nat n)"
  have "2 powi rat_log2 (of_nat n) \<le> (of_nat n :: rat)" using rat_log2_bounds(1) [of "of_nat n"] False by simp
  moreover have "(of_nat n :: rat) < of_nat (2 ^ 53)" using assms by (simp only: of_nat_less_iff)
  ultimately have lt: "(2::rat) powi rat_log2 (of_nat n) < 2 powi 53" by simp
  have "rat_log2 (of_nat n) < 53"
  proof (rule ccontr)
    assume "\<not> ?thesis"
    then have "(2::rat) powi 53 \<le> 2 powi rat_log2 (of_nat n)" by (intro power_int_increasing) auto
    with lt show False by simp
  qed
  then have e: "e \<le> 0" by (simp add: e_def float_exponent_def)
  then have "(of_nat n :: rat) / 2 powi e = of_int (int n * 2 ^ nat (- e))"
    by (simp add: power_int_def field_simps)
  then have "round_half_even (of_nat n / 2 powi e) = int n * 2 ^ nat (- e)" by (metis round_half_even_of_int)
  then have "round_rat (of_nat n) = of_int (int n * 2 ^ nat (- e)) * 2 powi e"
    using False by (simp add: round_rat_def e_def)
  also have "\<dots> = of_nat n" using e by (simp add: power_int_def field_simps)
  finally show ?thesis .
qed (simp add: round_rat_def)

lemma round_f64_of_nat:
  assumes "n < 2 ^ 53"
  shows "round_f64 (of_nat n) = FFin (of_nat n)"
proof -
  have "(of_nat n :: rat) < of_nat (2 ^ 53)" using assms by (simp only: of_nat_less_iff)
  also have "\<dots> \<le> (2 ^ 1024 :: rat)" by simp
  finally have "(of_nat n :: rat) < 2 ^ 1024" .
  moreover have "- (2 ^ 1024) < (of_nat n :: rat)"
    by (rule less_le_trans [of _ 0]) simp_all
  ultimately show ?thesis using assms by (simp add: round_f64_def round_rat_of_nat Let_def not_le)
qed

text \<open>A rounded value is a float: rounding it again changes nothing.\<close>

definition is_f64 :: "rat \<Rightarrow> bool" where
  "is_f64 q \<longleftrightarrow> round_rat q = q"

lemma is_f64_zero [simp]: "is_f64 0"
  by (simp add: is_f64_def round_rat_def)

lemma is_f64_minus [simp]: "is_f64 (- q) = is_f64 q"
  by (simp add: is_f64_def round_rat_minus)

lemma is_f64_of_nat: "n < 2 ^ 53 \<Longrightarrow> is_f64 (of_nat n)"
  by (simp add: is_f64_def round_rat_of_nat)

lemma scaled_is_f64:
  assumes "\<bar>m\<bar> \<le> 2 ^ 53" "- 1074 \<le> e" "m > 0"
  shows "is_f64 (of_int m * 2 powi e)"
proof -
  let ?r = "of_int m * (2::rat) powi e" and ?f = "float_exponent (of_int m * 2 powi e)"
  have pos: "?r > 0" using assms by simp
  have "(of_int m :: rat) \<le> of_int (2 ^ 53)" using assms by (simp only: of_int_le_iff)
  then have "?r \<le> 2 powi 53 * 2 powi e" by (intro mult_right_mono) simp_all
  also have "\<dots> = 2 powi (53 + e)" by (simp add: power_int_add)
  finally have up: "?r \<le> 2 powi (53 + e)" .
  have low: "2 powi rat_log2 ?r \<le> ?r" using rat_log2_bounds(1) [OF pos] .
  have f: "?f = max (rat_log2 ?r - 52) (- 1074)" using pos by (simp add: float_exponent_def)
  have "\<exists>k. ?r / 2 powi ?f = of_int k"
  proof (cases "?f \<le> e")
    case True
    then have "?r / 2 powi ?f = of_int m * 2 powi (e - ?f)" by (simp add: power_int_diff)
    also have "\<dots> = of_int (m * 2 ^ nat (e - ?f))" using True by (simp add: power_int_def)
    finally show ?thesis by blast
  next
    case False
    with f assms(2) have "e + 53 \<le> rat_log2 ?r" by linarith
    then have "(2::rat) powi (53 + e) \<le> 2 powi rat_log2 ?r" by (intro power_int_increasing) auto
    with up low have eq: "?r = 2 powi rat_log2 ?r" by linarith
    have "rat_log2 ?r \<le> 53 + e"
    proof (rule ccontr)
      assume "\<not> ?thesis"
      then have "(2::rat) powi (53 + e) < 2 powi rat_log2 ?r" by (intro power_int_strict_increasing) auto
      with up low show False by linarith
    qed
    with \<open>e + 53 \<le> rat_log2 ?r\<close> have l: "rat_log2 ?r = e + 53" by simp
    with f assms(2) have "?f = e + 1" by simp
    moreover have "?r / 2 powi (e + 1) = of_int (2 ^ 52)"
      unfolding l [THEN arg_cong [of _ _ "\<lambda>x. (2::rat) powi x"], folded eq] by (simp add: power_int_add)
    ultimately show ?thesis by metis
  qed
  then obtain k where k: "?r / 2 powi ?f = of_int k" by blast
  then have "round_rat ?r = of_int k * 2 powi ?f" using pos assms(3) by (simp add: round_rat_def)
  also have "\<dots> = ?r" by (simp add: k [symmetric])
  finally show ?thesis by (simp add: is_f64_def)
qed

lemma round_rat_is_f64: "is_f64 (round_rat q)"
proof -
  have pos: "is_f64 (round_rat q)" if q: "q > 0" for q
  proof -
    let ?e = "float_exponent q"
    let ?m = "round_half_even (q / 2 powi ?e)"
    have "rat_log2 q + 1 \<le> ?e + 53" using q by (simp add: float_exponent_def)
    then have "(2::rat) powi (rat_log2 q + 1) \<le> 2 powi (?e + 53)" by (simp add: power_int_increasing)
    with rat_log2_bounds(2) [OF q] have "q \<le> 2 powi (?e + 53)" by linarith
    then have "q / 2 powi ?e \<le> of_int (2 ^ 53)" by (simp add: pos_divide_le_eq power_int_add)
    then have "?m \<le> 2 ^ 53" using round_half_even_mono round_half_even_of_int by metis
    moreover have "0 \<le> ?m" using round_half_even_mono [of 0 "q / 2 powi ?e"] round_half_even_of_int [of 0] q by simp
    moreover have "- 1074 \<le> ?e" by (simp add: float_exponent_def)
    ultimately have "?m = 0 \<or> is_f64 (of_int ?m * 2 powi ?e)" using scaled_is_f64 [of ?m ?e] by linarith
    moreover have "round_rat q = of_int ?m * 2 powi ?e" using q by (simp add: round_rat_def)
    ultimately show ?thesis by auto
  qed
  consider "q > 0" | "q = 0" | "q < 0" by linarith
  then show ?thesis
  proof cases
    case 1
    then show ?thesis by (rule pos)
  next
    case 2
    then show ?thesis by (simp add: round_rat_def)
  next
    case 3
    with pos [of "- q"] show ?thesis by (simp add: round_rat_minus)
  qed
qed

lemma round_f64_FFin: "round_f64 q = FFin r \<Longrightarrow> r = round_rat q \<and> is_f64 r"
  by (auto simp: round_f64_def Let_def round_rat_is_f64 split: if_splits)

lemma round_f64_nonneg:
  assumes "0 \<le> q"
  shows "round_f64 q = FPosInf \<or> round_f64 q = FFin (round_rat q) \<and> is_f64 (round_rat q) \<and> 0 \<le> round_rat q"
proof -
  have r: "0 \<le> round_rat q" using assms by (rule round_rat_nonneg)
  have "- (2 ^ 1024) < (0::rat)" by simp
  with r have "\<not> round_rat q \<le> - (2 ^ 1024)" by linarith
  then show ?thesis
    using r round_rat_is_f64 unfolding round_f64_def Let_def by (simp only: if_False split: if_split) blast
qed

end
