(* ===== verification/Error_Category.thy ===== *)
theory Error_Category
  imports VT_Prelude Rust_Float
begin

text \<open>
  The error taxonomy (\<open>vtcode-commons/src/error_category.rs\<close>): the categories and what each implies for
  retries and the circuit breaker, the classification of a message by ordered groups of markers and
  of a provider error by its metadata. And the detector of user misconfiguration
  (\<open>vtcode-commons/src/misconfiguration.rs\<close>), which takes precedence over every retry.
\<close>

subsection \<open>Categories\<close>

datatype error_category =
    Network | Timeout | RateLimit | ServiceUnavailable | CircuitOpen
  | Authentication | InvalidParameters | ToolNotFound | ResourceNotFound | PermissionDenied
  | PolicyViolation | PlanningPolicyViolation | SandboxFailure | ResourceExhausted | Cancelled
  | ExecutionError

datatype backoff_strategy = Exponential duration duration | Fixed duration

datatype retryability = Retryable nat backoff_strategy | NonRetryable | RequiresIntervention

definition is_retryable :: "error_category \<Rightarrow> bool" where
  "is_retryable c \<longleftrightarrow> c \<in> {Network, Timeout, RateLimit, ServiceUnavailable, CircuitOpen}"

definition should_trip_circuit_breaker :: "error_category \<Rightarrow> bool" where
  "should_trip_circuit_breaker c \<longleftrightarrow> c \<in> {Network, Timeout, RateLimit, ServiceUnavailable, ExecutionError}"

definition is_llm_mistake :: "error_category \<Rightarrow> bool" where
  "is_llm_mistake c \<longleftrightarrow> c = InvalidParameters"

definition is_permanent :: "error_category \<Rightarrow> bool" where
  "is_permanent c \<longleftrightarrow>
     c \<in> {Authentication, PolicyViolation, PlanningPolicyViolation, ResourceExhausted}"

fun category_retryability :: "error_category \<Rightarrow> retryability" where
  "category_retryability Network = Retryable 3 (Exponential (from_millis 500) (from_secs 10))"
| "category_retryability ServiceUnavailable = Retryable 3 (Exponential (from_millis 500) (from_secs 10))"
| "category_retryability Timeout = Retryable 2 (Exponential (from_millis 1000) (from_secs 15))"
| "category_retryability RateLimit = Retryable 3 (Exponential (from_secs 1) (from_secs 30))"
| "category_retryability CircuitOpen = Retryable 1 (Fixed (from_secs 10))"
| "category_retryability PermissionDenied = RequiresIntervention"
| "category_retryability _ = NonRetryable"

fun user_label :: "error_category \<Rightarrow> string" where
  "user_label Network = ''Network error''"
| "user_label Timeout = ''Request timed out''"
| "user_label RateLimit = ''Rate limit exceeded''"
| "user_label ServiceUnavailable = ''Service temporarily unavailable''"
| "user_label CircuitOpen = ''Tool temporarily disabled''"
| "user_label Authentication = ''Authentication failed''"
| "user_label InvalidParameters = ''Invalid parameters''"
| "user_label ToolNotFound = ''Tool not found''"
| "user_label ResourceNotFound = ''Resource not found''"
| "user_label PermissionDenied = ''Permission denied''"
| "user_label PolicyViolation = ''Blocked by policy''"
| "user_label PlanningPolicyViolation = ''Not allowed in planning workflow''"
| "user_label SandboxFailure = ''Sandbox denied''"
| "user_label ResourceExhausted = ''Resource limit reached''"
| "user_label Cancelled = ''Operation cancelled''"
| "user_label ExecutionError = ''Execution failed''"

subsection \<open>Markers\<close>

definition contains_any :: "string \<Rightarrow> string list \<Rightarrow> bool" where
  "contains_any message markers = list_ex (contains_str message) markers"

definition context_capacity_markers :: "string list" where
  "context_capacity_markers =
    [''context_length_exceeded'', ''context length exceeded'', ''maximum context length'',
     ''maximum context window'', ''context window exceeded'', ''context window is too small'',
     ''exceeds the model's maximum context'', ''exceeds model context'',
     ''exceeds the maximum context'', ''prompt is too long'', ''input is too long'',
     ''input token count exceeds'', ''exceeds the maximum number of tokens'', ''maximum input tokens'',
     ''too many tokens in the prompt'', ''request exceeds the context'', ''context limit exceeded'',
     ''context size exceeded'', ''exceeds context'', ''input tokens exceed'', ''prompt tokens exceed'',
     ''prompt token count exceeds'', ''token limit exceeded'', ''input too large'', ''prompt too large'']"

definition policy_markers :: "string list" where
  "policy_markers =
    [''policy violation'', ''denied by policy'', ''tool permission denied'',
     ''safety validation failed'', ''not allowed in planning workflow'',
     ''only available when planning workflow is active'', ''workspace boundary'', ''blocked by policy'']"

definition planning_markers :: "string list" where
  "planning_markers =
    [''planning workflow'', ''read-only permissions'', ''read-only mode'', ''planning_policy_violation'']"

definition authentication_markers :: "string list" where
  "authentication_markers =
    [''invalid api key'', ''authentication failed'', ''unauthorized'', ''401'', ''invalid credentials'']"

definition quota_markers :: "string list" where
  "quota_markers =
    [''weekly usage limit'', ''daily usage limit'', ''monthly spending limit'',
     ''insufficient credits'', ''quota exceeded'', ''billing'', ''payment required'']"

definition parameter_markers :: "string list" where
  "parameter_markers =
    [''invalid argument'', ''invalid parameters'', ''invalid type'', ''malformed'',
     ''failed to parse arguments'', ''failed to parse argument'', ''missing required'',
     ''at least one item is required'', ''is required for'', ''schema validation'',
     ''argument validation failed'', ''unknown field'', ''unknown variant'', ''expected struct'',
     ''expected enum'', ''type mismatch'', ''must be an absolute path'', ''not parseable'',
     ''parseable as'', ''invalid patch format'', ''invalid patch hunk'', ''invalid patch operation'',
     ''cannot parse empty patch'', ''patch does not contain'', ''semantic patch anchor'']"

definition tool_missing_markers :: "string list" where
  "tool_missing_markers =
    [''tool not found'', ''unknown tool'', ''unsupported tool'', ''no such tool'']"

definition resource_missing_markers :: "string list" where
  "resource_missing_markers =
    [''no such file'', ''no such directory'', ''file not found'', ''directory not found'',
     ''resource not found'', ''path not found'', ''does not exist'', ''enoent'']"

definition permission_markers :: "string list" where
  "permission_markers =
    [''permission denied'', ''access denied'', ''operation not permitted'', ''eacces'', ''eperm'',
     ''forbidden'', ''403'']"

definition cancel_markers :: "string list" where
  "cancel_markers =
    [''cancelled'', ''interrupted'', ''canceled'']"

definition circuit_markers :: "string list" where
  "circuit_markers =
    [''circuit breaker'', ''circuit open'']"

definition sandbox_failure_markers :: "string list" where
  "sandbox_failure_markers =
    [''sandbox denied'', ''sandbox failure'']"

definition rate_limit_markers :: "string list" where
  "rate_limit_markers =
    [''rate limit'', ''too many requests'', ''429'', ''throttl'']"

definition timeout_markers :: "string list" where
  "timeout_markers =
    [''timeout'', ''timed out'', ''deadline exceeded'']"

definition response_markers :: "string list" where
  "response_markers =
    [''invalid response format: missing choices'', ''invalid response format: missing message'',
     ''missing choices in response'', ''missing message in choice'', ''no choices in response'',
     ''invalid response from '', ''empty response body'', ''response did not contain'',
     ''unexpected response format'', ''failed to parse response'', ''stream disconnected'',
     ''stream closed unexpectedly'', ''incomplete stream'', ''unexpected end of stream'',
     ''truncated response'', ''failed to decode stream'', ''stream terminated'']"

definition unavailable_markers :: "string list" where
  "unavailable_markers =
    [''service unavailable'', ''temporarily unavailable'', ''internal server error'', ''bad gateway'',
     ''gateway timeout'', ''overloaded'', ''500'', ''502'', ''503'', ''504'']"

definition network_markers :: "string list" where
  "network_markers =
    [''network'', ''connection reset'', ''connection refused'', ''broken pipe'', ''dns'',
     ''name resolution'', ''try again'', ''retry later'', ''upstream connect error'',
     ''tls handshake'', ''socket hang up'', ''econnreset'', ''etimedout'',
     ''error decoding response body'', ''connection closed before'', ''stream reset'',
     ''stream error received'']"

definition exhausted_markers :: "string list" where
  "exhausted_markers =
    [''out of memory'', ''disk full'', ''no space left'']"

definition is_context_capacity_message :: "string \<Rightarrow> bool" where
  "is_context_capacity_message message = contains_any (to_ascii_lowercase message) context_capacity_markers"

subsection \<open>Classification of a message\<close>

definition classify_error_message :: "string \<Rightarrow> error_category" where
  "classify_error_message message =
     (let msg = (if list_ex is_ascii_upper message then to_ascii_lowercase message else message)
      in if contains_any msg policy_markers then PolicyViolation
         else if contains_any msg planning_markers then PlanningPolicyViolation
         else if contains_any msg authentication_markers then Authentication
         else if contains_any msg quota_markers then ResourceExhausted
         else if contains_any msg parameter_markers then InvalidParameters
         else if contains_any msg tool_missing_markers then ToolNotFound
         else if contains_any msg resource_missing_markers then ResourceNotFound
         else if contains_any msg permission_markers then PermissionDenied
         else if contains_any msg cancel_markers then Cancelled
         else if contains_any msg circuit_markers then CircuitOpen
         else if contains_any msg sandbox_failure_markers then SandboxFailure
         else if contains_any msg rate_limit_markers then RateLimit
         else if contains_any msg timeout_markers then Timeout
         else if contains_any msg response_markers then ServiceUnavailable
         else if contains_any msg unavailable_markers then ServiceUnavailable
         else if contains_any msg network_markers then Network
         else if contains_any msg exhausted_markers then ResourceExhausted
         else ExecutionError)"

text \<open>\<open>classify_anyhow_error\<close>, on the displayed error.\<close>

definition classify_anyhow_error :: "string \<Rightarrow> error_category" where
  "classify_anyhow_error shown = classify_error_message (to_ascii_lowercase shown)"

definition is_retryable_llm_error_message :: "string \<Rightarrow> bool" where
  "is_retryable_llm_error_message msg = is_retryable (classify_error_message msg)"

subsection \<open>Provider errors\<close>

record llm_metadata =
  lm_status :: "nat option"
  lm_code :: "string option"
  lm_retry_after :: "string option"
  lm_message :: "string option"

datatype llm_error =
    LLMAuthentication string "llm_metadata option"
  | LLMRateLimit "llm_metadata option"
  | LLMInvalidRequest string "llm_metadata option"
  | LLMNetwork string "llm_metadata option"
  | LLMProvider string "llm_metadata option"

fun opt_text :: "string option \<Rightarrow> string" where
  "opt_text None = []"
| "opt_text (Some t) = t @ '' ''"

definition metadata_hint :: "llm_metadata \<Rightarrow> string" where
  "metadata_hint m =
     opt_text (lm_code m) @ opt_text (lm_message m)
     @ (case lm_status m of None \<Rightarrow> [] | Some s \<Rightarrow> show_nat s)"

definition classify_llm_metadata :: "llm_metadata option \<Rightarrow> error_category \<Rightarrow> error_category" where
  "classify_llm_metadata metadata fallback =
     (case metadata of
        None \<Rightarrow> fallback
      | Some m \<Rightarrow>
          (let classified = classify_error_message (metadata_hint m)
           in if classified = ExecutionError then fallback else classified))"

definition category_of_status :: "nat \<Rightarrow> string \<Rightarrow> error_category" where
  "category_of_status status message =
     (if status = 401 then Authentication
      else if status = 403 then PermissionDenied
      else if status = 404 then ResourceNotFound
      else if status = 429 then RateLimit
      else if status = 400 then InvalidParameters
      else if status \<in> {500, 502, 503, 504} then ServiceUnavailable
      else if status = 408 then Timeout
      else classify_error_message message)"

fun category_of_llm_error :: "llm_error \<Rightarrow> error_category" where
  "category_of_llm_error (LLMAuthentication message metadata) = Authentication"
| "category_of_llm_error (LLMRateLimit metadata) = classify_llm_metadata metadata RateLimit"
| "category_of_llm_error (LLMInvalidRequest message metadata) = InvalidParameters"
| "category_of_llm_error (LLMNetwork message metadata) = Network"
| "category_of_llm_error (LLMProvider message metadata) =
     (let metadata_category = classify_llm_metadata metadata ExecutionError
      in if metadata_category \<noteq> ExecutionError then metadata_category
         else case metadata of
                None \<Rightarrow> classify_error_message message
              | Some m \<Rightarrow>
                  (case lm_status m of
                     Some status \<Rightarrow> category_of_status status message
                   | None \<Rightarrow> classify_error_message message))"

subsection \<open>Misconfiguration\<close>

datatype misconfiguration_kind =
    MAuthentication | MModel | MProvider | MBaseUrl | MApiKeyEnv | MConfigFile | MMcp | MSamplingParams

record config_guidance =
  cg_kind :: misconfiguration_kind
  cg_setting :: string
  cg_location :: string
  cg_fix :: string

definition guidance_message :: "config_guidance \<Rightarrow> string" where
  "guidance_message g =
     ''Check settings/config first ('' @ cg_setting g @ '' in '' @ cg_location g @ ''): '' @ cg_fix g
     @ '' Correct the configuration before retrying.''"

definition auth_guidance :: config_guidance where
  "auth_guidance =
     \<lparr>cg_kind = MAuthentication, cg_setting = ''API key / credentials'',
      cg_location = ''secure storage (`vtcode secret` or `/secret`) or environment'',
      cg_fix = ''Authentication failed. Run `vtcode secret add <provider>` (or `/secret add <provider>` in TUI) for API-key providers or `vtcode login <provider>` (or `/login <provider>` in TUI) for managed auth, verify the env var is exported, then retry.''\<rparr>"

definition config_file_words :: "string list" where
  "config_file_words =
    [''vtcode.toml'', ''config invalid'', ''config missing'', ''config parse'', ''configparse'',
     ''failed to parse config'', ''malformed config'', ''invalid custom_providers'',
     ''invalid provider_overrides'', ''repository-controlled'', ''protected field'']"

definition endpoint_words :: "string list" where
  "endpoint_words =
    [''invalid endpoint'', ''invalid base url'', ''unsupported protocol'', ''endpoint must'',
     ''endpoint is invalid'']"

definition endpoint_problem_words :: "string list" where
  "endpoint_problem_words =
    [''invalid'', ''empty'', ''missing'', ''must'', ''cannot'', ''malformed'', ''parse'', ''scheme'']"

definition api_key_env_words :: "string list" where
  "api_key_env_words =
    [''invalid `api_key_env`'', ''invalid api_key_env'', ''api key env'', ''api_key_env must'',
     ''missing api key'', ''no api key'', ''api key not found'', ''api key is not set'',
     ''api key not configured'', ''api key is required'', ''api key environment variable must'',
     ''missing mcp api key'', ''api-key env'']"

definition provider_words :: "string list" where
  "provider_words =
    [''unknown provider'', ''unknown_provider'', ''invalid provider'', ''invalid_provider'',
     ''unsupported provider'', ''unsupported_provider'', ''provider not found'', ''provider_not_found'']"

definition provider_problem_words :: "string list" where
  "provider_problem_words =
    [''invalid'', ''unknown'', ''unsupported'', ''not found'', ''missing'', ''empty'']"

definition model_words :: "string list" where
  "model_words =
    [''unknown model'', ''unknown_model'', ''invalid model'', ''invalid_model'', ''model not found'',
     ''model_not_found'', ''model not available'', ''model_not_available'', ''unsupported model'',
     ''unsupported_model'', ''model does not exist'', ''model doesn't exist'',
     ''model is not supported'', ''model not supported'', ''catalog-missing'', ''catalog missing'']"

definition model_problem_words :: "string list" where
  "model_problem_words =
    [''invalid'', ''unknown'', ''not found'', ''not available'', ''unsupported'', ''missing'', ''empty'']"

definition sampling_words :: "string list" where
  "sampling_words =
    [''temperature'', ''top_p'', ''top_k'', ''reasoning_effort'', ''max_tokens'', ''penalt'']"

definition sampling_problem_words :: "string list" where
  "sampling_problem_words =
    [''range'', ''out of range'', ''invalid'', ''must be'', ''validation'']"

definition credential_words :: "string list" where
  "credential_words =
    [''invalid api key'', ''invalid_api_key'', ''authentication failed'', ''authentication_failed'',
     ''unauthorized'', ''invalid credentials'', ''key was rejected'', ''re-authenticate'',
     ''/secret add'', ''/login '']"

definition config_file_problem :: "string \<Rightarrow> bool" where
  "config_file_problem msg \<longleftrightarrow>
     contains_any msg config_file_words
     \<or> contains_str msg ''workspace_lifecycle_hooks''
       \<and> contains_any msg [''invalid'', ''missing'', ''not allowed'', ''config'']"

definition endpoint_problem :: "string \<Rightarrow> bool" where
  "endpoint_problem msg \<longleftrightarrow>
     contains_any msg endpoint_words
     \<or> contains_str msg ''base_url'' \<and> contains_any msg endpoint_problem_words"

definition provider_problem :: "string \<Rightarrow> bool" where
  "provider_problem msg \<longleftrightarrow>
     contains_any msg provider_words
     \<or> contains_any msg [''agent.provider'', ''custom_providers'', ''provider_overrides'']
       \<and> contains_any msg provider_problem_words"

definition model_problem :: "string \<Rightarrow> bool" where
  "model_problem msg \<longleftrightarrow>
     contains_any msg model_words
     \<or> contains_str msg ''model ''
       \<and> contains_any msg ['' is not supported'', '' not supported by'', '' not supported with'']
     \<or> contains_any msg [''model id'', ''model_id'', ''agent.model'', ''agent.default_model'']
       \<and> contains_any msg model_problem_words"

definition mcp_problem_words :: "string list" where
  "mcp_problem_words = [''invalid'', ''missing'', ''not allowed'', ''must'', ''unsupported'']"

definition mcp_problem :: "string \<Rightarrow> bool" where
  "mcp_problem msg \<longleftrightarrow>
     contains_any msg [''mcp config'', ''https when enabled'']
     \<or> contains_any msg [''mcp server'', ''mcp url'', ''webmcp''] \<and> contains_any msg mcp_problem_words
     \<or> contains_str msg ''mcp'' \<and> contains_any msg [''origin'', ''roots'', ''https'', ''url'', ''config'']
       \<and> contains_any msg mcp_problem_words"

definition sampling_problem :: "string \<Rightarrow> bool" where
  "sampling_problem msg \<longleftrightarrow> contains_any msg sampling_words \<and> contains_any msg sampling_problem_words"

definition detect_misconfiguration :: "error_category \<Rightarrow> string \<Rightarrow> config_guidance option" where
  "detect_misconfiguration category message =
     (if category = Authentication then Some auth_guidance
      else let msg = to_ascii_lowercase message
           in if config_file_problem msg
              then Some \<lparr>cg_kind = MConfigFile, cg_setting = ''vtcode.toml'',
                cg_location = ''workspace / user / system config layers'',
                cg_fix = ''Invalid config file. Validate vtcode.toml syntax and fields, keep `custom_providers` and `provider_overrides.*.base_url`/`api_key_env` out of repository layers, then retry.''\<rparr>
              else if endpoint_problem msg
              then Some \<lparr>cg_kind = MBaseUrl, cg_setting = ''provider_overrides.*.base_url / custom_providers.*.base_url'',
                cg_location = ''system / user / explicit config file only'',
                cg_fix = ''Invalid endpoint. Check `base_url` is non-empty, uses a supported URL scheme, and is reachable, then retry.''\<rparr>
              else if contains_any msg api_key_env_words
              then Some \<lparr>cg_kind = MApiKeyEnv, cg_setting = ''api_key_env'',
                cg_location = ''vtcode.toml + environment'',
                cg_fix = ''Invalid API-key config. Check `api_key_env` names a valid exported env var (or use `/secret`), then retry.''\<rparr>
              else if provider_problem msg
              then Some \<lparr>cg_kind = MProvider, cg_setting = ''agent.provider'', cg_location = ''vtcode.toml'',
                cg_fix = ''Unknown/invalid provider. Check `agent.provider` and `custom_providers` in vtcode.toml, then retry.''\<rparr>
              else if model_problem msg
              then Some \<lparr>cg_kind = MModel, cg_setting = ''agent.default_model'',
                cg_location = ''vtcode.toml / `/model` picker'',
                cg_fix = ''Unknown/invalid model. Check `agent.default_model` in vtcode.toml or run `/model` to pick a supported ModelId, then retry.''\<rparr>
              else if mcp_problem msg
              then Some \<lparr>cg_kind = MMcp, cg_setting = ''mcp / webmcp'', cg_location = ''vtcode.toml'',
                cg_fix = ''MCP misconfiguration. Check `mcp`/`webmcp` URLs are HTTPS, origins and roots are allowed, then retry.''\<rparr>
              else if sampling_problem msg
              then Some \<lparr>cg_kind = MSamplingParams, cg_setting = ''sampling params'',
                cg_location = ''vtcode.toml custom_providers / profile'',
                cg_fix = ''Invalid sampling param. Check temperature/top_p/top_k/penalties/max_tokens/reasoning_effort ranges in the provider profile, then retry.''\<rparr>
              else if contains_any msg credential_words then Some auth_guidance
              else None)"

definition is_misconfiguration :: "error_category \<Rightarrow> string \<Rightarrow> bool" where
  "is_misconfiguration category message \<longleftrightarrow> detect_misconfiguration category message \<noteq> None"

end
