(* ===== verification/Retry_Loop.thy ===== *)
theory Retry_Loop
  imports Error_Category
begin

text \<open>
  The retry policy (\<open>vtcode-commons/src/retry.rs\<close>) and the loop that follows it
  (\<open>vtcode-core/src/retry.rs\<close>, with \<open>VtCodeError\<close> of \<open>vtcode-core/src/error.rs\<close>). The operation is a state
  transformer, the callback a function on the state; a run returns the result, the final state and
  the events in order. The sleep before the next attempt is the delay of a backoff event. \<open>f64::powi\<close>,
  whose precision the language leaves open, is the parameter \<open>powi\<close>.
\<close>

subsection \<open>The policy\<close>

record retry_policy =
  rp_max_attempts :: nat
  rp_initial_delay :: duration
  rp_max_delay :: duration
  rp_multiplier :: f64
  rp_jitter :: f64

definition retry_new :: "nat \<Rightarrow> duration \<Rightarrow> duration \<Rightarrow> f64 \<Rightarrow> retry_policy" where
  "retry_new max_attempts initial_delay max_delay multiplier =
     \<lparr>rp_max_attempts = (if max_attempts < 1 then 1 else max_attempts),
      rp_initial_delay = initial_delay, rp_max_delay = max_delay,
      rp_multiplier = (if flt multiplier (FFin 1) then FFin 1 else multiplier),
      rp_jitter = FFin 0\<rparr>"

definition from_retries :: "nat \<Rightarrow> duration \<Rightarrow> duration \<Rightarrow> f64 \<Rightarrow> retry_policy" where
  "from_retries max_retries initial_delay max_delay multiplier =
     retry_new (min (max_retries + 1) u32_max) initial_delay max_delay multiplier"

definition default_retry_policy :: retry_policy where
  "default_retry_policy = from_retries 2 (from_secs 1) (from_secs 60) (FFin 2)"

definition simple_retry_policy :: "nat \<Rightarrow> nat \<Rightarrow> nat \<Rightarrow> retry_policy" where
  "simple_retry_policy max_retries base_ms max_ms =
     from_retries max_retries (from_millis base_ms) (from_millis max_ms) (FFin 2)"

text \<open>The cast \<open>as i32\<close> of a \<open>u32\<close> keeps the bits.\<close>

definition i32_of_u32 :: "nat \<Rightarrow> int" where
  "i32_of_u32 n = (if n < 2 ^ 31 then int n else int n - 2 ^ 32)"

definition base_delay :: "(f64 \<Rightarrow> int \<Rightarrow> f64) \<Rightarrow> retry_policy \<Rightarrow> nat \<Rightarrow> duration" where
  "base_delay powi_fn p attempt =
     (let multiplier = powi_fn (rp_multiplier p) (i32_of_u32 attempt)
      in min (case try_from_secs_f64 (fmul (as_secs_f64 (rp_initial_delay p)) multiplier) of
                Some d \<Rightarrow> d
              | None \<Rightarrow> rp_max_delay p)
             (rp_max_delay p))"

definition max_jitter_ms :: "duration \<Rightarrow> f64 \<Rightarrow> nat" where
  "max_jitter_ms base jitter =
     (let r = f_round (fmul (f_of_nat (as_millis base)) jitter);
          clamped = (if r = FNaN then FNaN
                     else if flt r (FFin 0) then FFin 0
                     else if flt (f_of_nat u64_max) r then f_of_nat u64_max
                     else r)
      in f_to_uint u64_max clamped)"

definition delay_for_attempt :: "(f64 \<Rightarrow> int \<Rightarrow> f64) \<Rightarrow> retry_policy \<Rightarrow> nat \<Rightarrow> duration" where
  "delay_for_attempt powi_fn p attempt =
     (let base = base_delay powi_fn p attempt
      in if \<not> is_finite (rp_jitter p) \<or> fle (rp_jitter p) (FFin 0) then base
         else let mj = max_jitter_ms base (rp_jitter p)
              in if mj = 0 then base
                 else duration_saturating_add base
                        (from_millis (attempt * 31 mod min (mj + 1) u64_max)))"

record retry_decision =
  rd_category :: error_category
  rd_retryable :: bool
  rd_delay :: "duration option"
  rd_retry_after :: "duration option"

definition refuse :: "error_category \<Rightarrow> duration option \<Rightarrow> retry_decision" where
  "refuse category retry_after =
     \<lparr>rd_category = category, rd_retryable = False, rd_delay = None, rd_retry_after = retry_after\<rparr>"

definition decision_for_category ::
  "(f64 \<Rightarrow> int \<Rightarrow> f64) \<Rightarrow> retry_policy \<Rightarrow> error_category \<Rightarrow> nat \<Rightarrow> duration option \<Rightarrow> retry_decision" where
  "decision_for_category powi_fn p category attempt retry_after =
     (let has_remaining_attempts = min (attempt + 1) u32_max < rp_max_attempts p
      in if \<not> is_retryable category \<or> \<not> has_remaining_attempts then refuse category retry_after
         else \<lparr>rd_category = category, rd_retryable = True,
               rd_delay = Some (case retry_after of Some d \<Rightarrow> d | None \<Rightarrow> delay_for_attempt powi_fn p attempt),
               rd_retry_after = retry_after\<rparr>)"

definition attempt_agnostic :: "error_category \<Rightarrow> retry_decision" where
  "attempt_agnostic category =
     \<lparr>rd_category = category, rd_retryable = is_retryable category, rd_delay = None, rd_retry_after = None\<rparr>"

definition classify_anyhow :: "string \<Rightarrow> retry_decision" where
  "classify_anyhow shown = attempt_agnostic (classify_anyhow_error shown)"

definition classify_status :: "nat \<Rightarrow> retry_decision" where
  "classify_status status =
     attempt_agnostic
       (if status = 429 then RateLimit
        else if status \<in> {500, 502, 504} then Network
        else if status = 503 then ServiceUnavailable
        else if status \<in> {401, 403} then Authentication
        else ExecutionError)"

subsection \<open>The error of the core\<close>

datatype error_code =
    EInvalidArgument | EValidationFailed | EParseError
  | ECommandFailed | EToolExecutionFailed | ETimeout
  | EConnectionFailed | ERequestFailed | ERateLimited | EServiceUnavailable
  | EAuthenticationFailed | ELLMProviderError | ETokenLimitExceeded | EContextTooLong
  | EConfigInvalid | EConfigMissing | EConfigParseFailed
  | EPermissionDenied | EPolicyViolation | EPlanningPolicyViolation | ESandboxViolation | EDotfileProtection
  | EIoError | EOutOfMemory | EResourceUnavailable | EResourceNotFound
  | EToolNotFound | ECircuitOpen | ECancelled | EUnexpected | ENotImplemented

text \<open>The chain of source errors is the list of their messages.\<close>

record vtcode_error =
  ve_category :: error_category
  ve_code :: error_code
  ve_message :: string
  ve_context :: "string option"
  ve_retry_after_ms :: "nat option"
  ve_sources :: "string list"

definition new_error :: "error_category \<Rightarrow> error_code \<Rightarrow> string \<Rightarrow> vtcode_error" where
  "new_error category code message =
     \<lparr>ve_category = category, ve_code = code, ve_message = message, ve_context = None,
      ve_retry_after_ms = None, ve_sources = []\<rparr>"

definition with_retry_after :: "vtcode_error \<Rightarrow> duration \<Rightarrow> vtcode_error" where
  "with_retry_after e d = e\<lparr>ve_retry_after_ms := Some (min (as_millis d) u64_max)\<rparr>"

definition error_retry_after :: "vtcode_error \<Rightarrow> duration option" where
  "error_retry_after e = map_option from_millis (ve_retry_after_ms e)"

definition haystack :: "vtcode_error \<Rightarrow> string" where
  "haystack e =
     ve_message e @ (case ve_context e of None \<Rightarrow> [] | Some c \<Rightarrow> CHR 0x0A # c)
     @ concat (map (\<lambda>s. CHR 0x0A # s) (ve_sources e))"

definition message_guidance :: "vtcode_error \<Rightarrow> config_guidance option" where
  "message_guidance e = detect_misconfiguration (ve_category e) (haystack e)"

definition misconfiguration_guidance :: "vtcode_error \<Rightarrow> config_guidance option" where
  "misconfiguration_guidance e =
     (if ve_code e \<in> {EConfigInvalid, EConfigMissing, EConfigParseFailed}
      then (case message_guidance e of
              Some g \<Rightarrow> Some g
            | None \<Rightarrow> Some \<lparr>cg_kind = MConfigFile, cg_setting = ''vtcode.toml'',
                 cg_location = ''workspace / user / system config layers'',
                 cg_fix = ''Invalid config file. Validate vtcode.toml syntax and fields, then retry.''\<rparr>)
      else message_guidance e)"

definition error_is_misconfiguration :: "vtcode_error \<Rightarrow> bool" where
  "error_is_misconfiguration e \<longleftrightarrow> misconfiguration_guidance e \<noteq> None"

definition with_misconfiguration_guidance :: "vtcode_error \<Rightarrow> vtcode_error" where
  "with_misconfiguration_guidance e =
     (case misconfiguration_guidance e of
        None \<Rightarrow> e
      | Some g \<Rightarrow>
          if contains_str (ve_message e) ''Correct the configuration before retrying.'' then e
          else e\<lparr>ve_message := ve_message e @ '' '' @ guidance_message g\<rparr>)"

fun code_from_category :: "error_category \<Rightarrow> error_code" where
  "code_from_category Network = EConnectionFailed"
| "code_from_category Timeout = ETimeout"
| "code_from_category RateLimit = ERateLimited"
| "code_from_category ServiceUnavailable = EServiceUnavailable"
| "code_from_category CircuitOpen = ECircuitOpen"
| "code_from_category Authentication = EAuthenticationFailed"
| "code_from_category InvalidParameters = EInvalidArgument"
| "code_from_category ToolNotFound = EToolNotFound"
| "code_from_category ResourceNotFound = EResourceNotFound"
| "code_from_category PermissionDenied = EPermissionDenied"
| "code_from_category PolicyViolation = EPolicyViolation"
| "code_from_category PlanningPolicyViolation = EPlanningPolicyViolation"
| "code_from_category SandboxFailure = ESandboxViolation"
| "code_from_category ResourceExhausted = EResourceUnavailable"
| "code_from_category Cancelled = ECancelled"
| "code_from_category ExecutionError = EUnexpected"

subsection \<open>Decisions for errors\<close>

definition command_session_names :: "string list" where
  "command_session_names =
     [''command_session_internal'', ''run_pty_cmd'', ''send_pty_input'', ''create_pty_session'',
      ''read_pty_session'', ''list_pty_sessions'', ''close_pty_session'', ''execute_code'', ''exec_pty_cmd'',
      ''exec_command'', ''write_stdin'', ''shell'', ''bash'', ''exec'', ''container.exec'']"

definition canonical_command_session_tool_name :: "string \<Rightarrow> string option" where
  "canonical_command_session_tool_name name =
     (if name \<in> set command_session_names then Some ''command_session_internal'' else None)"

definition is_command_tool :: "string \<Rightarrow> bool" where
  "is_command_tool name \<longleftrightarrow>
     name = ''create_pty_session'' \<or> name = ''send_pty_input''
     \<or> canonical_command_session_tool_name name \<noteq> None"

definition is_non_retryable_command_timeout :: "error_category \<Rightarrow> string option \<Rightarrow> bool" where
  "is_non_retryable_command_timeout category tool_name \<longleftrightarrow>
     category = Timeout \<and> (case tool_name of None \<Rightarrow> False | Some name \<Rightarrow> is_command_tool name)"

definition decision_for_category_with_tool ::
  "(f64 \<Rightarrow> int \<Rightarrow> f64) \<Rightarrow> retry_policy \<Rightarrow> error_category \<Rightarrow> nat \<Rightarrow> duration option \<Rightarrow> string option
     \<Rightarrow> retry_decision" where
  "decision_for_category_with_tool powi_fn p category attempt retry_after tool_name =
     (if is_non_retryable_command_timeout category tool_name then refuse category retry_after
      else decision_for_category powi_fn p category attempt retry_after)"

definition misconfiguration_decision :: "error_category \<Rightarrow> duration option \<Rightarrow> retry_decision" where
  "misconfiguration_decision category retry_after = refuse category retry_after"

definition decision_for_vtcode_error ::
  "(f64 \<Rightarrow> int \<Rightarrow> f64) \<Rightarrow> retry_policy \<Rightarrow> vtcode_error \<Rightarrow> nat \<Rightarrow> string option \<Rightarrow> retry_decision" where
  "decision_for_vtcode_error powi_fn p e attempt tool_name =
     (if error_is_misconfiguration e then misconfiguration_decision (ve_category e) (error_retry_after e)
      else decision_for_category_with_tool powi_fn p (ve_category e) attempt (error_retry_after e) tool_name)"

definition category_was_retryable :: "vtcode_error \<Rightarrow> bool" where
  "category_was_retryable e \<longleftrightarrow> is_retryable (ve_category e) \<and> \<not> error_is_misconfiguration e"

datatype retry_step =
    StepBackoff duration retry_decision vtcode_error
  | StepGiveUp retry_decision vtcode_error

definition step_for_vtcode_error ::
  "(f64 \<Rightarrow> int \<Rightarrow> f64) \<Rightarrow> retry_policy \<Rightarrow> vtcode_error \<Rightarrow> nat \<Rightarrow> string option \<Rightarrow> retry_step" where
  "step_for_vtcode_error powi_fn p e attempt tool_name =
     (let e' = with_misconfiguration_guidance e;
          d = decision_for_vtcode_error powi_fn p e' attempt tool_name
      in if rd_retryable d
         then StepBackoff (case rd_delay d of Some t \<Rightarrow> t | None \<Rightarrow> delay_for_attempt powi_fn p attempt) d e'
         else StepGiveUp d e')"

subsection \<open>The loop\<close>

datatype retry_event =
    AttemptStart nat nat
  | AttemptSuccess nat
  | GiveUp nat vtcode_error retry_decision bool
  | Backoff nat vtcode_error retry_decision duration bool
  | Exhausted vtcode_error

type_synonym ('s, 'a) operation = "'s \<Rightarrow> (vtcode_error + 'a) \<times> 's"

text \<open>\<open>remaining\<close> counts the rest of the range of attempts.\<close>

fun retry_from ::
  "(f64 \<Rightarrow> int \<Rightarrow> f64) \<Rightarrow> retry_policy \<Rightarrow> (retry_event \<Rightarrow> 's \<Rightarrow> 's) \<Rightarrow> ('s, 'a) operation
     \<Rightarrow> (retry_policy \<Rightarrow> vtcode_error) \<Rightarrow> nat \<Rightarrow> nat \<Rightarrow> vtcode_error option \<Rightarrow> 's
     \<Rightarrow> (vtcode_error + 'a) \<times> 's \<times> retry_event list" where
  "retry_from powi_fn p on_event op synthesize attempt 0 last_error s =
     (let final_error = (case last_error of Some e \<Rightarrow> e | None \<Rightarrow> synthesize p)
      in (Inl final_error, on_event (Exhausted final_error) s, [Exhausted final_error]))"
| "retry_from powi_fn p on_event op synthesize attempt (Suc remaining) last_error s =
     (let start = AttemptStart attempt (rp_max_attempts p);
          (outcome, s1) = op (on_event start s)
      in case outcome of
           Inr v \<Rightarrow> (Inr v, on_event (AttemptSuccess attempt) s1, [start, AttemptSuccess attempt])
         | Inl err \<Rightarrow>
             (case step_for_vtcode_error powi_fn p err attempt None of
                StepGiveUp decision e \<Rightarrow>
                  (let ev = GiveUp attempt e decision (category_was_retryable err)
                   in (Inl e, on_event ev s1, [start, ev]))
              | StepBackoff delay decision e \<Rightarrow>
                  (let ev = Backoff attempt e decision delay (category_was_retryable err);
                       (result, s2, events) = retry_from powi_fn p on_event op synthesize (Suc attempt) remaining
                                                (Some e) (on_event ev s1)
                   in (result, s2, start # ev # events))))"

definition run_with_retry ::
  "(f64 \<Rightarrow> int \<Rightarrow> f64) \<Rightarrow> retry_policy \<Rightarrow> (retry_event \<Rightarrow> 's \<Rightarrow> 's) \<Rightarrow> ('s, 'a) operation
     \<Rightarrow> (retry_policy \<Rightarrow> vtcode_error) \<Rightarrow> 's \<Rightarrow> (vtcode_error + 'a) \<times> 's \<times> retry_event list" where
  "run_with_retry powi_fn p on_event op synthesize s =
     retry_from powi_fn p on_event op synthesize 0 (rp_max_attempts p) None s"

end
