(* ===== verification/Retry_Facts.thy ===== *)
theory Retry_Facts
  imports Retry_Loop
begin

text \<open>
  What the error taxonomy and the retry loop guarantee: when a message is retryable, that the advice for a
  misconfiguration is recognised as one itself, which steps the loop can take, and the contract of a
  whole run.
\<close>

subsection \<open>Markers\<close>

lemma contains_str_append: "contains_str s p \<Longrightarrow> contains_str (a @ s @ b) p"
  unfolding contains_str_iff by (metis append.assoc)

lemma contains_any_append: "contains_any s ms \<Longrightarrow> contains_any (a @ s @ b) ms"
  unfolding contains_any_def list_ex_iff using contains_str_append by blast

lemma to_ascii_lowercase_append: "to_ascii_lowercase (a @ b) = to_ascii_lowercase a @ to_ascii_lowercase b"
  by (simp add: to_ascii_lowercase_def)

lemma lowercase_id: "\<not> list_ex is_ascii_upper s \<Longrightarrow> to_ascii_lowercase s = s"
  by (induction s) (auto simp: to_ascii_lowercase_def to_lower_char_def)

lemma classification_input: "(if list_ex is_ascii_upper m then to_ascii_lowercase m else m) = to_ascii_lowercase m"
  by (simp add: lowercase_id)

lemmas classify_lower = classify_error_message_def [unfolded classification_input Let_def]

definition permanent_markers :: "string list" where
  "permanent_markers = policy_markers @ planning_markers @ authentication_markers @ quota_markers @ parameter_markers
     @ tool_missing_markers @ resource_missing_markers @ permission_markers @ cancel_markers"

definition transient_markers :: "string list" where
  "transient_markers = rate_limit_markers @ timeout_markers @ response_markers @ unavailable_markers @ network_markers"

lemma contains_any_append_iff: "contains_any m (xs @ ys) \<longleftrightarrow> contains_any m xs \<or> contains_any m ys"
  by (simp add: contains_any_def)

subsection \<open>Guidance is recognised\<close>

definition recognised :: "string \<Rightarrow> bool" where
  "recognised m \<longleftrightarrow> (let l = to_ascii_lowercase m
     in config_file_problem l \<or> endpoint_problem l \<or> contains_any l credential_words)"

lemma recognised_detected: "recognised m \<Longrightarrow> detect_misconfiguration c m \<noteq> None"
  by (auto simp: recognised_def detect_misconfiguration_def Let_def)

lemma recognised_append: "recognised m \<Longrightarrow> recognised (a @ m @ b)"
  using contains_any_append contains_str_append
  unfolding recognised_def config_file_problem_def endpoint_problem_def Let_def to_ascii_lowercase_append by metis

definition telling :: "config_guidance \<Rightarrow> bool" where
  "telling g \<longleftrightarrow> starts_with (cg_setting g) ''vtcode.toml'' \<or> starts_with (cg_location g) ''vtcode.toml''
     \<or> starts_with (cg_fix g) ''Invalid endpoint'' \<or> starts_with (cg_fix g) ''Authentication failed''"

lemma detected_telling: "detect_misconfiguration c m = Some g \<Longrightarrow> telling g"
  by (auto simp: detect_misconfiguration_def Let_def telling_def auth_guidance_def split: if_splits)

lemma guidance_telling: "misconfiguration_guidance e = Some g \<Longrightarrow> telling g"
  using detected_telling
  by (auto simp: misconfiguration_guidance_def message_guidance_def split: if_splits option.splits) (simp_all add: telling_def)

lemma starts_with_split: "starts_with s p \<Longrightarrow> \<exists>r. s = p @ r"
  by (metis append_take_drop_id starts_with_def)

lemma short_lower:
  "to_ascii_lowercase ''vtcode.toml'' = ''vtcode.toml''" "to_ascii_lowercase ''Invalid endpoint'' = ''invalid endpoint''"
  "to_ascii_lowercase ''Authentication failed'' = ''authentication failed''"
  by code_simp+

lemma short_recognised:
  "recognised ''vtcode.toml''" "recognised ''Invalid endpoint''" "recognised ''Authentication failed''"
  by (simp_all add: recognised_def short_lower config_file_problem_def endpoint_problem_def contains_any_def
      config_file_words_def endpoint_words_def credential_words_def)

lemma guidance_recognised:
  assumes "telling g"
  shows "recognised (a @ guidance_message g @ b)"
proof -
  consider r where "cg_setting g = ''vtcode.toml'' @ r" | r where "cg_location g = ''vtcode.toml'' @ r"
    | r where "cg_fix g = ''Invalid endpoint'' @ r" | r where "cg_fix g = ''Authentication failed'' @ r"
    using assms starts_with_split unfolding telling_def by blast
  then show ?thesis
  proof cases
    case 1
    have "recognised ((a @ ''Check settings/config first ('') @ ''vtcode.toml''
        @ (r @ '' in '' @ cg_location g @ ''): '' @ cg_fix g @ '' Correct the configuration before retrying.'' @ b))"
      by (rule recognised_append [OF short_recognised(1)])
    then show ?thesis unfolding guidance_message_def 1 by (simp only: append_assoc)
  next
    case 2
    have "recognised ((a @ ''Check settings/config first ('' @ cg_setting g @ '' in '') @ ''vtcode.toml''
        @ (r @ ''): '' @ cg_fix g @ '' Correct the configuration before retrying.'' @ b))"
      by (rule recognised_append [OF short_recognised(1)])
    then show ?thesis unfolding guidance_message_def 2 by (simp only: append_assoc)
  next
    case 3
    have "recognised ((a @ ''Check settings/config first ('' @ cg_setting g @ '' in '' @ cg_location g @ ''): '')
        @ ''Invalid endpoint'' @ (r @ '' Correct the configuration before retrying.'' @ b))"
      by (rule recognised_append [OF short_recognised(2)])
    then show ?thesis unfolding guidance_message_def 3 by (simp only: append_assoc)
  next
    case 4
    have "recognised ((a @ ''Check settings/config first ('' @ cg_setting g @ '' in '' @ cg_location g @ ''): '')
        @ ''Authentication failed'' @ (r @ '' Correct the configuration before retrying.'' @ b))"
      by (rule recognised_append [OF short_recognised(3)])
    then show ?thesis unfolding guidance_message_def 4 by (simp only: append_assoc)
  qed
qed

lemma guided_fields [simp]:
  "ve_category (with_misconfiguration_guidance e) = ve_category e"
  "ve_code (with_misconfiguration_guidance e) = ve_code e"
  "error_retry_after (with_misconfiguration_guidance e) = error_retry_after e"
  by (simp_all add: with_misconfiguration_guidance_def error_retry_after_def split: option.split)

lemma guided_misconfigured [simp]:
  "error_is_misconfiguration (with_misconfiguration_guidance e) \<longleftrightarrow> error_is_misconfiguration e"
proof (cases "misconfiguration_guidance e")
  case None
  then show ?thesis by (simp add: with_misconfiguration_guidance_def)
next
  case (Some g)
  let ?e = "e\<lparr>ve_message := ve_message e @ '' '' @ guidance_message g\<rparr>"
  let ?tail = "(case ve_context e of None \<Rightarrow> [] | Some c \<Rightarrow> CHR 0x0A # c) @ concat (map (\<lambda>s. CHR 0x0A # s) (ve_sources e))"
  have "recognised ((ve_message e @ '' '') @ guidance_message g @ ?tail)"
    by (rule guidance_recognised [OF guidance_telling [OF Some]])
  moreover have "haystack ?e = (ve_message e @ '' '') @ guidance_message g @ ?tail" by (simp add: haystack_def)
  ultimately have "recognised (haystack ?e)" by (simp only:)
  then have "message_guidance ?e \<noteq> None" by (simp only: message_guidance_def recognised_detected not_False_eq_True)
  then have "misconfiguration_guidance ?e \<noteq> None" by (auto simp: misconfiguration_guidance_def)
  then show ?thesis
    using Some unfolding error_is_misconfiguration_def
    by (cases "contains_str (ve_message e) ''Correct the configuration before retrying.''")
      (simp_all only: with_misconfiguration_guidance_def option.case if_True if_False option.distinct not_False_eq_True simp_thms)
qed

lemma unguided: "\<not> error_is_misconfiguration e \<Longrightarrow> with_misconfiguration_guidance e = e"
  by (simp add: error_is_misconfiguration_def with_misconfiguration_guidance_def)

subsection \<open>Steps of the loop\<close>

definition backoff_delay :: "(f64 \<Rightarrow> int \<Rightarrow> f64) \<Rightarrow> retry_policy \<Rightarrow> vtcode_error \<Rightarrow> nat \<Rightarrow> duration" where
  "backoff_delay powi_fn p e attempt =
     (case error_retry_after e of Some d \<Rightarrow> d | None \<Rightarrow> delay_for_attempt powi_fn p attempt)"

text \<open>An error is worth another attempt when its category is transient, no configuration is to blame and
  the budget is not used up.\<close>

definition worth_retrying :: "retry_policy \<Rightarrow> nat \<Rightarrow> vtcode_error \<Rightarrow> bool" where
  "worth_retrying p attempt e \<longleftrightarrow>
     category_was_retryable e \<and> min (attempt + 1) u32_max < rp_max_attempts p"

lemma step_cases:
  "step_for_vtcode_error powi_fn p e attempt None =
     (if worth_retrying p attempt e
      then StepBackoff (backoff_delay powi_fn p e attempt)
             \<lparr>rd_category = ve_category e, rd_retryable = True, rd_delay = Some (backoff_delay powi_fn p e attempt),
              rd_retry_after = error_retry_after e\<rparr> e
      else StepGiveUp (refuse (ve_category e) (error_retry_after e)) (with_misconfiguration_guidance e))"
  by (auto simp: step_for_vtcode_error_def Let_def decision_for_vtcode_error_def misconfiguration_decision_def
      decision_for_category_with_tool_def is_non_retryable_command_timeout_def decision_for_category_def
      worth_retrying_def category_was_retryable_def backoff_delay_def refuse_def unguided)

subsection \<open>A run\<close>

definition starts :: "retry_event list \<Rightarrow> nat list" where
  "starts events = concat (map (\<lambda>ev. case ev of AttemptStart i _ \<Rightarrow> [i] | _ \<Rightarrow> []) events)"

text \<open>What an event says, given the attempts that remain.\<close>

fun justified :: "(f64 \<Rightarrow> int \<Rightarrow> f64) \<Rightarrow> retry_policy \<Rightarrow> retry_event \<Rightarrow> bool" where
  "justified powi_fn p (AttemptStart i m) \<longleftrightarrow> i < m \<and> m = rp_max_attempts p"
| "justified powi_fn p (AttemptSuccess i) \<longleftrightarrow> i < rp_max_attempts p"
| "justified powi_fn p (Backoff i e d t b) \<longleftrightarrow>
     worth_retrying p i e \<and> i + 1 < rp_max_attempts p \<and> b \<and> t = backoff_delay powi_fn p e i"
| "justified powi_fn p (GiveUp i e d b) \<longleftrightarrow>
     \<not> rd_retryable d \<and> (\<not> category_was_retryable e \<or> i + 1 = rp_max_attempts p)"
| "justified powi_fn p (Exhausted e) \<longleftrightarrow> False"

fun ends_run :: "nat \<Rightarrow> vtcode_error + 'a \<Rightarrow> retry_event \<Rightarrow> bool" where
  "ends_run i (Inr v) ev \<longleftrightarrow> ev = AttemptSuccess i"
| "ends_run i (Inl e) ev \<longleftrightarrow> (\<exists>d b. ev = GiveUp i e d b)"

lemma category_was_retryable_guided [simp]:
  "category_was_retryable (with_misconfiguration_guidance e) = category_was_retryable e"
  by (simp add: category_was_retryable_def)

lemma starts_simps [simp]:
  "starts [] = []" "starts (AttemptStart i m # evs) = i # starts evs" "starts (AttemptSuccess i # evs) = starts evs"
  "starts (GiveUp i e d b # evs) = starts evs" "starts (Backoff i e d t b # evs) = starts evs"
  "starts (Exhausted e # evs) = starts evs"
  by (simp_all add: starts_def)

lemma retry_from_contract:
  assumes "retry_from powi_fn p cb op syn attempt remaining prev s = (result, s', events)"
    "attempt + remaining = rp_max_attempts p" "rp_max_attempts p \<le> u32_max" "remaining > 0"
  shows "\<exists>n. n < remaining \<and> starts events = [attempt..<Suc (attempt + n)] \<and> events \<noteq> []
    \<and> ends_run (attempt + n) result (last events) \<and> list_all (justified powi_fn p) events"
  using assms
proof (induction remaining arbitrary: attempt prev s result s' events)
  case (Suc remaining)
  let ?start = "AttemptStart attempt (rp_max_attempts p)"
  obtain outcome s1 where out: "op (cb ?start s) = (outcome, s1)" by fastforce
  have start: "justified powi_fn p ?start" using Suc.prems(2) by simp
  show ?case
  proof (cases outcome)
    case (Inr v)
    with Suc.prems out have "result = Inr v" "events = [?start, AttemptSuccess attempt]" by (auto simp: Let_def)
    with start Suc.prems(2) show ?thesis by (intro exI [of _ 0]) simp
  next
    case (Inl err)
    show ?thesis
    proof (cases "worth_retrying p attempt err")
      case False
      with Suc.prems Inl out have res: "result = Inl (with_misconfiguration_guidance err)"
          "events = [?start, GiveUp attempt (with_misconfiguration_guidance err)
             (refuse (ve_category err) (error_retry_after err)) (category_was_retryable err)]"
        by (auto simp: Let_def step_cases)
      have "\<not> category_was_retryable err \<or> attempt + 1 = rp_max_attempts p"
        using False Suc.prems(2,3) by (auto simp: worth_retrying_def)
      with res start show ?thesis by (intro exI [of _ 0]) (simp add: refuse_def)
    next
      case True
      let ?ev = "Backoff attempt err \<lparr>rd_category = ve_category err, rd_retryable = True,
        rd_delay = Some (backoff_delay powi_fn p err attempt), rd_retry_after = error_retry_after err\<rparr>
        (backoff_delay powi_fn p err attempt) (category_was_retryable err)"
      obtain r2 s2 evs where rec: "retry_from powi_fn p cb op syn (Suc attempt) remaining (Some err) (cb ?ev s1) = (r2, s2, evs)"
        by (metis prod_cases3)
      have result: "result = r2" "events = ?start # ?ev # evs"
        using Suc.prems(1) Inl out True rec by (auto simp: Let_def step_cases)
      have less: "attempt + 1 < rp_max_attempts p" using True Suc.prems(2,3) by (auto simp: worth_retrying_def min_def split: if_splits)
      then have "remaining > 0" using Suc.prems(2) by simp
      with Suc.IH [OF rec] Suc.prems(2,3) obtain n where n: "n < remaining" "starts evs = [Suc attempt..<Suc (Suc attempt + n)]"
        "evs \<noteq> []" "ends_run (Suc attempt + n) r2 (last evs)" "list_all (justified powi_fn p) evs" by auto
      have "[attempt..<Suc (attempt + Suc n)] = attempt # [Suc attempt..<Suc (Suc attempt + n)]"
        by (subst upt_conv_Cons) simp_all
      moreover have "justified powi_fn p ?ev" using True less by (simp add: worth_retrying_def)
      ultimately show ?thesis using n start result by (intro exI [of _ "Suc n"]) simp
    qed
  qed
qed simp

subsection \<open>Properties\<close>

text \<open>C11: a run with a budget of at least one attempt always returns; it makes the attempts 0, 1, \<dots> in order
  and at most as many as the budget, and ends with the success or with giving up on the error of the last one. A
  backoff happens only for a transient error that no misconfiguration explains and with an attempt left,
  for the delay of the policy or of the error's own hint; giving up only without such a reason. The budget
  is never found exhausted after the loop.\<close>

theorem retry_run_contract:
  assumes "run_with_retry powi_fn p cb op syn s = (result, s', events)"
    "1 \<le> rp_max_attempts p" "rp_max_attempts p \<le> u32_max"
  shows "\<exists>n. n < rp_max_attempts p \<and> starts events = [0..<Suc n] \<and> ends_run n result (last events)
    \<and> list_all (justified powi_fn p) events"
  using retry_from_contract [OF assms(1) [unfolded run_with_retry_def]] assms(2,3) by auto

definition flaky :: "nat \<Rightarrow> (vtcode_error + nat) \<times> nat" where
  "flaky n = (if n = 0 then (Inl (new_error RateLimit ERateLimited ''429''), 1)
              else (Inl (new_error Authentication EAuthenticationFailed ''401''), Suc n))"

theorem retry_run_contract_witness:
  "\<exists>events result s'. run_with_retry (\<lambda>x i. x) default_retry_policy (\<lambda>_ s. s) flaky
       (\<lambda>p. new_error Cancelled ECancelled []) 0 = (result, s', events)
     \<and> (\<exists>n. n < 3 \<and> starts events = [0..<Suc n] \<and> ends_run n result (last events))"
proof -
  obtain result s' events where run: "run_with_retry (\<lambda>x i. x) default_retry_policy (\<lambda>_ s. s) flaky
       (\<lambda>p. new_error Cancelled ECancelled []) 0 = (result, s', events)"
    by (metis prod_cases3)
  have "rp_max_attempts default_retry_policy = 3"
    by (simp add: default_retry_policy_def from_retries_def retry_new_def)
  with retry_run_contract [OF run] run show ?thesis by auto
qed

text \<open>a policy built by a constructor never waits longer than its maximal delay, whatever the platform's
  power function returns, unless the error carries a hint of its own.\<close>

theorem policy_delay_bounded:
  "delay_for_attempt powi_fn (retry_new n initial_delay max_delay multiplier) attempt \<le> max_delay"
  by (simp add: delay_for_attempt_def retry_new_def base_delay_def Let_def)

text \<open>a provider's message is retried exactly when it has no marker of a permanent failure and either
  speaks of the circuit breaker, or has a transient marker and none of a sandbox failure.\<close>

theorem retryable_message_iff:
  "is_retryable_llm_error_message msg \<longleftrightarrow>
     (let m = to_ascii_lowercase msg
      in \<not> contains_any m permanent_markers
         \<and> (contains_any m circuit_markers
            \<or> \<not> contains_any m sandbox_failure_markers \<and> contains_any m transient_markers))"
  by (auto simp: is_retryable_llm_error_message_def classify_lower Let_def is_retryable_def permanent_markers_def
      transient_markers_def contains_any_append_iff)

text \<open>a three-digit code is found inside any longer number, and a gateway timeout counts as a timeout
  because its own marker is tested later.\<close>

theorem marker_surprises:
  "classify_error_message ''wrote 15000 bytes'' = ServiceUnavailable
   \<and> classify_error_message ''exit status 4012'' = Authentication
   \<and> ''gateway timeout'' \<in> set unavailable_markers \<and> classify_error_message ''gateway timeout'' = Timeout"
  by code_simp

end
