(* ===== verification/Circuit_Breaker.thy ===== *)
theory Circuit_Breaker
  imports Error_Category "HOL-Library.AList"
begin

text \<open>
  The per-tool circuit breaker (\<open>vtcode-core/src/tools/resilience/circuit_breaker.rs\<close>). The map from tools to
  states is an association list with distinct keys, in the map's iteration order; every operation
  is one critical section on it, except \<open>allow_request_for_tool\<close>, which has a reading and a writing
  section. An instant is a number of nanoseconds and an argument of the operations that read the
  clock; \<open>elapsed\<close> saturates at zero. The counters are 32-bit words, so that \<open>+= 1\<close> wraps.
\<close>

subsection \<open>State\<close>

datatype circuit_state = Closed | Open | HalfOpen

type_synonym instant = nat

fun valid_transitions :: "circuit_state \<Rightarrow> circuit_state list" where
  "valid_transitions Closed = [Open]"
| "valid_transitions Open = [HalfOpen]"
| "valid_transitions HalfOpen = [Closed, Open]"

definition can_transition_to :: "circuit_state \<Rightarrow> circuit_state \<Rightarrow> bool" where
  "can_transition_to a b \<longleftrightarrow> b \<in> set (valid_transitions a)"

record breaker_config =
  bc_failure_threshold :: "32 word"
  bc_reset_timeout :: duration
  bc_min_backoff :: duration
  bc_max_backoff :: duration
  bc_backoff_factor :: f64
  bc_half_open_probe_count :: "32 word"

definition default_breaker_config :: breaker_config where
  "default_breaker_config =
     \<lparr>bc_failure_threshold = 7, bc_reset_timeout = from_secs 60, bc_min_backoff = from_secs 5,
      bc_max_backoff = from_secs 120, bc_backoff_factor = FFin 2, bc_half_open_probe_count = 1\<rparr>"

record tool_state =
  ts_status :: circuit_state
  ts_failure_count :: "32 word"
  ts_last_failure :: "instant option"
  ts_backoff :: duration
  ts_opened_at :: "instant option"
  ts_open_count :: "32 word"
  ts_denied :: "32 word"
  ts_last_denied :: "instant option"
  ts_last_category :: "error_category option"
  ts_successes :: "32 word"

definition default_tool_state :: tool_state where
  "default_tool_state =
     \<lparr>ts_status = Closed, ts_failure_count = 0, ts_last_failure = None, ts_backoff = 0, ts_opened_at = None,
      ts_open_count = 0, ts_denied = 0, ts_last_denied = None, ts_last_category = None, ts_successes = 0\<rparr>"

text \<open>The second component says whether the debug assertion on the transition holds.\<close>

definition transition_to :: "circuit_state \<Rightarrow> tool_state \<Rightarrow> tool_state \<times> bool" where
  "transition_to new_state s = (s\<lparr>ts_status := new_state\<rparr>, can_transition_to (ts_status s) new_state)"

definition reset_on_success :: "tool_state \<Rightarrow> tool_state" where
  "reset_on_success s =
     s\<lparr>ts_status := Closed, ts_failure_count := 0, ts_last_failure := None, ts_backoff := 0,
       ts_opened_at := None, ts_last_category := None\<rparr>"

text \<open>The metrics collector, if there is one, counts three kinds of events.\<close>

record breaker_metrics =
  bm_half_open :: nat
  bm_denials :: nat
  bm_opened :: nat

record breaker =
  br_states :: "(string \<times> tool_state) list"
  br_config :: breaker_config
  br_metrics :: "breaker_metrics option"

definition new_breaker :: "breaker_config \<Rightarrow> breaker_metrics option \<Rightarrow> breaker" where
  "new_breaker config metrics = \<lparr>br_states = [], br_config = config, br_metrics = metrics\<rparr>"

definition record_half_open_metric :: "breaker \<Rightarrow> breaker" where
  "record_half_open_metric b = b\<lparr>br_metrics := map_option (\<lambda>m. m\<lparr>bm_half_open := bm_half_open m + 1\<rparr>) (br_metrics b)\<rparr>"

definition record_breaker_denial_metric :: "breaker \<Rightarrow> breaker" where
  "record_breaker_denial_metric b = b\<lparr>br_metrics := map_option (\<lambda>m. m\<lparr>bm_denials := bm_denials m + 1\<rparr>) (br_metrics b)\<rparr>"

definition record_circuit_open_metric :: "breaker \<Rightarrow> breaker" where
  "record_circuit_open_metric b = b\<lparr>br_metrics := map_option (\<lambda>m. m\<lparr>bm_opened := bm_opened m + 1\<rparr>) (br_metrics b)\<rparr>"

definition lookup_tool :: "breaker \<Rightarrow> string \<Rightarrow> tool_state option" where
  "lookup_tool b tool = map_of (br_states b) tool"

text \<open>\<open>entry(tool).or_default()\<close> and the write through the reference it returns.\<close>

definition entry_tool :: "breaker \<Rightarrow> string \<Rightarrow> tool_state" where
  "entry_tool b tool = (case lookup_tool b tool of Some s \<Rightarrow> s | None \<Rightarrow> default_tool_state)"

definition store_tool :: "string \<Rightarrow> tool_state \<Rightarrow> breaker \<Rightarrow> breaker" where
  "store_tool tool s b = b\<lparr>br_states := AList.update tool s (br_states b)\<rparr>"

definition elapsed :: "instant \<Rightarrow> instant \<Rightarrow> duration" where
  "elapsed since now = now - since"

definition sat_succ :: "32 word \<Rightarrow> 32 word" where
  "sat_succ w = (if w = - 1 then w else w + 1)"

subsection \<open>Requests\<close>

definition open_backoff :: "breaker_config \<Rightarrow> tool_state \<Rightarrow> duration" where
  "open_backoff c s = (if ts_backoff s = 0 then bc_reset_timeout c else ts_backoff s)"

text \<open>The reading section answers unless the circuit is open.\<close>

definition allow_read :: "breaker \<Rightarrow> string \<Rightarrow> bool option" where
  "allow_read b tool =
     (case lookup_tool b tool of
        None \<Rightarrow> Some True
      | Some s \<Rightarrow>
          (case ts_status s of
             Closed \<Rightarrow> Some True
           | HalfOpen \<Rightarrow> Some (ts_successes s < bc_half_open_probe_count (br_config b))
           | Open \<Rightarrow> None))"

definition deny :: "instant \<Rightarrow> tool_state \<Rightarrow> tool_state" where
  "deny now s = s\<lparr>ts_denied := sat_succ (ts_denied s), ts_last_denied := Some now\<rparr>"

text \<open>The writing section; the last component of the result is the debug assertion.\<close>

definition allow_write :: "instant \<Rightarrow> string \<Rightarrow> breaker \<Rightarrow> bool \<times> breaker \<times> bool" where
  "allow_write now tool b =
     (let s = entry_tool b tool;
          b1 = store_tool tool s b
      in case ts_status s of
           Closed \<Rightarrow> (True, b1, True)
         | HalfOpen \<Rightarrow> (ts_successes s < bc_half_open_probe_count (br_config b), b1, True)
         | Open \<Rightarrow>
             if (case ts_last_failure s of
                   Some last_failure \<Rightarrow> open_backoff (br_config b) s \<le> elapsed last_failure now
                 | None \<Rightarrow> False)
             then (let (s', ok) = transition_to HalfOpen s
                   in (True, record_half_open_metric (store_tool tool (s'\<lparr>ts_successes := 0\<rparr>) b), ok))
             else (False, record_breaker_denial_metric (store_tool tool (deny now s) b), True))"

definition allow_request_for_tool :: "instant \<Rightarrow> string \<Rightarrow> breaker \<Rightarrow> bool \<times> breaker" where
  "allow_request_for_tool now tool b =
     (case allow_read b tool of
        Some answer \<Rightarrow> (answer, b)
      | None \<Rightarrow> (case allow_write now tool b of (answer, b', _) \<Rightarrow> (answer, b')))"

definition remaining_backoff :: "instant \<Rightarrow> breaker \<Rightarrow> string \<Rightarrow> duration option" where
  "remaining_backoff now b tool =
     (case lookup_tool b tool of
        None \<Rightarrow> None
      | Some s \<Rightarrow>
          (case ts_last_failure s of
             Some last_failure \<Rightarrow>
               if ts_status s = Open then duration_checked_sub (ts_backoff s) (elapsed last_failure now) else None
           | None \<Rightarrow> None))"

subsection \<open>Outcomes\<close>

definition success_state :: "breaker_config \<Rightarrow> tool_state \<Rightarrow> tool_state" where
  "success_state c s =
     (case ts_status s of
        HalfOpen \<Rightarrow>
          (let s' = s\<lparr>ts_successes := ts_successes s + 1\<rparr>
           in if bc_half_open_probe_count c \<le> ts_successes s' then reset_on_success s' else s')
      | Closed \<Rightarrow> s\<lparr>ts_failure_count := 0\<rparr>
      | Open \<Rightarrow> reset_on_success s)"

definition record_success_for_tool :: "string \<Rightarrow> breaker \<Rightarrow> breaker" where
  "record_success_for_tool tool b = store_tool tool (success_state (br_config b) (entry_tool b tool)) b"

definition next_backoff :: "breaker_config \<Rightarrow> duration \<Rightarrow> duration" where
  "next_backoff c d =
     max (min (case try_from_secs_f64 (fmul (as_secs_f64 d) (bc_backoff_factor c)) of
                 Some n \<Rightarrow> n
               | None \<Rightarrow> bc_max_backoff c)
              (bc_max_backoff c))
         (bc_min_backoff c)"

text \<open>The new state, whether the circuit was opened, and the debug assertion.\<close>

definition failure_state ::
  "instant \<Rightarrow> breaker_config \<Rightarrow> error_category \<Rightarrow> tool_state \<Rightarrow> tool_state \<times> bool \<times> bool" where
  "failure_state now c category s0 =
     (let s = s0\<lparr>ts_last_failure := Some now, ts_last_category := Some category\<rparr>
      in case ts_status s of
           Closed \<Rightarrow>
             (let s1 = s\<lparr>ts_failure_count := ts_failure_count s + 1\<rparr>
              in if bc_failure_threshold c \<le> ts_failure_count s1
                 then (let (s2, ok) = transition_to Open s1
                       in (s2\<lparr>ts_backoff := bc_min_backoff c, ts_successes := 0, ts_opened_at := Some now,
                             ts_open_count := ts_open_count s2 + 1\<rparr>, True, ok))
                 else (s1, False, True))
         | HalfOpen \<Rightarrow>
             (let (s2, ok) = transition_to Open s
              in (s2\<lparr>ts_successes := 0, ts_opened_at := Some now, ts_open_count := ts_open_count s2 + 1,
                    ts_backoff := next_backoff c (ts_backoff s2)\<rparr>, True, ok))
         | Open \<Rightarrow> (s, False, True))"

definition record_failure_checked :: "instant \<Rightarrow> string \<Rightarrow> error_category \<Rightarrow> breaker \<Rightarrow> breaker \<times> bool" where
  "record_failure_checked now tool category b =
     (if \<not> should_trip_circuit_breaker category then (b, True)
      else case failure_state now (br_config b) category (entry_tool b tool) of
             (s, opened, ok) \<Rightarrow>
               (let b' = store_tool tool s b in (if opened then record_circuit_open_metric b' else b', ok)))"

definition record_failure_category_for_tool :: "instant \<Rightarrow> string \<Rightarrow> error_category \<Rightarrow> breaker \<Rightarrow> breaker" where
  "record_failure_category_for_tool now tool category b = fst (record_failure_checked now tool category b)"

definition record_failure_for_tool :: "instant \<Rightarrow> string \<Rightarrow> bool \<Rightarrow> breaker \<Rightarrow> breaker" where
  "record_failure_for_tool now tool is_argument_error b =
     record_failure_category_for_tool now tool (if is_argument_error then InvalidParameters else ExecutionError) b"

subsection \<open>Queries and resets\<close>

definition state_for_tool :: "breaker \<Rightarrow> string \<Rightarrow> circuit_state" where
  "state_for_tool b tool = (case lookup_tool b tool of Some s \<Rightarrow> ts_status s | None \<Rightarrow> Closed)"

definition reset_tool :: "string \<Rightarrow> breaker \<Rightarrow> breaker" where
  "reset_tool tool b = b\<lparr>br_states := AList.delete tool (br_states b)\<rparr>"

definition reset_all :: "breaker \<Rightarrow> breaker" where
  "reset_all b = b\<lparr>br_states := []\<rparr>"

record tool_diagnostics =
  td_tool :: string
  td_status :: circuit_state
  td_failure_count :: "32 word"
  td_backoff :: duration
  td_remaining :: "duration option"
  td_opened_at :: "instant option"
  td_open_count :: "32 word"
  td_is_open :: bool
  td_denied :: "32 word"
  td_last_denied :: "instant option"
  td_last_category :: "error_category option"

record breaker_snapshot =
  sn_diagnostics :: "tool_diagnostics list"
  sn_open_circuits :: "string list"
  sn_open_count :: nat

definition diagnose :: "instant \<Rightarrow> string \<times> tool_state \<Rightarrow> tool_diagnostics" where
  "diagnose now = (\<lambda>(name, s).
     \<lparr>td_tool = name, td_status = ts_status s, td_failure_count = ts_failure_count s, td_backoff = ts_backoff s,
      td_remaining =
        (if ts_status s = Open
         then (case ts_last_failure s of
                 Some last_failure \<Rightarrow> duration_checked_sub (ts_backoff s) (elapsed last_failure now)
               | None \<Rightarrow> None)
         else None),
      td_opened_at = ts_opened_at s, td_open_count = ts_open_count s, td_is_open = (ts_status s = Open),
      td_denied = ts_denied s, td_last_denied = ts_last_denied s, td_last_category = ts_last_category s\<rparr>)"

definition snapshot :: "instant \<Rightarrow> breaker \<Rightarrow> breaker_snapshot" where
  "snapshot now b =
     (let diagnostics = map (diagnose now) (br_states b);
          open_circuits = map td_tool (filter td_is_open diagnostics)
      in \<lparr>sn_diagnostics = diagnostics, sn_open_circuits = open_circuits, sn_open_count = length open_circuits\<rparr>)"

definition get_open_circuits :: "instant \<Rightarrow> breaker \<Rightarrow> string list" where
  "get_open_circuits now b = sn_open_circuits (snapshot now b)"

definition get_diagnostics :: "instant \<Rightarrow> breaker \<Rightarrow> string \<Rightarrow> tool_diagnostics" where
  "get_diagnostics now b tool =
     (case find (\<lambda>d. td_tool d = tool) (sn_diagnostics (snapshot now b)) of
        Some d \<Rightarrow> d
      | None \<Rightarrow>
          \<lparr>td_tool = tool, td_status = Closed, td_failure_count = 0, td_backoff = 0, td_remaining = None,
           td_opened_at = None, td_open_count = 0, td_is_open = False, td_denied = 0, td_last_denied = None,
           td_last_category = None\<rparr>)"

definition get_all_diagnostics :: "instant \<Rightarrow> breaker \<Rightarrow> tool_diagnostics list" where
  "get_all_diagnostics now b = sn_diagnostics (snapshot now b)"

definition open_circuit_count :: "instant \<Rightarrow> breaker \<Rightarrow> nat" where
  "open_circuit_count now b = sn_open_count (snapshot now b)"

definition should_pause_for_recovery :: "instant \<Rightarrow> nat \<Rightarrow> breaker \<Rightarrow> bool" where
  "should_pause_for_recovery now max_open_circuits b \<longleftrightarrow> max_open_circuits \<le> sn_open_count (snapshot now b)"

end
