(* ===== verification/Rate_Limits.thy ===== *)
theory Rate_Limits
  imports Circuit_Breaker
begin

text \<open>
  The two rate limiters of \<open>vtcode-core/src/tools/resilience\<close>: the integer token bucket per tool of
  \<open>rate_limiter.rs\<close> and the bucket of floats with priorities of \<open>adaptive_rate_limiter.rs\<close>. And the facade of
  \<open>mod.rs\<close> that asks the circuit breaker before the adaptive limiter. The clock is an argument, the two
  environment variables of the configuration are optional strings; a poisoned lock is not modelled.
\<close>

subsection \<open>The integer bucket\<close>

record limiter_config =
  rl_per_sec :: nat
  rl_burst :: nat

text \<open>\<open>str::parse::<u32>\<close>.\<close>

definition parse_u32 :: "string \<Rightarrow> nat option" where
  "parse_u32 s = (case parse_u64 s of Inr n \<Rightarrow> if n \<le> u32_max then Some n else None | Inl _ \<Rightarrow> None)"

definition default_limiter_config :: "string option \<Rightarrow> string option \<Rightarrow> limiter_config" where
  "default_limiter_config rate_var burst_var =
     (let per_sec = (case Option.bind rate_var parse_u32 of Some n \<Rightarrow> n | None \<Rightarrow> 20);
          burst = (case Option.bind burst_var parse_u32 of Some n \<Rightarrow> n | None \<Rightarrow> max per_sec 5)
      in \<lparr>rl_per_sec = per_sec, rl_burst = burst\<rparr>)"

record bucket =
  bk_config :: limiter_config
  bk_tokens :: nat
  bk_last_refill :: instant

definition new_bucket :: "limiter_config \<Rightarrow> instant \<Rightarrow> bucket" where
  "new_bucket config now = \<lparr>bk_config = config, bk_tokens = rl_burst config, bk_last_refill = now\<rparr>"

definition refill_rate_of :: "nat \<Rightarrow> f64 \<Rightarrow> nat" where
  "refill_rate_of per_sec speed = f_to_uint u64_max (fmax (fmul (f_of_nat per_sec) speed) (FFin 0))"

definition effective_burst :: "nat \<Rightarrow> f64 \<Rightarrow> nat" where
  "effective_burst burst speed =
     (let eb = fmul (f_of_nat burst) (fmax speed (FFin 1))
      in if is_finite eb \<and> fle (FFin 0) eb \<and> fle eb (f_of_nat u32_max) then f_to_uint u32_max eb else u32_max)"

definition refill :: "instant \<Rightarrow> f64 \<Rightarrow> bucket \<Rightarrow> bucket" where
  "refill now speed b =
     (let millis = as_millis (elapsed (bk_last_refill b) now) mod 2 ^ 64
      in if millis < 50 then b
         else let rate = refill_rate_of (rl_per_sec (bk_config b)) speed;
                  added = min (min (rate * millis) u64_max div 1000) u32_max
              in if added > 0
                 then b\<lparr>bk_tokens := min (min (bk_tokens b + added) u32_max)
                                        (effective_burst (rl_burst (bk_config b)) speed),
                        bk_last_refill := now\<rparr>
                 else b)"

definition try_acquire_scaled :: "instant \<Rightarrow> f64 \<Rightarrow> bucket \<Rightarrow> unit rresult \<times> bucket" where
  "try_acquire_scaled now speed b =
     (let b' = refill now speed b
      in if bk_tokens b' = 0 then (bail ''tool rate limit exceeded'', b')
         else (ok_unit, b'\<lparr>bk_tokens := bk_tokens b' - 1\<rparr>))"

definition try_acquire :: "instant \<Rightarrow> bucket \<Rightarrow> unit rresult \<times> bucket" where
  "try_acquire now b = try_acquire_scaled now (FFin 1) b"

subsection \<open>One bucket per tool\<close>

record tool_limiter =
  tl_buckets :: "string \<rightharpoonup> bucket"
  tl_config :: limiter_config

definition new_tool_limiter :: "limiter_config \<Rightarrow> tool_limiter" where
  "new_tool_limiter config = \<lparr>tl_buckets = Map.empty, tl_config = config\<rparr>"

definition try_acquire_for_scaled ::
  "instant \<Rightarrow> string \<Rightarrow> f64 \<Rightarrow> tool_limiter \<Rightarrow> unit rresult \<times> tool_limiter" where
  "try_acquire_for_scaled now tool multiplier l =
     (let b = (case tl_buckets l tool of Some b \<Rightarrow> b | None \<Rightarrow> new_bucket (tl_config l) now);
          (r, b') = try_acquire_scaled now multiplier b
      in (r, l\<lparr>tl_buckets := (tl_buckets l)(tool \<mapsto> b')\<rparr>))"

definition try_acquire_for :: "instant \<Rightarrow> string \<Rightarrow> tool_limiter \<Rightarrow> unit rresult \<times> tool_limiter" where
  "try_acquire_for now tool l = try_acquire_for_scaled now tool (FFin 1) l"

definition is_limited :: "instant \<Rightarrow> string \<Rightarrow> tool_limiter \<Rightarrow> bool \<times> tool_limiter" where
  "is_limited now tool l =
     (case tl_buckets l tool of
        None \<Rightarrow> (False, l)
      | Some b \<Rightarrow>
          (let b' = refill now (FFin 1) b
           in (bk_tokens b' = 0, l\<lparr>tl_buckets := (tl_buckets l)(tool \<mapsto> b')\<rparr>)))"

definition limiter_reset_tool :: "instant \<Rightarrow> string \<Rightarrow> tool_limiter \<Rightarrow> tool_limiter" where
  "limiter_reset_tool now tool l =
     (case tl_buckets l tool of
        None \<Rightarrow> l
      | Some b \<Rightarrow>
          l\<lparr>tl_buckets := (tl_buckets l)(tool \<mapsto>
              b\<lparr>bk_tokens := rl_burst (bk_config b), bk_last_refill := now\<rparr>)\<rparr>)"

subsection \<open>The adaptive limiter\<close>

record token_bucket =
  tb_capacity :: f64
  tb_tokens :: f64
  tb_refill_rate :: f64
  tb_last_refill :: instant

definition new_token_bucket :: "f64 \<Rightarrow> f64 \<Rightarrow> instant \<Rightarrow> token_bucket" where
  "new_token_bucket capacity rate now =
     \<lparr>tb_capacity = capacity, tb_tokens = capacity, tb_refill_rate = rate, tb_last_refill = now\<rparr>"

definition refill_tokens :: "instant \<Rightarrow> token_bucket \<Rightarrow> token_bucket" where
  "refill_tokens now b =
     (let new_tokens = fmul (as_secs_f64 (elapsed (tb_last_refill b) now)) (tb_refill_rate b)
      in if flt (FFin 0) new_tokens
         then b\<lparr>tb_tokens := fmin (fadd (tb_tokens b) new_tokens) (tb_capacity b), tb_last_refill := now\<rparr>
         else b)"

definition try_acquire_cost :: "instant \<Rightarrow> f64 \<Rightarrow> token_bucket \<Rightarrow> bool \<times> token_bucket" where
  "try_acquire_cost now cost b =
     (let b' = refill_tokens now b
      in if fle cost (tb_tokens b') then (True, b'\<lparr>tb_tokens := fsub (tb_tokens b') cost\<rparr>) else (False, b'))"

datatype priority = Low | Normal | High | Critical

fun priority_weight :: "priority \<Rightarrow> f64" where
  "priority_weight Low = FFin 2"
| "priority_weight Normal = FFin 1"
| "priority_weight High = FFin (1 / 2)"
| "priority_weight Critical = round_f64 (1 / 10)"

record adaptive_limiter =
  al_buckets :: "string \<rightharpoonup> token_bucket"
  al_priorities :: "string \<rightharpoonup> priority"
  al_capacity :: f64
  al_refill_rate :: f64

definition positive_finite_or :: "f64 \<Rightarrow> f64 \<Rightarrow> f64" where
  "positive_finite_or v fallback = (if is_finite v \<and> flt (FFin 0) v then v else fallback)"

definition new_adaptive_limiter :: "f64 \<Rightarrow> f64 \<Rightarrow> adaptive_limiter" where
  "new_adaptive_limiter capacity rate =
     \<lparr>al_buckets = Map.empty, al_priorities = Map.empty,
      al_capacity = positive_finite_or capacity (FFin 1), al_refill_rate = positive_finite_or rate (FFin 1)\<rparr>"

definition default_adaptive_limiter :: adaptive_limiter where
  "default_adaptive_limiter = new_adaptive_limiter (FFin 10) (FFin 2)"

definition set_priority :: "string \<Rightarrow> priority \<Rightarrow> adaptive_limiter \<Rightarrow> adaptive_limiter" where
  "set_priority tool p l = l\<lparr>al_priorities := (al_priorities l)(tool \<mapsto> p)\<rparr>"

definition wait_secs :: "priority \<Rightarrow> f64 \<Rightarrow> f64" where
  "wait_secs p base =
     (let jitter = round_f64 (11 / 10)
      in case p of
           Critical \<Rightarrow> fmul base (FFin (1 / 2))
         | High \<Rightarrow> fmul base (round_f64 (8 / 10))
         | Normal \<Rightarrow> fmul base jitter
         | Low \<Rightarrow> fmul (fmul base (FFin (3 / 2))) jitter)"

definition adaptive_try_acquire :: "instant \<Rightarrow> string \<Rightarrow> adaptive_limiter \<Rightarrow> (duration + unit) \<times> adaptive_limiter" where
  "adaptive_try_acquire now tool l =
     (let p = (case al_priorities l tool of Some p \<Rightarrow> p | None \<Rightarrow> Normal);
          b = (case al_buckets l tool of
                 Some b \<Rightarrow> b
               | None \<Rightarrow> new_token_bucket (al_capacity l) (al_refill_rate l) now);
          cost = priority_weight p;
          (ok, b') = try_acquire_cost now cost b;
          l' = l\<lparr>al_buckets := (al_buckets l)(tool \<mapsto> b')\<rparr>
      in if ok then (Inr (), l')
         else let base = fdiv (fsub cost (tb_tokens b')) (tb_refill_rate b')
              in (Inl (case try_from_secs_f64 (wait_secs p base) of Some d \<Rightarrow> d | None \<Rightarrow> from_secs 60), l'))"

subsection \<open>The facade\<close>

datatype call_outcome = Success | InvalidArgument | CallExecutionError | CallCancelled

fun to_error_category :: "call_outcome \<Rightarrow> error_category option" where
  "to_error_category Success = None"
| "to_error_category InvalidArgument = Some InvalidParameters"
| "to_error_category CallExecutionError = Some ExecutionError"
| "to_error_category CallCancelled = Some ExecutionError"

record tool_resilience =
  tr_limiter :: adaptive_limiter
  tr_breaker :: breaker

definition resilience_try_acquire ::
  "instant \<Rightarrow> string \<Rightarrow> priority \<Rightarrow> tool_resilience \<Rightarrow> (duration + unit) \<times> tool_resilience" where
  "resilience_try_acquire now tool p r =
     (case allow_request_for_tool now tool (tr_breaker r) of
        (allowed, br) \<Rightarrow>
          if \<not> allowed
          then (Inl (case remaining_backoff now br tool of Some d \<Rightarrow> d | None \<Rightarrow> from_millis 100), r\<lparr>tr_breaker := br\<rparr>)
          else (case adaptive_try_acquire now tool (set_priority tool p (tr_limiter r)) of
                  (result, l) \<Rightarrow> (result, r\<lparr>tr_breaker := br, tr_limiter := l\<rparr>)))"

definition resilience_record_success :: "string \<Rightarrow> tool_resilience \<Rightarrow> tool_resilience" where
  "resilience_record_success tool r = r\<lparr>tr_breaker := record_success_for_tool tool (tr_breaker r)\<rparr>"

definition resilience_record_outcome ::
  "instant \<Rightarrow> string \<Rightarrow> call_outcome \<Rightarrow> tool_resilience \<Rightarrow> tool_resilience" where
  "resilience_record_outcome now tool outcome r =
     (case to_error_category outcome of
        None \<Rightarrow> resilience_record_success tool r
      | Some category \<Rightarrow>
          r\<lparr>tr_breaker := record_failure_category_for_tool now tool category (tr_breaker r)\<rparr>)"

end
