(* ===== verification/Circuit_Facts.thy ===== *)
theory Circuit_Facts
  imports Circuit_Breaker
begin

text \<open>
  The circuit breaker as a transition system: its critical sections in any interleaving, the invariant of
  every reachable state, when a request is admitted, when a circuit opens and how it recovers.
\<close>

subsection \<open>The map of tools\<close>

named_theorems breaker_simps \<open>reading after writing the breaker\<close>

lemma lookup_store [breaker_simps]:
  "lookup_tool (store_tool t s b) t' = (if t' = t then Some s else lookup_tool b t')"
  by (simp add: lookup_tool_def store_tool_def update_conv')

lemma lookup_metrics [breaker_simps]:
  "lookup_tool (record_half_open_metric b) t = lookup_tool b t"
  "lookup_tool (record_breaker_denial_metric b) t = lookup_tool b t"
  "lookup_tool (record_circuit_open_metric b) t = lookup_tool b t"
  by (simp_all add: lookup_tool_def record_half_open_metric_def record_breaker_denial_metric_def record_circuit_open_metric_def)

lemma config_kept [breaker_simps]:
  "br_config (store_tool t s b) = br_config b" "br_config (record_half_open_metric b) = br_config b"
  "br_config (record_breaker_denial_metric b) = br_config b" "br_config (record_circuit_open_metric b) = br_config b"
  by (simp_all add: store_tool_def record_half_open_metric_def record_breaker_denial_metric_def record_circuit_open_metric_def)

lemma lookup_reset [breaker_simps]:
  "lookup_tool (reset_tool t b) t' = (if t' = t then None else lookup_tool b t')"
  "lookup_tool (reset_all b) t' = None"
  by (auto simp: lookup_tool_def reset_tool_def reset_all_def delete_conv')

lemma entry_of_lookup: "entry_tool b t = (case lookup_tool b t of Some s \<Rightarrow> s | None \<Rightarrow> default_tool_state)"
  by (simp add: entry_tool_def)

subsection \<open>Sections and reachable states\<close>

datatype breaker_section =
    SAllow instant string
  | SSuccess string
  | SFailure instant string error_category
  | SReset string
  | SResetAll

text \<open>The breaker after a section, and whether its debug assertions hold.\<close>

fun section_step :: "breaker_section \<Rightarrow> breaker \<Rightarrow> breaker \<times> bool" where
  "section_step (SAllow now tool) b = snd (allow_write now tool b)"
| "section_step (SSuccess tool) b = (record_success_for_tool tool b, True)"
| "section_step (SFailure now tool category) b = record_failure_checked now tool category b"
| "section_step (SReset tool) b = (reset_tool tool b, True)"
| "section_step SResetAll b = (reset_all b, True)"

text \<open>The states reached by the sections of any number of threads, in any order.\<close>

inductive breaker_reachable :: "breaker_config \<Rightarrow> breaker \<Rightarrow> bool" for c where
  start: "breaker_reachable c (new_breaker c m)"
| step: "breaker_reachable c b \<Longrightarrow> breaker_reachable c (fst (section_step sec b))"

definition backoff_ok :: "breaker_config \<Rightarrow> tool_state \<Rightarrow> bool" where
  "backoff_ok c s \<longleftrightarrow> bc_min_backoff c \<le> ts_backoff s \<and> ts_backoff s \<le> max (bc_min_backoff c) (bc_max_backoff c)"

definition tool_ok :: "breaker_config \<Rightarrow> tool_state \<Rightarrow> bool" where
  "tool_ok c s \<longleftrightarrow>
     (case ts_status s of
        Closed \<Rightarrow> ts_failure_count s = 0 \<or> ts_failure_count s < bc_failure_threshold c
      | Open \<Rightarrow> ts_last_failure s \<noteq> None \<and> backoff_ok c s
      | HalfOpen \<Rightarrow> ts_last_failure s \<noteq> None \<and> backoff_ok c s
           \<and> (ts_successes s = 0 \<or> ts_successes s < bc_half_open_probe_count c))"

definition breaker_ok :: "breaker_config \<Rightarrow> breaker \<Rightarrow> bool" where
  "breaker_ok c b \<longleftrightarrow> br_config b = c \<and> (\<forall>t s. lookup_tool b t = Some s \<longrightarrow> tool_ok c s)"

lemma tool_ok_default [simp]: "tool_ok c default_tool_state"
  by (simp add: tool_ok_def default_tool_state_def)

lemma next_backoff_bounds:
  "bc_min_backoff c \<le> next_backoff c d" "next_backoff c d \<le> max (bc_min_backoff c) (bc_max_backoff c)"
  by (auto simp: next_backoff_def)

lemma entry_ok: "breaker_ok c b \<Longrightarrow> tool_ok c (entry_tool b t)"
  by (auto simp: breaker_ok_def entry_tool_def split: option.split)

lemma store_ok: "breaker_ok c b \<Longrightarrow> tool_ok c s \<Longrightarrow> breaker_ok c (store_tool t s b)"
  by (auto simp: breaker_ok_def breaker_simps)

lemma metrics_ok:
  "breaker_ok c (record_half_open_metric b) = breaker_ok c b"
  "breaker_ok c (record_breaker_denial_metric b) = breaker_ok c b"
  "breaker_ok c (record_circuit_open_metric b) = breaker_ok c b"
  by (simp_all add: breaker_ok_def breaker_simps)

lemma success_state_ok: "tool_ok c s \<Longrightarrow> tool_ok c (success_state c s)"
  by (auto simp: tool_ok_def success_state_def reset_on_success_def backoff_ok_def Let_def not_le split: circuit_state.splits)

lemma failure_state_ok: "tool_ok c s \<Longrightarrow> tool_ok c (fst (failure_state now c category s))"
  by (auto simp: tool_ok_def failure_state_def transition_to_def backoff_ok_def next_backoff_bounds Let_def not_le
      split: circuit_state.splits)

lemma failure_asserts: "snd (snd (failure_state now c category s))"
  by (auto simp: failure_state_def transition_to_def can_transition_to_def Let_def split: circuit_state.split)

lemma half_open_ok:
  "tool_ok c s \<Longrightarrow> ts_status s = Open \<Longrightarrow> tool_ok c (s\<lparr>ts_status := HalfOpen, ts_successes := 0\<rparr>)"
  by (auto simp: tool_ok_def backoff_ok_def)

lemma deny_ok: "tool_ok c s \<Longrightarrow> tool_ok c (deny now s)"
  by (auto simp: tool_ok_def deny_def backoff_ok_def split: circuit_state.splits)

lemma allow_write_ok:
  assumes "breaker_ok c b"
  shows "breaker_ok c (fst (snd (allow_write now tool b))) \<and> snd (snd (allow_write now tool b))"
  using assms entry_ok [OF assms, of tool]
  by (auto simp: allow_write_def transition_to_def can_transition_to_def Let_def metrics_ok
      intro: store_ok half_open_ok deny_ok split: circuit_state.split option.splits)

lemma section_ok:
  assumes "breaker_ok c b"
  shows "breaker_ok c (fst (section_step sec b)) \<and> snd (section_step sec b)"
proof (cases sec)
  case (SAllow now tool)
  with allow_write_ok [OF assms] show ?thesis by simp
next
  case (SSuccess tool)
  have "br_config b = c" using assms by (simp add: breaker_ok_def)
  with SSuccess assms show ?thesis
    by (simp add: record_success_for_tool_def store_ok success_state_ok entry_ok)
next
  case (SFailure now tool category)
  have c: "br_config b = c" using assms by (simp add: breaker_ok_def)
  obtain s opened ok where f: "failure_state now c category (entry_tool b tool) = (s, opened, ok)"
    by (metis prod_cases3)
  with failure_state_ok [OF entry_ok [OF assms, of tool], of now category] failure_asserts [of now c category "entry_tool b tool"]
  have "tool_ok c s" ok by simp_all
  with SFailure assms c f show ?thesis
    by (simp add: record_failure_checked_def Let_def metrics_ok store_ok)
next
  case (SReset tool)
  with assms show ?thesis by (auto simp: breaker_ok_def breaker_simps reset_tool_def [THEN arg_cong [of _ _ br_config]])
next
  case SResetAll
  with assms show ?thesis by (simp add: breaker_ok_def breaker_simps reset_all_def [THEN arg_cong [of _ _ br_config]])
qed

lemma reachable_ok: "breaker_reachable c b \<Longrightarrow> breaker_ok c b"
proof (induction rule: breaker_reachable.induct)
  case (start m)
  show ?case by (simp add: breaker_ok_def new_breaker_def lookup_tool_def)
next
  case (step b sec)
  then show ?case using section_ok by blast
qed

subsection \<open>Admission\<close>

lemma admitted_iff:
  "fst (allow_request_for_tool now tool b) \<longleftrightarrow>
     (case lookup_tool b tool of
        None \<Rightarrow> True
      | Some s \<Rightarrow>
          (case ts_status s of
             Closed \<Rightarrow> True
           | HalfOpen \<Rightarrow> ts_successes s < bc_half_open_probe_count (br_config b)
           | Open \<Rightarrow> (\<exists>t. ts_last_failure s = Some t \<and> open_backoff (br_config b) s \<le> now - t)))"
  by (auto simp: allow_request_for_tool_def allow_read_def allow_write_def entry_tool_def elapsed_def Let_def
      transition_to_def split: option.split circuit_state.split)

lemma admitted_open:
  assumes "lookup_tool b tool = Some s" "ts_status s = Open" "ts_last_failure s = Some t" "open_backoff (br_config b) s \<le> now - t"
  shows "allow_request_for_tool now tool b
    = (True, record_half_open_metric (store_tool tool (s\<lparr>ts_status := HalfOpen, ts_successes := 0\<rparr>) b))"
  using assms
  by (simp add: allow_request_for_tool_def allow_read_def allow_write_def entry_tool_def elapsed_def transition_to_def)

lemma refused_open:
  assumes "lookup_tool b tool = Some s" "ts_status s = Open" "ts_last_failure s = Some t" "now - t < open_backoff (br_config b) s"
  shows "allow_request_for_tool now tool b = (False, record_breaker_denial_metric (store_tool tool (deny now s) b))"
  using assms by (simp add: allow_request_for_tool_def allow_read_def allow_write_def entry_tool_def elapsed_def)

subsection \<open>Recovery\<close>

lemma unat_less32: "unat (w :: 32 word) < 2 ^ 32"
  using unsigned_less [of w] by simp

lemma unat_of_nat32: "n < 2 ^ 32 \<Longrightarrow> unat (of_nat n :: 32 word) = n"
  by (simp add: unat_of_nat)

lemma success_half_open:
  assumes "ts_status s = HalfOpen" "ts_successes s = of_nat k" "Suc k < unat (bc_half_open_probe_count c)"
  shows "success_state c s = s\<lparr>ts_successes := of_nat (Suc k)\<rparr>"
proof -
  have "unat (of_nat (Suc k) :: 32 word) = Suc k"
    using assms(3) unat_less32 [of "bc_half_open_probe_count c"] by (intro unat_of_nat32) simp
  then have "\<not> bc_half_open_probe_count c \<le> of_nat (Suc k)" using assms(3) by (simp add: word_le_nat_alt)
  then show ?thesis using assms by (simp add: success_state_def add.commute)
qed

lemma successes_count:
  assumes "ts_status s = HalfOpen" "ts_successes s = 0" "k < unat (bc_half_open_probe_count c)"
  shows "(success_state c ^^ k) s = s\<lparr>ts_successes := of_nat k\<rparr>"
  using assms(3)
proof (induction k)
  case 0
  then show ?case using assms by simp
next
  case (Suc k)
  then have "(success_state c ^^ Suc k) s = success_state c (s\<lparr>ts_successes := of_nat k\<rparr>)" by simp
  also have "\<dots> = s\<lparr>ts_successes := of_nat (Suc k)\<rparr>"
    using success_half_open [of "s\<lparr>ts_successes := of_nat k\<rparr>" k] assms(1) Suc.prems by simp
  finally show ?case .
qed

lemma last_success_closes:
  assumes "ts_status s = HalfOpen" "ts_successes s = 0" "n = max 1 (unat (bc_half_open_probe_count c))"
  shows "ts_status ((success_state c ^^ n) s) = Closed \<and> ts_failure_count ((success_state c ^^ n) s) = 0"
proof (cases "bc_half_open_probe_count c = 0")
  case True
  with assms show ?thesis by (simp add: success_state_def reset_on_success_def)
next
  case False
  then have n: "n = unat (bc_half_open_probe_count c)" "n > 0" using assms(3) by (simp_all add: unat_gt_0 max_def Suc_le_eq)
  from n(2) obtain k where k: "n = Suc k" using gr0_implies_Suc by blast
  have "k < unat (bc_half_open_probe_count c)" using n k by simp
  from successes_count [OF assms(1,2) this]
  have "(success_state c ^^ n) s = success_state c (s\<lparr>ts_successes := of_nat k\<rparr>)" by (simp add: k)
  moreover have "(1 :: 32 word) + of_nat k = bc_half_open_probe_count c"
  proof -
    have "Suc k = unat (bc_half_open_probe_count c)" using n(1) k by simp
    then have "(of_nat (Suc k) :: 32 word) = of_nat (unat (bc_half_open_probe_count c))" by (simp only:)
    then show ?thesis by simp
  qed
  ultimately show ?thesis using assms(1) by (simp add: success_state_def reset_on_success_def add.commute)
qed

lemma record_success_funpow:
  "entry_tool ((record_success_for_tool tool ^^ n) b) tool = (success_state (br_config b) ^^ n) (entry_tool b tool)
   \<and> br_config ((record_success_for_tool tool ^^ n) b) = br_config b"
proof (induction n)
  case (Suc n)
  then show ?case by (simp add: record_success_for_tool_def breaker_simps entry_of_lookup)
qed simp

lemma state_of_entry: "state_for_tool b tool = ts_status (entry_tool b tool)"
  by (simp add: state_for_tool_def entry_tool_def default_tool_state_def split: option.split)

subsection \<open>Opening\<close>

type_synonym failure_event = "instant \<times> string \<times> error_category"

definition run_failures :: "failure_event list \<Rightarrow> breaker \<Rightarrow> breaker" where
  "run_failures = fold (\<lambda>(now, tool, category). record_failure_category_for_tool now tool category)"

definition trips :: "string \<Rightarrow> failure_event list \<Rightarrow> nat" where
  "trips tool evs = length (filter (\<lambda>(now, t, category). t = tool \<and> should_trip_circuit_breaker category) evs)"

definition failed_times :: "breaker_config \<Rightarrow> nat \<Rightarrow> tool_state \<Rightarrow> bool" where
  "failed_times c n s \<longleftrightarrow>
     (if n < max 1 (unat (bc_failure_threshold c)) then ts_status s = Closed \<and> ts_failure_count s = of_nat n
      else ts_status s = Open)"

lemma failed_times_Suc:
  assumes "failed_times c n s"
  shows "failed_times c (Suc n) (fst (failure_state now c category s))"
proof (cases "n < max 1 (unat (bc_failure_threshold c))")
  case False
  with assms show ?thesis by (simp add: failed_times_def failure_state_def)
next
  case True
  with assms have s: "ts_status s = Closed" "ts_failure_count s = of_nat n" by (simp_all add: failed_times_def)
  have "Suc n \<le> max 1 (unat (bc_failure_threshold c))" using True by simp
  then have "Suc n < 2 ^ 32" if "bc_failure_threshold c \<noteq> 0 \<or> n = 0"
    using unat_less32 [of "bc_failure_threshold c"] by (auto simp: max_def split: if_splits)
  moreover have "bc_failure_threshold c \<noteq> 0 \<or> n = 0" using True by (auto simp: max_def split: if_splits)
  ultimately have "unat (of_nat (Suc n) :: 32 word) = Suc n" by (intro unat_of_nat32) simp
  then have le: "bc_failure_threshold c \<le> 1 + of_nat n \<longleftrightarrow> unat (bc_failure_threshold c) \<le> Suc n"
    by (simp add: word_le_nat_alt add.commute)
  have thr: "Suc n < max (Suc 0) (unat (bc_failure_threshold c)) \<longleftrightarrow> \<not> unat (bc_failure_threshold c) \<le> Suc n" by auto
  show ?thesis
    by (simp add: failed_times_def failure_state_def s transition_to_def le thr add.commute Let_def)
qed

lemma run_failures_count:
  assumes "failed_times (br_config b) n (entry_tool b tool)"
  shows "failed_times (br_config b) (n + trips tool evs) (entry_tool (run_failures evs b) tool)"
  using assms
proof (induction evs arbitrary: b n)
  case (Cons ev evs)
  obtain now t category where ev: "ev = (now, t, category)" by (metis prod_cases3)
  define b' where "b' = record_failure_category_for_tool now t category b"
  have c: "br_config b' = br_config b"
    by (auto simp: b'_def record_failure_category_for_tool_def record_failure_checked_def Let_def breaker_simps split: prod.split)
  have run: "run_failures (ev # evs) b = run_failures evs b'" by (simp add: run_failures_def ev b'_def)
  show ?case
  proof (cases "t = tool \<and> should_trip_circuit_breaker category")
    case True
    then have "entry_tool b' tool = fst (failure_state now (br_config b) category (entry_tool b tool))"
      by (auto simp: b'_def record_failure_category_for_tool_def record_failure_checked_def Let_def entry_of_lookup breaker_simps
          split: prod.split)
    with failed_times_Suc [OF Cons.prems] have "failed_times (br_config b') (Suc n) (entry_tool b' tool)" by (simp add: c)
    from Cons.IH [OF this] True show ?thesis unfolding run by (simp add: c trips_def ev)
  next
    case False
    then have "entry_tool b' tool = entry_tool b tool"
      by (auto simp: b'_def record_failure_category_for_tool_def record_failure_checked_def Let_def entry_of_lookup breaker_simps
          split: prod.split)
    with Cons.prems have "failed_times (br_config b') n (entry_tool b' tool)" by (simp add: c)
    from Cons.IH [OF this] False show ?thesis unfolding run by (auto simp: c trips_def ev)
  qed
qed (simp add: run_failures_def trips_def)

subsection \<open>Properties\<close>

definition demo_config :: breaker_config where
  "demo_config = default_breaker_config\<lparr>bc_failure_threshold := 2, bc_half_open_probe_count := 2\<rparr>"

text \<open>C12: in every state that the critical sections of any number of threads reach in any order, a closed
  circuit has fewer failures than the threshold, an open or half-open one knows its last failure and
  waits between the minimal and the maximal backoff, and a half-open one has fewer successes than probes;
  and no section violates the assertion on the transition it makes.\<close>

theorem breaker_invariant:
  assumes "breaker_reachable c b"
  shows "(\<forall>tool s. lookup_tool b tool = Some s \<longrightarrow> tool_ok c s) \<and> snd (section_step sec b)"
  using reachable_ok [OF assms] section_ok unfolding breaker_ok_def by blast

theorem breaker_invariant_witness:
  "snd (section_step (SAllow 9 ''t'') (fst (section_step (SFailure 5 ''t'' Network)
     (fst (section_step (SFailure 3 ''t'' Timeout) (new_breaker demo_config None))))))"
  using breaker_invariant [OF breaker_reachable.step [OF breaker_reachable.step [OF breaker_reachable.start]]] by blast

text \<open>a request for a tool is admitted exactly when nothing is known of it, its circuit is closed, it is half
  open with probes left, or it is open and its backoff (the reset timeout if that is zero) has passed since
  the last failure; an admission of an open circuit makes it half open with no successes yet, and a
  refusal is counted.\<close>

theorem request_admitted_iff:
  "(fst (allow_request_for_tool now tool b) \<longleftrightarrow>
     (case lookup_tool b tool of
        None \<Rightarrow> True
      | Some s \<Rightarrow>
          (case ts_status s of
             Closed \<Rightarrow> True
           | HalfOpen \<Rightarrow> ts_successes s < bc_half_open_probe_count (br_config b)
           | Open \<Rightarrow> (\<exists>t. ts_last_failure s = Some t \<and> open_backoff (br_config b) s \<le> now - t))))
   \<and> (state_for_tool b tool = Open \<longrightarrow>
        (if fst (allow_request_for_tool now tool b)
         then entry_tool (snd (allow_request_for_tool now tool b)) tool
                = (entry_tool b tool)\<lparr>ts_status := HalfOpen, ts_successes := 0\<rparr>
         else entry_tool (snd (allow_request_for_tool now tool b)) tool = deny now (entry_tool b tool)))"
proof (rule conjI [OF admitted_iff], rule impI)
  assume "state_for_tool b tool = Open"
  then obtain s where s: "lookup_tool b tool = Some s" "ts_status s = Open"
    by (auto simp: state_for_tool_def split: option.splits)
  show "if fst (allow_request_for_tool now tool b)
     then entry_tool (snd (allow_request_for_tool now tool b)) tool
            = (entry_tool b tool)\<lparr>ts_status := HalfOpen, ts_successes := 0\<rparr>
     else entry_tool (snd (allow_request_for_tool now tool b)) tool = deny now (entry_tool b tool)"
    using s by (auto simp: allow_request_for_tool_def allow_read_def allow_write_def transition_to_def Let_def
        entry_of_lookup breaker_simps split: option.splits)
qed

definition opened_breaker :: breaker where
  "opened_breaker = run_failures [(3, ''t'', Network), (5, ''t'', Timeout)] (new_breaker demo_config None)"

lemma opened_breaker_state:
  "lookup_tool opened_breaker ''t'' = Some (default_tool_state\<lparr>ts_status := Open, ts_failure_count := 2,
     ts_last_failure := Some 5, ts_backoff := from_secs 5, ts_opened_at := Some 5, ts_open_count := 1,
     ts_last_category := Some Timeout\<rparr>)" "br_config opened_breaker = demo_config"
  by (simp_all add: opened_breaker_def run_failures_def record_failure_category_for_tool_def record_failure_checked_def
      should_trip_circuit_breaker_def failure_state_def entry_tool_def lookup_tool_def new_breaker_def store_tool_def
      record_circuit_open_metric_def transition_to_def demo_config_def default_breaker_config_def default_tool_state_def Let_def word_le_nat_alt)

theorem request_admitted_iff_witness:
  "\<not> fst (allow_request_for_tool 9 ''t'' opened_breaker)
   \<and> entry_tool (snd (allow_request_for_tool 9 ''t'' opened_breaker)) ''t'' = deny 9 (entry_tool opened_breaker ''t'')"
proof -
  have "\<not> fst (allow_request_for_tool 9 ''t'' opened_breaker)" "state_for_tool opened_breaker ''t'' = Open"
    by (simp_all add: admitted_iff opened_breaker_state open_backoff_def from_secs_def state_for_tool_def)
  with request_admitted_iff [where now = 9 and tool = "''t''" and b = opened_breaker] show ?thesis by simp
qed

text \<open>C38: an open circuit recovers after its own wait, its current backoff, or the reset timeout when that is zero,
  counted from its last failure. Before that a request is refused and neither the last failure nor the backoff moves, so
  polling does not postpone the recovery; from then on a request is admitted, and as many successes as probes are
  required close the circuit with no failures counted. The wait never exceeds the larger of the reset timeout and the
  bounds of the backoff.\<close>

theorem circuit_recovers:
  assumes "breaker_reachable c b" "lookup_tool b tool = Some s" "ts_status s = Open"
  shows "\<exists>t wait. ts_last_failure s = Some t \<and> wait = (if ts_backoff s = 0 then bc_reset_timeout c else ts_backoff s)
    \<and> wait \<le> max (bc_reset_timeout c) (max (bc_min_backoff c) (bc_max_backoff c))
    \<and> (now - t < wait \<longrightarrow>
        (\<exists>b' s'. allow_request_for_tool now tool b = (False, b') \<and> lookup_tool b' tool = Some s' \<and> ts_status s' = Open
           \<and> ts_last_failure s' = Some t \<and> ts_backoff s' = ts_backoff s))
    \<and> (wait \<le> now - t \<longrightarrow>
        (\<exists>b'. allow_request_for_tool now tool b = (True, b')
           \<and> (let r = (record_success_for_tool tool ^^ max 1 (unat (bc_half_open_probe_count c))) b'
              in state_for_tool r tool = Closed \<and> ts_failure_count (entry_tool r tool) = 0)))"
proof -
  have ok: "br_config b = c" "tool_ok c s" using reachable_ok [OF assms(1)] assms(2) by (auto simp: breaker_ok_def)
  then obtain t where t: "ts_last_failure s = Some t" and bound: "ts_backoff s \<le> max (bc_min_backoff c) (bc_max_backoff c)"
    using assms(3) by (auto simp: tool_ok_def backoff_ok_def)
  let ?wait = "if ts_backoff s = 0 then bc_reset_timeout c else ts_backoff s"
  have wait: "open_backoff (br_config b) s = ?wait" using ok by (simp add: open_backoff_def)
  have refused: "\<exists>b' s'. allow_request_for_tool now tool b = (False, b') \<and> lookup_tool b' tool = Some s' \<and> ts_status s' = Open
           \<and> ts_last_failure s' = Some t \<and> ts_backoff s' = ts_backoff s" if "now - t < ?wait"
    using refused_open [OF assms(2,3) t] that wait assms(3) t by (simp add: breaker_simps deny_def)
  have admitted: "\<exists>b'. allow_request_for_tool now tool b = (True, b')
           \<and> (let r = (record_success_for_tool tool ^^ max 1 (unat (bc_half_open_probe_count c))) b'
              in state_for_tool r tool = Closed \<and> ts_failure_count (entry_tool r tool) = 0)" if "?wait \<le> now - t"
  proof -
    have "open_backoff (br_config b) s \<le> now - t" using that wait by simp
    note allow = admitted_open [OF assms(2,3) t this]
    let ?s = "s\<lparr>ts_status := HalfOpen, ts_successes := 0\<rparr>"
    let ?b = "record_half_open_metric (store_tool tool ?s b)"
    have "entry_tool ?b tool = ?s" "br_config ?b = c" using ok by (simp_all add: entry_of_lookup breaker_simps)
    then have "let r = (record_success_for_tool tool ^^ max 1 (unat (bc_half_open_probe_count c))) ?b
          in state_for_tool r tool = Closed \<and> ts_failure_count (entry_tool r tool) = 0"
      using record_success_funpow [where tool = tool and n = "max 1 (unat (bc_half_open_probe_count c))" and b = ?b] last_success_closes [of ?s _ c]
      by (simp add: Let_def state_of_entry)
    with allow show ?thesis by blast
  qed
  show ?thesis using t bound refused admitted by (intro exI [of _ t] exI [of _ ?wait]) auto
qed

lemma opened_reachable: "breaker_reachable demo_config opened_breaker"
proof -
  have "breaker_reachable demo_config (fst (section_step (SFailure 5 ''t'' Timeout)
     (fst (section_step (SFailure 3 ''t'' Network) (new_breaker demo_config None)))))"
    by (intro breaker_reachable.intros)
  then show ?thesis by (simp add: opened_breaker_def run_failures_def record_failure_category_for_tool_def)
qed

theorem circuit_recovers_witness:
  "\<not> fst (allow_request_for_tool (4 + from_secs 5) ''t'' opened_breaker)
   \<and> (\<exists>b'. allow_request_for_tool (5 + from_secs 5) ''t'' opened_breaker = (True, b')
       \<and> state_for_tool (record_success_for_tool ''t'' (record_success_for_tool ''t'' b')) ''t'' = Closed)"
proof -
  have two: "max 1 (unat (bc_half_open_probe_count demo_config)) = Suc (Suc 0)" by (simp add: demo_config_def)
  note rec = circuit_recovers [OF opened_reachable opened_breaker_state(1)]
  show ?thesis
    using rec [of "4 + from_secs 5"] rec [of "5 + from_secs 5"] unfolding two by (auto simp: Let_def from_secs_def)
qed

text \<open>a circuit opens after as many circuit-breaking failures of its tool as the threshold says, and at least
  one; failures of other tools and failures of other categories do not count.\<close>

theorem opens_at_threshold:
  "state_for_tool (run_failures evs (new_breaker c m)) tool =
     (if max 1 (unat (bc_failure_threshold c)) \<le> trips tool evs then Open else Closed)"
proof -
  have "failed_times c 0 (entry_tool (new_breaker c m) tool)"
    by (simp add: failed_times_def entry_tool_def lookup_tool_def new_breaker_def default_tool_state_def)
  then have "failed_times c (trips tool evs) (entry_tool (run_failures evs (new_breaker c m)) tool)"
    using run_failures_count [of "new_breaker c m" 0 tool evs] by (simp add: new_breaker_def)
  then show ?thesis by (auto simp: failed_times_def state_of_entry split: if_splits)
qed

text \<open>while a half-open circuit waits for the outcome of its probes it admits any number of requests: the limit
  counts successes, not the requests let through.\<close>

theorem half_open_admits_any_number:
  assumes "lookup_tool b tool = Some s" "ts_status s = HalfOpen" "ts_successes s < bc_half_open_probe_count (br_config b)"
  shows "foldl (\<lambda>(answers, b) now. case allow_request_for_tool now tool b of (a, b') \<Rightarrow> (answers @ [a], b')) ([], b) clock
    = (replicate (length clock) True, b)"
proof (induction clock rule: rev_induct)
  case (snoc now clock)
  have "allow_request_for_tool now tool b = (True, b)"
    using assms by (simp add: allow_request_for_tool_def allow_read_def)
  then show ?case using snoc by (simp add: replicate_append_same)
qed simp

theorem half_open_admits_any_number_witness:
  "foldl (\<lambda>(answers, b) now. case allow_request_for_tool now ''t'' b of (a, b') \<Rightarrow> (answers @ [a], b'))
     ([], store_tool ''t'' (default_tool_state\<lparr>ts_status := HalfOpen\<rparr>) (new_breaker demo_config None)) [7, 7, 7]
   = ([True, True, True], store_tool ''t'' (default_tool_state\<lparr>ts_status := HalfOpen\<rparr>) (new_breaker demo_config None))"
  using half_open_admits_any_number [of "store_tool ''t'' (default_tool_state\<lparr>ts_status := HalfOpen\<rparr>) (new_breaker demo_config None)"
      "''t''" "default_tool_state\<lparr>ts_status := HalfOpen\<rparr>" "[7, 7, 7]"]
  by (simp add: breaker_simps demo_config_def default_tool_state_def new_breaker_def numeral_eq_Suc)

end
