(* ===== verification/Rate_Facts.thy ===== *)
theory Rate_Facts
  imports Rate_Limits Circuit_Facts
begin

text \<open>
  What the rate limiters guarantee: the bound on the calls a bucket admits, its progress, the invariant of the
  bucket of floats with the priorities it can never serve, and the order in which the facade asks.
\<close>

subsection \<open>The integer bucket at normal speed\<close>

definition u32_config :: "limiter_config \<Rightarrow> bool" where
  "u32_config c \<longleftrightarrow> rl_per_sec c \<le> u32_max \<and> rl_burst c \<le> u32_max"

lemma f_of_u32: "n \<le> u32_max \<Longrightarrow> f_of_nat n = FFin (of_nat n)"
  by (simp add: f_of_nat_def round_f64_of_nat)

lemma times_one: "n \<le> u32_max \<Longrightarrow> fmul (f_of_nat n) (FFin 1) = FFin (of_nat n)"
  by (simp add: f_of_u32 round_f64_of_nat)

lemma normal_rate: "n \<le> u32_max \<Longrightarrow> refill_rate_of n (FFin 1) = n"
  unfolding refill_rate_of_def by (subst times_one) (auto simp: fmax_def)

lemma normal_burst:
  assumes "n \<le> u32_max"
  shows "effective_burst n (FFin 1) = n"
proof -
  have one: "fmax (FFin 1) (FFin 1) = FFin 1" by (simp add: fmax_def)
  have "(of_nat n :: rat) \<le> of_nat u32_max" using assms by (simp only: of_nat_le_iff)
  moreover have "fle (FFin 0) (FFin (of_nat n))" by simp
  moreover have "f_to_uint u32_max (FFin (of_nat n)) = n" using assms by simp
  ultimately show ?thesis
    unfolding effective_burst_def one times_one [OF assms] f_of_u32 [OF order_refl] Let_def
    by (simp only: is_finite.simps fle.simps simp_thms if_True)
qed

definition refill_amount :: "nat \<Rightarrow> instant \<Rightarrow> instant \<Rightarrow> nat" where
  "refill_amount per_sec since now =
     (let millis = as_millis (now - since) mod 2 ^ 64
      in if millis < 50 then 0 else min (min (per_sec * millis) u64_max div 1000) u32_max)"

lemma refill_normal:
  assumes "u32_config (bk_config b)"
  shows "refill now (FFin 1) b =
    (let added = refill_amount (rl_per_sec (bk_config b)) (bk_last_refill b) now
     in if added = 0 then b
        else b\<lparr>bk_tokens := min (min (bk_tokens b + added) u32_max) (rl_burst (bk_config b)), bk_last_refill := now\<rparr>)"
proof -
  have u32: "rl_per_sec (bk_config b) \<le> u32_max" "rl_burst (bk_config b) \<le> u32_max"
    using assms unfolding u32_config_def by blast+
  have swap: "(if 0 < n then x else y) = (if n = 0 then y else x)" for n :: nat and x y :: bucket by simp
  show ?thesis
    unfolding refill_def elapsed_def refill_amount_def Let_def normal_rate [OF u32(1)] normal_burst [OF u32(2)] swap
    by (cases "as_millis (now - bk_last_refill b) mod 2 ^ 64 < 50") (simp_all only: if_True if_False simp_thms)
qed

lemma refill_amount_bound: "refill_amount r since now * 10 ^ 9 \<le> r * (now - since)"
proof -
  let ?m = "as_millis (now - since) mod 2 ^ 64"
  have "refill_amount r since now \<le> min (r * ?m) u64_max div 1000"
    unfolding refill_amount_def Let_def by (simp only: split: if_split) simp
  also have "\<dots> \<le> r * ?m div 1000" by (intro div_le_mono) simp
  finally have "refill_amount r since now * 1000 \<le> r * ?m" by (simp add: less_eq_div_iff_mult_less_eq)
  then have "refill_amount r since now * 1000 * 1000000 \<le> r * (?m * 1000000)" by simp
  also have "\<dots> \<le> r * (now - since)"
  proof (rule mult_left_mono)
    have "?m \<le> as_millis (now - since)" by simp
    then have "?m * 1000000 \<le> as_millis (now - since) * 1000000" by simp
    also have "\<dots> \<le> now - since" by (simp add: as_millis_def)
    finally show "?m * 1000000 \<le> now - since" .
  qed simp
  finally show ?thesis by simp
qed

text \<open>Calls at given instants; the number admitted.\<close>

fun admitted :: "instant list \<Rightarrow> bucket \<Rightarrow> nat \<times> bucket" where
  "admitted [] b = (0, b)"
| "admitted (now # ts) b =
     (let (r, b') = try_acquire now b; (n, b'') = admitted ts b'
      in ((if is_ok r then 1 else 0) + n, b''))"

lemma try_acquire_budget:
  assumes "u32_config (bk_config b)" "try_acquire now b = (r, b')" "bk_last_refill b \<le> T" "now \<le> T"
  shows "bk_config b' = bk_config b \<and> bk_last_refill b \<le> bk_last_refill b' \<and> bk_last_refill b' \<le> T
    \<and> ((if is_ok r then 1 else 0) + bk_tokens b') * 10 ^ 9
       \<le> bk_tokens b * 10 ^ 9 + rl_per_sec (bk_config b) * (bk_last_refill b' - bk_last_refill b)"
proof -
  let ?a = "refill_amount (rl_per_sec (bk_config b)) (bk_last_refill b) now"
  let ?c = "refill now (FFin 1) b"
  have bound: "?a * 10 ^ 9 \<le> rl_per_sec (bk_config b) * (now - bk_last_refill b)" by (rule refill_amount_bound)
  have later: "bk_last_refill b \<le> now" if "?a \<noteq> 0"
  proof (rule ccontr)
    assume "\<not> bk_last_refill b \<le> now"
    then have "?a = 0" by (simp add: refill_amount_def as_millis_def)
    with that show False by contradiction
  qed
  have "bk_config ?c = bk_config b \<and> bk_last_refill b \<le> bk_last_refill ?c \<and> bk_last_refill ?c \<le> T
    \<and> bk_tokens ?c * 10 ^ 9 \<le> bk_tokens b * 10 ^ 9 + rl_per_sec (bk_config b) * (bk_last_refill ?c - bk_last_refill b)"
  proof (cases "?a = 0")
    case True
    then show ?thesis using assms by (simp add: refill_normal)
  next
    case False
    let ?t = "min (min (bk_tokens b + ?a) u32_max) (rl_burst (bk_config b))"
    have "?t * 10 ^ 9 \<le> (bk_tokens b + ?a) * 10 ^ 9" by (intro mult_right_mono) auto
    also have "\<dots> \<le> bk_tokens b * 10 ^ 9 + rl_per_sec (bk_config b) * (now - bk_last_refill b)"
      using bound by (simp add: add_mult_distrib)
    finally show ?thesis using False later assms by (simp add: refill_normal Let_def)
  qed
  moreover have "(r, b') = (if bk_tokens ?c = 0 then (bail ''tool rate limit exceeded'', ?c)
      else (ok_unit, ?c\<lparr>bk_tokens := bk_tokens ?c - 1\<rparr>))"
    using assms(2) by (simp add: try_acquire_def try_acquire_scaled_def Let_def)
  ultimately show ?thesis by (auto split: if_splits)
qed

lemma admitted_budget:
  assumes "u32_config (bk_config b)" "bk_last_refill b \<le> T" "\<forall>now \<in> set ts. now \<le> T" "admitted ts b = (n, b')"
  shows "(n + bk_tokens b') * 10 ^ 9 \<le> bk_tokens b * 10 ^ 9 + rl_per_sec (bk_config b) * (T - bk_last_refill b)"
  using assms
proof (induction ts arbitrary: b n)
  case (Cons now ts)
  obtain r c where c: "try_acquire now b = (r, c)" by fastforce
  obtain m where m: "admitted ts c = (m, b')" "n = (if is_ok r then 1 else 0) + m"
    using Cons.prems(4) c by (auto simp: Let_def split: prod.splits)
  have step: "bk_config c = bk_config b" "bk_last_refill b \<le> bk_last_refill c" "bk_last_refill c \<le> T"
    "((if is_ok r then 1 else 0) + bk_tokens c) * 10 ^ 9
       \<le> bk_tokens b * 10 ^ 9 + rl_per_sec (bk_config b) * (bk_last_refill c - bk_last_refill b)"
    using try_acquire_budget [OF Cons.prems(1) c Cons.prems(2), of] Cons.prems(3) by auto
  have "(m + bk_tokens b') * 10 ^ 9 \<le> bk_tokens c * 10 ^ 9 + rl_per_sec (bk_config c) * (T - bk_last_refill c)"
    using Cons.IH [OF _ step(3) _ m(1)] Cons.prems step(1) by simp
  moreover have "rl_per_sec (bk_config b) * (bk_last_refill c - bk_last_refill b) + rl_per_sec (bk_config b) * (T - bk_last_refill c)
      = rl_per_sec (bk_config b) * (T - bk_last_refill b)"
    using step by (simp flip: add_mult_distrib2)
  ultimately show ?case using step(1,4) m(2) by (simp add: add_mult_distrib split: if_splits)
qed simp

subsection \<open>The bucket of floats\<close>

definition bucket_ok :: "token_bucket \<Rightarrow> bool" where
  "bucket_ok b \<longleftrightarrow> (\<exists>x c r. tb_tokens b = FFin x \<and> tb_capacity b = FFin c \<and> tb_refill_rate b = FFin r
     \<and> is_f64 x \<and> is_f64 c \<and> 0 \<le> x \<and> x \<le> c \<and> c < 2 ^ 1024 \<and> 0 < r)"

lemma fadd_positive:
  assumes "flt (FFin 0) z" "0 \<le> x"
  shows "fadd (FFin x) z = FPosInf \<or> (\<exists>y. fadd (FFin x) z = FFin y \<and> 0 \<le> y \<and> is_f64 y)"
proof (cases z)
  case (FFin w)
  with assms have "0 \<le> x + w" by (simp add: flt_def)
  from round_f64_nonneg [OF this] show ?thesis unfolding FFin fadd.simps by blast
qed (use assms in \<open>simp_all add: flt_def\<close>)

lemma refill_tokens_ok:
  assumes "bucket_ok b"
  shows "bucket_ok (refill_tokens now b) \<and> tb_capacity (refill_tokens now b) = tb_capacity b
    \<and> tb_refill_rate (refill_tokens now b) = tb_refill_rate b"
proof -
  obtain x c r where b: "tb_tokens b = FFin x" "tb_capacity b = FFin c" "tb_refill_rate b = FFin r"
    "is_f64 x" "is_f64 c" "0 \<le> x" "x \<le> c" "c < 2 ^ 1024" "0 < r" using assms by (auto simp: bucket_ok_def)
  show ?thesis
  proof (cases "flt (FFin 0) (fmul (as_secs_f64 (elapsed (tb_last_refill b) now)) (tb_refill_rate b))")
    case True
    then show ?thesis
      using fadd_positive [OF True, of x] b
      by (auto simp: refill_tokens_def Let_def bucket_ok_def fmin_def)
  next
    case False
    then show ?thesis using assms by (simp add: refill_tokens_def Let_def)
  qed
qed

lemma fsub_cost:
  assumes "is_f64 x" "0 \<le> k" "k \<le> x" "x < 2 ^ 1024"
  shows "\<exists>y. fsub (FFin x) (FFin k) = FFin y \<and> is_f64 y \<and> 0 \<le> y \<and> y \<le> x"
proof -
  have "round_rat (x - k) \<le> round_rat x" using assms by (intro round_rat_mono) simp
  then have "round_rat (x - k) \<le> x" using assms by (simp add: is_f64_def)
  moreover have "0 \<le> round_rat (x - k)" using assms by (intro round_rat_nonneg) simp
  moreover have "- (2 ^ 1024) < (0::rat)" by simp
  ultimately show ?thesis
    using assms by (auto simp: fsub_def round_f64_def Let_def round_rat_is_f64)
qed

lemma fmin_capacity: "fle (fmin x (FFin c)) (FFin c)"
  by (cases x) (auto simp: fmin_def)

lemma priority_weight_value: "\<exists>k. priority_weight p = FFin k \<and> 0 < k"
proof (cases p)
  case Critical
  have "(0::rat) \<le> 1 / 10" by simp
  moreover have "round_rat (1 / 10) \<noteq> 0"
  proof
    assume "round_rat (1 / 10) = 0"
    moreover have "round_rat (1 / 1024) \<le> round_rat (1 / 10)" by (rule round_rat_mono) simp
    moreover have "is_f64 (of_int 1 * 2 powi (- 10))" by (rule scaled_is_f64) simp_all
    then have "round_rat (1 / 1024) = 1 / 1024" by (simp add: is_f64_def power_int_minus)
    ultimately show False by simp
  qed
  moreover have "round_rat (1 / 10) \<le> round_rat (of_nat 1)" by (rule round_rat_mono) simp
  then have "round_rat (1 / 10) \<le> 1" by (subst (asm) round_rat_of_nat) simp_all
  then have "\<not> 2 ^ 1024 \<le> round_rat (1 / 10)"
    using less_le_trans [of 1 "(2::rat) ^ 1024"] by (meson leD one_less_numeral_iff one_less_power order_le_less_trans semiring_norm(76) zero_less_numeral)
  ultimately show ?thesis
    using round_f64_nonneg [of "1 / 10"] Critical by (auto simp: round_f64_def Let_def order_less_le)
next
  case High
  then show ?thesis by (intro exI [of _ "1 / 2"]) simp
qed auto

lemma try_acquire_cost_ok:
  assumes "bucket_ok b" "0 < k" "try_acquire_cost now (FFin k) b = (ok, b')"
  shows "bucket_ok b' \<and> tb_capacity b' = tb_capacity b \<and> tb_refill_rate b' = tb_refill_rate b
    \<and> (ok \<longrightarrow> fle (FFin k) (tb_capacity b))"
proof -
  let ?r = "refill_tokens now b"
  note r = refill_tokens_ok [OF assms(1), of now]
  then obtain x c rate where f: "tb_tokens ?r = FFin x" "tb_capacity ?r = FFin c" "tb_refill_rate ?r = FFin rate"
    "is_f64 x" "is_f64 c" "0 \<le> x" "x \<le> c" "c < 2 ^ 1024" "0 < rate" unfolding bucket_ok_def by blast
  show ?thesis
  proof (cases "k \<le> x")
    case True
    obtain y where "fsub (FFin x) (FFin k) = FFin y" "is_f64 y" "0 \<le> y" "y \<le> x"
      using fsub_cost [OF f(4) _ True] assms(2) f(7,8) by auto
    then have "ok" "b' = ?r\<lparr>tb_tokens := FFin y\<rparr>" using assms(3) True f by (auto simp: try_acquire_cost_def Let_def)
    then show ?thesis using f r True \<open>is_f64 y\<close> \<open>0 \<le> y\<close> \<open>y \<le> x\<close> by (auto simp: bucket_ok_def)
  next
    case False
    then have "\<not> ok" "b' = ?r" using assms(3) f by (auto simp: try_acquire_cost_def Let_def)
    then show ?thesis using r by simp
  qed
qed

lemma new_token_bucket_ok:
  assumes "is_f64 c" "0 < c" "c < 2 ^ 1024" "0 < r"
  shows "bucket_ok (new_token_bucket (FFin c) (FFin r) now)"
  using assms by (simp add: bucket_ok_def new_token_bucket_def)

text \<open>A limiter whose buckets are all sound and of the default capacity and rate.\<close>

definition limiter_ok :: "adaptive_limiter \<Rightarrow> bool" where
  "limiter_ok l \<longleftrightarrow>
     (\<exists>c r. al_capacity l = FFin c \<and> al_refill_rate l = FFin r \<and> is_f64 c \<and> 0 < c \<and> c < 2 ^ 1024 \<and> 0 < r)
     \<and> (\<forall>b \<in> ran (al_buckets l). bucket_ok b \<and> tb_capacity b = al_capacity l \<and> tb_refill_rate b = al_refill_rate l)"

definition priority_of :: "adaptive_limiter \<Rightarrow> string \<Rightarrow> priority" where
  "priority_of l tool = (case al_priorities l tool of Some p \<Rightarrow> p | None \<Rightarrow> Normal)"

lemma adaptive_step:
  assumes "limiter_ok l" "adaptive_try_acquire now tool l = (result, l')"
  shows "limiter_ok l' \<and> al_priorities l' = al_priorities l \<and> al_capacity l' = al_capacity l
    \<and> (result = Inr () \<longrightarrow> fle (priority_weight (priority_of l tool)) (al_capacity l))"
proof -
  obtain c r where l: "al_capacity l = FFin c" "al_refill_rate l = FFin r" "is_f64 c" "0 < c" "c < 2 ^ 1024" "0 < r"
    using assms(1) by (auto simp: limiter_ok_def)
  define b where "b = (case al_buckets l tool of Some b \<Rightarrow> b | None \<Rightarrow> new_token_bucket (al_capacity l) (al_refill_rate l) now)"
  have b: "bucket_ok b \<and> tb_capacity b = al_capacity l \<and> tb_refill_rate b = al_refill_rate l"
    using assms(1) new_token_bucket_ok [OF l(3-6)] l
    by (auto simp: b_def limiter_ok_def ran_def new_token_bucket_def split: option.split)
  obtain k where k: "priority_weight (priority_of l tool) = FFin k" "0 < k" using priority_weight_value by blast
  obtain ok b' where ok: "try_acquire_cost now (FFin k) b = (ok, b')" by fastforce
  note step = try_acquire_cost_ok [OF conjunct1 [OF b] k(2) ok]
  have res: "l' = l\<lparr>al_buckets := (al_buckets l)(tool \<mapsto> b')\<rparr>" "result = Inr () \<longrightarrow> ok"
    using assms(2) ok k(1) by (auto simp: adaptive_try_acquire_def Let_def priority_of_def b_def split: if_splits prod.splits)
  have "ran ((al_buckets l)(tool \<mapsto> b')) \<subseteq> insert b' (ran (al_buckets l))"
    by (auto simp: ran_def split: if_splits)
  then show ?thesis
    using assms(1) step b res k(1) by (auto simp: limiter_ok_def)
qed

subsection \<open>Properties\<close>

text \<open>C13: whatever calls are made between the creation of a bucket and an instant, it admits at most its burst plus
  what its rate gives for the time in between, counted in nanoseconds.\<close>

theorem bucket_admits_at_most:
  assumes "u32_config config" "t0 \<le> T" "\<forall>now \<in> set ts. now \<le> T"
  shows "fst (admitted ts (new_bucket config t0)) * 10 ^ 9 \<le> rl_burst config * 10 ^ 9 + rl_per_sec config * (T - t0)"
proof -
  obtain n b' where n: "admitted ts (new_bucket config t0) = (n, b')" by fastforce
  have "(n + bk_tokens b') * 10 ^ 9 \<le> rl_burst config * 10 ^ 9 + rl_per_sec config * (T - t0)"
    using admitted_budget [OF _ _ assms(3) n] assms(1,2) by (simp add: new_bucket_def)
  with n show ?thesis by simp
qed

theorem bucket_admits_at_most_witness:
  "fst (admitted [0, 0, 0, 40000000, 60000000] (new_bucket \<lparr>rl_per_sec = 20, rl_burst = 2\<rparr> 0)) \<le> 3"
proof -
  have "u32_config \<lparr>rl_per_sec = 20, rl_burst = 2\<rparr>" by (simp add: u32_config_def)
  from bucket_admits_at_most [OF this, of 0 60000000 "[0, 0, 0, 40000000, 60000000]"]
  show ?thesis by simp
qed

text \<open>A call that finds the bucket ready for one token: the refill waits for fifty milliseconds at least, and for the
  time of a token.\<close>

definition token_due :: "bucket \<Rightarrow> instant \<Rightarrow> bool" where
  "token_due b now \<longleftrightarrow> 50 \<le> as_millis (now - bk_last_refill b)
     \<and> 1000 \<le> rl_per_sec (bk_config b) * as_millis (now - bk_last_refill b)"

lemma refill_amount_due:
  assumes "as_millis (now - bk_last_refill b) < 2 ^ 64"
  shows "0 < refill_amount (rl_per_sec (bk_config b)) (bk_last_refill b) now \<longleftrightarrow> token_due b now"
proof -
  let ?m = "as_millis (now - bk_last_refill b)" and ?r = "rl_per_sec (bk_config b)"
  have m: "?m mod 2 ^ 64 = ?m" using assms by (rule mod_less)
  have "0 < min (min (?r * ?m) u64_max div 1000) u32_max \<longleftrightarrow> 1000 \<le> ?r * ?m"
    by (simp add: div_greater_zero_iff)
  then show ?thesis unfolding refill_amount_def Let_def m token_due_def by (simp only: not_le [symmetric] split: if_split) simp
qed

lemma empty_bucket_call:
  assumes "u32_config (bk_config b)" "0 < rl_burst (bk_config b)" "bk_tokens b = 0"
    "as_millis (now - bk_last_refill b) < 2 ^ 64"
  shows "is_ok (fst (try_acquire now b)) \<longleftrightarrow> token_due b now"
    "\<not> token_due b now \<Longrightarrow> snd (try_acquire now b) = b"
proof -
  let ?added = "refill_amount (rl_per_sec (bk_config b)) (bk_last_refill b) now"
  note due = refill_amount_due [OF assms(4)] and r = refill_normal [OF assms(1), of now, unfolded Let_def]
  have "bk_tokens (refill now (FFin 1) b) = 0 \<longleftrightarrow> ?added = 0"
    unfolding r using assms(2,3) by simp
  then show "is_ok (fst (try_acquire now b)) \<longleftrightarrow> token_due b now"
    using due by (auto simp: try_acquire_def try_acquire_scaled_def Let_def bail_def)
  show "snd (try_acquire now b) = b" if "\<not> token_due b now"
    using that due assms(3) r by (simp add: try_acquire_def try_acquire_scaled_def Let_def)
qed

text \<open>C39: an empty bucket is not starved by polling. Whatever calls are made, one of them is admitted exactly when one
  comes at least fifty milliseconds, and at least the time of a token, after the last refill; refused calls do not
  postpone that moment. (The burst is at least one and the elapsed milliseconds fit
  64 bits.)\<close>

theorem bucket_serves_again:
  assumes "u32_config (bk_config b)" "0 < rl_burst (bk_config b)" "bk_tokens b = 0"
    "\<forall>now \<in> set ts. as_millis (now - bk_last_refill b) < 2 ^ 64"
  shows "0 < fst (admitted ts b) \<longleftrightarrow>
    (\<exists>now \<in> set ts. 50 \<le> as_millis (now - bk_last_refill b)
       \<and> 1000 \<le> rl_per_sec (bk_config b) * as_millis (now - bk_last_refill b))"
  using assms(4) unfolding token_due_def [symmetric]
proof (induction ts)
  case (Cons now ts)
  obtain r b' where rb: "try_acquire now b = (r, b')" by fastforce
  have now: "as_millis (now - bk_last_refill b) < 2 ^ 64" using Cons.prems by simp
  note call = empty_bucket_call [OF assms(1-3) now, unfolded rb fst_conv snd_conv]
  show ?case
  proof (cases "token_due b now")
    case True
    then show ?thesis using call(1) by (simp add: rb split_beta)
  next
    case False
    then show ?thesis using call Cons by (simp add: rb split_beta)
  qed
qed simp

theorem bucket_serves_again_witness:
  "0 < fst (admitted [20000000, 49000000, 50000000] \<lparr>bk_config = \<lparr>rl_per_sec = 20, rl_burst = 2\<rparr>, bk_tokens = 0, bk_last_refill = 0\<rparr>)
   \<and> fst (admitted [20000000, 49000000] \<lparr>bk_config = \<lparr>rl_per_sec = 20, rl_burst = 2\<rparr>, bk_tokens = 0, bk_last_refill = 0\<rparr>) = 0"
proof -
  let ?b = "\<lparr>bk_config = \<lparr>rl_per_sec = 20, rl_burst = 2\<rparr>, bk_tokens = 0, bk_last_refill = 0\<rparr>"
  have "u32_config (bk_config ?b)" by (simp add: u32_config_def)
  from bucket_serves_again [OF this, of "[20000000, 49000000, 50000000]"] bucket_serves_again [OF this, of "[20000000, 49000000]"]
  show ?thesis by (simp add: as_millis_def)
qed

text \<open>C40: the adaptive limiter keeps every bucket between empty and its capacity under the rounding of floats,
  and grants a call only if the weight of its priority fits into the capacity: a tool of a heavier priority
  is refused for ever, with a wait suggested each time.\<close>

theorem adaptive_buckets_bounded:
  assumes "limiter_ok l" "adaptive_try_acquire now tool l = (result, l')"
  shows "limiter_ok l' \<and> (\<not> fle (priority_weight (priority_of l tool)) (al_capacity l) \<longrightarrow> result \<noteq> Inr ())"
  using adaptive_step [OF assms] by blast

theorem adaptive_buckets_bounded_witness:
  "\<exists>wait. fst (adaptive_try_acquire 5 ''t'' (set_priority ''t'' Low (new_adaptive_limiter (FFin 1) (FFin 1)))) = Inl wait"
proof -
  let ?l = "set_priority ''t'' Low (new_adaptive_limiter (FFin 1) (FFin 1))"
  have "is_f64 1" using is_f64_of_nat [of 1] by simp
  moreover have "(1::rat) < 2 ^ 1024" by simp
  ultimately have "limiter_ok ?l"
    by (simp add: limiter_ok_def set_priority_def new_adaptive_limiter_def positive_finite_or_def flt_def)
  moreover have "\<not> fle (priority_weight (priority_of ?l ''t'')) (al_capacity ?l)"
    by (simp add: priority_of_def set_priority_def new_adaptive_limiter_def positive_finite_or_def)
  ultimately have "fst (adaptive_try_acquire 5 ''t'' ?l) \<noteq> Inr ()"
    using adaptive_buckets_bounded [of ?l 5 "''t''"] by (metis prod.collapse)
  then show ?thesis by (cases "fst (adaptive_try_acquire 5 ''t'' ?l)") auto
qed

text \<open>the facade asks the circuit breaker first: a call refused by it costs no token and changes no priority,
  and a call is granted only if both agree.\<close>

theorem facade_order:
  "(fst (resilience_try_acquire now tool p r) = Inr () \<longleftrightarrow>
      fst (allow_request_for_tool now tool (tr_breaker r))
      \<and> fst (adaptive_try_acquire now tool (set_priority tool p (tr_limiter r))) = Inr ())
   \<and> (if fst (allow_request_for_tool now tool (tr_breaker r))
      then True else tr_limiter (snd (resilience_try_acquire now tool p r)) = tr_limiter r)"
  by (auto simp: resilience_try_acquire_def split: prod.split)

end
