(* ===== verification/Vim_Text.thy ===== *)
theory Vim_Text
  imports Utf8_Text
begin

text \<open>
  The text functions of the Vim engine (\<open>vim/types.rs\<close>, motions and text objects, and \<open>vim/text.rs\<close>). A result
  \<open>None\<close> is a panic: a slice off a character boundary, a reversed slice, or an arithmetic overflow, which the
  release profile checks. The second half says what each function computes for a cursor on a boundary, as
  a function of the texts before and after it.
\<close>

section \<open>Definitions\<close>

datatype motion = WordForward | EndWord | WordBackward

datatype text_object = ObjWord bool bool | ObjDelimited bool rchar rchar

function skip_to_boundary :: "rtext \<Rightarrow> nat \<Rightarrow> nat" where
  "skip_to_boundary s pos =
     (if pos < blen s \<and> \<not> is_char_boundary s pos then skip_to_boundary s (pos + 1) else pos)"
  by pat_completeness auto
termination by (relation "measure (\<lambda>(s, pos). blen s - pos)") auto

declare skip_to_boundary.simps [simp del]

definition next_char_boundary :: "rtext \<Rightarrow> nat \<Rightarrow> nat" where
  "next_char_boundary s pos = (if blen s \<le> pos then blen s else skip_to_boundary s (pos + 1))"

fun back_to_boundary :: "rtext \<Rightarrow> nat \<Rightarrow> nat" where
  "back_to_boundary s 0 = 0"
| "back_to_boundary s (Suc p) = (if is_char_boundary s (Suc p) then Suc p else back_to_boundary s p)"

definition prev_char_boundary :: "rtext \<Rightarrow> nat \<Rightarrow> nat" where
  "prev_char_boundary s pos = (if pos = 0 then 0 else back_to_boundary s (pos - 1))"

lemma back_to_boundary_le: "back_to_boundary s p \<le> p"
  by (induction p) (auto simp: le_Suc_eq)

lemma prev_char_boundary_less: "0 < pos \<Longrightarrow> prev_char_boundary s pos < pos"
  using back_to_boundary_le [of s "pos - 1"] by (simp add: prev_char_boundary_def)

lemma skip_to_boundary_ge: "pos \<le> skip_to_boundary s pos"
proof (induction s pos rule: skip_to_boundary.induct)
  case (1 s pos)
  then show ?case by (subst skip_to_boundary.simps) auto
qed

lemma next_char_boundary_greater: "pos < blen s \<Longrightarrow> pos < next_char_boundary s pos"
  using skip_to_boundary_ge [of "pos + 1" s] by (simp add: next_char_boundary_def)

definition vim_line_start :: "rtext \<Rightarrow> nat \<Rightarrow> nat option" where
  "vim_line_start content cursor =
     do { pre \<leftarrow> slice_to content (min cursor (blen content));
          Some (case rfind_char ((=) nl) pre of Some idx \<Rightarrow> idx + 1 | None \<Rightarrow> 0) }"

definition vim_current_line_bounds :: "rtext \<Rightarrow> nat \<Rightarrow> (nat \<times> nat) option" where
  "vim_current_line_bounds content cursor =
     do { start \<leftarrow> vim_line_start content cursor;
          rest \<leftarrow> slice_from content start;
          Some (start, case find_char ((=) nl) rest of Some idx \<Rightarrow> start + idx | None \<Rightarrow> blen content) }"

definition vim_line_end :: "rtext \<Rightarrow> nat \<Rightarrow> nat option" where
  "vim_line_end content cursor =
     do { start \<leftarrow> vim_line_start content cursor;
          rest \<leftarrow> slice_from content start;
          Some (case find_char ((=) nl) rest of Some idx \<Rightarrow> start + idx | None \<Rightarrow> blen content) }"

definition vim_line_first_non_ws :: "rtext \<Rightarrow> nat \<Rightarrow> nat option" where
  "vim_line_first_non_ws content cursor =
     do { start \<leftarrow> vim_line_start content cursor;
          line_end \<leftarrow> vim_line_end content cursor;
          line \<leftarrow> slice content start line_end;
          Some (case find_char (\<lambda>c. \<not> char_is_whitespace c) line of Some idx \<Rightarrow> start + idx | None \<Rightarrow> start) }"

definition vim_is_word_char :: "(rchar \<Rightarrow> bool) \<Rightarrow> rchar \<Rightarrow> bool" where
  "vim_is_word_char alnum ch \<longleftrightarrow> alnum ch \<or> ch = 0x5F"

fun word_scan :: "(rchar \<Rightarrow> bool) \<Rightarrow> bool \<Rightarrow> nat \<Rightarrow> rtext \<Rightarrow> nat option" where
  "word_scan word seen_separator offset [] = None"
| "word_scan word seen_separator offset (ch # chars) =
     (if \<not> seen_separator then word_scan word (\<not> word ch) (offset + len_utf8 ch) chars
      else if word ch then Some offset
      else word_scan word seen_separator (offset + len_utf8 ch) chars)"

definition vim_next_word_start :: "(rchar \<Rightarrow> bool) \<Rightarrow> rtext \<Rightarrow> nat \<Rightarrow> nat option" where
  "vim_next_word_start alnum content cursor =
     (if content = [] then Some 0
      else let cursor = min cursor (blen content)
           in do { rest \<leftarrow> slice_from content cursor;
                   Some (case rest of
                           [] \<Rightarrow> blen content
                         | first_ch # _ \<Rightarrow>
                             (case word_scan (vim_is_word_char alnum) (\<not> vim_is_word_char alnum first_ch) 0 rest of
                                Some offset \<Rightarrow> cursor + offset
                              | None \<Rightarrow> blen content)) })"

text \<open>The loops that step over characters while they satisfy a test, to the left and to the right.\<close>

function extend_left :: "(rchar \<Rightarrow> bool) \<Rightarrow> rtext \<Rightarrow> nat \<Rightarrow> nat option" where
  "extend_left P content pos =
     (if pos = 0 then Some 0
      else case slice_from content (prev_char_boundary content pos) of
             None \<Rightarrow> None
           | Some rest \<Rightarrow>
               if P (first_or 0 rest) then extend_left P content (prev_char_boundary content pos) else Some pos)"
  by pat_completeness auto
termination by (relation "measure (\<lambda>(P, content, pos). pos)") (auto simp: prev_char_boundary_less)

function extend_right :: "(rchar \<Rightarrow> bool) \<Rightarrow> rtext \<Rightarrow> nat \<Rightarrow> nat option" where
  "extend_right P content pos =
     (if blen content \<le> pos then Some pos
      else case slice_from content pos of
             None \<Rightarrow> None
           | Some rest \<Rightarrow>
               if P (first_or 0 rest) then extend_right P content (next_char_boundary content pos) else Some pos)"
  by pat_completeness auto
termination
  by (relation "measure (\<lambda>(P, content, pos). blen content - pos)")
    (auto intro!: diff_less_mono2 next_char_boundary_greater)

function prev_word_loop :: "(rchar \<Rightarrow> bool) \<Rightarrow> rtext \<Rightarrow> nat \<Rightarrow> nat option" where
  "prev_word_loop word content pos =
     (if pos = 0 then Some 0
      else case slice_from content pos of
             None \<Rightarrow> None
           | Some rest \<Rightarrow>
               if word (first_or 0 rest) then extend_left word content pos
               else prev_word_loop word content (prev_char_boundary content pos))"
  by pat_completeness auto
termination by (relation "measure (\<lambda>(word, content, pos). pos)") (auto simp: prev_char_boundary_less)

definition vim_prev_word_start :: "(rchar \<Rightarrow> bool) \<Rightarrow> rtext \<Rightarrow> nat \<Rightarrow> nat option" where
  "vim_prev_word_start alnum content cursor =
     prev_word_loop (vim_is_word_char alnum) content (prev_char_boundary content (min cursor (blen content)))"

fun end_scan :: "(rchar \<Rightarrow> bool) \<Rightarrow> nat \<Rightarrow> nat \<Rightarrow> rtext \<Rightarrow> nat" where
  "end_scan word last_pos pos [] = last_pos"
| "end_scan word last_pos pos (ch # chars) =
     (if word ch then end_scan word pos (pos + len_utf8 ch) chars else last_pos)"

definition vim_end_word :: "(rchar \<Rightarrow> bool) \<Rightarrow> rtext \<Rightarrow> nat \<Rightarrow> nat option" where
  "vim_end_word alnum content cursor0 =
     (let cursor = min cursor0 (blen content); word = vim_is_word_char alnum
      in do { rest \<leftarrow> slice_from content cursor;
              start \<leftarrow> (if rest \<noteq> [] \<and> word (hd rest) then Some cursor else vim_next_word_start alnum content cursor);
              if blen content \<le> start then Some (blen content)
              else do { tail \<leftarrow> slice_from content start;
                        Some (if \<not> (tail \<noteq> [] \<and> word (hd tail)) then blen content
                              else end_scan word start start tail) } })"

definition vim_motion_range :: "(rchar \<Rightarrow> bool) \<Rightarrow> rtext \<Rightarrow> nat \<Rightarrow> motion \<Rightarrow> (nat \<times> nat) option option" where
  "vim_motion_range alnum content cursor m =
     do { target \<leftarrow> (case m of
                        WordForward \<Rightarrow> vim_next_word_start alnum content cursor
                      | EndWord \<Rightarrow> vim_end_word alnum content cursor
                      | WordBackward \<Rightarrow> vim_prev_word_start alnum content cursor);
          Some (case m of
                  WordBackward \<Rightarrow> if target < cursor then Some (target, cursor) else None
                | EndWord \<Rightarrow> if cursor \<le> target then Some (cursor, next_char_boundary content target) else None
                | WordForward \<Rightarrow> if cursor < target then Some (cursor, target) else None) }"

definition vim_current_line_full_range :: "rtext \<Rightarrow> nat \<Rightarrow> (nat \<times> nat) option" where
  "vim_current_line_full_range content cursor =
     do { start \<leftarrow> vim_line_start content cursor;
          line_end \<leftarrow> vim_line_end content cursor;
          Some (start, if line_end < blen content then line_end + 1 else line_end) }"

definition vim_is_linewise_range :: "rtext \<Rightarrow> nat \<Rightarrow> nat \<Rightarrow> bool option" where
  "vim_is_linewise_range content start stop =
     do { line_start \<leftarrow> vim_line_start content start;
          if start \<noteq> line_start then Some False
          else if stop = blen content then Some True
          else if stop = 0 then None
          else Some (slice content (stop - 1) stop = Some [nl]) }"

definition vim_find_char :: "rtext \<Rightarrow> nat \<Rightarrow> rchar \<Rightarrow> bool \<Rightarrow> bool \<Rightarrow> nat option option" where
  "vim_find_char content cursor ch forward till =
     do { (start, stop) \<leftarrow> vim_current_line_bounds content cursor;
          if forward
          then do { let search_start = next_char_boundary content cursor;
                    seg \<leftarrow> slice content search_start stop;
                    Some (map_option (\<lambda>offset. let found = search_start + offset
                                               in if till then prev_char_boundary content found else found)
                            (find_char ((=) ch) seg)) }
          else do { seg \<leftarrow> slice content start cursor;
                    Some (map_option (\<lambda>offset. let found = start + offset
                                               in if till then next_char_boundary content found else found)
                            (rfind_char ((=) ch) seg)) } }"

definition word_object_range :: "(rchar \<Rightarrow> bool) \<Rightarrow> rtext \<Rightarrow> nat \<Rightarrow> bool \<Rightarrow> (nat \<times> nat) option option" where
  "word_object_range classify content cursor around =
     do { let current_byte = min cursor (blen content);
          rest \<leftarrow> slice_from content current_byte;
          if (rest = [] \<or> \<not> classify (hd rest)) \<and> \<not> around then Some None
          else do { byte_start \<leftarrow> extend_left classify content current_byte;
                    byte_end \<leftarrow> extend_right classify content current_byte;
                    if byte_start = byte_end \<and> \<not> around then Some None
                    else if around
                    then do { byte_start \<leftarrow> extend_left char_is_whitespace content byte_start;
                              byte_end \<leftarrow> extend_right char_is_whitespace content byte_end;
                              Some (Some (byte_start, byte_end)) }
                    else Some (Some (byte_start, byte_end)) } }"

definition delimited_range :: "rtext \<Rightarrow> nat \<Rightarrow> bool \<Rightarrow> rchar \<Rightarrow> rchar \<Rightarrow> (nat \<times> nat) option option" where
  "delimited_range content cursor around open_ch close_ch =
     do { pre \<leftarrow> slice_to content cursor;
          case rfind_char ((=) open_ch) pre of
            None \<Rightarrow> Some None
          | Some left \<Rightarrow>
              do { rest \<leftarrow> slice_from content cursor;
                   case find_char ((=) close_ch) rest of
                     None \<Rightarrow> Some None
                   | Some idx \<Rightarrow>
                       (let right = cursor + idx
                        in Some (if right \<le> left then None
                                 else Some (if around then (left, next_char_boundary content right)
                                            else (next_char_boundary content left, right)))) } }"

definition vim_text_object_range ::
  "(rchar \<Rightarrow> bool) \<Rightarrow> rtext \<Rightarrow> nat \<Rightarrow> text_object \<Rightarrow> (nat \<times> nat) option option" where
  "vim_text_object_range alnum content cursor object =
     (case object of
        ObjWord around big \<Rightarrow>
          word_object_range (\<lambda>ch. if big then \<not> char_is_whitespace ch else vim_is_word_char alnum ch) content cursor around
      | ObjDelimited around open_ch close_ch \<Rightarrow> delimited_range content cursor around open_ch close_ch)"

declare extend_left.simps [simp del] extend_right.simps [simp del]
  prev_word_loop.simps [simp del]

section \<open>What they compute on a split text\<close>

text \<open>The part of a text up to the start of its last line, that line, and the line a text begins with.\<close>

definition before_line :: "rtext \<Rightarrow> rtext" where
  "before_line l = rev (dropWhile ((\<noteq>) nl) (rev l))"

definition last_line :: "rtext \<Rightarrow> rtext" where
  "last_line l = rev (takeWhile ((\<noteq>) nl) (rev l))"

definition line_rest :: "rtext \<Rightarrow> rtext" where
  "line_rest r = takeWhile ((\<noteq>) nl) r"

definition after_line :: "rtext \<Rightarrow> rtext" where
  "after_line r = dropWhile ((\<noteq>) nl) r"

lemma line_split: "before_line l @ last_line l = l" "line_rest r @ after_line r = r"
  by (simp_all add: before_line_def last_line_def line_rest_def after_line_def flip: rev_append)

lemma blen_line_split: "blen (before_line l) + blen (last_line l) = blen l" "blen (line_rest r) + blen (after_line r) = blen r"
  by (metis line_split blen_append)+

lemma last_line_no_nl [simp]: "nl \<notin> set (last_line l)" and line_rest_no_nl [simp]: "nl \<notin> set (line_rest r)"
  by (auto simp: last_line_def line_rest_def dest: set_takeWhileD)

lemma before_line_cases: "before_line l = [] \<or> (\<exists>p. before_line l = p @ [nl])"
proof (cases "dropWhile ((\<noteq>) nl) (rev l)")
  case (Cons c p)
  then have "c = nl" using hd_dropWhile [of "(\<noteq>) nl" "rev l"] by simp
  with Cons show ?thesis by (simp add: before_line_def)
qed (simp add: before_line_def)

lemma after_line_cases: "after_line r = [] \<or> (\<exists>t. after_line r = nl # t)"
proof (cases "after_line r")
  case (Cons c t)
  then have "c = nl" using hd_dropWhile [of "(\<noteq>) nl" r] by (simp add: after_line_def)
  with Cons show ?thesis by simp
qed simp

lemma not_boundary_inside: "0 < k \<Longrightarrow> k < len_utf8 c \<Longrightarrow> \<not> is_char_boundary (l @ c # r) (blen l + k)"
  by (simp add: boundary_shift boundary_Cons)

lemma prev_char_boundary_snoc [text_simps, simp]: "prev_char_boundary (l @ c # r) (blen l + len_utf8 c) = blen l"
proof -
  have "k < len_utf8 c \<Longrightarrow> back_to_boundary (l @ c # r) (blen l + k) = blen l" for k
  proof (induction k)
    case 0
    then show ?case by (cases "blen l") (simp_all, metis boundary_append)
  next
    case (Suc k)
    then have "\<not> is_char_boundary (l @ c # r) (blen l + Suc k)" by (intro not_boundary_inside) simp_all
    with Suc show ?case by simp
  qed
  from this [of "len_utf8 c - 1"] show ?thesis
    by (simp add: prev_char_boundary_def Nat.add_diff_assoc Suc_leI)
qed

lemma next_char_boundary_append [text_simps, simp]: "next_char_boundary (l @ c # r) (blen l) = blen l + len_utf8 c"
proof -
  have "k < len_utf8 c \<Longrightarrow> skip_to_boundary (l @ c # r) (blen l + len_utf8 c - k) = blen l + len_utf8 c" for k
  proof (induction k)
    case 0
    have "is_char_boundary (l @ c # r) (blen l + len_utf8 c)" by (simp add: boundary_shift boundary_Cons)
    then show ?case by (simp add: skip_to_boundary.simps)
  next
    case (Suc k)
    then have eq: "blen l + len_utf8 c - Suc k = blen l + (len_utf8 c - Suc k)" by simp
    from Suc.prems have "\<not> is_char_boundary (l @ c # r) (blen l + (len_utf8 c - Suc k))"
      by (intro not_boundary_inside) simp_all
    moreover from Suc.prems have "blen l + (len_utf8 c - Suc k) + 1 = blen l + len_utf8 c - k" by simp
    ultimately show ?case using Suc unfolding eq by (subst skip_to_boundary.simps) simp
  qed
  note * = this [of "len_utf8 c - 1"]
  have "blen l + len_utf8 c - (len_utf8 c - 1) = blen l + 1" by (simp add: Suc_leI)
  with * show ?thesis by (simp add: next_char_boundary_def)
qed

lemma next_char_boundary_end [simp]: "next_char_boundary s (blen s) = blen s"
  by (simp add: next_char_boundary_def)

lemma prev_char_boundary_0 [simp]: "prev_char_boundary s 0 = 0"
  by (simp add: prev_char_boundary_def)

lemma next_char_boundary_split:
  "next_char_boundary (l @ r) (blen l) = blen l + (case r of [] \<Rightarrow> 0 | c # _ \<Rightarrow> len_utf8 c)"
  using next_char_boundary_end [of l] by (cases r) simp_all

text \<open>Lines.\<close>

lemma min_append [simp]: "min (blen l) (blen l + n) = blen l"
  by simp

lemma rfind_nl: "(case rfind_char ((=) nl) l of Some i \<Rightarrow> i + 1 | None \<Rightarrow> 0) = blen (before_line l)"
proof (cases "rfind_char ((=) nl) l")
  case None
  then have "before_line l = []" by (auto simp: before_line_def rfind_char_None dropWhile_eq_Nil_conv)
  with None show ?thesis by simp
next
  case (Some i)
  then obtain a b where "l = a @ nl # b" "i = blen a" "\<forall>x \<in> set b. nl \<noteq> x" by (auto elim: rfind_charE)
  moreover from this have "before_line l = a @ [nl]" by (auto simp: before_line_def dropWhile_append)
  ultimately show ?thesis using Some by simp
qed

lemma find_nl: "(case find_char ((=) nl) r of Some i \<Rightarrow> n + i | None \<Rightarrow> n + blen r) = n + blen (line_rest r)"
proof (cases "find_char ((=) nl) r")
  case None
  then have "line_rest r = r" by (auto simp: line_rest_def find_char_None)
  with None show ?thesis by simp
next
  case (Some i)
  then obtain a b where "r = a @ nl # b" "i = blen a" "\<forall>x \<in> set a. nl \<noteq> x" by (auto elim: find_charE)
  moreover from this have "line_rest r = a" by (auto simp: line_rest_def takeWhile_append)
  ultimately show ?thesis using Some by simp
qed

lemma vim_line_start_split [text_simps, simp]: "vim_line_start (l @ r) (blen l) = Some (blen (before_line l))"
  by (simp add: vim_line_start_def rfind_nl)

lemma line_rest_append: "nl \<notin> set a \<Longrightarrow> line_rest (a @ r) = a @ line_rest r"
  by (auto simp: line_rest_def takeWhile_append)

lemma slice_from_line [simp]: "slice_from (l @ r) (blen (before_line l)) = Some (last_line l @ r)"
  using slice_from_append [of "before_line l" "last_line l @ r"] by (simp add: line_split append_assoc [symmetric] del: append_assoc)

lemma find_nl_line:
  "(case find_char ((=) nl) (last_line l @ r) of
      Some i \<Rightarrow> blen (before_line l) + i | None \<Rightarrow> blen (l @ r)) = blen l + blen (line_rest r)"
proof -
  have l: "blen (before_line l) + blen (last_line l) = blen l" by (rule blen_line_split)
  then have r: "blen (before_line l) + blen (last_line l @ r) = blen (l @ r)" by simp
  have "blen (before_line l) + blen (line_rest (last_line l @ r)) = blen l + blen (line_rest r)"
    using l by (simp add: line_rest_append)
  with find_nl [of "blen (before_line l)" "last_line l @ r"] show ?thesis unfolding r by simp
qed

lemma vim_current_line_bounds_split [text_simps, simp]:
  "vim_current_line_bounds (l @ r) (blen l) = Some (blen (before_line l), blen l + blen (line_rest r))"
  using find_nl_line [of l r] by (simp add: vim_current_line_bounds_def del: blen_append)

lemma vim_line_end_split [text_simps, simp]: "vim_line_end (l @ r) (blen l) = Some (blen l + blen (line_rest r))"
  using find_nl_line [of l r] by (simp add: vim_line_end_def del: blen_append)

text \<open>Words and the loops over characters.\<close>

lemma vim_line_first_non_ws_split [text_simps]:
  "\<exists>w t. last_line l @ line_rest r = w @ t \<and> vim_line_first_non_ws (l @ r) (blen l) = Some (blen (before_line l @ w))
     \<and> (t = [] \<longrightarrow> w = []) \<and> list_all char_is_whitespace w"
proof -
  let ?line = "last_line l @ line_rest r"
  have "l @ r = before_line l @ ?line @ after_line r" "blen l + blen (line_rest r) = blen (before_line l) + blen ?line"
    using blen_line_split(1) [of l] by (simp_all add: line_split flip: append_assoc) (metis line_split append_assoc)
  then have "slice (l @ r) (blen (before_line l)) (blen l + blen (line_rest r)) = Some ?line" by (metis slice_mid)
  then have eq: "vim_line_first_non_ws (l @ r) (blen l) =
      Some (case find_char (\<lambda>c. \<not> char_is_whitespace c) ?line of Some i \<Rightarrow> blen (before_line l) + i | None \<Rightarrow> blen (before_line l))"
    by (simp add: vim_line_first_non_ws_def)
  show ?thesis
  proof (cases "find_char (\<lambda>c. \<not> char_is_whitespace c) ?line")
    case None
    then show ?thesis using eq by (intro exI [of _ "[]"] exI [of _ ?line]) simp
  next
    case (Some i)
    then obtain a c b where "?line = a @ c # b" "i = blen a" "list_all char_is_whitespace a"
      by (auto elim!: find_charE simp: list_all_iff)
    then show ?thesis using eq Some by (intro exI [of _ a] exI [of _ "c # b"]) simp
  qed
qed

lemma extend_left_split [text_simps, simp]:
  "extend_left P (l @ r) (blen l) = Some (blen (rev (dropWhile P (rev l))))"
proof (induction l arbitrary: r rule: rev_induct)
  case Nil
  then show ?case by (subst extend_left.simps) simp
next
  case (snoc c l)
  have "extend_left P (l @ c # r) (blen l) = Some (blen (dropWhile P (rev l)))"
    using snoc [of "c # r"] by simp
  then show ?case by (subst extend_left.simps) simp
qed

lemma extend_right_split [text_simps, simp]:
  "extend_right P (l @ r) (blen l) = Some (blen (l @ takeWhile P r))"
proof (induction r arbitrary: l)
  case Nil
  then show ?case by (subst extend_right.simps) simp
next
  case (Cons c r)
  have "extend_right P (l @ c # r) (blen l + len_utf8 c) = Some (blen l + len_utf8 c + blen (takeWhile P r))"
    using Cons [of "l @ [c]"] by simp
  then show ?case by (subst extend_right.simps) simp
qed

lemma prev_word_loop_split:
  "prev_word_loop word (l @ c # r) (blen l) =
     Some (blen (dropWhile word (dropWhile (\<lambda>x. \<not> word x) (c # rev l))))"
proof (induction l arbitrary: c r rule: rev_induct)
  case Nil
  then show ?case by (subst prev_word_loop.simps) simp
next
  case (snoc d l)
  have "prev_word_loop word (l @ d # c # r) (blen l) = Some (blen (dropWhile word (dropWhile (\<lambda>x. \<not> word x) (d # rev l))))"
    using snoc [of d "c # r"] by simp
  moreover have "extend_left word (l @ d # c # r) (blen l + len_utf8 d) = Some (blen (dropWhile word (d # rev l)))"
    using extend_left_split [of word "l @ [d]" "c # r"] by simp
  moreover have "slice_from (l @ d # c # r) (blen l + len_utf8 d) = Some (c # r)"
    using slice_from_append [of "l @ [d]" "c # r"] by simp
  ultimately show ?case by (subst prev_word_loop.simps) simp
qed

definition word_start_before :: "(rchar \<Rightarrow> bool) \<Rightarrow> rtext \<Rightarrow> rtext" where
  "word_start_before word l = rev (dropWhile word (dropWhile (\<lambda>x. \<not> word x) (rev l)))"

definition word_gap :: "(rchar \<Rightarrow> bool) \<Rightarrow> rtext \<Rightarrow> rtext" where
  "word_gap word r = takeWhile word r @ takeWhile (\<lambda>x. \<not> word x) (dropWhile word r)"

definition to_word_end :: "(rchar \<Rightarrow> bool) \<Rightarrow> rtext \<Rightarrow> rtext" where
  "to_word_end word r = takeWhile (\<lambda>x. \<not> word x) r @ butlast (takeWhile word (dropWhile (\<lambda>x. \<not> word x) r))"

lemma vim_prev_word_start_split [text_simps, simp]:
  "vim_prev_word_start alnum (l @ r) (blen l) = Some (blen (word_start_before (vim_is_word_char alnum) l))"
proof (cases l rule: rev_cases)
  case Nil
  then show ?thesis
    by (simp add: vim_prev_word_start_def word_start_before_def prev_word_loop.simps)
next
  case (snoc l' c)
  have "min (blen l) (blen (l @ r)) = blen l" by simp
  then show ?thesis using snoc prev_word_loop_split [of "vim_is_word_char alnum" l' c r]
    by (simp add: vim_prev_word_start_def word_start_before_def del: min_append)
qed

lemma find_char_case:
  "(case find_char P s of Some i \<Rightarrow> n + i | None \<Rightarrow> n + blen s) = n + blen (takeWhile (\<lambda>x. \<not> P x) s)"
proof (induction s arbitrary: n)
  case (Cons c s)
  show ?case using Cons [of "n + len_utf8 c"] by (cases "find_char P s") auto
qed simp

lemma map_option_add: "map_option ((+) (a + b)) x = map_option (\<lambda>y. a + (b + y)) (x :: nat option)"
  by (cases x) simp_all

lemma word_scan_skip: "word_scan word True n s = map_option ((+) n) (find_char word s)"
  by (induction s arbitrary: n) (auto simp: option.map_comp comp_def map_option_add)

lemma word_scan_word:
  "word_scan word False n s = map_option ((+) (n + blen (takeWhile word s))) (find_char word (dropWhile word s))"
proof (induction s arbitrary: n)
  case (Cons c s)
  then show ?case
    by (cases "word c") (simp_all add: word_scan_skip option.map_comp comp_def map_option_add Cons.IH add.assoc)
qed simp

lemma vim_next_word_start_split [text_simps, simp]:
  "vim_next_word_start alnum (l @ r) (blen l) = Some (blen l + blen (word_gap (vim_is_word_char alnum) r))"
proof (cases r)
  case Nil
  then show ?thesis by (simp add: vim_next_word_start_def word_gap_def Let_def)
next
  case (Cons c t)
  let ?w = "vim_is_word_char alnum"
  have gap: "word_gap ?w (c # t) = (if ?w c then takeWhile ?w r @ takeWhile (\<lambda>x. \<not> ?w x) (dropWhile ?w r) else takeWhile (\<lambda>x. \<not> ?w x) r)"
    using Cons by (simp add: word_gap_def)
  have scan: "(case word_scan ?w (\<not> ?w c) 0 r of Some i \<Rightarrow> blen l + i | None \<Rightarrow> blen (l @ r)) = blen l + blen (word_gap ?w r)"
  proof (cases "?w c")
    case True
    have "blen (takeWhile ?w r) + blen (dropWhile ?w r) = blen r"
      by (metis blen_append takeWhile_dropWhile_id)
    then have total: "blen (l @ r) = blen l + blen (takeWhile ?w r) + blen (dropWhile ?w r)" by simp
    show ?thesis
      using True find_char_case [where n = "blen l + blen (takeWhile ?w r)" and P = ?w and s = "dropWhile ?w r"] unfolding total
      by (cases "find_char ?w (dropWhile ?w r)") (simp_all add: word_scan_word word_gap_def)
  next
    case False
    then show ?thesis using find_char_case [where n = "blen l" and P = ?w and s = r] Cons
      by (cases "find_char ?w t") (simp_all add: word_scan_skip word_gap_def)
  qed
  have "vim_next_word_start alnum (l @ r) (blen l) =
      Some (case word_scan ?w (\<not> ?w c) 0 r of Some i \<Rightarrow> blen l + i | None \<Rightarrow> blen (l @ r))"
    unfolding Cons by (simp add: vim_next_word_start_def Let_def del: word_scan.simps)
  with scan show ?thesis by simp
qed

lemma end_scan_prefix: "end_scan word last_pos pos s = (if takeWhile word s = [] then last_pos else pos + blen (butlast (takeWhile word s)))"
  by (induction s arbitrary: last_pos pos) auto

lemma vim_end_word_split [text_simps, simp]:
  "vim_end_word alnum (l @ r) (blen l) =
     Some (if \<exists>c \<in> set r. vim_is_word_char alnum c then blen l + blen (to_word_end (vim_is_word_char alnum) r)
           else blen (l @ r))"
proof -
  let ?w = "vim_is_word_char alnum"
  define g where "g = takeWhile (\<lambda>x. \<not> ?w x) r"
  define t where "t = dropWhile (\<lambda>x. \<not> ?w x) r"
  have r: "r = g @ t" by (simp add: g_def t_def)
  have hd: "t \<noteq> [] \<Longrightarrow> ?w (hd t)" using hd_dropWhile [of "\<lambda>x. \<not> ?w x" r] by (simp add: t_def)
  have g: "\<forall>c \<in> set g. \<not> ?w c" by (auto simp: g_def dest: set_takeWhileD)
  have start: "(if r \<noteq> [] \<and> ?w (hd r) then Some (blen l) else vim_next_word_start alnum (l @ r) (blen l)) = Some (blen l + blen g)"
    using vim_next_word_start_split [of alnum l r] by (cases r) (simp_all add: g_def word_gap_def)
  have tail: "slice_from (l @ r) (blen l + blen g) = Some t"
    using slice_from_append [of "l @ g" t] r by simp
  have eq: "vim_end_word alnum (l @ r) (blen l) =
      Some (if blen (l @ r) \<le> blen l + blen g \<or> \<not> (t \<noteq> [] \<and> ?w (hd t)) then blen (l @ r)
            else end_scan ?w (blen l + blen g) (blen l + blen g) t)"
    unfolding vim_end_word_def Let_def blen_append min_append slice_from_append Option.bind.simps start tail by simp
  show ?thesis
  proof (cases t)
    case Nil
    then have "\<not> (\<exists>c \<in> set r. ?w c)" using g r by simp
    with Nil eq show ?thesis by simp
  next
    case (Cons c t')
    then have "\<exists>c \<in> set r. ?w c" using hd r by auto
    moreover have "\<not> blen (l @ r) \<le> blen l + blen g" using Cons r by simp
    ultimately show ?thesis using Cons hd unfolding eq
      by (simp add: end_scan_prefix to_word_end_def g_def [symmetric] t_def [symmetric])
  qed
qed

text \<open>Ranges: a result is always a part of the text.\<close>

definition part_of :: "rtext \<Rightarrow> nat \<times> nat \<Rightarrow> bool" where
  "part_of content ab \<longleftrightarrow> (\<exists>l m r. content = l @ m @ r \<and> ab = (blen l, blen l + blen m))"

lemma part_ofI: "part_of (l @ m @ r) (blen l, blen l + blen m)"
  by (auto simp: part_of_def)

lemma part_of_iff: "part_of s (a, b) \<longleftrightarrow> a \<le> b \<and> is_char_boundary s a \<and> is_char_boundary s b"
proof
  assume "part_of s (a, b)"
  then obtain l m r where "s = l @ m @ r" "a = blen l" "b = blen l + blen m" by (auto simp: part_of_def)
  then show "a \<le> b \<and> is_char_boundary s a \<and> is_char_boundary s b" using boundary_append [of "l @ m" r] by simp
qed (auto elim!: slice_split intro: part_ofI)

lemma boundary_append_left: "is_char_boundary a p \<Longrightarrow> is_char_boundary (a @ b) p"
  by (elim boundaryE) simp

lemma boundary_of_prefix [intro]: "s = a @ b \<Longrightarrow> p = blen a \<Longrightarrow> is_char_boundary s p"
  by simp

lemma vim_current_line_full_range_split [text_simps, simp]:
  "vim_current_line_full_range (l @ r) (blen l) =
     Some (blen (before_line l), blen l + blen (line_rest r) + (if after_line r = [] then 0 else 1))"
proof -
  have "blen (line_rest r) < blen r \<longleftrightarrow> after_line r \<noteq> []"
    using blen_line_split(2) [of r] by (metis blen_0 less_add_same_cancel1 neq0_conv not_less_iff_gr_or_eq add.right_neutral)
  then show ?thesis by (simp add: vim_current_line_full_range_def)
qed

lemma vim_is_linewise_range_split [text_simps]:
  "vim_is_linewise_range (l @ m @ r) (blen l) (blen l + blen m) =
     (if last_line l \<noteq> [] then Some False
      else if r = [] then Some True
      else if l @ m = [] then None
      else Some (last (l @ m) = nl))"
proof -
  have start: "blen l = blen (before_line l) \<longleftrightarrow> last_line l = []"
    using blen_line_split(1) [of l] by (metis add_cancel_left_right blen_0)
  have total: "blen l + blen m = blen (l @ m @ r) \<longleftrightarrow> r = []" by simp
  have "slice (l @ m @ r) (blen l + blen m - 1) (blen l + blen m) = Some [nl] \<longleftrightarrow> last (l @ m) = nl" if "l @ m \<noteq> []"
  proof -
    from that obtain a c where lm: "l @ m = a @ [c]" by (metis rev_exhaust)
    then have b: "blen l + blen m = blen a + len_utf8 c" by (metis blen_append blen.simps add_0_right)
    show ?thesis
    proof (cases "len_utf8 c = 1")
      case True
      have "l @ m @ r = a @ [c] @ r" using lm by simp
      moreover have "slice (a @ [c] @ r) (blen a) (blen a + 1) = Some [c]" using True slice_mid [of a "[c]" r] by simp
      moreover have "blen l + blen m - 1 = blen a" "blen l + blen m = blen a + 1" using True b by simp_all
      ultimately show ?thesis using lm by (metis last_snoc list.inject option.inject)
    next
      case False
      then have "c \<noteq> nl" by auto
      moreover have "\<not> is_char_boundary (a @ c # r) (blen a + (len_utf8 c - 1))"
        by (rule not_boundary_inside) (use False in \<open>simp_all add: len_utf8_def split: if_splits\<close>)
      then have "slice (a @ c # r) (blen a + (len_utf8 c - 1)) (blen a + len_utf8 c) = None" using slice_defined by blast
      moreover have "blen a + len_utf8 c - 1 = blen a + (len_utf8 c - 1)" by (simp add: Suc_leI)
      moreover have lmr: "l @ m @ r = a @ c # r" using lm by (metis append_assoc append_Cons append_Nil)
      ultimately show ?thesis unfolding b lmr using lm by simp
    qed
  qed
  then show ?thesis by (auto simp: vim_is_linewise_range_def start)
qed

lemma vim_find_char_forward [text_simps]:
  "vim_find_char (l @ r) (blen l) ch True till =
     (case r of
        [] \<Rightarrow> Some None
      | c # t \<Rightarrow>
          if c = nl then None
          else Some (if ch \<in> set (line_rest t)
                     then Some (blen (l @ (if till then butlast else id) (c # takeWhile ((\<noteq>) ch) t))) else None))"
proof (cases r)
  case Nil
  then show ?thesis using slice_mid [of l "[]" "[]"] vim_current_line_bounds_split [of l "[]"]
    by (simp add: vim_find_char_def line_rest_def del: slice_mid vim_current_line_bounds_split)
next
  case (Cons c t)
  show ?thesis
  proof (cases "c = nl")
    case True
    then show ?thesis using Cons by (simp add: vim_find_char_def line_rest_def slice_None)
  next
    case False
    have s: "l @ r = (l @ [c]) @ line_rest t @ after_line t" using Cons by (simp add: line_split)
    then have seg: "slice (l @ r) (blen l + len_utf8 c) (blen l + len_utf8 c + blen (line_rest t)) = Some (line_rest t)"
      using slice_mid [of "l @ [c]" "line_rest t" "after_line t"] by simp
    have rest: "line_rest r = c # line_rest t" using Cons False by (simp add: line_rest_def)
    have eq: "vim_find_char (l @ r) (blen l) ch True till = Some (map_option (\<lambda>offset. let found = blen l + len_utf8 c + offset
          in if till then prev_char_boundary (l @ r) found else found) (find_char ((=) ch) (line_rest t)))"
      using seg rest unfolding Cons by (simp add: vim_find_char_def add.assoc)
    show ?thesis
    proof (cases "find_char ((=) ch) (line_rest t)")
      case None
      then have "ch \<notin> set (line_rest t)" by (auto simp: find_char_None)
      with eq None Cons False show ?thesis by simp
    next
      case (Some i)
      then obtain a b where t: "line_rest t = a @ ch # b" "i = blen a" "\<forall>x \<in> set a. ch \<noteq> x" by (auto elim: find_charE)
      then have t': "t = a @ ch # b @ after_line t" by (metis line_split(2) append_assoc append_Cons)
      have "takeWhile ((\<noteq>) ch) (a @ ch # u) = a" for u using t(3) by (induction a) auto
      then have tw: "takeWhile ((\<noteq>) ch) t = a" using t' by metis
      have "prev_char_boundary (l @ r) (blen l + len_utf8 c + blen a) = blen (l @ butlast (c # a))"
      proof (cases a rule: rev_cases)
        case Nil
        then show ?thesis using Cons by simp
      next
        case (snoc a' d)
        have "l @ r = (l @ c # a') @ d # (ch # b @ after_line t)" using Cons t' snoc by simp
        then show ?thesis using prev_char_boundary_snoc [of "l @ c # a'" d] snoc by (simp add: add.assoc)
      qed
      with eq Some t tw Cons False show ?thesis by (simp add: Let_def)
    qed
  qed
qed

lemma vim_find_char_backward [text_simps]:
  "vim_find_char (l @ r) (blen l) ch False till =
     Some (if ch \<in> set (last_line l)
           then Some (blen ((rev (dropWhile ((\<noteq>) ch) (rev l))) @ []) - (if till then 0 else len_utf8 ch)) else None)"
proof -
  let ?a = "before_line l"
  have s: "l @ r = ?a @ last_line l @ r" by (metis append_assoc line_split(1))
  have len: "blen l = blen ?a + blen (last_line l)" by (simp add: blen_line_split)
  have seg: "slice (l @ r) (blen ?a) (blen l) = Some (last_line l)" unfolding s len by (rule slice_mid)
  have eq: "vim_find_char (l @ r) (blen l) ch False till = Some (map_option (\<lambda>offset. let found = blen ?a + offset
        in if till then next_char_boundary (l @ r) found else found) (rfind_char ((=) ch) (last_line l)))"
    using seg by (simp add: vim_find_char_def)
  show ?thesis
  proof (cases "rfind_char ((=) ch) (last_line l)")
    case None
    then have "ch \<notin> set (last_line l)" by (auto simp: rfind_char_None)
    with eq None show ?thesis by simp
  next
    case (Some i)
    then obtain p q where t: "last_line l = p @ ch # q" "i = blen p" "\<forall>x \<in> set q. ch \<noteq> x" by (auto elim: rfind_charE)
    have l: "l = (?a @ p) @ ch # q" by (metis append_assoc line_split(1) t(1))
    have "dropWhile ((\<noteq>) ch) (rev q @ ch # u) = ch # u" for u using t(3) by (induction q rule: rev_induct) auto
    moreover have "rev l = rev q @ ch # rev (?a @ p)" using arg_cong [OF l, of rev] by simp
    ultimately have dw: "rev (dropWhile ((\<noteq>) ch) (rev l)) = ?a @ p @ [ch]" by simp
    have "l @ r = (?a @ p) @ ch # q @ r" using l by (metis append_assoc append_Cons)
    then have "next_char_boundary (l @ r) (blen (?a @ p)) = blen (?a @ p) + len_utf8 ch"
      by (metis next_char_boundary_append)
    with eq Some t dw show ?thesis by (simp add: Let_def)
  qed
qed

lemma find_stays:
  assumes "vim_find_char s p ch forward till = Some (Some q)" "is_char_boundary s p"
  shows "is_char_boundary s q"
proof -
  obtain l r where s: "s = l @ r" "p = blen l" using assms(2) by (auto elim: boundaryE)
  show ?thesis
  proof (cases forward)
    case True
    then obtain c t where r: "r = c # t" "ch \<in> set (line_rest t)"
        "q = blen (l @ (if till then butlast else id) (c # takeWhile ((\<noteq>) ch) t))"
      using assms(1) s by (auto simp: vim_find_char_forward split: list.splits if_splits)
    have "prefix (c # takeWhile ((\<noteq>) ch) t) (c # t)" by (simp add: takeWhile_is_prefix)
    then have "prefix ((if till then butlast else id) (c # takeWhile ((\<noteq>) ch) t)) (c # t)"
      using prefix_order.trans [OF prefixeq_butlast] by (cases till) (simp_all only: if_True if_False id_apply)
    then obtain v where "c # t = (if till then butlast else id) (c # takeWhile ((\<noteq>) ch) t) @ v" by (rule prefixE)
    then have "s = (l @ (if till then butlast else id) (c # takeWhile ((\<noteq>) ch) t)) @ v"
      unfolding s(1) r(1) append_assoc by (rule arg_cong)
    then show ?thesis using r(3) by (metis boundary_append)
  next
    case False
    let ?u = "rev (dropWhile ((\<noteq>) ch) (rev l))"
    have q: "ch \<in> set (last_line l)" "q = blen ?u - (if till then 0 else len_utf8 ch)"
      using assms(1) s False by (auto simp: vim_find_char_backward split: if_splits)
    then have "ch \<in> set l" by (metis UnCI line_split(1) set_append)
    then have ne: "dropWhile ((\<noteq>) ch) (rev l) \<noteq> []" by (simp add: dropWhile_eq_Nil_conv)
    then have "hd (dropWhile ((\<noteq>) ch) (rev l)) = ch" using hd_dropWhile [OF ne] by simp
    with ne obtain v where v: "dropWhile ((\<noteq>) ch) (rev l) = ch # v" by (cases "dropWhile ((\<noteq>) ch) (rev l)") auto
    define w where "w = rev (takeWhile ((\<noteq>) ch) (rev l))"
    have "rev l = rev w @ ch # v"
      using takeWhile_dropWhile_id [of "(\<noteq>) ch" "rev l"] unfolding v by (simp add: w_def)
    then have "rev (rev l) = rev (rev w @ ch # v)" by (rule arg_cong)
    then have "l = rev v @ ch # w" by simp
    then have l: "s = (rev v @ [ch]) @ w @ r" "s = rev v @ ch # w @ r" using s(1) by simp_all
    have "q = (if till then blen (rev v @ [ch]) else blen (rev v))" using q v by simp
    then show ?thesis using l by (metis boundary_append)
  qed
qed

lemma find_panics_iff:
  assumes "is_char_boundary s p"
  shows "vim_find_char s p ch forward till = None \<longleftrightarrow> forward \<and> slice s p (p + 1) = Some [nl]"
proof -
  obtain l r where s: "s = l @ r" "p = blen l" using assms by (auto elim: boundaryE)
  have "slice s p (p + 1) = Some [nl] \<longleftrightarrow> (\<exists>t. r = nl # t)"
  proof
    assume a: "slice s p (p + 1) = Some [nl]"
    then obtain l' m r' where "s = l' @ m @ r'" "p = blen l'" "p + 1 = blen l' + blen m"
      by (metis slice_defined option.distinct(1) slice_split)
    moreover from this a have "m = [nl]" by (metis slice_mid option.inject)
    ultimately show "\<exists>t. r = nl # t" using s append_eq_blen [of l r l' "m @ r'"] by auto
  next
    assume "\<exists>t. r = nl # t"
    then obtain t where "r = nl # t" by blast
    then show "slice s p (p + 1) = Some [nl]" using s slice_mid [of l "[nl]" t] by simp
  qed
  then show ?thesis using s
    by (cases forward) (auto simp: vim_find_char_forward vim_find_char_backward split: list.splits)
qed

lemma dropWhile_rev_prefix: "\<exists>t. l = rev (dropWhile P (rev l)) @ t"
  by (metis rev_append rev_rev_ident takeWhile_dropWhile_id)

lemma extend_left_boundary:
  assumes "is_char_boundary s p"
  shows "\<exists>q \<le> p. extend_left P s p = Some q \<and> is_char_boundary s q"
proof -
  obtain l r where s: "s = l @ r" "p = blen l" using assms by (auto elim: boundaryE)
  obtain t where "l = rev (dropWhile P (rev l)) @ t" using dropWhile_rev_prefix by blast
  then have "is_char_boundary s (blen (rev (dropWhile P (rev l))))" "blen (rev (dropWhile P (rev l))) \<le> blen l"
    unfolding s by (metis append_assoc boundary_append, metis blen_append le_add1)
  then show ?thesis using s by auto
qed

lemma extend_right_boundary:
  assumes "is_char_boundary s p"
  shows "\<exists>q \<ge> p. extend_right P s p = Some q \<and> is_char_boundary s q"
proof -
  obtain l r where s: "s = l @ r" "p = blen l" using assms by (auto elim: boundaryE)
  have "s = (l @ takeWhile P r) @ dropWhile P r" using s by simp
  then have "is_char_boundary s (blen (l @ takeWhile P r))" by (metis boundary_append)
  then show ?thesis using s by auto
qed

lemma word_object_part:
  assumes "is_char_boundary s p"
  shows "\<exists>res. word_object_range P s p around = Some res \<and> pred_option (\<lambda>(a, b). part_of s (a, b) \<and> p \<le> b) res"
proof -
  have m: "min p (blen s) = p" using boundary_le [OF assms] by simp
  obtain l r where s: "s = l @ r" "p = blen l" using assms by (auto elim: boundaryE)
  obtain a where a: "a \<le> p" "extend_left P s p = Some a" "is_char_boundary s a" using extend_left_boundary [OF assms] by blast
  obtain b where b: "p \<le> b" "extend_right P s p = Some b" "is_char_boundary s b" using extend_right_boundary [OF assms] by blast
  obtain a' where a': "a' \<le> a" "extend_left char_is_whitespace s a = Some a'" "is_char_boundary s a'"
    using extend_left_boundary [OF a(3)] by blast
  obtain b' where b': "b \<le> b'" "extend_right char_is_whitespace s b = Some b'" "is_char_boundary s b'"
    using extend_right_boundary [OF b(3)] by blast
  have "slice_from s p = Some r" using s by simp
  then show ?thesis using a b a' b' m by (auto simp: word_object_range_def part_of_iff)
qed

lemma delimited_part:
  assumes "is_char_boundary s p"
  shows "\<exists>res. delimited_range s p around open_ch close_ch = Some res
    \<and> pred_option (\<lambda>(a, b). part_of s (a, b) \<and> p \<le> b) res"
proof -
  obtain l r where s: "s = l @ r" "p = blen l" using assms by (auto elim: boundaryE)
  show ?thesis
  proof (cases "rfind_char ((=) open_ch) l \<noteq> None \<and> find_char ((=) close_ch) r \<noteq> None")
    case False
    then show ?thesis using s by (auto simp: delimited_range_def split: option.splits)
  next
    case True
    then obtain i j where ij: "rfind_char ((=) open_ch) l = Some i" "find_char ((=) close_ch) r = Some j" by blast
    then obtain a b c d where l: "l = a @ open_ch # b" "i = blen a" and r: "r = c @ close_ch # d" "j = blen c"
      by (metis rfind_charE find_charE)
    have lr: "l @ r = a @ open_ch # b @ c @ close_ch # d" "l @ r = (l @ c) @ close_ch # d" using l r by simp_all
    have n1: "next_char_boundary s i = i + len_utf8 open_ch" unfolding s(1) lr(1) l(2) by simp
    have n2: "next_char_boundary s (p + j) = p + j + len_utf8 close_ch"
      using next_char_boundary_append [of "l @ c" close_ch d] unfolding s lr(2) r(2) by simp
    have i1: "part_of s (i, p + j + len_utf8 close_ch)"
      using s lr l r part_ofI [of a "open_ch # b @ c @ [close_ch]" d] by (simp add: add.assoc)
    have i2: "part_of s (i + len_utf8 open_ch, p + j)"
      using s lr l r part_ofI [of "a @ [open_ch]" "b @ c" "close_ch # d"] by (simp add: add.assoc)
    have "slice_to s p = Some l" "slice_from s p = Some r" using s by simp_all
    with ij n1 n2 i1 i2 show ?thesis by (simp add: delimited_range_def Let_def)
  qed
qed

lemma word_object_nonempty:
  assumes "s = c # t" "P c \<or> char_is_whitespace c" "word_object_range P s 0 around = Some (Some (a, b))"
  shows "0 < b"
proof -
  have r: "extend_right Q s 0 = Some (blen (takeWhile Q s))" for Q using extend_right_split [of Q "[]" s] by simp
  have l: "extend_left Q s 0 = Some 0" for Q by (simp add: extend_left.simps)
  show ?thesis
  proof (cases "P c")
    case True
    have "is_char_boundary s (blen (takeWhile P s))" by (metis boundary_append takeWhile_dropWhile_id)
    then obtain b' where "blen (takeWhile P s) \<le> b'" "extend_right char_is_whitespace s (blen (takeWhile P s)) = Some b'"
      using extend_right_boundary by blast
    moreover have "0 < blen (takeWhile P s)" using True assms(1) by simp
    ultimately show ?thesis using assms(3) r l by (auto simp: word_object_range_def simp del: blen_pos split: if_splits)
  next
    case False
    then have "takeWhile P s = []" using assms(1) by simp
    with False assms r l show ?thesis by (auto simp: word_object_range_def split: if_splits)
  qed
qed

lemma text_object_range:
  assumes "is_char_boundary s p" "p = 0 \<longrightarrow> s = [] \<or> vim_is_word_char alnum (hd s)"
  shows "\<exists>res. vim_text_object_range alnum s p object = Some res
    \<and> pred_option (\<lambda>(a, b). part_of s (a, b) \<and> (0 < b \<or> s = [])) res"
proof (cases object)
  case (ObjWord around big)
  define P where "P = (\<lambda>ch. if big then \<not> char_is_whitespace ch else vim_is_word_char alnum ch)"
  obtain res where res: "word_object_range P s p around = Some res" "pred_option (\<lambda>(a, b). part_of s (a, b) \<and> p \<le> b) res"
    using word_object_part [OF assms(1)] by blast
  have "0 < b \<or> s = []" if "res = Some (a, b)" for a b
  proof (cases "p = 0 \<and> s \<noteq> []")
    case True
    then obtain c t where s: "s = c # t" by (cases s) auto
    moreover have "P c \<or> char_is_whitespace c" using assms(2) s True by (auto simp: P_def)
    ultimately show ?thesis using word_object_nonempty res(1) that True by blast
  qed (use res(2) that in auto)
  with res show ?thesis using ObjWord by (auto simp: vim_text_object_range_def P_def pred_option_def)
next
  case (ObjDelimited around open_ch close_ch)
  obtain res where res: "delimited_range s p around open_ch close_ch = Some res"
    "pred_option (\<lambda>(a, b). part_of s (a, b) \<and> p \<le> b) res" using delimited_part [OF assms(1)] by blast
  moreover have "delimited_range s 0 around open_ch close_ch = Some None" by (simp add: delimited_range_def)
  ultimately show ?thesis using ObjDelimited by (cases "p = 0") (auto simp: vim_text_object_range_def pred_option_def)
qed

text \<open>Every target of a motion is a character boundary.\<close>

definition to_boundary :: "rtext \<Rightarrow> nat option \<Rightarrow> bool" where
  "to_boundary s target \<longleftrightarrow> (\<exists>q. target = Some q \<and> is_char_boundary s q)"

lemma to_boundaryI: "s = a @ b \<Longrightarrow> target = Some (blen a) \<Longrightarrow> to_boundary s target"
  by (auto simp: to_boundary_def)

lemma prefix_word_gap: "prefix (word_gap word r) r"
  by (metis word_gap_def takeWhile_dropWhile_id append_assoc prefixI)

lemma prefix_to_word_end: "prefix (to_word_end word r) r"
proof -
  have "prefix (butlast (takeWhile word t)) t" for t
    using prefix_order.trans [OF prefixeq_butlast takeWhile_is_prefix] .
  then have "prefix (takeWhile (\<lambda>x. \<not> word x) r @ butlast (takeWhile word (dropWhile (\<lambda>x. \<not> word x) r)))
      (takeWhile (\<lambda>x. \<not> word x) r @ dropWhile (\<lambda>x. \<not> word x) r)" by (simp only: same_prefix_prefix)
  then show ?thesis by (simp add: to_word_end_def)
qed

lemma prefix_word_start_before: "prefix (word_start_before word l) l"
proof -
  obtain t where t: "l = rev (dropWhile (\<lambda>x. \<not> word x) (rev l)) @ t" using dropWhile_rev_prefix by blast
  obtain u where "rev (dropWhile (\<lambda>x. \<not> word x) (rev l)) =
      rev (dropWhile word (rev (rev (dropWhile (\<lambda>x. \<not> word x) (rev l))))) @ u"
    using dropWhile_rev_prefix by blast
  then have "l = word_start_before word l @ u @ t" using t by (simp add: word_start_before_def)
  then show ?thesis by (metis prefixI)
qed

lemma motion_targets:
  assumes "is_char_boundary s p"
  shows "to_boundary s (vim_line_start s p)" "to_boundary s (vim_line_end s p)" "to_boundary s (vim_line_first_non_ws s p)"
    "to_boundary s (vim_next_word_start alnum s p)" "to_boundary s (vim_prev_word_start alnum s p)"
    "to_boundary s (vim_end_word alnum s p)"
proof -
  obtain l r where s: "s = l @ r" "p = blen l" using assms by (auto elim: boundaryE)
  have split: "s = before_line l @ last_line l @ line_rest r @ after_line r"
    unfolding s(1) by (metis append_assoc line_split)
  show "to_boundary s (vim_line_start s p)"
    using s split by (intro to_boundaryI [where a = "before_line l" and b = "last_line l @ line_rest r @ after_line r"]) simp_all
  show "to_boundary s (vim_line_end s p)"
    using s by (intro to_boundaryI [where a = "l @ line_rest r" and b = "after_line r"]) (simp_all add: line_split)
  show "to_boundary s (vim_line_first_non_ws s p)"
  proof -
    obtain w t where "last_line l @ line_rest r = w @ t" "vim_line_first_non_ws s p = Some (blen (before_line l @ w))"
      using vim_line_first_non_ws_split [of l r] s by blast
    moreover from this have "s = (before_line l @ w) @ t @ after_line r" by (metis append_assoc split)
    ultimately show ?thesis by (blast intro: to_boundaryI)
  qed
  show "to_boundary s (vim_next_word_start alnum s p)"
  proof -
    obtain t where "r = word_gap (vim_is_word_char alnum) r @ t" using prefix_word_gap by (metis prefixE)
    then show ?thesis using s
      by (intro to_boundaryI [where a = "l @ word_gap (vim_is_word_char alnum) r" and b = t]) simp_all
  qed
  show "to_boundary s (vim_prev_word_start alnum s p)"
  proof -
    obtain t where "l = word_start_before (vim_is_word_char alnum) l @ t" using prefix_word_start_before by (metis prefixE)
    then have "s = word_start_before (vim_is_word_char alnum) l @ t @ r" by (metis append_assoc s(1))
    then show ?thesis by (rule to_boundaryI) (simp add: s)
  qed
  show "to_boundary s (vim_end_word alnum s p)"
  proof (cases "\<exists>c \<in> set r. vim_is_word_char alnum c")
    case True
    obtain t where "r = to_word_end (vim_is_word_char alnum) r @ t" using prefix_to_word_end by (metis prefixE)
    then show ?thesis using s True
      by (intro to_boundaryI [where a = "l @ to_word_end (vim_is_word_char alnum) r" and b = t]) simp_all
  next
    case False
    then show ?thesis using s by (intro to_boundaryI [where a = s and b = "[]"]) simp_all
  qed
qed

text \<open>Every range is a part of the text, and of the text before or after the cursor where the code says so.\<close>

lemma motion_range_part:
  assumes "is_char_boundary s p"
  shows "\<exists>res. vim_motion_range alnum s p m = Some res \<and> pred_option (\<lambda>(a, b). part_of s (a, b) \<and> (0 < b \<or> s = [])) res"
proof -
  note t = motion_targets [OF assms]
  obtain a where a: "vim_next_word_start alnum s p = Some a" "is_char_boundary s a" using t(4) by (auto simp: to_boundary_def)
  obtain b where b: "vim_prev_word_start alnum s p = Some b" "is_char_boundary s b" using t(5) by (auto simp: to_boundary_def)
  obtain c where c: "vim_end_word alnum s p = Some c" "is_char_boundary s c" using t(6) by (auto simp: to_boundary_def)
  have n: "is_char_boundary s (next_char_boundary s c)" "c \<le> next_char_boundary s c" "0 < next_char_boundary s c \<or> s = []"
  proof -
    obtain l r where s: "s = l @ r" "c = blen l" using c by (auto elim: boundaryE)
    then show "is_char_boundary s (next_char_boundary s c)" using boundary_append [of "l @ [hd r]" "tl r"]
      by (cases r) (simp_all add: next_char_boundary_split)
    show "c \<le> next_char_boundary s c" using s by (simp add: next_char_boundary_split)
    show "0 < next_char_boundary s c \<or> s = []" using s by (cases r) (auto simp: next_char_boundary_split)
  qed
  show ?thesis using a b c n assms by (cases m) (auto simp: vim_motion_range_def part_of_iff)
qed

end
