(* ===== verification/Text_Bridge.thy ===== *)
theory Text_Bridge
  imports Vim_Text
begin

text \<open>
  The conversion between byte offsets of the composer's text and the (row, column) positions of the text
  area (\<open>session/textarea_bridge.rs\<close>), and what it computes: the line and the character column of the
  greatest character boundary at or before the offset.
\<close>

section \<open>Definitions\<close>

text \<open>\<open>scan_rows\<close> is the loop of \<open>byte_offset_to_row_col\<close>; its result \<open>None\<close> says that no line reaches the offset.\<close>

definition floor_column :: "rtext \<Rightarrow> nat \<Rightarrow> nat option" where
  "floor_column line byte_col = map_option length (slice_to line (back_to_boundary line byte_col))"

fun scan_rows :: "rtext list \<Rightarrow> nat \<Rightarrow> nat \<Rightarrow> nat \<Rightarrow> (nat \<times> nat) option option" where
  "scan_rows [] row consumed byte_offset = None"
| "scan_rows (line # lines) row consumed byte_offset =
     (if byte_offset \<le> consumed + blen line
      then Some (map_option (Pair row) (floor_column line (min (byte_offset - consumed) (blen line))))
      else scan_rows lines (row + 1) (consumed + blen line + 1) byte_offset)"

definition byte_offset_to_row_col :: "rtext list \<Rightarrow> nat \<Rightarrow> (nat \<times> nat) option" where
  "byte_offset_to_row_col lines byte_offset =
     (case scan_rows lines 0 0 byte_offset of
        Some position \<Rightarrow> position
      | None \<Rightarrow> Some (length lines - 1, if lines = [] then 0 else length (last lines)))"

definition char_col_to_byte_offset :: "rtext \<Rightarrow> nat \<Rightarrow> nat" where
  "char_col_to_byte_offset line char_col =
     (case nth_offset line char_col of None \<Rightarrow> blen line | Some idx \<Rightarrow> idx)"

fun offset_scan :: "rtext list \<Rightarrow> nat \<Rightarrow> nat \<Rightarrow> nat \<Rightarrow> nat \<Rightarrow> nat" where
  "offset_scan [] i row char_col offset = offset"
| "offset_scan (line # lines) i row char_col offset =
     (if i = row then offset + char_col_to_byte_offset line char_col
      else offset_scan lines (i + 1) row char_col (offset + blen line + 1))"

definition row_col_to_byte_offset :: "rtext list \<Rightarrow> nat \<Rightarrow> nat \<Rightarrow> nat" where
  "row_col_to_byte_offset lines row char_col = offset_scan lines 0 row char_col 0"

section \<open>Positions as cuts of the list of lines\<close>

text \<open>A position is a cut \<open>a @ (w @ v) # b\<close> of the lines; \<open>before_cut a w\<close> and \<open>after_cut v b\<close> are the texts around it.\<close>

definition before_cut :: "rtext list \<Rightarrow> rtext \<Rightarrow> rtext" where
  "before_cut a w = join_nl (a @ [w])"

definition after_cut :: "rtext \<Rightarrow> rtext list \<Rightarrow> rtext" where
  "after_cut v b = join_nl (v # b)"

definition one_line :: "rtext list \<Rightarrow> bool" where
  "one_line ls \<longleftrightarrow> ls \<noteq> [] \<and> (\<forall>l \<in> set ls. nl \<notin> set l)"

lemma before_cut_Nil [simp]: "before_cut [] w = w"
  by (simp add: before_cut_def)

lemma before_cut_Cons [simp]: "before_cut (l # a) w = l @ nl # before_cut a w"
  by (simp add: before_cut_def join_nl_Cons)

lemma after_cut_Nil [simp]: "after_cut v [] = v"
  by (simp add: after_cut_def)

lemma after_cut_Cons [simp]: "after_cut v (l # b) = v @ nl # after_cut l b"
  by (simp add: after_cut_def)

lemma after_cut_append: "after_cut (u @ v) b = u @ after_cut v b"
  by (cases b) (simp_all add: after_cut_def)

lemma before_cut_append: "before_cut a (w @ u) = before_cut a w @ u"
  by (induction a) simp_all

lemma join_cut [simp]: "join_nl (a @ (w @ v) # b) = before_cut a w @ after_cut v b"
proof (induction a)
  case Nil
  then show ?case by (simp add: after_cut_append flip: after_cut_def)
next
  case (Cons l a)
  then show ?case by (simp add: join_nl_Cons)
qed

lemma split_nl_last:
  assumes "one_line ls" "join_nl ls = l @ r"
  obtains a w v b where "ls = a @ (w @ v) # b" "l = before_cut a w" "r = after_cut v b"
  using assms
proof (induction ls arbitrary: l thesis)
  case Nil
  then show ?case by (simp add: one_line_def)
next
  case (Cons u ls)
  show ?case
  proof (cases "\<exists>v. u = l @ v")
    case True
    then obtain v where u: "u = l @ v" ..
    with Cons.prems(3) have "r = after_cut v ls"
      using join_cut [of "[]" l v ls] by simp
    with u show ?thesis by (intro Cons.prems(1) [of "[]" l v ls]) simp_all
  next
    case False
    have "ls \<noteq> []"
    proof
      assume "ls = []"
      with Cons.prems(3) have "u = l @ r" by simp
      with False show False by blast
    qed
    with Cons.prems(3) have "u @ nl # join_nl ls = l @ r" by (simp add: join_nl_Cons)
    then obtain d where "u = l @ d \<and> d @ nl # join_nl ls = r \<or> u @ d = l \<and> nl # join_nl ls = d @ r"
      by (auto simp: append_eq_append_conv2)
    with False have d: "u @ d = l" "nl # join_nl ls = d @ r" by blast+
    with False obtain d' where d': "d = nl # d'" "join_nl ls = d' @ r" by (cases d) auto
    have "one_line ls" using Cons.prems(2) \<open>ls \<noteq> []\<close> by (simp add: one_line_def)
    from Cons.IH [OF _ this d'(2)] obtain a w v b where
      ih: "ls = a @ (w @ v) # b" "d' = before_cut a w" "r = after_cut v b" by blast
    show ?thesis by (rule Cons.prems(1) [of "u # a" w v b]) (use ih d(1) d'(1) in simp_all)
  qed
qed

section \<open>From offsets to positions and back\<close>

lemma back_to_boundary_boundary: "is_char_boundary s (back_to_boundary s p)"
  by (induction p) auto

lemma back_to_boundary_greatest: "is_char_boundary s q \<Longrightarrow> q \<le> p \<Longrightarrow> q \<le> back_to_boundary s p"
  by (induction p) (auto simp: le_Suc_eq)

lemma floor_columnE:
  obtains w v where "line = w @ v" "floor_column line k = Some (length w)" "blen w \<le> k"
    "\<And>q. is_char_boundary line q \<Longrightarrow> q \<le> k \<Longrightarrow> q \<le> blen w"
proof -
  obtain w v where w: "line = w @ v" "back_to_boundary line k = blen w"
    using boundaryE [OF back_to_boundary_boundary] by metis
  then have "floor_column line k = Some (length w)" by (simp add: floor_column_def)
  then show ?thesis using that w back_to_boundary_le [of line k] back_to_boundary_greatest [of line _ k] by metis
qed

definition greatest_boundary :: "rtext \<Rightarrow> nat \<Rightarrow> nat \<Rightarrow> bool" where
  "greatest_boundary s p g \<longleftrightarrow> is_char_boundary s g \<and> g \<le> p \<and> (\<forall>q. is_char_boundary s q \<longrightarrow> q \<le> p \<longrightarrow> q \<le> g)"

lemma greatest_boundary_exact: "greatest_boundary s p g \<Longrightarrow> is_char_boundary s p \<Longrightarrow> g = p"
  by (auto simp: greatest_boundary_def intro: antisym)

lemma greatest_boundary_unique: "greatest_boundary s p g \<Longrightarrow> greatest_boundary s p g' \<Longrightarrow> g = g'"
  by (auto simp: greatest_boundary_def intro: antisym)

lemma greatest_boundary_append:
  assumes "greatest_boundary r p g"
  shows "greatest_boundary (l @ r) (blen l + p) (blen l + g)"
proof -
  have "q \<le> blen l + g" if "is_char_boundary (l @ r) q" "q \<le> blen l + p" for q
  proof (cases "q \<le> blen l")
    case False
    then obtain k where q: "q = blen l + k" by (metis le_Suc_ex nat_le_linear)
    with that assms show ?thesis by (simp add: boundary_shift greatest_boundary_def)
  qed simp
  with assms show ?thesis by (simp add: greatest_boundary_def boundary_shift)
qed

lemma greatest_boundary_in_line:
  assumes "p \<le> blen l" "\<And>q. is_char_boundary l q \<Longrightarrow> q \<le> p \<Longrightarrow> q \<le> blen w" "l = w @ v" "blen w \<le> p"
  shows "greatest_boundary (l @ r) p (blen w)"
  using assms boundary_prefix [of l r] by (auto simp: greatest_boundary_def)

lemma scan_rows_locates:
  assumes "ls \<noteq> []"
  obtains a w v b where "ls = a @ (w @ v) # b" "greatest_boundary (join_nl ls) p (blen (before_cut a w))"
    "scan_rows ls row c (c + p) = Some (Some (row + length a, length w))
       \<or> scan_rows ls row c (c + p) = None \<and> v = [] \<and> b = []"
  using assms
proof (induction ls arbitrary: row c p thesis)
  case (Cons l ls)
  show ?case
  proof (cases "p \<le> blen l")
    case True
    obtain w v where w: "l = w @ v" "floor_column l p = Some (length w)" "blen w \<le> p"
      "\<And>q. is_char_boundary l q \<Longrightarrow> q \<le> p \<Longrightarrow> q \<le> blen w" using floor_columnE [of l p] by metis
    obtain r where r: "join_nl (l # ls) = l @ r" by (cases ls) simp_all
    from greatest_boundary_in_line [OF True w(4) w(1) w(3), of r]
    have "greatest_boundary (join_nl (l # ls)) p (blen (before_cut [] w))" by (simp add: r)
    moreover have "scan_rows (l # ls) row c (c + p) = Some (Some (row, length w))"
      using True w(2) by (simp add: min_def)
    ultimately show ?thesis using w(1) by (intro Cons.prems(1) [of "[]" w v ls]) simp_all
  next
    case False
    show ?thesis
    proof (cases "ls = []")
      case True
      with False have "greatest_boundary (join_nl (l # ls)) p (blen l)"
        by (auto simp: greatest_boundary_def dest: boundary_le)
      with False True show ?thesis by (intro Cons.prems(1) [of "[]" l "[]" "[]"]) simp_all
    next
      case ne: False
      from False obtain k where k: "p = blen l + 1 + k" by (metis add.commute le_Suc_ex not_less_eq_eq plus_1_eq_Suc)
      obtain a w v b where ih: "ls = a @ (w @ v) # b" "greatest_boundary (join_nl ls) k (blen (before_cut a w))"
        "scan_rows ls (row + 1) (c + blen l + 1) (c + blen l + 1 + k) = Some (Some (row + 1 + length a, length w))
           \<or> scan_rows ls (row + 1) (c + blen l + 1) (c + blen l + 1 + k) = None \<and> v = [] \<and> b = []"
        using Cons.IH [OF _ ne] by blast
      have "greatest_boundary (join_nl (l # ls)) p (blen (before_cut (l # a) w))"
        using greatest_boundary_append [OF ih(2), of "l @ [nl]"] ne k by (simp add: join_nl_Cons)
      moreover have "scan_rows (l # ls) row c (c + p) = scan_rows ls (row + 1) (c + blen l + 1) (c + blen l + 1 + k)"
        using k by (simp add: ac_simps)
      ultimately show ?thesis using ih by (intro Cons.prems(1) [of "l # a" w v b]) simp_all
    qed
  qed
qed simp

text \<open>\<open>byte_offset_to_row_col\<close> finds the position of the greatest character boundary up to the offset.\<close>

lemma locate:
  assumes "ls \<noteq> []"
  obtains a w v b where "ls = a @ (w @ v) # b" "byte_offset_to_row_col ls p = Some (length a, length w)"
    "greatest_boundary (join_nl ls) p (blen (before_cut a w))"
proof -
  obtain a w v b where c: "ls = a @ (w @ v) # b" "greatest_boundary (join_nl ls) p (blen (before_cut a w))"
    "scan_rows ls 0 0 (0 + p) = Some (Some (0 + length a, length w)) \<or> scan_rows ls 0 0 (0 + p) = None \<and> v = [] \<and> b = []"
    using scan_rows_locates [OF assms, of p 0 0] by metis
  then have "byte_offset_to_row_col ls p = Some (length a, length w)"
    by (auto simp: byte_offset_to_row_col_def split: option.split)
  with c that show ?thesis by blast
qed

lemma char_col_take: "char_col_to_byte_offset line k = blen (take k line)"
  by (simp add: char_col_to_byte_offset_def nth_offset_or)

lemma offset_scan_cut: "offset_scan (a @ (w @ v) # b) i (i + length a) (length w) n = n + blen (before_cut a w)"
proof (induction a arbitrary: i n)
  case (Cons l a)
  from Cons.IH [of "Suc i" "Suc (n + blen l)"] show ?case by simp
qed (simp add: char_col_take)

lemma offset_of_cut [simp]: "row_col_to_byte_offset (a @ (w @ v) # b) (length a) (length w) = blen (before_cut a w)"
  using offset_scan_cut [of a w v b 0 0] by (simp add: row_col_to_byte_offset_def)

lemma position_cut:
  assumes "r < length ls" "c \<le> length (ls ! r)"
  obtains a w v b where "ls = a @ (w @ v) # b" "r = length a" "c = length w"
proof -
  have "ls = take r ls @ ls ! r # drop (Suc r) ls" using assms(1) by (simp add: id_take_nth_drop)
  moreover have "ls ! r = take c (ls ! r) @ drop c (ls ! r)" by simp
  ultimately show ?thesis using that [of "take r ls" "take c (ls ! r)" "drop c (ls ! r)" "drop (Suc r) ls"] assms
    by (simp add: min_def)
qed

lemma cut_unique:
  assumes "one_line (a @ (w @ v) # b)" "a @ (w @ v) # b = a' @ (w' @ v') # b'" "blen (before_cut a w) = blen (before_cut a' w')"
  shows "a = a' \<and> w = w' \<and> v = v' \<and> b = b'"
proof -
  have "before_cut a w @ after_cut v b = before_cut a' w' @ after_cut v' b'"
    using assms(2) by (metis join_cut)
  with assms(3) have eq: "before_cut a w = before_cut a' w'" using append_eq_blen by blast
  have "\<forall>u \<in> set (a @ [w]). nl \<notin> set u" using assms(1) by (simp add: one_line_def)
  moreover have "\<forall>u \<in> set (a' @ [w']). nl \<notin> set u" using assms(1) unfolding assms(2) by (simp add: one_line_def)
  ultimately have "a @ [w] = a' @ [w']"
    using eq split_join_nl [of "a @ [w]"] split_join_nl [of "a' @ [w']"]
    unfolding before_cut_def by (metis append_is_Nil_conv not_Cons_self2)
  then have aw: "a = a'" "w = w'" by simp_all
  from assms(2) show ?thesis unfolding aw by simp
qed

end
