(* ===== verification/Vim_Engine.thy ===== *)
theory Vim_Engine
  imports Vim_Text
begin

text \<open>
  The Vim engine (\<open>vim/types.rs\<close>, \<open>vim/engine.rs\<close>): the state machine that routes one key through the modes,
  the pending operators, motions, text objects, the clipboard and the repeat command. The editor it works on
  is the trait \<open>Editor\<close>, a record of operations on any type of editor; an operation that panics is \<open>None\<close>, and so is
  a key that makes the engine panic.
\<close>

section \<open>State\<close>

datatype vim_mode = ModeInsert | ModeNormal

datatype clipboard_kind = CharWise | LineWise

datatype vim_operator = Delete | Change | Yank | Indent | Outdent

datatype pending_state =
    PendOperator vim_operator
  | PendTextObject vim_operator bool
  | PendFind bool bool
  | PendGoToLine

datatype insert_kind = InsertHere | InsertStart | Append | AppendEnd | OpenBelow | OpenAbove

datatype change_target = TargetMotion motion | TargetTextObject text_object | TargetLine | TargetLineEnd

datatype insert_repeat = RepeatInsert insert_kind | RepeatChange change_target

datatype repeatable_command =
    DeleteChar
  | PasteAfter
  | PasteBefore
  | JoinLines
  | InsertText insert_kind rtext
  | OperateMotion vim_operator motion
  | OperateTextObject vim_operator text_object
  | OperateLine vim_operator
  | DeleteToLineEnd
  | ChangeText change_target rtext

record find_state =
  fs_ch :: rchar
  fs_till :: bool
  fs_forward :: bool

record insert_capture =
  ic_repeat :: insert_repeat
  ic_start :: nat

record vim_state =
  vs_enabled :: bool
  vs_mode :: vim_mode
  vs_preferred_column :: "nat option"
  vs_pending :: "pending_state option"
  vs_last_find :: "find_state option"
  vs_last_change :: "repeatable_command option"
  vs_clipboard_kind :: clipboard_kind
  vs_insert_capture :: "insert_capture option"

definition new_vim_state :: "bool \<Rightarrow> vim_state" where
  "new_vim_state enabled =
     \<lparr>vs_enabled = enabled, vs_mode = ModeInsert, vs_preferred_column = None, vs_pending = None, vs_last_find = None,
      vs_last_change = None, vs_clipboard_kind = CharWise, vs_insert_capture = None\<rparr>"

definition set_enabled :: "bool \<Rightarrow> vim_state \<Rightarrow> vim_state" where
  "set_enabled enabled s =
     s\<lparr>vs_enabled := enabled, vs_mode := ModeInsert, vs_pending := None, vs_preferred_column := None,
       vs_insert_capture := None\<rparr>"

definition status_label :: "vim_state \<Rightarrow> string option" where
  "status_label s =
     (if \<not> vs_enabled s then None
      else Some (case vs_mode s of ModeInsert \<Rightarrow> ''INSERT'' | ModeNormal \<Rightarrow> ''NORMAL''))"

section \<open>The editor and the context\<close>

record 'e editor_ops =
  ed_content :: "'e \<Rightarrow> rtext"
  ed_cursor :: "'e \<Rightarrow> nat"
  ed_set_cursor :: "nat \<Rightarrow> 'e \<Rightarrow> 'e option"
  ed_move_left :: "'e \<Rightarrow> 'e option"
  ed_move_right :: "'e \<Rightarrow> 'e option"
  ed_delete_char_forward :: "'e \<Rightarrow> 'e option"
  ed_insert_text :: "rtext \<Rightarrow> 'e \<Rightarrow> 'e option"
  ed_replace :: "rtext \<Rightarrow> nat \<Rightarrow> 'e \<Rightarrow> 'e option"
  ed_replace_range :: "nat \<Rightarrow> nat \<Rightarrow> rtext \<Rightarrow> 'e \<Rightarrow> 'e option"

text \<open>The default method \<open>replace_range\<close> of the trait.\<close>

definition default_replace_range :: "'e editor_ops \<Rightarrow> nat \<Rightarrow> nat \<Rightarrow> rtext \<Rightarrow> 'e \<Rightarrow> 'e option" where
  "default_replace_range ops start stop t e =
     do { content \<leftarrow> splice (ed_content ops e) start stop t;
          ed_replace ops content (start + blen t) e }"

record 'e vim_context =
  cx_state :: vim_state
  cx_editor :: 'e
  cx_clipboard :: rtext

definition cx_content :: "'e editor_ops \<Rightarrow> 'e vim_context \<Rightarrow> rtext" where
  "cx_content ops cx = ed_content ops (cx_editor cx)"

definition cx_cursor :: "'e editor_ops \<Rightarrow> 'e vim_context \<Rightarrow> nat" where
  "cx_cursor ops cx = ed_cursor ops (cx_editor cx)"

definition edit :: "('e \<Rightarrow> 'e option) \<Rightarrow> 'e vim_context \<Rightarrow> 'e vim_context option" where
  "edit f cx = map_option (\<lambda>e. cx\<lparr>cx_editor := e\<rparr>) (f (cx_editor cx))"

definition upd :: "(vim_state \<Rightarrow> vim_state) \<Rightarrow> 'e vim_context \<Rightarrow> 'e vim_context" where
  "upd f cx = cx\<lparr>cx_state := f (cx_state cx)\<rparr>"

definition set_mode :: "vim_mode \<Rightarrow> 'e vim_context \<Rightarrow> 'e vim_context" where
  "set_mode m = upd (\<lambda>s. s\<lparr>vs_mode := m\<rparr>)"

definition set_pending :: "pending_state option \<Rightarrow> 'e vim_context \<Rightarrow> 'e vim_context" where
  "set_pending p = upd (\<lambda>s. s\<lparr>vs_pending := p\<rparr>)"

definition set_column :: "nat option \<Rightarrow> 'e vim_context \<Rightarrow> 'e vim_context" where
  "set_column k = upd (\<lambda>s. s\<lparr>vs_preferred_column := k\<rparr>)"

definition set_last_change :: "repeatable_command option \<Rightarrow> 'e vim_context \<Rightarrow> 'e vim_context" where
  "set_last_change c = upd (\<lambda>s. s\<lparr>vs_last_change := c\<rparr>)"

definition move_to :: "'e editor_ops \<Rightarrow> nat \<Rightarrow> 'e vim_context \<Rightarrow> 'e vim_context option" where
  "move_to ops pos = edit (ed_set_cursor ops pos)"

section \<open>Motions\<close>

definition move_motion :: "'e editor_ops \<Rightarrow> (rchar \<Rightarrow> bool) \<Rightarrow> motion \<Rightarrow> 'e vim_context \<Rightarrow> 'e vim_context option" where
  "move_motion ops alnum m cx =
     do { next \<leftarrow> (case m of
                     WordForward \<Rightarrow> vim_next_word_start alnum (cx_content ops cx) (cx_cursor ops cx)
                   | EndWord \<Rightarrow> vim_end_word alnum (cx_content ops cx) (cx_cursor ops cx)
                   | WordBackward \<Rightarrow> vim_prev_word_start alnum (cx_content ops cx) (cx_cursor ops cx));
          cx \<leftarrow> move_to ops next cx;
          Some (set_column None cx) }"

definition char_column :: "'e editor_ops \<Rightarrow> nat \<Rightarrow> 'e vim_context \<Rightarrow> nat option" where
  "char_column ops line_start cx =
     (case vs_preferred_column (cx_state cx) of
        Some k \<Rightarrow> Some k
      | None \<Rightarrow> map_option length (slice (cx_content ops cx) line_start (cx_cursor ops cx)))"

text \<open>The offset of a column in the line from \<open>start\<close> to \<open>stop\<close>, its end when the line is shorter.\<close>

definition column_offset :: "rtext \<Rightarrow> nat \<Rightarrow> nat \<Rightarrow> nat \<Rightarrow> nat option" where
  "column_offset content start stop column =
     do { line \<leftarrow> slice content start stop;
          Some (start + (case nth_offset line column of Some idx \<Rightarrow> idx | None \<Rightarrow> stop - start)) }"

definition move_vertical :: "'e editor_ops \<Rightarrow> bool \<Rightarrow> 'e vim_context \<Rightarrow> 'e vim_context option" where
  "move_vertical ops down cx =
     do { let content = cx_content ops cx;
          (line_start, line_end) \<leftarrow> vim_current_line_bounds content (cx_cursor ops cx);
          column \<leftarrow> char_column ops line_start cx;
          target \<leftarrow>
            (if down
             then if blen content \<le> line_end then Some (cx_cursor ops cx)
                  else do { let next_start = line_end + 1;
                            rest \<leftarrow> slice_from content next_start;
                            let next_end = (case find_char ((=) nl) rest of
                                              Some idx \<Rightarrow> next_start + idx | None \<Rightarrow> blen content);
                            column_offset content next_start next_end column }
             else if line_start = 0 then Some (cx_cursor ops cx)
                  else do { let prev_end = line_start - 1;
                            pre \<leftarrow> slice_to content prev_end;
                            let prev_start = (case rfind_char ((=) nl) pre of Some idx \<Rightarrow> idx + 1 | None \<Rightarrow> 0);
                            column_offset content prev_start prev_end column });
          cx \<leftarrow> move_to ops target cx;
          Some (set_column (Some column) cx) }"

definition move_to_line :: "'e editor_ops \<Rightarrow> bool \<Rightarrow> 'e vim_context \<Rightarrow> 'e vim_context option" where
  "move_to_line ops first cx =
     do { let content = cx_content ops cx;
          (current_start, _) \<leftarrow> vim_current_line_bounds content (cx_cursor ops cx);
          column \<leftarrow> char_column ops current_start cx;
          target \<leftarrow>
            (if first
             then column_offset content 0 (case find_char ((=) nl) content of Some idx \<Rightarrow> idx | None \<Rightarrow> blen content) column
             else do { let last_start = (case rfind_char ((=) nl) content of Some idx \<Rightarrow> idx + 1 | None \<Rightarrow> 0);
                       rest \<leftarrow> slice_from content last_start;
                       let last_end = (case find_char ((=) nl) rest of
                                         Some idx \<Rightarrow> last_start + idx | None \<Rightarrow> blen content);
                       column_offset content last_start last_end column });
          cx \<leftarrow> move_to ops target cx;
          Some (set_column (Some column) cx) }"

definition handle_find :: "'e editor_ops \<Rightarrow> bool \<Rightarrow> bool \<Rightarrow> rchar \<Rightarrow> 'e vim_context \<Rightarrow> 'e vim_context option" where
  "handle_find ops forward till ch cx =
     do { found \<leftarrow> vim_find_char (cx_content ops cx) (cx_cursor ops cx) ch forward till;
          case found of
            None \<Rightarrow> Some cx
          | Some pos \<Rightarrow>
              do { cx \<leftarrow> move_to ops pos cx;
                   Some (upd (\<lambda>s. s\<lparr>vs_last_find := Some \<lparr>fs_ch = ch, fs_till = till, fs_forward = forward\<rparr>,
                                    vs_preferred_column := None\<rparr>) cx) } }"

definition repeat_find :: "'e editor_ops \<Rightarrow> bool \<Rightarrow> 'e vim_context \<Rightarrow> 'e vim_context option" where
  "repeat_find ops reverse cx =
     (case vs_last_find (cx_state cx) of
        None \<Rightarrow> Some cx
      | Some f \<Rightarrow>
          handle_find ops (if reverse then \<not> fs_forward f else fs_forward f) (fs_till f) (fs_ch f) cx)"

section \<open>Operators\<close>

definition capture_range :: "'e editor_ops \<Rightarrow> nat \<Rightarrow> nat \<Rightarrow> 'e vim_context \<Rightarrow> 'e vim_context option" where
  "capture_range ops start stop cx =
     do { text \<leftarrow> slice (cx_content ops cx) start stop;
          linewise \<leftarrow> vim_is_linewise_range (cx_content ops cx) start stop;
          Some (upd (\<lambda>s. s\<lparr>vs_clipboard_kind := (if linewise then LineWise else CharWise)\<rparr>) (cx\<lparr>cx_clipboard := text\<rparr>)) }"

definition replace_in :: "'e editor_ops \<Rightarrow> nat \<Rightarrow> nat \<Rightarrow> rtext \<Rightarrow> 'e vim_context \<Rightarrow> 'e vim_context option" where
  "replace_in ops start stop replacement = edit (ed_replace_range ops start stop replacement)"

definition indent_text :: rtext where
  "indent_text = [space, space, space, space]"

fun split_inclusive :: "rtext \<Rightarrow> rtext list" where
  "split_inclusive [] = []"
| "split_inclusive (c # s) =
     (if c = nl then [c] # split_inclusive s
      else case split_inclusive s of [] \<Rightarrow> [[c]] | w # ws \<Rightarrow> (c # w) # ws)"

definition indent_segment :: "bool \<Rightarrow> rtext \<Rightarrow> rtext" where
  "indent_segment indent segment =
     (if indent then indent_text @ segment
      else if prefix indent_text segment then drop (length indent_text) segment
      else dropWhile ((=) space) segment)"

fun indent_lines :: "bool \<Rightarrow> nat \<Rightarrow> nat \<Rightarrow> nat \<Rightarrow> rtext list \<Rightarrow> rtext \<times> nat" where
  "indent_lines indent start stop line_start [] = ([], line_start)"
| "indent_lines indent start stop line_start (segment # segments) =
     (let line_end = line_start + blen segment;
          (out, final) = indent_lines indent start stop line_end segments
      in ((if start < line_end \<and> line_start < stop then indent_segment indent segment else segment) @ out, final))"

definition indent_range :: "'e editor_ops \<Rightarrow> nat \<Rightarrow> nat \<Rightarrow> bool \<Rightarrow> 'e vim_context \<Rightarrow> 'e vim_context option" where
  "indent_range ops start stop indent cx =
     do { let content = cx_content ops cx;
          let (out, line_start) = indent_lines indent start stop 0 (split_inclusive content);
          out \<leftarrow> (if \<not> suffix [nl] content \<and> line_start < blen content
                  then do { tail \<leftarrow> slice_from content line_start;
                            Some (if line_start < stop \<and> start < blen content
                                  then out @ indent_segment indent tail else out) }
                  else Some out);
          edit (ed_replace ops out (min start (blen content))) cx }"

definition apply_range_operator ::
  "'e editor_ops \<Rightarrow> vim_operator \<Rightarrow> nat \<Rightarrow> nat \<Rightarrow> 'e vim_context \<Rightarrow> 'e vim_context option" where
  "apply_range_operator ops op start stop cx =
     (if stop < start \<or> blen (cx_content ops cx) < stop then Some cx
      else case op of
             Yank \<Rightarrow> capture_range ops start stop cx
           | Delete \<Rightarrow> do { cx \<leftarrow> capture_range ops start stop cx; replace_in ops start stop [] cx }
           | Indent \<Rightarrow> indent_range ops start stop True cx
           | Outdent \<Rightarrow> indent_range ops start stop False cx
           | Change \<Rightarrow> Some cx)"

definition begin_change :: "'e editor_ops \<Rightarrow> nat \<Rightarrow> nat \<Rightarrow> change_target \<Rightarrow> 'e vim_context \<Rightarrow> 'e vim_context option" where
  "begin_change ops start stop target cx =
     do { cx \<leftarrow> capture_range ops start stop cx;
          cx \<leftarrow> replace_in ops start stop [] cx;
          Some (upd (\<lambda>s. s\<lparr>vs_mode := ModeInsert,
                           vs_insert_capture := Some \<lparr>ic_repeat = RepeatChange target, ic_start = start\<rparr>\<rparr>) cx) }"

definition change_range ::
  "'e editor_ops \<Rightarrow> (rchar \<Rightarrow> bool) \<Rightarrow> change_target \<Rightarrow> 'e vim_context \<Rightarrow> (nat \<times> nat) option option" where
  "change_range ops alnum target cx =
     (let content = cx_content ops cx; cursor = cx_cursor ops cx
      in case target of
           TargetMotion m \<Rightarrow> vim_motion_range alnum content cursor m
         | TargetTextObject object \<Rightarrow> vim_text_object_range alnum content cursor object
         | TargetLine \<Rightarrow> map_option Some (vim_current_line_bounds content cursor)
         | TargetLineEnd \<Rightarrow> map_option (\<lambda>stop. Some (cursor, stop)) (vim_line_end content cursor))"

definition start_change :: "'e editor_ops \<Rightarrow> (rchar \<Rightarrow> bool) \<Rightarrow> change_target \<Rightarrow> 'e vim_context \<Rightarrow> 'e vim_context option" where
  "start_change ops alnum target cx =
     do { range \<leftarrow> change_range ops alnum target cx;
          case range of None \<Rightarrow> Some cx | Some (start, stop) \<Rightarrow> begin_change ops start stop target cx }"

definition apply_motion_operator ::
  "'e editor_ops \<Rightarrow> (rchar \<Rightarrow> bool) \<Rightarrow> vim_operator \<Rightarrow> motion \<Rightarrow> 'e vim_context \<Rightarrow> 'e vim_context option" where
  "apply_motion_operator ops alnum op m cx =
     (if op = Change then start_change ops alnum (TargetMotion m) cx
      else do { range \<leftarrow> vim_motion_range alnum (cx_content ops cx) (cx_cursor ops cx) m;
                case range of
                  None \<Rightarrow> Some cx
                | Some (start, stop) \<Rightarrow>
                    do { cx \<leftarrow> apply_range_operator ops op start stop cx;
                         Some (if op \<noteq> Yank then set_last_change (Some (OperateMotion op m)) cx else cx) } })"

definition apply_text_object_operator ::
  "'e editor_ops \<Rightarrow> (rchar \<Rightarrow> bool) \<Rightarrow> vim_operator \<Rightarrow> text_object \<Rightarrow> 'e vim_context \<Rightarrow> 'e vim_context option" where
  "apply_text_object_operator ops alnum op object cx =
     (if op = Change then start_change ops alnum (TargetTextObject object) cx
      else do { range \<leftarrow> vim_text_object_range alnum (cx_content ops cx) (cx_cursor ops cx) object;
                case range of None \<Rightarrow> Some cx | Some (start, stop) \<Rightarrow> apply_range_operator ops op start stop cx })"

definition apply_line_operator ::
  "'e editor_ops \<Rightarrow> (rchar \<Rightarrow> bool) \<Rightarrow> vim_operator \<Rightarrow> 'e vim_context \<Rightarrow> 'e vim_context option" where
  "apply_line_operator ops alnum op cx =
     (if op = Change then start_change ops alnum TargetLine cx
      else do { (start, stop) \<leftarrow> vim_current_line_full_range (cx_content ops cx) (cx_cursor ops cx);
                cx \<leftarrow> apply_range_operator ops op start stop cx;
                Some (if op \<noteq> Yank then set_last_change (Some (OperateLine op)) cx else cx) })"

definition delete_to_line_end :: "'e editor_ops \<Rightarrow> 'e vim_context \<Rightarrow> 'e vim_context option" where
  "delete_to_line_end ops cx =
     do { stop \<leftarrow> vim_line_end (cx_content ops cx) (cx_cursor ops cx);
          cx \<leftarrow> capture_range ops (cx_cursor ops cx) stop cx;
          replace_in ops (cx_cursor ops cx) stop [] cx }"

definition yank_current_line :: "'e editor_ops \<Rightarrow> 'e vim_context \<Rightarrow> 'e vim_context option" where
  "yank_current_line ops cx =
     do { (start, stop) \<leftarrow> vim_current_line_full_range (cx_content ops cx) (cx_cursor ops cx);
          capture_range ops start stop cx }"

definition open_line :: "'e editor_ops \<Rightarrow> bool \<Rightarrow> 'e vim_context \<Rightarrow> 'e vim_context option" where
  "open_line ops below cx =
     do { insert_at \<leftarrow>
            (if below
             then map_option (\<lambda>stop. if stop < blen (cx_content ops cx) then stop + 1 else stop)
                    (vim_line_end (cx_content ops cx) (cx_cursor ops cx))
             else vim_line_start (cx_content ops cx) (cx_cursor ops cx));
          cx \<leftarrow> replace_in ops insert_at insert_at [nl] cx;
          move_to ops (insert_at + 1) cx }"

definition paste :: "'e editor_ops \<Rightarrow> bool \<Rightarrow> 'e vim_context \<Rightarrow> 'e vim_context option" where
  "paste ops after cx =
     (let clip = cx_clipboard cx; content = cx_content ops cx; cursor = cx_cursor ops cx
      in if clip = [] then Some cx
         else case vs_clipboard_kind (cx_state cx) of
                CharWise \<Rightarrow>
                  (let insert_at = (if after \<and> cursor < blen content then next_char_boundary content cursor else cursor)
                   in do { cx \<leftarrow> replace_in ops insert_at insert_at clip cx;
                           move_to ops (insert_at + blen clip) cx })
              | LineWise \<Rightarrow>
                  do { (line_start, line_end) \<leftarrow> vim_current_line_bounds content cursor;
                       let insert_at = (if after then if line_end < blen content then line_end + 1 else line_end
                                        else line_start);
                       cx \<leftarrow> replace_in ops insert_at insert_at clip cx;
                       move_to ops (min (insert_at + blen clip) (blen (cx_content ops cx))) cx })"

definition join_lines :: "'e editor_ops \<Rightarrow> 'e vim_context \<Rightarrow> 'e vim_context option" where
  "join_lines ops cx =
     do { let content = cx_content ops cx;
          (_, line_end) \<leftarrow> vim_current_line_bounds content (cx_cursor ops cx);
          if blen content \<le> line_end then Some cx
          else do { let next_start = line_end + 1;
                    rest \<leftarrow> slice_from content next_start;
                    let next_non_ws = (case find_char (\<lambda>c. \<not> char_is_whitespace c) rest of
                                         Some idx \<Rightarrow> next_start + idx | None \<Rightarrow> next_start);
                    cx \<leftarrow> replace_in ops line_end next_non_ws [space] cx;
                    move_to ops (line_end + 1) cx } }"

section \<open>Insert mode and repetition\<close>

definition start_insert :: "'e editor_ops \<Rightarrow> insert_kind \<Rightarrow> 'e vim_context \<Rightarrow> 'e vim_context" where
  "start_insert ops kind cx =
     upd (\<lambda>s. s\<lparr>vs_mode := ModeInsert, vs_pending := None,
                vs_insert_capture := Some \<lparr>ic_repeat = RepeatInsert kind, ic_start = cx_cursor ops cx\<rparr>\<rparr>) cx"

definition finish_insert_capture :: "'e editor_ops \<Rightarrow> 'e vim_context \<Rightarrow> 'e vim_context option" where
  "finish_insert_capture ops cx =
     (case vs_insert_capture (cx_state cx) of
        None \<Rightarrow> Some cx
      | Some capture \<Rightarrow>
          (let cx = upd (\<lambda>s. s\<lparr>vs_insert_capture := None\<rparr>) cx; cursor = cx_cursor ops cx
           in if ic_start capture \<le> cursor
              then do { inserted \<leftarrow> slice (cx_content ops cx) (ic_start capture) cursor;
                        Some (set_last_change
                                (case ic_repeat capture of
                                   RepeatInsert kind \<Rightarrow> if inserted = [] then None else Some (InsertText kind inserted)
                                 | RepeatChange target \<Rightarrow> Some (ChangeText target inserted)) cx) }
              else Some cx))"

definition move_right_in_text :: "'e editor_ops \<Rightarrow> 'e vim_context \<Rightarrow> 'e vim_context option" where
  "move_right_in_text ops cx =
     (if cx_cursor ops cx < blen (cx_content ops cx) then edit (ed_move_right ops) cx else Some cx)"

definition repeat_insert :: "'e editor_ops \<Rightarrow> insert_kind \<Rightarrow> rtext \<Rightarrow> 'e vim_context \<Rightarrow> 'e vim_context option" where
  "repeat_insert ops kind text cx =
     do { cx \<leftarrow> (case kind of
                  InsertHere \<Rightarrow> Some cx
                | InsertStart \<Rightarrow> do { start \<leftarrow> vim_line_first_non_ws (cx_content ops cx) (cx_cursor ops cx);
                                     move_to ops start cx }
                | Append \<Rightarrow> move_right_in_text ops cx
                | AppendEnd \<Rightarrow> do { stop \<leftarrow> vim_line_end (cx_content ops cx) (cx_cursor ops cx); move_to ops stop cx }
                | OpenBelow \<Rightarrow> open_line ops True cx
                | OpenAbove \<Rightarrow> open_line ops False cx);
          cx \<leftarrow> edit (ed_insert_text ops text) cx;
          Some (set_mode ModeNormal cx) }"

definition repeat_change ::
  "'e editor_ops \<Rightarrow> (rchar \<Rightarrow> bool) \<Rightarrow> change_target \<Rightarrow> rtext \<Rightarrow> 'e vim_context \<Rightarrow> 'e vim_context option" where
  "repeat_change ops alnum target text cx =
     do { cx \<leftarrow> start_change ops alnum target cx;
          cx \<leftarrow> edit (ed_insert_text ops text) cx;
          cx \<leftarrow> finish_insert_capture ops cx;
          Some (set_mode ModeNormal cx) }"

definition delete_char :: "'e editor_ops \<Rightarrow> 'e vim_context \<Rightarrow> 'e vim_context option" where
  "delete_char ops cx =
     (if cx_cursor ops cx < blen (cx_content ops cx) then edit (ed_delete_char_forward ops) cx else Some cx)"

definition repeat_last_change :: "'e editor_ops \<Rightarrow> (rchar \<Rightarrow> bool) \<Rightarrow> 'e vim_context \<Rightarrow> 'e vim_context option" where
  "repeat_last_change ops alnum cx =
     (case vs_last_change (cx_state cx) of
        None \<Rightarrow> Some cx
      | Some command \<Rightarrow>
          (case command of
             DeleteChar \<Rightarrow> delete_char ops cx
           | PasteAfter \<Rightarrow> paste ops True cx
           | PasteBefore \<Rightarrow> paste ops False cx
           | JoinLines \<Rightarrow> join_lines ops cx
           | InsertText kind text \<Rightarrow> repeat_insert ops kind text cx
           | OperateMotion op m \<Rightarrow> apply_motion_operator ops alnum op m cx
           | OperateTextObject op object \<Rightarrow> apply_text_object_operator ops alnum op object cx
           | OperateLine op \<Rightarrow> apply_line_operator ops alnum op cx
           | DeleteToLineEnd \<Rightarrow> delete_to_line_end ops cx
           | ChangeText target text \<Rightarrow> repeat_change ops alnum target text cx))"

section \<open>Keys\<close>

datatype key_code = KeyEsc | KeyChar rchar | KeyLeft | KeyRight | KeyUp | KeyDown | KeyOther

datatype key_modifier = ModShift | ModControl | ModAlt | ModSuper | ModHyper | ModMeta

record key_event =
  ke_code :: key_code
  ke_modifiers :: "key_modifier list"

record key_outcome =
  ko_handled :: bool
  ko_clear_selection :: bool

definition unhandled :: key_outcome where
  "unhandled = \<lparr>ko_handled = False, ko_clear_selection = False\<rparr>"

definition asc :: "char \<Rightarrow> rchar" where
  "asc c = of_char c"

abbreviation done_with :: "bool \<Rightarrow> 'e vim_context option \<Rightarrow> (bool \<times> 'e vim_context) option" where
  "done_with handled \<equiv> map_option (Pair handled)"

definition handle_operator ::
  "'e editor_ops \<Rightarrow> (rchar \<Rightarrow> bool) \<Rightarrow> vim_operator \<Rightarrow> rchar \<Rightarrow> 'e vim_context \<Rightarrow> (bool \<times> 'e vim_context) option" where
  "handle_operator ops alnum op ch cx =
     (if (op, ch) \<in> {(Delete, asc CHR ''d''), (Change, asc CHR ''c''), (Yank, asc CHR ''y''),
                      (Indent, asc CHR ''>''), (Outdent, asc CHR ''<'')}
      then done_with True (apply_line_operator ops alnum op cx)
      else if ch = asc CHR ''w'' then done_with True (apply_motion_operator ops alnum op WordForward cx)
      else if ch = asc CHR ''e'' then done_with True (apply_motion_operator ops alnum op EndWord cx)
      else if ch = asc CHR ''b'' then done_with True (apply_motion_operator ops alnum op WordBackward cx)
      else if ch = asc CHR ''i'' then Some (True, set_pending (Some (PendTextObject op False)) cx)
      else if ch = asc CHR ''a'' then Some (True, set_pending (Some (PendTextObject op True)) cx)
      else Some (False, cx))"

definition text_object_of :: "bool \<Rightarrow> rchar \<Rightarrow> text_object option" where
  "text_object_of around ch =
     (if ch = asc CHR ''w'' then Some (ObjWord around False)
      else if ch = asc CHR ''W'' then Some (ObjWord around True)
      else if ch = asc CHR 0x22 then Some (ObjDelimited around (asc CHR 0x22) (asc CHR 0x22))
      else if ch = asc CHR 0x27 then Some (ObjDelimited around (asc CHR 0x27) (asc CHR 0x27))
      else if ch = asc CHR ''('' then Some (ObjDelimited around (asc CHR ''('') (asc CHR '')''))
      else if ch = asc CHR ''['' then Some (ObjDelimited around (asc CHR ''['') (asc CHR '']''))
      else if ch = asc CHR 0x7B then Some (ObjDelimited around (asc CHR 0x7B) (asc CHR 0x7D))
      else None)"

definition handle_text_object ::
  "'e editor_ops \<Rightarrow> (rchar \<Rightarrow> bool) \<Rightarrow> vim_operator \<Rightarrow> bool \<Rightarrow> rchar \<Rightarrow> 'e vim_context
     \<Rightarrow> (bool \<times> 'e vim_context) option" where
  "handle_text_object ops alnum op around ch cx =
     (case text_object_of around ch of
        None \<Rightarrow> Some (False, cx)
      | Some object \<Rightarrow>
          do { cx \<leftarrow> apply_text_object_operator ops alnum op object cx;
               Some (True, set_last_change (case op of
                                              Change \<Rightarrow> None
                                            | Yank \<Rightarrow> None
                                            | _ \<Rightarrow> Some (OperateTextObject op object)) cx) })"

definition handle_pending ::
  "'e editor_ops \<Rightarrow> (rchar \<Rightarrow> bool) \<Rightarrow> pending_state \<Rightarrow> rchar \<Rightarrow> 'e vim_context \<Rightarrow> (bool \<times> 'e vim_context) option" where
  "handle_pending ops alnum pending ch cx =
     (case pending of
        PendOperator op \<Rightarrow> handle_operator ops alnum op ch cx
      | PendTextObject op around \<Rightarrow> handle_text_object ops alnum op around ch cx
      | PendFind till forward \<Rightarrow> done_with True (handle_find ops forward till ch cx)
      | PendGoToLine \<Rightarrow>
          if ch = asc CHR ''g'' then done_with True (move_to_line ops True cx) else Some (False, cx))"

text \<open>The commands that start a pending state, and those that move the cursor only.\<close>

definition pending_of :: "rchar \<Rightarrow> pending_state option" where
  "pending_of ch =
     (if ch = asc CHR ''g'' then Some PendGoToLine
      else if ch = asc CHR ''f'' then Some (PendFind False True)
      else if ch = asc CHR ''F'' then Some (PendFind False False)
      else if ch = asc CHR ''t'' then Some (PendFind True True)
      else if ch = asc CHR ''T'' then Some (PendFind True False)
      else if ch = asc CHR ''d'' then Some (PendOperator Delete)
      else if ch = asc CHR ''c'' then Some (PendOperator Change)
      else if ch = asc CHR ''y'' then Some (PendOperator Yank)
      else if ch = asc CHR ''>'' then Some (PendOperator Indent)
      else if ch = asc CHR ''<'' then Some (PendOperator Outdent)
      else None)"

definition move_to_offset :: "'e editor_ops \<Rightarrow> nat option \<Rightarrow> 'e vim_context \<Rightarrow> 'e vim_context option" where
  "move_to_offset ops target cx = do { pos \<leftarrow> target; cx \<leftarrow> move_to ops pos cx; Some (set_column None cx) }"

definition move_char :: "'e editor_ops \<Rightarrow> (rchar \<Rightarrow> bool) \<Rightarrow> rchar \<Rightarrow> 'e vim_context \<Rightarrow> 'e vim_context option option" where
  "move_char ops alnum ch cx =
     (if ch = asc CHR ''h'' then Some (map_option (set_column None) (edit (ed_move_left ops) cx))
      else if ch = asc CHR ''l'' then Some (map_option (set_column None) (edit (ed_move_right ops) cx))
      else if ch = asc CHR ''j'' then Some (move_vertical ops True cx)
      else if ch = asc CHR ''k'' then Some (move_vertical ops False cx)
      else if ch = asc CHR ''w'' then Some (move_motion ops alnum WordForward cx)
      else if ch = asc CHR ''e'' then Some (move_motion ops alnum EndWord cx)
      else if ch = asc CHR ''b'' then Some (move_motion ops alnum WordBackward cx)
      else if ch = asc CHR ''0'' then Some (move_to_offset ops (vim_line_start (cx_content ops cx) (cx_cursor ops cx)) cx)
      else if ch = asc CHR ''^'' then Some (move_to_offset ops (vim_line_first_non_ws (cx_content ops cx) (cx_cursor ops cx)) cx)
      else if ch = asc CHR ''$'' then Some (move_to_offset ops (vim_line_end (cx_content ops cx) (cx_cursor ops cx)) cx)
      else if ch = asc CHR ''G'' then Some (move_to_line ops False cx)
      else if ch = asc CHR '';'' then Some (repeat_find ops False cx)
      else if ch = asc CHR '','' then Some (repeat_find ops True cx)
      else None)"

text \<open>The commands that change the text.\<close>

definition change_char :: "'e editor_ops \<Rightarrow> (rchar \<Rightarrow> bool) \<Rightarrow> rchar \<Rightarrow> 'e vim_context \<Rightarrow> 'e vim_context option option" where
  "change_char ops alnum ch cx =
     (if ch = asc CHR ''x''
      then Some (if cx_cursor ops cx < blen (cx_content ops cx)
                 then map_option (set_last_change (Some DeleteChar)) (edit (ed_delete_char_forward ops) cx) else Some cx)
      else if ch = asc CHR ''D'' then Some (map_option (set_last_change (Some DeleteToLineEnd)) (delete_to_line_end ops cx))
      else if ch = asc CHR ''C'' then Some (start_change ops alnum TargetLineEnd cx)
      else if ch = asc CHR ''Y'' then Some (yank_current_line ops cx)
      else if ch = asc CHR ''p'' then Some (map_option (set_last_change (Some PasteAfter)) (paste ops True cx))
      else if ch = asc CHR ''P'' then Some (map_option (set_last_change (Some PasteBefore)) (paste ops False cx))
      else if ch = asc CHR ''J'' then Some (map_option (set_last_change (Some JoinLines)) (join_lines ops cx))
      else if ch = asc CHR ''.'' then Some (repeat_last_change ops alnum cx)
      else None)"

text \<open>The commands that enter insert mode.\<close>

definition insert_command :: "'e editor_ops \<Rightarrow> rchar \<Rightarrow> 'e vim_context \<Rightarrow> 'e vim_context option option" where
  "insert_command ops ch cx =
     (if ch = asc CHR ''i'' then Some (Some (start_insert ops InsertHere cx))
      else if ch = asc CHR ''I''
      then Some (do { start \<leftarrow> vim_line_first_non_ws (cx_content ops cx) (cx_cursor ops cx);
                      cx \<leftarrow> move_to ops start cx;
                      Some (start_insert ops InsertStart cx) })
      else if ch = asc CHR ''a'' then Some (map_option (start_insert ops Append) (move_right_in_text ops cx))
      else if ch = asc CHR ''A''
      then Some (do { stop \<leftarrow> vim_line_end (cx_content ops cx) (cx_cursor ops cx);
                      cx \<leftarrow> move_to ops stop cx;
                      Some (start_insert ops AppendEnd cx) })
      else if ch = asc CHR ''o'' then Some (map_option (start_insert ops OpenBelow) (open_line ops True cx))
      else if ch = asc CHR ''O'' then Some (map_option (start_insert ops OpenAbove) (open_line ops False cx))
      else None)"

definition handle_normal_char ::
  "'e editor_ops \<Rightarrow> (rchar \<Rightarrow> bool) \<Rightarrow> rchar \<Rightarrow> 'e vim_context \<Rightarrow> (bool \<times> 'e vim_context) option" where
  "handle_normal_char ops alnum ch cx =
     (case move_char ops alnum ch cx of
        Some result \<Rightarrow> done_with True result
      | None \<Rightarrow>
          (case pending_of ch of
             Some pending \<Rightarrow> Some (True, set_pending (Some pending) cx)
           | None \<Rightarrow>
               (case change_char ops alnum ch cx of
                  Some result \<Rightarrow> done_with True result
                | None \<Rightarrow>
                    (case insert_command ops ch cx of
                       Some result \<Rightarrow> done_with True result
                     | None \<Rightarrow> Some (False, cx)))))"

definition handle_insert_key ::
  "'e editor_ops \<Rightarrow> key_event \<Rightarrow> 'e vim_context \<Rightarrow> (key_outcome \<times> 'e vim_context) option" where
  "handle_insert_key ops key cx =
     (if ke_code key = KeyEsc
      then do { cx \<leftarrow> finish_insert_capture ops cx;
                Some (\<lparr>ko_handled = True, ko_clear_selection = True\<rparr>, set_pending None (set_mode ModeNormal cx)) }
      else Some (unhandled, cx))"

definition handle_normal_key ::
  "'e editor_ops \<Rightarrow> (rchar \<Rightarrow> bool) \<Rightarrow> key_event \<Rightarrow> 'e vim_context \<Rightarrow> (key_outcome \<times> 'e vim_context) option" where
  "handle_normal_key ops alnum key cx =
     (let outcome = map_option (\<lambda>(handled, cx). (\<lparr>ko_handled = handled, ko_clear_selection = False\<rparr>, cx))
      in case ke_code key of
           KeyEsc \<Rightarrow> Some (\<lparr>ko_handled = True, ko_clear_selection = True\<rparr>, set_pending None cx)
         | KeyChar ch \<Rightarrow>
             outcome (case vs_pending (cx_state cx) of
                        Some pending \<Rightarrow> handle_pending ops alnum pending ch (set_pending None cx)
                      | None \<Rightarrow> handle_normal_char ops alnum ch cx)
         | KeyLeft \<Rightarrow> outcome (done_with True (map_option (set_column None) (edit (ed_move_left ops) cx)))
         | KeyRight \<Rightarrow> outcome (done_with True (map_option (set_column None) (edit (ed_move_right ops) cx)))
         | KeyUp \<Rightarrow> outcome (done_with True (move_vertical ops False cx))
         | KeyDown \<Rightarrow> outcome (done_with True (move_vertical ops True cx))
         | KeyOther \<Rightarrow> Some (unhandled, cx))"

definition handle_key ::
  "'e editor_ops \<Rightarrow> (rchar \<Rightarrow> bool) \<Rightarrow> key_event \<Rightarrow> 'e vim_context \<Rightarrow> (key_outcome \<times> 'e vim_context) option" where
  "handle_key ops alnum key cx =
     (if \<not> vs_enabled (cx_state cx) then Some (unhandled, cx)
      else if set (ke_modifiers key) \<inter> {ModControl, ModAlt, ModSuper} \<noteq> {} then Some (unhandled, cx)
      else case vs_mode (cx_state cx) of
             ModeInsert \<Rightarrow> handle_insert_key ops key cx
           | ModeNormal \<Rightarrow> handle_normal_key ops alnum key cx)"

end
