(* ===== verification/Input_Manager.thy ===== *)
theory Input_Manager
  imports Text_Bridge Vim_Engine
begin

text \<open>
  The composer's input manager (\<open>session/input_manager.rs\<close>): the text, the selection anchor, the compact paste
  range, the attachments and the history of submitted prompts. The text buffer is the third-party
  \<open>ratatui_textarea::TextArea\<close>, which is a parameter: a record of the methods the code calls. The result \<open>None\<close> of an
  operation is a panic. Time stamps and the outcome of the clipboard call are arguments.
\<close>

section \<open>The text area\<close>

datatype cursor_move = MoveBack | MoveForward | MoveUp | MoveDown | MoveBottom | MoveEnd | MoveJump nat nat

record 't textarea_lib =
  ta_default :: 't
  ta_from :: "rtext list \<Rightarrow> 't"
  ta_set_max_histories :: "nat \<Rightarrow> 't \<Rightarrow> 't"
  ta_set_tab_length :: "nat \<Rightarrow> 't \<Rightarrow> 't"
  ta_lines :: "'t \<Rightarrow> rtext list"
  ta_cursor :: "'t \<Rightarrow> nat \<times> nat"
  ta_move_cursor :: "cursor_move \<Rightarrow> 't \<Rightarrow> 't"
  ta_start_selection :: "'t \<Rightarrow> 't"
  ta_cancel_selection :: "'t \<Rightarrow> 't"
  ta_insert_char :: "rchar \<Rightarrow> 't \<Rightarrow> 't"
  ta_insert_str :: "rtext \<Rightarrow> 't \<Rightarrow> 't"
  ta_delete_char :: "'t \<Rightarrow> 't"
  ta_delete_next_char :: "'t \<Rightarrow> 't"
  ta_delete_next_word :: "'t \<Rightarrow> 't"
  ta_undo :: "'t \<Rightarrow> bool \<times> 't"
  ta_redo :: "'t \<Rightarrow> bool \<times> 't"

definition configure_textarea :: "'t textarea_lib \<Rightarrow> 't \<Rightarrow> 't" where
  "configure_textarea lib t = ta_set_tab_length lib 4 (ta_set_max_histories lib 50 t)"

section \<open>State\<close>

datatype content_part = TextPart rtext | ImagePart rtext rtext

definition is_image :: "content_part \<Rightarrow> bool" where
  "is_image part = (case part of ImagePart data media_type \<Rightarrow> True | TextPart _ \<Rightarrow> False)"

record history_entry =
  he_content :: rtext
  he_elements :: "content_part list"
  he_created_at :: int

record 't input_manager =
  im_textarea :: 't
  im_selection_anchor :: "nat option"
  im_selection_copied :: bool
  im_attachments :: "content_part list"
  im_attachment_placeholders :: "rtext option list"
  im_compact_paste_range :: "(nat \<times> nat) option"
  im_history :: "history_entry list"
  im_history_index :: "nat option"
  im_history_draft :: "history_entry option"
  im_archived_count :: nat
  im_content_cache :: rtext

definition new_input_manager :: "'t textarea_lib \<Rightarrow> 't input_manager" where
  "new_input_manager lib =
     \<lparr>im_textarea = configure_textarea lib (ta_default lib), im_selection_anchor = None, im_selection_copied = False,
      im_attachments = [], im_attachment_placeholders = [], im_compact_paste_range = None, im_history = [],
      im_history_index = None, im_history_draft = None, im_archived_count = 0, im_content_cache = []\<rparr>"

section \<open>History entries\<close>

definition from_content_and_attachments :: "int \<Rightarrow> rtext \<Rightarrow> content_part list \<Rightarrow> history_entry" where
  "from_content_and_attachments now content attachments =
     \<lparr>he_content = content,
      he_elements = (if content = [] then [] else [TextPart content]) @ filter is_image attachments,
      he_created_at = now\<rparr>"

definition from_content_and_timestamp :: "rtext \<Rightarrow> int \<Rightarrow> history_entry" where
  "from_content_and_timestamp content created_at =
     \<lparr>he_content = content, he_elements = (if content = [] then [] else [TextPart content]), he_created_at = created_at\<rparr>"

definition entry_has_attachments :: "history_entry \<Rightarrow> bool" where
  "entry_has_attachments entry = list_ex is_image (he_elements entry)"

definition entry_is_empty :: "history_entry \<Rightarrow> bool" where
  "entry_is_empty entry \<longleftrightarrow> rtrim (he_content entry) = [] \<and> \<not> entry_has_attachments entry"

definition attachment_elements :: "history_entry \<Rightarrow> content_part list" where
  "attachment_elements entry = filter is_image (he_elements entry)"

section \<open>Text and cursor\<close>

definition usize_max :: nat where
  "usize_max = 2 ^ 64 - 1"

text \<open>\<open>usize::saturating_add\<close>; on a number above \<open>usize_max\<close>, which no \<open>usize\<close> is, it is the identity.\<close>

definition sat_add :: "nat \<Rightarrow> nat \<Rightarrow> nat" where
  "sat_add a b = (if a \<le> usize_max then min (a + b) usize_max else a)"

definition im_lines :: "'t textarea_lib \<Rightarrow> 't input_manager \<Rightarrow> rtext list" where
  "im_lines lib m = ta_lines lib (im_textarea m)"

definition refresh_content_cache :: "'t textarea_lib \<Rightarrow> 't input_manager \<Rightarrow> 't input_manager" where
  "refresh_content_cache lib m = m\<lparr>im_content_cache := join_nl (im_lines lib m)\<rparr>"

definition reset_history_navigation :: "'t input_manager \<Rightarrow> 't input_manager" where
  "reset_history_navigation m = m\<lparr>im_history_index := None, im_history_draft := None\<rparr>"

definition clear_selection :: "'t textarea_lib \<Rightarrow> 't input_manager \<Rightarrow> 't input_manager" where
  "clear_selection lib m =
     m\<lparr>im_selection_anchor := None, im_selection_copied := False, im_textarea := ta_cancel_selection lib (im_textarea m)\<rparr>"

definition set_textarea :: "'t \<Rightarrow> 't input_manager \<Rightarrow> 't input_manager" where
  "set_textarea t m = m\<lparr>im_textarea := t\<rparr>"

definition textarea_at_end :: "'t textarea_lib \<Rightarrow> rtext \<Rightarrow> 't" where
  "textarea_at_end lib content =
     ta_move_cursor lib MoveEnd (ta_move_cursor lib MoveBottom
       (configure_textarea lib (ta_from lib (split_nl content))))"

definition set_content :: "'t textarea_lib \<Rightarrow> rtext \<Rightarrow> 't input_manager \<Rightarrow> 't input_manager" where
  "set_content lib content m =
     refresh_content_cache lib (reset_history_navigation (clear_selection lib
       ((set_textarea (textarea_at_end lib content) m)\<lparr>im_compact_paste_range := None\<rparr>)))"

definition set_compact_paste_range :: "nat \<Rightarrow> nat \<Rightarrow> 't input_manager \<Rightarrow> 't input_manager" where
  "set_compact_paste_range start stop m = m\<lparr>im_compact_paste_range := Some (start, stop)\<rparr>"

definition track_range :: "nat \<Rightarrow> nat \<Rightarrow> nat \<Rightarrow> nat \<times> nat \<Rightarrow> (nat \<times> nat) option" where
  "track_range start stop replacement_len pasted =
     (if stop \<le> fst pasted then
        (let removed_len = stop - start in
         if removed_len \<le> replacement_len
         then (let delta = replacement_len - removed_len in Some (sat_add (fst pasted) delta, sat_add (snd pasted) delta))
         else (let delta = removed_len - replacement_len in Some (fst pasted - delta, snd pasted - delta)))
      else if snd pasted \<le> start then Some pasted
      else None)"

definition track_compact_paste_replace :: "nat \<Rightarrow> nat \<Rightarrow> nat \<Rightarrow> 't input_manager \<Rightarrow> 't input_manager" where
  "track_compact_paste_replace start stop replacement_len m =
     m\<lparr>im_compact_paste_range := Option.bind (im_compact_paste_range m) (track_range start stop replacement_len)\<rparr>"

definition im_cursor :: "'t textarea_lib \<Rightarrow> 't input_manager \<Rightarrow> nat" where
  "im_cursor lib m = (case ta_cursor lib (im_textarea m) of (row, col) \<Rightarrow> row_col_to_byte_offset (im_lines lib m) row col)"

definition u16_clamp :: "nat \<Rightarrow> nat" where
  "u16_clamp n = (if n < 2 ^ 16 then n else 2 ^ 16 - 1)"

definition set_textarea_cursor :: "'t textarea_lib \<Rightarrow> nat \<Rightarrow> nat \<Rightarrow> 't input_manager \<Rightarrow> 't input_manager" where
  "set_textarea_cursor lib row col m =
     set_textarea (ta_move_cursor lib (MoveJump (u16_clamp row) (u16_clamp col)) (im_textarea m)) m"

definition jump_to_offset :: "'t textarea_lib \<Rightarrow> nat \<Rightarrow> 't input_manager \<Rightarrow> 't input_manager option" where
  "jump_to_offset lib pos m =
     map_option (\<lambda>(row, col). set_textarea_cursor lib row col m) (byte_offset_to_row_col (im_lines lib m) pos)"

definition im_set_cursor :: "'t textarea_lib \<Rightarrow> nat \<Rightarrow> 't input_manager \<Rightarrow> 't input_manager option" where
  "im_set_cursor lib pos m = map_option (clear_selection lib) (jump_to_offset lib pos m)"

definition selection_range :: "'t textarea_lib \<Rightarrow> 't input_manager \<Rightarrow> (nat \<times> nat) option" where
  "selection_range lib m =
     do { anchor \<leftarrow> im_selection_anchor m;
          let cursor = im_cursor lib m;
          if anchor = cursor then None else Some (min anchor cursor, max anchor cursor) }"

definition set_cursor_with_selection :: "'t textarea_lib \<Rightarrow> nat \<Rightarrow> 't input_manager \<Rightarrow> 't input_manager option" where
  "set_cursor_with_selection lib pos m =
     (let previous = selection_range lib m;
          m' = (if im_selection_anchor m = None
                then m\<lparr>im_selection_anchor := Some (im_cursor lib m),
                       im_textarea := ta_start_selection lib (im_textarea m)\<rparr>
                else m)
      in map_option (\<lambda>m''. if selection_range lib m'' \<noteq> previous then m''\<lparr>im_selection_copied := False\<rparr> else m'')
           (jump_to_offset lib pos m'))"

text \<open>\<open>selected_text\<close> slices every line the range touches.\<close>

fun selected_lines :: "rtext list \<Rightarrow> nat \<Rightarrow> nat \<Rightarrow> nat \<Rightarrow> rtext option" where
  "selected_lines [] byte_pos start stop = Some []"
| "selected_lines (line # lines) byte_pos start stop =
     (let line_end = byte_pos + blen line in
      do { part \<leftarrow> (if start < line_end \<and> byte_pos < stop
                     then slice line (start - byte_pos) (min stop line_end - byte_pos) else Some []);
           if stop \<le> line_end then Some part
           else do { rest \<leftarrow> selected_lines lines (line_end + 1) start stop;
                     Some (part @ (if start \<le> line_end \<and> line_end < stop then nl # rest else rest)) } })"

definition selected_text :: "'t textarea_lib \<Rightarrow> 't input_manager \<Rightarrow> rtext option option" where
  "selected_text lib m =
     (case selection_range lib m of
        None \<Rightarrow> Some None
      | Some (start, stop) \<Rightarrow> map_option Some (selected_lines (im_lines lib m) 0 start stop))"

definition copy_selected_text_to_clipboard ::
  "'t textarea_lib \<Rightarrow> (rtext \<Rightarrow> bool) \<Rightarrow> 't input_manager \<Rightarrow> (bool \<times> 't input_manager) option" where
  "copy_selected_text_to_clipboard lib copy m =
     map_option (\<lambda>selected. case selected of None \<Rightarrow> (False, m) | Some text \<Rightarrow> (copy text, m\<lparr>im_selection_copied := True\<rparr>))
       (selected_text lib m)"

definition selection_needs_copy :: "'t textarea_lib \<Rightarrow> 't input_manager \<Rightarrow> bool" where
  "selection_needs_copy lib m \<longleftrightarrow> selection_range lib m \<noteq> None \<and> \<not> im_selection_copied m"

section \<open>Editing\<close>

text \<open>\<open>insert_parts head parts tail\<close> are the lines that replace the line or lines a replacement touches.\<close>

definition insert_parts :: "rtext \<Rightarrow> rtext list \<Rightarrow> rtext \<Rightarrow> rtext list" where
  "insert_parts head parts tail =
     (if length parts \<le> 1 then [head @ hd parts @ tail]
      else (head @ hd parts) # butlast (tl parts) @ [last parts @ tail])"

text \<open>The two loops over the lines, for a range inside one line and for a range across lines.\<close>

definition replace_in_line :: "rtext list \<Rightarrow> nat \<Rightarrow> rtext list \<Rightarrow> rtext list" where
  "replace_in_line lines row new = concat (map (\<lambda>(i, line). if i = row then new else [line]) (enumerate 0 lines))"

definition replace_across :: "rtext list \<Rightarrow> nat \<Rightarrow> nat \<Rightarrow> rtext list \<Rightarrow> rtext list" where
  "replace_across lines start_line end_line new =
     concat (map (\<lambda>(i, line). if i < start_line then [line] else if i = start_line then new
                            else if end_line < i then [line] else []) (enumerate 0 lines))"

definition replaced_lines :: "rtext list \<Rightarrow> nat \<Rightarrow> nat \<Rightarrow> rtext \<Rightarrow> rtext list option" where
  "replaced_lines lines start stop replacement =
     do { (start_line, start_col) \<leftarrow> byte_offset_to_row_col lines start;
          (end_line, end_col) \<leftarrow> byte_offset_to_row_col lines stop;
          if start_line < length lines \<and> end_line < length lines then
            do { head \<leftarrow> slice_to (lines ! start_line) (char_col_to_byte_offset (lines ! start_line) start_col);
                 tail \<leftarrow> slice_from (lines ! end_line) (char_col_to_byte_offset (lines ! end_line) end_col);
                 let new = insert_parts head (split_nl replacement) tail;
                 Some (if start_line = end_line then replace_in_line lines start_line new
                       else replace_across lines start_line end_line new) }
          else None }"

definition im_replace_range :: "'t textarea_lib \<Rightarrow> nat \<Rightarrow> nat \<Rightarrow> rtext \<Rightarrow> 't input_manager \<Rightarrow> 't input_manager option" where
  "im_replace_range lib start stop replacement m =
     do { lines \<leftarrow> replaced_lines (im_lines lib m) start stop replacement;
          let m' = set_textarea (configure_textarea lib (ta_from lib lines))
                     (track_compact_paste_replace start stop (blen replacement) m);
          map_option (refresh_content_cache lib) (im_set_cursor lib (start + blen replacement) m') }"

definition delete_selection :: "'t textarea_lib \<Rightarrow> 't input_manager \<Rightarrow> (bool \<times> 't input_manager) option" where
  "delete_selection lib m =
     (case selection_range lib m of
        None \<Rightarrow> Some (False, m)
      | Some (start, stop) \<Rightarrow> map_option (Pair True) (im_replace_range lib start stop [] m))"

definition or_selection ::
  "'t textarea_lib \<Rightarrow> ('t input_manager \<Rightarrow> 't input_manager option) \<Rightarrow> 't input_manager \<Rightarrow> 't input_manager option" where
  "or_selection lib f m = do { (deleted, m') \<leftarrow> delete_selection lib m; if deleted then Some m' else f m' }"

definition move_cursor_left :: "'t textarea_lib \<Rightarrow> 't input_manager \<Rightarrow> 't input_manager option" where
  "move_cursor_left lib m =
     (case selection_range lib m of
        Some (start, _) \<Rightarrow> im_set_cursor lib start m
      | None \<Rightarrow> Some (set_textarea (ta_move_cursor lib MoveBack (ta_cancel_selection lib (im_textarea m))) m))"

definition move_cursor_right :: "'t textarea_lib \<Rightarrow> 't input_manager \<Rightarrow> 't input_manager option" where
  "move_cursor_right lib m =
     (case selection_range lib m of
        Some (_, stop) \<Rightarrow> im_set_cursor lib stop m
      | None \<Rightarrow> Some (set_textarea (ta_move_cursor lib MoveForward (ta_cancel_selection lib (im_textarea m))) m))"

definition move_cursor_to_start :: "'t textarea_lib \<Rightarrow> 't input_manager \<Rightarrow> 't input_manager" where
  "move_cursor_to_start lib m = clear_selection lib (set_textarea_cursor lib 0 0 m)"

definition move_cursor_to_end :: "'t textarea_lib \<Rightarrow> 't input_manager \<Rightarrow> 't input_manager" where
  "move_cursor_to_end lib m =
     (let lines = im_lines lib m in
      clear_selection lib
        (set_textarea_cursor lib (length lines - 1) (if lines = [] then 0 else length (last lines)) m))"

definition cursor_row :: "'t textarea_lib \<Rightarrow> 't input_manager \<Rightarrow> nat" where
  "cursor_row lib m = fst (ta_cursor lib (im_textarea m))"

definition line_count :: "'t textarea_lib \<Rightarrow> 't input_manager \<Rightarrow> nat" where
  "line_count lib m = max (length (im_lines lib m)) 1"

definition is_single_line :: "'t textarea_lib \<Rightarrow> 't input_manager \<Rightarrow> bool" where
  "is_single_line lib m \<longleftrightarrow> line_count lib m \<le> 1"

definition current_line_byte_range :: "'t textarea_lib \<Rightarrow> 't input_manager \<Rightarrow> nat \<times> nat" where
  "current_line_byte_range lib m =
     (let lines = im_lines lib m in
      if lines = [] then (0, 0)
      else (let row = min (cursor_row lib m) (length lines - 1);
                start = foldl (\<lambda>n line. n + blen line + 1) 0 (take row lines);
                stop = start + (if row < length lines then blen (lines ! row) else 0);
                content_len = blen (im_content_cache m)
            in (min start content_len, min stop content_len)))"

definition move_cursor_to_start_of_line :: "'t textarea_lib \<Rightarrow> 't input_manager \<Rightarrow> 't input_manager option" where
  "move_cursor_to_start_of_line lib m = im_set_cursor lib (fst (current_line_byte_range lib m)) m"

definition move_cursor_to_end_of_line :: "'t textarea_lib \<Rightarrow> 't input_manager \<Rightarrow> 't input_manager option" where
  "move_cursor_to_end_of_line lib m = im_set_cursor lib (snd (current_line_byte_range lib m)) m"

definition move_by_row :: "'t textarea_lib \<Rightarrow> cursor_move \<Rightarrow> 't input_manager \<Rightarrow> 't input_manager" where
  "move_by_row lib direction m =
     clear_selection lib (set_textarea (ta_move_cursor lib direction (ta_cancel_selection lib (im_textarea m))) m)"

definition move_cursor_up :: "'t textarea_lib \<Rightarrow> 't input_manager \<Rightarrow> bool \<times> 't input_manager" where
  "move_cursor_up lib m = (if cursor_row lib m = 0 then (False, m) else (True, move_by_row lib MoveUp m))"

definition move_cursor_down :: "'t textarea_lib \<Rightarrow> 't input_manager \<Rightarrow> bool \<times> 't input_manager" where
  "move_cursor_down lib m =
     (if line_count lib m \<le> cursor_row lib m + 1 then (False, m) else (True, move_by_row lib MoveDown m))"

definition im_insert_char :: "'t textarea_lib \<Rightarrow> rchar \<Rightarrow> 't input_manager \<Rightarrow> 't input_manager option" where
  "im_insert_char lib ch m =
     map_option (refresh_content_cache lib)
       (case selection_range lib m of
          Some (start, stop) \<Rightarrow> im_replace_range lib start stop [ch] m
        | None \<Rightarrow>
            (let cursor = im_cursor lib m;
                 m' = track_compact_paste_replace cursor cursor (len_utf8 ch) m
             in Some (set_textarea (ta_insert_char lib ch (im_textarea m')) m')))"

definition im_insert_text :: "'t textarea_lib \<Rightarrow> rtext \<Rightarrow> 't input_manager \<Rightarrow> 't input_manager option" where
  "im_insert_text lib text m =
     map_option (refresh_content_cache lib)
       (case selection_range lib m of
          Some (start, stop) \<Rightarrow> im_replace_range lib start stop text m
        | None \<Rightarrow>
            (let cursor = im_cursor lib m;
                 m' = track_compact_paste_replace cursor cursor (blen text) m
             in Some (set_textarea (ta_insert_str lib text (im_textarea m')) m')))"

definition backspace :: "'t textarea_lib \<Rightarrow> 't input_manager \<Rightarrow> 't input_manager option" where
  "backspace lib = or_selection lib (\<lambda>m.
     (let cursor = im_cursor lib m in
      do { m' \<leftarrow> (if 0 < cursor
                   then do { before \<leftarrow> slice_to (im_content_cache m) cursor;
                             let start = (if before = [] then 0 else blen (butlast before));
                             Some (track_compact_paste_replace start cursor 0 m) }
                   else Some m);
           Some (refresh_content_cache lib (set_textarea (ta_delete_char lib (im_textarea m')) m')) }))"

definition im_delete :: "'t textarea_lib \<Rightarrow> 't input_manager \<Rightarrow> 't input_manager option" where
  "im_delete lib = or_selection lib (\<lambda>m.
     (let cursor = im_cursor lib m; content = im_content_cache m in
      do { m' \<leftarrow> (if cursor < blen content
                   then do { after \<leftarrow> slice_from content cursor;
                             let stop = (case nth_offset after 1 of None \<Rightarrow> blen content | Some idx \<Rightarrow> cursor + idx);
                             Some (track_compact_paste_replace cursor stop 0 m) }
                   else Some m);
           Some (refresh_content_cache lib (set_textarea (ta_delete_next_char lib (im_textarea m')) m')) }))"

definition delete_word_forward :: "'t textarea_lib \<Rightarrow> 't input_manager \<Rightarrow> 't input_manager option" where
  "delete_word_forward lib = or_selection lib (\<lambda>m.
     (let prefix_len = im_cursor lib m;
          before_len = blen (im_content_cache m);
          m' = refresh_content_cache lib (set_textarea (ta_delete_next_word lib (im_textarea m)) m);
          after_len = blen (im_content_cache m')
      in Some (if after_len < before_len
               then track_compact_paste_replace prefix_len (prefix_len + (before_len - after_len)) 0 m' else m')))"

definition delete_whitespace_around_cursor :: "'t textarea_lib \<Rightarrow> 't input_manager \<Rightarrow> 't input_manager option" where
  "delete_whitespace_around_cursor lib m =
     (let content = im_content_cache m; cursor = im_cursor lib m in
      if content = [] \<or> blen content \<le> cursor then Some m
      else do { before \<leftarrow> slice_to content cursor;
                after \<leftarrow> slice_from content cursor;
                let new_before = rtrim_end before;
                let new_after = rtrim_start after;
                let removed_before = blen before - blen new_before;
                let removed_after = blen after - blen new_after;
                if removed_before = 0 \<and> removed_after = 0 then Some m
                else im_set_cursor lib (cursor - removed_before) (set_content lib (new_before @ new_after) m) })"

section \<open>Words\<close>

text \<open>The loops of the word commands walk character indices; \<open>alnum\<close> is the table behind \<open>char::is_alphanumeric\<close>.\<close>

fun back_while :: "(rchar \<Rightarrow> bool) \<Rightarrow> rtext \<Rightarrow> nat \<Rightarrow> nat" where
  "back_while P chars 0 = 0"
| "back_while P chars (Suc i) = (if P (chars ! i) then back_while P chars i else Suc i)"

function forward_while :: "(rchar \<Rightarrow> bool) \<Rightarrow> rtext \<Rightarrow> nat \<Rightarrow> nat" where
  "forward_while P chars i = (if i < length chars \<and> P (chars ! i) then forward_while P chars (i + 1) else i)"
  by pat_completeness auto
termination by (relation "measure (\<lambda>(P, chars, i). length chars - i)") auto

declare forward_while.simps [simp del]

definition swap_chars :: "rtext \<Rightarrow> nat \<Rightarrow> nat \<Rightarrow> rtext" where
  "swap_chars chars i j = chars[i := chars ! j, j := chars ! i]"

definition transpose_chars :: "'t textarea_lib \<Rightarrow> 't input_manager \<Rightarrow> 't input_manager option" where
  "transpose_chars lib m =
     (let chars = im_content_cache m; cursor = im_cursor lib m in
      if blen chars < 2 then Some m
      else do { before \<leftarrow> slice_to chars cursor;
                let char_pos = length before;
                if char_pos = 0 then
                  (if length chars < 2 then None
                   else let new = swap_chars chars 0 1 in
                        im_set_cursor lib (len_utf8 (hd new)) (set_content lib new m))
                else if length chars \<le> char_pos then
                  (if length chars < 2 then None
                   else Some (set_content lib (swap_chars chars (length chars - 2) (length chars - 1)) m))
                else
                  (let new = swap_chars chars (char_pos - 1) char_pos;
                       new_cursor = (case nth_offset new char_pos of
                                       None \<Rightarrow> blen new | Some idx \<Rightarrow> idx + len_utf8 (new ! char_pos))
                   in im_set_cursor lib new_cursor (set_content lib new m)) })"

definition transpose_words :: "'t textarea_lib \<Rightarrow> (rchar \<Rightarrow> bool) \<Rightarrow> 't input_manager \<Rightarrow> 't input_manager option" where
  "transpose_words lib alnum m =
     (let chars = im_content_cache m; cursor = im_cursor lib m in
      if chars = [] then Some m
      else do { before \<leftarrow> slice_to chars cursor;
                let char_pos = length before;
                let word_start = back_while alnum chars char_pos;
                let word_end = forward_while alnum chars char_pos;
                let prev_start = back_while alnum chars (back_while (\<lambda>c. \<not> alnum c) chars word_start);
                let prev_end = forward_while alnum chars prev_start;
                if word_start \<le> prev_start \<or> word_start \<le> prev_end then Some m
                else
                  (let prev_word = take (prev_end - prev_start) (drop prev_start chars);
                       curr_word = take (word_end - word_start) (drop word_start chars);
                       between = take (word_start - prev_end) (drop prev_end chars);
                       new = take prev_start chars @ curr_word @ between @ prev_word @ drop word_end chars
                   in im_set_cursor lib cursor (set_content lib new m)) })"

definition transform_word ::
  "'t textarea_lib \<Rightarrow> (rchar \<Rightarrow> bool) \<Rightarrow> (rtext \<Rightarrow> rtext) \<Rightarrow> 't input_manager \<Rightarrow> 't input_manager option" where
  "transform_word lib alnum transform m =
     (let chars = im_content_cache m; cursor = im_cursor lib m in
      if chars = [] then Some m
      else do { before \<leftarrow> slice_to chars cursor;
                let word_start = back_while alnum chars (length before);
                let word_end = forward_while alnum chars word_start;
                if word_start = word_end then Some m
                else
                  (let word = take (word_end - word_start) (drop word_start chars);
                       byte_start = sum_list (map len_utf8 (take word_start chars));
                       byte_end = byte_start + sum_list (map len_utf8 word)
                   in do { left \<leftarrow> slice_to chars byte_start;
                           right \<leftarrow> slice_from chars byte_end;
                           im_set_cursor lib cursor (set_content lib (left @ transform word @ right) m) }) })"

text \<open>The case tables of the standard library: \<open>str::to_uppercase\<close>, \<open>str::to_lowercase\<close> and the methods on characters.\<close>

record case_tables =
  str_upper :: "rtext \<Rightarrow> rtext"
  str_lower :: "rtext \<Rightarrow> rtext"
  char_upper :: "rchar \<Rightarrow> rtext"
  char_lower :: "rchar \<Rightarrow> rtext"

definition capitalize :: "case_tables \<Rightarrow> rtext \<Rightarrow> rtext" where
  "capitalize tables s = (case s of [] \<Rightarrow> [] | c # rest \<Rightarrow> char_upper tables c @ concat (map (char_lower tables) rest))"

definition uppercase_word where "uppercase_word lib alnum tables = transform_word lib alnum (str_upper tables)"
definition lowercase_word where "lowercase_word lib alnum tables = transform_word lib alnum (str_lower tables)"
definition capitalize_word where "capitalize_word lib alnum tables = transform_word lib alnum (capitalize tables)"

definition im_clear :: "'t textarea_lib \<Rightarrow> 't input_manager \<Rightarrow> 't input_manager" where
  "im_clear lib m =
     refresh_content_cache lib (reset_history_navigation
       ((clear_selection lib (set_textarea (configure_textarea lib (ta_default lib)) m))
          \<lparr>im_attachments := [], im_attachment_placeholders := [], im_compact_paste_range := None\<rparr>))"

definition after_undo :: "'t textarea_lib \<Rightarrow> bool \<times> 't \<Rightarrow> 't input_manager \<Rightarrow> bool \<times> 't input_manager" where
  "after_undo lib result m =
     (let m' = set_textarea (snd result) m in
      (fst result, if fst result then refresh_content_cache lib (m'\<lparr>im_compact_paste_range := None\<rparr>) else m'))"

definition im_undo :: "'t textarea_lib \<Rightarrow> 't input_manager \<Rightarrow> bool \<times> 't input_manager" where
  "im_undo lib m = after_undo lib (ta_undo lib (im_textarea m)) m"

definition im_redo :: "'t textarea_lib \<Rightarrow> 't input_manager \<Rightarrow> bool \<times> 't input_manager" where
  "im_redo lib m = after_undo lib (ta_redo lib (im_textarea m)) m"

section \<open>Attachments\<close>

definition digit_char :: "rchar \<Rightarrow> bool" where
  "digit_char c \<longleftrightarrow> 48 \<le> c \<and> c \<le> 57"

definition image_marker :: rtext where
  "image_marker = map asc ''[Image #''"

definition close_bracket :: rchar where
  "close_bracket = 93"

function decimal :: "nat \<Rightarrow> rtext" where
  "decimal n = (if n < 10 then [48 + n] else decimal (n div 10) @ [48 + n mod 10])"
  by pat_completeness auto
termination by (relation "measure id") auto

declare decimal.simps [simp del]

definition parse_usize :: "rtext \<Rightarrow> nat option" where
  "parse_usize digits =
     (let n = foldl (\<lambda>acc d. 10 * acc + (d - 48)) 0 digits in if n \<le> usize_max then Some n else None)"

definition image_attachment_placeholder :: "nat \<Rightarrow> rtext" where
  "image_attachment_placeholder number = image_marker @ decimal number @ [close_bracket]"

text \<open>\<open>str::find\<close> of a marker: the text that follows its first occurrence.\<close>

fun find_after :: "rtext \<Rightarrow> rtext \<Rightarrow> rtext option" where
  "find_after marker [] = (if marker = [] then Some [] else None)"
| "find_after marker (c # s) =
     (if prefix marker (c # s) then Some (drop (length marker) (c # s)) else find_after marker s)"

lemma find_after_shorter: "find_after marker s = Some rest \<Longrightarrow> marker \<noteq> [] \<Longrightarrow> length rest < length s"
proof (induction marker s rule: find_after.induct)
  case (2 marker c s)
  then show ?case by (cases "prefix marker (c # s)") (auto simp: Cons_prefix_Cons neq_Nil_conv)
qed simp

function image_attachment_placeholders :: "rtext \<Rightarrow> (nat \<times> rtext) list" where
  "image_attachment_placeholders content =
     (case find_after image_marker content of
        None \<Rightarrow> []
      | Some rest \<Rightarrow>
          (let digits = takeWhile digit_char rest; after = drop (length digits) rest in
           if digits \<noteq> [] \<and> after \<noteq> [] \<and> hd after = close_bracket
           then (case parse_usize digits of
                   Some number \<Rightarrow> if 0 < number then [(number, image_marker @ digits @ [close_bracket])] else []
                 | None \<Rightarrow> [])
                @ image_attachment_placeholders (tl after)
           else image_attachment_placeholders rest))"
  by pat_completeness auto
termination
proof (relation "measure length", goal_cases)
  case (2 content rest digits after)
  then have "length rest < length content" by (auto intro: find_after_shorter simp: image_marker_def)
  with 2 show ?case by auto
next
  case (3 content rest digits after)
  then show ?case by (auto intro: find_after_shorter simp: image_marker_def)
qed simp

declare image_attachment_placeholders.simps [simp del]

fun dedup_by_number :: "(nat \<times> rtext) list \<Rightarrow> (nat \<times> rtext) list" where
  "dedup_by_number [] = []"
| "dedup_by_number [x] = [x]"
| "dedup_by_number (x # y # xs) = (if fst x = fst y then dedup_by_number (x # xs) else x # dedup_by_number (y # xs))"

definition attachment_placeholders_for_content :: "rtext \<Rightarrow> nat \<Rightarrow> rtext option list" where
  "attachment_placeholders_for_content content attachment_count =
     (let placeholders = image_attachment_placeholders content;
          visible = dedup_by_number (sort_key fst placeholders)
      in if attachment_count \<le> length visible
         then map (\<lambda>(_, placeholder). Some placeholder) (take attachment_count visible)
         else map (\<lambda>index.
                case find (\<lambda>(number, _). number = index + 1) placeholders of
                  Some (_, placeholder) \<Rightarrow> Some placeholder
                | None \<Rightarrow> if attachment_count = 1 \<and> length placeholders = 1 then Some (snd (hd placeholders)) else None)
              [0..<attachment_count])"

definition set_attachments :: "content_part list \<Rightarrow> 't input_manager \<Rightarrow> 't input_manager" where
  "set_attachments attachments m =
     (let images = filter is_image attachments in
      m\<lparr>im_attachments := images,
        im_attachment_placeholders := attachment_placeholders_for_content (im_content_cache m) (length images)\<rparr>)"

definition max_number :: "(nat \<times> rtext) list \<Rightarrow> nat" where
  "max_number placeholders = fold (\<lambda>(number, _). max number) placeholders 0"

definition next_image_attachment_placeholder_number :: "'t input_manager \<Rightarrow> nat" where
  "next_image_attachment_placeholder_number m =
     (let visible_max = max_number (image_attachment_placeholders (im_content_cache m));
          tracked_max = max_number (concat (map (case_option [] image_attachment_placeholders) (im_attachment_placeholders m)))
      in sat_add (max (max visible_max tracked_max) (length (im_attachments m))) 1)"

definition push_attachment :: "content_part \<Rightarrow> 't input_manager \<Rightarrow> nat option \<times> 't input_manager" where
  "push_attachment attachment m =
     (if is_image attachment then
        (let number = next_image_attachment_placeholder_number m in
         (Some number,
          m\<lparr>im_attachments := im_attachments m @ [attachment],
            im_attachment_placeholders := im_attachment_placeholders m @ [Some (image_attachment_placeholder number)]\<rparr>))
      else (None, m))"

definition keeps_attachment :: "rtext \<Rightarrow> rtext option list \<Rightarrow> nat \<times> content_part \<Rightarrow> bool" where
  "keeps_attachment content placeholders = (\<lambda>(index, attachment).
     if \<not> is_image attachment then True
     else if index < length placeholders
     then (case placeholders ! index of None \<Rightarrow> True | Some placeholder \<Rightarrow> contains_text content placeholder)
     else True)"

definition attachments_for_content :: "rtext \<Rightarrow> 't input_manager \<Rightarrow> content_part list" where
  "attachments_for_content content m =
     map snd (filter (keeps_attachment content (im_attachment_placeholders m)) (enumerate 0 (im_attachments m)))"

section \<open>History\<close>

definition current_history_entry :: "int \<Rightarrow> 't input_manager \<Rightarrow> history_entry" where
  "current_history_entry now m =
     from_content_and_attachments now (im_content_cache m) (attachments_for_content (im_content_cache m) m)"

definition add_to_history :: "history_entry \<Rightarrow> 't input_manager \<Rightarrow> 't input_manager" where
  "add_to_history entry m =
     (let history = im_history m;
          repeated = history \<noteq> [] \<and> he_content (last history) = he_content entry
                     \<and> he_elements (last history) = he_elements entry
      in reset_history_navigation
           (if entry_is_empty entry \<or> repeated then m else m\<lparr>im_history := history @ [entry]\<rparr>))"

fun unseen_entries :: "rtext list \<Rightarrow> history_entry list \<Rightarrow> history_entry list" where
  "unseen_entries seen [] = []"
| "unseen_entries seen (entry # entries) =
     (if entry_is_empty entry \<or> he_content entry \<in> set seen then unseen_entries seen entries
      else entry # unseen_entries (he_content entry # seen) entries)"

definition prepend_archived_history :: "history_entry list \<Rightarrow> 't input_manager \<Rightarrow> 't input_manager" where
  "prepend_archived_history entries m =
     (let to_prepend = unseen_entries (map he_content (im_history m)) entries in
      if to_prepend = [] then m
      else reset_history_navigation
        (m\<lparr>im_history := fold (#) to_prepend (im_history m),
           im_archived_count := im_archived_count m + length to_prepend\<rparr>))"

definition history_get :: "'t input_manager \<Rightarrow> nat \<Rightarrow> history_entry option" where
  "history_get m i = (if i < length (im_history m) then Some (im_history m ! i) else None)"

definition take_draft :: "'t input_manager \<Rightarrow> history_entry option \<times> 't input_manager" where
  "take_draft m = (im_history_draft m, m\<lparr>im_history_index := None, im_history_draft := None\<rparr>)"

definition go_to_next_history :: "'t input_manager \<Rightarrow> history_entry option \<times> 't input_manager" where
  "go_to_next_history m =
     (case im_history_index m of
        None \<Rightarrow> (None, m)
      | Some i \<Rightarrow>
          if i < im_archived_count m then take_draft m
          else if i = 0 then take_draft m
          else (history_get m (i - 1), m\<lparr>im_history_index := Some (i - 1)\<rparr>))"

definition show_entry :: "nat \<Rightarrow> 't input_manager \<Rightarrow> history_entry option \<times> 't input_manager" where
  "show_entry i m =
     (if i < length (im_history m) then (history_get m i, m\<lparr>im_history_index := Some i\<rparr>) else (None, m))"

definition go_to_previous_history :: "int \<Rightarrow> 't input_manager \<Rightarrow> history_entry option \<times> 't input_manager" where
  "go_to_previous_history now m =
     (case im_history_index m of
        None \<Rightarrow> show_entry (length (im_history m) - 1) (m\<lparr>im_history_draft := Some (current_history_entry now m)\<rparr>)
      | Some i \<Rightarrow> if i = 0 then (None, m) else show_entry (i - 1) m)"

definition apply_history_entry :: "'t textarea_lib \<Rightarrow> history_entry \<Rightarrow> 't input_manager \<Rightarrow> 't input_manager" where
  "apply_history_entry lib entry m =
     (let images = attachment_elements entry in
      refresh_content_cache lib
        ((clear_selection lib (set_textarea (textarea_at_end lib (he_content entry)) m))
          \<lparr>im_attachments := images,
           im_attachment_placeholders := attachment_placeholders_for_content (he_content entry) (length images),
           im_compact_paste_range := None\<rparr>))"

definition apply_history_index :: "'t textarea_lib \<Rightarrow> nat \<Rightarrow> 't input_manager \<Rightarrow> bool \<times> 't input_manager" where
  "apply_history_index lib index m =
     (case history_get m index of None \<Rightarrow> (False, m) | Some entry \<Rightarrow> (True, apply_history_entry lib entry m))"

end
