(* ===== verification/Composer_Edits.thy ===== *)
theory Composer_Edits
  imports Input_Manager
begin

text \<open>
  The composer's editing commands (\<open>session/editing.rs\<close>) and the editor the Vim engine drives
  (\<open>session/vim/mod.rs\<close>), as operations on the input manager. The session's other fields (suggestions, header cache,
  dirty flag) are presentation and not modelled. The Unicode word segmentation is a third-party crate and a
  parameter, \<open>bounds\<close>.
\<close>

section \<open>The Vim editor of a session\<close>

definition session_editor :: "'t textarea_lib \<Rightarrow> 't input_manager editor_ops" where
  "session_editor lib =
     \<lparr>ed_content = im_content_cache,
      ed_cursor = im_cursor lib,
      ed_set_cursor = im_set_cursor lib,
      ed_move_left = move_cursor_left lib,
      ed_move_right = move_cursor_right lib,
      ed_delete_char_forward = im_delete lib,
      ed_insert_text = im_insert_text lib,
      ed_replace = (\<lambda>content cursor m. im_set_cursor lib cursor (set_content lib content m)),
      ed_replace_range = im_replace_range lib\<rparr>"

definition handle_vim_key ::
  "'t textarea_lib \<Rightarrow> (rchar \<Rightarrow> bool) \<Rightarrow> bool \<Rightarrow> key_event \<Rightarrow> 't input_manager vim_context
     \<Rightarrow> (bool \<times> 't input_manager vim_context) option" where
  "handle_vim_key lib alnum input_enabled key cx =
     (if \<not> vs_enabled (cx_state cx) \<or> \<not> input_enabled then Some (False, cx)
      else map_option (\<lambda>(outcome, cx').
             if \<not> ko_handled outcome then (False, cx')
             else (True, if ko_clear_selection outcome
                         then cx'\<lparr>cx_editor := clear_selection lib (cx_editor cx')\<rparr> else cx'))
           (handle_key (session_editor lib) alnum key cx))"

section \<open>Words\<close>

text \<open>The characters of \<open>WORD_SEPARATORS\<close>, by code.\<close>

definition word_separators :: rtext where
  "word_separators =
     [96, 126, 33, 64, 35, 36, 37, 94, 38, 42, 40, 41, 45, 61, 43, 91, 123, 93, 125, 92, 124, 59, 58, 39, 34, 44, 46, 60,
      62, 47, 63]"

definition is_word_separator :: "rchar \<Rightarrow> bool" where
  "is_word_separator ch \<longleftrightarrow> ch \<in> set word_separators"

definition is_separator_piece :: "rtext \<Rightarrow> bool" where
  "is_separator_piece piece = list_all is_word_separator piece"

text \<open>\<open>cut_segment\<close> splits a segment where separators and other characters meet; \<open>acc\<close> is the piece read so far.\<close>

fun cut_segment :: "nat \<Rightarrow> rtext \<Rightarrow> bool \<Rightarrow> rtext \<Rightarrow> (nat \<times> rtext) list" where
  "cut_segment start acc in_separator [] = [(start, acc)]"
| "cut_segment start acc in_separator (ch # chars) =
     (if is_word_separator ch = in_separator then cut_segment start (acc @ [ch]) in_separator chars
      else (start, acc) # cut_segment (start + blen acc) [ch] (is_word_separator ch) chars)"

definition split_word_pieces :: "(rtext \<Rightarrow> (nat \<times> rtext) list) \<Rightarrow> rtext \<Rightarrow> (nat \<times> rtext) list" where
  "split_word_pieces bounds run =
     concat (map (\<lambda>(segment_start, segment).
               case segment of [] \<Rightarrow> [] | c # chars \<Rightarrow> cut_segment segment_start [c] (is_word_separator c) chars)
            (bounds run))"

text \<open>A word is one piece, or a run of separator pieces.\<close>

definition leading_run :: "(nat \<times> rtext) list \<Rightarrow> (nat \<times> rtext) list" where
  "leading_run pieces =
     (case pieces of
        [] \<Rightarrow> []
      | p # ps \<Rightarrow> p # (if is_separator_piece (snd p) then takeWhile (is_separator_piece \<circ> snd) ps else []))"

definition previous_word_boundary :: "(rtext \<Rightarrow> (nat \<times> rtext) list) \<Rightarrow> rtext \<Rightarrow> nat \<Rightarrow> nat option" where
  "previous_word_boundary bounds content cursor =
     (if cursor = 0 then Some 0
      else do { before \<leftarrow> slice_to content cursor;
                case rfind_char (\<lambda>c. \<not> char_is_whitespace c) before of
                  None \<Rightarrow> Some 0
                | Some first_non_ws \<Rightarrow>
                    do { head \<leftarrow> slice_to before first_non_ws;
                         tail \<leftarrow> slice_from before first_non_ws;
                         let run_start = (case rfind_char char_is_whitespace head of
                                            None \<Rightarrow> 0
                                          | Some idx \<Rightarrow> idx + (case slice_from head idx of
                                                                Some (c # _) \<Rightarrow> len_utf8 c | _ \<Rightarrow> 0));
                         let run_end = first_non_ws + len_utf8 (first_or 0 tail);
                         run \<leftarrow> slice before run_start run_end;
                         let pieces = leading_run (rev (split_word_pieces bounds run));
                         Some (if pieces = [] then run_start else run_start + fst (last pieces)) } })"

definition next_word_boundary :: "(rtext \<Rightarrow> (nat \<times> rtext) list) \<Rightarrow> rtext \<Rightarrow> nat \<Rightarrow> nat option" where
  "next_word_boundary bounds content cursor =
     (if blen content \<le> cursor then Some (blen content)
      else do { suffix \<leftarrow> slice_from content cursor;
                case find_char (\<lambda>c. \<not> char_is_whitespace c) suffix of
                  None \<Rightarrow> Some (blen content)
                | Some first_non_ws \<Rightarrow>
                    do { tail \<leftarrow> slice_from suffix first_non_ws;
                         run \<leftarrow> slice_to tail (case find_char char_is_whitespace tail of None \<Rightarrow> blen tail | Some i \<Rightarrow> i);
                         let pieces = leading_run (split_word_pieces bounds run);
                         Some (if pieces = [] then cursor + first_non_ws
                               else cursor + first_non_ws + fst (last pieces) + blen (snd (last pieces))) } })"

section \<open>Typing and pasting\<close>

definition newline_count :: "rtext \<Rightarrow> nat" where
  "newline_count s = length (filter ((=) nl) s)"

definition INLINE_INPUT_MAX_LINES :: nat where "INLINE_INPUT_MAX_LINES = 10"
definition INLINE_PASTE_COLLAPSE_LINE_THRESHOLD :: nat where "INLINE_PASTE_COLLAPSE_LINE_THRESHOLD = 10"

definition remaining_newline_capacity :: "'t input_manager \<Rightarrow> nat option" where
  "remaining_newline_capacity m =
     (let content = im_content_cache m in
      do { count \<leftarrow> (case im_compact_paste_range m of
             Some (start, stop) \<Rightarrow>
               if stop \<le> blen content \<and> is_char_boundary content start \<and> is_char_boundary content stop
               then map_option (\<lambda>pasted. newline_count content - newline_count pasted) (slice content start stop)
               else Some (newline_count content)
           | None \<Rightarrow> Some (newline_count content));
           Some (INLINE_INPUT_MAX_LINES - 1 - count) })"

definition can_insert_newline :: "'t input_manager \<Rightarrow> bool option" where
  "can_insert_newline m = map_option ((<) 0) (remaining_newline_capacity m)"

definition composer_insert_char :: "'t textarea_lib \<Rightarrow> rchar \<Rightarrow> 't input_manager \<Rightarrow> 't input_manager option" where
  "composer_insert_char lib ch m =
     (if ch = 0x7f then Some m
      else if ch = nl then do { room \<leftarrow> can_insert_newline m; if room then im_insert_char lib ch m else Some m }
      else im_insert_char lib ch m)"

definition insert_paste_text :: "'t textarea_lib \<Rightarrow> rtext \<Rightarrow> 't input_manager \<Rightarrow> 't input_manager option" where
  "insert_paste_text lib text m =
     (let sanitized = filter (\<lambda>ch. ch \<noteq> 13 \<and> ch \<noteq> 0x7f) text in
      if sanitized = [] then Some m
      else (let paste_start = (case selection_range lib m of None \<Rightarrow> im_cursor lib m | Some (start, _) \<Rightarrow> start);
                paste_end = sat_add paste_start (blen sanitized);
                count = length (split_nl sanitized)
            in map_option (\<lambda>m'. if INLINE_PASTE_COLLAPSE_LINE_THRESHOLD \<le> count
                                 then set_compact_paste_range paste_start paste_end m' else m')
                 (im_insert_text lib sanitized m)))"

section \<open>Deleting\<close>

definition composer_delete_char :: "'t textarea_lib \<Rightarrow> 't input_manager \<Rightarrow> 't input_manager option" where
  "composer_delete_char lib m =
     (case im_compact_paste_range m of
        Some (start, stop) \<Rightarrow>
          if start < stop \<and> selection_range lib m = None \<and> im_cursor lib m = stop
             \<and> is_char_boundary (im_content_cache m) start \<and> is_char_boundary (im_content_cache m) stop
          then im_replace_range lib start stop [] m
          else backspace lib m
      | None \<Rightarrow> backspace lib m)"

definition delete_word_backward ::
  "'t textarea_lib \<Rightarrow> (rtext \<Rightarrow> (nat \<times> rtext) list) \<Rightarrow> 't input_manager \<Rightarrow> 't input_manager option" where
  "delete_word_backward lib bounds = or_selection lib (\<lambda>m.
     (let cursor = im_cursor lib m in
      if cursor = 0 then Some m
      else do { delete_start \<leftarrow> previous_word_boundary bounds (im_content_cache m) cursor;
                if delete_start < cursor
                then Option.bind (im_replace_range lib delete_start cursor [] m) (im_set_cursor lib delete_start)
                else Some m }))"

definition delete_to_end_of_line :: "'t textarea_lib \<Rightarrow> 't input_manager \<Rightarrow> 't input_manager option" where
  "delete_to_end_of_line lib = or_selection lib (\<lambda>m.
     (let cursor = im_cursor lib m in
      do { rest \<leftarrow> slice_from (im_content_cache m) cursor;
           let delete_len = (case find_char ((=) nl) rest of Some newline_pos \<Rightarrow> newline_pos | None \<Rightarrow> blen rest);
           if 0 < delete_len then im_replace_range lib cursor (cursor + delete_len) [] m else Some m }))"

definition with_pasted_block :: "'t input_manager \<Rightarrow> nat \<Rightarrow> nat \<times> nat \<Rightarrow> nat \<times> nat" where
  "with_pasted_block m cursor line =
     (case im_compact_paste_range m of
        Some (start, stop) \<Rightarrow>
          (let content_len = blen (im_content_cache m);
               range_start = min start content_len;
               range_end = min stop content_len
           in if start < stop \<and> range_start < range_end
                 \<and> (range_start < snd line \<and> fst line < range_end \<or> range_start \<le> cursor \<and> cursor \<le> range_end)
              then (min (fst line) range_start, max (snd line) range_end) else line)
      | None \<Rightarrow> line)"

definition clear_current_line_or_all :: "'t textarea_lib \<Rightarrow> 't input_manager \<Rightarrow> 't input_manager option" where
  "clear_current_line_or_all lib = or_selection lib (\<lambda>m.
     (let content = im_content_cache m; content_len = blen content in
      if content_len = 0 then Some m
      else if is_single_line lib m then Some (im_clear lib m)
      else (let cursor = min (im_cursor lib m) content_len;
                (line_start, line_end) = current_line_byte_range lib m;
                (clear_start, clear_end) =
                  with_pasted_block m cursor (min line_start content_len, min line_end content_len);
                clear_start = back_to_boundary content clear_start;
                clear_end = skip_to_boundary content clear_end
            in if clear_end \<le> clear_start then Some m
               else Option.bind (im_replace_range lib clear_start clear_end [] m) (im_set_cursor lib clear_start))))"

section \<open>Selecting and history\<close>

definition select_left :: "'t textarea_lib \<Rightarrow> 't input_manager \<Rightarrow> 't input_manager option" where
  "select_left lib m = set_cursor_with_selection lib (prev_char_boundary (im_content_cache m) (im_cursor lib m)) m"

definition select_right :: "'t textarea_lib \<Rightarrow> 't input_manager \<Rightarrow> 't input_manager option" where
  "select_right lib m = set_cursor_with_selection lib (next_char_boundary (im_content_cache m) (im_cursor lib m)) m"

definition select_to_start where "select_to_start lib m = set_cursor_with_selection lib 0 m"
definition select_to_end where "select_to_end lib m = set_cursor_with_selection lib (blen (im_content_cache m)) m"

definition select_to_start_of_line where
  "select_to_start_of_line lib m = set_cursor_with_selection lib (fst (current_line_byte_range lib m)) m"

definition select_to_end_of_line where
  "select_to_end_of_line lib m = set_cursor_with_selection lib (snd (current_line_byte_range lib m)) m"

definition move_left_word ::
  "'t textarea_lib \<Rightarrow> (rtext \<Rightarrow> (nat \<times> rtext) list) \<Rightarrow> 't input_manager \<Rightarrow> 't input_manager option" where
  "move_left_word lib bounds m =
     Option.bind (previous_word_boundary bounds (im_content_cache m) (im_cursor lib m)) (\<lambda>pos. im_set_cursor lib pos m)"

definition move_right_word ::
  "'t textarea_lib \<Rightarrow> (rtext \<Rightarrow> (nat \<times> rtext) list) \<Rightarrow> 't input_manager \<Rightarrow> 't input_manager option" where
  "move_right_word lib bounds m =
     Option.bind (next_word_boundary bounds (im_content_cache m) (im_cursor lib m)) (\<lambda>pos. im_set_cursor lib pos m)"

definition navigated :: "'t textarea_lib \<Rightarrow> history_entry option \<times> 't input_manager \<Rightarrow> bool \<times> 't input_manager" where
  "navigated lib result =
     (case fst result of
        Some entry \<Rightarrow> (True, apply_history_entry lib entry (snd result))
      | None \<Rightarrow> (False, snd result))"

definition navigate_history_previous :: "'t textarea_lib \<Rightarrow> int \<Rightarrow> 't input_manager \<Rightarrow> bool \<times> 't input_manager" where
  "navigate_history_previous lib now m = navigated lib (go_to_previous_history now m)"

definition navigate_history_next :: "'t textarea_lib \<Rightarrow> 't input_manager \<Rightarrow> bool \<times> 't input_manager" where
  "navigate_history_next lib m = navigated lib (go_to_next_history m)"

text \<open>The subtraction panics when the index has passed the end of the history.\<close>

definition history_position :: "'t input_manager \<Rightarrow> (nat \<times> nat) option option" where
  "history_position m =
     (case im_history_index m of
        None \<Rightarrow> Some None
      | Some idx \<Rightarrow> if length (im_history m) < idx then None
                    else Some (Some (length (im_history m) - idx, length (im_history m))))"

end
