(* ===== verification/Vim_Facts.thy ===== *)
theory Vim_Facts
  imports Vim_Engine
begin

text \<open>
  The contract between the Vim engine and the editor below it, as a locale, and what the engine promises to any
  editor that keeps it: no key panics outside the positions named, the cursor stays on a character
  boundary, and the effect of the commands on the text.
\<close>

section \<open>Columns\<close>

lemma column_offset_split [simp]:
  "column_offset (l @ m @ r) (blen l) (blen l + blen m) k = Some (blen (l @ take k m))"
proof -
  have "(case nth_offset m k of None \<Rightarrow> blen l + blen m - blen l | Some i \<Rightarrow> i) = blen (take k m)"
    using nth_offset_or [of m k] by (simp cong: option.case_cong)
  then show ?thesis by (simp add: column_offset_def)
qed

lemma column_offset_boundary: "part_of s (a, b) \<Longrightarrow> to_boundary s (column_offset s a b k)"
proof -
  assume "part_of s (a, b)"
  then obtain l m r where s: "s = l @ m @ r" "a = blen l" "b = blen l + blen m" by (auto simp: part_of_def)
  then have "s = (l @ take k m) @ drop k m @ r" by simp
  with s show ?thesis by (metis to_boundaryI column_offset_split)
qed

text \<open>Where a vertical motion leads: to the column in the line below or above, or nowhere.\<close>

definition target_below :: "nat \<Rightarrow> rtext \<Rightarrow> rtext \<Rightarrow> rtext" where
  "target_below k l r =
     (case after_line r of [] \<Rightarrow> l | _ # t \<Rightarrow> l @ line_rest r @ nl # take k (line_rest t))"

definition target_above :: "nat \<Rightarrow> rtext \<Rightarrow> rtext" where
  "target_above k l =
     (if before_line l = [] then l
      else before_line (butlast (before_line l)) @ take k (last_line (butlast (before_line l))))"

definition column_of :: "nat option \<Rightarrow> rtext \<Rightarrow> nat" where
  "column_of preferred l = (case preferred of Some k \<Rightarrow> k | None \<Rightarrow> length (last_line l))"

lemma below_prefix: "\<exists>t. l @ r = target_below k l r @ t"
proof (cases "after_line r")
  case (Cons c t)
  with after_line_cases [of r] have "c = nl" by auto
  with Cons have "l @ r = l @ line_rest r @ nl # t" by (metis line_split(2))
  also have "\<dots> = target_below k l r @ drop k (line_rest t) @ after_line t"
    using Cons by (simp add: target_below_def) (metis append_take_drop_id append_assoc line_split(2))
  finally show ?thesis by blast
qed (simp add: target_below_def)

lemma above_prefix: "\<exists>t. l = target_above k l @ t"
proof (cases "before_line l = []")
  case False
  let ?p = "butlast (before_line l)"
  have "l = ?p @ nl # last_line l"
    using before_line_cases [of l] False line_split(1) [of l] by (metis append.assoc append_Cons append_Nil butlast_snoc)
  also have "\<dots> = target_above k l @ drop k (last_line ?p) @ nl # last_line l"
    using False by (simp add: target_above_def) (metis append_take_drop_id append_assoc line_split(1))
  finally show ?thesis by blast
qed (simp add: target_above_def)

lemma move_vertical_split:
  assumes "cx_content ops cx = l @ r" "cx_cursor ops cx = blen l"
  shows "move_vertical ops down cx =
    (let k = column_of (vs_preferred_column (cx_state cx)) l
     in map_option (set_column (Some k)) (move_to ops (blen (if down then target_below k l r else target_above k l)) cx))"
proof -
  define k where "k = column_of (vs_preferred_column (cx_state cx)) l"
  have len: "blen l = blen (before_line l) + blen (last_line l)" by (simp add: blen_line_split)
  have "slice (before_line l @ last_line l @ r) (blen (before_line l)) (blen (before_line l) + blen (last_line l)) = Some (last_line l)"
    by (rule slice_mid)
  then have "slice (l @ r) (blen (before_line l)) (blen l) = Some (last_line l)"
    unfolding len [symmetric] by (metis append_assoc line_split(1))
  then have column: "char_column ops (blen (before_line l)) cx = Some k"
    using assms by (simp add: char_column_def k_def column_of_def split: option.split)
  show ?thesis
  proof (cases down)
    case True
    show ?thesis
    proof (cases "after_line r")
      case Nil
      then have "line_rest r = r" using line_split(2) [of r] by simp
      with Nil True assms column show ?thesis
        by (simp add: move_vertical_def Let_def target_below_def k_def [symmetric] bind_map_option map_conv_bind_option comp_def)
    next
      case (Cons c t)
      then have c: "after_line r = nl # t" using after_line_cases [of r] by auto
      let ?pre = "l @ line_rest r @ [nl]"
      have s: "l @ r = ?pre @ t" "l @ r = ?pre @ line_rest t @ after_line t"
        using c by (metis append.assoc append_Cons append_Nil line_split(2))+
      have "blen (line_rest r) < blen r" using c blen_line_split(2) [of r] by simp
      moreover have "slice_from (l @ r) (blen l + blen (line_rest r) + 1) = Some t"
        using slice_from_append [of ?pre t] s(1) by simp
      moreover have "(case find_char ((=) nl) t of Some i \<Rightarrow> Suc (blen l + blen (line_rest r)) + i | None \<Rightarrow> blen (l @ r))
          = blen ?pre + blen (line_rest t)"
        using find_nl [of "blen ?pre" t] arg_cong [OF s(1), of blen] by (simp add: add.assoc cong: option.case_cong)
      moreover have "column_offset (l @ r) (blen ?pre) (blen ?pre + blen (line_rest t)) k = Some (blen (target_below k l r))"
        unfolding s(2) by (subst column_offset_split) (simp add: target_below_def c)
      ultimately show ?thesis using True assms column
        by (simp add: move_vertical_def Let_def k_def [symmetric] map_conv_bind_option comp_def)
    qed
  next
    case False
    show ?thesis
    proof (cases "before_line l = []")
      case True
      with False assms column show ?thesis
        by (simp add: move_vertical_def Let_def target_above_def k_def [symmetric] map_conv_bind_option comp_def)
    next
      case up: False
      then obtain p where p: "before_line l = p @ [nl]" using before_line_cases by blast
      have s: "l @ r = p @ nl # last_line l @ r" using p line_split(1) [of l] by (metis append.assoc append_Cons append_Nil)
      have s': "l @ r = before_line p @ last_line p @ nl # last_line l @ r" unfolding s by (metis append_assoc line_split(1))
      have "slice_to (l @ r) (blen p) = Some p" unfolding s by simp
      moreover have "column_offset (l @ r) (blen (before_line p)) (blen p) k = Some (blen (target_above k l))"
        using column_offset_split [of "before_line p" "last_line p" "nl # last_line l @ r" k] p
        unfolding s' by (simp add: blen_line_split target_above_def)
      ultimately show ?thesis using False assms column p rfind_nl [of p]
        by (simp add: move_vertical_def Let_def k_def [symmetric] map_conv_bind_option comp_def)
    qed
  qed
qed

section \<open>Indentation\<close>

lemma concat_split_inclusive [simp]: "concat (split_inclusive s) = s"
proof (induction s)
  case (Cons c s)
  then show ?case by (cases "split_inclusive s") auto
qed simp

lemma split_inclusive_nonempty: "w \<in> set (split_inclusive s) \<Longrightarrow> w \<noteq> []"
  by (induction s arbitrary: w) (auto split: list.splits if_splits)

lemma indent_lines_final: "snd (indent_lines indent start stop n ws) = n + blen (concat ws)"
  by (induction ws arbitrary: n) (auto simp: Let_def split_beta)

lemma blen_dropWhile: "blen (dropWhile P s) \<le> blen s"
  by (induction s) auto

lemma blen_indent_segment: "w \<noteq> [] \<Longrightarrow> blen (indent_segment indent w) \<le> 5 * blen w"
proof -
  assume "w \<noteq> []"
  then have "1 \<le> blen w" by (simp add: Suc_leI)
  moreover have "blen (drop (length indent_text) w) \<le> blen w" by (metis append_take_drop_id blen_append le_add2)
  moreover have "blen indent_text = 4" by (simp add: indent_text_def)
  ultimately show ?thesis
    using blen_dropWhile [of "(=) space" w] by (simp add: indent_segment_def)
qed

lemma blen_indent_lines: "[] \<notin> set ws \<Longrightarrow> blen (fst (indent_lines indent start stop n ws)) \<le> 5 * blen (concat ws)"
proof (induction ws arbitrary: n)
  case (Cons w ws)
  then have "blen (indent_segment indent w) \<le> 5 * blen w" by (intro blen_indent_segment) auto
  moreover have "blen (fst (indent_lines indent start stop (n + blen w) ws)) \<le> 5 * blen (concat ws)"
    using Cons by simp
  ultimately show ?case by (simp add: Let_def split_beta)
qed simp

section \<open>The contract\<close>

text \<open>What holds between keys: the editor is in order and normal mode holds no capture. Insert mode may hold a capture
  whose start no longer matches the text, since the user edits the text in between.\<close>

definition engine_ok :: "('e \<Rightarrow> bool) \<Rightarrow> 'e vim_context \<Rightarrow> bool" where
  "engine_ok ok cx \<longleftrightarrow> ok (cx_editor cx)
     \<and> (vs_mode (cx_state cx) = ModeNormal \<longrightarrow> vs_insert_capture (cx_state cx) = None)"

text \<open>The key ends an insertion, and the slice that \<open>finish_insert_capture\<close> takes starts inside a character.\<close>

definition ends_insertion :: "key_event \<Rightarrow> 'e vim_context \<Rightarrow> bool" where
  "ends_insertion key cx \<longleftrightarrow> vs_enabled (cx_state cx) \<and> vs_mode (cx_state cx) = ModeInsert
     \<and> ke_code key = KeyEsc \<and> set (ke_modifiers key) \<inter> {ModControl, ModAlt, ModSuper} = {}"

definition stale_capture :: "'e editor_ops \<Rightarrow> 'e vim_context \<Rightarrow> bool" where
  "stale_capture ops cx \<longleftrightarrow> (case vs_insert_capture (cx_state cx) of
      None \<Rightarrow> False
    | Some c \<Rightarrow> ic_start c \<le> cx_cursor ops cx \<and> \<not> is_char_boundary (cx_content ops cx) (ic_start c))"

text \<open>An editor is \<open>ok\<close> as long as its text fits into \<open>cap\<close> bytes; it is \<open>plain\<close> when nothing is selected. Inserted text
  may be normalised unless it is \<open>insertable\<close>.\<close>

locale editor =
  fixes ops :: "'e editor_ops"
    and ok :: "'e \<Rightarrow> bool"
    and plain :: "'e \<Rightarrow> bool"
    and insertable :: "rtext \<Rightarrow> bool"
    and cap :: nat
  assumes cursor_law: "ok e \<Longrightarrow> is_char_boundary (ed_content ops e) (ed_cursor ops e)"
    and size_law: "ok e \<Longrightarrow> blen (ed_content ops e) \<le> cap"
    and set_cursor_law:
      "ok e \<Longrightarrow> is_char_boundary (ed_content ops e) p \<Longrightarrow>
         \<exists>e'. ed_set_cursor ops p e = Some e' \<and> ok e' \<and> plain e'
            \<and> ed_content ops e' = ed_content ops e \<and> ed_cursor ops e' = p"
    and left_law: "ok e \<Longrightarrow> \<exists>e'. ed_move_left ops e = Some e' \<and> ok e' \<and> ed_content ops e' = ed_content ops e"
    and right_law: "ok e \<Longrightarrow> \<exists>e'. ed_move_right ops e = Some e' \<and> ok e' \<and> ed_content ops e' = ed_content ops e"
    and delete_law: "ok e \<Longrightarrow> \<exists>e'. ed_delete_char_forward ops e = Some e' \<and> ok e'
         \<and> (\<forall>l c r. plain e \<and> ed_content ops e = l @ c # r \<and> ed_cursor ops e = blen l
              \<longrightarrow> ed_content ops e' = l @ r \<and> ed_cursor ops e' = blen l \<and> plain e')"
    and insert_law: "ok e \<Longrightarrow> blen (ed_content ops e) + blen t \<le> cap \<Longrightarrow>
         \<exists>e'. ed_insert_text ops t e = Some e' \<and> ok e'
            \<and> (\<forall>l r. plain e \<and> ed_content ops e = l @ r \<and> ed_cursor ops e = blen l
                 \<longrightarrow> (\<exists>t'. ed_content ops e' = l @ t' @ r \<and> ed_cursor ops e' = blen (l @ t') \<and> (insertable t \<longrightarrow> t' = t)))"
    and replace_law: "ok e \<Longrightarrow> blen c \<le> cap \<Longrightarrow>
         \<exists>e'. ed_replace ops c p e = Some e' \<and> ok e' \<and> plain e' \<and> ed_content ops e' = c
            \<and> (is_char_boundary c p \<longrightarrow> ed_cursor ops e' = p)"
    and replace_range_law: "ok e \<Longrightarrow> ed_content ops e = l @ m @ r \<Longrightarrow> blen (l @ t @ r) \<le> cap \<Longrightarrow>
         \<exists>e'. ed_replace_range ops (blen l) (blen l + blen m) t e = Some e' \<and> ok e' \<and> plain e'
            \<and> ed_content ops e' = l @ t @ r \<and> ed_cursor ops e' = blen (l @ t)"
begin

abbreviation "con \<equiv> cx_content ops"
abbreviation "cur \<equiv> cx_cursor ops"

text \<open>Between keys the engine is in normal mode without a capture, or in insert mode with a capture that starts on a
  character boundary.\<close>

definition normal :: "'e vim_context \<Rightarrow> bool" where
  "normal cx \<longleftrightarrow> ok (cx_editor cx) \<and> vs_mode (cx_state cx) = ModeNormal \<and> vs_insert_capture (cx_state cx) = None"

definition inserting :: "'e vim_context \<Rightarrow> bool" where
  "inserting cx \<longleftrightarrow> ok (cx_editor cx) \<and> vs_mode (cx_state cx) = ModeInsert
     \<and> (\<forall>c. vs_insert_capture (cx_state cx) = Some c \<longrightarrow> ic_start c \<le> cur cx \<longrightarrow> is_char_boundary (con cx) (ic_start c))"

definition wf :: "'e vim_context \<Rightarrow> bool" where
  "wf cx \<longleftrightarrow> normal cx \<or> inserting cx"

lemma normal_upd [simp]:
  "(\<And>s. vs_mode (f s) = vs_mode s \<and> vs_insert_capture (f s) = vs_insert_capture s) \<Longrightarrow> normal (upd f cx) = normal cx"
  by (simp add: normal_def upd_def)

lemma upd_simps [simp]: "con (upd f cx) = con cx" "cur (upd f cx) = cur cx" "cx_editor (upd f cx) = cx_editor cx"
  "cx_clipboard (upd f cx) = cx_clipboard cx" "cx_state (upd f cx) = f (cx_state cx)"
  by (simp_all add: upd_def cx_content_def cx_cursor_def)

lemma setters_normal [simp]:
  "normal (set_column k cx) = normal cx" "normal (set_pending p cx) = normal cx" "normal (set_last_change c cx) = normal cx"
  by (simp_all add: set_column_def set_pending_def set_last_change_def)

lemma setters [simp]:
  "con (set_column k cx) = con cx" "con (set_pending p cx) = con cx" "con (set_last_change c cx) = con cx"
  "con (set_mode m cx) = con cx" "cur (set_column k cx) = cur cx" "cur (set_pending p cx) = cur cx"
  "cur (set_last_change c cx) = cur cx" "cur (set_mode m cx) = cur cx"
  "cx_clipboard (set_column k cx) = cx_clipboard cx" "cx_clipboard (set_pending p cx) = cx_clipboard cx"
  "cx_clipboard (set_last_change c cx) = cx_clipboard cx" "cx_clipboard (set_mode m cx) = cx_clipboard cx"
  "cx_editor (set_column k cx) = cx_editor cx" "cx_editor (set_pending p cx) = cx_editor cx"
  "cx_editor (set_last_change c cx) = cx_editor cx" "cx_editor (set_mode m cx) = cx_editor cx"
  "cx_state (set_column k cx) = (cx_state cx)\<lparr>vs_preferred_column := k\<rparr>"
  "cx_state (set_pending p cx) = (cx_state cx)\<lparr>vs_pending := p\<rparr>"
  "cx_state (set_last_change c cx) = (cx_state cx)\<lparr>vs_last_change := c\<rparr>"
  "cx_state (set_mode m cx) = (cx_state cx)\<lparr>vs_mode := m\<rparr>"
  by (simp_all add: set_column_def set_pending_def set_last_change_def set_mode_def)

text \<open>A result that does not panic and stays in normal mode, or is well formed.\<close>

definition to_normal :: "'e vim_context option \<Rightarrow> bool" where
  "to_normal r \<longleftrightarrow> (\<exists>cx. r = Some cx \<and> normal cx)"

definition to_wf :: "'e vim_context option \<Rightarrow> bool" where
  "to_wf r \<longleftrightarrow> (\<exists>cx. r = Some cx \<and> wf cx)"

lemma to_normal_wf: "to_normal r \<Longrightarrow> to_wf r"
  by (auto simp: to_normal_def to_wf_def wf_def)

lemma normalE:
  assumes "normal cx"
  obtains l r where "con cx = l @ r" "cur cx = blen l" "blen (l @ r) \<le> cap"
  using assms cursor_law [of "cx_editor cx"] size_law [of "cx_editor cx"]
  by (auto simp: normal_def cx_content_def cx_cursor_def elim!: boundaryE)

lemma move_to_ok:
  assumes "normal cx" "is_char_boundary (con cx) p"
  shows "\<exists>e'. move_to ops p cx = Some (cx\<lparr>cx_editor := e'\<rparr>) \<and> normal (cx\<lparr>cx_editor := e'\<rparr>) \<and> plain e'
     \<and> ed_content ops e' = con cx \<and> ed_cursor ops e' = p"
  using set_cursor_law [of "cx_editor cx" p] assms
  by (auto simp: normal_def move_to_def edit_def cx_content_def cx_cursor_def)

lemma move_to_normal: "normal cx \<Longrightarrow> is_char_boundary (con cx) p \<Longrightarrow> to_normal (move_to ops p cx)"
  using move_to_ok by (fastforce simp: to_normal_def)

lemma to_normal_bind:
  "to_normal r \<Longrightarrow> (\<And>cx. normal cx \<Longrightarrow> to_normal (f cx)) \<Longrightarrow> to_normal (Option.bind r f)"
  by (auto simp: to_normal_def)

lemma to_normal_map:
  "to_normal r \<Longrightarrow> (\<And>cx. normal cx \<Longrightarrow> normal (f cx)) \<Longrightarrow> to_normal (map_option f r)"
  by (auto simp: to_normal_def)

lemma to_normal_Some [simp]: "to_normal (Some cx) = normal cx"
  by (simp add: to_normal_def)

lemma replace_in_ok:
  assumes "normal cx" "con cx = l @ m @ r" "blen (l @ t @ r) \<le> cap"
  shows "\<exists>e'. replace_in ops (blen l) (blen l + blen m) t cx = Some (cx\<lparr>cx_editor := e'\<rparr>)
     \<and> normal (cx\<lparr>cx_editor := e'\<rparr>) \<and> plain e' \<and> ed_content ops e' = l @ t @ r \<and> ed_cursor ops e' = blen (l @ t)"
  using replace_range_law [of "cx_editor cx" l m r t] assms
  by (auto simp: normal_def replace_in_def edit_def cx_content_def cx_cursor_def)

subsection \<open>Motions do not panic\<close>

lemma normal_boundary: "normal cx \<Longrightarrow> is_char_boundary (con cx) (cur cx)"
  using cursor_law by (simp add: normal_def cx_content_def cx_cursor_def)

lemma move_to_offset_normal: "normal cx \<Longrightarrow> to_boundary (con cx) target \<Longrightarrow> to_normal (move_to_offset ops target cx)"
proof -
  assume n: "normal cx" and t: "to_boundary (con cx) target"
  then obtain q where "target = Some q" "is_char_boundary (con cx) q" by (auto simp: to_boundary_def)
  then show ?thesis using move_to_normal [OF n, of q]
    by (auto simp: move_to_offset_def intro!: to_normal_bind)
qed

lemmas targets = motion_targets [OF normal_boundary]

lemma move_motion_normal: "normal cx \<Longrightarrow> to_normal (move_motion ops alnum m cx)"
proof -
  assume n: "normal cx"
  let ?t = "case m of
      WordForward \<Rightarrow> vim_next_word_start alnum (con cx) (cur cx)
    | EndWord \<Rightarrow> vim_end_word alnum (con cx) (cur cx)
    | WordBackward \<Rightarrow> vim_prev_word_start alnum (con cx) (cur cx)"
  have "to_boundary (con cx) ?t" using targets(4-6) [OF n] by (simp split: motion.split)
  then have "to_normal (move_to_offset ops ?t cx)" by (rule move_to_offset_normal [OF n])
  then show ?thesis by (simp add: move_motion_def move_to_offset_def)
qed

lemma move_vertical_normal:
  assumes "normal cx"
  shows "to_normal (move_vertical ops down cx)"
proof -
  obtain l r where lr: "con cx = l @ r" "cur cx = blen l" using assms by (auto elim: normalE)
  have "is_char_boundary (l @ r) (blen (target_below k l r))" for k
  proof -
    obtain t where "l @ r = target_below k l r @ t" using below_prefix by blast
    then show ?thesis by (rule boundary_of_prefix [OF _ refl])
  qed
  moreover have "is_char_boundary (l @ r) (blen (target_above k l))" for k
  proof -
    obtain t where "l = target_above k l @ t" using above_prefix by blast
    then have "l @ r = target_above k l @ t @ r" by (metis append_assoc)
    then show ?thesis by (rule boundary_of_prefix [OF _ refl])
  qed
  ultimately have "is_char_boundary (con cx) (blen (if down then target_below k l r else target_above k l))" for k
    using lr by simp
  then show ?thesis
    unfolding move_vertical_split [OF lr] Let_def by (intro to_normal_map move_to_normal assms) simp_all
qed

lemma char_column_defined:
  assumes "normal cx"
  shows "\<exists>ls le k. vim_current_line_bounds (con cx) (cur cx) = Some (ls, le) \<and> char_column ops ls cx = Some k"
proof -
  obtain l r where lr: "con cx = l @ r" "cur cx = blen l" using assms by (auto elim: normalE)
  have "slice (con cx) (blen (before_line l)) (cur cx) \<noteq> None"
    using slice_defined lr blen_line_split(1) [of l] boundary_append [of "before_line l" "last_line l @ r"]
    by (simp add: line_split(1) flip: append_assoc)
  with lr show ?thesis by (auto simp: char_column_def split: option.split)
qed

lemma line_span_part: "part_of s (0, case find_char ((=) nl) s of Some i \<Rightarrow> i | None \<Rightarrow> blen s)"
  using find_nl [of 0 s] part_ofI [of "[]" "line_rest s" "after_line s"] by (simp add: line_split cong: option.case_cong)

lemma move_to_line_normal:
  assumes "normal cx"
  shows "to_normal (move_to_line ops first cx)"
proof -
  obtain ls le k where c: "vim_current_line_bounds (con cx) (cur cx) = Some (ls, le)" "char_column ops ls cx = Some k"
    using char_column_defined [OF assms] by blast
  let ?s = "con cx"
  have s: "?s = before_line ?s @ last_line ?s" by (simp add: line_split)
  then have tail: "slice_from ?s (blen (before_line ?s)) = Some (last_line ?s)" by (metis slice_from_append)
  have rest: "line_rest (last_line ?s) = last_line ?s"
    using line_rest_append [of "last_line ?s" "[]"] by (simp add: line_rest_def)
  have total: "blen (before_line ?s) + blen (last_line ?s) = blen ?s" by (rule blen_line_split)
  have stop: "(case find_char ((=) nl) (last_line ?s) of Some i \<Rightarrow> blen (before_line ?s) + i | None \<Rightarrow> blen ?s) = blen ?s"
    using find_nl [of "blen (before_line ?s)" "last_line ?s"] unfolding rest total .
  have "part_of ?s (blen (before_line ?s), blen ?s)"
    using part_ofI [of "before_line ?s" "last_line ?s" "[]"] total by (simp add: line_split)
  then have t: "to_boundary ?s (column_offset ?s (blen (before_line ?s)) (blen ?s) k)" by (rule column_offset_boundary)
  have f: "to_boundary ?s (column_offset ?s 0 (case find_char ((=) nl) ?s of Some i \<Rightarrow> i | None \<Rightarrow> blen ?s) k)"
    by (rule column_offset_boundary [OF line_span_part])
  show ?thesis
  proof (cases first)
    case True
    with f obtain q where "column_offset ?s 0 (case find_char ((=) nl) ?s of Some i \<Rightarrow> i | None \<Rightarrow> blen ?s) k = Some q"
      "is_char_boundary ?s q" by (auto simp: to_boundary_def)
    with move_to_normal [OF assms] c True show ?thesis by (fastforce simp: move_to_line_def to_normal_def)
  next
    case False
    from t obtain q where "column_offset ?s (blen (before_line ?s)) (blen ?s) k = Some q" "is_char_boundary ?s q"
      by (auto simp: to_boundary_def)
    with move_to_normal [OF assms] c False tail stop show ?thesis
      by (fastforce simp: move_to_line_def to_normal_def rfind_nl Let_def)
  qed
qed

lemma find_normal:
  assumes "normal cx" "vim_find_char (con cx) (cur cx) ch forward till \<noteq> None"
  shows "to_normal (handle_find ops forward till ch cx)"
proof -
  obtain found where f: "vim_find_char (con cx) (cur cx) ch forward till = Some found" using assms(2) by blast
  show ?thesis
  proof (cases found)
    case None
    with f assms show ?thesis by (simp add: handle_find_def)
  next
    case (Some q)
    then have "is_char_boundary (con cx) q" using find_stays f normal_boundary [OF assms(1)] by blast
    from move_to_normal [OF assms(1) this] f Some show ?thesis
      by (fastforce simp: handle_find_def to_normal_def)
  qed
qed

subsection \<open>Operators do not panic on safe ranges\<close>

definition kind_of :: "rtext \<Rightarrow> rtext \<Rightarrow> rtext \<Rightarrow> clipboard_kind" where
  "kind_of l m r = (if last_line l = [] \<and> (r = [] \<or> last (l @ m) = nl) then LineWise else CharWise)"

lemma capture_split:
  assumes "con cx = l @ m @ r" "l @ m = [] \<longrightarrow> r = []"
  shows "capture_range ops (blen l) (blen l + blen m) cx
    = Some (upd (\<lambda>s. s\<lparr>vs_clipboard_kind := kind_of l m r\<rparr>) (cx\<lparr>cx_clipboard := m\<rparr>))"
  using assms by (simp add: capture_range_def vim_is_linewise_range_split kind_of_def)

lemma capture_panics:
  assumes "con cx = r" "r \<noteq> []"
  shows "capture_range ops 0 0 cx = None"
  using vim_is_linewise_range_split [of "[]" "[]" r] assms by (simp add: capture_range_def last_line_def slice_def)

lemma captured [simp]:
  "normal (upd (\<lambda>s. s\<lparr>vs_clipboard_kind := k\<rparr>) (cx\<lparr>cx_clipboard := m\<rparr>)) = normal cx"
  "con (cx\<lparr>cx_clipboard := m\<rparr>) = con cx" "cur (cx\<lparr>cx_clipboard := m\<rparr>) = cur cx"
  by (simp_all add: normal_def upd_def cx_content_def cx_cursor_def)

definition safe_range :: "rtext \<Rightarrow> nat \<times> nat \<Rightarrow> bool" where
  "safe_range s ab \<longleftrightarrow> part_of s ab \<and> (0 < snd ab \<or> s = [])"

lemma safe_rangeE:
  assumes "safe_range s (a, b)"
  obtains l m r where "s = l @ m @ r" "a = blen l" "b = blen l + blen m" "l @ m = [] \<longrightarrow> r = []"
  using assms unfolding safe_range_def part_of_def by auto

lemma delete_range_ok:
  assumes "normal cx" "con cx = l @ m @ r" "l @ m = [] \<longrightarrow> r = []"
  shows "\<exists>cx'. Option.bind (capture_range ops (blen l) (blen l + blen m) cx) (replace_in ops (blen l) (blen l + blen m) []) = Some cx'
     \<and> normal cx' \<and> plain (cx_editor cx') \<and> con cx' = l @ r \<and> cur cx' = blen l \<and> cx_clipboard cx' = m
     \<and> cx_state cx' = (cx_state cx)\<lparr>vs_clipboard_kind := kind_of l m r\<rparr>"
proof -
  let ?cx = "upd (\<lambda>s. s\<lparr>vs_clipboard_kind := kind_of l m r\<rparr>) (cx\<lparr>cx_clipboard := m\<rparr>)"
  have "blen (l @ r) \<le> cap" using assms(1,2) size_law by (fastforce simp: normal_def cx_content_def)
  with replace_in_ok [of ?cx l m r "[]"] assms
  obtain e' where "replace_in ops (blen l) (blen l + blen m) [] ?cx = Some (?cx\<lparr>cx_editor := e'\<rparr>)"
    "normal (?cx\<lparr>cx_editor := e'\<rparr>)" "plain e'" "ed_content ops e' = l @ r" "ed_cursor ops e' = blen l" by auto
  then show ?thesis using capture_split [OF assms(2,3)] by (auto simp: cx_content_def cx_cursor_def)
qed

definition roomy :: "'e vim_context \<Rightarrow> bool" where
  "roomy cx \<longleftrightarrow> 5 * blen (con cx) \<le> cap"

lemma indent_normal:
  assumes "normal cx" "roomy cx"
  shows "to_normal (indent_range ops start stop indent cx)"
proof -
  let ?out = "indent_lines indent start stop 0 (split_inclusive (con cx))"
  have "blen (fst ?out) \<le> 5 * blen (con cx)"
    using blen_indent_lines [of "split_inclusive (con cx)"] split_inclusive_nonempty by fastforce
  then have "blen (fst ?out) \<le> cap" using assms(2) by (simp add: roomy_def)
  with replace_law [of "cx_editor cx" "fst ?out" "min start (blen (con cx))"] assms(1)
  have "to_normal (edit (ed_replace ops (fst ?out) (min start (blen (con cx)))) cx)"
    by (auto simp: normal_def edit_def to_normal_def)
  moreover have "snd ?out = blen (con cx)" using indent_lines_final [of indent start stop 0 "split_inclusive (con cx)"] by simp
  ultimately show ?thesis by (simp add: indent_range_def split_beta Let_def)
qed

lemma range_operator_normal:
  assumes "normal cx" "roomy cx" "safe_range (con cx) (a, b)"
  shows "to_normal (apply_range_operator ops op a b cx)"
proof -
  obtain l m r where s: "con cx = l @ m @ r" "a = blen l" "b = blen l + blen m" "l @ m = [] \<longrightarrow> r = []"
    using assms(3) by (rule safe_rangeE)
  have "to_normal (capture_range ops a b cx)" using capture_split [OF s(1,4)] s assms(1) by simp
  moreover have "to_normal (Option.bind (capture_range ops a b cx) (replace_in ops a b []))"
    using delete_range_ok [OF assms(1) s(1,4)] s by (auto simp: to_normal_def)
  ultimately show ?thesis using indent_normal [OF assms(1,2)] assms(1)
    by (auto simp: apply_range_operator_def split: vim_operator.split)
qed

lemma motion_range_safe:
  assumes "normal cx"
  shows "\<exists>res. vim_motion_range alnum (con cx) (cur cx) m = Some res \<and> pred_option (safe_range (con cx)) res"
  using motion_range_part [OF normal_boundary [OF assms], of alnum m] by (auto simp: safe_range_def pred_option_def split_beta)

lemma full_line_safe:
  assumes "normal cx"
  shows "\<exists>a b. vim_current_line_full_range (con cx) (cur cx) = Some (a, b) \<and> safe_range (con cx) (a, b)"
proof -
  obtain l r where lr: "con cx = l @ r" "cur cx = blen l" using assms by (auto elim: normalE)
  have s: "l @ r = before_line l @ last_line l @ line_rest r @ after_line r" by (metis append_assoc line_split)
  have len: "blen l = blen (before_line l) + blen (last_line l)" by (simp add: blen_line_split)
  show ?thesis
  proof (cases "after_line r")
    case Nil
    then have "part_of (l @ r) (blen (before_line l), blen l + blen (line_rest r))"
      using part_ofI [of "before_line l" "last_line l @ line_rest r" "[]"] s len by (simp add: add.assoc)
    moreover have "0 < blen l + blen (line_rest r) \<or> l @ r = []" using Nil line_split(2) [of r] by auto
    ultimately show ?thesis using lr Nil by (simp add: safe_range_def)
  next
    case (Cons c t)
    then have "after_line r = nl # t" using after_line_cases [of r] by auto
    then have "part_of (l @ r) (blen (before_line l), blen l + blen (line_rest r) + 1)"
      using part_ofI [of "before_line l" "last_line l @ line_rest r @ [nl]" t] s len by (simp add: add.assoc)
    then show ?thesis using lr Cons by (simp add: safe_range_def)
  qed
qed

definition safe_start :: "(rchar \<Rightarrow> bool) \<Rightarrow> 'e vim_context \<Rightarrow> bool" where
  "safe_start alnum cx \<longleftrightarrow> (cur cx = 0 \<longrightarrow> con cx = [] \<or> vim_is_word_char alnum (hd (con cx)) \<and> hd (con cx) \<noteq> nl)"

lemma text_object_safe:
  assumes "normal cx" "safe_start alnum cx"
  shows "\<exists>res. vim_text_object_range alnum (con cx) (cur cx) object = Some res \<and> pred_option (safe_range (con cx)) res"
  using text_object_range [OF normal_boundary [OF assms(1)], of alnum object] assms(2)
  by (auto simp: safe_range_def safe_start_def pred_option_def split_beta)

lemma rest_of_line_safe:
  assumes "normal cx" "safe_start alnum cx"
  shows "\<exists>ls le. vim_current_line_bounds (con cx) (cur cx) = Some (ls, le) \<and> vim_line_end (con cx) (cur cx) = Some le
     \<and> safe_range (con cx) (ls, le) \<and> safe_range (con cx) (cur cx, le)"
proof -
  obtain l r where lr: "con cx = l @ r" "cur cx = blen l" using assms(1) by (auto elim: normalE)
  have s: "l @ r = before_line l @ last_line l @ line_rest r @ after_line r" by (metis append_assoc line_split)
  have len: "blen l = blen (before_line l) + blen (last_line l)" by (simp add: blen_line_split)
  have "part_of (l @ r) (blen (before_line l), blen l + blen (line_rest r))"
    using part_ofI [of "before_line l" "last_line l @ line_rest r" "after_line r"] s len by (simp add: add.assoc)
  moreover have "part_of (l @ r) (blen l, blen l + blen (line_rest r))"
    using part_ofI [of l "line_rest r" "after_line r"] by (simp add: line_split)
  moreover have "0 < blen l + blen (line_rest r) \<or> l @ r = []"
  proof (cases "l = [] \<and> r \<noteq> []")
    case True
    then obtain c t where "r = c # t" by (cases r) auto
    with True assms(2) lr have "c \<noteq> nl" by (auto simp: safe_start_def)
    with \<open>r = c # t\<close> show ?thesis by (simp add: line_rest_def)
  qed auto
  ultimately show ?thesis using lr by (simp add: safe_range_def)
qed

lemma operator_range_normal:
  assumes "normal cx" "roomy cx" "\<exists>res. target = Some res \<and> pred_option (safe_range (con cx)) res"
    "\<And>cx. normal cx \<Longrightarrow> normal (f cx)"
  shows "to_normal (Option.bind target (\<lambda>ab. case ab of None \<Rightarrow> Some cx
      | Some (a, b) \<Rightarrow> map_option f (apply_range_operator ops op a b cx)))"
proof -
  obtain res where res: "target = Some res" "pred_option (safe_range (con cx)) res" using assms(3) by blast
  show ?thesis
  proof (cases res)
    case (Some ab)
    obtain a b where "ab = (a, b)" by (cases ab)
    with res Some range_operator_normal [OF assms(1,2), of a b op] show ?thesis by (auto intro: to_normal_map assms(4))
  qed (use res assms in simp)
qed

subsection \<open>Changes enter insert mode\<close>

lemma begin_change_ok:
  assumes "normal cx" "safe_range (con cx) (a, b)"
  shows "\<exists>cx' l r. begin_change ops a b target cx = Some cx' \<and> inserting cx' \<and> plain (cx_editor cx')
     \<and> con cx' = l @ r \<and> cur cx' = blen l \<and> a = blen l \<and> blen (l @ r) \<le> blen (con cx)
     \<and> vs_insert_capture (cx_state cx') = Some \<lparr>ic_repeat = RepeatChange target, ic_start = a\<rparr>"
proof -
  obtain l m r where s: "con cx = l @ m @ r" "a = blen l" "b = blen l + blen m" "l @ m = [] \<longrightarrow> r = []"
    using assms(2) by (rule safe_rangeE)
  obtain cx' where "Option.bind (capture_range ops (blen l) (blen l + blen m) cx) (replace_in ops (blen l) (blen l + blen m) []) = Some cx'"
    "normal cx'" "plain (cx_editor cx')" "con cx' = l @ r" "cur cx' = blen l"
    using delete_range_ok [OF assms(1) s(1,4)] by blast
  then show ?thesis using s
    by (intro exI [of _ "upd (\<lambda>s. s\<lparr>vs_mode := ModeInsert,
          vs_insert_capture := Some \<lparr>ic_repeat = RepeatChange target, ic_start = a\<rparr>\<rparr>) cx'"] exI [of _ l] exI [of _ r])
      (auto simp: begin_change_def inserting_def normal_def bind_eq_Some_conv)
qed

lemma change_range_safe:
  assumes "normal cx" "safe_start alnum cx"
  shows "\<exists>res. change_range ops alnum target cx = Some res \<and> pred_option (safe_range (con cx)) res"
  using motion_range_safe [OF assms(1)] text_object_safe [OF assms] rest_of_line_safe [OF assms]
  by (cases target) (auto simp: change_range_def)

lemma start_change_cases:
  assumes "normal cx" "safe_start alnum cx"
  shows "start_change ops alnum target cx = Some cx
    \<or> (\<exists>cx' l r. start_change ops alnum target cx = Some cx' \<and> inserting cx' \<and> plain (cx_editor cx')
         \<and> con cx' = l @ r \<and> cur cx' = blen l \<and> blen (l @ r) \<le> blen (con cx)
         \<and> vs_insert_capture (cx_state cx') = Some \<lparr>ic_repeat = RepeatChange target, ic_start = blen l\<rparr>)"
proof -
  obtain res where res: "change_range ops alnum target cx = Some res" "pred_option (safe_range (con cx)) res"
    using change_range_safe [OF assms] by blast
  show ?thesis
  proof (cases res)
    case (Some ab)
    obtain a b where ab: "ab = (a, b)" by (cases ab)
    with res Some have "safe_range (con cx) (a, b)" by simp
    from begin_change_ok [OF assms(1) this, of target] res Some ab show ?thesis
      by (auto simp: start_change_def)
  qed (use res in \<open>simp add: start_change_def\<close>)
qed

lemma start_change_wf:
  assumes "normal cx" "safe_start alnum cx"
  shows "to_wf (start_change ops alnum target cx)"
  using start_change_cases [OF assms, of target] assms(1) by (auto simp: to_wf_def wf_def)

lemma finish_ok:
  assumes "inserting cx"
  shows "\<exists>cx'. finish_insert_capture ops cx = Some cx' \<and> normal (set_mode ModeNormal cx')"
proof (cases "vs_insert_capture (cx_state cx)")
  case None
  then show ?thesis using assms by (auto simp: finish_insert_capture_def inserting_def normal_def)
next
  case (Some c)
  let ?cx = "upd (\<lambda>s. s\<lparr>vs_insert_capture := None\<rparr>) cx"
  have b: "is_char_boundary (con cx) (cur cx)"
    using assms cursor_law by (simp add: inserting_def cx_content_def cx_cursor_def)
  show ?thesis
  proof (cases "ic_start c \<le> cur cx")
    case True
    then have "is_char_boundary (con cx) (ic_start c)" using assms Some by (simp add: inserting_def)
    then have "slice (con cx) (ic_start c) (cur cx) \<noteq> None" using True b slice_defined by blast
    then obtain t where "slice (con cx) (ic_start c) (cur cx) = Some t" by blast
    then show ?thesis using Some True assms
      by (auto simp: finish_insert_capture_def Let_def inserting_def normal_def)
  next
    case False
    then show ?thesis using Some assms by (auto simp: finish_insert_capture_def Let_def inserting_def normal_def)
  qed
qed

subsection \<open>The other commands\<close>

lemma to_wf_Some [simp]: "to_wf (Some cx) = wf cx"
  by (simp add: to_wf_def)

lemma line_operator_wf:
  assumes "normal cx" "roomy cx" "safe_start alnum cx"
  shows "to_wf (apply_line_operator ops alnum op cx)"
proof (cases "op = Change")
  case True
  then show ?thesis using start_change_wf [OF assms(1,3)] by (simp add: apply_line_operator_def)
next
  case False
  obtain a b where ab: "vim_current_line_full_range (con cx) (cur cx) = Some (a, b)" "safe_range (con cx) (a, b)"
    using full_line_safe [OF assms(1)] by blast
  obtain cx' where "apply_range_operator ops op a b cx = Some cx'" "normal cx'"
    using range_operator_normal [OF assms(1,2) ab(2), of op] by (auto simp: to_normal_def)
  with False ab show ?thesis by (simp add: apply_line_operator_def wf_def)
qed

lemma motion_operator_wf:
  assumes "normal cx" "roomy cx" "safe_start alnum cx"
  shows "to_wf (apply_motion_operator ops alnum op m cx)"
proof (cases "op = Change")
  case True
  then show ?thesis using start_change_wf [OF assms(1,3)] by (simp add: apply_motion_operator_def)
next
  case False
  obtain res where res: "vim_motion_range alnum (con cx) (cur cx) m = Some res" "pred_option (safe_range (con cx)) res"
    using motion_range_safe [OF assms(1)] by blast
  show ?thesis
  proof (cases res)
    case (Some ab)
    obtain a b where ab: "ab = (a, b)" by (cases ab)
    then obtain cx' where "apply_range_operator ops op a b cx = Some cx'" "normal cx'"
      using range_operator_normal [OF assms(1,2), of a b op] res Some by (auto simp: to_normal_def)
    with False res Some ab show ?thesis by (simp add: apply_motion_operator_def wf_def)
  qed (use False res assms in \<open>simp add: apply_motion_operator_def wf_def\<close>)
qed

lemma text_object_operator_wf:
  assumes "normal cx" "roomy cx" "safe_start alnum cx"
  shows "to_wf (apply_text_object_operator ops alnum op object cx)"
    "op \<noteq> Change \<Longrightarrow> to_normal (apply_text_object_operator ops alnum op object cx)"
proof -
  note n = operator_range_normal [OF assms(1,2) text_object_safe [OF assms(1,3), of object]]
  show no: "op \<noteq> Change \<Longrightarrow> to_normal (apply_text_object_operator ops alnum op object cx)"
    using n [of id op] by (simp add: apply_text_object_operator_def option.map_id)
  then show "to_wf (apply_text_object_operator ops alnum op object cx)"
    using start_change_wf [OF assms(1,3)] to_normal_wf by (cases "op = Change") (simp_all add: apply_text_object_operator_def)
qed

lemma delete_to_line_end_normal:
  assumes "normal cx" "safe_start alnum cx"
  shows "to_normal (delete_to_line_end ops cx)"
proof -
  obtain le where le: "vim_line_end (con cx) (cur cx) = Some le" "safe_range (con cx) (cur cx, le)"
    using rest_of_line_safe [OF assms] by blast
  obtain l m r where s: "con cx = l @ m @ r" "cur cx = blen l" "le = blen l + blen m" "l @ m = [] \<longrightarrow> r = []"
    using le(2) by (rule safe_rangeE)
  have "capture_range ops (cur cx) le cx = Some (upd (\<lambda>s. s\<lparr>vs_clipboard_kind := kind_of l m r\<rparr>) (cx\<lparr>cx_clipboard := m\<rparr>))"
    using capture_split [OF s(1,4)] s by simp
  moreover obtain cx' where "Option.bind (capture_range ops (cur cx) le cx) (replace_in ops (cur cx) le []) = Some cx'" "normal cx'"
    using delete_range_ok [OF assms(1) s(1,4)] s by auto
  ultimately show ?thesis using le s by (simp add: delete_to_line_end_def)
qed

lemma yank_line_normal:
  assumes "normal cx"
  shows "to_normal (yank_current_line ops cx)"
proof -
  obtain a b where ab: "vim_current_line_full_range (con cx) (cur cx) = Some (a, b)" "safe_range (con cx) (a, b)"
    using full_line_safe [OF assms] by blast
  obtain l m r where s: "con cx = l @ m @ r" "a = blen l" "b = blen l + blen m" "l @ m = [] \<longrightarrow> r = []"
    using ab(2) by (rule safe_rangeE)
  show ?thesis using capture_split [OF s(1,4)] ab s assms by (simp add: yank_current_line_def)
qed

text \<open>Inserting at a boundary and moving to a boundary of the new text.\<close>

lemma insert_and_move:
  assumes "normal cx" "con cx = l @ r" "blen (l @ t @ r) \<le> cap" "is_char_boundary (l @ t @ r) p"
  shows "\<exists>cx'. Option.bind (replace_in ops (blen l) (blen l) t cx) (move_to ops p) = Some cx'
     \<and> normal cx' \<and> plain (cx_editor cx') \<and> con cx' = l @ t @ r \<and> cur cx' = p \<and> cx_state cx' = cx_state cx \<and> cx_clipboard cx' = cx_clipboard cx"
proof -
  obtain e' where e: "replace_in ops (blen l) (blen l) t cx = Some (cx\<lparr>cx_editor := e'\<rparr>)"
    "normal (cx\<lparr>cx_editor := e'\<rparr>)" "ed_content ops e' = l @ t @ r"
    using replace_in_ok [of cx l "[]" r t] assms by auto
  have "is_char_boundary (con (cx\<lparr>cx_editor := e'\<rparr>)) p" using e assms by (simp add: cx_content_def)
  from move_to_ok [OF e(2) this] e show ?thesis by (auto simp: cx_content_def cx_cursor_def)
qed

lemma line_ends:
  assumes "normal cx"
  obtains l r where "con cx = l @ r" "cur cx = blen l" "con cx = before_line l @ last_line l @ line_rest r @ after_line r"
    "after_line r = [] \<or> (\<exists>t. after_line r = nl # t)" "blen l = blen (before_line l) + blen (last_line l)"
proof -
  obtain l r where "con cx = l @ r" "cur cx = blen l" using assms by (auto elim: normalE)
  moreover have "l @ r = before_line l @ last_line l @ line_rest r @ after_line r" by (metis append_assoc line_split)
  ultimately show ?thesis using that after_line_cases blen_line_split(1) [of l] by metis
qed

text \<open>The text before the line below the cursor: up to and with its newline, or all of it.\<close>

definition through_line :: "rtext \<Rightarrow> rtext \<Rightarrow> rtext" where
  "through_line l r = l @ line_rest r @ take 1 (after_line r)"

lemma through_line_split: "l @ r = through_line l r @ drop 1 (after_line r)"
  by (simp add: through_line_def) (metis append_take_drop_id line_split(2) append_assoc)

lemma below_line_offset:
  "(if blen l + blen (line_rest r) < blen (l @ r) then blen l + blen (line_rest r) + 1 else blen l + blen (line_rest r))
     = blen (through_line l r)"
proof (cases "after_line r")
  case Nil
  then show ?thesis using blen_line_split(2) [of r] by (simp add: through_line_def)
next
  case (Cons c t)
  then have "after_line r = nl # t" using after_line_cases [of r] by auto
  then show ?thesis using blen_line_split(2) [of r] by (simp add: through_line_def)
qed

lemma open_line_ok:
  assumes "normal cx" "blen (con cx) + 1 \<le> cap"
  shows "\<exists>cx' a b. open_line ops below cx = Some cx' \<and> normal cx' \<and> plain (cx_editor cx') \<and> con cx = a @ b
     \<and> con cx' = a @ nl # b \<and> cur cx' = blen a + 1 \<and> cx_state cx' = cx_state cx \<and> cx_clipboard cx' = cx_clipboard cx"
proof -
  obtain l r where lr: "con cx = l @ r" "cur cx = blen l" using assms by (auto elim: normalE)
  define a where "a = (if below then through_line l r else before_line l)"
  obtain b where b: "con cx = a @ b"
  proof (cases below)
    case True
    then show ?thesis using that [of "drop 1 (after_line r)"] through_line_split [of l r] lr by (simp add: a_def)
  next
    case False
    then show ?thesis using that [of "last_line l @ r"] lr by (simp add: a_def) (metis append_assoc line_split(1))
  qed
  have "is_char_boundary (a @ [nl] @ b) (blen a + 1)" using boundary_append [of "a @ [nl]" b] by simp
  moreover have "blen (a @ [nl] @ b) \<le> cap" using assms(2) b by simp
  ultimately obtain cx' where cx': "Option.bind (replace_in ops (blen a) (blen a) [nl] cx) (move_to ops (blen a + 1)) = Some cx'"
    "normal cx'" "plain (cx_editor cx')" "con cx' = a @ nl # b" "cur cx' = blen a + 1" "cx_state cx' = cx_state cx" "cx_clipboard cx' = cx_clipboard cx"
    using insert_and_move [OF assms(1) b, of "[nl]" "blen a + 1"] by auto
  have "open_line ops below cx = Option.bind (replace_in ops (blen a) (blen a) [nl] cx) (move_to ops (blen a + 1))"
    using lr below_line_offset [of l r] by (simp add: open_line_def a_def)
  with cx' b show ?thesis by metis
qed

lemma paste_normal:
  assumes "normal cx" "blen (con cx) + blen (cx_clipboard cx) \<le> cap"
  shows "to_normal (paste ops after cx)"
proof (cases "cx_clipboard cx = []")
  case False
  let ?t = "cx_clipboard cx"
  obtain l r where lr: "con cx = l @ r" "cur cx = blen l" using assms by (auto elim: normalE)
  have ins: "to_normal (Option.bind (replace_in ops (blen a) (blen a) ?t cx) (move_to ops (blen a + blen ?t)))"
    if "con cx = a @ b" for a b
    using insert_and_move [OF assms(1) that, of ?t "blen a + blen ?t"] boundary_append [of "a @ ?t" b] assms(2) that
    by (auto simp: to_normal_def)
  show ?thesis
  proof (cases "vs_clipboard_kind (cx_state cx)")
    case CharWise
    define a where "a = (if after \<and> r \<noteq> [] then l @ [hd r] else l)"
    have "con cx = a @ (if after \<and> r \<noteq> [] then tl r else r)" using lr by (simp add: a_def)
    from ins [OF this] have "to_normal (Option.bind (replace_in ops (blen a) (blen a) ?t cx) (move_to ops (blen a + blen ?t)))" .
    moreover have "(if after \<and> blen l < blen (l @ r) then next_char_boundary (l @ r) (blen l) else blen l) = blen a"
      by (cases r) (simp_all add: a_def)
    ultimately show ?thesis using False CharWise lr by (simp add: paste_def Let_def)
  next
    case LineWise
    define a where "a = (if after then through_line l r else before_line l)"
    obtain b where b: "con cx = a @ b"
    proof (cases after)
      case True
      then show ?thesis using that [of "drop 1 (after_line r)"] through_line_split [of l r] lr by (simp add: a_def)
    next
      case False
      then show ?thesis using that [of "last_line l @ r"] lr by (simp add: a_def) (metis append_assoc line_split(1))
    qed
    obtain e' where e: "replace_in ops (blen a) (blen a) ?t cx = Some (cx\<lparr>cx_editor := e'\<rparr>)"
      "normal (cx\<lparr>cx_editor := e'\<rparr>)" "ed_content ops e' = a @ ?t @ b"
      using replace_in_ok [of cx a "[]" b ?t] assms b by auto
    then have "con (cx\<lparr>cx_editor := e'\<rparr>) = (a @ ?t) @ b" by (simp add: cx_content_def)
    then have "to_normal (move_to ops (min (blen a + blen ?t) (blen (con (cx\<lparr>cx_editor := e'\<rparr>)))) (cx\<lparr>cx_editor := e'\<rparr>))"
      using move_to_normal [OF e(2), of "blen (a @ ?t)"] boundary_append [of "a @ ?t" b] by simp
    moreover have "(if after then if blen l + blen (line_rest r) < blen (con cx) then blen l + blen (line_rest r) + 1 else blen l + blen (line_rest r)
        else blen (before_line l)) = blen a"
      using below_line_offset [of l r] lr by (simp add: a_def)
    ultimately show ?thesis using False LineWise lr e(1)
      by (cases after; cases "blen (line_rest r) < blen r") (simp_all add: paste_def Let_def)
  qed
qed (use assms in \<open>simp add: paste_def\<close>)

lemma join_lines_normal:
  assumes "normal cx"
  shows "to_normal (join_lines ops cx)"
proof -
  obtain l r where lr: "con cx = l @ r" "cur cx = blen l" "blen (l @ r) \<le> cap" using assms by (auto elim: normalE)
  show ?thesis
  proof (cases "after_line r")
    case Nil
    then have "line_rest r = r" using line_split(2) [of r] by simp
    then show ?thesis using lr assms by (simp add: join_lines_def)
  next
    case (Cons c t)
    then have c: "after_line r = nl # t" using after_line_cases [of r] by auto
    let ?a = "l @ line_rest r"
    have s: "con cx = ?a @ nl # t" using lr(1) c by (metis append_assoc line_split(2))
    define w where "w = (if find_char (\<lambda>c. \<not> char_is_whitespace c) t = None then [] else takeWhile char_is_whitespace t)"
    obtain u where u: "t = w @ u" by (metis w_def append_Nil takeWhile_dropWhile_id)
    have next_non_ws: "(case find_char (\<lambda>c. \<not> char_is_whitespace c) t of Some i \<Rightarrow> blen ?a + 1 + i | None \<Rightarrow> blen ?a + 1) = blen ?a + blen (nl # w)"
      using find_char_case [where P = "\<lambda>c. \<not> char_is_whitespace c" and s = t and n = "blen ?a + 1"]
      by (cases "find_char (\<lambda>c. \<not> char_is_whitespace c) t") (simp_all add: w_def)
    have rest: "slice_from (con cx) (blen ?a + 1) = Some t" using slice_from_append [of "?a @ [nl]" t] s by simp
    have stop: "vim_current_line_bounds (con cx) (cur cx) = Some (blen (before_line l), blen ?a)" "\<not> blen (con cx) \<le> blen ?a"
      using lr s blen_line_split(2) [of r] c by simp_all
    have "blen (?a @ nl # w @ u) \<le> cap" using lr(1,3) s u by metis
    then have sz: "blen (?a @ [space] @ u) \<le> cap" by simp
    obtain e' where e: "replace_in ops (blen ?a) (blen ?a + blen (nl # w)) [space] cx = Some (cx\<lparr>cx_editor := e'\<rparr>)"
      "normal (cx\<lparr>cx_editor := e'\<rparr>)" "ed_content ops e' = ?a @ [space] @ u"
      using replace_in_ok [OF assms, of ?a "nl # w" u "[space]"] s u sz by auto
    have "is_char_boundary (con (cx\<lparr>cx_editor := e'\<rparr>)) (blen ?a + 1)"
      using e(3) boundary_append [of "?a @ [space]" u] by (simp add: cx_content_def)
    from move_to_normal [OF e(2) this] show ?thesis
      unfolding join_lines_def Let_def stop(1) using stop(2) rest next_non_ws e(1) by (simp cong: option.case_cong)
  qed
qed

lemma move_right_ok: "normal cx \<Longrightarrow> \<exists>cx'. move_right_in_text ops cx = Some cx' \<and> normal cx' \<and> con cx' = con cx
    \<and> cx_state cx' = cx_state cx \<and> cx_clipboard cx' = cx_clipboard cx"
  using right_law [of "cx_editor cx"] by (auto simp: move_right_in_text_def edit_def normal_def cx_content_def)

lemma edit_normal: "normal cx \<Longrightarrow> \<exists>e'. f (cx_editor cx) = Some e' \<and> ok e' \<Longrightarrow> to_normal (edit f cx)"
  by (auto simp: edit_def normal_def)

lemma insert_normal: "normal cx \<Longrightarrow> blen (con cx) + blen t \<le> cap \<Longrightarrow> to_normal (edit (ed_insert_text ops t) cx)"
  using insert_law [of "cx_editor cx" t] by (intro edit_normal) (auto simp: normal_def cx_content_def)

lemma set_mode_normal [simp]: "normal cx \<Longrightarrow> normal (set_mode ModeNormal cx)"
  by (simp add: normal_def)

lemma repeat_insert_normal:
  assumes "normal cx" "blen (con cx) + 1 + blen t \<le> cap"
  shows "to_normal (repeat_insert ops kind t cx)"
proof -
  define place where "place = (case kind of
      InsertHere \<Rightarrow> Some cx
    | InsertStart \<Rightarrow> do { start \<leftarrow> vim_line_first_non_ws (con cx) (cur cx); move_to ops start cx }
    | Append \<Rightarrow> move_right_in_text ops cx
    | AppendEnd \<Rightarrow> do { stop \<leftarrow> vim_line_end (con cx) (cur cx); move_to ops stop cx }
    | OpenBelow \<Rightarrow> open_line ops True cx
    | OpenAbove \<Rightarrow> open_line ops False cx)"
  have go: "\<exists>cx'. Option.bind target (\<lambda>p. move_to ops p cx) = Some cx' \<and> normal cx' \<and> blen (con cx') \<le> blen (con cx) + 1"
    if t: "to_boundary (con cx) target" for target
  proof -
    from t obtain q where "target = Some q" "is_char_boundary (con cx) q" by (auto simp: to_boundary_def)
    with move_to_ok [OF assms(1), of q] show ?thesis by (auto simp: cx_content_def)
  qed
  have opened: "\<exists>cx'. open_line ops below cx = Some cx' \<and> normal cx' \<and> blen (con cx') \<le> blen (con cx) + 1" for below
    using open_line_ok [OF assms(1), of below] assms(2) by fastforce
  have "\<exists>cx'. place = Some cx' \<and> normal cx' \<and> blen (con cx') \<le> blen (con cx) + 1"
    using go [OF targets(3) [OF assms(1)]] go [OF targets(2) [OF assms(1)]] opened move_right_ok [OF assms(1)] assms(1)
    by (cases kind) (auto simp: place_def)
  then obtain cx' where p: "place = Some cx'" "normal cx'" "blen (con cx') \<le> blen (con cx) + 1" by blast
  then have "to_normal (edit (ed_insert_text ops t) cx')" using assms(2) by (intro insert_normal) simp_all
  then obtain cx'' where "edit (ed_insert_text ops t) cx' = Some cx''" "normal cx''" by (auto simp: to_normal_def)
  then show ?thesis using p by (simp add: repeat_insert_def place_def)
qed

lemma finish_no_capture: "normal cx \<Longrightarrow> finish_insert_capture ops cx = Some cx"
  by (simp add: finish_insert_capture_def normal_def)

lemma repeat_change_normal:
  assumes "normal cx" "safe_start alnum cx" "blen (con cx) + blen t \<le> cap"
  shows "to_normal (repeat_change ops alnum target t cx)"
proof (cases "start_change ops alnum target cx = Some cx")
  case True
  moreover obtain cx' where "edit (ed_insert_text ops t) cx = Some cx'" "normal cx'"
    using insert_normal [OF assms(1,3)] by (auto simp: to_normal_def)
  ultimately show ?thesis by (simp add: repeat_change_def finish_no_capture)
next
  case False
  then obtain cx' l r where s: "start_change ops alnum target cx = Some cx'" "inserting cx'" "plain (cx_editor cx')"
    "con cx' = l @ r" "cur cx' = blen l" "blen (l @ r) \<le> blen (con cx)"
    "vs_insert_capture (cx_state cx') = Some \<lparr>ic_repeat = RepeatChange target, ic_start = blen l\<rparr>"
    using start_change_cases [OF assms(1,2), of target] by blast
  have "ok (cx_editor cx')" "blen (ed_content ops (cx_editor cx')) + blen t \<le> cap"
    using s assms(3) by (simp_all add: inserting_def cx_content_def)
  from insert_law [OF this] obtain e' where e': "ed_insert_text ops t (cx_editor cx') = Some e'" "ok e'"
    "\<And>l r. plain (cx_editor cx') \<and> ed_content ops (cx_editor cx') = l @ r \<and> ed_cursor ops (cx_editor cx') = blen l
       \<Longrightarrow> \<exists>t'. ed_content ops e' = l @ t' @ r \<and> ed_cursor ops e' = blen (l @ t')" by blast
  from e'(3) [of l r] s obtain t' where "ed_content ops e' = l @ t' @ r" "ed_cursor ops e' = blen (l @ t')"
    by (auto simp: cx_content_def cx_cursor_def)
  note e = e'(1,2) this
  let ?cx = "cx'\<lparr>cx_editor := e'\<rparr>"
  have "inserting ?cx" using e s by (auto simp: inserting_def cx_content_def cx_cursor_def)
  from finish_ok [OF this] obtain cx'' where "finish_insert_capture ops ?cx = Some cx''" "normal (set_mode ModeNormal cx'')" by blast
  then show ?thesis using s e by (simp add: repeat_change_def edit_def)
qed

definition repeat_text :: "repeatable_command option \<Rightarrow> rtext" where
  "repeat_text c = (case c of Some (InsertText _ t) \<Rightarrow> t | Some (ChangeText _ t) \<Rightarrow> t | _ \<Rightarrow> [])"

definition bounded :: "'e vim_context \<Rightarrow> bool" where
  "bounded cx \<longleftrightarrow>
     5 * blen (con cx) + blen (cx_clipboard cx) + blen (repeat_text (vs_last_change (cx_state cx))) + 1 \<le> cap"

lemma bounded_roomy: "bounded cx \<Longrightarrow> roomy cx"
  by (simp add: bounded_def roomy_def)

lemma delete_char_normal: "normal cx \<Longrightarrow> to_normal (delete_char ops cx)"
  using delete_law [of "cx_editor cx"] by (auto simp: delete_char_def normal_def edit_def)

lemma repeat_last_change_wf:
  assumes "normal cx" "bounded cx" "safe_start alnum cx"
  shows "to_wf (repeat_last_change ops alnum cx)"
proof (cases "vs_last_change (cx_state cx)")
  case (Some command)
  have b: "blen (con cx) + blen (cx_clipboard cx) \<le> cap"
    "command = InsertText kind t \<Longrightarrow> blen (con cx) + 1 + blen t \<le> cap"
    "command = ChangeText target t \<Longrightarrow> blen (con cx) + blen t \<le> cap" for kind target t
    using assms(2) Some by (simp_all add: bounded_def repeat_text_def)
  note ops = line_operator_wf [OF assms(1) bounded_roomy [OF assms(2)] assms(3)]
    motion_operator_wf [OF assms(1) bounded_roomy [OF assms(2)] assms(3)]
    text_object_operator_wf(1) [OF assms(1) bounded_roomy [OF assms(2)] assms(3)]
    delete_to_line_end_normal [OF assms(1,3), THEN to_normal_wf] join_lines_normal [OF assms(1), THEN to_normal_wf]
    delete_char_normal [OF assms(1), THEN to_normal_wf] paste_normal [OF assms(1) b(1), THEN to_normal_wf]
    repeat_insert_normal [OF assms(1) b(2), THEN to_normal_wf] repeat_change_normal [OF assms(1,3) b(3), THEN to_normal_wf]
  show ?thesis using Some by (cases command) (simp_all add: repeat_last_change_def ops)
qed (use assms in \<open>simp add: repeat_last_change_def wf_def\<close>)

subsection \<open>Keys\<close>

definition on_newline :: "'e vim_context \<Rightarrow> bool" where
  "on_newline cx \<longleftrightarrow> slice (con cx) (cur cx) (cur cx + 1) = Some [nl]"

lemma find_key_normal: "normal cx \<Longrightarrow> \<not> on_newline cx \<Longrightarrow> to_normal (handle_find ops forward till ch cx)"
  using find_panics_iff [OF normal_boundary] by (intro find_normal) (auto simp: on_newline_def)

lemma repeat_find_normal: "normal cx \<Longrightarrow> \<not> on_newline cx \<Longrightarrow> to_normal (repeat_find ops reverse cx)"
  by (auto simp: repeat_find_def find_key_normal split: option.split)

lemma side_moves_normal:
  assumes "normal cx"
  shows "to_normal (map_option (set_column None) (edit (ed_move_left ops) cx))"
    "to_normal (map_option (set_column None) (edit (ed_move_right ops) cx))"
  using left_law [of "cx_editor cx"] right_law [of "cx_editor cx"] assms
  by (auto simp: normal_def edit_def to_normal_def)

lemma move_char_normal:
  assumes "normal cx" "\<not> on_newline cx" "move_char ops alnum ch cx = Some result"
  shows "to_normal result"
  using assms(3) unfolding move_char_def
  by (auto split: if_splits intro: side_moves_normal move_vertical_normal move_motion_normal move_to_line_normal
      move_to_offset_normal targets repeat_find_normal [OF assms(1,2)] assms(1))

lemma map_wf: "to_normal r \<Longrightarrow> to_wf (map_option (set_last_change c) r)"
  by (auto simp: to_normal_def wf_def)

lemma change_char_wf:
  assumes "normal cx" "bounded cx" "safe_start alnum cx" "change_char ops alnum ch cx = Some result"
  shows "to_wf result"
proof -
  have "to_wf (if cur cx < blen (con cx)
      then map_option (set_last_change (Some DeleteChar)) (edit (ed_delete_char_forward ops) cx) else Some cx)"
    using map_wf [OF delete_char_normal [OF assms(1)]] assms(1) by (auto simp: delete_char_def wf_def)
  moreover have "blen (con cx) + blen (cx_clipboard cx) \<le> cap" using assms(2) by (simp add: bounded_def)
  ultimately show ?thesis using assms unfolding change_char_def
    by (auto split: if_splits intro!: map_wf delete_to_line_end_normal paste_normal join_lines_normal start_change_wf
        yank_line_normal [THEN to_normal_wf] repeat_last_change_wf)
qed

lemma start_insert_wf [simp]: "normal cx \<Longrightarrow> wf (start_insert ops kind cx)"
  using normal_boundary [of cx] by (auto simp: wf_def start_insert_def inserting_def normal_def)

lemma map_start_insert: "to_normal r \<Longrightarrow> to_wf (map_option (start_insert ops kind) r)"
  by (auto simp: to_normal_def)

lemma insert_command_wf:
  assumes "normal cx" "bounded cx" "insert_command ops ch cx = Some result"
  shows "to_wf result"
proof -
  have go: "to_wf (do { p \<leftarrow> target; cx \<leftarrow> move_to ops p cx; Some (start_insert ops kind cx) })"
    if t: "to_boundary (con cx) target" for target kind
  proof -
    from t obtain q where "target = Some q" "is_char_boundary (con cx) q" by (auto simp: to_boundary_def)
    with move_to_normal [OF assms(1), of q] show ?thesis by (auto simp: to_normal_def)
  qed
  have "blen (con cx) + 1 \<le> cap" using assms(2) by (simp add: bounded_def)
  then have opened: "to_wf (map_option (start_insert ops kind) (open_line ops below cx))" for below kind
    using open_line_ok [OF assms(1), of below] by (intro map_start_insert) (auto simp: to_normal_def)
  have moved: "to_wf (map_option (start_insert ops kind) (move_right_in_text ops cx))" for kind
    using move_right_ok [OF assms(1)] by (intro map_start_insert) (auto simp: to_normal_def)
  show ?thesis using assms(1,3) opened moved go [OF targets(3) [OF assms(1)]] go [OF targets(2) [OF assms(1)]]
    unfolding insert_command_def by (auto split: if_splits)
qed

definition fine :: "('b \<times> 'e vim_context) option \<Rightarrow> bool" where
  "fine r \<longleftrightarrow> (\<exists>b cx. r = Some (b, cx) \<and> wf cx)"

lemma fine_Some [simp]: "fine (Some (b, cx)) = wf cx"
  by (simp add: fine_def)

lemma fine_if: "fine r \<Longrightarrow> fine r' \<Longrightarrow> fine (if b then r else r')"
  by simp

lemma fine_done: "to_wf r \<Longrightarrow> fine (done_with b r)"
  by (auto simp: to_wf_def fine_def)

lemma fine_map: "fine r \<Longrightarrow> fine (map_option (\<lambda>(b, cx). (f b, cx)) r)"
  by (auto simp: fine_def)

lemma wf_normal [simp]: "normal cx \<Longrightarrow> wf cx"
  by (simp add: wf_def)

lemma normal_char_fine:
  assumes "normal cx" "bounded cx" "safe_start alnum cx" "\<not> on_newline cx"
  shows "fine (handle_normal_char ops alnum ch cx)"
  unfolding handle_normal_char_def
  using move_char_normal [OF assms(1,4), THEN to_normal_wf] change_char_wf [OF assms(1-3)] insert_command_wf [OF assms(1,2)] assms(1)
  by (auto split: option.split intro!: fine_done)

lemma handle_operator_fine:
  assumes "normal cx" "bounded cx" "safe_start alnum cx"
  shows "fine (handle_operator ops alnum op ch cx)"
  unfolding handle_operator_def
  by (intro fine_if fine_done line_operator_wf motion_operator_wf bounded_roomy assms) (simp_all add: assms(1))

lemma wf_last_change [simp]: "wf (set_last_change c cx) = wf cx"
  by (simp add: wf_def inserting_def)

lemma handle_pending_fine:
  assumes "normal cx" "bounded cx" "safe_start alnum cx" "\<not> on_newline cx"
  shows "fine (handle_pending ops alnum pending ch cx)"
proof (cases pending)
  case (PendTextObject op around)
  have "fine (handle_text_object ops alnum op around ch cx)"
  proof (cases "text_object_of around ch")
    case (Some object)
    then obtain cx' where "apply_text_object_operator ops alnum op object cx = Some cx'" "wf cx'"
      using text_object_operator_wf(1) [OF assms(1) bounded_roomy [OF assms(2)] assms(3)] by (auto simp: to_wf_def)
    with Some show ?thesis by (simp add: handle_text_object_def)
  qed (use assms in \<open>simp add: handle_text_object_def\<close>)
  then show ?thesis using PendTextObject by (simp add: handle_pending_def)
qed (use assms in \<open>auto simp: handle_pending_def intro!: handle_operator_fine fine_done to_normal_wf find_key_normal move_to_line_normal\<close>)

lemma handle_key_fine:
  assumes "wf cx" "bounded cx"
    "vs_mode (cx_state cx) = ModeNormal \<Longrightarrow> safe_start alnum cx \<and> \<not> on_newline cx"
  shows "fine (handle_key ops alnum key cx)"
proof (cases "vs_mode (cx_state cx)")
  case ModeInsert
  then have i: "inserting cx" using assms(1) by (auto simp: wf_def normal_def)
  from finish_ok [OF i] obtain cx' where "finish_insert_capture ops cx = Some cx'" "normal (set_mode ModeNormal cx')" by blast
  then show ?thesis using ModeInsert assms(1) by (auto simp: handle_key_def handle_insert_key_def)
next
  case ModeNormal
  then have n: "normal cx" using assms(1) by (auto simp: wf_def inserting_def)
  have spot: "safe_start alnum cx" "\<not> on_newline cx" using assms(3) ModeNormal by simp_all
  let ?cx = "set_pending None cx"
  have p: "normal ?cx" "bounded ?cx" "safe_start alnum ?cx" "\<not> on_newline ?cx"
    using n assms(2) spot by (simp_all add: bounded_def safe_start_def on_newline_def)
  have "fine (handle_normal_key ops alnum key cx)"
  proof (cases "ke_code key")
    case (KeyChar ch)
    have "fine (case vs_pending (cx_state cx) of
        Some pending \<Rightarrow> handle_pending ops alnum pending ch (set_pending None cx)
      | None \<Rightarrow> handle_normal_char ops alnum ch cx)"
      using handle_pending_fine [OF p] normal_char_fine [OF n assms(2) spot] by (simp split: option.split)
    from fine_map [OF this] show ?thesis by (simp add: handle_normal_key_def KeyChar Let_def)
  qed (use n side_moves_normal [OF n, THEN to_normal_wf, THEN fine_done, THEN fine_map]
      move_vertical_normal [OF n, THEN to_normal_wf, THEN fine_done, THEN fine_map]
      in \<open>simp_all add: handle_normal_key_def Let_def\<close>)
  then show ?thesis using ModeNormal assms(1) by (auto simp: handle_key_def)
qed

text \<open>Without a well-formed capture, the only panic in insert mode is the one of a stale capture.\<close>

lemma handle_key_outcome:
  assumes "engine_ok ok cx"
    "vs_mode (cx_state cx) = ModeNormal \<Longrightarrow> bounded cx \<and> safe_start alnum cx \<and> \<not> on_newline cx"
  shows "case handle_key ops alnum key cx of
      None \<Rightarrow> ends_insertion key cx \<and> stale_capture ops cx
    | Some (outcome, cx') \<Rightarrow> \<not> (ends_insertion key cx \<and> stale_capture ops cx) \<and> engine_ok ok cx'"
proof (cases "vs_mode (cx_state cx)")
  case ModeInsert
  show ?thesis
  proof (cases "ends_insertion key cx")
    case True
    then have esc: "handle_key ops alnum key cx = map_option (\<lambda>cx'. (\<lparr>ko_handled = True, ko_clear_selection = True\<rparr>,
        set_pending None (set_mode ModeNormal cx'))) (finish_insert_capture ops cx)"
      by (simp add: ends_insertion_def handle_key_def handle_insert_key_def)
        (cases "finish_insert_capture ops cx"; simp)
    show ?thesis
    proof (cases "stale_capture ops cx")
      case True
      then obtain c where c: "vs_insert_capture (cx_state cx) = Some c" "ic_start c \<le> cur cx"
        "\<not> is_char_boundary (con cx) (ic_start c)" by (auto simp: stale_capture_def split: option.splits)
      then have "slice (con cx) (ic_start c) (cur cx) = None" using slice_defined by blast
      with c have "finish_insert_capture ops cx = None" by (simp add: finish_insert_capture_def Let_def)
      with esc True \<open>ends_insertion key cx\<close> show ?thesis by simp
    next
      case False
      then have "inserting cx" using ModeInsert assms(1)
        by (auto simp: inserting_def engine_ok_def stale_capture_def split: option.splits)
      from finish_ok [OF this] obtain cx' where "finish_insert_capture ops cx = Some cx'" "normal (set_mode ModeNormal cx')" by blast
      with esc False show ?thesis by (simp add: engine_ok_def normal_def)
    qed
  next
    case False
    then have "handle_key ops alnum key cx = Some (unhandled, cx)"
      using ModeInsert by (auto simp: ends_insertion_def handle_key_def handle_insert_key_def)
    with False assms(1) show ?thesis by simp
  qed
next
  case ModeNormal
  then have "wf cx" using assms(1) by (simp add: engine_ok_def wf_def normal_def)
  from handle_key_fine [OF this, of alnum key] assms(2) ModeNormal obtain outcome cx' where
    "handle_key ops alnum key cx = Some (outcome, cx')" "wf cx'" by (auto simp: fine_def)
  then show ?thesis using ModeNormal by (auto simp: ends_insertion_def engine_ok_def wf_def normal_def inserting_def)
qed

end

end
