(* ===== verification/Vim_Effects.thy ===== *)
theory Vim_Effects
  imports Vim_Facts
begin

text \<open>
  What sequences of Vim keys do to the text of any editor that keeps the contract: deleting and pasting a line,
  duplicating a line, moving down and up, repeating an insertion, opening a line.
\<close>

definition char_key :: "char \<Rightarrow> key_event" where
  "char_key c = \<lparr>ke_code = KeyChar (asc c), ke_modifiers = []\<rparr>"

definition esc_key :: key_event where
  "esc_key = \<lparr>ke_code = KeyEsc, ke_modifiers = []\<rparr>"

fun run_keys ::
  "'e editor_ops \<Rightarrow> (rchar \<Rightarrow> bool) \<Rightarrow> key_event list \<Rightarrow> 'e vim_context \<Rightarrow> 'e vim_context option" where
  "run_keys ops alnum [] cx = Some cx"
| "run_keys ops alnum (key # keys) cx =
     Option.bind (handle_key ops alnum key cx) (\<lambda>(_, cx). run_keys ops alnum keys cx)"

definition ready :: "'e vim_context \<Rightarrow> bool" where
  "ready cx \<longleftrightarrow> vs_enabled (cx_state cx) \<and> vs_mode (cx_state cx) = ModeNormal \<and> vs_pending (cx_state cx) = None"

declare run_keys.simps(2) [simp del]

lemma asc_inj [simp]: "asc a = asc b \<longleftrightarrow> a = b"
  by (simp add: asc_def)

lemma map_snd_done [simp]: "Option.bind (done_with b r) (\<lambda>(_, cx). f cx) = Option.bind r f"
  by (cases r) simp_all

lemma map_snd_outcome [simp]:
  "Option.bind (map_option (\<lambda>(h, cx). (g h, cx)) r) (\<lambda>(_, cx). f cx) = Option.bind r (\<lambda>(_, cx). f cx)"
  by (cases r) (auto split: prod.split)

lemma run_char [simp]:
  "ready cx \<Longrightarrow> run_keys ops alnum (char_key c # keys) cx =
     Option.bind (handle_normal_char ops alnum (asc c) cx) (\<lambda>(_, cx). run_keys ops alnum keys cx)"
  by (simp add: ready_def run_keys.simps(2) handle_key_def handle_normal_key_def char_key_def Let_def)

lemma run_pending [simp]:
  "vs_enabled (cx_state cx) \<Longrightarrow> vs_mode (cx_state cx) = ModeNormal \<Longrightarrow> vs_pending (cx_state cx) = Some p \<Longrightarrow>
   run_keys ops alnum (char_key c # keys) cx =
     Option.bind (handle_pending ops alnum p (asc c) (set_pending None cx)) (\<lambda>(_, cx). run_keys ops alnum keys cx)"
  by (simp add: run_keys.simps(2) handle_key_def handle_normal_key_def char_key_def Let_def)

lemma ready_set_pending [simp]: "ready (set_pending None cx) = (vs_enabled (cx_state cx) \<and> vs_mode (cx_state cx) = ModeNormal)"
  by (simp add: ready_def set_pending_def upd_def)

lemma set_pending_twice [simp]: "set_pending p (set_pending q cx) = set_pending p cx"
  by (simp add: set_pending_def upd_def)

lemma last_line_append: "nl \<notin> set b \<Longrightarrow> last_line (a @ b) = last_line a @ b"
proof -
  assume "nl \<notin> set b"
  then have "takeWhile ((\<noteq>) nl) (rev b @ rev a) = rev b @ takeWhile ((\<noteq>) nl) (rev a)"
    by (intro takeWhile_append2) auto
  then show ?thesis by (simp add: last_line_def)
qed

lemma before_line_idem [simp]: "before_line (before_line l) = before_line l"
proof (cases "before_line l = []")
  case False
  then obtain p where "before_line l = p @ [nl]" using before_line_cases by blast
  then show ?thesis by (simp add: before_line_def)
qed (simp add: before_line_def)

lemma last_before_line [simp]: "last_line (before_line l) = []"
proof -
  have "blen (before_line (before_line l)) + blen (last_line (before_line l)) = blen (before_line l)" by (rule blen_line_split)
  then show ?thesis by simp
qed

lemma before_line_nl [simp]: "before_line (a @ [nl]) = a @ [nl]"
  by (simp add: before_line_def)

lemma before_line_no_nl: "nl \<notin> set b \<Longrightarrow> before_line (a @ b) = before_line a"
  by (auto simp: before_line_def dropWhile_append)

context editor
begin

text \<open>The line of the cursor, with its newline if it has one.\<close>

definition whole_line :: "rtext \<Rightarrow> rtext \<Rightarrow> rtext" where
  "whole_line l r = last_line l @ line_rest r @ take 1 (after_line r)"

lemma whole_line_split: "l @ r = before_line l @ whole_line l r @ drop 1 (after_line r)"
  by (simp add: whole_line_def) (metis append_take_drop_id append_assoc line_split)

lemma full_range_whole_line:
  "vim_current_line_full_range (l @ r) (blen l) = Some (blen (before_line l), blen (before_line l) + blen (whole_line l r))"
proof -
  have "blen (take 1 (after_line r)) = (if after_line r = [] then 0 else 1)"
    using after_line_cases [of r] by auto
  then show ?thesis using blen_line_split(1) [of l] by (simp add: whole_line_def)
qed

lemma whole_line_kind: "kind_of (before_line l) (whole_line l r) (drop 1 (after_line r)) = LineWise"
proof (cases "after_line r")
  case (Cons c t)
  then have "after_line r = nl # t" using after_line_cases [of r] by auto
  then show ?thesis by (simp add: kind_of_def whole_line_def)
qed (simp add: kind_of_def)

lemma whole_line_nonempty: "before_line l @ whole_line l r = [] \<longrightarrow> drop 1 (after_line r) = []"
  by (auto simp: whole_line_def)

lemma yank_line_ok:
  assumes "con cx = l @ r" "cur cx = blen l"
  shows "apply_line_operator ops alnum Yank cx
    = Some (upd (\<lambda>s. s\<lparr>vs_clipboard_kind := LineWise\<rparr>) (cx\<lparr>cx_clipboard := whole_line l r\<rparr>))"
proof -
  have "con cx = before_line l @ whole_line l r @ drop 1 (after_line r)" using assms whole_line_split by metis
  from capture_split [OF this whole_line_nonempty] show ?thesis
    using assms full_range_whole_line [of l r] whole_line_split [of l r] whole_line_kind [of l r]
    by (simp add: apply_line_operator_def apply_range_operator_def)
qed

lemma delete_line_ok:
  assumes "normal cx" "con cx = l @ r" "cur cx = blen l"
  shows "\<exists>cx'. apply_line_operator ops alnum Delete cx = Some (set_last_change (Some (OperateLine Delete)) cx') \<and> normal cx'
     \<and> con cx' = before_line l @ drop 1 (after_line r) \<and> cur cx' = blen (before_line l)
     \<and> cx_clipboard cx' = whole_line l r \<and> cx_state cx' = (cx_state cx)\<lparr>vs_clipboard_kind := LineWise\<rparr>"
proof -
  have s: "con cx = before_line l @ whole_line l r @ drop 1 (after_line r)" using assms whole_line_split by metis
  from delete_range_ok [OF assms(1) s whole_line_nonempty]
  obtain cx' where cx': "Option.bind (capture_range ops (blen (before_line l)) (blen (before_line l) + blen (whole_line l r)) cx)
      (replace_in ops (blen (before_line l)) (blen (before_line l) + blen (whole_line l r)) []) = Some cx'"
    "normal cx'" "con cx' = before_line l @ drop 1 (after_line r)" "cur cx' = blen (before_line l)"
    "cx_clipboard cx' = whole_line l r" "cx_state cx' = (cx_state cx)\<lparr>vs_clipboard_kind := LineWise\<rparr>"
    using whole_line_kind [of l r] by auto
  moreover have "\<not> blen (con cx) < blen (before_line l) + blen (whole_line l r)" unfolding s by simp
  ultimately have "apply_range_operator ops Delete (blen (before_line l)) (blen (before_line l) + blen (whole_line l r)) cx = Some cx'"
    by (simp add: apply_range_operator_def)
  then have "apply_line_operator ops alnum Delete cx = Some (set_last_change (Some (OperateLine Delete)) cx')"
    using assms(2,3) full_range_whole_line [of l r] by (simp add: apply_line_operator_def)
  with cx' show ?thesis by blast
qed

text \<open>A pasted line goes in front of the line of the cursor, or behind it.\<close>

lemma paste_line_ok:
  assumes "normal cx" "con cx = l @ r" "cur cx = blen l" "vs_clipboard_kind (cx_state cx) = LineWise"
    "blen (l @ r) + blen (cx_clipboard cx) \<le> cap"
  shows "\<exists>cx'. paste ops after cx = Some cx' \<and> normal cx'
     \<and> (let a = (if after then through_line l r else before_line l)
        in con cx' = a @ cx_clipboard cx @ (if after then drop 1 (after_line r) else last_line l @ r))
     \<and> cx_state cx' = cx_state cx"
proof (cases "cx_clipboard cx = []")
  case True
  then show ?thesis using assms through_line_split [of l r] line_split(1) [of l]
    by (auto simp: paste_def Let_def) (metis append_assoc)
next
  case False
  let ?t = "cx_clipboard cx"
  define a where "a = (if after then through_line l r else before_line l)"
  define b where "b = (if after then drop 1 (after_line r) else last_line l @ r)"
  have ab: "con cx = a @ b"
    using assms(2) through_line_split [of l r] line_split(1) [of l] by (simp add: a_def b_def) (metis append_assoc)
  have "blen (a @ b) = blen (l @ r)" using assms(2) ab by metis
  then have sz: "blen (a @ ?t @ b) \<le> cap" using assms(5) by simp
  have p: "is_char_boundary (a @ ?t @ b) (blen a + blen ?t)" using boundary_append [of "a @ ?t" b] by simp
  obtain e' where e: "replace_in ops (blen a) (blen a) ?t cx = Some (cx\<lparr>cx_editor := e'\<rparr>)"
    "normal (cx\<lparr>cx_editor := e'\<rparr>)" "ed_content ops e' = a @ ?t @ b"
    using replace_in_ok [of cx a "[]" b ?t] assms(1) ab sz by auto
  have m: "min (blen a + blen ?t) (blen (con (cx\<lparr>cx_editor := e'\<rparr>))) = blen a + blen ?t"
    using e(3) by (simp add: cx_content_def)
  obtain e'' where e'': "move_to ops (blen a + blen ?t) (cx\<lparr>cx_editor := e'\<rparr>) = Some (cx\<lparr>cx_editor := e''\<rparr>)"
    "normal (cx\<lparr>cx_editor := e''\<rparr>)" "ed_content ops e'' = a @ ?t @ b"
    using move_to_ok [OF e(2), of "blen a + blen ?t"] p e(3) by (auto simp: cx_content_def)
  have "paste ops after cx = Option.bind (replace_in ops (blen a) (blen a) ?t cx)
      (\<lambda>cx. move_to ops (min (blen a + blen ?t) (blen (con cx))) cx)"
    using assms(2-4) False below_line_offset [of l r]
    by (cases after; cases "blen (line_rest r) < blen r") (simp_all add: paste_def Let_def a_def)
  then have "paste ops after cx = Some (cx\<lparr>cx_editor := e''\<rparr>)" using e e'' m by simp
  with e'' show ?thesis by (simp add: a_def b_def Let_def cx_content_def)
qed

subsection \<open>Sequences of keys\<close>

lemma asc_keys [simp]:
  "move_char ops alnum (asc CHR ''d'') cx = None" "pending_of (asc CHR ''d'') = Some (PendOperator Delete)"
  "move_char ops alnum (asc CHR ''y'') cx = None" "pending_of (asc CHR ''y'') = Some (PendOperator Yank)"
  "move_char ops alnum (asc CHR ''p'') cx = None" "pending_of (asc CHR ''p'') = None"
  "move_char ops alnum (asc CHR ''P'') cx = None" "pending_of (asc CHR ''P'') = None"
  "change_char ops alnum (asc CHR ''p'') cx = Some (map_option (set_last_change (Some PasteAfter)) (paste ops True cx))"
  "change_char ops alnum (asc CHR ''P'') cx = Some (map_option (set_last_change (Some PasteBefore)) (paste ops False cx))"
  "move_char ops alnum (asc CHR ''j'') cx = Some (move_vertical ops True cx)"
  "move_char ops alnum (asc CHR ''k'') cx = Some (move_vertical ops False cx)"
  by (simp_all add: move_char_def pending_of_def change_char_def)

lemma delete_then_put_back:
  assumes "normal cx" "ready cx"
  shows "\<exists>cx'. run_keys ops alnum [char_key CHR ''d'', char_key CHR ''d'', char_key CHR ''P''] cx = Some cx'
     \<and> normal cx' \<and> con cx' = con cx"
proof -
  let ?cx = "set_pending None cx"
  obtain l r where lr: "con cx = l @ r" "cur cx = blen l" "blen (l @ r) \<le> cap" using assms by (auto elim: normalE)
  then obtain cx1 where cx1: "apply_line_operator ops alnum Delete ?cx = Some (set_last_change (Some (OperateLine Delete)) cx1)" "normal cx1"
    "con cx1 = before_line l @ drop 1 (after_line r)" "cur cx1 = blen (before_line l)" "cx_clipboard cx1 = whole_line l r"
    "cx_state cx1 = (cx_state ?cx)\<lparr>vs_clipboard_kind := LineWise\<rparr>"
    using delete_line_ok [of ?cx l r alnum] assms(1) by auto
  let ?cx1 = "set_last_change (Some (OperateLine Delete)) cx1"
  have "blen (before_line l @ drop 1 (after_line r)) + blen (whole_line l r) = blen (l @ r)"
    using arg_cong [OF whole_line_split [of l r], of blen] by simp
  then have "blen (before_line l @ drop 1 (after_line r)) + blen (cx_clipboard ?cx1) \<le> cap"
    using lr(3) cx1(5) by simp
  with paste_line_ok [of ?cx1 "before_line l" "drop 1 (after_line r)" False] cx1
  obtain cx2 where cx2: "paste ops False ?cx1 = Some cx2" "normal cx2" "con cx2 = before_line l @ whole_line l r @ drop 1 (after_line r)"
    by (auto simp: Let_def)
  have "ready ?cx1" using assms(2) cx1(6) by (simp add: ready_def)
  then have "run_keys ops alnum [char_key CHR ''d'', char_key CHR ''d'', char_key CHR ''P''] cx
      = Some (set_last_change (Some PasteBefore) cx2)"
    using assms(2) cx1(1) cx2(1) by (simp add: handle_normal_char_def handle_pending_def handle_operator_def ready_def)
  moreover have "con cx2 = con cx" using cx2(3) lr(1) whole_line_split [of l r] by simp
  ultimately show ?thesis using cx2(2) by auto
qed

lemma duplicate_line:
  assumes "normal cx" "ready cx" "con cx = l @ r" "cur cx = blen l" "2 * blen (l @ r) \<le> cap"
  shows "\<exists>cx'. run_keys ops alnum [char_key CHR ''y'', char_key CHR ''y'', char_key CHR ''p''] cx = Some cx'
     \<and> normal cx' \<and> con cx' = through_line l r @ whole_line l r @ drop 1 (after_line r)"
proof -
  let ?cx = "set_pending None cx"
  let ?cx1 = "upd (\<lambda>s. s\<lparr>vs_clipboard_kind := LineWise\<rparr>) (?cx\<lparr>cx_clipboard := whole_line l r\<rparr>)"
  have y: "apply_line_operator ops alnum Yank ?cx = Some ?cx1" using yank_line_ok [of ?cx l r] assms by simp
  have "blen (whole_line l r) \<le> blen (l @ r)" using arg_cong [OF whole_line_split [of l r], of blen] by simp
  then have "blen (l @ r) + blen (whole_line l r) \<le> cap" using assms(5) by simp
  moreover have "normal ?cx1" "con ?cx1 = l @ r" "cur ?cx1 = blen l" using assms by simp_all
  ultimately obtain cx2 where cx2: "paste ops True ?cx1 = Some cx2" "normal cx2"
    "con cx2 = through_line l r @ whole_line l r @ drop 1 (after_line r)"
    using paste_line_ok [of ?cx1 l r True] by (auto simp: Let_def)
  have "ready ?cx1" using assms(2) by (simp add: ready_def)
  then have "run_keys ops alnum [char_key CHR ''y'', char_key CHR ''y'', char_key CHR ''p''] cx
      = Some (set_last_change (Some PasteAfter) cx2)"
    using assms(2) y cx2(1) by (simp add: handle_normal_char_def handle_pending_def handle_operator_def ready_def)
  with cx2 show ?thesis by auto
qed

text \<open>Down and up: the column survives a shorter line.\<close>

lemma down_up:
  assumes "normal cx" "ready cx" "con cx = l @ r" "cur cx = blen l" "after_line r \<noteq> []" "vs_preferred_column (cx_state cx) = None"
  shows "\<exists>cx'. run_keys ops alnum [char_key CHR ''j'', char_key CHR ''k''] cx = Some cx'
     \<and> normal cx' \<and> con cx' = con cx \<and> cur cx' = cur cx"
proof -
  obtain t where t: "after_line r = nl # t" using assms(5) after_line_cases by blast
  let ?k = "length (last_line l)"
  let ?b = "take ?k (line_rest t)"
  let ?m = "target_below ?k l r"
  have m: "?m = (l @ line_rest r) @ nl # ?b" by (simp add: target_below_def t)
  obtain u where u: "l @ r = ?m @ u" using below_prefix by blast
  have "is_char_boundary (con cx) (blen ?m)" using u assms(3) by simp
  from move_to_ok [OF assms(1) this] obtain e1 where e1: "move_to ops (blen ?m) cx = Some (cx\<lparr>cx_editor := e1\<rparr>)"
    "normal (cx\<lparr>cx_editor := e1\<rparr>)" "ed_content ops e1 = con cx" "ed_cursor ops e1 = blen ?m" by blast
  let ?cx1 = "set_column (Some ?k) (cx\<lparr>cx_editor := e1\<rparr>)"
  have j: "move_vertical ops True cx = Some ?cx1"
    using move_vertical_split [OF assms(3,4), of True] assms(6) e1(1) by (simp add: Let_def column_of_def)
  have n1: "normal ?cx1" "con ?cx1 = ?m @ u" "cur ?cx1 = blen ?m" using e1 u assms(3) by (simp_all add: cx_content_def cx_cursor_def)
  have "nl \<notin> set ?b" using set_take_subset line_rest_no_nl by (metis subsetD)
  then have bl: "before_line ?m = (l @ line_rest r) @ [nl]"
    unfolding m using before_line_no_nl [of ?b "(l @ line_rest r) @ [nl]"] before_line_nl [of "l @ line_rest r"] by simp
  have "last_line (l @ line_rest r) = last_line l @ line_rest r" by (rule last_line_append) simp
  moreover have "before_line (l @ line_rest r) = before_line l" by (rule before_line_no_nl) simp
  moreover have "butlast (before_line ?m) = l @ line_rest r" unfolding bl by (rule butlast_snoc)
  ultimately have above: "target_above ?k ?m = l" using bl line_split(1) [of l] by (simp add: target_above_def)
  have "is_char_boundary (con ?cx1) (blen l)" using n1(2) u by (metis boundary_append)
  from move_to_ok [OF n1(1) this] obtain e2 where e2: "move_to ops (blen l) ?cx1 = Some (?cx1\<lparr>cx_editor := e2\<rparr>)"
    "normal (?cx1\<lparr>cx_editor := e2\<rparr>)" "ed_content ops e2 = con ?cx1" "ed_cursor ops e2 = blen l" by blast
  have k: "move_vertical ops False ?cx1 = Some (set_column (Some ?k) (?cx1\<lparr>cx_editor := e2\<rparr>))"
    using move_vertical_split [OF n1(2,3), of False] e2(1) above by (simp add: Let_def column_of_def)
  have "ready ?cx1" using assms(2) by (simp add: ready_def)
  with j k have "run_keys ops alnum [char_key CHR ''j'', char_key CHR ''k''] cx = Some (set_column (Some ?k) (?cx1\<lparr>cx_editor := e2\<rparr>))"
    using assms(2) by (simp add: handle_normal_char_def)
  then show ?thesis using e1 e2 n1(2) u assms(3,4) by (simp add: cx_content_def cx_cursor_def)
qed

text \<open>Repeating an insertion. Between the command and the escape the user types into the editor.\<close>

definition typed :: "'e \<Rightarrow> 'e vim_context \<Rightarrow> 'e vim_context" where
  "typed e cx = cx\<lparr>cx_editor := e\<rparr>"

lemma repeat_insertion:
  assumes "normal cx" "ready cx" "con cx = l @ r" "cur cx = blen l" "t \<noteq> []" "insertable t"
    "ok e" "plain e" "ed_content ops e = l @ t @ r" "ed_cursor ops e = blen (l @ t)" "blen (l @ t @ t @ r) \<le> cap"
  shows "\<exists>cx1 cx2. run_keys ops alnum [char_key CHR ''i''] cx = Some cx1 \<and> cx_editor cx1 = cx_editor cx
     \<and> run_keys ops alnum [esc_key, char_key CHR ''.''] (typed e cx1) = Some cx2
     \<and> normal cx2 \<and> con cx2 = l @ t @ t @ r \<and> cur cx2 = blen (l @ t @ t)"
proof -
  let ?cx1 = "start_insert ops InsertHere cx"
  have i: "run_keys ops alnum [char_key CHR ''i''] cx = Some ?cx1"
    using assms(2) by (simp add: handle_normal_char_def move_char_def pending_of_def change_char_def insert_command_def)
  let ?cx = "set_last_change (Some (InsertText InsertHere t)) (upd (\<lambda>s. s\<lparr>vs_insert_capture := None\<rparr>) (typed e ?cx1))"
  have sl: "slice (l @ t @ r) (blen l) (blen l + blen t) = Some t" by simp
  then have "finish_insert_capture ops (typed e ?cx1) = Some ?cx"
    using assms(4,5,9,10)
    by (simp add: finish_insert_capture_def Let_def typed_def start_insert_def upd_def cx_content_def cx_cursor_def)
  then have esc: "handle_key ops alnum esc_key (typed e ?cx1)
      = Some (\<lparr>ko_handled = True, ko_clear_selection = True\<rparr>, set_pending None (set_mode ModeNormal ?cx))"
    using assms(2)
    by (simp add: handle_key_def handle_insert_key_def esc_key_def typed_def start_insert_def upd_def ready_def)
  let ?cx2 = "set_pending None (set_mode ModeNormal ?cx)"
  have r2: "ready ?cx2" using assms(2) by (simp add: ready_def typed_def start_insert_def upd_def)
  have ed: "cx_editor ?cx2 = e" "vs_last_change (cx_state ?cx2) = Some (InsertText InsertHere t)" "vs_insert_capture (cx_state ?cx2) = None"
    by (simp_all add: typed_def)
  have "blen (ed_content ops e) + blen t \<le> cap" using assms(9,11) by simp
  from insert_law [OF assms(7) this] obtain e' where e': "ed_insert_text ops t e = Some e'" "ok e'"
    "\<And>l r. plain e \<and> ed_content ops e = l @ r \<and> ed_cursor ops e = blen l \<Longrightarrow>
       \<exists>t'. ed_content ops e' = l @ t' @ r \<and> ed_cursor ops e' = blen (l @ t') \<and> (insertable t \<longrightarrow> t' = t)" by blast
  from e'(3) [of "l @ t" r] assms(6,8-10) have c: "ed_content ops e' = l @ t @ t @ r" "ed_cursor ops e' = blen (l @ t @ t)" by auto
  let ?cx3 = "set_mode ModeNormal (?cx2\<lparr>cx_editor := e'\<rparr>)"
  have "handle_normal_char ops alnum (asc CHR ''.'') ?cx2 = Some (True, ?cx3)"
    using ed e'(1) by (simp add: handle_normal_char_def move_char_def pending_of_def change_char_def repeat_last_change_def
        repeat_insert_def edit_def)
  then have "run_keys ops alnum [esc_key, char_key CHR ''.''] (typed e ?cx1) = Some ?cx3"
    using r2 esc by (simp add: run_keys.simps(2) [of _ _ esc_key])
  moreover have "normal ?cx3" using e'(2) ed(3) by (simp add: normal_def)
  moreover have "con ?cx3 = l @ t @ t @ r" "cur ?cx3 = blen (l @ t @ t)" using c by (simp_all add: cx_content_def cx_cursor_def)
  moreover have "cx_editor ?cx1 = cx_editor cx" by (simp add: start_insert_def)
  ultimately show ?thesis using i by blast
qed

text \<open>Where opening a line leaves the cursor: one character behind the new newline, so at the start of the text
  that followed.\<close>

lemma open_above_types_into_old_line:
  assumes "normal cx" "ready cx" "con cx = l @ r" "cur cx = blen l" "blen (l @ r) + 1 \<le> cap"
  shows "\<exists>cx'. run_keys ops alnum [char_key CHR ''O''] cx = Some cx' \<and> inserting cx' \<and> plain (cx_editor cx')
     \<and> con cx' = (before_line l @ [nl]) @ last_line l @ r \<and> cur cx' = blen (before_line l @ [nl])"
proof -
  let ?a = "before_line l"
  have s: "con cx = ?a @ last_line l @ r" using assms(3) by (metis append_assoc line_split(1))
  have "blen (?a @ [nl] @ last_line l @ r) \<le> cap" using assms(3,5) s by (metis blen_append blen.simps len_utf8_nl add.commute add.left_commute One_nat_def add_0_right)
  moreover have "is_char_boundary (?a @ [nl] @ last_line l @ r) (blen ?a + 1)" using boundary_append [of "?a @ [nl]"] by simp
  ultimately obtain cx1 where cx1: "Option.bind (replace_in ops (blen ?a) (blen ?a) [nl] cx) (move_to ops (blen ?a + 1)) = Some cx1"
    "normal cx1" "plain (cx_editor cx1)" "con cx1 = ?a @ [nl] @ last_line l @ r" "cur cx1 = blen ?a + 1"
    using insert_and_move [OF assms(1) s, of "[nl]" "blen ?a + 1"] by blast
  then have "open_line ops False cx = Some cx1" using assms(3,4) by (simp add: open_line_def)
  then have "run_keys ops alnum [char_key CHR ''O''] cx = Some (start_insert ops OpenAbove cx1)"
    using assms(2) by (simp add: handle_normal_char_def move_char_def pending_of_def change_char_def insert_command_def)
  moreover have "inserting (start_insert ops OpenAbove cx1)" using normal_boundary [OF cx1(2)] cx1(2)
    by (simp add: inserting_def start_insert_def normal_def)
  ultimately show ?thesis using cx1 by (simp add: start_insert_def)
qed

end

end
