(* ===== verification/Input_Facts.thy ===== *)
theory Input_Facts
  imports Composer_Edits Vim_Effects
begin

text \<open>
  The contract of the text area, what the input manager's operations do to the text under that contract, and
  the interpretation of the Vim engine's contract \<open>editor\<close> on the composer. The contract itself is interpreted on a
  text area kept as the texts before and after the cursor.
\<close>

section \<open>Replacing a range of the lines\<close>

lemma before_cut_extend: "before_cut (a @ (w @ p) # q) z = before_cut a w @ before_cut (p # q) z"
  by (induction a) simp_all

lemma cut_order:
  assumes eq: "a @ (w @ v) # b = a' @ (w' @ v') # b'" and le: "blen (before_cut a w) \<le> blen (before_cut a' w')"
  obtains (same) u where "a' = a" "b' = b" "w' = w @ u" "v = u @ v'"
  | (across) c where "a' = a @ (w @ v) # c" "b = c @ (w' @ v') # b'"
proof -
  consider "length a < length a'" | "length a = length a'" | "length a' < length a" by linarith
  then show thesis
  proof cases
    case 1
    then have "a' = a @ drop (length a) a'" "drop (length a) a' \<noteq> []"
      using arg_cong [OF eq, of "take (length a)"] append_take_drop_id [of "length a" a'] by simp_all
    then obtain x c where "a' = a @ x # c" by (metis neq_Nil_conv)
    with eq across show thesis by simp
  next
    case 2
    with eq have e: "a' = a" "w @ v = w' @ v'" "b = b'" by simp_all
    with le have "length w \<le> length w'"
      using before_cut_append [of a "[]" w] before_cut_append [of a "[]" w'] blen_append
      by (auto simp: append_eq_append_conv2)
    with e(2) obtain u where "w' = w @ u" by (auto simp: append_eq_append_conv2)
    with e same show thesis by simp
  next
    case 3
    then have "a = a' @ drop (length a') a" "drop (length a') a \<noteq> []"
      using arg_cong [OF eq, of "take (length a')"] append_take_drop_id [of "length a'" a] by simp_all
    then obtain x c where a: "a = a' @ x # c" by (metis neq_Nil_conv)
    with eq have "x = w' @ v'" by simp
    with a le show thesis by (simp add: before_cut_extend)
  qed
qed

lemma replace_nowhere: "row < n \<Longrightarrow> concat (map (\<lambda>(i, line). if i = row then new else [line]) (enumerate n b)) = b"
  by (induction b arbitrary: n) auto

lemma replace_in_line_at: "replace_in_line (a @ x # b) (length a) new = a @ new @ b"
proof -
  have "concat (map (\<lambda>(i, line). if i = n + length a then new else [line]) (enumerate n (a @ x # b))) = a @ new @ b" for n
  proof (induction a arbitrary: n)
    case (Cons y a)
    from Cons.IH [of "Suc n"] show ?case by simp
  qed (simp add: replace_nowhere)
  from this [of 0] show ?thesis by (simp add: replace_in_line_def)
qed

lemma replace_after:
  assumes "s < n"
  shows "concat (map (\<lambda>(i, line). if i < s then [line] else if i = s then new else if n + length c < i then [line] else [])
    (enumerate n (c @ y # b))) = b"
  using assms
proof (induction c arbitrary: n)
  case Nil
  have "concat (map (\<lambda>(i, line). if i < s then [line] else if i = s then new else if k < i then [line] else []) (enumerate m b)) = b"
    if "k < m" "s < m" for k m
    using that by (induction b arbitrary: m) auto
  from this [of n "Suc n"] Nil show ?case by (simp cong: if_cong)
next
  case (Cons z c)
  from Cons.IH [of "Suc n"] Cons.prems show ?case by (simp cong: if_cong)
qed

lemma replace_across_at: "replace_across (a @ x # c @ y # b) (length a) (length a + 1 + length c) new = a @ new @ b"
proof -
  have "concat (map (\<lambda>(i, line). if i < n + length a then [line] else if i = n + length a then new
      else if n + length a + 1 + length c < i then [line] else []) (enumerate n (a @ x # c @ y # b))) = a @ new @ b" for n
  proof (induction a arbitrary: n)
    case Nil
    from replace_after [of n "Suc n" new c y b] show ?case by (simp cong: if_cong)
  next
    case (Cons z a)
    from Cons.IH [of "Suc n"] show ?case by (simp cong: if_cong)
  qed
  from this [of 0] show ?thesis by (simp add: replace_across_def cong: if_cong)
qed

lemma join_insert_parts: "join_nl (a @ insert_parts w (split_nl t) v @ b) = before_cut a w @ t @ after_cut v b"
proof (cases "split_nl t")
  case (Cons p ps)
  then have t: "t = join_nl (p # ps)" by (metis join_split_nl)
  show ?thesis
  proof (cases "ps = []")
    case True
    with Cons t join_cut [of a "w @ p" v b] show ?thesis by (simp add: insert_parts_def before_cut_append)
  next
    case False
    have "join_nl (a @ insert_parts w (split_nl t) v @ b)
        = join_nl ((a @ (w @ p) # butlast ps) @ (last ps @ v) # b)"
      using Cons False by (simp add: insert_parts_def Suc_le_eq not_less)
    also have "\<dots> = before_cut a w @ before_cut (p # butlast ps) (last ps) @ after_cut v b"
      unfolding join_cut before_cut_extend by simp
    also have "before_cut (p # butlast ps) (last ps) = t" using False t by (simp add: before_cut_def)
    finally show ?thesis .
  qed
qed simp

lemma one_line_insert_parts:
  assumes "one_line (a @ (w @ v) # b)" "one_line (a' @ (w' @ v') # b')"
  shows "one_line (a @ insert_parts w (split_nl t) v' @ b')"
  using assms split_nl_no_nl [of _ t] hd_in_set [OF split_nl_neq_Nil, of t] last_in_set [OF split_nl_neq_Nil, of t]
  by (auto simp: one_line_def insert_parts_def dest!: in_set_butlastD dest: list.set_sel(2) [OF split_nl_neq_Nil])

lemma replaced_lines_splice:
  assumes "one_line ls" "start \<le> stop"
  obtains l m r new where "join_nl ls = l @ m @ r" "greatest_boundary (join_nl ls) start (blen l)"
    "greatest_boundary (join_nl ls) stop (blen l + blen m)"
    "replaced_lines ls start stop t = Some new" "one_line new" "join_nl new = l @ t @ r"
proof -
  have ne: "ls \<noteq> []" using assms(1) by (simp add: one_line_def)
  obtain a w v b where c: "ls = a @ (w @ v) # b" "byte_offset_to_row_col ls start = Some (length a, length w)"
    "greatest_boundary (join_nl ls) start (blen (before_cut a w))" using locate [OF ne] by metis
  obtain a' w' v' b' where c': "ls = a' @ (w' @ v') # b'" "byte_offset_to_row_col ls stop = Some (length a', length w')"
    "greatest_boundary (join_nl ls) stop (blen (before_cut a' w'))" using locate [OF ne] by metis
  let ?new = "a @ insert_parts w (split_nl t) v' @ b'"
  have le: "blen (before_cut a w) \<le> blen (before_cut a' w')"
    using c(3) c'(3) assms(2) by (auto simp: greatest_boundary_def)
  have "\<exists>m. before_cut a' w' = before_cut a w @ m \<and> replaced_lines ls start stop t = Some ?new"
  proof (rule cut_order [OF c(1) [unfolded c'(1), symmetric] le])
    fix u assume e: "a' = a" "b' = b" "w' = w @ u" "v = u @ v'"
    have "slice_to (w @ v) (blen w) = Some w" by simp
    moreover have "slice_from (w @ v) (blen (w @ u)) = Some v'" using slice_from_append [of "w @ u" v'] e(4) by simp
    ultimately have "replaced_lines ls start stop t = Some ?new"
      using c(2) c'(2) e by (simp add: replaced_lines_def c(1) char_col_take replace_in_line_at)
    then show ?thesis using e by (simp add: before_cut_append)
  next
    fix c assume e: "a' = a @ (w @ v) # c" "b = c @ (w' @ v') # b'"
    have "ls ! length a' = w' @ v'" "length a' < length ls" by (simp_all add: c'(1))
    moreover have "length a' = length a + 1 + length c" by (simp add: e(1))
    moreover have "ls ! length a = w @ v" by (simp add: c(1))
    moreover have "replace_across ls (length a) (length a + 1 + length c) (insert_parts w (split_nl t) v') = ?new"
      using replace_across_at [of a "w @ v" c "w' @ v'" b'] by (simp add: c(1) e(2))
    ultimately have "replaced_lines ls start stop t = Some ?new"
      using c(2) c'(2) by (simp add: replaced_lines_def char_col_take)
    then show ?thesis using e by (simp add: before_cut_extend)
  qed
  then obtain m where m: "before_cut a' w' = before_cut a w @ m" "replaced_lines ls start stop t = Some ?new" by blast
  show thesis
  proof (rule that [OF _ c(3) _ m(2)])
    show "join_nl ls = before_cut a w @ m @ after_cut v' b'" using m(1) by (simp add: c'(1))
    show "greatest_boundary (join_nl ls) stop (blen (before_cut a w) + blen m)" using c'(3) m(1) by simp
    show "one_line ?new" using assms(1) one_line_insert_parts c(1) c'(1) by metis
    show "join_nl ?new = before_cut a w @ t @ after_cut v' b'" by (rule join_insert_parts)
  qed
qed

section \<open>The caret of a text area\<close>

definition caret :: "'t textarea_lib \<Rightarrow> 't \<Rightarrow> rtext \<Rightarrow> rtext \<Rightarrow> bool" where
  "caret lib t l r \<longleftrightarrow>
     (\<exists>a w v b. ta_lines lib t = a @ (w @ v) # b \<and> ta_cursor lib t = (length a, length w)
        \<and> l = before_cut a w \<and> r = after_cut v b)"

lemma caret_text: "caret lib t l r \<Longrightarrow> join_nl (ta_lines lib t) = l @ r"
  unfolding caret_def by (elim exE conjE) (metis join_cut)

lemma caret_offset:
  "caret lib t l r \<Longrightarrow> (case ta_cursor lib t of (row, col) \<Rightarrow> row_col_to_byte_offset (ta_lines lib t) row col) = blen l"
  by (auto simp: caret_def)

lemma caret_unique: "caret lib t l r \<Longrightarrow> caret lib t l' r' \<Longrightarrow> l = l' \<and> r = r'"
  using caret_text caret_offset append_eq_blen by metis

lemma caret_cong: "ta_lines lib t' = ta_lines lib t \<Longrightarrow> ta_cursor lib t' = ta_cursor lib t \<Longrightarrow> caret lib t' = caret lib t"
  by (intro ext) (simp add: caret_def)

text \<open>
  The documented behaviour of the text area. \<open>good\<close> are the text areas its methods produce; a row is never out of
  range there and lines have no line break. Carriage returns before a line break are dropped by
  \<open>insert_str\<close>. A text area that is selecting deletes the selection first.
\<close>

locale textarea =
  fixes lib :: "'t textarea_lib"
    and good :: "'t \<Rightarrow> bool"
    and selecting :: "'t \<Rightarrow> bool"
  assumes view_law: "good t \<Longrightarrow> one_line (ta_lines lib t) \<and> (\<exists>l r. caret lib t l r)"
    and default_law: "good (ta_default lib) \<and> ta_lines lib (ta_default lib) = [[]] \<and> \<not> selecting (ta_default lib)"
    and from_law: "one_line ls \<Longrightarrow> good (ta_from lib ls) \<and> ta_lines lib (ta_from lib ls) = ls \<and> \<not> selecting (ta_from lib ls)"
    and histories_law: "good t \<Longrightarrow> good (ta_set_max_histories lib n t)
         \<and> ta_lines lib (ta_set_max_histories lib n t) = ta_lines lib t
         \<and> ta_cursor lib (ta_set_max_histories lib n t) = ta_cursor lib t
         \<and> selecting (ta_set_max_histories lib n t) = selecting t"
    and tab_law: "good t \<Longrightarrow> good (ta_set_tab_length lib n t)
         \<and> ta_lines lib (ta_set_tab_length lib n t) = ta_lines lib t
         \<and> ta_cursor lib (ta_set_tab_length lib n t) = ta_cursor lib t
         \<and> selecting (ta_set_tab_length lib n t) = selecting t"
    and move_law: "good t \<Longrightarrow> good (ta_move_cursor lib d t) \<and> ta_lines lib (ta_move_cursor lib d t) = ta_lines lib t
         \<and> selecting (ta_move_cursor lib d t) = selecting t"
    and jump_law: "good t \<Longrightarrow> ta_lines lib t = a @ w # b \<Longrightarrow> min row (length a + length b) = length a \<Longrightarrow>
         ta_cursor lib (ta_move_cursor lib (MoveJump row col) t) = (length a, min col (length w))"
    and end_law: "good t \<Longrightarrow> ta_cursor lib (ta_move_cursor lib MoveEnd (ta_move_cursor lib MoveBottom t))
         = (length (ta_lines lib t) - 1, length (last (ta_lines lib t)))"
    and back_law: "good t \<Longrightarrow> caret lib t (l @ [c]) r \<Longrightarrow> caret lib (ta_move_cursor lib MoveBack t) l (c # r)"
    and forward_law: "good t \<Longrightarrow> caret lib t l (c # r) \<Longrightarrow> caret lib (ta_move_cursor lib MoveForward t) (l @ [c]) r"
    and start_law: "good t \<Longrightarrow> good (ta_start_selection lib t) \<and> ta_lines lib (ta_start_selection lib t) = ta_lines lib t
         \<and> ta_cursor lib (ta_start_selection lib t) = ta_cursor lib t"
    and cancel_law: "good t \<Longrightarrow> good (ta_cancel_selection lib t) \<and> ta_lines lib (ta_cancel_selection lib t) = ta_lines lib t
         \<and> ta_cursor lib (ta_cancel_selection lib t) = ta_cursor lib t \<and> \<not> selecting (ta_cancel_selection lib t)"
    and insert_size: "good t \<Longrightarrow> good (ta_insert_str lib s t)
         \<and> blen (join_nl (ta_lines lib (ta_insert_str lib s t))) \<le> blen (join_nl (ta_lines lib t)) + blen s"
    and insert_law: "good t \<Longrightarrow> \<not> selecting t \<Longrightarrow> caret lib t l r \<Longrightarrow>
         \<not> selecting (ta_insert_str lib s t)
         \<and> (\<exists>s'. caret lib (ta_insert_str lib s t) (l @ s') r \<and> (13 \<notin> set s \<longrightarrow> s' = s))"
    and insert_char_size: "good t \<Longrightarrow> good (ta_insert_char lib c t)
         \<and> blen (join_nl (ta_lines lib (ta_insert_char lib c t))) \<le> blen (join_nl (ta_lines lib t)) + len_utf8 c"
    and insert_char_law: "good t \<Longrightarrow> \<not> selecting t \<Longrightarrow> caret lib t l r \<Longrightarrow> c \<noteq> 13 \<Longrightarrow>
         \<not> selecting (ta_insert_char lib c t) \<and> caret lib (ta_insert_char lib c t) (l @ [c]) r"
    and delete_size: "good t \<Longrightarrow> good (ta_delete_char lib t) \<and> good (ta_delete_next_char lib t) \<and> good (ta_delete_next_word lib t)
         \<and> blen (join_nl (ta_lines lib (ta_delete_char lib t))) \<le> blen (join_nl (ta_lines lib t))
         \<and> blen (join_nl (ta_lines lib (ta_delete_next_char lib t))) \<le> blen (join_nl (ta_lines lib t))
         \<and> blen (join_nl (ta_lines lib (ta_delete_next_word lib t))) \<le> blen (join_nl (ta_lines lib t))"
    and delete_char_law: "good t \<Longrightarrow> \<not> selecting t \<Longrightarrow> caret lib t (l @ [c]) r \<Longrightarrow>
         \<not> selecting (ta_delete_char lib t) \<and> caret lib (ta_delete_char lib t) l r"
    and delete_next_law: "good t \<Longrightarrow> \<not> selecting t \<Longrightarrow> caret lib t l (c # r) \<Longrightarrow>
         \<not> selecting (ta_delete_next_char lib t) \<and> caret lib (ta_delete_next_char lib t) l r"
    and delete_word_law: "good t \<Longrightarrow> \<not> selecting t \<Longrightarrow> caret lib t l r \<Longrightarrow>
         \<not> selecting (ta_delete_next_word lib t) \<and> (\<exists>m r'. r = m @ r' \<and> caret lib (ta_delete_next_word lib t) l r')"
    and undo_law: "good t \<Longrightarrow> good (snd (ta_undo lib t)) \<and> (\<not> fst (ta_undo lib t) \<longrightarrow> ta_lines lib (snd (ta_undo lib t)) = ta_lines lib t)"
    and redo_law: "good t \<Longrightarrow> good (snd (ta_redo lib t)) \<and> (\<not> fst (ta_redo lib t) \<longrightarrow> ta_lines lib (snd (ta_redo lib t)) = ta_lines lib t)"
begin

abbreviation "text_of m \<equiv> im_content_cache m"

definition ok :: "'t input_manager \<Rightarrow> bool" where
  "ok m \<longleftrightarrow> good (im_textarea m) \<and> im_content_cache m = join_nl (im_lines lib m) \<and> blen (im_content_cache m) \<le> 65535"

definition plain :: "'t input_manager \<Rightarrow> bool" where
  "plain m \<longleftrightarrow> im_selection_anchor m = None \<and> \<not> selecting (im_textarea m)"

definition at :: "'t input_manager \<Rightarrow> rtext \<Rightarrow> rtext \<Rightarrow> bool" where
  "at m l r \<longleftrightarrow> ok m \<and> caret lib (im_textarea m) l r"

lemma okD:
  assumes "ok m"
  shows "good (im_textarea m)" "one_line (im_lines lib m)" "im_content_cache m = join_nl (im_lines lib m)"
    "im_lines lib m \<noteq> []" "blen (join_nl (im_lines lib m)) \<le> 65535"
  using assms view_law [of "im_textarea m"] by (auto simp: ok_def im_lines_def one_line_def)

lemma atE:
  assumes "ok m"
  obtains l r where "at m l r"
  using assms okD(1) view_law unfolding at_def by blast

lemma at_content: "at m l r \<Longrightarrow> im_content_cache m = l @ r" and at_cursor: "at m l r \<Longrightarrow> im_cursor lib m = blen l"
  using okD(3) [of m] caret_text caret_offset [of lib "im_textarea m" l r] by (auto simp: at_def im_lines_def im_cursor_def)

lemma at_intro: "ok m \<Longrightarrow> im_content_cache m = l @ r \<Longrightarrow> im_cursor lib m = blen l \<Longrightarrow> at m l r"
  using atE at_content at_cursor append_eq_blen by metis

lemma configure_facts:
  assumes "good t"
  shows "good (configure_textarea lib t)" "ta_lines lib (configure_textarea lib t) = ta_lines lib t"
    "ta_cursor lib (configure_textarea lib t) = ta_cursor lib t" "selecting (configure_textarea lib t) = selecting t"
  using histories_law [OF assms, of 50] tab_law [of "ta_set_max_histories lib 50 t" 4] by (simp_all add: configure_textarea_def)

lemma rows_bounded: "one_line ls \<Longrightarrow> length ls \<le> blen (join_nl ls) + 1"
proof (induction ls)
  case (Cons l ls)
  then show ?case by (cases "ls = []") (simp_all add: join_nl_Cons one_line_def)
qed simp

lemma length_le_blen: "length s \<le> blen s"
proof (induction s)
  case (Cons c s)
  have "0 < len_utf8 c" by simp
  with Cons show ?case by (simp del: len_utf8_pos)
qed simp

lemma blen_cut: "blen (before_cut a w) + blen (after_cut v b) = blen (join_nl (a @ (w @ v) # b))"
  by simp

text \<open>Jumping to a position of the text reaches it: rows and columns fit in 16 bits.\<close>

lemma jump_to_cut:
  assumes "good t" "ta_lines lib t = a @ (w @ v) # b" "blen (join_nl (ta_lines lib t)) \<le> 65535"
  shows "caret lib (ta_move_cursor lib (MoveJump (u16_clamp (length a)) (u16_clamp (length w))) t) (before_cut a w) (after_cut v b)"
proof -
  have ls: "one_line (ta_lines lib t)" using view_law [OF assms(1)] by simp
  have "length a < 2 ^ 16" using rows_bounded [OF ls] assms(2,3) by simp
  moreover have "length w < 2 ^ 16"
    using length_le_blen [of w] assms(2,3) before_cut_append [of a "[]" w] by simp
  ultimately have "ta_cursor lib (ta_move_cursor lib (MoveJump (u16_clamp (length a)) (u16_clamp (length w))) t) = (length a, length w)"
    using jump_law [OF assms(1,2), of "length a" "length w"] by (simp add: u16_clamp_def)
  then show ?thesis using move_law [OF assms(1)] assms(2) by (auto simp: caret_def)
qed

lemma set_textarea_simps [simp]:
  "im_textarea (set_textarea t m) = t" "im_content_cache (set_textarea t m) = im_content_cache m"
  "im_selection_anchor (set_textarea t m) = im_selection_anchor m" "im_lines lib (set_textarea t m) = ta_lines lib t"
  "im_compact_paste_range (set_textarea t m) = im_compact_paste_range m"
  by (simp_all add: set_textarea_def im_lines_def)

lemma track_simps [simp]:
  "im_textarea (track_compact_paste_replace a b n m) = im_textarea m"
  "im_content_cache (track_compact_paste_replace a b n m) = im_content_cache m"
  "im_selection_anchor (track_compact_paste_replace a b n m) = im_selection_anchor m"
  "im_lines lib (track_compact_paste_replace a b n m) = im_lines lib m"
  by (simp_all add: track_compact_paste_replace_def im_lines_def)

lemma refresh_simps [simp]:
  "im_textarea (refresh_content_cache lib m) = im_textarea m"
  "im_content_cache (refresh_content_cache lib m) = join_nl (im_lines lib m)"
  "im_selection_anchor (refresh_content_cache lib m) = im_selection_anchor m"
  "im_lines lib (refresh_content_cache lib m) = im_lines lib m"
  "im_compact_paste_range (refresh_content_cache lib m) = im_compact_paste_range m"
  by (simp_all add: refresh_content_cache_def im_lines_def)

lemma clear_simps [simp]:
  "im_textarea (clear_selection lib m) = ta_cancel_selection lib (im_textarea m)"
  "im_content_cache (clear_selection lib m) = im_content_cache m" "im_selection_anchor (clear_selection lib m) = None"
  "im_compact_paste_range (clear_selection lib m) = im_compact_paste_range m"
  by (simp_all add: clear_selection_def)

lemma at_ok: "at m l r \<Longrightarrow> ok m"
  by (simp add: at_def)

lemma ok_refresh: "good (im_textarea m) \<Longrightarrow> blen (join_nl (im_lines lib m)) \<le> 65535 \<Longrightarrow> ok (refresh_content_cache lib m)"
  by (simp add: ok_def)

lemma cancel_caret: "good t \<Longrightarrow> caret lib (ta_cancel_selection lib t) = caret lib t"
  using cancel_law caret_cong by metis

lemma clear_at: "at m l r \<Longrightarrow> at (clear_selection lib m) l r \<and> plain (clear_selection lib m)"
  using cancel_law [OF okD(1) [OF at_ok]] cancel_caret [OF okD(1) [OF at_ok]]
  by (auto simp: at_def ok_def plain_def im_lines_def)

lemma jump_at:
  assumes "good (im_textarea m)" "blen (join_nl (im_lines lib m)) \<le> 65535"
  obtains t l r where "jump_to_offset lib p m = Some (set_textarea t m)" "good t" "ta_lines lib t = im_lines lib m"
    "caret lib t l r" "greatest_boundary (join_nl (im_lines lib m)) p (blen l)"
proof -
  have ne: "im_lines lib m \<noteq> []" using view_law [OF assms(1)] by (simp add: im_lines_def one_line_def)
  obtain a w v b where c: "im_lines lib m = a @ (w @ v) # b"
    "byte_offset_to_row_col (im_lines lib m) p = Some (length a, length w)"
    "greatest_boundary (join_nl (im_lines lib m)) p (blen (before_cut a w))" using locate [OF ne] by metis
  let ?t = "ta_move_cursor lib (MoveJump (u16_clamp (length a)) (u16_clamp (length w))) (im_textarea m)"
  have "caret lib ?t (before_cut a w) (after_cut v b)"
    using jump_to_cut [OF assms(1), of a w v b] c(1) assms(2) by (simp add: im_lines_def)
  with c move_law [OF assms(1)] that [of ?t] show thesis by (simp add: jump_to_offset_def set_textarea_cursor_def im_lines_def)
qed

lemma set_cursor_at:
  assumes "good (im_textarea m)" "blen (join_nl (im_lines lib m)) \<le> 65535"
  obtains t l r where "im_set_cursor lib p m = Some (clear_selection lib (set_textarea t m))" "good t"
    "ta_lines lib t = im_lines lib m" "caret lib t l r" "greatest_boundary (join_nl (im_lines lib m)) p (blen l)"
  using jump_at [OF assms, of p] by (metis im_set_cursor_def option.simps(9))

lemma set_cursor_ok:
  assumes "ok m"
  obtains m' l r where "im_set_cursor lib p m = Some m'" "at m' l r" "plain m'" "im_content_cache m' = im_content_cache m"
    "greatest_boundary (im_content_cache m) p (blen l)" "im_compact_paste_range m' = im_compact_paste_range m"
proof -
  obtain t l r where t: "im_set_cursor lib p m = Some (clear_selection lib (set_textarea t m))" "good t"
    "ta_lines lib t = im_lines lib m" "caret lib t l r" "greatest_boundary (join_nl (im_lines lib m)) p (blen l)"
    using set_cursor_at [OF okD(1) [OF assms] okD(5) [OF assms]] by metis
  with okD [OF assms] have "at (set_textarea t m) l r" by (simp add: at_def ok_def)
  from clear_at [OF this] t(1,5) okD(3) [OF assms] show thesis
    by (intro that [of "clear_selection lib (set_textarea t m)" l r]) simp_all
qed

lemma set_content_ok:
  assumes "blen c \<le> 65535"
  shows "at (set_content lib c m) c [] \<and> plain (set_content lib c m) \<and> im_compact_paste_range (set_content lib c m) = None"
proof -
  let ?ls = "split_nl c"
  have o: "one_line ?ls" using split_nl_no_nl by (auto simp: one_line_def)
  let ?t = "textarea_at_end lib c"
  from from_law [OF o] have t: "good ?t" "ta_lines lib ?t = ?ls" "\<not> selecting ?t"
    using configure_facts [of "ta_from lib ?ls"] move_law by (simp_all add: textarea_at_end_def)
  have "ta_cursor lib ?t = (length ?ls - 1, length (last ?ls))"
    using end_law configure_facts [of "ta_from lib ?ls"] from_law [OF o] by (simp add: textarea_at_end_def)
  then have "caret lib ?t c []"
    unfolding caret_def
    by (intro exI [of _ "butlast ?ls"] exI [of _ "last ?ls"] exI [of _ "[]"]) (simp add: t(2) before_cut_def)
  with t cancel_law [OF t(1)] cancel_caret [OF t(1)] assms show ?thesis
    by (simp add: at_def ok_def plain_def set_content_def reset_history_navigation_def im_lines_def
        refresh_content_cache_def clear_selection_def set_textarea_def)
qed

lemma replace_range_at:
  assumes "ok m" "start \<le> stop"
  obtains l mid r where "im_content_cache m = l @ mid @ r" "greatest_boundary (im_content_cache m) start (blen l)"
    "greatest_boundary (im_content_cache m) stop (blen l + blen mid)"
    "blen (l @ t @ r) \<le> 65535 \<Longrightarrow> \<exists>m' l' r'. im_replace_range lib start stop t m = Some m' \<and> at m' l' r' \<and> plain m'
       \<and> im_content_cache m' = l @ t @ r \<and> greatest_boundary (l @ t @ r) (start + blen t) (blen l')
       \<and> im_compact_paste_range m' = Option.bind (im_compact_paste_range m) (track_range start stop (blen t))"
proof -
  obtain l mid r new where n: "join_nl (im_lines lib m) = l @ mid @ r"
    "greatest_boundary (join_nl (im_lines lib m)) start (blen l)"
    "greatest_boundary (join_nl (im_lines lib m)) stop (blen l + blen mid)"
    "replaced_lines (im_lines lib m) start stop t = Some new" "one_line new" "join_nl new = l @ t @ r"
    using replaced_lines_splice [OF okD(2) [OF assms(1)] assms(2), of t] by metis
  let ?t = "configure_textarea lib (ta_from lib new)"
  let ?m = "set_textarea ?t (track_compact_paste_replace start stop (blen t) m)"
  have t: "good ?t" "ta_lines lib ?t = new"
    using from_law [OF n(5)] configure_facts [of "ta_from lib new"] by simp_all
  have "\<exists>m' l' r'. im_replace_range lib start stop t m = Some m' \<and> at m' l' r' \<and> plain m'
       \<and> im_content_cache m' = l @ t @ r \<and> greatest_boundary (l @ t @ r) (start + blen t) (blen l')
       \<and> im_compact_paste_range m' = Option.bind (im_compact_paste_range m) (track_range start stop (blen t))"
    if size: "blen (l @ t @ r) \<le> 65535"
  proof -
    obtain t' l' r' where s: "im_set_cursor lib (start + blen t) ?m = Some (clear_selection lib (set_textarea t' ?m))"
      "good t'" "ta_lines lib t' = new" "caret lib t' l' r'" "greatest_boundary (join_nl new) (start + blen t) (blen l')"
      using set_cursor_at [of ?m "start + blen t"] t n(6) size by auto
    let ?m' = "refresh_content_cache lib (clear_selection lib (set_textarea t' ?m))"
    have c: "im_textarea ?m' = ta_cancel_selection lib t'" "im_lines lib ?m' = new"
      using cancel_law [OF s(2)] s(3) by (simp_all add: im_lines_def)
    then have "at ?m' l' r'" "plain ?m'"
      using cancel_law [OF s(2)] cancel_caret [OF s(2)] s(4) n(6) size by (simp_all add: at_def ok_def plain_def)
    moreover have "im_replace_range lib start stop t m = Some ?m'"
      using n(4) s(1) by (simp add: im_replace_range_def)
    moreover have "im_content_cache ?m' = l @ t @ r" using c(2) n(6) by simp
    moreover have "im_compact_paste_range ?m' = Option.bind (im_compact_paste_range m) (track_range start stop (blen t))"
      by (simp add: track_compact_paste_replace_def)
    ultimately show ?thesis using s(5) n(6) by metis
  qed
  with n that show thesis by (simp add: okD(3) [OF assms(1)])
qed

text \<open>On character boundaries \<open>replace_range\<close> is the splice of the text.\<close>

lemma replace_range_exact:
  assumes "ok m" "im_content_cache m = l @ mid @ r" "blen (l @ t @ r) \<le> 65535"
  shows "\<exists>m'. im_replace_range lib (blen l) (blen l + blen mid) t m = Some m' \<and> at m' (l @ t) r \<and> plain m'
    \<and> im_compact_paste_range m' = Option.bind (im_compact_paste_range m) (track_range (blen l) (blen l + blen mid) (blen t))"
proof -
  have b: "is_char_boundary (im_content_cache m) (blen l)" "is_char_boundary (im_content_cache m) (blen l + blen mid)"
    using boundary_append [of l "mid @ r"] boundary_append [of "l @ mid" r] assms(2) by simp_all
  have le: "blen l \<le> blen l + blen mid" by simp
  obtain l2 mid2 r2 where s: "im_content_cache m = l2 @ mid2 @ r2" "greatest_boundary (im_content_cache m) (blen l) (blen l2)"
    "greatest_boundary (im_content_cache m) (blen l + blen mid) (blen l2 + blen mid2)"
    "blen (l2 @ t @ r2) \<le> 65535 \<Longrightarrow> \<exists>m' l' r'. im_replace_range lib (blen l) (blen l + blen mid) t m = Some m' \<and> at m' l' r' \<and> plain m'
       \<and> im_content_cache m' = l2 @ t @ r2 \<and> greatest_boundary (l2 @ t @ r2) (blen l + blen t) (blen l')
       \<and> im_compact_paste_range m' = Option.bind (im_compact_paste_range m) (track_range (blen l) (blen l + blen mid) (blen t))"
    using replace_range_at [OF assms(1) le, of t] by metis
  have eq: "blen l2 = blen l" "blen mid2 = blen mid"
    using greatest_boundary_exact [OF s(2) b(1)] greatest_boundary_exact [OF s(3) b(2)] by simp_all
  have "l2 @ mid2 @ r2 = l @ mid @ r" using s(1) assms(2) by simp
  from append_eq_blen [OF this eq(1)] have "l2 = l" "mid2 @ r2 = mid @ r" by simp_all
  with append_eq_blen [OF this(2) eq(2)] have e: "l2 = l" "r2 = r" by simp_all
  with s(4) assms(3) obtain m' l' r' where m': "im_replace_range lib (blen l) (blen l + blen mid) t m = Some m'" "at m' l' r'" "plain m'"
    "im_content_cache m' = l @ t @ r" "greatest_boundary (l @ t @ r) (blen l + blen t) (blen l')"
    "im_compact_paste_range m' = Option.bind (im_compact_paste_range m) (track_range (blen l) (blen l + blen mid) (blen t))" by auto
  have "blen l' = blen (l @ t)"
    using greatest_boundary_exact [OF m'(5)] boundary_append [of "l @ t" r] by simp
  with m' have "at m' (l @ t) r" using at_content [OF m'(2)] append_eq_blen [of l' r' "l @ t" r] by simp
  with m' show ?thesis by blast
qed

lemma selection_ordered: "selection_range lib m = Some (a, b) \<Longrightarrow> a < b"
  by (auto simp: selection_range_def Let_def bind_eq_Some_conv split: if_splits)

lemma selection_none: "plain m \<Longrightarrow> selection_range lib m = None"
  by (simp add: selection_range_def plain_def)

lemma replace_selection_ok:
  assumes "ok m" "selection_range lib m = Some (a, b)" "blen (im_content_cache m) + blen t \<le> 65535 \<or> t = []"
  shows "\<exists>m'. im_replace_range lib a b t m = Some m' \<and> ok m' \<and> plain m'"
proof -
  have le: "a \<le> b" using selection_ordered [OF assms(2)] by simp
  obtain l mid r where s: "im_content_cache m = l @ mid @ r"
    "blen (l @ t @ r) \<le> 65535 \<Longrightarrow> \<exists>m' l' r'. im_replace_range lib a b t m = Some m' \<and> at m' l' r' \<and> plain m'
       \<and> im_content_cache m' = l @ t @ r \<and> greatest_boundary (l @ t @ r) (a + blen t) (blen l')
       \<and> im_compact_paste_range m' = Option.bind (im_compact_paste_range m) (track_range a b (blen t))"
    using replace_range_at [OF assms(1) le, of t] by metis
  have "blen (im_content_cache m) \<le> 65535" using assms(1) unfolding ok_def by blast
  with s(1) assms(3) have "blen (l @ t @ r) \<le> 65535" by auto
  with s(2) at_ok show ?thesis by blast
qed

lemma move_left_ok:
  assumes "ok m"
  shows "\<exists>m'. move_cursor_left lib m = Some m' \<and> ok m' \<and> im_content_cache m' = im_content_cache m"
proof (cases "selection_range lib m")
  case None
  let ?t = "ta_move_cursor lib MoveBack (ta_cancel_selection lib (im_textarea m))"
  have "good ?t" "ta_lines lib ?t = im_lines lib m"
    using cancel_law [OF okD(1) [OF assms]] move_law by (simp_all add: im_lines_def)
  with None assms show ?thesis by (auto simp: move_cursor_left_def ok_def)
next
  case (Some ab)
  have "\<exists>m'. im_set_cursor lib (fst ab) m = Some m' \<and> ok m' \<and> im_content_cache m' = im_content_cache m"
    using set_cursor_ok [OF assms, of "fst ab"] at_ok by metis
  with Some show ?thesis by (simp add: move_cursor_left_def split_beta)
qed

lemma move_right_ok':
  assumes "ok m"
  shows "\<exists>m'. move_cursor_right lib m = Some m' \<and> ok m' \<and> im_content_cache m' = im_content_cache m"
proof (cases "selection_range lib m")
  case None
  let ?t = "ta_move_cursor lib MoveForward (ta_cancel_selection lib (im_textarea m))"
  have "good ?t" "ta_lines lib ?t = im_lines lib m"
    using cancel_law [OF okD(1) [OF assms]] move_law by (simp_all add: im_lines_def)
  with None assms show ?thesis by (auto simp: move_cursor_right_def ok_def)
next
  case (Some ab)
  have "\<exists>m'. im_set_cursor lib (snd ab) m = Some m' \<and> ok m' \<and> im_content_cache m' = im_content_cache m"
    using set_cursor_ok [OF assms, of "snd ab"] at_ok by metis
  with Some show ?thesis by (simp add: move_cursor_right_def split_beta)
qed

lemma or_selection_ok:
  assumes "ok m" "selection_range lib m = None \<Longrightarrow> \<exists>m'. f m = Some m' \<and> ok m'"
  shows "\<exists>m'. or_selection lib f m = Some m' \<and> ok m'"
proof (cases "selection_range lib m")
  case None
  with assms(2) show ?thesis by (simp add: or_selection_def delete_selection_def)
next
  case (Some ab)
  then obtain a b where "selection_range lib m = Some (a, b)" by (cases ab) simp
  with replace_selection_ok [OF assms(1) this, of "[]"] show ?thesis
    by (auto simp: or_selection_def delete_selection_def)
qed

lemma or_selection_plain: "plain m \<Longrightarrow> or_selection lib f m = f m"
  by (simp add: or_selection_def delete_selection_def selection_none)

text \<open>After the text area has changed, the cache is the new text.\<close>

lemma refreshed_at:
  assumes "good t" "caret lib t l r" "blen (l @ r) \<le> 65535"
  shows "at (refresh_content_cache lib (set_textarea t m)) l r"
  using assms caret_text [OF assms(2)] by (simp add: at_def ok_def)

lemma delete_at:
  assumes "at m l (c # r)" "plain m"
  shows "\<exists>m'. im_delete lib m = Some m' \<and> at m' l r \<and> plain m'
    \<and> im_compact_paste_range m' = Option.bind (im_compact_paste_range m) (track_range (blen l) (blen l + len_utf8 c) 0)"
proof -
  let ?t = "ta_delete_next_char lib (im_textarea m)"
  have g: "good (im_textarea m)" "\<not> selecting (im_textarea m)" "caret lib (im_textarea m) l (c # r)"
    using assms by (simp_all add: at_def ok_def plain_def)
  from delete_next_law [OF g] delete_size [OF g(1)] have t: "good ?t" "\<not> selecting ?t" "caret lib ?t l r" by simp_all
  have size: "blen (l @ c # r) \<le> 65535" using assms(1) at_content [OF assms(1)] unfolding at_def ok_def by metis
  let ?stop = "case nth_offset (c # r) 1 of None \<Rightarrow> blen (l @ c # r) | Some idx \<Rightarrow> blen l + idx"
  have stop: "?stop = blen l + len_utf8 c" by (cases r) simp_all
  let ?m = "track_compact_paste_replace (blen l) ?stop 0 m"
  let ?m' = "refresh_content_cache lib (set_textarea ?t ?m)"
  have "at ?m' l r" using refreshed_at [OF t(1,3)] size by simp
  moreover have "im_delete lib m = Some ?m'"
    unfolding im_delete_def or_selection_plain [OF assms(2)] at_content [OF assms(1)] at_cursor [OF assms(1)]
    by (simp add: Let_def)
  moreover have "plain ?m'" using t(2) assms(2) by (simp add: plain_def)
  moreover have "im_compact_paste_range ?m' = Option.bind (im_compact_paste_range m) (track_range (blen l) (blen l + len_utf8 c) 0)"
    using stop by (simp add: track_compact_paste_replace_def)
  ultimately show ?thesis by metis
qed

lemma delete_ok:
  assumes "ok m"
  shows "\<exists>m'. im_delete lib m = Some m' \<and> ok m'"
  unfolding im_delete_def
proof (rule or_selection_ok [OF assms])
  obtain l r where a: "at m l r" using atE [OF assms] .
  let ?t = "ta_delete_next_char lib (im_textarea m)"
  have t: "good ?t" "blen (join_nl (ta_lines lib ?t)) \<le> 65535"
    using delete_size [OF okD(1) [OF assms]] okD(5) [OF assms] by (simp_all add: im_lines_def)
  then have "ok (refresh_content_cache lib (set_textarea ?t m'))" for m' by (intro ok_refresh) simp_all
  with at_content [OF a] at_cursor [OF a]
  show "\<exists>m'. (let cursor = im_cursor lib m; content = im_content_cache m in
      do { m' \<leftarrow> (if cursor < blen content
                   then do { after \<leftarrow> slice_from content cursor;
                             let stop = (case nth_offset after 1 of None \<Rightarrow> blen content | Some idx \<Rightarrow> cursor + idx);
                             Some (track_compact_paste_replace cursor stop 0 m) }
                   else Some m);
           Some (refresh_content_cache lib (set_textarea (ta_delete_next_char lib (im_textarea m')) m')) }) = Some m' \<and> ok m'"
    by (simp add: Let_def)
qed

lemma insert_at:
  assumes "at m l r" "plain m" "blen (l @ r) + blen s \<le> 65535"
  shows "\<exists>m' s'. im_insert_text lib s m = Some m' \<and> at m' (l @ s') r \<and> plain m' \<and> (13 \<notin> set s \<longrightarrow> s' = s)
    \<and> im_compact_paste_range m' = Option.bind (im_compact_paste_range m) (track_range (blen l) (blen l) (blen s))"
proof -
  let ?t = "ta_insert_str lib s (im_textarea m)"
  have g: "good (im_textarea m)" "\<not> selecting (im_textarea m)" "caret lib (im_textarea m) l r"
    using assms by (simp_all add: at_def ok_def plain_def)
  from insert_law [OF g, of s] obtain s' where t: "\<not> selecting ?t" "caret lib ?t (l @ s') r" "13 \<notin> set s \<longrightarrow> s' = s" by blast
  have "good ?t" and size: "blen ((l @ s') @ r) \<le> 65535"
    using insert_size [OF g(1), of s] caret_text [OF t(2)] caret_text [OF g(3)] assms(3) by simp_all
  let ?m = "track_compact_paste_replace (blen l) (blen l) (blen s) m"
  let ?m' = "refresh_content_cache lib (set_textarea ?t ?m)"
  have "at ?m' (l @ s') r" using refreshed_at [OF \<open>good ?t\<close> t(2) size] by simp
  moreover have "im_insert_text lib s m = Some ?m'"
    using at_cursor [OF assms(1)] selection_none [OF assms(2)] by (simp add: im_insert_text_def Let_def)
  moreover have "plain ?m'" using t(1) assms(2) by (simp add: plain_def)
  moreover have "im_compact_paste_range ?m' = Option.bind (im_compact_paste_range m) (track_range (blen l) (blen l) (blen s))"
    by (simp add: track_compact_paste_replace_def)
  ultimately show ?thesis using t(3) by metis
qed

lemma insert_ok:
  assumes "ok m" "blen (im_content_cache m) + blen s \<le> 65535"
  shows "\<exists>m'. im_insert_text lib s m = Some m' \<and> ok m'"
proof (cases "selection_range lib m")
  case None
  let ?t = "ta_insert_str lib s (im_textarea m)"
  have "good ?t" "blen (join_nl (ta_lines lib ?t)) \<le> 65535"
    using insert_size [OF okD(1) [OF assms(1)], of s] okD(3) [OF assms(1)] assms(2) by (simp_all add: im_lines_def)
  then have "ok (refresh_content_cache lib (set_textarea ?t m'))" for m' by (intro ok_refresh) simp_all
  with None show ?thesis by (simp add: im_insert_text_def Let_def)
next
  case (Some ab)
  then obtain a b where ab: "selection_range lib m = Some (a, b)" by (cases ab) simp
  obtain m' where m': "im_replace_range lib a b s m = Some m'" "ok m'" using replace_selection_ok [OF assms(1) ab, of s] assms(2) by blast
  then have "ok (refresh_content_cache lib m')" using okD(1,5) by (intro ok_refresh) simp_all
  with ab m' show ?thesis by (simp add: im_insert_text_def)
qed

sublocale vim: editor "session_editor lib" ok plain "\<lambda>s. 13 \<notin> set s" 65535
proof (unfold_locales, goal_cases)
  case (1 m)
  then show ?case using atE at_content at_cursor by (metis boundary_append session_editor_def editor_ops.simps(1,2))
next
  case (2 m)
  then show ?case using okD(3,5) by (simp add: session_editor_def)
next
  case (3 m p)
  then obtain m' l r where m': "im_set_cursor lib p m = Some m'" "at m' l r" "plain m'" "im_content_cache m' = im_content_cache m"
    "greatest_boundary (im_content_cache m) p (blen l)" using set_cursor_ok [of m p] by metis
  with 3(2) have "blen l = p" using greatest_boundary_exact by (simp add: session_editor_def)
  with m' at_cursor [OF m'(2)] at_ok [OF m'(2)] show ?case by (simp add: session_editor_def)
next
  case (4 m)
  then show ?case using move_left_ok by (simp add: session_editor_def)
next
  case (5 m)
  then show ?case using move_right_ok' by (simp add: session_editor_def)
next
  case (6 m)
  obtain m' where m': "im_delete lib m = Some m'" "ok m'" using delete_ok [OF 6] by blast
  have "im_content_cache m' = l @ r \<and> im_cursor lib m' = blen l \<and> plain m'"
    if "plain m" "im_content_cache m = l @ c # r" "im_cursor lib m = blen l" for l c r
    using delete_at [OF at_intro [OF 6 that(2,3)] that(1)] m'(1) at_content at_cursor by auto
  with m' show ?case by (auto simp: session_editor_def)
next
  case (7 m s)
  then have size: "blen (im_content_cache m) + blen s \<le> 65535" by (simp add: session_editor_def)
  obtain m' where m': "im_insert_text lib s m = Some m'" "ok m'" using insert_ok [OF 7(1) size] by blast
  have "\<exists>s'. im_content_cache m' = l @ s' @ r \<and> im_cursor lib m' = blen (l @ s') \<and> (13 \<notin> set s \<longrightarrow> s' = s)"
    if "plain m" "im_content_cache m = l @ r" "im_cursor lib m = blen l" for l r
    using insert_at [OF at_intro [OF 7(1) that(2,3)] that(1), of s] size that(2) m'(1) at_content at_cursor by fastforce
  with m' show ?case by (auto simp: session_editor_def)
next
  case (8 m c p)
  from set_content_ok [OF 8(2), of m] have s: "ok (set_content lib c m)" "im_content_cache (set_content lib c m) = c"
    using at_ok at_content by fastforce+
  then obtain m' l r where m': "im_set_cursor lib p (set_content lib c m) = Some m'" "at m' l r" "plain m'"
    "im_content_cache m' = c" "greatest_boundary c p (blen l)" using set_cursor_ok [of "set_content lib c m" p] by metis
  with at_ok at_cursor [OF m'(2)] greatest_boundary_exact [OF m'(5)] show ?case by (auto simp: session_editor_def)
next
  case (9 m l mid r t)
  then obtain m' where "im_replace_range lib (blen l) (blen l + blen mid) t m = Some m'" "at m' (l @ t) r" "plain m'"
    using replace_range_exact [of m l mid r t] by (auto simp: session_editor_def)
  with at_ok at_content [OF this(2)] at_cursor [OF this(2)] show ?case by (simp add: session_editor_def)
qed

end

end
