(* ===== verification/Text_Area.thy ===== *)
theory Text_Area
  imports Input_Facts
begin

text \<open>
  A text area that keeps the contract \<open>textarea\<close>: the texts before and after the cursor and the character index
  where a selection started. It shows that the documented behaviour the composer relies on can be had, and it
  runs the composer's definitions on concrete keys.
\<close>

record area =
  ar_before :: rtext
  ar_after :: rtext
  ar_anchor :: "nat option"

definition area_text :: "area \<Rightarrow> rtext" where
  "area_text t = ar_before t @ ar_after t"

definition area_of :: "rtext \<Rightarrow> rtext \<Rightarrow> area" where
  "area_of l r = \<lparr>ar_before = l, ar_after = r, ar_anchor = None\<rparr>"

definition area_lines :: "area \<Rightarrow> rtext list" where
  "area_lines t = split_nl (area_text t)"

definition area_cursor :: "area \<Rightarrow> nat \<times> nat" where
  "area_cursor t = (newline_count (ar_before t), length (last_line (ar_before t)))"

definition area_jump :: "nat \<Rightarrow> nat \<Rightarrow> area \<Rightarrow> area" where
  "area_jump row col t =
     (let ls = area_lines t; r = min row (length ls - 1); w = ls ! r in
      t\<lparr>ar_before := before_cut (take r ls) (take col w), ar_after := after_cut (drop col w) (drop (Suc r) ls)\<rparr>)"

definition area_move :: "cursor_move \<Rightarrow> area \<Rightarrow> area" where
  "area_move d t =
     (case d of
        MoveBack \<Rightarrow> if ar_before t = [] then t
                    else t\<lparr>ar_before := butlast (ar_before t), ar_after := last (ar_before t) # ar_after t\<rparr>
      | MoveForward \<Rightarrow> (case ar_after t of [] \<Rightarrow> t | c # r \<Rightarrow> t\<lparr>ar_before := ar_before t @ [c], ar_after := r\<rparr>)
      | MoveUp \<Rightarrow> (case area_cursor t of (row, col) \<Rightarrow> if row = 0 then t else area_jump (row - 1) col t)
      | MoveDown \<Rightarrow> (case area_cursor t of (row, col) \<Rightarrow>
                       if length (area_lines t) \<le> row + 1 then t else area_jump (row + 1) col t)
      | MoveBottom \<Rightarrow> area_jump (length (area_lines t) - 1) (snd (area_cursor t)) t
      | MoveEnd \<Rightarrow> area_jump (fst (area_cursor t)) (length (area_lines t ! fst (area_cursor t))) t
      | MoveJump row col \<Rightarrow> area_jump row col t)"

definition area_selects :: "area \<Rightarrow> bool" where
  "area_selects t \<longleftrightarrow> (case ar_anchor t of None \<Rightarrow> False | Some a \<Rightarrow> a \<noteq> length (ar_before t))"

definition area_cut :: "area \<Rightarrow> area" where
  "area_cut t =
     (case ar_anchor t of
        None \<Rightarrow> t
      | Some a \<Rightarrow> area_of (take (min a (length (ar_before t))) (area_text t))
                        (drop (max a (length (ar_before t))) (area_text t)))"

definition strip_cr :: "rtext \<Rightarrow> rtext" where
  "strip_cr w = (if w \<noteq> [] \<and> last w = 13 then butlast w else w)"

definition area_insert :: "rtext \<Rightarrow> area \<Rightarrow> area" where
  "area_insert s t = (let t' = area_cut t in t'\<lparr>ar_before := ar_before t' @ s\<rparr>)"

definition area_insert_str :: "rtext \<Rightarrow> area \<Rightarrow> area" where
  "area_insert_str s = area_insert (join_nl (map strip_cr (split_nl s)))"

definition area_remove :: "(area \<Rightarrow> area) \<Rightarrow> area \<Rightarrow> area" where
  "area_remove f t = (if area_selects t then area_cut t else f (t\<lparr>ar_anchor := None\<rparr>))"

definition area_lib :: "area textarea_lib" where
  "area_lib =
     \<lparr>ta_default = area_of [] [],
      ta_from = (\<lambda>ls. area_of [] (join_nl ls)),
      ta_set_max_histories = (\<lambda>_ t. t),
      ta_set_tab_length = (\<lambda>_ t. t),
      ta_lines = area_lines,
      ta_cursor = area_cursor,
      ta_move_cursor = area_move,
      ta_start_selection = (\<lambda>t. t\<lparr>ar_anchor := Some (length (ar_before t))\<rparr>),
      ta_cancel_selection = (\<lambda>t. t\<lparr>ar_anchor := None\<rparr>),
      ta_insert_char = (\<lambda>c. area_insert [if c = 13 then nl else c]),
      ta_insert_str = area_insert_str,
      ta_delete_char = area_remove (\<lambda>t. t\<lparr>ar_before := butlast (ar_before t)\<rparr>),
      ta_delete_next_char = area_remove (\<lambda>t. t\<lparr>ar_after := tl (ar_after t)\<rparr>),
      ta_delete_next_word =
        area_remove (\<lambda>t. t\<lparr>ar_after := dropWhile (\<lambda>c. \<not> char_is_whitespace c) (dropWhile char_is_whitespace (ar_after t))\<rparr>),
      ta_undo = Pair False,
      ta_redo = Pair False\<rparr>"

lemma area_lib_simps [simp]:
  "ta_default area_lib = area_of [] []" "ta_from area_lib ls = area_of [] (join_nl ls)"
  "ta_set_max_histories area_lib n t = t" "ta_set_tab_length area_lib n t = t"
  "ta_lines area_lib = area_lines" "ta_cursor area_lib = area_cursor" "ta_move_cursor area_lib = area_move"
  "ta_start_selection area_lib t = t\<lparr>ar_anchor := Some (length (ar_before t))\<rparr>"
  "ta_cancel_selection area_lib t = t\<lparr>ar_anchor := None\<rparr>"
  "ta_insert_char area_lib c = area_insert [if c = 13 then nl else c]" "ta_insert_str area_lib = area_insert_str"
  "ta_delete_char area_lib = area_remove (\<lambda>t. t\<lparr>ar_before := butlast (ar_before t)\<rparr>)"
  "ta_delete_next_char area_lib = area_remove (\<lambda>t. t\<lparr>ar_after := tl (ar_after t)\<rparr>)"
  "ta_delete_next_word area_lib =
     area_remove (\<lambda>t. t\<lparr>ar_after := dropWhile (\<lambda>c. \<not> char_is_whitespace c) (dropWhile char_is_whitespace (ar_after t))\<rparr>)"
  "ta_undo area_lib t = (False, t)" "ta_redo area_lib t = (False, t)"
  by (simp_all add: area_lib_def)

lemma area_of_simps [simp]: "ar_before (area_of l r) = l" "ar_after (area_of l r) = r" "ar_anchor (area_of l r) = None"
  by (simp_all add: area_of_def)

lemma one_line_split [simp]: "one_line (split_nl s)"
  using split_nl_no_nl by (auto simp: one_line_def)

lemma newline_before_cut:
  "\<forall>u \<in> set a. nl \<notin> set u \<Longrightarrow> nl \<notin> set w \<Longrightarrow> newline_count (before_cut a w) = length a"
proof (induction a)
  case Nil
  then have "filter ((=) nl) w = []" by (auto simp: filter_empty_conv)
  then show ?case by (simp add: newline_count_def)
next
  case (Cons u a)
  then have "filter ((=) nl) u = []" by (auto simp: filter_empty_conv)
  with Cons show ?case by (simp add: newline_count_def)
qed

lemma last_line_cut: "nl \<notin> set w \<Longrightarrow> last_line (before_cut a w) = w"
proof (induction a rule: rev_induct)
  case Nil
  then show ?case using last_line_append [of w "[]"] by (simp add: last_line_def)
next
  case (snoc u a)
  have "before_cut (a @ [u]) w = before_cut a u @ nl # w"
    using before_cut_extend [of a u "[]" "[]" w] by (simp add: before_cut_append)
  then show ?case using last_line_append [OF snoc.prems, of "before_cut a u @ [nl]"] by (simp add: last_line_def)
qed

lemma area_caret: "caret area_lib t (ar_before t) (ar_after t)"
proof -
  let ?ls = "area_lines t"
  have "join_nl ?ls = ar_before t @ ar_after t" by (simp add: area_lines_def area_text_def)
  then obtain a w v b where c: "?ls = a @ (w @ v) # b" "ar_before t = before_cut a w" "ar_after t = after_cut v b"
    using split_nl_last [of ?ls] by (metis area_lines_def one_line_split)
  have "one_line ?ls" by (simp add: area_lines_def)
  then have "\<forall>u \<in> set a. nl \<notin> set u" "nl \<notin> set w" by (simp_all add: c(1) one_line_def)
  then have "area_cursor t = (length a, length w)" by (simp add: area_cursor_def c(2) newline_before_cut last_line_cut)
  with c show ?thesis by (auto simp: caret_def)
qed

lemma area_caret_iff: "caret area_lib t l r \<longleftrightarrow> l = ar_before t \<and> r = ar_after t"
  using area_caret caret_unique by metis

lemma jump_text: "area_text (area_jump row col t) = area_text t" and jump_anchor [simp]: "ar_anchor (area_jump row col t) = ar_anchor t"
proof -
  let ?ls = "area_lines t"
  let ?r = "min row (length ?ls - 1)"
  have "?r < length ?ls" by (cases ?ls) (simp_all add: area_lines_def min_def)
  then have "?ls = take ?r ?ls @ (take col (?ls ! ?r) @ drop col (?ls ! ?r)) # drop (Suc ?r) ?ls"
    by (simp add: id_take_nth_drop [symmetric])
  from join_cut [of "take ?r ?ls" "take col (?ls ! ?r)" "drop col (?ls ! ?r)" "drop (Suc ?r) ?ls", folded this]
  show "area_text (area_jump row col t) = area_text t" by (simp add: area_text_def area_jump_def Let_def area_lines_def)
qed (simp add: area_jump_def Let_def)

lemma jump_cursor:
  assumes "area_lines t = a @ w # b" "min row (length a + length b) = length a"
  shows "area_cursor (area_jump row col t) = (length a, min col (length w))"
proof -
  have "one_line (area_lines t)" by (simp add: area_lines_def)
  then have "\<forall>u \<in> set a. nl \<notin> set u" "nl \<notin> set (take col w)" using set_take_subset [of col w] by (auto simp: assms(1) one_line_def)
  with assms show ?thesis
    by (simp add: area_cursor_def area_jump_def Let_def newline_before_cut last_line_cut)
qed

lemma lines_of_text: "area_text t' = area_text t \<Longrightarrow> area_lines t' = area_lines t"
  by (simp add: area_lines_def)

lemma move_text: "area_text (area_move d t) = area_text t"
proof (cases d)
  case MoveBack
  then show ?thesis by (simp add: area_move_def) (simp add: area_text_def)
next
  case MoveForward
  then show ?thesis by (simp add: area_move_def split: list.split) (simp add: area_text_def)
qed (simp_all add: area_move_def jump_text split: prod.split)

lemma move_anchor: "ar_anchor (area_move d t) = ar_anchor t"
  by (simp add: area_move_def split: cursor_move.split list.split prod.split)

lemma cut_unselected: "ar_anchor t = None \<Longrightarrow> area_cut t = t"
  by (simp add: area_cut_def)

lemma cut_anchor [simp]: "ar_anchor (area_cut t) = None"
  by (simp add: area_cut_def split: option.split)

lemma blen_take_drop: "i \<le> j \<Longrightarrow> blen (take i s) + blen (drop j s) \<le> blen s"
proof -
  assume "i \<le> j"
  then have "s = take i s @ drop i (take j s) @ drop j s"
    by (metis append.assoc append_take_drop_id min.absorb1 take_take)
  then have "blen s = blen (take i s) + (blen (drop i (take j s)) + blen (drop j s))" by (metis blen_append)
  then show ?thesis by simp
qed

lemma cut_size: "blen (area_text (area_cut t)) \<le> blen (area_text t)"
proof (cases "ar_anchor t")
  case (Some k)
  have "area_text (area_cut t) = take (min k (length (ar_before t))) (area_text t) @ drop (max k (length (ar_before t))) (area_text t)"
    by (simp add: area_cut_def Some) (simp add: area_text_def)
  then show ?thesis using blen_take_drop [of "min k (length (ar_before t))" "max k (length (ar_before t))"] by simp
qed (simp add: area_cut_def)

lemma strip_cr_size: "blen (strip_cr w) \<le> blen w"
proof (cases "w = []")
  case False
  then have "blen w = blen (butlast w) + len_utf8 (last w)" by (metis append_butlast_last_id blen.simps blen_append add.right_neutral)
  then show ?thesis by (simp add: strip_cr_def)
qed (simp add: strip_cr_def)

lemma strip_size: "blen (join_nl (map strip_cr ws)) \<le> blen (join_nl ws)"
proof (induction ws)
  case (Cons w ws)
  then show ?case using strip_cr_size [of w] by (cases ws) (auto intro: add_mono)
qed simp

lemma strip_none: "13 \<notin> set s \<Longrightarrow> map strip_cr (split_nl s) = split_nl s"
proof -
  assume s: "13 \<notin> set s"
  have "13 \<notin> set w" if "w \<in> set (split_nl s)" for w
  proof
    assume "13 \<in> set w"
    then obtain i where "split_nl s = take i (split_nl s) @ w # drop (Suc i) (split_nl s)"
      using \<open>w \<in> set (split_nl s)\<close> by (metis id_take_nth_drop in_set_conv_nth)
    then have "s = join_nl (take i (split_nl s) @ ([] @ w) # drop (Suc i) (split_nl s))" by (metis append_Nil join_split_nl)
    then have "s = before_cut (take i (split_nl s)) [] @ after_cut w (drop (Suc i) (split_nl s))"
      unfolding join_cut .
    with \<open>13 \<in> set w\<close> s after_cut_append [of w "[]"] show False by (metis Un_iff append_Nil2 set_append)
  qed
  then show ?thesis by (intro map_idI) (metis last_in_set strip_cr_def)
qed

lemma insert_caret: "ar_anchor t = None \<Longrightarrow> area_insert s t = t\<lparr>ar_before := ar_before t @ s\<rparr>"
  by (simp add: area_insert_def cut_unselected Let_def)

lemma insert_text_size: "blen (area_text (area_insert s t)) \<le> blen (area_text t) + blen s"
  using cut_size [of t] by (simp add: area_insert_def Let_def area_text_def)

lemma remove_size:
  assumes "\<And>t. blen (area_text (f t)) \<le> blen (area_text t)"
  shows "blen (area_text (area_remove f t)) \<le> blen (area_text t)"
  using cut_size [of t] assms [of "t\<lparr>ar_anchor := None\<rparr>"] by (simp add: area_remove_def area_text_def)

lemma remove_unselected: "ar_anchor t = None \<Longrightarrow> area_remove f t = f (t\<lparr>ar_anchor := None\<rparr>)"
  by (simp add: area_remove_def area_selects_def)

lemma blen_butlast: "blen (butlast s) \<le> blen s"
  by (cases s rule: rev_cases) simp_all

lemma blen_tl: "blen (tl s) \<le> blen s"
  by (cases s) simp_all

text \<open>The contract holds.\<close>

interpretation area: textarea area_lib "\<lambda>_. True" "\<lambda>t. ar_anchor t \<noteq> None"
proof (unfold_locales, goal_cases)
  case (1 t)
  then show ?case using area_caret by (auto simp: area_lines_def)
next
  case 2
  then show ?case by (simp add: area_lines_def area_text_def)
next
  case (3 ls)
  then show ?case by (simp add: area_lines_def area_text_def one_line_def split_join_nl)
next
  case (6 t d)
  then show ?case using lines_of_text [OF move_text [of d t]] by (simp add: move_anchor)
next
  case (7 t a w b row col)
  then show ?case using jump_cursor by (simp add: area_move_def)
next
  case (8 t)
  let ?ls = "area_lines t"
  let ?t = "area_jump (length ?ls - 1) (snd (area_cursor t)) t"
  have ls: "?ls = butlast ?ls @ [last ?ls]" by (simp add: area_lines_def)
  have len: "length ?ls \<noteq> 0" by (simp add: area_lines_def)
  have "area_cursor ?t = (length ?ls - 1, min (snd (area_cursor t)) (length (last ?ls)))"
    using jump_cursor [OF ls] len by simp
  moreover have lines: "area_lines ?t = ?ls" by (rule lines_of_text [OF jump_text])
  moreover have "?ls ! (length ?ls - 1) = last ?ls" using len by (simp add: last_conv_nth)
  ultimately have "area_move MoveEnd (area_move MoveBottom t) = area_jump (length ?ls - 1) (length (last ?ls)) ?t"
    by (simp add: area_move_def)
  moreover have "area_cursor (area_jump (length ?ls - 1) (length (last ?ls)) ?t) = (length ?ls - 1, length (last ?ls))"
    using jump_cursor [of ?t "butlast ?ls" "last ?ls" "[]" "length ?ls - 1" "length (last ?ls)"] ls len lines by simp
  ultimately show ?case by simp
next
  case (9 t l c r)
  then show ?case by (cases t) (simp add: area_caret_iff area_move_def, metis append_is_Nil_conv butlast_snoc last_snoc list.distinct(1))
next
  case (10 t l c r)
  from 10(2) have "ar_after t = c # r" "ar_before t = l" by (simp_all add: area_caret_iff)
  then show ?case by (simp add: area_caret_iff area_move_def)
next
  case (13 t s)
  have "blen (join_nl (map strip_cr (split_nl s))) \<le> blen s" using strip_size [of "split_nl s"] by simp
  then show ?case using insert_text_size [of "join_nl (map strip_cr (split_nl s))" t] by (simp add: area_lines_def area_insert_str_def)
next
  case (14 t l r s)
  then show ?case by (auto simp: area_caret_iff area_insert_str_def insert_caret strip_none)
next
  case (15 t c)
  have "len_utf8 (if c = 13 then nl else c) \<le> len_utf8 c" by (simp add: len_utf8_def nl_def)
  then show ?case using insert_text_size [of "[if c = 13 then nl else c]" t] by (simp add: area_lines_def)
next
  case (16 t l r c)
  then show ?case by (simp add: area_caret_iff insert_caret)
next
  case (17 t)
  have "blen (dropWhile P (dropWhile Q s)) \<le> blen s" for P Q s
    using blen_dropWhile [of P "dropWhile Q s"] blen_dropWhile [of Q s] by simp
  then have "blen (area_text (area_remove (\<lambda>t. t\<lparr>ar_after := dropWhile P (dropWhile Q (ar_after t))\<rparr>) t)) \<le> blen (area_text t)" for P Q
    by (intro remove_size) (simp add: area_text_def)
  moreover have "blen (area_text (area_remove (\<lambda>t. t\<lparr>ar_before := butlast (ar_before t)\<rparr>) t)) \<le> blen (area_text t)"
    by (intro remove_size) (simp add: area_text_def blen_butlast)
  moreover have "blen (area_text (area_remove (\<lambda>t. t\<lparr>ar_after := tl (ar_after t)\<rparr>) t)) \<le> blen (area_text t)"
    by (intro remove_size) (simp add: area_text_def blen_tl)
  ultimately show ?case by (simp add: area_lines_def)
next
  case (18 t l c r)
  then show ?case by (simp add: area_caret_iff remove_unselected) (metis butlast_snoc)
next
  case (19 t l c r)
  from 19(3) have "ar_after t = c # r" by (simp add: area_caret_iff)
  with 19 show ?case by (simp add: area_caret_iff remove_unselected)
next
  case (20 t l r)
  have "\<exists>m. s = m @ dropWhile P (dropWhile Q s)" for P Q and s :: rtext
    by (metis append.assoc takeWhile_dropWhile_id)
  with 20 show ?case by (simp add: area_caret_iff remove_unselected)
qed (simp_all add: area_lines_def area_text_def area_cursor_def)

end
