(* ===== verification/Composer_Facts.thy ===== *)
theory Composer_Facts
  imports Text_Area
begin

text \<open>
  The composer as a state machine: every command of the input manager and of \<open>editing.rs\<close> keeps the state coherent
  and, apart from two commands that can crash, never panics. Then the properties of the composer, of its Vim mode,
  its paste range, its attachments and its history.
\<close>

section \<open>Coherent states\<close>

definition tracked_ok :: "'t input_manager \<Rightarrow> bool" where
  "tracked_ok m \<longleftrightarrow> list_all is_image (im_attachments m)
     \<and> length (im_attachment_placeholders m) = length (im_attachments m)"

definition history_ok :: "'t input_manager \<Rightarrow> bool" where
  "history_ok m \<longleftrightarrow> list_all (\<lambda>entry. \<not> entry_is_empty entry) (im_history m)
     \<and> im_archived_count m \<le> length (im_history m)
     \<and> pred_option (\<lambda>i. i < length (im_history m) \<and> im_history_draft m \<noteq> None) (im_history_index m)"

definition paste_ok :: "'t input_manager \<Rightarrow> bool" where
  "paste_ok m \<longleftrightarrow> pred_option (\<lambda>(start, stop). start \<le> stop) (im_compact_paste_range m)"

definition coherent :: "'t textarea_lib \<Rightarrow> ('t \<Rightarrow> bool) \<Rightarrow> 't input_manager \<Rightarrow> bool" where
  "coherent lib good m \<longleftrightarrow> good (im_textarea m) \<and> im_content_cache m = join_nl (im_lines lib m)
     \<and> tracked_ok m \<and> history_ok m \<and> paste_ok m"

text \<open>One step of the composer: the commands of the input manager and of \<open>editing.rs\<close>.\<close>

datatype command =
    CmdInsertChar rchar | CmdPaste rtext | CmdSetContent rtext | CmdBackspace | CmdDelete | CmdDeleteWordBackward
  | CmdDeleteWordForward | CmdDeleteWhitespace | CmdDeleteToLineEnd | CmdClearLine | CmdClear
  | CmdTransposeChars | CmdTransposeWords | CmdUppercase | CmdLowercase | CmdCapitalize
  | CmdLeft | CmdRight | CmdWordLeft | CmdWordRight | CmdStart | CmdEnd | CmdLineStart | CmdLineEnd | CmdUp | CmdDown
  | CmdSelectLeft | CmdSelectRight | CmdSelectStart | CmdSelectEnd | CmdSelectLineStart | CmdSelectLineEnd
  | CmdClearSelection | CmdCopy | CmdUndo | CmdRedo
  | CmdSetAttachments "content_part list" | CmdPushAttachment content_part
  | CmdHistoryPrevious int | CmdHistoryNext | CmdSubmit history_entry | CmdArchive "history_entry list" | CmdApply nat

record 't composer_env =
  ce_lib :: "'t textarea_lib"
  ce_alnum :: "rchar \<Rightarrow> bool"
  ce_tables :: case_tables
  ce_bounds :: "rtext \<Rightarrow> (nat \<times> rtext) list"
  ce_copy :: "rtext \<Rightarrow> bool"

fun run_command :: "'t composer_env \<Rightarrow> command \<Rightarrow> 't input_manager \<Rightarrow> 't input_manager option" where
  "run_command env (CmdInsertChar ch) m = composer_insert_char (ce_lib env) ch m"
| "run_command env (CmdPaste text) m = insert_paste_text (ce_lib env) text m"
| "run_command env (CmdSetContent text) m = Some (set_content (ce_lib env) text m)"
| "run_command env CmdBackspace m = composer_delete_char (ce_lib env) m"
| "run_command env CmdDelete m = im_delete (ce_lib env) m"
| "run_command env CmdDeleteWordBackward m = delete_word_backward (ce_lib env) (ce_bounds env) m"
| "run_command env CmdDeleteWordForward m = delete_word_forward (ce_lib env) m"
| "run_command env CmdDeleteWhitespace m = delete_whitespace_around_cursor (ce_lib env) m"
| "run_command env CmdDeleteToLineEnd m = delete_to_end_of_line (ce_lib env) m"
| "run_command env CmdClearLine m = clear_current_line_or_all (ce_lib env) m"
| "run_command env CmdClear m = Some (im_clear (ce_lib env) m)"
| "run_command env CmdTransposeChars m = transpose_chars (ce_lib env) m"
| "run_command env CmdTransposeWords m = transpose_words (ce_lib env) (ce_alnum env) m"
| "run_command env CmdUppercase m = uppercase_word (ce_lib env) (ce_alnum env) (ce_tables env) m"
| "run_command env CmdLowercase m = lowercase_word (ce_lib env) (ce_alnum env) (ce_tables env) m"
| "run_command env CmdCapitalize m = capitalize_word (ce_lib env) (ce_alnum env) (ce_tables env) m"
| "run_command env CmdLeft m = move_cursor_left (ce_lib env) m"
| "run_command env CmdRight m = move_cursor_right (ce_lib env) m"
| "run_command env CmdWordLeft m = move_left_word (ce_lib env) (ce_bounds env) m"
| "run_command env CmdWordRight m = move_right_word (ce_lib env) (ce_bounds env) m"
| "run_command env CmdStart m = Some (move_cursor_to_start (ce_lib env) m)"
| "run_command env CmdEnd m = Some (move_cursor_to_end (ce_lib env) m)"
| "run_command env CmdLineStart m = move_cursor_to_start_of_line (ce_lib env) m"
| "run_command env CmdLineEnd m = move_cursor_to_end_of_line (ce_lib env) m"
| "run_command env CmdUp m = Some (snd (move_cursor_up (ce_lib env) m))"
| "run_command env CmdDown m = Some (snd (move_cursor_down (ce_lib env) m))"
| "run_command env CmdSelectLeft m = select_left (ce_lib env) m"
| "run_command env CmdSelectRight m = select_right (ce_lib env) m"
| "run_command env CmdSelectStart m = select_to_start (ce_lib env) m"
| "run_command env CmdSelectEnd m = select_to_end (ce_lib env) m"
| "run_command env CmdSelectLineStart m = select_to_start_of_line (ce_lib env) m"
| "run_command env CmdSelectLineEnd m = select_to_end_of_line (ce_lib env) m"
| "run_command env CmdClearSelection m = Some (clear_selection (ce_lib env) m)"
| "run_command env CmdCopy m = map_option snd (copy_selected_text_to_clipboard (ce_lib env) (ce_copy env) m)"
| "run_command env CmdUndo m = Some (snd (im_undo (ce_lib env) m))"
| "run_command env CmdRedo m = Some (snd (im_redo (ce_lib env) m))"
| "run_command env (CmdSetAttachments parts) m = Some (set_attachments parts m)"
| "run_command env (CmdPushAttachment part) m = Some (snd (push_attachment part m))"
| "run_command env (CmdHistoryPrevious now) m = Some (snd (navigate_history_previous (ce_lib env) now m))"
| "run_command env CmdHistoryNext m = Some (snd (navigate_history_next (ce_lib env) m))"
| "run_command env (CmdSubmit entry) m = Some (add_to_history entry m)"
| "run_command env (CmdArchive entries) m = Some (prepend_archived_history entries m)"
| "run_command env (CmdApply i) m = Some (snd (apply_history_index (ce_lib env) i m))"

fun run_commands :: "'t composer_env \<Rightarrow> command list \<Rightarrow> 't input_manager \<Rightarrow> 't input_manager option" where
  "run_commands env [] m = Some m"
| "run_commands env (c # cs) m = Option.bind (run_command env c m) (run_commands env cs)"

text \<open>The updates of the text leave the attachments and the history alone.\<close>

lemma tracked_updates [simp]:
  "tracked_ok (set_textarea t m) = tracked_ok m" "tracked_ok (clear_selection lib m) = tracked_ok m"
  "tracked_ok (refresh_content_cache lib m) = tracked_ok m" "tracked_ok (reset_history_navigation m) = tracked_ok m"
  "tracked_ok (track_compact_paste_replace a b n m) = tracked_ok m"
  "tracked_ok (m\<lparr>im_compact_paste_range := q\<rparr>) = tracked_ok m" "tracked_ok (m\<lparr>im_selection_copied := c\<rparr>) = tracked_ok m"
  "tracked_ok (m\<lparr>im_selection_anchor := s, im_textarea := t\<rparr>) = tracked_ok m"
  by (simp_all add: tracked_ok_def set_textarea_def clear_selection_def refresh_content_cache_def
      reset_history_navigation_def track_compact_paste_replace_def)

lemma history_updates [simp]:
  "history_ok (set_textarea t m) = history_ok m" "history_ok (clear_selection lib m) = history_ok m"
  "history_ok (refresh_content_cache lib m) = history_ok m"
  "history_ok (track_compact_paste_replace a b n m) = history_ok m"
  "history_ok (m\<lparr>im_compact_paste_range := q\<rparr>) = history_ok m" "history_ok (m\<lparr>im_selection_copied := c\<rparr>) = history_ok m"
  "history_ok (m\<lparr>im_selection_anchor := s, im_textarea := t\<rparr>) = history_ok m"
  by (simp_all add: history_ok_def set_textarea_def clear_selection_def refresh_content_cache_def
      track_compact_paste_replace_def)

lemma track_range_ordered: "pred_option (\<lambda>(start, stop). start \<le> stop) (Option.bind q (track_range a b n))"
  if "pred_option (\<lambda>(start, stop). start \<le> stop) q"
  using that by (cases q) (auto simp: track_range_def Let_def sat_add_def)

lemma paste_updates [simp]:
  "paste_ok (set_textarea t m) = paste_ok m" "paste_ok (clear_selection lib m) = paste_ok m"
  "paste_ok (refresh_content_cache lib m) = paste_ok m" "paste_ok (reset_history_navigation m) = paste_ok m"
  "paste_ok (m\<lparr>im_selection_copied := c\<rparr>) = paste_ok m" "paste_ok (m\<lparr>im_compact_paste_range := None\<rparr>)"
  "paste_ok (m\<lparr>im_selection_anchor := s, im_textarea := t\<rparr>) = paste_ok m"
  by (simp_all add: paste_ok_def set_textarea_def clear_selection_def refresh_content_cache_def reset_history_navigation_def)

lemma paste_track [simp]: "paste_ok m \<Longrightarrow> paste_ok (track_compact_paste_replace a b n m)"
  using track_range_ordered by (simp add: paste_ok_def track_compact_paste_replace_def)

lemma reset_textarea [simp]: "im_textarea (reset_history_navigation m) = im_textarea m"
  by (simp add: reset_history_navigation_def)

lemma history_reset [simp]: "history_ok m \<Longrightarrow> history_ok (reset_history_navigation m)"
  by (simp add: history_ok_def reset_history_navigation_def)

section \<open>The selected text\<close>

lemma slice_shift: "slice (l @ r) (blen l + a) (blen l + b) = slice r a b"
  by (cases "split_at_byte r b")
    (auto simp: slice_def slice_to_def slice_from_def split_at_byte_shift option.map_comp comp_def split_beta)

lemma slice_prefix:
  assumes "b \<le> blen l"
  shows "slice (l @ r) a b = slice l a b"
proof (cases "slice l a b")
  case None
  then have "slice (l @ r) a b = None"
    using slice_defined [of l a b] slice_defined [of "l @ r" a b] boundary_prefix [of l r a] boundary_prefix [of l r b] assms
    by (meson le_trans not_None_eq)
  with None show ?thesis by simp
next
  case (Some m)
  then have "a \<le> b" "is_char_boundary l a" "is_char_boundary l b" using slice_defined [of l a b] by auto
  then obtain x y z where "l = x @ y @ z" "a = blen x" "b = blen x + blen y" by (rule slice_split)
  then show ?thesis using slice_mid [of x y "z @ r"] by simp
qed

lemma slice_across:
  assumes "a \<le> blen l"
  shows "slice (l @ r) a (blen l + b) = do { p \<leftarrow> slice l a (blen l); q \<leftarrow> slice r 0 b; Some (p @ q) }"
proof (cases "is_char_boundary l a")
  case True
  then obtain x y where x: "l = x @ y" "a = blen x" by (rule boundaryE)
  have "slice (x @ (y @ r)) (blen x + 0) (blen x + (blen y + b)) = slice (y @ r) 0 (blen y + b)" by (rule slice_shift)
  moreover have "slice l a (blen l) = Some y" using x slice_mid [of x y "[]"] by simp
  moreover have "slice (y @ r) 0 (blen y + b) = map_option ((@) y) (slice r 0 b)"
    by (cases "split_at_byte r b") (auto simp: slice_def slice_to_def split_at_byte_shift)
  ultimately show ?thesis using x by (cases "slice r 0 b") (simp_all add: ac_simps)
next
  case False
  then have "slice l a (blen l) = None" "\<not> is_char_boundary (l @ r) a"
    using slice_defined [of l a "blen l"] boundary_prefix [of l r a] assms by auto
  then show ?thesis using slice_defined [of "l @ r" a "blen l + b"] by auto
qed

text \<open>The loop of \<open>selected_text\<close> reads every line with a line break after it, the last one too.\<close>

definition ended_lines :: "rtext list \<Rightarrow> rtext" where
  "ended_lines ls = concat (map (\<lambda>l. l @ [nl]) ls)"

lemma ended_lines_join: "ls \<noteq> [] \<Longrightarrow> ended_lines ls = join_nl ls @ [nl]"
proof (induction ls)
  case (Cons l ls)
  then show ?case by (cases "ls = []") (simp_all add: ended_lines_def join_nl_Cons)
qed simp

lemma selected_lines_slice:
  assumes "start < stop" "n \<le> stop"
  shows "selected_lines ls n start stop =
    slice (ended_lines ls) (min (start - n) (blen (ended_lines ls))) (min (stop - n) (blen (ended_lines ls)))"
  using assms
proof (induction ls arbitrary: n)
  case Nil
  then show ?case using slice_mid [of "[]" "[]" "[]"] by (simp add: ended_lines_def)
next
  case (Cons l ls)
  let ?e = "n + blen l"
  let ?j = "ended_lines ls" and ?t = "ended_lines (l # ls)"
  have t: "?t = l @ nl # ?j" "?t = (l @ [nl]) @ ?j" by (simp_all add: ended_lines_def)
  show ?case
  proof (cases "stop \<le> ?e")
    case True
    then have "min (start - n) (blen ?t) = start - n" "min (stop - n) (blen ?t) = stop - n" "stop - n \<le> blen l"
      using Cons.prems(1) t by auto
    then have "slice ?t (min (start - n) (blen ?t)) (min (stop - n) (blen ?t)) = slice l (start - n) (stop - n)"
      using slice_prefix t(1) by metis
    with True Cons.prems show ?thesis by (auto simp: Let_def min_def slice_def)
  next
    case False
    then obtain k where k: "stop = ?e + 1 + k" by (metis add.assoc add.commute less_imp_Suc_add not_le plus_1_eq_Suc)
    have ih: "selected_lines ls (?e + 1) start stop = slice ?j (min (start - (?e + 1)) (blen ?j)) (min k (blen ?j))"
      using Cons.IH [OF Cons.prems(1), of "?e + 1"] k by simp
    have stop: "min (stop - n) (blen ?t) = blen (l @ [nl]) + min k (blen ?j)" using t(2) k by simp
    show ?thesis
    proof (cases "start \<le> ?e")
      case True
      have part: "(if start < ?e \<and> n < stop then slice l (start - n) (min stop ?e - n) else Some []) = slice l (start - n) (blen l)"
      proof (cases "start < ?e")
        case False
        with True have "start - n = blen l" by simp
        then show ?thesis using False slice_mid [of l "[]" "[]"] by simp
      qed (use k in \<open>simp add: min_def\<close>)
      have "min (start - n) (blen ?t) = start - n" using True t by simp
      then have "slice ?t (min (start - n) (blen ?t)) (min (stop - n) (blen ?t))
          = do { p \<leftarrow> slice (l @ [nl]) (start - n) (blen (l @ [nl])); q \<leftarrow> slice ?j 0 (min k (blen ?j)); Some (p @ q) }"
        unfolding stop using slice_across [of "start - n" "l @ [nl]" ?j] t True by simp
      also have "slice (l @ [nl]) (start - n) (blen (l @ [nl])) = map_option (\<lambda>p. p @ [nl]) (slice l (start - n) (blen l))"
        using slice_across [of "start - n" l "[nl]" 1] True slice_mid [of "[]" "[nl]" "[]"]
        by (cases "slice l (start - n) (blen l)") simp_all
      finally show ?thesis using True ih k unfolding selected_lines.simps Let_def part
        by (cases "slice l (start - n) (blen l)"; cases "slice ?j 0 (min k (blen ?j))") simp_all
    next
      case after: False
      then have "min (start - n) (blen ?t) = blen (l @ [nl]) + min (start - (?e + 1)) (blen ?j)" using t by simp
      then have "slice ?t (min (start - n) (blen ?t)) (min (stop - n) (blen ?t))
          = slice ?j (min (start - (?e + 1)) (blen ?j)) (min k (blen ?j))"
        unfolding stop using slice_shift [of "l @ [nl]" ?j] t(2) by metis
      with False after ih show ?thesis
        by (cases "slice ?j (min (start - (?e + 1)) (blen ?j)) (min k (blen ?j))") (simp_all add: Let_def)
    qed
  qed
qed

text \<open>\<open>transpose_chars\<close> tests the length in bytes and swaps characters.\<close>

definition one_wide_char :: "rtext \<Rightarrow> bool" where
  "one_wide_char s \<longleftrightarrow> length s = 1 \<and> 2 \<le> blen s"

text \<open>The commands that can crash, in the states where they do.\<close>

definition crashes :: "'t textarea_lib \<Rightarrow> command \<Rightarrow> 't input_manager \<Rightarrow> bool" where
  "crashes lib c m \<longleftrightarrow> c = CmdTransposeChars \<and> one_wide_char (im_content_cache m)
     \<or> c = CmdCopy \<and> selected_text lib m = None"

section \<open>The compact paste range\<close>

lemma track_range_slice:
  assumes "slice (l @ mid @ r) i j = Some p" "blen (l @ mid @ r) \<le> usize_max" "blen (l @ t @ r) \<le> usize_max"
  shows "case track_range (blen l) (blen l + blen mid) (blen t) (i, j) of
      Some (i', j') \<Rightarrow> slice (l @ t @ r) i' j' = Some p
    | None \<Rightarrow> i < blen l + blen mid \<and> blen l < j"
proof -
  have ij: "i \<le> j" "is_char_boundary (l @ mid @ r) j" using assms(1) slice_defined by blast+
  then have max: "j \<le> blen (l @ mid @ r)" by (simp only: boundary_le)
  show ?thesis
  proof (cases "blen l + blen mid \<le> i")
    case True
    then obtain a b where ab: "i = blen (l @ mid) + a" "j = blen (l @ mid) + b"
      using ij(1) by (metis blen_append le_Suc_ex le_trans)
    have "slice r a b = Some p" using assms(1) slice_shift [of "l @ mid" r a b] ab by simp
    then have "slice (l @ t @ r) (blen (l @ t) + a) (blen (l @ t) + b) = Some p" using slice_shift [of "l @ t" r a b] by simp
    moreover have "track_range (blen l) (blen l + blen mid) (blen t) (i, j) = Some (blen (l @ t) + a, blen (l @ t) + b)"
      using True ab ij(1) max assms(2,3) by (simp add: track_range_def Let_def sat_add_def min_def)
    ultimately show ?thesis by simp
  next
    case False
    show ?thesis
    proof (cases "j \<le> blen l")
      case True
      with assms(1) have "slice (l @ t @ r) i j = Some p" using slice_prefix [OF True] by metis
      with False True show ?thesis by (simp add: track_range_def)
    qed (use False in \<open>simp add: track_range_def\<close>)
  qed
qed

context textarea
begin

abbreviation "coh \<equiv> coherent lib good"

definition safe :: "'t input_manager option \<Rightarrow> bool" where
  "safe r \<longleftrightarrow> (\<exists>m. r = Some m \<and> coh m)"

lemma safe_Some [simp]: "safe (Some m) = coh m"
  by (simp add: safe_def)

lemma safeE: "safe r \<Longrightarrow> (\<And>m. r = Some m \<Longrightarrow> coh m \<Longrightarrow> thesis) \<Longrightarrow> thesis"
  by (auto simp: safe_def)

lemma safe_bind: "safe r \<Longrightarrow> (\<And>m. coh m \<Longrightarrow> safe (f m)) \<Longrightarrow> safe (Option.bind r f)"
  by (auto simp: safe_def)

lemma safe_map: "safe r \<Longrightarrow> (\<And>m. coh m \<Longrightarrow> coh (f m)) \<Longrightarrow> safe (map_option f r)"
  by (auto simp: safe_def)

lemma cohD:
  assumes "coh m"
  shows "good (im_textarea m)" "one_line (im_lines lib m)" "im_content_cache m = join_nl (im_lines lib m)"
    "im_lines lib m \<noteq> []" "tracked_ok m" "history_ok m" "paste_ok m"
  using assms view_law [of "im_textarea m"] by (auto simp: coherent_def im_lines_def one_line_def)

lemma coh_split:
  assumes "coh m"
  obtains l r where "im_content_cache m = l @ r" "im_cursor lib m = blen l"
  using view_law [OF cohD(1) [OF assms]] cohD(3) [OF assms] caret_text caret_offset
  by (metis im_lines_def im_cursor_def)

text \<open>Replacing the text area by one with the same lines, or by any good one and refreshing the cache.\<close>

lemma coh_same_lines: "coh m \<Longrightarrow> good t \<Longrightarrow> ta_lines lib t = im_lines lib m \<Longrightarrow> coh (set_textarea t m)"
  by (simp add: coherent_def)

lemma coh_refresh: "good (im_textarea m) \<Longrightarrow> tracked_ok m \<Longrightarrow> history_ok m \<Longrightarrow> paste_ok m \<Longrightarrow> coh (refresh_content_cache lib m)"
  by (simp add: coherent_def)

lemma coh_clear [simp]: "coh m \<Longrightarrow> coh (clear_selection lib m)"
  using cancel_law [of "im_textarea m"] by (simp add: coherent_def im_lines_def)

lemma coh_track [simp]: "coh m \<Longrightarrow> coh (track_compact_paste_replace a b n m)"
  by (simp add: coherent_def)

lemma coh_fields [simp]:
  "coh (m\<lparr>im_selection_copied := c\<rparr>) = coh m" "coh m \<Longrightarrow> coh (m\<lparr>im_compact_paste_range := None\<rparr>)"
  "coh m \<Longrightarrow> a \<le> b \<Longrightarrow> coh (set_compact_paste_range a b m)"
  by (simp_all add: coherent_def im_lines_def set_compact_paste_range_def) (simp add: paste_ok_def)

lemma coh_reset [simp]: "coh m \<Longrightarrow> coh (reset_history_navigation m)"
  by (simp add: coherent_def im_lines_def) (simp add: reset_history_navigation_def)

lemma set_textarea_cursor_coh: "coh m \<Longrightarrow> coh (set_textarea_cursor lib row col m)"
  using move_law [OF cohD(1)] unfolding set_textarea_cursor_def by (intro coh_same_lines) (auto simp: im_lines_def)

lemma jump_safe: "coh m \<Longrightarrow> safe (jump_to_offset lib p m)"
proof -
  assume m: "coh m"
  obtain row col where "byte_offset_to_row_col (im_lines lib m) p = Some (row, col)"
    using locate [OF cohD(4) [OF m]] by metis
  then show ?thesis using set_textarea_cursor_coh [OF m] by (simp add: jump_to_offset_def)
qed

lemma set_cursor_safe: "coh m \<Longrightarrow> safe (im_set_cursor lib p m)"
  by (simp add: im_set_cursor_def safe_map jump_safe)

lemma with_selection_safe: "coh m \<Longrightarrow> safe (set_cursor_with_selection lib p m)"
proof -
  assume m: "coh m"
  have "coh (m\<lparr>im_selection_anchor := Some (im_cursor lib m), im_textarea := ta_start_selection lib (im_textarea m)\<rparr>)"
    using start_law [OF cohD(1) [OF m]] m by (simp add: coherent_def im_lines_def)
  with m show ?thesis by (simp add: set_cursor_with_selection_def Let_def safe_map jump_safe)
qed

lemma set_content_coh: "coh m \<Longrightarrow> coh (set_content lib c m)"
proof -
  assume m: "coh m"
  have "one_line (split_nl c)" using split_nl_no_nl by (auto simp: one_line_def)
  with from_law configure_facts(1) move_law have "good (textarea_at_end lib c)" by (simp add: textarea_at_end_def)
  with cancel_law cohD(5-7) [OF m] show ?thesis
    unfolding set_content_def by (intro coh_refresh) simp_all
qed

lemma set_cursor_good:
  assumes "good (im_textarea m)"
  obtains t where "im_set_cursor lib p m = Some (clear_selection lib (set_textarea t m))" "good t"
proof -
  have "im_lines lib m \<noteq> []" using view_law [OF assms] by (simp add: im_lines_def one_line_def)
  from locate [OF this, of p] obtain row col where "byte_offset_to_row_col (im_lines lib m) p = Some (row, col)" by metis
  with move_law [OF assms] that show thesis by (simp add: im_set_cursor_def jump_to_offset_def set_textarea_cursor_def)
qed

lemma replace_range_safe: "coh m \<Longrightarrow> start \<le> stop \<Longrightarrow> safe (im_replace_range lib start stop t m)"
proof -
  assume m: "coh m" and le: "start \<le> stop"
  obtain new where new: "replaced_lines (im_lines lib m) start stop t = Some new" "one_line new"
    using replaced_lines_splice [OF cohD(2) [OF m] le, of t] by metis
  let ?t = "configure_textarea lib (ta_from lib new)"
  let ?m = "set_textarea ?t (track_compact_paste_replace start stop (blen t) m)"
  have "good (im_textarea ?m)" using from_law [OF new(2)] configure_facts(1) [of "ta_from lib new"] by simp
  then obtain t' where "im_set_cursor lib (start + blen t) ?m = Some (clear_selection lib (set_textarea t' ?m))" "good t'"
    by (rule set_cursor_good)
  moreover from this have "coh (refresh_content_cache lib (clear_selection lib (set_textarea t' ?m)))"
    using cancel_law cohD(5-7) [OF m] by (intro coh_refresh) simp_all
  ultimately show ?thesis using new(1) by (simp add: im_replace_range_def)
qed

lemma selection_safe: "coh m \<Longrightarrow> selection_range lib m = Some (a, b) \<Longrightarrow> safe (im_replace_range lib a b t m)"
  using selection_ordered replace_range_safe less_imp_le by blast

lemma or_selection_safe: "coh m \<Longrightarrow> (\<And>m. coh m \<Longrightarrow> safe (f m)) \<Longrightarrow> safe (or_selection lib f m)"
  using selection_safe [of m _ _ "[]"]
  by (cases "selection_range lib m") (auto simp: or_selection_def delete_selection_def elim!: safeE)

text \<open>A change of the text area that is followed by a refresh.\<close>

lemma edit_coh: "coh m \<Longrightarrow> good t \<Longrightarrow> coh (refresh_content_cache lib (set_textarea t m))"
  using cohD(5-7) by (intro coh_refresh) simp_all

lemma insert_char_safe: "coh m \<Longrightarrow> safe (im_insert_char lib c m)"
proof (cases "selection_range lib m")
  case None
  assume m: "coh m"
  from insert_char_size [OF cohD(1) [OF m], of c]
  have "coh (refresh_content_cache lib (set_textarea (ta_insert_char lib c (im_textarea m)) (track_compact_paste_replace x y n m)))" for x y n
    using edit_coh m by simp
  with None show ?thesis by (simp add: im_insert_char_def Let_def)
next
  case (Some ab)
  assume m: "coh m"
  obtain a b where ab: "selection_range lib m = Some (a, b)" using Some by (cases ab) simp
  have "coh m' \<Longrightarrow> coh (refresh_content_cache lib m')" for m' using cohD by (intro coh_refresh) blast+
  with selection_safe [OF m ab] ab show ?thesis by (auto simp: im_insert_char_def intro: safe_map)
qed

lemma insert_text_safe: "coh m \<Longrightarrow> safe (im_insert_text lib s m)"
proof (cases "selection_range lib m")
  case None
  assume m: "coh m"
  from insert_size [OF cohD(1) [OF m], of s]
  have "coh (refresh_content_cache lib (set_textarea (ta_insert_str lib s (im_textarea m)) (track_compact_paste_replace x y n m)))" for x y n
    using edit_coh m by simp
  with None show ?thesis by (simp add: im_insert_text_def Let_def)
next
  case (Some ab)
  assume m: "coh m"
  obtain a b where ab: "selection_range lib m = Some (a, b)" using Some by (cases ab) simp
  have "coh m' \<Longrightarrow> coh (refresh_content_cache lib m')" for m' using cohD by (intro coh_refresh) blast+
  with selection_safe [OF m ab] ab show ?thesis by (auto simp: im_insert_text_def intro: safe_map)
qed

lemma capacity_defined:
  assumes "paste_ok m"
  shows "\<exists>n. remaining_newline_capacity m = Some n"
proof (cases "im_compact_paste_range m")
  case (Some q)
  obtain a b where q: "q = (a, b)" "a \<le> b" using assms Some by (cases q) (auto simp: paste_ok_def)
  have "\<exists>s. slice (im_content_cache m) a b = Some s"
    if "is_char_boundary (im_content_cache m) a" "is_char_boundary (im_content_cache m) b"
    using slice_defined [of "im_content_cache m" a b] q(2) that by auto
  with q(1) Some show ?thesis by (auto simp: remaining_newline_capacity_def Let_def)
qed (simp add: remaining_newline_capacity_def)

lemma composer_insert_safe: "coh m \<Longrightarrow> safe (composer_insert_char lib c m)"
  using capacity_defined [OF cohD(7)] insert_char_safe
  by (fastforce simp: composer_insert_char_def can_insert_newline_def)

lemma paste_safe: "coh m \<Longrightarrow> safe (insert_paste_text lib text m)"
proof -
  assume m: "coh m"
  have "p \<le> sat_add p n" for p n by (auto simp: sat_add_def)
  show ?thesis
    unfolding insert_paste_text_def Let_def
    using \<open>\<And>p n. p \<le> sat_add p n\<close> by (auto intro!: safe_map insert_text_safe simp: m)
qed

lemma set_textarea_track: "set_textarea t (track_compact_paste_replace a b n m) = track_compact_paste_replace a b n (set_textarea t m)"
  by (simp add: set_textarea_def track_compact_paste_replace_def)

lemma backspace_safe: "coh m \<Longrightarrow> safe (backspace lib m)"
  unfolding backspace_def
proof (rule or_selection_safe, assumption)
  fix m assume m: "coh m"
  obtain l r where lr: "im_content_cache m = l @ r" "im_cursor lib m = blen l" using coh_split [OF m] .
  from delete_size [OF cohD(1) [OF m]]
  have "coh (refresh_content_cache lib (set_textarea (ta_delete_char lib (im_textarea m)) m'))" if "coh m'" for m'
    using edit_coh [OF that] by simp
  with m lr show "safe (let cursor = im_cursor lib m in
      do { m' \<leftarrow> (if 0 < cursor
                   then do { before \<leftarrow> slice_to (im_content_cache m) cursor;
                             let start = (if before = [] then 0 else blen (butlast before));
                             Some (track_compact_paste_replace start cursor 0 m) }
                   else Some m);
           Some (refresh_content_cache lib (set_textarea (ta_delete_char lib (im_textarea m')) m')) })"
    by (simp add: Let_def)
qed

lemma delete_safe: "coh m \<Longrightarrow> safe (im_delete lib m)"
  unfolding im_delete_def
proof (rule or_selection_safe, assumption)
  fix m assume m: "coh m"
  obtain l r where lr: "im_content_cache m = l @ r" "im_cursor lib m = blen l" using coh_split [OF m] .
  from delete_size [OF cohD(1) [OF m]]
  have "coh (refresh_content_cache lib (set_textarea (ta_delete_next_char lib (im_textarea m)) m'))" if "coh m'" for m'
    using edit_coh [OF that] by simp
  with m lr show "safe (let cursor = im_cursor lib m; content = im_content_cache m in
      do { m' \<leftarrow> (if cursor < blen content
                   then do { after \<leftarrow> slice_from content cursor;
                             let stop = (case nth_offset after 1 of None \<Rightarrow> blen content | Some idx \<Rightarrow> cursor + idx);
                             Some (track_compact_paste_replace cursor stop 0 m) }
                   else Some m);
           Some (refresh_content_cache lib (set_textarea (ta_delete_next_char lib (im_textarea m')) m')) })"
    by (simp add: Let_def)
qed

lemma composer_delete_safe: "coh m \<Longrightarrow> safe (composer_delete_char lib m)"
  using backspace_safe replace_range_safe
  by (auto simp: composer_delete_char_def split: option.split prod.split)

lemma delete_word_forward_safe: "coh m \<Longrightarrow> safe (delete_word_forward lib m)"
  unfolding delete_word_forward_def
proof (rule or_selection_safe, assumption)
  fix m assume m: "coh m"
  from delete_size [OF cohD(1) [OF m]] edit_coh [OF m]
  have "coh (refresh_content_cache lib (set_textarea (ta_delete_next_word lib (im_textarea m)) m))" by simp
  then show "safe (let prefix_len = im_cursor lib m;
          before_len = blen (im_content_cache m);
          m' = refresh_content_cache lib (set_textarea (ta_delete_next_word lib (im_textarea m)) m);
          after_len = blen (im_content_cache m')
      in Some (if after_len < before_len
               then track_compact_paste_replace prefix_len (prefix_len + (before_len - after_len)) 0 m' else m'))"
    by (simp add: Let_def)
qed

lemma to_line_end_safe: "coh m \<Longrightarrow> safe (delete_to_end_of_line lib m)"
  unfolding delete_to_end_of_line_def
proof (rule or_selection_safe, assumption)
  fix m assume m: "coh m"
  obtain l r where lr: "im_content_cache m = l @ r" "im_cursor lib m = blen l" using coh_split [OF m] .
  with m replace_range_safe show "safe (let cursor = im_cursor lib m in
      do { rest \<leftarrow> slice_from (im_content_cache m) cursor;
           let delete_len = (case find_char ((=) nl) rest of Some newline_pos \<Rightarrow> newline_pos | None \<Rightarrow> blen rest);
           if 0 < delete_len then im_replace_range lib cursor (cursor + delete_len) [] m else Some m })"
    by (simp add: Let_def)
qed

lemma whitespace_safe: "coh m \<Longrightarrow> safe (delete_whitespace_around_cursor lib m)"
proof -
  assume m: "coh m"
  obtain l r where lr: "im_content_cache m = l @ r" "im_cursor lib m = blen l" using coh_split [OF m] .
  with m set_content_coh set_cursor_safe show ?thesis by (simp add: delete_whitespace_around_cursor_def Let_def)
qed

lemma clear_coh: "coh m \<Longrightarrow> coh (im_clear lib m)"
proof -
  assume m: "coh m"
  have "good (configure_textarea lib (ta_default lib))" using default_law configure_facts(1) by blast
  then show ?thesis using cancel_law [of "configure_textarea lib (ta_default lib)"] cohD(6) [OF m]
    unfolding im_clear_def by (intro coh_refresh) (simp_all add: tracked_ok_def history_ok_def paste_ok_def reset_history_navigation_def
        clear_selection_def set_textarea_def)
qed

lemma clear_line_safe: "coh m \<Longrightarrow> safe (clear_current_line_or_all lib m)"
  unfolding clear_current_line_or_all_def
proof (rule or_selection_safe, assumption)
  fix m assume m: "coh m"
  have "safe (Option.bind (im_replace_range lib a b [] m) (im_set_cursor lib c))" if "a \<le> b" for a b c
    using m that replace_range_safe set_cursor_safe by (intro safe_bind) auto
  with m clear_coh show "safe (let content = im_content_cache m; content_len = blen content in
      if content_len = 0 then Some m
      else if is_single_line lib m then Some (im_clear lib m)
      else (let cursor = min (im_cursor lib m) content_len;
                (line_start, line_end) = current_line_byte_range lib m;
                (clear_start, clear_end) =
                  with_pasted_block m cursor (min line_start content_len, min line_end content_len);
                clear_start = back_to_boundary content clear_start;
                clear_end = skip_to_boundary content clear_end
            in if clear_end \<le> clear_start then Some m
               else Option.bind (im_replace_range lib clear_start clear_end [] m) (im_set_cursor lib clear_start)))"
    by (auto simp: Let_def split: prod.split)
qed

lemma cursor_safe_after: "coh m \<Longrightarrow> safe (im_set_cursor lib p (set_content lib c m))"
  using set_content_coh set_cursor_safe by blast

lemma transpose_chars_panics_iff:
  assumes "coh m"
  shows "transpose_chars lib m = None \<longleftrightarrow> one_wide_char (im_content_cache m)"
    "\<not> one_wide_char (im_content_cache m) \<Longrightarrow> safe (transpose_chars lib m)"
proof -
  obtain l r where lr: "im_content_cache m = l @ r" "im_cursor lib m = blen l" using coh_split [OF assms] .
  let ?s = "l @ r"
  have wide: "one_wide_char ?s \<longleftrightarrow> \<not> (blen ?s < 2 \<or> 2 \<le> length ?s)" by (cases ?s) (auto simp: one_wide_char_def Suc_le_eq)
  have "safe (transpose_chars lib m)" if "blen ?s < 2 \<or> 2 \<le> length ?s"
    using that lr assms set_content_coh [OF assms] cursor_safe_after [OF assms]
    by (auto simp: transpose_chars_def Let_def)
  moreover have "transpose_chars lib m = None" if "2 \<le> blen ?s" "length ?s < 2"
  proof (cases "l = []")
    case True
    with that lr show ?thesis by (simp add: transpose_chars_def Let_def)
  next
    case False
    with that have "r = []" "length l = 1" by (cases l; cases r; simp)+
    with that lr False show ?thesis by (simp add: transpose_chars_def Let_def)
  qed
  ultimately have "if one_wide_char ?s then transpose_chars lib m = None else safe (transpose_chars lib m)"
    unfolding wide by (auto simp: not_less not_le)
  then show "transpose_chars lib m = None \<longleftrightarrow> one_wide_char (im_content_cache m)"
    "\<not> one_wide_char (im_content_cache m) \<Longrightarrow> safe (transpose_chars lib m)"
    using lr(1) by (auto simp: safe_def split: if_splits)
qed

lemma transpose_words_safe: "coh m \<Longrightarrow> safe (transpose_words lib alnum m)"
proof -
  assume m: "coh m"
  obtain l r where lr: "im_content_cache m = l @ r" "im_cursor lib m = blen l" using coh_split [OF m] .
  with m cursor_safe_after show ?thesis by (simp add: transpose_words_def Let_def)
qed

lemma forward_while_ge: "i \<le> forward_while P s i"
proof (induction P s i rule: forward_while.induct)
  case (1 P s i)
  then show ?case by (subst forward_while.simps) auto
qed

lemma sum_len_blen: "sum_list (map len_utf8 s) = blen s"
  by (induction s) simp_all

lemma transform_word_safe: "coh m \<Longrightarrow> safe (transform_word lib alnum f m)"
proof -
  assume m: "coh m"
  obtain l r where lr: "im_content_cache m = l @ r" "im_cursor lib m = blen l" using coh_split [OF m] .
  let ?s = "l @ r"
  let ?a = "back_while alnum ?s (length l)"
  let ?b = "forward_while alnum ?s ?a"
  have "slice_to ?s (blen (take ?a ?s)) = Some (take ?a ?s)"
    using slice_to_append [of "take ?a ?s" "drop ?a ?s"] by (metis append_take_drop_id)
  moreover have "?s = (take ?a ?s @ take (?b - ?a) (drop ?a ?s)) @ drop (?b - ?a) (drop ?a ?s)"
    by (metis append.assoc append_take_drop_id)
  then have "slice_from ?s (blen (take ?a ?s) + blen (take (?b - ?a) (drop ?a ?s))) = Some (drop (?b - ?a) (drop ?a ?s))"
    using slice_from_append [of "take ?a ?s @ take (?b - ?a) (drop ?a ?s)" "drop (?b - ?a) (drop ?a ?s)"] by (metis blen_append)
  ultimately show ?thesis
    using m lr cursor_safe_after [OF m] by (simp add: transform_word_def Let_def sum_len_blen)
qed

lemma move_left_safe: "coh m \<Longrightarrow> safe (move_cursor_left lib m)" and move_right_safe: "coh m \<Longrightarrow> safe (move_cursor_right lib m)"
proof -
  assume m: "coh m"
  have "coh (set_textarea (ta_move_cursor lib d (ta_cancel_selection lib (im_textarea m))) m)" for d
    using cancel_law [OF cohD(1) [OF m]] move_law by (intro coh_same_lines [OF m]) (auto simp: im_lines_def)
  with m set_cursor_safe show "safe (move_cursor_left lib m)" "safe (move_cursor_right lib m)"
    by (simp_all add: move_cursor_left_def move_cursor_right_def split: option.split)
qed

lemma row_moves_coh: "coh m \<Longrightarrow> coh (snd (move_cursor_up lib m))" "coh m \<Longrightarrow> coh (snd (move_cursor_down lib m))"
proof -
  assume m: "coh m"
  have "coh (move_by_row lib d m)" for d
    using cancel_law [OF cohD(1) [OF m]] move_law unfolding move_by_row_def
    by (intro coh_clear coh_same_lines [OF m]) (auto simp: im_lines_def)
  with m show "coh (snd (move_cursor_up lib m))" "coh (snd (move_cursor_down lib m))"
    by (simp_all add: move_cursor_up_def move_cursor_down_def)
qed

lemma ends_coh: "coh m \<Longrightarrow> coh (move_cursor_to_start lib m)" "coh m \<Longrightarrow> coh (move_cursor_to_end lib m)"
  using set_textarea_cursor_coh by (auto simp: move_cursor_to_start_def move_cursor_to_end_def Let_def)

lemma undo_coh: "coh m \<Longrightarrow> coh (snd (im_undo lib m))" "coh m \<Longrightarrow> coh (snd (im_redo lib m))"
proof -
  assume m: "coh m"
  have "coh (snd (after_undo lib res m))"
    if "good (snd res)" "\<not> fst res \<longrightarrow> ta_lines lib (snd res) = im_lines lib m" for res
    using that cohD(5,6) [OF m] coh_same_lines [OF m]
    by (auto simp: after_undo_def Let_def intro!: coh_refresh)
  with undo_law [OF cohD(1) [OF m]] redo_law [OF cohD(1) [OF m]]
  show "coh (snd (im_undo lib m))" "coh (snd (im_redo lib m))" by (simp_all add: im_undo_def im_redo_def im_lines_def)
qed

lemma rfind_split:
  assumes "rfind_char P s = Some i"
  obtains a c b where "s = a @ c # b" "i = blen a" "P c"
  using assms by (metis rfind_charE)

lemma previous_boundary_defined: "\<exists>p. previous_word_boundary bounds (l @ r) (blen l) = Some p"
proof (cases "rfind_char (\<lambda>c. \<not> char_is_whitespace c) l")
  case (Some i)
  then obtain a c b where l: "l = a @ c # b" "i = blen a" by (rule rfind_split)
  have cut: "slice_to l i = Some a" "slice_from l i = Some (c # b)" by (simp_all add: l)
  have run: "\<exists>run. slice l k (i + len_utf8 c) = Some run" if "is_char_boundary a k" for k
  proof -
    have "is_char_boundary l (i + len_utf8 c)" using boundary_append [of "a @ [c]" b] l by simp
    moreover have "is_char_boundary l k" using that l(1) boundary_append_left by blast
    ultimately show ?thesis using slice_defined [of l k "i + len_utf8 c"] boundary_le [OF that] l(2) by auto
  qed
  show ?thesis
  proof (cases "rfind_char char_is_whitespace a")
    case None
    obtain run where "slice l 0 (i + len_utf8 c) = Some run" using run [of 0] by auto
    with None Some cut show ?thesis by (simp add: previous_word_boundary_def Let_def)
  next
    case (Some j)
    then obtain a' d b' where a: "a = a' @ d # b'" "j = blen a'" by (rule rfind_split)
    have "is_char_boundary a (j + len_utf8 d)" using boundary_append [of "a' @ [d]" b'] a by simp
    from run [OF this] obtain run where "slice l (j + len_utf8 d) (i + len_utf8 c) = Some run" by blast
    moreover have "slice_from a j = Some (d # b')" by (simp add: a)
    ultimately show ?thesis using Some \<open>rfind_char _ l = Some i\<close> cut
      by (simp add: previous_word_boundary_def Let_def)
  qed
qed (simp add: previous_word_boundary_def)

lemma next_boundary_defined: "\<exists>p. next_word_boundary bounds (l @ r) (blen l) = Some p"
proof (cases "find_char (\<lambda>c. \<not> char_is_whitespace c) r")
  case (Some i)
  then obtain a c b where r: "r = a @ c # b" "i = blen a" by (rule find_charE)
  then obtain t where t: "slice_from r i = Some t" by simp
  show ?thesis
  proof (cases "find_char char_is_whitespace t")
    case None
    with Some t show ?thesis by (simp add: next_word_boundary_def Let_def)
  next
    case (Some j)
    then obtain a' d b' where "t = a' @ d # b'" "j = blen a'" by (rule find_charE)
    then have "slice_to t j = Some a'" by simp
    with Some \<open>find_char _ r = Some i\<close> t show ?thesis by (simp add: next_word_boundary_def Let_def)
  qed
qed (simp add: next_word_boundary_def)

lemma word_moves_safe: "coh m \<Longrightarrow> safe (move_left_word lib bounds m)" "coh m \<Longrightarrow> safe (move_right_word lib bounds m)"
proof -
  assume m: "coh m"
  obtain l r where lr: "im_content_cache m = l @ r" "im_cursor lib m = blen l" using coh_split [OF m] .
  with previous_boundary_defined [of bounds l r] next_boundary_defined [of bounds l r] set_cursor_safe [OF m]
  show "safe (move_left_word lib bounds m)" "safe (move_right_word lib bounds m)"
    by (auto simp: move_left_word_def move_right_word_def)
qed

lemma delete_word_backward_safe: "coh m \<Longrightarrow> safe (delete_word_backward lib bounds m)"
  unfolding delete_word_backward_def
proof (rule or_selection_safe, assumption)
  fix m assume m: "coh m"
  obtain l r where lr: "im_content_cache m = l @ r" "im_cursor lib m = blen l" using coh_split [OF m] .
  obtain p where p: "previous_word_boundary bounds (l @ r) (blen l) = Some p" using previous_boundary_defined by blast
  have "safe (Option.bind (im_replace_range lib p (blen l) [] m) (im_set_cursor lib p))" if "p < blen l"
    using m that replace_range_safe set_cursor_safe by (intro safe_bind) auto
  with m lr p show "safe (let cursor = im_cursor lib m in
      if cursor = 0 then Some m
      else do { delete_start \<leftarrow> previous_word_boundary bounds (im_content_cache m) cursor;
                if delete_start < cursor
                then Option.bind (im_replace_range lib delete_start cursor [] m) (im_set_cursor lib delete_start)
                else Some m })"
    by (simp add: Let_def)
qed

lemma apply_entry_coh: "coh m \<Longrightarrow> coh (apply_history_entry lib entry m)"
proof -
  assume m: "coh m"
  have "one_line (split_nl (he_content entry))" using split_nl_no_nl by (auto simp: one_line_def)
  with from_law configure_facts(1) move_law have "good (textarea_at_end lib (he_content entry))" by (simp add: textarea_at_end_def)
  moreover have "length (attachment_placeholders_for_content c n) = n" for c n
    by (auto simp: attachment_placeholders_for_content_def Let_def)
  moreover have "list_all is_image (attachment_elements entry)" by (simp add: attachment_elements_def list_all_iff)
  ultimately show ?thesis using cancel_law cohD(6) [OF m]
    unfolding apply_history_entry_def Let_def
    by (intro coh_refresh) (simp_all add: tracked_ok_def paste_ok_def history_ok_def clear_selection_def set_textarea_def)
qed

lemma attachments_coh: "coh m \<Longrightarrow> coh (set_attachments parts m)" "coh m \<Longrightarrow> coh (snd (push_attachment part m))"
proof -
  assume m: "coh m"
  have "length (attachment_placeholders_for_content c n) = n" for c n
    by (auto simp: attachment_placeholders_for_content_def Let_def)
  with m show "coh (set_attachments parts m)" "coh (snd (push_attachment part m))"
    by (simp_all add: set_attachments_def push_attachment_def Let_def coherent_def im_lines_def tracked_ok_def paste_ok_def
        history_ok_def list_all_iff)
qed

lemma add_history_coh: "coh m \<Longrightarrow> coh (add_to_history entry m)"
  by (auto simp: add_to_history_def reset_history_navigation_def Let_def coherent_def im_lines_def tracked_ok_def paste_ok_def
      history_ok_def)

lemma unseen_not_empty: "e \<in> set (unseen_entries seen es) \<Longrightarrow> \<not> entry_is_empty e"
  by (induction seen es rule: unseen_entries.induct) (auto split: if_splits)

lemma archive_coh: "coh m \<Longrightarrow> coh (prepend_archived_history entries m)"
proof -
  assume m: "coh m"
  have "fold (#) xs ys = rev xs @ ys" for xs ys :: "history_entry list" by (induction xs arbitrary: ys) simp_all
  with m unseen_not_empty show ?thesis
    by (auto simp: prepend_archived_history_def reset_history_navigation_def Let_def coherent_def im_lines_def tracked_ok_def
        paste_ok_def history_ok_def list_all_iff)
qed

lemma coh_navigation:
  "coh m \<Longrightarrow> pred_option (\<lambda>i. i < length (im_history m) \<and> d \<noteq> None) k \<Longrightarrow> coh (m\<lparr>im_history_index := k, im_history_draft := d\<rparr>)"
  by (simp add: coherent_def im_lines_def tracked_ok_def paste_ok_def history_ok_def)

lemma coh_index:
  "coh m \<Longrightarrow> i < length (im_history m) \<Longrightarrow> im_history_draft m \<noteq> None \<Longrightarrow> coh (m\<lparr>im_history_index := Some i\<rparr>)"
  by (simp add: coherent_def im_lines_def tracked_ok_def paste_ok_def history_ok_def)

lemma history_moves_coh: "coh m \<Longrightarrow> coh (snd (go_to_next_history m))" "coh m \<Longrightarrow> coh (snd (go_to_previous_history now m))"
proof -
  assume m: "coh m"
  have h: "pred_option (\<lambda>i. i < length (im_history m) \<and> im_history_draft m \<noteq> None) (im_history_index m)"
    using cohD(6) [OF m] by (simp add: history_ok_def)
  show "coh (snd (go_to_next_history m))"
  proof (cases "im_history_index m")
    case (Some i)
    with h have "coh (m\<lparr>im_history_index := Some (i - 1)\<rparr>)" by (intro coh_index [OF m]) auto
    moreover have "coh (m\<lparr>im_history_index := None, im_history_draft := None\<rparr>)" using coh_navigation [OF m, of None None] by simp
    ultimately show ?thesis using Some by (simp add: go_to_next_history_def take_draft_def)
  qed (use m in \<open>simp add: go_to_next_history_def\<close>)
  show "coh (snd (go_to_previous_history now m))"
  proof (cases "im_history_index m")
    case None
    have d: "coh (m\<lparr>im_history_draft := Some d\<rparr>)" for d
      using m None by (simp add: coherent_def im_lines_def tracked_ok_def paste_ok_def history_ok_def)
    from coh_index [OF d] have "coh (m\<lparr>im_history_draft := Some d, im_history_index := Some (length (im_history m) - 1)\<rparr>)"
      if "length (im_history m) - Suc 0 < length (im_history m)" for d using that by simp
    with d show ?thesis using None by (auto simp: go_to_previous_history_def show_entry_def Let_def)
  next
    case (Some i)
    with h have "coh (m\<lparr>im_history_index := Some (i - 1)\<rparr>)" by (intro coh_index [OF m]) auto
    with Some m show ?thesis by (simp add: go_to_previous_history_def show_entry_def)
  qed
qed

lemma copy_panics_iff:
  "copy_selected_text_to_clipboard lib copy m = None \<longleftrightarrow> selected_text lib m = None"
  by (simp add: copy_selected_text_to_clipboard_def)

lemma copy_coh: "coh m \<Longrightarrow> copy_selected_text_to_clipboard lib copy m = Some (b, m') \<Longrightarrow> coh m'"
  by (auto simp: copy_selected_text_to_clipboard_def split: option.splits)

lemma run_command_safe:
  assumes "ce_lib env = lib" "coh m" "\<not> crashes lib c m"
  shows "safe (run_command env c m)"
proof (cases c)
  case CmdCopy
  with assms(3) obtain b m' where m': "copy_selected_text_to_clipboard lib (ce_copy env) m = Some (b, m')"
    using copy_panics_iff [of "ce_copy env" m] by (cases "copy_selected_text_to_clipboard lib (ce_copy env) m") (auto simp: crashes_def)
  with CmdCopy copy_coh [OF assms(2) m'] show ?thesis by (simp add: assms(1))
next
  case CmdTransposeChars
  with assms(3) transpose_chars_panics_iff(2) [OF assms(2)] show ?thesis by (simp add: assms(1) crashes_def)
next
  case (CmdHistoryPrevious now)
  with apply_entry_coh history_moves_coh(2) [OF assms(2), of now] show ?thesis
    by (simp add: assms(1) navigate_history_previous_def navigated_def split: option.split)
next
  case CmdHistoryNext
  with apply_entry_coh history_moves_coh(1) [OF assms(2)] show ?thesis
    by (simp add: assms(1) navigate_history_next_def navigated_def split: option.split)
next
  case (CmdApply i)
  with apply_entry_coh assms(2) show ?thesis by (simp add: assms(1) apply_history_index_def split: option.split)
qed (simp_all add: assms(1,2) composer_insert_safe paste_safe set_content_coh composer_delete_safe delete_safe
    delete_word_backward_safe delete_word_forward_safe whitespace_safe to_line_end_safe clear_line_safe clear_coh
    transpose_words_safe transform_word_safe uppercase_word_def lowercase_word_def capitalize_word_def
    move_left_safe move_right_safe word_moves_safe ends_coh move_cursor_to_start_of_line_def
    move_cursor_to_end_of_line_def set_cursor_safe row_moves_coh select_left_def select_right_def select_to_start_def
    select_to_end_def select_to_start_of_line_def select_to_end_of_line_def with_selection_safe undo_coh
    attachments_coh add_history_coh archive_coh)

lemma run_command_crashes:
  assumes "ce_lib env = lib" "coh m" "crashes lib c m"
  shows "run_command env c m = None"
  using assms transpose_chars_panics_iff(1) [OF assms(2)] copy_panics_iff [of _ m] by (auto simp: crashes_def)

lemma new_coh: "coh (new_input_manager lib)"
proof -
  have g: "good (ta_default lib)" "ta_lines lib (ta_default lib) = [[]]" using default_law by simp_all
  show ?thesis using configure_facts [OF g(1)] g(2)
    by (simp add: coherent_def new_input_manager_def im_lines_def tracked_ok_def history_ok_def paste_ok_def)
qed

section \<open>Editing and pasting\<close>

lemma replace_range_refines:
  assumes "ok m" "splice (im_content_cache m) start stop t = Some s" "blen s \<le> 65535"
  shows "\<exists>m'. im_replace_range lib start stop t m = Some m' \<and> ok m' \<and> plain m' \<and> im_content_cache m' = s
    \<and> im_cursor lib m' = start + blen t
    \<and> im_compact_paste_range m' = Option.bind (im_compact_paste_range m) (track_range start stop (blen t))"
proof -
  have "start \<le> stop" "is_char_boundary (im_content_cache m) start" "is_char_boundary (im_content_cache m) stop"
    using assms(2) by (auto simp: splice_def slice_to_def slice_from_def is_char_boundary_def bind_eq_Some_conv split: if_splits)
  then obtain l mid r where c: "im_content_cache m = l @ mid @ r" "start = blen l" "stop = blen l + blen mid" by (rule slice_split)
  with assms(2) have s: "s = l @ t @ r" by simp
  with replace_range_exact [OF assms(1) c(1), of t] assms(3) obtain m' where
    m': "im_replace_range lib start stop t m = Some m'" "at m' (l @ t) r" "plain m'"
    "im_compact_paste_range m' = Option.bind (im_compact_paste_range m) (track_range start stop (blen t))" using c by auto
  with at_content [OF m'(2)] at_cursor [OF m'(2)] at_ok [OF m'(2)] s c(2) show ?thesis by simp
qed

lemma paste_then_backspace:
  assumes "at m l r" "plain m" "s = filter (\<lambda>ch. ch \<noteq> 13 \<and> ch \<noteq> 0x7f) text" "10 \<le> length (split_nl s)"
    "blen (l @ r) + blen s \<le> 65535"
  shows "\<exists>m1 m2. insert_paste_text lib text m = Some m1 \<and> im_content_cache m1 = l @ s @ r
    \<and> composer_delete_char lib m1 = Some m2 \<and> im_content_cache m2 = l @ r \<and> im_cursor lib m2 = blen l"
proof -
  have s: "13 \<notin> set s" "s \<noteq> []" using assms(3,4) by auto
  obtain m0 where m0: "im_insert_text lib s m = Some m0" "at m0 (l @ s) r" "plain m0"
    using insert_at [OF assms(1,2,5)] s(1) by blast
  let ?m1 = "set_compact_paste_range (blen l) (blen l + blen s) m0"
  have m1: "at ?m1 (l @ s) r" "plain ?m1"
    using m0(2,3) by (auto simp: set_compact_paste_range_def at_def ok_def plain_def im_lines_def)
  have "sat_add (blen l) (blen s) = blen l + blen s" using assms(5) by (simp add: sat_add_def usize_max_def)
  then have p: "insert_paste_text lib text m = Some ?m1"
    using m0(1) s(2) assms(4) at_cursor [OF assms(1)] selection_none [OF assms(2)]
    by (simp add: insert_paste_text_def Let_def assms(3) [symmetric] INLINE_PASTE_COLLAPSE_LINE_THRESHOLD_def)
  have b: "is_char_boundary (im_content_cache ?m1) (blen l)" "is_char_boundary (im_content_cache ?m1) (blen l + blen s)"
    using boundary_append [of l "s @ r"] boundary_append [of "l @ s" r] at_content [OF m1(1)] by simp_all
  have c: "im_content_cache ?m1 = l @ s @ r" using at_content [OF m1(1)] by simp
  have small: "blen (l @ [] @ r) \<le> 65535" using assms(5) by simp
  obtain m2 where m2: "im_replace_range lib (blen l) (blen l + blen s) [] ?m1 = Some m2" "at m2 (l @ []) r"
    using replace_range_exact [OF at_ok [OF m1(1)] c small] by blast
  have "composer_delete_char lib ?m1 = im_replace_range lib (blen l) (blen l + blen s) [] ?m1"
    using b s(2) selection_none [OF m1(2)] at_cursor [OF m1(1)]
    by (simp add: composer_delete_char_def) (simp add: set_compact_paste_range_def)
  with p c m2 at_content [OF m2(2)] at_cursor [OF m2(2)] show ?thesis by simp
qed

lemma selected_text_slice:
  assumes "coh m" "selection_range lib m = Some (a, b)"
  shows "selected_text lib m =
    (let t = im_content_cache m @ [nl] in map_option Some (slice t (min a (blen t)) (min b (blen t))))"
  using selected_lines_slice [of a b 0 "im_lines lib m"] selection_ordered [OF assms(2)] ended_lines_join [OF cohD(4) [OF assms(1)]]
    cohD(3) [OF assms(1)] assms(2) by (simp add: selected_text_def Let_def)

section \<open>History\<close>

lemma apply_entry_content: "im_content_cache (apply_history_entry lib entry m) = he_content entry"
proof -
  let ?ls = "split_nl (he_content entry)"
  have "one_line ?ls" using split_nl_no_nl by (auto simp: one_line_def)
  then have "good (textarea_at_end lib (he_content entry))" "ta_lines lib (textarea_at_end lib (he_content entry)) = ?ls"
    using from_law configure_facts [of "ta_from lib ?ls"] move_law by (simp_all add: textarea_at_end_def)
  with cancel_law show ?thesis by (simp add: apply_history_entry_def Let_def im_lines_def)
qed

lemma navigated_fields:
  "im_history (apply_history_entry lib e m) = im_history m" "im_history_index (apply_history_entry lib e m) = im_history_index m"
  "im_history_draft (apply_history_entry lib e m) = im_history_draft m" "im_archived_count (apply_history_entry lib e m) = im_archived_count m"
  by (simp_all add: apply_history_entry_def Let_def refresh_content_cache_def clear_selection_def set_textarea_def)

lemma previous_step:
  fixes now :: int
  assumes "im_history_index m = None \<Longrightarrow> im_history m \<noteq> []" "\<And>i. im_history_index m = Some i \<Longrightarrow> 0 < i \<and> i \<le> length (im_history m)"
  defines "k \<equiv> (case im_history_index m of None \<Rightarrow> length (im_history m) | Some i \<Rightarrow> i) - 1"
  defines "m' \<equiv> snd (navigate_history_previous lib now m)"
  shows "im_content_cache m' = he_content (im_history m ! k)" "im_history_index m' = Some k" "im_history m' = im_history m"
    "im_archived_count m' = im_archived_count m"
    "im_history_draft m' = (if im_history_index m = None then Some (current_history_entry now m) else im_history_draft m)"
  using assms(1) assms(2)
  by (auto simp: k_def m'_def navigate_history_previous_def navigated_def go_to_previous_history_def show_entry_def history_get_def
      apply_entry_content navigated_fields Let_def split: option.splits)

end

text \<open>Pressing the history key several times.\<close>

primrec up_keys :: "'t textarea_lib \<Rightarrow> int \<Rightarrow> nat \<Rightarrow> 't input_manager \<Rightarrow> 't input_manager" where
  "up_keys lib now 0 m = m"
| "up_keys lib now (Suc k) m = snd (navigate_history_previous lib now (up_keys lib now k m))"

context textarea
begin

lemma up_keys_walk:
  assumes "im_history_index m = None" "k < length (im_history m)"
  shows "im_content_cache (up_keys lib now (Suc k) m) = he_content (im_history m ! (length (im_history m) - 1 - k))
    \<and> im_history_index (up_keys lib now (Suc k) m) = Some (length (im_history m) - 1 - k)
    \<and> im_history (up_keys lib now (Suc k) m) = im_history m
    \<and> im_archived_count (up_keys lib now (Suc k) m) = im_archived_count m
    \<and> im_history_draft (up_keys lib now (Suc k) m) = Some (current_history_entry now m)"
  using assms(2)
proof (induction k)
  case 0
  with previous_step [of m now] assms(1) show ?case by auto
next
  case (Suc k)
  let ?m = "up_keys lib now (Suc k) m"
  from Suc have ih: "im_history_index ?m = Some (length (im_history m) - 1 - k)" "im_history ?m = im_history m"
    "im_archived_count ?m = im_archived_count m" "im_history_draft ?m = Some (current_history_entry now m)" by simp_all
  have step: "up_keys lib now (Suc (Suc k)) m = snd (navigate_history_previous lib now ?m)" by simp
  have "length (im_history m) - 1 - k - 1 = length (im_history m) - 1 - Suc k" by simp
  with ih Suc.prems previous_step [of ?m now] show ?case unfolding step by simp
qed

text \<open>After \<open>k + 1\<close> presses, the key for the next entry restores the draft or goes to an older entry.\<close>

lemma next_after_up:
  assumes "im_history_index m = None" "k < length (im_history m)"
  defines "i \<equiv> length (im_history m) - 1 - k"
  shows "im_content_cache (snd (navigate_history_next lib (up_keys lib now (Suc k) m))) =
    (if i < im_archived_count m \<or> i = 0 then im_content_cache m else he_content (im_history m ! (i - 1)))"
proof -
  let ?m = "up_keys lib now (Suc k) m"
  have w: "im_history_index ?m = Some i" "im_history ?m = im_history m" "im_archived_count ?m = im_archived_count m"
    "im_history_draft ?m = Some (current_history_entry now m)"
    using up_keys_walk [OF assms(1,2), of now] by (simp_all add: i_def)
  have d: "he_content (current_history_entry now m) = im_content_cache m"
    by (simp add: current_history_entry_def from_content_and_attachments_def)
  have "i - 1 < length (im_history m)" using assms(2) by (simp add: i_def)
  with w d show ?thesis
    by (simp add: navigate_history_next_def navigated_def go_to_next_history_def take_draft_def apply_entry_content history_get_def
        del: up_keys.simps)
qed

lemma composer_editor: "editor (session_editor lib) ok plain (\<lambda>s. 13 \<notin> set s) 65535"
  by (rule vim.editor_axioms)

section \<open>Vim keys\<close>

lemma editor_view: "ed_content (session_editor lib) = im_content_cache" "ed_cursor (session_editor lib) = im_cursor lib"
  by (simp_all add: session_editor_def)

lemma handle_vim_key_outcome:
  assumes "engine_ok ok cx"
    "vs_mode (cx_state cx) = ModeNormal \<Longrightarrow> vim.bounded cx \<and> vim.safe_start alnum cx \<and> \<not> vim.on_newline cx"
  shows "case handle_vim_key lib alnum enabled key cx of
      None \<Rightarrow> enabled \<and> ends_insertion key cx \<and> stale_capture (session_editor lib) cx
    | Some (handled, cx') \<Rightarrow> \<not> (enabled \<and> ends_insertion key cx \<and> stale_capture (session_editor lib) cx) \<and> engine_ok ok cx'"
proof (cases "vs_enabled (cx_state cx) \<and> enabled")
  case True
  note k = vim.handle_key_outcome [OF assms, of key]
  show ?thesis
  proof (cases "handle_key (session_editor lib) alnum key cx")
    case None
    with k True show ?thesis by (simp add: handle_vim_key_def)
  next
    case (Some r)
    then obtain outcome cx' where r: "handle_key (session_editor lib) alnum key cx = Some (outcome, cx')" by (cases r) auto
    with k have o: "\<not> (ends_insertion key cx \<and> stale_capture (session_editor lib) cx)" "engine_ok ok cx'" by simp_all
    then have "ok (cx_editor cx')" by (simp add: engine_ok_def)
    then obtain l t where a: "at (cx_editor cx') l t" by (rule atE)
    have "ok (clear_selection lib (cx_editor cx'))" using at_ok [OF clear_at [OF a, THEN conjunct1]] .
    with o have "engine_ok ok (cx'\<lparr>cx_editor := clear_selection lib (cx_editor cx')\<rparr>)" by (simp add: engine_ok_def)
    with r o True show ?thesis by (simp add: handle_vim_key_def)
  qed
qed (use assms(1) in \<open>auto simp: handle_vim_key_def ends_insertion_def\<close>)

lemma repeat_typed:
  assumes "vim.normal cx" "ready cx" "cx_content (session_editor lib) cx = l @ r" "cx_cursor (session_editor lib) cx = blen l"
    "t \<noteq> []" "13 \<notin> set t" "plain (cx_editor cx)" "blen (l @ t @ t @ r) \<le> 65535"
  shows "\<exists>cx1 m cx2. run_keys (session_editor lib) alnum [char_key CHR ''i''] cx = Some cx1
    \<and> im_insert_text lib t (cx_editor cx1) = Some m
    \<and> run_keys (session_editor lib) alnum [esc_key, char_key CHR ''.''] (cx1\<lparr>cx_editor := m\<rparr>) = Some cx2
    \<and> cx_content (session_editor lib) cx2 = l @ t @ t @ r \<and> cx_cursor (session_editor lib) cx2 = blen (l @ t @ t)"
proof -
  have "ok (cx_editor cx)" using assms(1) by (simp add: vim.normal_def)
  with assms(3,4) have at: "at (cx_editor cx) l r" by (intro at_intro) (simp_all add: cx_content_def cx_cursor_def session_editor_def)
  have size: "blen (l @ r) + blen t \<le> 65535" using assms(8) by simp
  from insert_at [OF at assms(7) size] assms(6) obtain m where
    m: "im_insert_text lib t (cx_editor cx) = Some m" "at m (l @ t) r" "plain m" by blast
  have e: "ok m" "ed_content (session_editor lib) m = l @ t @ r" "ed_cursor (session_editor lib) m = blen (l @ t)"
    using at_ok [OF m(2)] at_content [OF m(2)] at_cursor [OF m(2)] by (simp_all add: session_editor_def)
  from vim.repeat_insertion [OF assms(1-6) e(1) m(3) e(2,3) assms(8), of alnum] obtain cx1 cx2 where
    k: "run_keys (session_editor lib) alnum [char_key CHR ''i''] cx = Some cx1" "cx_editor cx1 = cx_editor cx"
      "run_keys (session_editor lib) alnum [esc_key, char_key CHR ''.''] (cx1\<lparr>cx_editor := m\<rparr>) = Some cx2"
      "cx_content (session_editor lib) cx2 = l @ t @ t @ r" "cx_cursor (session_editor lib) cx2 = blen (l @ t @ t)"
    unfolding vim.typed_def by blast
  with m(1) show ?thesis by metis
qed

end

end
