(* ===== verification/Composer_Theorems.thy ===== *)
theory Composer_Theorems
  imports Composer_Facts
begin

text \<open>
  The properties of the composer: its commands, its Vim mode, the conversion of offsets, the replacement of
  ranges, pasted blocks, the selection, the history and the image placeholders. Each is stated for every text area that
  keeps the contract \<open>textarea\<close> and applied to the concrete one.
\<close>

section \<open>A concrete composer\<close>

definition composer_at :: "rtext \<Rightarrow> rtext \<Rightarrow> area input_manager" where
  "composer_at l r = (new_input_manager area_lib)\<lparr>im_textarea := area_of l r, im_content_cache := l @ r\<rparr>"

abbreviation area_good :: "area \<Rightarrow> bool" where
  "area_good \<equiv> \<lambda>_. True"

abbreviation area_selecting :: "area \<Rightarrow> bool" where
  "area_selecting \<equiv> \<lambda>t. ar_anchor t \<noteq> None"

lemma composer_at_simps [simp]:
  "im_textarea (composer_at l r) = area_of l r" "im_content_cache (composer_at l r) = l @ r"
  "im_selection_anchor (composer_at l r) = None" "im_lines area_lib (composer_at l r) = split_nl (l @ r)"
  by (simp_all add: composer_at_def new_input_manager_def im_lines_def area_lines_def area_text_def)

lemma composer_at_at: "blen (l @ r) \<le> 65535 \<Longrightarrow> area.at (composer_at l r) l r"
  by (simp add: area.at_def area.ok_def area_caret_iff)

lemma composer_at_ok: "blen (l @ r) \<le> 65535 \<Longrightarrow> area.ok (composer_at l r)"
  using composer_at_at area.at_ok by blast

lemma composer_at_plain: "area.plain (composer_at l r)"
  unfolding area.plain_def by simp

lemma composer_at_coherent: "coherent area_lib area_good (composer_at l r)"
  by (simp add: coherent_def) (simp add: composer_at_def new_input_manager_def tracked_ok_def history_ok_def paste_ok_def)

lemma composer_at_cursor: "blen (l @ r) \<le> 65535 \<Longrightarrow> im_cursor area_lib (composer_at l r) = blen l"
  using area.at_cursor [OF composer_at_at] .

section \<open>Commands\<close>

text \<open>C14: 
  every command of the composer either keeps the state coherent (the cached text is the text area's, the
  attachments are images with one placeholder each, the paste range is ordered, the history position points into the
  history) or crashes, and it crashes in two cases only: transposing a text that is one character of several bytes, and
  copying a selection with a stale anchor inside a character.
\<close>

theorem composer_command_contract:
  assumes "textarea lib good selecting" "ce_lib env = lib" "coherent lib good m"
  shows "case run_command env c m of
      None \<Rightarrow> crashes lib c m
    | Some m' \<Rightarrow> \<not> crashes lib c m \<and> coherent lib good m'"
  using textarea.run_command_safe [OF assms(1-3), of c] textarea.run_command_crashes [OF assms(1-3), of c]
  by (cases "crashes lib c m") (auto simp: textarea.safe_def [OF assms(1)])

definition sample_env :: "area composer_env" where
  "sample_env = \<lparr>ce_lib = area_lib, ce_alnum = (\<lambda>c. 97 \<le> c \<and> c \<le> 122),
     ce_tables = \<lparr>str_upper = map (\<lambda>c. c - 32), str_lower = id, char_upper = (\<lambda>c. [c - 32]), char_lower = (\<lambda>c. [c])\<rparr>,
     ce_bounds = (\<lambda>s. [(0, s)]), ce_copy = (\<lambda>_. True)\<rparr>"

theorem composer_command_contract_witness:
  "(case run_command sample_env CmdTransposeChars (composer_at [233] []) of
      None \<Rightarrow> crashes area_lib CmdTransposeChars (composer_at [233] [])
    | Some m' \<Rightarrow> \<not> crashes area_lib CmdTransposeChars (composer_at [233] []) \<and> coherent area_lib area_good m')
   \<and> crashes area_lib CmdTransposeChars (composer_at [233] [])
   \<and> \<not> crashes area_lib CmdTransposeChars (composer_at [97, 98] [])"
  using composer_command_contract [OF area.textarea_axioms _ composer_at_coherent, of sample_env CmdTransposeChars "[233]" "[]"]
  by (simp add: sample_env_def crashes_def one_wide_char_def len_utf8_def)

section \<open>Offsets and ranges\<close>

text \<open>C19: 
  converting a byte offset to a row and a column and back gives the greatest character boundary at or before the
  offset, so the conversion is the identity on every boundary, in particular on every cursor.
\<close>

theorem offset_conversion_floors:
  assumes "one_line ls"
  shows "\<exists>row col. byte_offset_to_row_col ls p = Some (row, col) \<and> row < length ls \<and> col \<le> length (ls ! row)
    \<and> greatest_boundary (join_nl ls) p (row_col_to_byte_offset ls row col)"
proof -
  have "ls \<noteq> []" using assms by (simp add: one_line_def)
  then obtain a w v b where "ls = a @ (w @ v) # b" "byte_offset_to_row_col ls p = Some (length a, length w)"
    "greatest_boundary (join_nl ls) p (blen (before_cut a w))" using locate by metis
  then show ?thesis by (intro exI [of _ "length a"] exI [of _ "length w"]) simp
qed

theorem offset_conversion_floors_witness:
  "\<exists>row col. byte_offset_to_row_col [[20320, 120], [121]] 2 = Some (row, col)
    \<and> greatest_boundary (join_nl [[20320, 120], [121]]) 2 (row_col_to_byte_offset [[20320, 120], [121]] row col)"
  using offset_conversion_floors [of "[[20320, 120], [121]]" 2] by (auto simp: one_line_def nl_def)

text \<open>C15: 
  the composer's \<open>replace_range\<close>, which rebuilds the lines of the text area in four different ways, refines
  \<open>String::replace_range\<close> on the whole text: where that is defined, the composer holds its result, the cursor
  stands after the replacement and nothing is selected.
\<close>

theorem composer_replace_range_refines_splice:
  assumes "textarea lib good selecting" "textarea.ok lib good m"
    "splice (im_content_cache m) start stop t = Some s" "blen s \<le> 65535"
  shows "\<exists>m'. im_replace_range lib start stop t m = Some m' \<and> textarea.ok lib good m' \<and> textarea.plain selecting m'
    \<and> im_content_cache m' = s \<and> im_cursor lib m' = start + blen t"
  using textarea.replace_range_refines [OF assms] by blast

theorem composer_replace_range_refines_splice_witness:
  "\<exists>m'. im_replace_range area_lib 1 3 [120, 10, 121] (composer_at [97, 10] [98, 99]) = Some m'
    \<and> im_content_cache m' = [97, 120, 10, 121, 99] \<and> im_cursor area_lib m' = 4"
proof -
  have s: "splice (im_content_cache (composer_at [97, 10] [98, 99])) 1 3 [120, 10, 121] = Some [97, 120, 10, 121, 99]"
    by (simp add: splice_def slice_to_def slice_from_def eval_nat_numeral len_utf8_def)
  have b: "blen [97, 120, 10, 121, 99] \<le> 65535" "blen ([97, 10] @ [98, 99]) \<le> 65535" by (simp_all add: len_utf8_def)
  from composer_replace_range_refines_splice [OF area.textarea_axioms composer_at_ok [OF b(2)] s b(1)]
  show ?thesis by (auto simp: len_utf8_def)
qed

text \<open>C20: 
  editing around a pasted block keeps the recorded range on the same text; the range is forgotten exactly when
  the edit touches the block.
\<close>

theorem paste_range_follows_block:
  assumes "slice (l @ mid @ r) i j = Some p" "blen (l @ mid @ r) \<le> usize_max" "blen (l @ t @ r) \<le> usize_max"
  shows "case track_range (blen l) (blen l + blen mid) (blen t) (i, j) of
      Some (i', j') \<Rightarrow> slice (l @ t @ r) i' j' = Some p
    | None \<Rightarrow> i < blen l + blen mid \<and> blen l < j"
  by (rule track_range_slice [OF assms])

theorem paste_range_follows_block_witness:
  "case track_range (blen [97]) (blen [97] + blen [98]) (blen [120, 121]) (2, 3) of
      Some (i', j') \<Rightarrow> slice ([97] @ [120, 121] @ [99]) i' j' = Some [99]
    | None \<Rightarrow> (2::nat) < blen [97] + blen [98] \<and> blen [97] < 3"
proof (rule paste_range_follows_block)
  show "slice ([97] @ [98] @ [99]) 2 3 = Some [99]" using slice_mid [of "[97, 98]" "[99]" "[]"] by (simp add: len_utf8_def eval_nat_numeral)
qed (simp_all add: len_utf8_def usize_max_def)

text \<open>C21: 
  pasting a block of ten lines or more at the cursor and pressing backspace restores the text and the
  cursor: the collapsed block is removed as a whole.
\<close>

theorem backspace_removes_pasted_block:
  assumes "textarea lib good selecting" "textarea.at lib good m l r" "textarea.plain selecting m"
    "s = filter (\<lambda>ch. ch \<noteq> 13 \<and> ch \<noteq> 0x7f) text" "10 \<le> length (split_nl s)" "blen (l @ r) + blen s \<le> 65535"
  shows "\<exists>m1 m2. insert_paste_text lib text m = Some m1 \<and> im_content_cache m1 = l @ s @ r
    \<and> composer_delete_char lib m1 = Some m2 \<and> im_content_cache m2 = l @ r \<and> im_cursor lib m2 = blen l"
  by (rule textarea.paste_then_backspace [OF assms])

definition ten_lines :: rtext where
  "ten_lines = [97, 13, 10, 97, 13, 10, 97, 13, 10, 97, 13, 10, 97, 13, 10, 97, 13, 10, 97, 13, 10, 97, 13, 10, 97, 13, 10]"

lemma ten_lines_sanitized: "[97, 10, 97, 10, 97, 10, 97, 10, 97, 10, 97, 10, 97, 10, 97, 10, 97, 10] = filter (\<lambda>ch. ch \<noteq> 13 \<and> ch \<noteq> 0x7f) ten_lines"
  by (simp add: ten_lines_def)

theorem backspace_removes_pasted_block_witness:
  "\<exists>m1 m2. insert_paste_text area_lib ten_lines (composer_at [120] [121]) = Some m1
    \<and> composer_delete_char area_lib m1 = Some m2 \<and> im_content_cache m2 = [120, 121] \<and> im_cursor area_lib m2 = 1"
proof -
  have at: "area.at (composer_at [120] [121]) [120] [121]" by (rule composer_at_at) (simp add: len_utf8_def)
  show ?thesis
    using backspace_removes_pasted_block [OF area.textarea_axioms at composer_at_plain ten_lines_sanitized]
    by (simp add: nl_def len_utf8_def) blast
qed

text \<open>C22: 
  copying the selection yields the slice of the text between its ends. Ends that lie beyond the text are moved to
  its end, where the copy has one line break too many; an end inside a character crashes.
\<close>

theorem selected_text_is_slice:
  assumes "textarea lib good selecting" "coherent lib good m" "selection_range lib m = Some (a, b)"
  shows "selected_text lib m =
    (let t = im_content_cache m @ [nl] in map_option Some (slice t (min a (blen t)) (min b (blen t))))"
  by (rule textarea.selected_text_slice [OF assms])

theorem selected_text_is_slice_witness:
  "selected_text area_lib ((composer_at [] [97, 98])\<lparr>im_selection_anchor := Some 1\<rparr>) = Some (Some [97])"
proof -
  let ?m = "(composer_at [] [97, 98])\<lparr>im_selection_anchor := Some 1\<rparr>"
  have m: "coherent area_lib area_good ?m"
    using composer_at_coherent [of "[]" "[97, 98]"]
    by (simp add: coherent_def im_lines_def tracked_ok_def history_ok_def paste_ok_def)
  have "selection_range area_lib ?m = Some (0, 1)"
    using composer_at_cursor [of "[]" "[97, 98]"] by (simp add: selection_range_def im_cursor_def im_lines_def len_utf8_def)
  from selected_text_is_slice [OF area.textarea_axioms m this]
  show ?thesis by (simp add: slice_def slice_to_def slice_from_def eval_nat_numeral len_utf8_def nl_def)
qed

section \<open>Vim mode\<close>

text \<open>C16: 
  A key panics the Vim mode of the composer exactly when it is Esc at the end of an insertion whose capture starts inside
  a character, before the cursor (the composer's own commands edit the text while the capture is kept), and after every
  other key the text area is in order and normal mode holds no capture. For a key in normal mode this assumes that five
  times the text with the clipboard and the repeated text fits into the text area's 16-bit positions, that the cursor is
  not on a line break (where \<open>f\<close> panics) and that at offset 0 it is on a word character (where the linewise test
  of a deletion panics).
\<close>

theorem composer_vim_key_well_formed:
  assumes "textarea lib good selecting" "engine_ok (textarea.ok lib good) cx"
    "vs_mode (cx_state cx) = ModeNormal \<longrightarrow> editor.bounded (session_editor lib) 65535 cx
       \<and> editor.safe_start (session_editor lib) alnum cx \<and> \<not> editor.on_newline (session_editor lib) cx"
  shows "case handle_vim_key lib alnum enabled key cx of
      None \<Rightarrow> enabled \<and> ends_insertion key cx \<and> stale_capture (session_editor lib) cx
    | Some (handled, cx') \<Rightarrow> \<not> (enabled \<and> ends_insertion key cx \<and> stale_capture (session_editor lib) cx)
        \<and> engine_ok (textarea.ok lib good) cx'"
  using textarea.handle_vim_key_outcome [OF assms(1,2), of alnum enabled key] assms(3) by blast

definition sample_vim :: "area input_manager vim_context" where
  "sample_vim = \<lparr>cx_state = (new_vim_state True)\<lparr>vs_mode := ModeNormal\<rparr>, cx_editor = composer_at [97] [98, 10, 99], cx_clipboard = []\<rparr>"

lemma sample_vim_facts:
  "area.vim.normal sample_vim" "ready sample_vim" "vs_mode (cx_state sample_vim) = ModeNormal"
  "cx_content (session_editor area_lib) sample_vim = [97] @ [98, 10, 99]"
  "cx_cursor (session_editor area_lib) sample_vim = blen [97]"
  using composer_at_ok [of "[97]" "[98, 10, 99]"] composer_at_cursor [of "[97]" "[98, 10, 99]"]
  by (simp_all add: area.vim.normal_def ready_def sample_vim_def new_vim_state_def cx_content_def cx_cursor_def
      session_editor_def len_utf8_def)

theorem composer_vim_key_well_formed_witness:
  "\<exists>handled cx'. handle_vim_key area_lib (\<lambda>c. 97 \<le> c \<and> c \<le> 122) True (char_key CHR ''x'') sample_vim = Some (handled, cx')
    \<and> engine_ok area.ok cx'"
proof -
  have ok: "engine_ok area.ok sample_vim" using sample_vim_facts(1) by (simp add: engine_ok_def area.vim.normal_def)
  have b: "editor.bounded (session_editor area_lib) 65535 sample_vim"
    using sample_vim_facts by (simp add: area.vim.bounded_def area.vim.repeat_text_def len_utf8_def)
      (simp add: sample_vim_def new_vim_state_def)
  have "slice ([97] @ [98] @ [10, 99]) (blen [97]) (blen [97] + blen [98]) = Some [98]" by (rule slice_mid)
  then have n: "editor.safe_start (session_editor area_lib) (\<lambda>c. 97 \<le> c \<and> c \<le> 122) sample_vim
      \<and> \<not> editor.on_newline (session_editor area_lib) sample_vim"
    using sample_vim_facts by (simp add: area.vim.safe_start_def area.vim.on_newline_def nl_def len_utf8_def)
  have "\<not> ends_insertion (char_key CHR ''x'') sample_vim" by (simp add: ends_insertion_def char_key_def)
  with composer_vim_key_well_formed [OF area.textarea_axioms ok, of "\<lambda>c. 97 \<le> c \<and> c \<le> 122" True "char_key CHR ''x''"] b n
  show ?thesis by (auto split: option.splits)
qed

text \<open>Such a panic: in the text \<open>b\<close>, after \<open>a\<close> at its end, the left arrow and an accented letter (two bytes), the capture
  starts in the middle of the letter, and Esc slices there.\<close>

definition end_of_b :: "area input_manager vim_context" where
  "end_of_b = \<lparr>cx_state = (new_vim_state True)\<lparr>vs_mode := ModeNormal\<rparr>, cx_editor = composer_at [98] [], cx_clipboard = []\<rparr>"

lemma stale_capture_panics:
  "\<exists>cx m1 m2. handle_vim_key area_lib (\<lambda>_. True) True (char_key CHR ''a'') end_of_b = Some (True, cx)
    \<and> move_cursor_left area_lib (cx_editor cx) = Some m1 \<and> im_insert_text area_lib [0xE9] m1 = Some m2
    \<and> im_content_cache m2 = [0xE9, 98]
    \<and> handle_vim_key area_lib (\<lambda>_. True) True esc_key (cx\<lparr>cx_editor := m2\<rparr>) = None"
proof -
  let ?cx = "start_insert (session_editor area_lib) Append end_of_b"
  have view: "cx_content (session_editor area_lib) end_of_b = [98]" "cx_cursor (session_editor area_lib) end_of_b = 1"
    using composer_at_cursor [of "[98]" "[]"]
    by (simp_all add: end_of_b_def cx_content_def cx_cursor_def session_editor_def len_utf8_def)
  have a: "handle_vim_key area_lib (\<lambda>_. True) True (char_key CHR ''a'') end_of_b = Some (True, ?cx)"
    using view
    by (simp add: handle_vim_key_def handle_key_def handle_normal_key_def char_key_def handle_normal_char_def move_char_def
        pending_of_def change_char_def insert_command_def move_right_in_text_def len_utf8_def asc_def end_of_b_def new_vim_state_def)
  let ?m1 = "composer_at [] [98]"
  have m1: "move_cursor_left area_lib (composer_at [98] []) = Some ?m1"
    by (simp add: move_cursor_left_def selection_range_def composer_at_def area_of_def)
      (simp add: set_textarea_def area_move_def new_input_manager_def)
  from area.insert_at [of ?m1 "[]" "[98]" "[0xE9]"] composer_at_at [of "[]" "[98]"] composer_at_plain [of "[]" "[98]"]
  obtain m2 where m2: "im_insert_text area_lib [0xE9] ?m1 = Some m2" "area.at m2 [0xE9] [98]" by (auto simp: len_utf8_def)
  let ?cx' = "?cx\<lparr>cx_editor := m2\<rparr>"
  have c: "im_content_cache m2 = [0xE9, 98]" "im_cursor area_lib m2 = 2" "area.ok m2"
    using area.at_content [OF m2(2)] area.at_cursor [OF m2(2)] area.at_ok [OF m2(2)] by (simp_all add: len_utf8_def)
  have st: "cx_state ?cx' = cx_state ?cx" "cx_editor ?cx' = m2" "cx_editor ?cx = composer_at [98] []"
    by (simp_all add: start_insert_def upd_def end_of_b_def)
  have v: "cx_state ?cx = (new_vim_state True)\<lparr>vs_mode := ModeInsert, vs_pending := None,
      vs_insert_capture := Some \<lparr>ic_repeat = RepeatInsert Append, ic_start = 1\<rparr>\<rparr>"
    using view(2) by (simp add: start_insert_def upd_def end_of_b_def)
  have ok: "engine_ok area.ok ?cx'" "vs_mode (cx_state ?cx') = ModeInsert"
    using c(3) v unfolding engine_ok_def st by simp_all
  have b: "\<not> is_char_boundary [0xE9, 98] 1" by (simp add: is_char_boundary_def len_utf8_def)
  have "ends_insertion esc_key ?cx'" using v unfolding ends_insertion_def st by (simp add: esc_key_def new_vim_state_def)
  moreover have "stale_capture (session_editor area_lib) ?cx'"
    using v c(1,2) b unfolding stale_capture_def st by (simp add: cx_content_def cx_cursor_def session_editor_def)
  ultimately have "handle_vim_key area_lib (\<lambda>_. True) True esc_key ?cx' = None"
    using area.handle_vim_key_outcome [OF ok(1), of "\<lambda>_. True" True esc_key] ok(2) by (auto split: option.splits)
  with a m1 m2(1) c(1) st(3) show ?thesis by metis
qed

text \<open>C17: deleting the current line with \<open>dd\<close> and pasting it above with \<open>P\<close> restores the composer's text.\<close>

theorem composer_vim_delete_then_put_back:
  assumes "textarea lib good selecting" "editor.normal (textarea.ok lib good) cx" "ready cx"
  shows "\<exists>cx'. run_keys (session_editor lib) alnum [char_key CHR ''d'', char_key CHR ''d'', char_key CHR ''P''] cx = Some cx'
    \<and> cx_content (session_editor lib) cx' = cx_content (session_editor lib) cx"
  using editor.delete_then_put_back [OF textarea.composer_editor [OF assms(1)] assms(2,3), of alnum] by blast

theorem composer_vim_delete_then_put_back_witness:
  "\<exists>cx'. run_keys (session_editor area_lib) (\<lambda>_. True) [char_key CHR ''d'', char_key CHR ''d'', char_key CHR ''P''] sample_vim = Some cx'
    \<and> cx_content (session_editor area_lib) cx' = [97, 98, 10, 99]"
  using composer_vim_delete_then_put_back [OF area.textarea_axioms sample_vim_facts(1,2), of "\<lambda>_. True"] sample_vim_facts(4) by simp

text \<open>C18: 
  after \<open>i\<close>, typing a text into the composer and escape, the key \<open>.\<close> types the same text again behind it.
\<close>

theorem composer_vim_repeats_insertion:
  assumes "textarea lib good selecting" "editor.normal (textarea.ok lib good) cx" "ready cx"
    "cx_content (session_editor lib) cx = l @ r" "cx_cursor (session_editor lib) cx = blen l"
    "t \<noteq> []" "13 \<notin> set t" "textarea.plain selecting (cx_editor cx)" "blen (l @ t @ t @ r) \<le> 65535"
  shows "\<exists>cx1 m cx2. run_keys (session_editor lib) alnum [char_key CHR ''i''] cx = Some cx1
    \<and> im_insert_text lib t (cx_editor cx1) = Some m
    \<and> run_keys (session_editor lib) alnum [esc_key, char_key CHR ''.''] (cx1\<lparr>cx_editor := m\<rparr>) = Some cx2
    \<and> cx_content (session_editor lib) cx2 = l @ t @ t @ r \<and> cx_cursor (session_editor lib) cx2 = blen (l @ t @ t)"
  by (rule textarea.repeat_typed [OF assms])

theorem composer_vim_repeats_insertion_witness:
  "\<exists>cx1 m cx2. run_keys (session_editor area_lib) (\<lambda>_. True) [char_key CHR ''i''] sample_vim = Some cx1
    \<and> im_insert_text area_lib [120, 121] (cx_editor cx1) = Some m
    \<and> run_keys (session_editor area_lib) (\<lambda>_. True) [esc_key, char_key CHR ''.''] (cx1\<lparr>cx_editor := m\<rparr>) = Some cx2
    \<and> cx_content (session_editor area_lib) cx2 = [97, 120, 121, 120, 121, 98, 10, 99]"
proof -
  have "area.plain (cx_editor sample_vim)" using composer_at_plain by (simp add: sample_vim_def)
  from composer_vim_repeats_insertion [OF area.textarea_axioms sample_vim_facts(1,2,4,5) _ _ this, of "[120, 121]" "\<lambda>_. True"]
  show ?thesis by (auto simp: len_utf8_def)
qed

section \<open>History\<close>

text \<open>C23: 
  pressing the key for the previous prompt \<open>k + 1\<close> times from the input line shows the \<open>k + 1\<close>st newest prompt. The
  key for the next prompt then restores the draft when the shown prompt is archived or the oldest one, and otherwise
  shows the prompt before it, an older one.
\<close>

theorem history_keys_walk:
  assumes "textarea lib good selecting" "im_history_index m = None" "k < length (im_history m)"
  defines "i \<equiv> length (im_history m) - 1 - k"
  shows "im_content_cache (up_keys lib now (Suc k) m) = he_content (im_history m ! i)
    \<and> im_content_cache (snd (navigate_history_next lib (up_keys lib now (Suc k) m))) =
        (if i < im_archived_count m \<or> i = 0 then im_content_cache m else he_content (im_history m ! (i - 1)))"
  using textarea.up_keys_walk [OF assms(1-3), of now] textarea.next_after_up [OF assms(1-3), of now] by (simp add: i_def)

definition entry :: "rtext \<Rightarrow> history_entry" where
  "entry s = from_content_and_timestamp s 0"

theorem history_keys_walk_witness:
  "im_content_cache (snd (navigate_history_next area_lib (up_keys area_lib 0 (Suc 0)
     ((composer_at [] [120])\<lparr>im_history := [entry [97], entry [98]]\<rparr>)))) = [97]"
  using history_keys_walk [OF area.textarea_axioms, of "(composer_at [] [120])\<lparr>im_history := [entry [97], entry [98]]\<rparr>" 0 0]
  by (simp add: composer_at_def new_input_manager_def entry_def from_content_and_timestamp_def)

lemma unseen_spec:
  "subseq (unseen_entries seen es) es
   \<and> distinct (map he_content (unseen_entries seen es))
   \<and> set seen \<inter> he_content ` set (unseen_entries seen es) = {}
   \<and> (\<forall>e \<in> set es. \<not> entry_is_empty e \<longrightarrow> he_content e \<in> set seen \<union> he_content ` set (unseen_entries seen es))"
proof (induction seen es rule: unseen_entries.induct)
  case (2 seen e es)
  then show ?case by (cases "entry_is_empty e \<or> he_content e \<in> set seen") (auto intro: subseq_Cons')
qed simp

text \<open>
  prepending archived prompts keeps the session's prompts last and puts the archived ones before them, newest
  last; no prompt is added twice and none that is not blank is lost.
\<close>

theorem archived_prompts_merge:
  shows "\<exists>old. im_history (prepend_archived_history entries m) = rev old @ im_history m \<and> subseq old entries
    \<and> im_archived_count (prepend_archived_history entries m) = im_archived_count m + length old
    \<and> distinct (map he_content old) \<and> he_content ` set old \<inter> he_content ` set (im_history m) = {}
    \<and> {he_content e | e. e \<in> set entries \<and> \<not> entry_is_empty e} \<subseteq> he_content ` set (im_history (prepend_archived_history entries m))"
proof -
  let ?old = "unseen_entries (map he_content (im_history m)) entries"
  have f: "fold (#) xs ys = rev xs @ ys" for xs ys :: "history_entry list" by (induction xs arbitrary: ys) simp_all
  have h: "im_history (prepend_archived_history entries m) = rev ?old @ im_history m"
    "im_archived_count (prepend_archived_history entries m) = im_archived_count m + length ?old"
    by (simp_all add: prepend_archived_history_def Let_def reset_history_navigation_def f)
  show ?thesis using unseen_spec [of "map he_content (im_history m)" entries] unfolding h
    by (intro exI [of _ ?old]) auto
qed

section \<open>Image placeholders\<close>

lemma decimal_digits: "c \<in> set (decimal n) \<Longrightarrow> digit_char c"
proof (induction n rule: decimal.induct)
  case (1 n)
  have "c = 48 + n mod 10 \<and> 10 \<le> n \<or> c = 48 + n \<and> n < 10 \<or> c \<in> set (decimal (n div 10)) \<and> 10 \<le> n"
    using 1(2) decimal.simps [of n] by (auto split: if_splits)
  then show ?case
  proof (elim disjE conjE)
    assume "c = 48 + n mod 10"
    then show ?thesis using mod_less_divisor [of 10 n] by (simp add: digit_char_def)
  qed (use 1(1) in \<open>simp_all add: digit_char_def\<close>)
qed

lemma decimal_not_empty: "decimal n \<noteq> []"
  using decimal.simps [of n] by simp

lemma decimal_value: "foldl (\<lambda>acc d. 10 * acc + (d - 48)) 0 (decimal n) = n"
proof (induction n rule: decimal.induct)
  case (1 n)
  then show ?case using decimal.simps [of n] by simp
qed

lemma find_after_marker: "find_after image_marker (image_marker @ s) = Some s"
  by (cases "image_marker @ s") (auto simp: image_marker_def)

lemma placeholder_parses:
  assumes "0 < n" "n \<le> usize_max"
  shows "image_attachment_placeholders (image_attachment_placeholder n) = [(n, image_attachment_placeholder n)]"
proof -
  have d: "\<forall>c \<in> set (decimal n). digit_char c" "\<not> digit_char close_bracket"
    using decimal_digits by (auto simp: digit_char_def close_bracket_def)
  then have t: "takeWhile digit_char (decimal n @ [close_bracket]) = decimal n" by simp
  have "image_attachment_placeholders [] = []"
    by (subst image_attachment_placeholders.simps) (simp add: image_marker_def)
  then show ?thesis
    using assms decimal_value [of n] decimal_not_empty [of n] t
    by (subst image_attachment_placeholders.simps)
      (simp add: image_attachment_placeholder_def find_after_marker parse_usize_def Let_def)
qed

lemma max_number_ge: "x \<in> set ps \<Longrightarrow> fst x \<le> max_number ps"
proof -
  have "k \<le> fold (\<lambda>(number, _). max number) ps k \<and> (\<forall>x \<in> set ps. fst x \<le> fold (\<lambda>(number, _). max number) ps k)" for k
  proof (induction ps arbitrary: k)
    case (Cons p ps)
    from Cons.IH [of "max (fst p) k"] show ?case by (auto simp: split_beta)
  qed simp
  then show "x \<in> set ps \<Longrightarrow> fst x \<le> max_number ps" by (simp add: max_number_def)
qed

text \<open>
  C12: the placeholder of a new image reads back as its number, and no placeholder in the text or of an earlier
  attachment has that number, so every image keeps its own placeholder.
\<close>

theorem image_placeholder_fresh:
  assumes "push_attachment part m = (Some n, m')" "n < usize_max"
  shows "image_attachment_placeholders (image_attachment_placeholder n) = [(n, image_attachment_placeholder n)]
    \<and> last (im_attachment_placeholders m') = Some (image_attachment_placeholder n)
    \<and> n \<notin> fst ` set (image_attachment_placeholders (im_content_cache m))
    \<and> (\<forall>p. Some p \<in> set (im_attachment_placeholders m) \<longrightarrow> n \<notin> fst ` set (image_attachment_placeholders p))"
proof -
  let ?text = "image_attachment_placeholders (im_content_cache m)"
  let ?tracked = "concat (map (case_option [] image_attachment_placeholders) (im_attachment_placeholders m))"
  have n: "n = next_image_attachment_placeholder_number m" "last (im_attachment_placeholders m') = Some (image_attachment_placeholder n)"
    using assms(1) by (auto simp: push_attachment_def Let_def split: if_splits)
  then have big: "max_number ?text < n" "max_number ?tracked < n"
    using assms(2) by (auto simp: next_image_attachment_placeholder_number_def Let_def sat_add_def min_def split: if_splits)
  have "x \<in> set ?tracked" if "Some p \<in> set (im_attachment_placeholders m)" "x \<in> set (image_attachment_placeholders p)" for p x
    using that by force
  then show ?thesis using big n(2) placeholder_parses [of n] assms(2) max_number_ge [of _ ?text] max_number_ge [of _ ?tracked]
    by fastforce
qed

theorem image_placeholder_fresh_witness:
  "last (im_attachment_placeholders (snd (push_attachment (ImagePart [] []) (composer_at [] []))))
     = Some (image_attachment_placeholder 1)"
proof -
  have "image_attachment_placeholders [] = []"
    by (subst image_attachment_placeholders.simps) (simp add: image_marker_def)
  then have "next_image_attachment_placeholder_number (composer_at [] []) = 1"
    by (simp add: next_image_attachment_placeholder_number_def composer_at_def new_input_manager_def max_number_def sat_add_def usize_max_def)
  then have "push_attachment (ImagePart [] []) (composer_at [] []) = (Some 1, snd (push_attachment (ImagePart [] []) (composer_at [] [])))"
    by (simp add: push_attachment_def is_image_def Let_def)
  from image_placeholder_fresh [OF this] show ?thesis by (simp add: usize_max_def)
qed

end
