(* ===== verification/Patch_Text.thy ===== *)
theory Patch_Text
  imports Utf8_Text Paths_Model
begin

text \<open>
  The patch language of \<^verbatim>\<open>apply_patch\<close>, \<^verbatim>\<open>vtcode-core/src/tools/editing/patch/\<close>: the types of
  \<^verbatim>\<open>mod.rs\<close> and \<^verbatim>\<open>error.rs\<close>, the path check of \<^verbatim>\<open>path.rs\<close> and the parser of \<^verbatim>\<open>parser.rs\<close>.
  Texts are lists of Unicode scalar values; a path is read off the UTF-8 bytes of its text, as \<open>Path\<close> does.
\<close>

section \<open>Lines\<close>

definition strip_text :: "rtext \<Rightarrow> rtext \<Rightarrow> rtext option" where
  "strip_text p s = (if prefix p s then Some (drop (length p) s) else None)"

definition cr :: rchar where "cr = 13"

definition strip_cr :: "rtext \<Rightarrow> rtext" where
  "strip_cr s = (if s \<noteq> [] \<and> last s = cr then butlast s else s)"

text \<open>\<open>str::lines\<close>: a carriage return is removed in front of a line feed only.\<close>

definition rlines :: "rtext \<Rightarrow> rtext list" where
  "rlines s =
     (let ps = split_nl s in map strip_cr (butlast ps) @ (if last ps = [] then [] else [last ps]))"

section \<open>The types\<close>

datatype patch_line = Context rtext | Addition rtext | Removal rtext

fun line_text :: "patch_line \<Rightarrow> rtext" where
  "line_text (Context t) = t"
| "line_text (Addition t) = t"
| "line_text (Removal t) = t"

record patch_chunk =
  change_context :: "rtext option"
  chunk_lines :: "patch_line list"
  is_end_of_file :: bool

fun old_text :: "patch_line \<Rightarrow> rtext list" where
  "old_text (Context t) = [t]"
| "old_text (Addition t) = []"
| "old_text (Removal t) = [t]"

fun new_text :: "patch_line \<Rightarrow> rtext list" where
  "new_text (Context t) = [t]"
| "new_text (Addition t) = [t]"
| "new_text (Removal t) = []"

definition to_segments :: "patch_chunk \<Rightarrow> rtext list \<times> rtext list" where
  "to_segments ch = (concat (map old_text (chunk_lines ch)), concat (map new_text (chunk_lines ch)))"

definition has_old_lines :: "patch_chunk \<Rightarrow> bool" where
  "has_old_lines ch \<longleftrightarrow>
     list_ex (\<lambda>l. case l of Context _ \<Rightarrow> True | Removal _ \<Rightarrow> True | Addition _ \<Rightarrow> False) (chunk_lines ch)"

fun words_go :: "rtext \<Rightarrow> rtext \<Rightarrow> rtext list" where
  "words_go w [] = (if w = [] then [] else [rev w])"
| "words_go w (c # s) =
     (if char_is_whitespace c then (if w = [] then words_go [] s else rev w # words_go [] s)
      else words_go (c # w) s)"

definition words :: "rtext \<Rightarrow> rtext list" where
  "words s = words_go [] s"

text \<open>\<open>str::parse::<usize>\<close>, on the text of a number.\<close>

definition number_of_text :: "rtext \<Rightarrow> nat option" where
  "number_of_text s =
     (let ds = (if s \<noteq> [] \<and> hd s = 43 then tl s else s);
          n = foldl (\<lambda>a d. 10 * a + (d - 48)) 0 ds
      in if ds = [] \<or> \<not> list_all (\<lambda>d. 48 \<le> d \<and> d \<le> 57) ds then None
         else if n < 2 ^ 64 then Some n else None)"

definition parse_line_number :: "patch_chunk \<Rightarrow> nat option" where
  "parse_line_number ch =
     do { ctx \<leftarrow> change_context ch;
          let parts = words ctx;
          old_part \<leftarrow> (if parts \<noteq> [] \<and> prefix (rt ''-'') (parts ! 0) then Some (parts ! 0)
                        else if 2 \<le> length parts \<and> prefix (rt ''-'') (parts ! 1) then Some (parts ! 1)
                        else None);
          range \<leftarrow> strip_text (rt ''-'') old_part;
          number_of_text (takeWhile (\<lambda>c. c \<noteq> 44) range) }"

datatype patch_operation =
    AddFile rtext rtext
  | DeleteFile rtext
  | UpdateFile rtext "rtext option" "patch_chunk list"

datatype io_kind = NotFound | AlreadyExists | NotADirectory | IsADirectory | DirectoryNotEmpty | OtherError

datatype patch_error =
    EmptyInput
  | NoOperations
  | InvalidFormat rtext
  | InvalidHunk nat rtext
  | InvalidOperation rtext rtext
  | InvalidPath string rtext rtext
  | MissingFile rtext
  | ContextNotFound rtext rtext
  | SegmentNotFound rtext rtext
  | SemanticResolutionFailed rtext rtext rtext
  | SemanticAmbiguous rtext rtext nat
  | Io string path io_kind
  | TempPath path
  | Recovery patch_error patch_error
  | RolledBack patch_error

section \<open>Paths\<close>

definition validate_patch_path :: "string \<Rightarrow> rtext \<Rightarrow> patch_error + unit" where
  "validate_patch_path operation raw_path =
     (if raw_path = [] then Inl (InvalidPath operation raw_path (rt ''path is empty''))
      else if list_ex (\<lambda>c. c \<in> {0, 13, 10, 9}) raw_path
      then Inl (InvalidPath operation raw_path (rt ''path contains control characters''))
      else if ParentDir \<in> set (components (utf8 raw_path))
      then Inl (InvalidPath operation raw_path (rt ''path escapes workspace''))
      else if contains_text raw_path (rt ''//'')
      then Inl (InvalidPath operation raw_path (rt ''path contains consecutive separators''))
      else Inr ())"

section \<open>Shape detection\<close>

definition looks_like_vte_patch :: "rtext \<Rightarrow> bool" where
  "looks_like_vte_patch text =
     (let trimmed = rtrim_start text
      in prefix (rt ''*** Begin Patch'') trimmed \<or> prefix (rt ''*** Update File:'') trimmed
         \<or> prefix (rt ''*** Add File:'') trimmed \<or> prefix (rt ''*** Delete File:'') trimmed)"

fun paired_headers :: "bool \<Rightarrow> rtext list \<Rightarrow> bool" where
  "paired_headers saw_old [] = False"
| "paired_headers saw_old (l # ls) =
     (let lt = rtrim_start l
      in if prefix (rt ''--- '') lt then paired_headers True ls
         else if saw_old \<and> prefix (rt ''+++ '') lt then True
         else paired_headers saw_old ls)"

definition looks_like_unified_diff :: "rtext \<Rightarrow> bool" where
  "looks_like_unified_diff text =
     (let trimmed = rtrim_start text
      in if prefix (rt ''diff --git'') trimmed then True
         else paired_headers False (take 12 (rlines trimmed)))"

end
