(* ===== verification/Patch_Parser.thy ===== *)
theory Patch_Parser
  imports Patch_Text
begin

text \<open>
  \<^verbatim>\<open>tools/editing/patch/parser.rs\<close>. The loops over line indices are recursions on the lines that are
  left; a function that returns how many lines it consumed returns that number here too, and the loops
  drop as many. \<open>parse_operation_consumes\<close> is what makes them end.
\<close>

definition begin_patch_marker :: rtext where "begin_patch_marker = rt ''*** Begin Patch''"
definition end_patch_marker :: rtext where "end_patch_marker = rt ''*** End Patch''"
definition add_file_marker :: rtext where "add_file_marker = rt ''*** Add File: ''"
definition delete_file_marker :: rtext where "delete_file_marker = rt ''*** Delete File: ''"
definition update_file_marker :: rtext where "update_file_marker = rt ''*** Update File: ''"
definition move_to_marker :: rtext where "move_to_marker = rt ''*** Move to: ''"
definition eof_marker :: rtext where "eof_marker = rt ''*** End of File''"
definition empty_context_marker :: rtext where "empty_context_marker = rt ''@@''"
definition context_marker_prefix :: rtext where "context_marker_prefix = rt ''@@ ''"

lemmas marker_defs = begin_patch_marker_def end_patch_marker_def add_file_marker_def delete_file_marker_def
  update_file_marker_def move_to_marker_def eof_marker_def empty_context_marker_def context_marker_prefix_def

definition invalid_hunk :: "nat \<Rightarrow> rtext \<Rightarrow> patch_error" where
  "invalid_hunk line message = InvalidHunk line message"

definition apostrophe :: rtext where "apostrophe = [0x27]"

section \<open>The envelope\<close>

definition unified_diff_hint :: string where
  "unified_diff_hint = ''input looks like a standard unified diff (---/+++ format), but apply_patch requires the VT Code envelope. Reformat as: *** Begin Patch / *** Update File: <path> / @@ <optional context> / -old line / +new line / *** End Patch''"

definition no_markers_hint :: string where
  "no_markers_hint = ''input contains no VT Code patch markers (*** Begin Patch / *** Update File: / *** Add File:). apply_patch expects a patch envelope, not raw file contents. Wrap your change in: *** Begin Patch ... *** End Patch''"

definition missing_end_hint :: string where
  "missing_end_hint = ''missing '*** End Patch' marker. End every patch with `*** End Patch` on its own line; for large new files prefer `write_file` or split into smaller `*** Add File`/`*** Update File` chunks''"

definition check_patch_boundaries :: "rtext list \<Rightarrow> patch_error + unit" where
  "check_patch_boundaries lines =
     (if lines = [] then Inl (InvalidFormat (rt missing_end_hint))
      else if rtrim (hd lines) = begin_patch_marker \<and> rtrim (last lines) = end_patch_marker then Inr ()
      else if rtrim (hd lines) \<noteq> begin_patch_marker
      then (let joined = join_nl lines
            in Inl (InvalidFormat
                 (rt (if looks_like_unified_diff joined then unified_diff_hint
                      else if \<not> looks_like_vte_patch joined then no_markers_hint
                      else ''missing '*** Begin Patch' marker''))))
      else Inl (InvalidFormat (rt missing_end_hint)))"

definition strip_heredoc :: "rtext list \<Rightarrow> rtext list option" where
  "strip_heredoc lines =
     (if length lines < 4 then None
      else let first = rtrim (hd lines); final = rtrim (last lines)
           in if (first = rt ''<<EOF'' \<or> first = rt ''<<'' @ apostrophe @ rt ''EOF'' @ apostrophe
                  \<or> first = rt (''<<'' @ [CHR 0x22] @ ''EOF'' @ [CHR 0x22]))
                 \<and> suffix (rt ''EOF'') final
              then Some (butlast (tl lines)) else None)"

definition normalize_patch_lines :: "rtext list \<Rightarrow> bool \<Rightarrow> patch_error + rtext list" where
  "normalize_patch_lines lines lenient =
     (case check_patch_boundaries lines of
        Inr _ \<Rightarrow> Inr lines
      | Inl err \<Rightarrow>
          if lenient
          then (case strip_heredoc lines of
                  Some inner \<Rightarrow> bindr (check_patch_boundaries inner) (\<lambda>_. Inr inner)
                | None \<Rightarrow> Inl err)
          else Inl err)"

section \<open>Operations\<close>

definition parse_add_file :: "rtext \<Rightarrow> rtext list \<Rightarrow> patch_error + (patch_operation \<times> nat)" where
  "parse_add_file path_text remaining =
     (let path = rtrim path_text; body = takeWhile (prefix (rt ''+'')) remaining
      in bindr (validate_patch_path ''Add File'' path)
           (\<lambda>_. Inr (AddFile path (concat (map (\<lambda>l. tl l @ [nl]) body)), 1 + length body)))"

definition parse_delete_file :: "rtext \<Rightarrow> patch_error + (patch_operation \<times> nat)" where
  "parse_delete_file path_text =
     (let path = rtrim path_text
      in bindr (validate_patch_path ''Delete File'' path) (\<lambda>_. Inr (DeleteFile path, 1)))"

text \<open>The lines of one hunk: the diff lines read, whether the end-of-file marker closed it, the lines consumed.\<close>

definition no_diff_lines :: "nat \<Rightarrow> patch_error" where
  "no_diff_lines line_number = invalid_hunk line_number (rt ''update hunk does not contain any diff lines'')"

fun parse_diff_lines ::
  "nat \<Rightarrow> rtext list \<Rightarrow> patch_line list \<Rightarrow> nat \<Rightarrow> patch_error + (patch_line list \<times> bool \<times> nat)" where
  "parse_diff_lines n [] acc consumed = Inr (acc, False, consumed)"
| "parse_diff_lines n (current # rest) acc consumed =
     (if current = eof_marker
      then (if acc = [] then Inl (no_diff_lines n) else Inr (acc, True, Suc consumed))
      else if prefix (rt ''*** '') current then Inr (acc, False, consumed)
      else if prefix (rt ''@@'') current \<and> acc \<noteq> [] then Inr (acc, False, consumed)
      else case current of
             [] \<Rightarrow> parse_diff_lines n rest (acc @ [Context []]) (Suc consumed)
           | c # body \<Rightarrow>
               if c = 32 then parse_diff_lines n rest (acc @ [Context body]) (Suc consumed)
               else if c = 43 then parse_diff_lines n rest (acc @ [Addition body]) (Suc consumed)
               else if c = 45 then parse_diff_lines n rest (acc @ [Removal body]) (Suc consumed)
               else if acc = []
               then Inl (invalid_hunk n (rt ''unexpected line '' @ apostrophe @ current @ apostrophe
                                         @ rt '' in update hunk''))
               else Inr (acc, False, consumed))"

definition chunk_header :: "nat \<Rightarrow> bool \<Rightarrow> rtext \<Rightarrow> patch_error + (rtext option \<times> nat)" where
  "chunk_header line_number allow_missing_context first =
     (if first = empty_context_marker then Inr (None, 1)
      else case strip_text context_marker_prefix first of
             Some ctx \<Rightarrow>
               (let ctx' = rtrim ctx;
                    ctx'' = (if suffix (rt ''@@'') ctx' then take (length ctx' - 2) ctx' else ctx')
                in Inr (Some (rtrim ctx''), 1))
           | None \<Rightarrow>
               if allow_missing_context then Inr (None, 0)
               else Inl (invalid_hunk line_number
                          (rt ''expected '@@' marker, found '' @ apostrophe @ first @ apostrophe)))"

definition parse_update_chunk :: "rtext list \<Rightarrow> nat \<Rightarrow> bool \<Rightarrow> patch_error + (patch_chunk \<times> nat)" where
  "parse_update_chunk lines line_number allow_missing_context =
     (if lines = [] then Inl (invalid_hunk line_number (rt ''update hunk does not contain any lines''))
      else bindr (chunk_header line_number allow_missing_context (hd lines)) (\<lambda>(ctx, offset).
        if length lines \<le> offset then Inl (no_diff_lines line_number)
        else bindr (parse_diff_lines line_number (drop offset lines) [] offset) (\<lambda>(ls, eof, consumed).
          if ls = [] then Inl (no_diff_lines line_number)
          else Inr (\<lparr>change_context = ctx, chunk_lines = ls, is_end_of_file = eof\<rparr>, consumed))))"

lemma parse_diff_lines_consumes:
  "parse_diff_lines n ls acc k = Inr (acc', eof, k') \<Longrightarrow>
     k + length acc' \<le> k' + length acc \<and> k \<le> k' \<and> k' \<le> k + length ls"
  by (induction n ls acc k rule: parse_diff_lines.induct) (force split: if_splits list.splits)+

lemma parse_update_chunk_consumes:
  assumes "parse_update_chunk ls n a = Inr (ch, used)"
  shows "0 < used \<and> used \<le> length ls"
proof -
  obtain ctx offset ds eof where "chunk_header n a (hd ls) = Inr (ctx, offset)" "offset < length ls"
    "parse_diff_lines n (drop offset ls) [] offset = Inr (ds, eof, used)" "ds \<noteq> []"
    using assms by (auto simp: parse_update_chunk_def result_simps split: if_splits)
  then show ?thesis using parse_diff_lines_consumes [of n "drop offset ls" "[]" offset ds eof used]
    by (cases ds) auto
qed

text \<open>The hunks of one update; \<open>consumed\<close> counts the header line and the lines before \<open>remaining\<close>.\<close>

function parse_chunks ::
  "nat \<Rightarrow> rtext list \<Rightarrow> nat \<Rightarrow> bool \<Rightarrow> patch_chunk list \<Rightarrow> patch_error + (patch_chunk list \<times> nat)" where
  "parse_chunks line_number remaining consumed allow chunks =
     (if remaining = [] then Inr (chunks, consumed)
      else let next_line = rtrim (hd remaining)
           in if prefix (rt ''***'') next_line \<and> next_line \<noteq> eof_marker then Inr (chunks, consumed)
              else if next_line = []
              then parse_chunks line_number (tl remaining) (consumed + 1) allow chunks
              else case parse_update_chunk remaining (line_number + consumed) allow of
                     Inl err \<Rightarrow> Inl err
                   | Inr (chunk, used) \<Rightarrow>
                       parse_chunks line_number (drop used remaining) (consumed + used) False (chunks @ [chunk]))"
  by pat_completeness auto
termination
  by (relation "measure (\<lambda>(n, ls, k, a, cs). length ls)")
    (auto simp: neq_Nil_conv dest!: sym [of _ "parse_update_chunk _ _ _"] parse_update_chunk_consumes)

declare parse_chunks.simps [simp del]

definition parse_update_file ::
  "rtext \<Rightarrow> rtext list \<Rightarrow> nat \<Rightarrow> patch_error + (patch_operation \<times> nat)" where
  "parse_update_file path_text remaining line_number =
     (let path = rtrim path_text
      in bindr (validate_patch_path ''Update File'' path) (\<lambda>_.
         bindr (case (if remaining = [] then None else strip_text move_to_marker (rtrim (hd remaining))) of
                  None \<Rightarrow> Inr (None, remaining, 1)
                | Some candidate \<Rightarrow>
                    bindr (validate_patch_path ''Move to'' (rtrim candidate))
                      (\<lambda>_. Inr (Some (rtrim candidate), tl remaining, 2)))
           (\<lambda>(new_path, rest, consumed).
         bindr (parse_chunks line_number rest consumed True []) (\<lambda>(chunks, consumed').
           if chunks = []
           then Inl (invalid_hunk line_number
                  (rt ''Update file hunk for path '' @ apostrophe @ path @ apostrophe @ rt '' is empty''))
           else Inr (UpdateFile path new_path chunks, consumed')))))"

definition invalid_header_help :: rtext where
  "invalid_header_help =
     rt ''. expected '*** Add File', '*** Delete File', or '*** Update File'. Do NOT use unified diff format (---/+++ style). VT Code patch format example:'' @ [nl]
     @ join_nl (map rt [''*** Begin Patch'', ''*** Update File: path/to/file.rs'', ''@@ optional context'',
          ''-old line'', ''+new line'', ''*** End Patch''])"

definition parse_operation :: "rtext list \<Rightarrow> nat \<Rightarrow> patch_error + (patch_operation \<times> nat)" where
  "parse_operation lines line_number =
     (if lines = [] then Inl (invalid_hunk line_number (rt ''unexpected end of input before operation header''))
      else let header = rtrim (hd lines)
           in case strip_text add_file_marker header of
                Some path \<Rightarrow> parse_add_file path (tl lines)
              | None \<Rightarrow>
             (case strip_text delete_file_marker header of
                Some path \<Rightarrow> parse_delete_file path
              | None \<Rightarrow>
             (case strip_text update_file_marker header of
                Some path \<Rightarrow> parse_update_file path (tl lines) line_number
              | None \<Rightarrow> Inl (invalid_hunk line_number
                    (rt ''invalid hunk header '' @ apostrophe @ header @ apostrophe @ invalid_header_help)))))"

lemma parse_chunks_consumes:
  "parse_chunks n ls k a cs = Inr (cs', k') \<Longrightarrow> k \<le> k' \<and> k' \<le> k + length ls"
proof (induction n ls k a cs rule: parse_chunks.induct)
  case (1 n ls k a cs)
  show ?case
    using 1 by (subst (asm) (3) parse_chunks.simps)
      (fastforce simp: Let_def neq_Nil_conv split: if_splits sum.splits dest: parse_update_chunk_consumes)
qed

lemma parse_operation_consumes:
  assumes "parse_operation ls n = Inr (operation, used)"
  shows "0 < used \<and> used \<le> length ls"
proof -
  have "length (takeWhile P (tl ls)) \<le> length ls - 1" for P
    using length_takeWhile_le [of P "tl ls"] by simp
  then show ?thesis
    using assms unfolding parse_operation_def parse_add_file_def parse_delete_file_def parse_update_file_def Let_def
    by (fastforce simp: result_simps neq_Nil_conv split: if_splits option.splits dest: parse_chunks_consumes)
qed

function parse_operations ::
  "rtext list \<Rightarrow> nat \<Rightarrow> patch_operation list \<Rightarrow> patch_error + patch_operation list" where
  "parse_operations lines line_number operations =
     (if lines = [] then Inr operations
      else let trimmed = rtrim (hd lines)
           in if trimmed = [] \<or> trimmed = end_patch_marker
              then parse_operations (tl lines) (line_number + 1) operations
              else case parse_operation lines line_number of
                     Inl err \<Rightarrow> Inl err
                   | Inr (operation, consumed) \<Rightarrow>
                       parse_operations (drop consumed lines) (line_number + consumed)
                         (operations @ [operation]))"
  by pat_completeness auto
termination
  by (relation "measure (\<lambda>(ls, n, ops). length ls)")
    (auto simp: neq_Nil_conv dest!: sym [of _ "parse_operation _ _"] parse_operation_consumes)

declare parse_operations.simps [simp del]

definition parse_patch :: "rtext \<Rightarrow> patch_error + patch_operation list" where
  "parse_patch input =
     (let trimmed = rtrim input
      in if trimmed = [] then Inl EmptyInput
         else let raw_lines = rlines trimmed
              in if raw_lines = [] then Inl (InvalidFormat (rt ''missing '*** Begin Patch' marker''))
                 else bindr (normalize_patch_lines raw_lines True)
                        (\<lambda>lines. parse_operations (butlast (tl lines)) 2 []))"

end
