(* ===== verification/Patch_Roundtrip.thy ===== *)
theory Patch_Roundtrip
  imports Patch_Parser
begin

text \<open>
  A printer for patches and the facts by which the parser reads its output back: how the lines of a text
  are found again, that a diff line is never taken for a marker, and one lemma per parsing function on the
  lines printed for its result followed by the lines of the next construct.
\<close>

section \<open>The printer\<close>

fun render_diff_line :: "patch_line \<Rightarrow> rtext" where
  "render_diff_line (Context t) = 32 # t"
| "render_diff_line (Addition t) = 43 # t"
| "render_diff_line (Removal t) = 45 # t"

definition render_chunk :: "patch_chunk \<Rightarrow> rtext list" where
  "render_chunk ch =
     (case change_context ch of None \<Rightarrow> empty_context_marker | Some c \<Rightarrow> context_marker_prefix @ c)
     # map render_diff_line (chunk_lines ch) @ (if is_end_of_file ch then [eof_marker] else [])"

fun render_operation :: "patch_operation \<Rightarrow> rtext list" where
  "render_operation (AddFile p c) = (add_file_marker @ p) # map ((#) 43) (butlast (split_nl c))"
| "render_operation (DeleteFile p) = [delete_file_marker @ p]"
| "render_operation (UpdateFile p q cs) =
     (update_file_marker @ p) # (case q of None \<Rightarrow> [] | Some d \<Rightarrow> [move_to_marker @ d])
     @ concat (map render_chunk cs)"

definition render_patch :: "patch_operation list \<Rightarrow> rtext" where
  "render_patch ops = join_nl (begin_patch_marker # concat (map render_operation ops) @ [end_patch_marker])"

text \<open>What the printer can express: no line feed inside a line and no carriage return at its end, which
  the parser strips; a context without the closing delimiter that the parser strips.\<close>

definition plain_line :: "rtext \<Rightarrow> bool" where
  "plain_line t \<longleftrightarrow> nl \<notin> set t \<and> (t = [] \<or> last t \<noteq> cr)"

definition printable_path :: "rtext \<Rightarrow> bool" where
  "printable_path p \<longleftrightarrow> rtrim p = p \<and> validate_patch_path '''' p = Inr ()"

definition printable_chunk :: "patch_chunk \<Rightarrow> bool" where
  "printable_chunk ch \<longleftrightarrow>
     chunk_lines ch \<noteq> [] \<and> list_all (\<lambda>l. plain_line (line_text l)) (chunk_lines ch)
     \<and> (case change_context ch of None \<Rightarrow> True
        | Some c \<Rightarrow> rtrim c = c \<and> nl \<notin> set c \<and> \<not> suffix (rt ''@@'') c)"

fun printable :: "patch_operation \<Rightarrow> bool" where
  "printable (AddFile p c) \<longleftrightarrow>
     printable_path p \<and> (c = [] \<or> last c = nl) \<and> list_all plain_line (split_nl c)"
| "printable (DeleteFile p) \<longleftrightarrow> printable_path p"
| "printable (UpdateFile p q cs) \<longleftrightarrow>
     printable_path p \<and> (case q of None \<Rightarrow> True | Some d \<Rightarrow> printable_path d)
     \<and> cs \<noteq> [] \<and> list_all printable_chunk cs"

section \<open>Lines and trimming\<close>

lemma marker_codes:
  "begin_patch_marker = [42, 42, 42, 32, 66, 101, 103, 105, 110, 32, 80, 97, 116, 99, 104]"
  "end_patch_marker = [42, 42, 42, 32, 69, 110, 100, 32, 80, 97, 116, 99, 104]"
  "add_file_marker = [42, 42, 42, 32, 65, 100, 100, 32, 70, 105, 108, 101, 58, 32]"
  "delete_file_marker = [42, 42, 42, 32, 68, 101, 108, 101, 116, 101, 32, 70, 105, 108, 101, 58, 32]"
  "update_file_marker = [42, 42, 42, 32, 85, 112, 100, 97, 116, 101, 32, 70, 105, 108, 101, 58, 32]"
  "move_to_marker = [42, 42, 42, 32, 77, 111, 118, 101, 32, 116, 111, 58, 32]"
  "eof_marker = [42, 42, 42, 32, 69, 110, 100, 32, 111, 102, 32, 70, 105, 108, 101]"
  "empty_context_marker = [64, 64]" "context_marker_prefix = [64, 64, 32]"
  "rt ''*** '' = [42, 42, 42, 32]" "rt ''***'' = [42, 42, 42]" "rt ''@@'' = [64, 64]" "rt ''+'' = [43]"
  by (simp_all add: marker_defs rt_def)

lemma whitespace_codes [simp]:
  "\<not> char_is_whitespace 42" "\<not> char_is_whitespace 64" "\<not> char_is_whitespace 101" "\<not> char_is_whitespace 104"
  "char_is_whitespace cr" "char_is_whitespace nl"
  by (simp_all add: char_is_whitespace_def cr_def nl_def)

lemma dropWhile_id: "s = [] \<or> \<not> P (hd s) \<Longrightarrow> dropWhile P s = s"
  by (cases s) auto

lemma rtrim_id:
  assumes "s = [] \<or> \<not> char_is_whitespace (hd s) \<and> \<not> char_is_whitespace (last s)"
  shows "rtrim s = s"
  using assms by (auto simp: rtrim_def rtrim_start_def rtrim_end_def dropWhile_id hd_rev)

lemma last_rtrim:
  assumes "rtrim s = s" "s \<noteq> []"
  shows "\<not> char_is_whitespace (last s)"
proof -
  let ?t = "dropWhile char_is_whitespace (rev (rtrim_start s))"
  have s: "s = rev ?t" using assms(1) by (simp add: rtrim_def rtrim_end_def)
  with assms(2) have "?t \<noteq> []" by (metis rev.simps(1))
  from hd_dropWhile [OF this] show ?thesis by (subst s) (simp add: last_rev)
qed

lemma rtrim_marker: "rtrim p = p \<Longrightarrow> p \<noteq> [] \<Longrightarrow> m \<noteq> [] \<Longrightarrow> \<not> char_is_whitespace (hd m) \<Longrightarrow> rtrim (m @ p) = m @ p"
  by (rule rtrim_id) (simp add: last_rtrim)

lemma rtrim_start_drop: "rtrim (drop (length m) (m @ p)) = p" if "rtrim p = p"
  using that by simp

lemma strip_text_append [simp]: "strip_text m (m @ p) = Some p"
  by (simp add: strip_text_def)

lemma rlines_join:
  assumes "ls \<noteq> []" "list_all plain_line ls" "last ls \<noteq> []"
  shows "rlines (join_nl ls) = ls"
proof -
  have "split_nl (join_nl ls) = ls" using assms by (intro split_join_nl) (auto simp: list_all_iff plain_line_def)
  moreover have "map strip_cr (butlast ls) = butlast ls"
    using assms(2) by (intro map_idI) (auto simp: list_all_iff plain_line_def strip_cr_def dest!: in_set_butlastD)
  ultimately show ?thesis using assms by (simp add: rlines_def Let_def append_butlast_last_id)
qed

section \<open>One lemma per parsing function\<close>

lemma validate_any: "validate_patch_path a p = Inr () \<longleftrightarrow> validate_patch_path b p = Inr ()"
  by (simp add: validate_patch_path_def)

lemma printable_pathD:
  assumes "printable_path p"
  shows "rtrim p = p" "p \<noteq> []" "validate_patch_path a p = Inr ()" "nl \<notin> set p"
  using assms validate_any [of "''''" p a] unfolding printable_path_def
  by (auto simp: validate_patch_path_def list_ex_iff nl_def split: if_splits)

definition header_line :: "rtext \<Rightarrow> bool" where
  "header_line l \<longleftrightarrow> rtrim l = l \<and> prefix (rt ''*** '') l \<and> l \<noteq> eof_marker"

definition closes :: "rtext list \<Rightarrow> bool" where
  "closes rest \<longleftrightarrow> rest = [] \<or> header_line (hd rest)"

lemma parse_diff_lines_render:
  "parse_diff_lines n (map render_diff_line ls @ rest) acc k = parse_diff_lines n rest (acc @ ls) (k + length ls)"
proof (induction ls arbitrary: acc k)
  case (Cons l ls)
  then show ?case by (cases l) (simp_all add: marker_codes)
qed simp

lemma parse_diff_lines_close:
  assumes "acc \<noteq> []" "closes rest \<or> prefix (rt ''@@'') (hd rest)"
  shows "parse_diff_lines n rest acc k = Inr (acc, False, k)"
proof (cases rest)
  case (Cons l ls)
  then show ?thesis using assms by (auto simp: closes_def header_line_def marker_codes)
qed simp

lemma chunk_header_render:
  assumes "printable_chunk ch"
  shows "chunk_header n a (hd (render_chunk ch)) = Inr (change_context ch, 1)"
  using assms by (cases "change_context ch")
    (auto simp: chunk_header_def render_chunk_def printable_chunk_def marker_codes(8,9,12) strip_text_def Let_def)

lemma parse_update_chunk_render:
  assumes "printable_chunk ch" "closes rest \<or> prefix (rt ''@@'') (hd rest)"
  shows "parse_update_chunk (render_chunk ch @ rest) n a = Inr (ch, length (render_chunk ch))"
proof -
  have r: "render_chunk ch @ rest = hd (render_chunk ch) # map render_diff_line (chunk_lines ch)
             @ (if is_end_of_file ch then [eof_marker] else []) @ rest" (is "_ = ?h # ?ls @ ?end @ rest")
    by (simp add: render_chunk_def)
  have ne: "chunk_lines ch \<noteq> []" using assms by (simp add: printable_chunk_def)
  have "parse_diff_lines n (?ls @ ?end @ rest) [] 1
          = Inr (chunk_lines ch, is_end_of_file ch, length (render_chunk ch))"
    using ne assms(2) parse_diff_lines_close by (simp add: parse_diff_lines_render render_chunk_def)
  then show ?thesis
    using ne chunk_header_render [OF assms(1), of n a] by (simp add: parse_update_chunk_def r)
qed

lemma rtrim_chunk_start:
  assumes "prefix (rt ''@@'') l"
  shows "rtrim l \<noteq> [] \<and> \<not> prefix (rt ''***'') (rtrim l)"
proof -
  obtain s where l: "l = 64 # 64 # s" using assms by (auto simp: marker_codes prefix_def)
  have "dropWhile char_is_whitespace (rev s @ [64, 64])
        = (if list_all char_is_whitespace s then [64, 64] else dropWhile char_is_whitespace (rev s) @ [64, 64])"
    by (auto simp: dropWhile_append list_all_iff dropWhile_eq_Nil_conv)
  then show ?thesis by (simp add: l rtrim_def rtrim_start_def rtrim_end_def marker_codes)
qed

lemma render_chunk_start: "\<exists>l ls. render_chunk ch = l # ls \<and> prefix (rt ''@@'') l"
  by (auto simp: render_chunk_def marker_codes split: option.splits)

lemma parse_chunks_render:
  assumes "list_all printable_chunk cs" "closes rest"
  shows "parse_chunks n (concat (map render_chunk cs) @ rest) k a acc
           = Inr (acc @ cs, k + length (concat (map render_chunk cs)))"
  using assms(1)
proof (induction cs arbitrary: k a acc)
  case Nil
  then show ?case using assms(2)
    by (subst parse_chunks.simps) (auto simp: closes_def header_line_def Let_def marker_codes prefix_def)
next
  case (Cons c cs)
  obtain l ls where l: "render_chunk c = l # ls" "prefix (rt ''@@'') l" using render_chunk_start by blast
  let ?rest = "concat (map render_chunk cs) @ rest"
  have "closes ?rest \<or> prefix (rt ''@@'') (hd ?rest)"
  proof (cases cs)
    case (Cons d ds)
    then show ?thesis using render_chunk_start [of d] by auto
  qed (simp add: assms(2))
  then have "parse_update_chunk (l # ls @ ?rest) (n + k) a = Inr (c, Suc (length ls))"
    using parse_update_chunk_render [of c ?rest "n + k" a] Cons.prems l by simp
  then show ?case
    using Cons.IH Cons.prems rtrim_chunk_start [OF l(2)] by (subst parse_chunks.simps) (simp add: l Let_def)
qed


section \<open>Operations and patches\<close>

lemma header_lineI:
  assumes "rtrim p = p" "p \<noteq> []" "m \<in> {add_file_marker, delete_file_marker, update_file_marker, move_to_marker}"
  shows "header_line (m @ p)"
proof -
  have "rtrim (m @ p) = m @ p" using assms by (intro rtrim_marker) (auto simp: marker_codes)
  then show ?thesis using assms(3) by (auto simp: header_line_def marker_codes)
qed

lemma other_marker [simp]:
  "strip_text add_file_marker (delete_file_marker @ p) = None"
  "strip_text add_file_marker (update_file_marker @ p) = None"
  "strip_text delete_file_marker (update_file_marker @ p) = None"
  by (simp_all add: strip_text_def marker_codes)

lemma header_line_plus: "closes rest \<Longrightarrow> takeWhile (prefix (rt ''+'')) rest = []"
  by (cases rest) (auto simp: closes_def header_line_def marker_codes prefix_def)

lemma content_lines:
  assumes "c = [] \<or> last c = nl"
  shows "concat (map (\<lambda>l. l @ [nl]) (butlast (split_nl c))) = c"
proof -
  have e: "join_nl (ws @ [[]]) = concat (map (\<lambda>l. l @ [nl]) ws)" for ws
    by (induction ws) (auto simp: join_nl_Cons)
  have "c = [] \<or> last c = nl \<Longrightarrow> last (split_nl c) = []"
  proof (induction c)
    case (Cons x s)
    then show ?case using join_split_nl [of s] by (cases "x = nl"; cases "split_nl s") (auto split: if_splits)
  qed simp
  with assms have "last (split_nl c) = []" by blast
  then have "split_nl c = butlast (split_nl c) @ [[]]"
    by (metis append_butlast_last_id split_nl_neq_Nil)
  then show ?thesis using e join_split_nl by metis
qed

lemma parse_add_render:
  assumes "printable (AddFile p c)" "closes rest"
  shows "parse_add_file p (map ((#) 43) (butlast (split_nl c)) @ rest)
           = Inr (AddFile p c, length (render_operation (AddFile p c)))"
proof -
  have "takeWhile (prefix (rt ''+'')) (map ((#) 43) ws @ rest) = map ((#) 43) ws" for ws
    by (subst takeWhile_append2) (auto simp: marker_codes header_line_plus [OF assms(2), simplified marker_codes])
  then show ?thesis using assms printable_pathD [of p]
    by (auto simp: parse_add_file_def Let_def content_lines o_def)
qed

lemma parse_update_render:
  assumes "printable (UpdateFile p q cs)" "closes rest"
  shows "parse_update_file p (tl (render_operation (UpdateFile p q cs)) @ rest) n
           = Inr (UpdateFile p q cs, length (render_operation (UpdateFile p q cs)))"
proof (cases q)
  case None
  obtain c cs' where cs: "cs = c # cs'" using assms(1) by (cases cs) auto
  obtain l ls where l: "render_chunk c = l # ls" "prefix (rt ''@@'') l" using render_chunk_start by blast
  have "strip_text move_to_marker (rtrim l) = None"
    using rtrim_chunk_start [OF l(2)] by (auto simp: strip_text_def marker_codes prefix_def)
  then show ?thesis
    using assms None printable_pathD [of p] parse_chunks_render [of cs rest n 1 True "[]"]
    by (simp add: parse_update_file_def cs l Let_def)
next
  case (Some d)
  have d: "rtrim d = d" "d \<noteq> []" "validate_patch_path ''Move to'' d = Inr ()"
    using assms(1) Some printable_pathD by auto
  have "rtrim (move_to_marker @ d) = move_to_marker @ d"
    using d by (intro rtrim_marker) (auto simp: marker_codes)
  then show ?thesis
    using assms Some d printable_pathD [of p] parse_chunks_render [of cs rest n 2 True "[]"]
    by (simp add: parse_update_file_def Let_def)
qed

lemma parse_operation_render:
  assumes "printable op" "closes rest"
  shows "parse_operation (render_operation op @ rest) n = Inr (op, length (render_operation op))"
proof (cases op)
  case (AddFile p c)
  then have "rtrim (add_file_marker @ p) = add_file_marker @ p"
    using assms printable_pathD [of p] by (intro rtrim_marker) (auto simp: marker_codes)
  then show ?thesis using assms AddFile parse_add_render [of p c rest] by (simp add: parse_operation_def Let_def)
next
  case (DeleteFile p)
  then have "rtrim (delete_file_marker @ p) = delete_file_marker @ p"
    using assms printable_pathD [of p] by (intro rtrim_marker) (auto simp: marker_codes)
  then show ?thesis
    using assms DeleteFile printable_pathD [of p] by (simp add: parse_operation_def parse_delete_file_def Let_def)
next
  case (UpdateFile p q cs)
  then have "rtrim (update_file_marker @ p) = update_file_marker @ p"
    using assms printable_pathD [of p] by (intro rtrim_marker) (auto simp: marker_codes)
  then show ?thesis
    using assms UpdateFile parse_update_render [of p q cs rest n] by (simp add: parse_operation_def Let_def)
qed

lemma render_operation_start: "printable op \<Longrightarrow> \<exists>l ls. render_operation op = l # ls \<and> header_line l"
  by (cases op) (auto intro!: header_lineI dest: printable_pathD)

lemma header_not_end:
  assumes "printable op"
  shows "rtrim (hd (render_operation op)) \<noteq> [] \<and> rtrim (hd (render_operation op)) \<noteq> end_patch_marker"
proof -
  obtain l ls where "render_operation op = l # ls" "header_line l" using render_operation_start [OF assms] by blast
  then show ?thesis by (cases op) (auto simp: header_line_def marker_codes)
qed

lemma parse_operations_render:
  "list_all printable ops \<Longrightarrow> parse_operations (concat (map render_operation ops)) n acc = Inr (acc @ ops)"
proof (induction ops arbitrary: n acc)
  case Nil
  show ?case by (subst parse_operations.simps) simp
next
  case (Cons op ops)
  obtain l ls where l: "render_operation op = l # ls" using render_operation_start Cons.prems by fastforce
  let ?rest = "concat (map render_operation ops)"
  have "closes ?rest"
    using Cons.prems render_operation_start [of "hd ops"] by (cases ops) (auto simp: closes_def)
  then have "parse_operation (l # ls @ ?rest) n = Inr (op, Suc (length ls))"
    using parse_operation_render [of op ?rest n] Cons.prems l by simp
  then show ?case
    using Cons header_not_end [of op] by (subst parse_operations.simps) (simp add: l Let_def)
qed

lemma plain_diff_line: "plain_line (line_text l) \<Longrightarrow> plain_line (render_diff_line l)"
  by (cases l) (auto simp: plain_line_def nl_def cr_def)

lemma plain_marked:
  assumes "rtrim p = p" "nl \<notin> set p" "nl \<notin> set m" "m \<noteq> []" "last m \<noteq> cr"
  shows "plain_line (m @ p)"
  using assms last_rtrim [of p] by (cases "p = []") (auto simp: plain_line_def)

lemma plain_render_chunk:
  assumes "printable_chunk ch" "x \<in> set (render_chunk ch)"
  shows "plain_line x"
proof -
  have "plain_line (context_marker_prefix @ c)" if "change_context ch = Some c" for c
    using assms(1) that by (intro plain_marked) (auto simp: printable_chunk_def marker_codes nl_def cr_def)
  moreover have "plain_line empty_context_marker" "plain_line eof_marker"
    by (simp_all add: plain_line_def marker_codes nl_def cr_def)
  ultimately show ?thesis
    using assms by (auto simp: render_chunk_def printable_chunk_def list_all_iff plain_diff_line
        split: option.splits if_splits)
qed

lemma plain_render: "printable op \<Longrightarrow> list_all plain_line (render_operation op)"
proof (cases op)
  case (AddFile p c)
  then show "printable op \<Longrightarrow> ?thesis"
    using plain_marked [of p add_file_marker] printable_pathD [of p]
    by (auto simp: list_all_iff plain_line_def marker_codes nl_def cr_def dest!: in_set_butlastD)
next
  case (DeleteFile p)
  then show "printable op \<Longrightarrow> ?thesis"
    using plain_marked [of p delete_file_marker] printable_pathD [of p] by (auto simp: marker_codes nl_def cr_def)
next
  case (UpdateFile p q cs)
  then show "printable op \<Longrightarrow> ?thesis"
    using plain_marked [of p update_file_marker] printable_pathD [of p] plain_marked [of "the q" move_to_marker]
      printable_pathD [of "the q"]
    by (auto simp: marker_codes nl_def cr_def list_all_iff split: option.splits intro: plain_render_chunk)
qed

end
