(* ===== verification/Ast_Language.thy ===== *)
theory Ast_Language
  imports Patch_Text
begin

text \<open>
  \<^verbatim>\<open>vtcode-core/src/tools/ast_grep_language.rs\<close>: the languages the structural search knows, their names, the
  file extensions that select them, and the language of a path. The match arms are kept as tables, in the
  order of the source.
\<close>

datatype ast_language =
    LangRust | LangPython | LangJavaScript | LangTypeScript | LangTsx | LangGo
  | LangJava | LangMarkdown | LangC | LangCpp | LangCsharp | LangCss
  | LangHtml | LangJson | LangYaml | LangRuby | LangPhp | LangKotlin
  | LangSwift | LangLua | LangBash | LangSql | LangScala | LangElixir
  | LangDockerfile | LangToml | LangHcl | LangDart | LangZig | LangProtobuf
  | LangHaskell | LangNix | LangSolidity

definition ascii_lower :: "rtext \<Rightarrow> rtext" where
  "ascii_lower s = map (\<lambda>c. if 65 \<le> c \<and> c \<le> 90 then c + 32 else c) s"

definition language_of :: "(string list \<times> ast_language) list \<Rightarrow> rtext \<Rightarrow> ast_language option" where
  "language_of table key =
     map_option snd (List.find (\<lambda>(names, _). list_ex (\<lambda>n. rt n = key) names) table)"

definition user_value_table :: "(string list \<times> ast_language) list" where
  "user_value_table =
    [([''rs'', ''rust''], LangRust),
     ([''py'', ''python'', ''python3''], LangPython),
     ([''js'', ''javascript'', ''jsx''], LangJavaScript),
     ([''ts'', ''typescript''], LangTypeScript),
     ([''tsx''], LangTsx),
     ([''go'', ''golang''], LangGo),
     ([''java''], LangJava),
     ([''md'', ''markdown''], LangMarkdown),
     ([''c''], LangC),
     ([''cpp'', ''cc'', ''c++'', ''cxx''], LangCpp),
     ([''cs'', ''csharp'', ''c#''], LangCsharp),
     ([''css''], LangCss),
     ([''html'', ''htm''], LangHtml),
     ([''json''], LangJson),
     ([''yaml'', ''yml''], LangYaml),
     ([''rb'', ''ruby''], LangRuby),
     ([''php''], LangPhp),
     ([''kt'', ''kotlin''], LangKotlin),
     ([''swift''], LangSwift),
     ([''lua''], LangLua),
     ([''bash'', ''sh'', ''shell''], LangBash),
     ([''sql''], LangSql),
     ([''scala'', ''sc''], LangScala),
     ([''elixir'', ''ex'', ''exs''], LangElixir),
     ([''dockerfile'', ''docker''], LangDockerfile),
     ([''toml''], LangToml),
     ([''hcl'', ''terraform'', ''tf''], LangHcl),
     ([''dart''], LangDart),
     ([''zig''], LangZig),
     ([''protobuf'', ''proto''], LangProtobuf),
     ([''hs'', ''haskell''], LangHaskell),
     ([''nix''], LangNix),
     ([''solidity'', ''sol''], LangSolidity)]"

definition from_user_value :: "rtext \<Rightarrow> ast_language option" where
  "from_user_value value = language_of user_value_table (ascii_lower (rtrim value))"

definition extension_table :: "(string list \<times> ast_language) list" where
  "extension_table =
    [([''rs''], LangRust),
     ([''py'', ''py3'', ''pyi'', ''bzl''], LangPython),
     ([''js'', ''jsx'', ''cjs'', ''mjs''], LangJavaScript),
     ([''ts'', ''cts'', ''mts''], LangTypeScript),
     ([''tsx''], LangTsx),
     ([''go''], LangGo),
     ([''java''], LangJava),
     ([''md'', ''mdx''], LangMarkdown),
     ([''c'', ''h''], LangC),
     ([''cpp'', ''cc'', ''cxx'', ''hpp'', ''hxx'', ''hh'', ''cu'', ''ino''], LangCpp),
     ([''cs''], LangCsharp),
     ([''css''], LangCss),
     ([''html'', ''htm'', ''xhtml''], LangHtml),
     ([''json'', ''jsonc''], LangJson),
     ([''yml'', ''yaml''], LangYaml),
     ([''rb'', ''erb'', ''rbw'', ''gemspec''], LangRuby),
     ([''php''], LangPhp),
     ([''kt'', ''kts'', ''ktm''], LangKotlin),
     ([''swift''], LangSwift),
     ([''lua''], LangLua),
     ([''sh'', ''bash'', ''zsh'', ''bats'', ''ksh''], LangBash),
     ([''sql''], LangSql),
     ([''scala'', ''sc'', ''sbt''], LangScala),
     ([''ex'', ''exs''], LangElixir),
     ([''dockerfile''], LangDockerfile),
     ([''toml''], LangToml),
     ([''hcl'', ''tf'', ''tfvars''], LangHcl),
     ([''dart''], LangDart),
     ([''zig''], LangZig),
     ([''proto''], LangProtobuf),
     ([''hs''], LangHaskell),
     ([''nix''], LangNix),
     ([''sol''], LangSolidity)]"

definition from_extension :: "rtext \<Rightarrow> ast_language option" where
  "from_extension extension = language_of extension_table (ascii_lower (rtrim extension))"

text \<open>\<open>Path::extension\<close> of a file name: the part after its last dot, unless that dot is its first character.\<close>

definition extension_of :: "rtext \<Rightarrow> rtext option" where
  "extension_of name =
     (let after = rev (takeWhile (\<lambda>c. c \<noteq> 46) (rev name))
      in if 46 \<notin> set name \<or> length after + 1 = length name then None else Some after)"

definition language_of_path :: "path \<Rightarrow> ast_language option" where
  "language_of_path p =
     do { bytes \<leftarrow> path_file_name p;
          file_name \<leftarrow> to_str bytes;
          let lower = ascii_lower file_name;
          if suffix (rt ''.sh.in'') lower then Some LangBash
          else if suffix (rt ''.c++'') lower then Some LangCpp
          else case extension_of file_name of
                 Some extension \<Rightarrow> from_extension extension
               | None \<Rightarrow> if lower = rt ''dockerfile'' then Some LangDockerfile else None }"

fun language_name :: "ast_language \<Rightarrow> string" where
  "language_name LangRust = ''rust''"
| "language_name LangPython = ''python''"
| "language_name LangJavaScript = ''javascript''"
| "language_name LangTypeScript = ''typescript''"
| "language_name LangTsx = ''tsx''"
| "language_name LangGo = ''go''"
| "language_name LangJava = ''java''"
| "language_name LangMarkdown = ''md''"
| "language_name LangC = ''c''"
| "language_name LangCpp = ''cpp''"
| "language_name LangCsharp = ''csharp''"
| "language_name LangCss = ''css''"
| "language_name LangHtml = ''html''"
| "language_name LangJson = ''json''"
| "language_name LangYaml = ''yaml''"
| "language_name LangRuby = ''ruby''"
| "language_name LangPhp = ''php''"
| "language_name LangKotlin = ''kotlin''"
| "language_name LangSwift = ''swift''"
| "language_name LangLua = ''lua''"
| "language_name LangBash = ''bash''"
| "language_name LangSql = ''sql''"
| "language_name LangScala = ''scala''"
| "language_name LangElixir = ''elixir''"
| "language_name LangDockerfile = ''dockerfile''"
| "language_name LangToml = ''toml''"
| "language_name LangHcl = ''hcl''"
| "language_name LangDart = ''dart''"
| "language_name LangZig = ''zig''"
| "language_name LangProtobuf = ''proto''"
| "language_name LangHaskell = ''haskell''"
| "language_name LangNix = ''nix''"
| "language_name LangSolidity = ''solidity''"

fun path_globs :: "ast_language \<Rightarrow> string list" where
  "path_globs LangRust = [''*.rs'']"
| "path_globs LangPython = [''*.py'', ''*.py3'', ''*.pyi'', ''*.bzl'']"
| "path_globs LangJavaScript = [''*.js'', ''*.jsx'', ''*.cjs'', ''*.mjs'']"
| "path_globs LangTypeScript = [''*.ts'', ''*.cts'', ''*.mts'']"
| "path_globs LangTsx = [''*.tsx'']"
| "path_globs LangGo = [''*.go'']"
| "path_globs LangJava = [''*.java'']"
| "path_globs LangMarkdown = [''*.md'', ''*.mdx'']"
| "path_globs LangC = [''*.c'', ''*.h'']"
| "path_globs LangCpp = [''*.cpp'', ''*.cc'', ''*.cxx'', ''*.hpp'', ''*.hxx'', ''*.hh'', ''*.cu'', ''*.ino'', ''*.c++'']"
| "path_globs LangCsharp = [''*.cs'']"
| "path_globs LangCss = [''*.css'']"
| "path_globs LangHtml = [''*.html'', ''*.htm'', ''*.xhtml'']"
| "path_globs LangJson = [''*.json'', ''*.jsonc'']"
| "path_globs LangYaml = [''*.yml'', ''*.yaml'']"
| "path_globs LangRuby = [''*.rb'', ''*.erb'', ''*.rbw'', ''*.gemspec'']"
| "path_globs LangPhp = [''*.php'']"
| "path_globs LangKotlin = [''*.kt'', ''*.kts'', ''*.ktm'']"
| "path_globs LangSwift = [''*.swift'']"
| "path_globs LangLua = [''*.lua'']"
| "path_globs LangBash = [''*.sh'', ''*.bash'', ''*.zsh'', ''*.bats'', ''*.ksh'', ''*.sh.in'']"
| "path_globs LangSql = [''*.sql'']"
| "path_globs LangScala = [''*.scala'', ''*.sc'', ''*.sbt'']"
| "path_globs LangElixir = [''*.ex'', ''*.exs'']"
| "path_globs LangDockerfile = [''Dockerfile'', ''dockerfile'']"
| "path_globs LangToml = [''*.toml'']"
| "path_globs LangHcl = [''*.hcl'', ''*.tf'', ''*.tfvars'']"
| "path_globs LangDart = [''*.dart'']"
| "path_globs LangZig = [''*.zig'']"
| "path_globs LangProtobuf = [''*.proto'']"
| "path_globs LangHaskell = [''*.hs'']"
| "path_globs LangNix = [''*.nix'']"
| "path_globs LangSolidity = [''*.sol'']"

fun display_name :: "ast_language \<Rightarrow> string" where
  "display_name LangRust = ''Rust''"
| "display_name LangPython = ''Python''"
| "display_name LangJavaScript = ''JavaScript''"
| "display_name LangTypeScript = ''TypeScript''"
| "display_name LangTsx = ''TypeScript''"
| "display_name LangGo = ''Go''"
| "display_name LangJava = ''Java''"
| "display_name LangMarkdown = ''Markdown''"
| "display_name LangC = ''C''"
| "display_name LangCpp = ''C++''"
| "display_name LangCsharp = ''C#''"
| "display_name LangCss = ''CSS''"
| "display_name LangHtml = ''HTML''"
| "display_name LangJson = ''JSON''"
| "display_name LangYaml = ''YAML''"
| "display_name LangRuby = ''Ruby''"
| "display_name LangPhp = ''PHP''"
| "display_name LangKotlin = ''Kotlin''"
| "display_name LangSwift = ''Swift''"
| "display_name LangLua = ''Lua''"
| "display_name LangBash = ''Bash''"
| "display_name LangSql = ''SQL''"
| "display_name LangScala = ''Scala''"
| "display_name LangElixir = ''Elixir''"
| "display_name LangDockerfile = ''Dockerfile''"
| "display_name LangToml = ''TOML''"
| "display_name LangHcl = ''HCL''"
| "display_name LangDart = ''Dart''"
| "display_name LangZig = ''Zig''"
| "display_name LangProtobuf = ''Protobuf''"
| "display_name LangHaskell = ''Haskell''"
| "display_name LangNix = ''Nix''"
| "display_name LangSolidity = ''Solidity''"

definition workspace_language_table :: "(string list \<times> ast_language) list" where
  "workspace_language_table =
    [([''rust''], LangRust),
     ([''python''], LangPython),
     ([''javascript''], LangJavaScript),
     ([''typescript''], LangTypeScript),
     ([''go''], LangGo),
     ([''java''], LangJava),
     ([''markdown'', ''md''], LangMarkdown),
     ([''c''], LangC),
     ([''c++'', ''cpp''], LangCpp),
     ([''c#'', ''csharp''], LangCsharp),
     ([''css''], LangCss),
     ([''html''], LangHtml),
     ([''json''], LangJson),
     ([''yaml'', ''yml''], LangYaml),
     ([''ruby''], LangRuby),
     ([''php''], LangPhp),
     ([''kotlin''], LangKotlin),
     ([''swift''], LangSwift),
     ([''lua''], LangLua),
     ([''bash'', ''shell''], LangBash),
     ([''sql''], LangSql),
     ([''scala''], LangScala),
     ([''elixir''], LangElixir),
     ([''dockerfile'', ''docker''], LangDockerfile),
     ([''toml''], LangToml),
     ([''hcl'', ''terraform''], LangHcl),
     ([''dart''], LangDart),
     ([''zig''], LangZig),
     ([''protobuf'', ''proto''], LangProtobuf),
     ([''haskell'', ''hs''], LangHaskell),
     ([''nix''], LangNix),
     ([''solidity'', ''sol''], LangSolidity)]"

definition from_workspace_language :: "rtext \<Rightarrow> ast_language option" where
  "from_workspace_language value = language_of workspace_language_table (ascii_lower (rtrim value))"

end
