(* ===== verification/Patch_Apply.thy ===== *)
theory Patch_Apply
  imports Ast_Language
begin

text \<open>
  Locating the hunks of a patch in a file and writing the result: \<^verbatim>\<open>matcher.rs\<close>, \<^verbatim>\<open>semantic.rs\<close> and
  \<^verbatim>\<open>applicator/text.rs\<close> of the patch tool, with the binary lookup of \<^verbatim>\<open>tools/ast_grep_binary.rs\<close>. The
  structural search program is external: the record \<open>ast_grep\<close> holds where it is found, what a run of it
  prints and how a line of its output is read, and the full lower-casing of Unicode.
\<close>

section \<open>The matcher\<close>

definition normalise_char :: "rchar \<Rightarrow> rchar" where
  "normalise_char c =
     (if 0x2010 \<le> c \<and> c \<le> 0x2015 \<or> c = 0x2212 then 45
      else if 0x2018 \<le> c \<and> c \<le> 0x201B then 39
      else if 0x201C \<le> c \<and> c \<le> 0x201F then 34
      else if c = 0xA0 \<or> 0x2002 \<le> c \<and> c \<le> 0x200A \<or> c = 0x202F \<or> c = 0x205F \<or> c = 0x3000 then 32
      else c)"

definition normalise_text :: "rtext \<Rightarrow> rtext" where
  "normalise_text input = map normalise_char (rtrim input)"

text \<open>The pattern stands at line \<open>i\<close>, both compared after \<open>f\<close>.\<close>

definition matches_at :: "(rtext \<Rightarrow> rtext) \<Rightarrow> rtext list \<Rightarrow> rtext list \<Rightarrow> nat \<Rightarrow> bool" where
  "matches_at f lines pattern i \<longleftrightarrow> map f (take (length pattern) (drop i lines)) = map f pattern"

fun first_pass :: "(rtext \<Rightarrow> rtext) list \<Rightarrow> rtext list \<Rightarrow> rtext list \<Rightarrow> nat list \<Rightarrow> nat option" where
  "first_pass [] lines pattern window = None"
| "first_pass (f # fs) lines pattern window =
     (case List.find (matches_at f lines pattern) window of
        Some i \<Rightarrow> Some i
      | None \<Rightarrow> first_pass fs lines pattern window)"

definition seek_passes :: "(rtext \<Rightarrow> rtext) list" where
  "seek_passes = [id, rtrim_end, rtrim, normalise_text]"

definition seek :: "rtext list \<Rightarrow> rtext list \<Rightarrow> nat \<Rightarrow> bool \<Rightarrow> nat option" where
  "seek lines pattern start eof =
     (if pattern = [] then Some start
      else if length lines < length pattern then None
      else let search_start = (if eof then length lines - length pattern else start);
               max_start = length lines - length pattern
           in first_pass seek_passes lines pattern [search_start ..< Suc max_start])"

definition last_is_empty :: "rtext list \<Rightarrow> bool" where
  "last_is_empty ls \<longleftrightarrow> ls \<noteq> [] \<and> last ls = []"

definition seek_segment ::
  "rtext list \<Rightarrow> rtext list \<Rightarrow> rtext list \<Rightarrow> nat \<Rightarrow> bool \<Rightarrow> nat option \<times> rtext list \<times> rtext list" where
  "seek_segment lines old_segment new_segment start eof =
     (case seek lines old_segment start eof of
        Some i \<Rightarrow> (Some i, old_segment, new_segment)
      | None \<Rightarrow>
          if last_is_empty old_segment
          then (let old' = butlast old_segment;
                    new' = (if last_is_empty new_segment then butlast new_segment else new_segment)
                in (seek lines old' start eof, old', new'))
          else (None, old_segment, new_segment))"

section \<open>The structural fallback\<close>

datatype binary_override = SystemBinary | MissingBinary | BinaryPath path

record ast_grep =
  ag_override :: "rtext + binary_override"  \<comment> \<open>the locked override, or the error of a poisoned lock\<close>
  ag_env :: "path option"  \<comment> \<open>the environment variable, when it is not empty\<close>
  ag_managed :: "path list"
  ag_which :: "path option"
  ag_exists :: "path \<Rightarrow> bool"
  ag_run :: "path \<Rightarrow> string \<Rightarrow> path \<Rightarrow> rtext + (bool \<times> rtext \<times> rtext)"  \<comment> \<open>success, stderr, stdout\<close>
  ag_json :: "rtext \<Rightarrow> rtext + (rtext \<times> nat \<times> nat)"  \<comment> \<open>text, first line, last line\<close>
  ag_lower :: "rtext \<Rightarrow> rtext"

definition resolve_ast_grep_binary_with_sources ::
  "(path \<Rightarrow> bool) \<Rightarrow> path option \<Rightarrow> path list \<Rightarrow> path option \<Rightarrow> path option" where
  "resolve_ast_grep_binary_with_sources exists env_override managed_candidates path_candidate =
     (case env_override of
        Some p \<Rightarrow> if exists p then Some p
                  else (case List.find exists managed_candidates of Some c \<Rightarrow> Some c | None \<Rightarrow> path_candidate)
      | None \<Rightarrow> (case List.find exists managed_candidates of Some c \<Rightarrow> Some c | None \<Rightarrow> path_candidate))"

definition resolve_ast_grep_binary_from_env_and_fs :: "ast_grep \<Rightarrow> path option" where
  "resolve_ast_grep_binary_from_env_and_fs ag =
     (let system = resolve_ast_grep_binary_with_sources (ag_exists ag) (ag_env ag) (ag_managed ag) (ag_which ag)
      in case ag_override ag of
           Inl _ \<Rightarrow> system
         | Inr SystemBinary \<Rightarrow> system
         | Inr MissingBinary \<Rightarrow> None
         | Inr (BinaryPath p) \<Rightarrow> Some p)"

definition missing_ast_grep_message :: "rtext \<Rightarrow> rtext" where
  "missing_ast_grep_message tail =
     rt ''ast-grep is not available; run `vtcode dependencies install ast-grep` or install `ast-grep` manually.''
     @ (if tail = [] then [] else 32 # tail)"

definition resolve_ast_grep_binary_path :: "ast_grep \<Rightarrow> rtext + path" where
  "resolve_ast_grep_binary_path ag =
     (case ag_override ag of
        Inl e \<Rightarrow> Inl (rt ''ast-grep override mutex must not be poisoned: '' @ e)
      | Inr MissingBinary \<Rightarrow> Inl (missing_ast_grep_message (rt ''Use exact context lines if you cannot install it.''))
      | Inr (BinaryPath p) \<Rightarrow> Inr p
      | Inr SystemBinary \<Rightarrow>
          (case resolve_ast_grep_binary_from_env_and_fs ag of
             Some p \<Rightarrow> Inr p
           | None \<Rightarrow> Inl (missing_ast_grep_message
               (rt ''Use exact context lines if you cannot install it with `vtcode dependencies install ast-grep`.''))))"

definition identifier_start :: "rchar \<Rightarrow> bool" where
  "identifier_start c \<longleftrightarrow> 65 \<le> c \<and> c \<le> 90 \<or> 97 \<le> c \<and> c \<le> 122 \<or> c = 95"

definition identifier_part :: "rchar \<Rightarrow> bool" where
  "identifier_part c \<longleftrightarrow> identifier_start c \<or> 48 \<le> c \<and> c \<le> 57"

function identifiers :: "rtext \<Rightarrow> rtext list" where
  "identifiers s =
     (case dropWhile (\<lambda>c. \<not> identifier_start c) s of
        [] \<Rightarrow> []
      | c # r \<Rightarrow> (c # takeWhile identifier_part r) # identifiers (dropWhile identifier_part r))"
  by pat_completeness auto
termination
proof (relation "measure length")
  fix s c r
  assume "dropWhile (\<lambda>c. \<not> identifier_start c) s = c # r"
  then have "Suc (length r) \<le> length s" by (metis length_Cons length_dropWhile_le)
  then show "(dropWhile identifier_part r, s) \<in> measure length"
    using length_dropWhile_le [of identifier_part r] by simp
qed simp

declare identifiers.simps [simp del]

definition stopwords :: "string list" where
  "stopwords = [''async'', ''class'', ''const'', ''crate'', ''def'', ''enum'', ''export'', ''fn'', ''for'', ''function'',
     ''impl'', ''interface'', ''let'', ''mod'', ''module'', ''private'', ''protected'', ''pub'', ''public'', ''self'',
     ''super'', ''static'', ''struct'', ''trait'', ''type'', ''void'', ''where'']"

definition semantic_anchor_term :: "rtext \<Rightarrow> rtext option" where
  "semantic_anchor_term anchor =
     List.find (\<lambda>term. \<not> list_ex (\<lambda>w. term = rt w) stopwords) (map ascii_lower (identifiers anchor))"

definition candidate_from_match ::
  "ast_grep \<Rightarrow> rtext \<times> nat \<times> nat \<Rightarrow> rtext list \<Rightarrow> rtext \<Rightarrow> (nat \<times> nat) option" where
  "candidate_from_match ag entry file_lines primary_term =
     (case entry of (text, first, final) \<Rightarrow>
        if file_lines = [] then None
        else if \<not> contains_text (ag_lower ag (normalise_text text)) primary_term then None
        else let start_line = min first (length file_lines - 1); end_line = min final (length file_lines - 1)
             in if end_line < start_line then None else Some (start_line, end_line))"

fun read_candidates ::
  "ast_grep \<Rightarrow> (rtext \<Rightarrow> patch_error) \<Rightarrow> rtext list \<Rightarrow> rtext \<Rightarrow> rtext list \<Rightarrow> patch_error + (nat \<times> nat) list" where
  "read_candidates ag failed original_lines primary_term [] = Inr []"
| "read_candidates ag failed original_lines primary_term (l # ls) =
     (if rtrim l = [] then read_candidates ag failed original_lines primary_term ls
      else case ag_json ag l of
             Inl err \<Rightarrow> Inl (failed (rt ''failed to parse ast-grep output: '' @ err))
           | Inr entry \<Rightarrow>
               bindr (read_candidates ag failed original_lines primary_term ls)
                 (\<lambda>cs. Inr (case candidate_from_match ag entry original_lines primary_term of
                             Some c \<Rightarrow> c # cs | None \<Rightarrow> cs)))"

definition collect_candidates ::
  "ast_grep \<Rightarrow> (rtext \<Rightarrow> patch_error) \<Rightarrow> path \<Rightarrow> ast_language \<Rightarrow> path \<Rightarrow> rtext list \<Rightarrow> rtext
     \<Rightarrow> patch_error + (nat \<times> nat) list" where
  "collect_candidates ag failed binary language source_path original_lines primary_term =
     (case ag_run ag binary (language_name language) source_path of
        Inl err \<Rightarrow> Inl (failed (rt ''failed to run ast-grep: '' @ err))
      | Inr (success, stderr, stdout) \<Rightarrow>
          if \<not> success
          then Inl (failed (if rtrim stderr = [] then rt ''ast-grep failed to analyze the file''
                            else rt ''ast-grep failed to analyze the file: '' @ rtrim stderr))
          else bindr (read_candidates ag failed original_lines primary_term (rlines stdout))
                 (\<lambda>cs. Inr (remdups_adj (sort_key fst (sort_key snd cs)))))"

text \<open>The matches found inside the candidates, by line; a line found before is kept.\<close>

type_synonym located = "nat \<times> rtext list \<times> rtext list"

fun resolve_candidates ::
  "rtext list \<Rightarrow> rtext list \<Rightarrow> rtext list \<Rightarrow> bool \<Rightarrow> (nat \<times> nat) list \<Rightarrow> located list \<Rightarrow> located list" where
  "resolve_candidates lines old new eof [] resolved = resolved"
| "resolve_candidates lines old new eof ((start_line, end_line) # cs) resolved =
     (let end_exclusive = min (end_line + 1) (length lines)
      in if end_exclusive \<le> start_line then resolve_candidates lines old new eof cs resolved
         else case seek_segment (take (end_exclusive - start_line) (drop start_line lines)) old new 0 eof of
                (Some local_start, old', new') \<Rightarrow>
                  resolve_candidates lines old new eof cs
                    (if list_ex (\<lambda>(i, _). i = start_line + local_start) resolved then resolved
                     else resolved @ [(start_line + local_start, old', new')])
              | (None, _) \<Rightarrow> resolve_candidates lines old new eof cs resolved)"

definition unsupported_language :: rtext where
  "unsupported_language = rt ''unsupported language for semantic fallback''"

definition resolve_semantic_match ::
  "ast_grep \<Rightarrow> path \<Rightarrow> rtext \<Rightarrow> rtext list \<Rightarrow> patch_chunk \<Rightarrow> rtext list \<Rightarrow> rtext list \<Rightarrow> patch_error + located" where
  "resolve_semantic_match ag source_path shown_path original_lines chunk old_segment new_segment =
     (case map_option rtrim (change_context chunk) of
        None \<Rightarrow> Inl (SemanticResolutionFailed shown_path [] (rt ''missing semantic @@ anchor''))
      | Some anchor \<Rightarrow>
          let failed = SemanticResolutionFailed shown_path anchor
          in if anchor = [] then Inl (SemanticResolutionFailed shown_path [] (rt ''missing semantic @@ anchor''))
             else case language_of_path source_path of
               None \<Rightarrow> Inl (failed unsupported_language)
             | Some language \<Rightarrow>
                 (case resolve_ast_grep_binary_path ag of
                    Inl reason \<Rightarrow> Inl (failed reason)
                  | Inr binary \<Rightarrow>
                 (case semantic_anchor_term anchor of
                    None \<Rightarrow> Inl (failed (rt ''anchor does not contain a usable symbol name''))
                  | Some primary_term \<Rightarrow>
                      bindr (collect_candidates ag failed binary language source_path original_lines primary_term)
                        (\<lambda>candidates.
                           if candidates = []
                           then Inl (failed (rt ''no structural candidates matched the semantic anchor''))
                           else case resolve_candidates original_lines old_segment new_segment
                                       (is_end_of_file chunk) candidates [] of
                                  [] \<Rightarrow> Inl (failed (rt ''anchor resolved to structural candidates, but removal/context lines were not found safely inside them''))
                                | [m] \<Rightarrow> Inr m
                                | ms \<Rightarrow> Inl (SemanticAmbiguous shown_path anchor (length ms))))))"

section \<open>Replacements\<close>

type_synonym replacement = "nat \<times> nat \<times> rtext list"

text \<open>The cursor after a hunk's header: whether its context line was found, and the line to search from.\<close>

definition context_cursor :: "rtext list \<Rightarrow> patch_chunk \<Rightarrow> nat \<Rightarrow> bool \<times> nat" where
  "context_cursor lines chunk line_index =
     (case parse_line_number chunk of
        Some hint_line \<Rightarrow> (True, hint_line - 1)
      | None \<Rightarrow>
          (case change_context chunk of
             None \<Rightarrow> (True, line_index)
           | Some ctx \<Rightarrow>
               (case seek lines [ctx] line_index False of
                  Some idx \<Rightarrow> (True, idx + 1)
                | None \<Rightarrow> (False, line_index))))"

definition not_located :: "rtext \<Rightarrow> bool \<Rightarrow> patch_chunk \<Rightarrow> rtext list \<Rightarrow> patch_error" where
  "not_located path context_found chunk old_segment =
     (case change_context chunk of
        Some ctx \<Rightarrow>
          if \<not> context_found then ContextNotFound path ctx
          else SegmentNotFound path (if old_segment = [] then rt ''<empty>'' else join_nl old_segment)
      | None \<Rightarrow> SegmentNotFound path (if old_segment = [] then rt ''<empty>'' else join_nl old_segment))"

definition has_anchor :: "patch_chunk \<Rightarrow> bool" where
  "has_anchor chunk \<longleftrightarrow> Option.bind (change_context chunk) semantic_anchor_term \<noteq> None"

text \<open>The position of a hunk that removes or keeps lines.\<close>

definition locate_chunk ::
  "ast_grep \<Rightarrow> path \<Rightarrow> rtext list \<Rightarrow> rtext \<Rightarrow> patch_chunk \<Rightarrow> bool \<Rightarrow> nat \<Rightarrow> patch_error + located" where
  "locate_chunk ag source_path lines path chunk context_found line_index =
     (let (old0, new0) = to_segments chunk;
          (found, old1, new1) =
            (if context_found then seek_segment lines old0 new0 line_index (is_end_of_file chunk)
             else (None, old0, new0))
      in case found of
           Some i \<Rightarrow> Inr (i, old1, new1)
         | None \<Rightarrow>
             if has_anchor chunk
             then (case resolve_semantic_match ag source_path path lines chunk old1 new1 of
                     Inr m \<Rightarrow> Inr m
                   | Inl (SemanticResolutionFailed p a reason) \<Rightarrow>
                       if contains_text reason (rt ''unsupported language'')
                       then (case seek_segment lines old1 new1 0 (is_end_of_file chunk) of
                               (Some i, old2, new2) \<Rightarrow> Inr (i, old2, new2)
                             | (None, old2, new2) \<Rightarrow> Inl (not_located path context_found chunk old2))
                       else Inl (SemanticResolutionFailed p a reason)
                   | Inl err \<Rightarrow> Inl err)
             else Inl (not_located path context_found chunk old1))"

fun replacements_from ::
  "ast_grep \<Rightarrow> path \<Rightarrow> rtext list \<Rightarrow> rtext \<Rightarrow> patch_chunk list \<Rightarrow> nat \<Rightarrow> replacement list
     \<Rightarrow> patch_error + replacement list" where
  "replacements_from ag source_path lines path [] line_index acc = Inr acc"
| "replacements_from ag source_path lines path (chunk # chunks) line_index acc =
     (case context_cursor lines chunk line_index of (context_found, line_index) \<Rightarrow>
        if \<not> has_old_lines chunk
        then (if \<not> context_found \<and> change_context chunk \<noteq> None
              then Inl (ContextNotFound path (the (change_context chunk)))
              else let new_segment = snd (to_segments chunk);
                       insertion_idx = (if change_context chunk \<noteq> None then min line_index (length lines)
                                        else length lines)
                   in replacements_from ag source_path lines path chunks (insertion_idx + length new_segment)
                        (acc @ [(insertion_idx, 0, new_segment)]))
        else case locate_chunk ag source_path lines path chunk context_found line_index of
               Inl err \<Rightarrow> Inl err
             | Inr (start_idx, old, new) \<Rightarrow>
                 replacements_from ag source_path lines path chunks (start_idx + length old)
                   (acc @ [(start_idx, length old, new)]))"

definition compute_replacements ::
  "ast_grep \<Rightarrow> path \<Rightarrow> rtext list \<Rightarrow> patch_chunk list \<Rightarrow> rtext \<Rightarrow> patch_error + replacement list" where
  "compute_replacements ag source_path lines chunks path =
     bindr (replacements_from ag source_path lines path chunks 0 []) (\<lambda>rs. Inr (sort_key fst rs))"

section \<open>Reading and writing lines\<close>

datatype line_ending = LF | Crlf

fun ending_text :: "line_ending \<Rightarrow> rtext" where
  "ending_text LF = [nl]"
| "ending_text Crlf = [cr, nl]"

text \<open>The pieces \<open>read_line\<close> returns, each with its line feed.\<close>

definition split_inclusive :: "rtext \<Rightarrow> rtext list" where
  "split_inclusive s =
     (let ps = split_nl s in map (\<lambda>w. w @ [nl]) (butlast ps) @ (if last ps = [] then [] else [last ps]))"

fun load_line ::
  "rtext \<Rightarrow> rtext list \<times> bool \<times> line_ending \<times> bool \<Rightarrow> rtext list \<times> bool \<times> line_ending \<times> bool" where
  "load_line line (lines, had_trailing, ending, detected) =
     (if line \<noteq> [] \<and> last line = nl
      then (lines @ [strip_cr (strip_cr (butlast line))], True,
            (if \<not> detected \<and> suffix [cr, nl] line then Crlf else ending), True)
      else (lines @ [strip_cr line], False, ending, detected))"

definition loaded_lines :: "rtext \<Rightarrow> rtext list \<times> bool \<times> line_ending" where
  "loaded_lines content =
     (case fold load_line (split_inclusive content) ([], False, LF, False) of
        (lines, had_trailing, ending, _) \<Rightarrow> (lines, had_trailing, ending))"

definition lines_from_content :: "rtext \<Rightarrow> rtext list \<times> bool \<times> line_ending" where
  "lines_from_content content =
     (rlines content, content \<noteq> [] \<and> last content = nl, if contains_text content [cr, nl] then Crlf else LF)"

fun push_line :: "rtext \<Rightarrow> rtext \<Rightarrow> rtext \<times> bool \<Rightarrow> rtext \<times> bool" where
  "push_line ending line (rendered, first) = (rendered @ (if first then [] else ending) @ line, False)"

fun render_loop :: "rtext \<Rightarrow> rtext list \<Rightarrow> replacement list \<Rightarrow> nat \<Rightarrow> rtext \<times> bool \<Rightarrow> rtext" where
  "render_loop ending lines [] current st = fst (fold (push_line ending) (drop current lines) st)"
| "render_loop ending lines ((start, old_len, new) # rs) current st =
     render_loop ending lines rs (start + old_len)
       (fold (push_line ending) new (fold (push_line ending) (drop current (take start lines)) st))"

definition render_patched_content :: "rtext list \<Rightarrow> replacement list \<Rightarrow> bool \<Rightarrow> line_ending \<Rightarrow> rtext" where
  "render_patched_content original_lines replacements ensure_trailing_newline ending =
     (let rendered = render_loop (ending_text ending) original_lines replacements 0 ([], True)
      in if ensure_trailing_newline \<and> \<not> suffix (ending_text ending) rendered
         then rendered @ ending_text ending else rendered)"

definition render_patched_text_from_content ::
  "ast_grep \<Rightarrow> path \<Rightarrow> rtext \<Rightarrow> patch_chunk list \<Rightarrow> rtext \<Rightarrow> patch_error + rtext" where
  "render_patched_text_from_content ag source_path content chunks path =
     (case lines_from_content content of (original_lines, had_trailing_newline, ending) \<Rightarrow>
        bindr (compute_replacements ag source_path original_lines chunks path) (\<lambda>replacements.
          Inr (render_patched_content original_lines replacements
                 (had_trailing_newline \<or> list_ex is_end_of_file chunks) ending)))"

text \<open>The calls of \<open>write_all\<close> that \<open>write_patched_content\<close> makes, in order.\<close>

fun write_line :: "rtext \<Rightarrow> rtext \<Rightarrow> rtext list \<times> bool \<times> bool \<Rightarrow> rtext list \<times> bool \<times> bool" where
  "write_line ending line (writes, first, last_empty) =
     (writes @ (if first then [] else [ending]) @ [line], False, line = [])"

fun write_loop ::
  "rtext \<Rightarrow> rtext list \<Rightarrow> replacement list \<Rightarrow> nat \<Rightarrow> rtext list \<times> bool \<times> bool \<Rightarrow> rtext list \<times> bool \<times> bool" where
  "write_loop ending lines [] current st = fold (write_line ending) (drop current lines) st"
| "write_loop ending lines ((start, old_len, new) # rs) current st =
     write_loop ending lines rs (start + old_len)
       (fold (write_line ending) new (fold (write_line ending) (drop current (take start lines)) st))"

definition patched_writes :: "rtext list \<Rightarrow> replacement list \<Rightarrow> bool \<Rightarrow> line_ending \<Rightarrow> rtext list" where
  "patched_writes original_lines replacements ensure_trailing_newline ending =
     (case write_loop (ending_text ending) original_lines replacements 0 ([], True, False) of
        (writes, first, last_empty) \<Rightarrow>
          writes @ (if ensure_trailing_newline \<and> \<not> last_empty then [ending_text ending] else []))"

end
