(* ===== verification/Patch_Facts.thy ===== *)
theory Patch_Facts
  imports Patch_Apply
begin

text \<open>
  The lemmas on the matcher, on the located replacements and on the two renderers that the properties of the
  patch tool rest on: the passes form a chain of weaker comparisons, every replacement stands on lines that
  match its hunk, and both renderers write the same list of lines.
\<close>

section \<open>The matcher\<close>

lemma matches_at_bound: "matches_at f lines pattern i \<Longrightarrow> pattern \<noteq> [] \<Longrightarrow> i + length pattern \<le> length lines"
  unfolding matches_at_def by (drule arg_cong [of _ _ length]) (cases pattern; simp add: min_def split: if_splits)

lemma map_weaker:
  assumes "map f xs = map f ys" "\<And>x y. f x = f y \<Longrightarrow> g x = g y"
  shows "map g xs = map g ys"
  using assms(1)
proof (induction xs arbitrary: ys)
  case (Cons x xs)
  from Cons.prems obtain y zs where ys: "ys = y # zs" "f x = f y" "map f xs = map f zs" by (cases ys) auto
  from Cons.IH [OF ys(3)] assms(2) [OF ys(2)] ys(1) show ?case by simp
qed simp

lemma rtrim_end_start: "rtrim_end (rtrim_start s) = rtrim_start (rtrim_end s)"
proof (induction s)
  case (Cons c s)
  show ?case
  proof (cases "char_is_whitespace c")
    case True
    have "rtrim_start (rtrim_end (c # s)) = rtrim_start (rtrim_end s)"
    proof (cases "list_all char_is_whitespace s")
      case all: True
      then have "dropWhile char_is_whitespace (rev s) = []" by (simp add: list_all_iff)
      with True show ?thesis
        by (simp add: rtrim_start_def rtrim_end_def dropWhile_append del: dropWhile_eq_Nil_conv)
    next
      case False
      with True show ?thesis
        by (auto simp: rtrim_start_def rtrim_end_def dropWhile_append list_all_iff)
    qed
    then show ?thesis using Cons True by (simp add: rtrim_start_def)
  next
    case False
    then show ?thesis by (auto simp: rtrim_start_def rtrim_end_def dropWhile_append)
  qed
qed (simp add: rtrim_end_def rtrim_start_def)

lemma pass_weaker:
  "x = y \<Longrightarrow> rtrim_end x = rtrim_end y" "rtrim_end x = rtrim_end y \<Longrightarrow> rtrim x = rtrim y"
  "rtrim x = rtrim y \<Longrightarrow> normalise_text x = normalise_text y"
  by (simp_all add: rtrim_def rtrim_end_start normalise_text_def)

lemma pass_normalises: "f \<in> set seek_passes \<Longrightarrow> f x = f y \<Longrightarrow> normalise_text x = normalise_text y"
  by (auto simp: seek_passes_def intro: pass_weaker)

lemma matches_normalised: "f \<in> set seek_passes \<Longrightarrow> matches_at f lines pattern i \<Longrightarrow> matches_at normalise_text lines pattern i"
  unfolding matches_at_def by (erule map_weaker) (rule pass_normalises)

lemma find_upt_Some:
  "List.find P [a ..< b] = Some i \<longleftrightarrow> a \<le> i \<and> i < b \<and> P i \<and> (\<forall>j. a \<le> j \<and> j < i \<longrightarrow> \<not> P j)"
proof (induction "b - a" arbitrary: a)
  case (Suc n)
  then have "a < b" by simp
  then show ?case using Suc(1) [of "Suc a"] Suc(2)
    by (auto simp: upt_conv_Cons Suc_le_eq less_Suc_eq_le intro: le_neq_implies_less)
qed auto

lemma find_upt_None: "List.find P [a ..< b] = None \<longleftrightarrow> (\<forall>j. a \<le> j \<and> j < b \<longrightarrow> \<not> P j)"
  by (auto simp: find_None_iff)

lemma first_pass_Some:
  "first_pass fs lines pattern w = Some i \<Longrightarrow> i \<in> set w \<and> (\<exists>f \<in> set fs. matches_at f lines pattern i)"
  by (induction fs lines pattern w rule: first_pass.induct) (auto split: option.splits simp: find_Some_iff)

lemma first_pass_Nil [simp]: "first_pass fs lines pattern [] = None"
  by (induction fs) simp_all

lemma first_pass_None:
  "first_pass fs lines pattern w = None \<longleftrightarrow> (\<forall>f \<in> set fs. \<forall>i \<in> set w. \<not> matches_at f lines pattern i)"
  by (induction fs lines pattern w rule: first_pass.induct) (auto split: option.splits simp: find_None_iff find_Some_iff)

definition search_window :: "rtext list \<Rightarrow> rtext list \<Rightarrow> nat \<Rightarrow> bool \<Rightarrow> nat \<Rightarrow> bool" where
  "search_window lines pattern start eof j \<longleftrightarrow>
     j + length pattern \<le> length lines \<and> (if eof then j + length pattern = length lines else start \<le> j)"

lemma seek_window:
  assumes "pattern \<noteq> []"
  obtains w where "seek lines pattern start eof = first_pass seek_passes lines pattern w"
    "set w = {j. search_window lines pattern start eof j}"
proof (cases "length lines < length pattern")
  case True
  then show ?thesis using that [of "[]"] assms by (auto simp: seek_def search_window_def first_pass_None)
next
  case False
  define search_start where "search_start = (if eof then length lines - length pattern else start)"
  have "seek lines pattern start eof
          = first_pass seek_passes lines pattern [search_start ..< Suc (length lines - length pattern)]"
    using False assms by (simp add: seek_def search_start_def Let_def)
  moreover have "set [search_start ..< Suc (length lines - length pattern)]
                   = {j. search_window lines pattern start eof j}"
    using False by (auto simp: search_start_def search_window_def simp del: upt_Suc)
  ultimately show ?thesis by (rule that)
qed

lemma seek_Some:
  assumes "seek lines pattern start eof = Some i" "pattern \<noteq> []"
  shows "search_window lines pattern start eof i" "matches_at normalise_text lines pattern i"
proof -
  from assms obtain w where "first_pass seek_passes lines pattern w = Some i"
    "set w = {j. search_window lines pattern start eof j}" by (metis seek_window)
  then show "search_window lines pattern start eof i" "matches_at normalise_text lines pattern i"
    using first_pass_Some matches_normalised by (fastforce+)
qed

lemma seek_None:
  assumes "pattern \<noteq> []"
  shows "seek lines pattern start eof = None \<longleftrightarrow>
    (\<forall>j. search_window lines pattern start eof j \<longrightarrow> \<not> matches_at normalise_text lines pattern j)"
proof -
  obtain w where w: "seek lines pattern start eof = first_pass seek_passes lines pattern w"
    "set w = {j. search_window lines pattern start eof j}" by (rule seek_window [OF assms])
  have "normalise_text \<in> set seek_passes" by (simp add: seek_passes_def)
  then show ?thesis unfolding w(1) first_pass_None w(2) by (auto dest: matches_normalised)
qed

text \<open>An exact occurrence is preferred to every other, and the first one is taken.\<close>

lemma seek_exact:
  assumes "pattern \<noteq> []" "take (length pattern) (drop i lines) = pattern" "start \<le> i"
    "\<And>j. start \<le> j \<Longrightarrow> j < i \<Longrightarrow> take (length pattern) (drop j lines) \<noteq> pattern"
  shows "seek lines pattern start False = Some i"
proof -
  have b: "i + length pattern \<le> length lines"
    using matches_at_bound [of id lines pattern i] assms(1,2) by (simp add: matches_at_def)
  then have "List.find (matches_at id lines pattern) [start ..< Suc (length lines - length pattern)] = Some i"
    unfolding find_upt_Some using assms by (auto simp: matches_at_def)
  then show ?thesis using assms(1) b unfolding seek_def seek_passes_def Let_def first_pass.simps by auto
qed

section \<open>Located hunks\<close>

text \<open>\<open>ys\<close> is \<open>xs\<close> less some of its trailing blank lines.\<close>

definition blank_cut :: "rtext list \<Rightarrow> rtext list \<Rightarrow> bool" where
  "blank_cut xs ys \<longleftrightarrow> (\<exists>k. xs = ys @ replicate k [])"

lemma blank_cut_refl [simp]: "blank_cut xs xs"
  by (auto simp: blank_cut_def intro: exI [of _ 0])

lemma blank_cut_trans: "blank_cut xs ys \<Longrightarrow> blank_cut ys zs \<Longrightarrow> blank_cut xs zs"
  by (auto simp: blank_cut_def) (metis replicate_add)

lemma blank_cut_butlast: "last_is_empty xs \<Longrightarrow> blank_cut xs (butlast xs)"
  unfolding blank_cut_def last_is_empty_def
  by (rule exI [of _ 1]) (metis One_nat_def append_butlast_last_id replicate_0 replicate_Suc)

definition located_ok :: "rtext list \<Rightarrow> rtext list \<Rightarrow> rtext list \<Rightarrow> located \<Rightarrow> bool" where
  "located_ok lines old new m \<longleftrightarrow>
     (case m of (i, old', new') \<Rightarrow>
        blank_cut old old' \<and> blank_cut new new'
        \<and> (old' = [] \<or> i + length old' \<le> length lines \<and> matches_at normalise_text lines old' i))"

lemma located_ok_cut:
  "located_ok lines old' new' m \<Longrightarrow> blank_cut old old' \<Longrightarrow> blank_cut new new' \<Longrightarrow> located_ok lines old new m"
  by (auto simp: located_ok_def intro: blank_cut_trans)

lemma seek_ok: "seek lines old start eof = Some i \<Longrightarrow> located_ok lines old new (i, old, new)"
  using seek_Some [of lines old start eof i] matches_at_bound by (auto simp: located_ok_def)

lemma seek_segment_ok:
  assumes "seek_segment lines old new start eof = (found, old', new')"
  shows "blank_cut old old'" "blank_cut new new'" "found = Some i \<Longrightarrow> located_ok lines old new (i, old', new')"
proof -
  show c: "blank_cut old old'" "blank_cut new new'"
    using assms by (auto simp: seek_segment_def Let_def split: option.splits if_splits intro: blank_cut_butlast)
  assume "found = Some i"
  with assms have "located_ok lines old' new' (i, old', new')"
    by (auto simp: seek_segment_def Let_def split: option.splits if_splits intro: seek_ok)
  with c show "located_ok lines old new (i, old', new')" by (metis located_ok_cut)
qed

lemma located_ok_window:
  assumes "located_ok (take k (drop s lines)) old new (i, old', new')"
  shows "located_ok lines old new (s + i, old', new')"
proof (cases "old' = []")
  case False
  let ?win = "take k (drop s lines)"
  have b: "i + length old' \<le> length ?win" and m: "matches_at normalise_text ?win old' i"
    using assms False by (simp_all add: located_ok_def)
  have "take (length old') (drop i ?win) = take (length old') (drop (s + i) lines)"
    using b by (simp add: drop_take min_def add.commute split: if_splits)
  with m have "matches_at normalise_text lines old' (s + i)" by (simp add: matches_at_def)
  moreover have "s + (i + length old') \<le> length lines"
    using b False by (cases old') auto
  ultimately show ?thesis using assms by (simp add: located_ok_def add.assoc)
qed (use assms in \<open>simp add: located_ok_def\<close>)

lemma resolve_candidates_ok:
  assumes "\<forall>m \<in> set resolved. located_ok lines old new m"
  shows "\<forall>m \<in> set (resolve_candidates lines old new eof cs resolved). located_ok lines old new m"
  using assms
proof (induction cs arbitrary: resolved)
  case (Cons c cs)
  obtain s e where c: "c = (s, e)" by (cases c)
  let ?win = "take (min (e + 1) (length lines) - s) (drop s lines)"
  obtain found old' new' where f: "seek_segment ?win old new 0 eof = (found, old', new')"
    by (cases "seek_segment ?win old new 0 eof")
  show ?case
  proof (cases found)
    case None
    then show ?thesis using Cons f by (simp add: c Let_def)
  next
    case (Some i)
    then have "located_ok lines old new (s + i, old', new')"
      using seek_segment_ok(3) [OF f] by (blast intro: located_ok_window)
    with Cons.prems have "\<forall>m \<in> set (resolved @ [(s + i, old', new')]). located_ok lines old new m" by auto
    from Cons.IH [OF this] Cons.IH [OF Cons.prems] show ?thesis using f Some by (simp add: c Let_def)
  qed
qed simp

lemma resolve_semantic_match_ok:
  assumes "resolve_semantic_match ag src shown lines ch old new = Inr m"
  shows "located_ok lines old new m"
proof -
  obtain cs where "resolve_candidates lines old new (is_end_of_file ch) cs [] = [m]"
    using assms unfolding resolve_semantic_match_def Let_def
    by (auto simp: result_simps split: option.splits sum.splits if_splits list.splits)
  then show ?thesis using resolve_candidates_ok [of "[]" lines old new "is_end_of_file ch" cs] by simp
qed

lemma locate_chunk_ok:
  assumes "locate_chunk ag src lines path ch ctx k = Inr m"
  shows "located_ok lines (fst (to_segments ch)) (snd (to_segments ch)) m"
proof -
  obtain old0 new0 where seg: "to_segments ch = (old0, new0)" by (cases "to_segments ch")
  obtain found old1 new1 where f:
    "(if ctx then seek_segment lines old0 new0 k (is_end_of_file ch) else (None, old0, new0)) = (found, old1, new1)"
    by (metis prod_cases3)
  then have c: "blank_cut old0 old1" "blank_cut new0 new1"
    using seek_segment_ok(1,2) by (auto split: if_splits)
  show ?thesis
  proof (cases found)
    case (Some i)
    then show ?thesis using assms f seek_segment_ok(3) by (auto simp: locate_chunk_def seg split: if_splits)
  next
    case None
    have "located_ok lines old1 new1 m"
      using assms resolve_semantic_match_ok
      by (auto simp: locate_chunk_def seg f None split: if_splits sum.splits patch_error.splits prod.splits
          option.splits intro: seek_segment_ok(3))
    with c show ?thesis by (simp add: seg located_ok_cut)
  qed
qed

definition replacement_ok :: "rtext list \<Rightarrow> patch_chunk \<Rightarrow> replacement \<Rightarrow> bool" where
  "replacement_ok lines ch r \<longleftrightarrow>
     (case r of (i, n, new) \<Rightarrow>
        \<exists>old. length old = n \<and> located_ok lines (fst (to_segments ch)) (snd (to_segments ch)) (i, old, new))"

lemma no_old_lines: "\<not> has_old_lines ch \<Longrightarrow> fst (to_segments ch) = []"
  by (auto simp: has_old_lines_def to_segments_def list_ex_iff split: patch_line.splits) (metis old_text.simps(2) patch_line.exhaust)

lemma replacements_from_ok:
  assumes "replacements_from ag src lines path chs k acc = Inr rs"
  shows "\<exists>rs'. rs = acc @ rs' \<and> list_all2 (replacement_ok lines) chs rs'"
  using assms
proof (induction chs arbitrary: k acc)
  case (Cons ch chs)
  obtain ctx c where cc: "context_cursor lines ch k = (ctx, c)" by (cases "context_cursor lines ch k")
  show ?case
  proof (cases "has_old_lines ch")
    case False
    then have "replacement_ok lines ch (i, 0, snd (to_segments ch))" for i
      by (simp add: replacement_ok_def located_ok_def no_old_lines)
    with False Cons.prems cc Cons.IH show ?thesis
      by (fastforce simp: Let_def split: if_splits)
  next
    case True
    then obtain i old new where m: "locate_chunk ag src lines path ch ctx c = Inr (i, old, new)"
      using Cons.prems cc by (auto split: sum.splits)
    then have "replacement_ok lines ch (i, length old, new)"
      by (auto simp: replacement_ok_def dest: locate_chunk_ok)
    with True Cons.prems cc Cons.IH m show ?thesis by fastforce
  qed
qed simp

end
