(* ===== verification/Patch_Render.thy ===== *)
theory Patch_Render
  imports Patch_Facts
begin

text \<open>
  What the two renderers of \<^verbatim>\<open>applicator/text.rs\<close> write and what the two readers read: the list of lines
  they both emit, the text of that list, files with uniform line endings, and hunks that stand in the file
  where an edit script says.
\<close>

section \<open>Emitted lines\<close>

fun emitted :: "rtext list \<Rightarrow> replacement list \<Rightarrow> nat \<Rightarrow> rtext list" where
  "emitted lines [] current = drop current lines"
| "emitted lines ((start, old_len, new) # rs) current =
     drop current (take start lines) @ new @ emitted lines rs (start + old_len)"

definition glued :: "rtext \<Rightarrow> bool \<Rightarrow> rtext list \<Rightarrow> rtext" where
  "glued e first ls = (if first then (case ls of [] \<Rightarrow> [] | l # ls' \<Rightarrow> l @ concat (map ((@) e) ls'))
                       else concat (map ((@) e) ls))"

lemma glued_Nil [simp]: "glued e first [] = []"
  by (simp add: glued_def)

lemma glued_Cons: "glued e first (l # ls) = (if first then [] else e) @ l @ glued e False ls"
  by (simp add: glued_def)

lemma glued_append: "glued e first (xs @ ys) = glued e first xs @ glued e (first \<and> xs = []) ys"
  by (cases xs) (auto simp: glued_def)

lemma fold_push_line: "fold (push_line e) ls (acc, first) = (acc @ glued e first ls, first \<and> ls = [])"
  by (induction ls arbitrary: acc first) (simp_all add: glued_Cons)

lemma render_loop_glued:
  "render_loop e lines rs current (acc, first) = acc @ glued e first (emitted lines rs current)"
proof (induction rs arbitrary: current acc first)
  case (Cons r rs)
  then show ?case by (cases r) (simp add: fold_push_line glued_append conj_assoc)
qed (simp add: fold_push_line)

definition written :: "rtext \<Rightarrow> rtext list \<Rightarrow> rtext list \<times> bool \<times> bool \<Rightarrow> rtext \<times> bool \<times> bool" where
  "written e ls st = (case st of (ws, first, le) \<Rightarrow>
     (concat ws @ glued e first ls, first \<and> ls = [], if ls = [] then le else last ls = []))"

definition flat :: "rtext list \<times> bool \<times> bool \<Rightarrow> rtext \<times> bool \<times> bool" where
  "flat st = (case st of (ws, first, le) \<Rightarrow> (concat ws, first, le))"

lemma fold_write_line: "flat (fold (write_line e) ls st) = written e ls st"
proof (induction ls arbitrary: st)
  case (Cons l ls)
  then show ?case by (cases st) (simp add: written_def glued_Cons)
qed (simp add: written_def flat_def split: prod.splits)

lemma written_append: "flat st' = written e xs st \<Longrightarrow> written e ys st' = written e (xs @ ys) st"
  by (cases st; cases st') (auto simp: written_def flat_def glued_append)

lemma write_loop_written: "flat (write_loop e lines rs current st) = written e (emitted lines rs current) st"
proof (induction rs arbitrary: current st)
  case (Cons r rs)
  obtain s n new where r: "r = (s, n, new)" by (cases r)
  then show ?case using Cons fold_write_line written_append by simp
qed (simp add: fold_write_line)

section \<open>The final line ending\<close>

definition no_breaks :: "rtext \<Rightarrow> bool" where
  "no_breaks l \<longleftrightarrow> nl \<notin> set l"

lemma last_not_nl: "nl \<notin> set l \<Longrightarrow> l \<noteq> [] \<Longrightarrow> last l \<noteq> nl"
  using last_in_set by fastforce

lemma glued_ends:
  assumes "list_all no_breaks ls" "e = ending_text le"
  shows "suffix e (glued e True ls) \<longleftrightarrow> 2 \<le> length ls \<and> last ls = []"
proof (cases ls rule: rev_cases)
  case Nil
  then show ?thesis using assms(2) by (cases le) simp_all
next
  case (snoc xs l)
  have g: "glued e True ls = glued e True xs @ (if xs = [] then [] else e) @ l"
    by (simp add: snoc glued_append glued_Cons)
  show ?thesis
  proof (cases "l = []")
    case True
    then have "glued e True ls = glued e True xs @ (if xs = [] then [] else e)" using g by simp
    then show ?thesis using assms(2) True
      by (cases "xs = []"; cases le) (simp_all add: snoc Suc_le_eq suffix_def)
  next
    case False
    then have "last (glued e True ls) \<noteq> nl"
      using g assms(1) False last_not_nl [of l] by (simp add: snoc no_breaks_def)
    then have "\<not> suffix e (glued e True ls)" using assms(2) by (cases le) (auto simp: suffix_def)
    with False show ?thesis by (simp add: snoc)
  qed
qed

text \<open>The two renderers agree except on the single blank line.\<close>

lemma writes_are_render:
  assumes "list_all no_breaks (emitted lines rs 0)" "emitted lines rs 0 \<noteq> [[]] \<or> \<not> ensure"
  shows "concat (patched_writes lines rs ensure le) = render_patched_content lines rs ensure le"
proof -
  let ?e = "ending_text le" and ?L = "emitted lines rs 0"
  obtain ws first lempty where w: "write_loop ?e lines rs 0 ([], True, False) = (ws, first, lempty)"
    by (metis prod_cases3)
  have "flat (ws, first, lempty) = written ?e ?L ([], True, False)" unfolding w [symmetric] by (rule write_loop_written)
  then have c: "concat ws = glued ?e True ?L" "lempty = (?L \<noteq> [] \<and> last ?L = [])"
    by (auto simp: flat_def written_def)
  have "?L \<noteq> [[]] \<Longrightarrow> (?L \<noteq> [] \<and> last ?L = []) \<longleftrightarrow> 2 \<le> length ?L \<and> last ?L = []"
    by (cases ?L; cases "tl ?L") auto
  with c assms(2) glued_ends [OF assms(1) refl, of le] show ?thesis
    by (auto simp: patched_writes_def w render_patched_content_def render_loop_glued)
qed

lemma blank_line_is_dropped:
  assumes "emitted lines rs 0 = [[]]"
  shows "concat (patched_writes lines rs True le) = []"
proof -
  let ?e = "ending_text le"
  obtain ws first lempty where w: "write_loop ?e lines rs 0 ([], True, False) = (ws, first, lempty)"
    by (metis prod_cases3)
  have "flat (ws, first, lempty) = written ?e [[]] ([], True, False)" unfolding w [symmetric] assms [symmetric] by (rule write_loop_written)
  then show ?thesis by (auto simp: flat_def written_def glued_def patched_writes_def w)
qed

section \<open>Files with uniform line endings\<close>

definition uniform_text :: "rtext \<Rightarrow> rtext list \<Rightarrow> rtext \<Rightarrow> rtext" where
  "uniform_text e ls tail = concat (map (\<lambda>l. l @ e) ls) @ tail"

definition clean_line :: "rtext \<Rightarrow> bool" where
  "clean_line l \<longleftrightarrow> nl \<notin> set l \<and> cr \<notin> set l"

lemma split_nl_uniform:
  assumes "list_all clean_line ls" "clean_line tail"
  shows "split_nl (uniform_text (ending_text le) ls tail) = map (\<lambda>l. l @ butlast (ending_text le)) ls @ [tail]"
  using assms
proof (induction ls)
  case (Cons l ls)
  have e: "uniform_text (ending_text le) (l # ls) tail
          = (l @ butlast (ending_text le)) @ nl # uniform_text (ending_text le) ls tail"
    by (cases le) (simp_all add: uniform_text_def)
  have n: "nl \<notin> set (l @ butlast (ending_text le))"
    using Cons.prems by (cases le) (auto simp: clean_line_def nl_def cr_def)
  have "split_nl (uniform_text (ending_text le) ls tail) = map (\<lambda>l. l @ butlast (ending_text le)) ls @ [tail]"
    using Cons by simp
  then show ?case unfolding e split_nl_append [OF n] by simp
qed (simp add: uniform_text_def clean_line_def split_nl_single)

lemma strip_clean [simp]: "clean_line l \<Longrightarrow> strip_cr l = l" "clean_line l \<Longrightarrow> strip_cr (l @ [cr]) = l"
  by (auto simp: strip_cr_def clean_line_def dest: last_in_set)

definition uniform_lines :: "rtext list \<Rightarrow> rtext \<Rightarrow> rtext list" where
  "uniform_lines ls tail = ls @ (if tail = [] then [] else [tail])"

lemma rlines_uniform:
  assumes "list_all clean_line ls" "clean_line tail"
  shows "rlines (uniform_text (ending_text le) ls tail) = uniform_lines ls tail"
proof -
  have "map (strip_cr \<circ> (\<lambda>l. l @ butlast (ending_text le))) ls = ls"
    using assms(1) by (intro map_idI) (cases le; auto simp: list_all_iff)
  then show ?thesis by (simp add: rlines_def split_nl_uniform [OF assms] uniform_lines_def Let_def)
qed

lemma fold_load_line:
  assumes "list_all clean_line ls"
  shows "fold load_line (map (\<lambda>l. l @ ending_text le) ls) (acc, had, e0, d)
     = (acc @ ls, if ls = [] then had else True, if ls = [] \<or> d then e0 else (if le = Crlf then Crlf else e0), d \<or> ls \<noteq> [])"
  using assms
proof (induction ls arbitrary: acc had e0 d)
  case (Cons l ls)
  then have l: "clean_line l" by simp
  have "load_line (l @ ending_text le) (acc, had, e0, d)
          = (acc @ [l], True, if \<not> d \<and> le = Crlf then Crlf else e0, True)"
    using l by (cases le) (auto simp: butlast_append clean_line_def suffix_def)
  note step = this
  have IH: "fold load_line (map (\<lambda>l. l @ ending_text le) ls) (acc', had', e1, d')
     = (acc' @ ls, if ls = [] then had' else True, if ls = [] \<or> d' then e1 else (if le = Crlf then Crlf else e1), d' \<or> ls \<noteq> [])"
    for acc' had' e1 d' using Cons by simp
  show ?case unfolding list.map fold_simps step IH by auto
qed simp

lemma loaded_uniform:
  assumes "list_all clean_line ls" "clean_line tail"
  shows "loaded_lines (uniform_text (ending_text le) ls tail)
           = (uniform_lines ls tail, ls \<noteq> [] \<and> tail = [], if ls = [] then LF else le)"
proof -
  have i: "split_inclusive (uniform_text (ending_text le) ls tail)
          = map (\<lambda>l. l @ ending_text le) ls @ (if tail = [] then [] else [tail])"
  proof -
    have "butlast (ending_text le) @ [nl] = ending_text le" by (cases le) simp_all
    then show ?thesis by (simp add: split_inclusive_def split_nl_uniform [OF assms] Let_def o_def)
  qed
  have t: "tail \<noteq> [] \<Longrightarrow> last tail \<noteq> nl" using assms(2) by (simp add: clean_line_def last_not_nl)
  show ?thesis
    unfolding loaded_lines_def i fold_append comp_apply fold_load_line [OF assms(1)]
    using t assms(2) by (cases le) (auto simp: uniform_lines_def)
qed

lemma contains_text_iff: "contains_text s p \<longleftrightarrow> (\<exists>a b. s = a @ p @ b)"
proof
  show "contains_text s p \<Longrightarrow> \<exists>a b. s = a @ p @ b"
  proof (induction s)
    case (Cons c s)
    then show ?case by (auto simp: prefix_def) (metis append.left_neutral, metis append_Cons)
  qed simp
  have "contains_text (a @ p @ b) p" for a b
  proof (induction a)
    case Nil
    show ?case by (cases "p @ b") (simp_all, metis prefixI)
  qed simp
  then show "\<exists>a b. s = a @ p @ b \<Longrightarrow> contains_text s p" by blast
qed

lemma content_uniform:
  assumes "list_all clean_line ls" "clean_line tail"
  shows "lines_from_content (uniform_text (ending_text le) ls tail)
           = (uniform_lines ls tail, ls \<noteq> [] \<and> tail = [], if ls = [] then LF else le)"
proof -
  let ?t = "uniform_text (ending_text le) ls tail"
  have "contains_text ?t [cr, nl] \<longleftrightarrow> le = Crlf \<and> ls \<noteq> []"
  proof (cases "le = Crlf \<and> ls \<noteq> []")
    case True
    then obtain l ls' where "ls = l # ls'" by (cases ls) auto
    with True have "?t = l @ [cr, nl] @ uniform_text (ending_text le) ls' tail" by (simp add: uniform_text_def)
    with True show ?thesis unfolding contains_text_iff by blast
  next
    case False
    have "cr \<notin> set ?t"
      using False assms by (cases le) (auto simp: uniform_text_def clean_line_def list_all_iff nl_def cr_def)
    then have "\<not> contains_text ?t [cr, nl]" unfolding contains_text_iff by auto
    with False show ?thesis by simp
  qed
  moreover have "?t \<noteq> [] \<and> last ?t = nl \<longleftrightarrow> ls \<noteq> [] \<and> tail = []"
  proof (cases "tail = []")
    case True
    then show ?thesis by (cases ls rule: rev_cases; cases le) (simp_all add: uniform_text_def)
  next
    case False
    then show ?thesis using assms(2) last_not_nl [of tail] by (simp add: uniform_text_def clean_line_def)
  qed
  ultimately show ?thesis
    using rlines_uniform [OF assms, of le] by (cases le) (auto simp: lines_from_content_def simp del: ending_text.simps)
qed

section \<open>Edit scripts\<close>

text \<open>
  A hunk stands at line \<open>pos\<close> for a cursor: its context line, when it has one and it holds no line number,
  occurs at or after the cursor and before \<open>pos\<close>, and its old lines occur at \<open>pos\<close> and nowhere between the
  search start and \<open>pos\<close>. An edit script is a list of hunks with their positions.
\<close>

definition search_start :: "rtext list \<Rightarrow> nat \<Rightarrow> patch_chunk \<Rightarrow> nat \<Rightarrow> bool" where
  "search_start lines cursor ch c \<longleftrightarrow>
     (case change_context ch of
        None \<Rightarrow> c = cursor
      | Some ctx \<Rightarrow> parse_line_number ch = None
          \<and> (\<exists>k. c = Suc k \<and> cursor \<le> k \<and> k < length lines \<and> lines ! k = ctx
                 \<and> (\<forall>j. cursor \<le> j \<and> j < k \<longrightarrow> lines ! j \<noteq> ctx)))"

definition hunk_at :: "rtext list \<Rightarrow> nat \<Rightarrow> patch_chunk \<Rightarrow> nat \<Rightarrow> bool" where
  "hunk_at lines cursor ch pos \<longleftrightarrow>
     (let old = fst (to_segments ch)
      in old \<noteq> [] \<and> \<not> is_end_of_file ch \<and> take (length old) (drop pos lines) = old
         \<and> (\<exists>c. c \<le> pos \<and> search_start lines cursor ch c
               \<and> (\<forall>j. c \<le> j \<and> j < pos \<longrightarrow> take (length old) (drop j lines) \<noteq> old)))"

fun script_at :: "rtext list \<Rightarrow> nat \<Rightarrow> (nat \<times> patch_chunk) list \<Rightarrow> bool" where
  "script_at lines cursor [] \<longleftrightarrow> True"
| "script_at lines cursor ((pos, ch) # s) \<longleftrightarrow>
     hunk_at lines cursor ch pos \<and> script_at lines (pos + length (fst (to_segments ch))) s"

definition script_replacements :: "(nat \<times> patch_chunk) list \<Rightarrow> replacement list" where
  "script_replacements s = map (\<lambda>(pos, ch). (pos, length (fst (to_segments ch)), snd (to_segments ch))) s"

text \<open>The file after the script: the lines between the hunks and the new lines of the hunks.\<close>

fun apply_script :: "rtext list \<Rightarrow> nat \<Rightarrow> (nat \<times> patch_chunk) list \<Rightarrow> rtext list" where
  "apply_script lines current [] = drop current lines"
| "apply_script lines current ((pos, ch) # s) =
     take (pos - current) (drop current lines) @ snd (to_segments ch)
     @ apply_script lines (pos + length (fst (to_segments ch))) s"

lemma emitted_script: "emitted lines (script_replacements s) current = apply_script lines current s"
  by (induction lines current s rule: apply_script.induct) (simp_all add: script_replacements_def drop_take)

lemma has_old_iff: "has_old_lines ch \<longleftrightarrow> fst (to_segments ch) \<noteq> []"
proof -
  have "(case l of Context _ \<Rightarrow> True | Removal _ \<Rightarrow> True | Addition _ \<Rightarrow> False) \<longleftrightarrow> old_text l \<noteq> []" for l
    by (cases l) simp_all
  then show ?thesis by (auto simp: has_old_lines_def to_segments_def list_ex_iff)
qed

lemma search_start_cursor:
  assumes "search_start lines cursor ch c" "change_context ch = None \<longrightarrow> parse_line_number ch = None"
  shows "context_cursor lines ch cursor = (True, c)"
proof (cases "change_context ch")
  case None
  then show ?thesis using assms by (simp add: search_start_def context_cursor_def)
next
  case (Some ctx)
  then obtain k where k: "parse_line_number ch = None" "c = Suc k" "cursor \<le> k" "k < length lines" "lines ! k = ctx"
    "\<And>j. cursor \<le> j \<Longrightarrow> j < k \<Longrightarrow> lines ! j \<noteq> ctx" using assms(1) by (auto simp: search_start_def)
  have e: "take (Suc 0) (drop j lines) = [ctx] \<longleftrightarrow> j < length lines \<and> lines ! j = ctx" for j
    by (cases "j < length lines") (simp_all add: take_Suc_conv_app_nth hd_drop_conv_nth take_Suc)
  have "seek lines [ctx] cursor False = Some k"
    by (rule seek_exact) (use k e in auto)
  then show ?thesis using Some k by (simp add: context_cursor_def)
qed

lemma replacements_script:
  "script_at lines cursor s \<Longrightarrow>
   replacements_from ag src lines path (map snd s) cursor acc = Inr (acc @ script_replacements s)"
proof (induction lines cursor s arbitrary: acc rule: script_at.induct)
  case (2 lines cursor pos ch s)
  let ?old = "fst (to_segments ch)" and ?new = "snd (to_segments ch)"
  obtain c where h: "?old \<noteq> []" "\<not> is_end_of_file ch" "take (length ?old) (drop pos lines) = ?old" "c \<le> pos"
    "search_start lines cursor ch c" "\<And>j. c \<le> j \<Longrightarrow> j < pos \<Longrightarrow> take (length ?old) (drop j lines) \<noteq> ?old"
    using 2(2) by (auto simp: hunk_at_def Let_def)
  have "context_cursor lines ch cursor = (True, c)"
    using h(5) by (rule search_start_cursor) (simp add: parse_line_number_def)
  moreover have "seek_segment lines ?old ?new c False = (Some pos, ?old, ?new)"
    using seek_exact [OF h(1,3,4,6)] by (simp add: seek_segment_def)
  then have "locate_chunk ag src lines path ch True c = Inr (pos, ?old, ?new)"
    using h(2) by (cases "to_segments ch") (simp add: locate_chunk_def)
  ultimately show ?case using 2 h(1)
    by (cases "to_segments ch") (simp add: has_old_iff script_replacements_def)
qed (simp add: script_replacements_def)

lemma script_ordered: "script_at lines cursor s \<Longrightarrow> sorted (map fst s) \<and> (\<forall>p \<in> set s. cursor \<le> fst p)"
proof (induction lines cursor s rule: script_at.induct)
  case (2 lines cursor pos ch s)
  from 2(2) obtain c where "c \<le> pos" "search_start lines cursor ch c" by (auto simp: hunk_at_def Let_def)
  then have "cursor \<le> pos" by (auto simp: search_start_def split: option.splits)
  with 2 show ?case by fastforce
qed simp

lemma compute_script:
  assumes "script_at lines 0 s"
  shows "compute_replacements ag src lines (map snd s) path = Inr (script_replacements s)"
proof -
  have "map fst (script_replacements s) = map fst s" by (auto simp: script_replacements_def)
  then have "sort_key fst (script_replacements s) = script_replacements s"
    using script_ordered [OF assms] by (intro sort_key_id_if_sorted) simp
  then show ?thesis using replacements_script [OF assms, of ag src path "[]"] by (simp add: compute_replacements_def)
qed

lemma script_no_end: "script_at lines cursor s \<Longrightarrow> \<not> list_ex is_end_of_file (map snd s)"
  by (induction lines cursor s rule: script_at.induct) (auto simp: hunk_at_def Let_def)

text \<open>The text of the edited lines, with the final line ending of the file or without one: a blank last line takes the
  place of the final line ending, and an emptied file keeps it.\<close>

definition script_text :: "rtext \<Rightarrow> rtext list \<Rightarrow> bool \<Rightarrow> rtext" where
  "script_text e ls final =
     (if \<not> final then (if ls = [] then [] else uniform_text e (butlast ls) (last ls))
      else if ls = [] then e
      else if 2 \<le> length ls \<and> last ls = [] then uniform_text e (butlast ls) []
      else uniform_text e ls [])"

lemma glued_uniform: "ls \<noteq> [] \<Longrightarrow> glued e True ls = uniform_text e (butlast ls) (last ls)"
proof (induction ls rule: rev_induct)
  case (snoc x xs)
  then show ?case
    by (cases xs rule: rev_cases) (simp_all add: glued_append glued_Cons uniform_text_def butlast_append)
qed simp

lemma render_lines:
  assumes "emitted lines rs 0 = ls" "list_all no_breaks ls"
  shows "render_patched_content lines rs final le = script_text (ending_text le) ls final"
proof -
  let ?e = "ending_text le"
  have u: "uniform_text ?e (butlast ls) (last ls) @ ?e = uniform_text ?e ls []" if "ls \<noteq> []"
  proof -
    have "uniform_text ?e (butlast ls @ [last ls]) [] = uniform_text ?e (butlast ls) (last ls) @ ?e"
      by (simp add: uniform_text_def)
    with that show ?thesis by simp
  qed
  have "\<not> suffix ?e []" by (cases le) simp_all
  then show ?thesis using glued_uniform [of ls ?e] glued_ends [OF assms(2) refl, of le] u assms(1)
    by (auto simp: render_patched_content_def render_loop_glued script_text_def Let_def)
qed

section \<open>The lines a patch can write\<close>

lemma blank_cut_subset: "blank_cut xs ys \<Longrightarrow> set ys \<subseteq> set xs"
  by (auto simp: blank_cut_def)

lemma new_no_breaks:
  assumes "list_all (\<lambda>l. no_breaks (line_text l)) (chunk_lines ch)"
  shows "list_all no_breaks (snd (to_segments ch))"
proof -
  have "x \<in> set (new_text l) \<Longrightarrow> x = line_text l" for x l by (cases l) auto
  with assms show ?thesis by (fastforce simp: to_segments_def list_all_iff)
qed

lemma emitted_no_breaks:
  assumes "list_all no_breaks lines" "\<forall>(i, n, new) \<in> set rs. list_all no_breaks new"
  shows "list_all no_breaks (emitted lines rs current)"
  using assms(2)
proof (induction rs arbitrary: current)
  case Nil
  then show ?case using assms(1) by (auto simp: list_all_iff dest: in_set_dropD)
next
  case (Cons r rs)
  have "list_all no_breaks (drop c (take i lines))" for c i
    using assms(1) by (auto simp: list_all_iff dest!: in_set_dropD in_set_takeD)
  with Cons show ?case by (cases r) simp
qed

lemma computed_no_breaks:
  assumes "compute_replacements ag src lines chunks path = Inr rs"
    "list_all (\<lambda>ch. list_all (\<lambda>l. no_breaks (line_text l)) (chunk_lines ch)) chunks" "r \<in> set rs"
  shows "list_all no_breaks (snd (snd r))"
proof -
  obtain rs' where "replacements_from ag src lines path chunks 0 [] = Inr rs'" "set rs = set rs'"
    using assms(1) by (auto simp: compute_replacements_def result_simps)
  with assms(3) replacements_from_ok [of ag src lines path chunks 0 "[]" rs'] obtain ch
    where "ch \<in> set chunks" "replacement_ok lines ch r"
    by (fastforce simp: list_all2_conv_all_nth in_set_conv_nth)
  then show ?thesis
    using assms(2) new_no_breaks [of ch] blank_cut_subset
    by (cases r) (fastforce simp: replacement_ok_def located_ok_def list_all_iff)
qed

lemma clean_no_breaks: "clean_line l \<Longrightarrow> no_breaks l"
  by (simp add: clean_line_def no_breaks_def)

end
