(* ===== verification/Patch_Theorems.thy ===== *)
theory Patch_Theorems
  imports Patch_Roundtrip Patch_Render
begin

text \<open>The properties of the patch language and of the text a patch produces.\<close>

text \<open>C29: a patch written in the documented form is read back as the operations it was written from: for
  operations whose paths pass the path check and whose lines contain no line break, parsing the printed
  patch gives exactly those operations (contents, move targets, hunk contexts and end-of-file marks included).\<close>

theorem patch_roundtrip:
  assumes "list_all printable ops"
  shows "parse_patch (render_patch ops) = Inr ops"
proof -
  let ?ls = "begin_patch_marker # concat (map render_operation ops) @ [end_patch_marker]"
  have "list_all plain_line (concat (map render_operation ops))"
    using assms plain_render by (fastforce simp: list_all_iff)
  then have lines: "rlines (render_patch ops) = ?ls"
    unfolding render_patch_def
    by (intro rlines_join) (auto simp: list_all_iff plain_line_def marker_codes nl_def cr_def)
  have "render_patch ops = begin_patch_marker @ nl # join_nl (concat (map render_operation ops) @ [end_patch_marker])"
    "join_nl (ws @ [end_patch_marker]) \<noteq> [] \<and> last (join_nl (ws @ [end_patch_marker])) = 104" for ws
    unfolding render_patch_def
    by (simp_all add: join_nl_Cons) (cases "ws = []"; simp add: join_nl_append marker_codes)
  then have trim: "rtrim (render_patch ops) = render_patch ops" "render_patch ops \<noteq> []"
    by (auto intro!: rtrim_id simp: marker_codes join_nl_Cons)
  have "check_patch_boundaries ?ls = Inr ()"
    by (simp add: check_patch_boundaries_def rtrim_id marker_codes)
  then show ?thesis
    using trim lines parse_operations_render [OF assms, of 2 "[]"]
    by (simp add: parse_patch_def normalize_patch_lines_def butlast_append)
qed

lemma patch_roundtrip_witness:
  "parse_patch (render_patch
     [AddFile (rt ''a/b'') (rt ''x'' @ [nl] @ rt ''y'' @ [nl]), DeleteFile (rt ''c''),
      UpdateFile (rt ''d'') (Some (rt ''e''))
        [\<lparr>change_context = Some (rt ''fn f''), chunk_lines = [Context (rt ''*** z''), Removal (rt ''@@''), Addition []],
          is_end_of_file = True\<rparr>]])
   = Inr
     [AddFile (rt ''a/b'') (rt ''x'' @ [nl] @ rt ''y'' @ [nl]), DeleteFile (rt ''c''),
      UpdateFile (rt ''d'') (Some (rt ''e''))
        [\<lparr>change_context = Some (rt ''fn f''), chunk_lines = [Context (rt ''*** z''), Removal (rt ''@@''), Addition []],
          is_end_of_file = True\<rparr>]]"
  by (rule patch_roundtrip)
    (simp add: printable_path_def printable_chunk_def plain_line_def rt_def nl_def cr_def validate_patch_path_def
      utf8_def utf8_char_def components_def segment_component_def Let_def rtrim_id suffix_def char_is_whitespace_def)

text \<open>C30: a patch removes only lines that its hunks name. Of the replacements computed for a file there is one
  per hunk, in ascending order of line; the lines a replacement removes exist in the file and equal the old
  lines of its hunk up to surrounding white space and typographic dashes, quotes and spaces, and what it
  inserts are the hunk's new lines. Only blank lines at the end of a hunk may be left out on either side.
  This holds for the text search and for the structural fallback, whatever the search program prints.\<close>

theorem patch_replaces_named_lines:
  assumes "compute_replacements ag src lines chunks path = Inr rs"
  shows "sorted (map fst rs) \<and> length rs = length chunks
    \<and> (\<forall>r \<in> set rs. \<exists>ch \<in> set chunks. \<exists>old. length old = fst (snd r)
         \<and> blank_cut (fst (to_segments ch)) old \<and> blank_cut (snd (to_segments ch)) (snd (snd r))
         \<and> (old = [] \<or> fst r + length old \<le> length lines
                       \<and> map normalise_text (take (length old) (drop (fst r) lines)) = map normalise_text old))"
proof -
  obtain rs' where rs': "replacements_from ag src lines path chunks 0 [] = Inr rs'" "rs = sort_key fst rs'"
    using assms by (auto simp: compute_replacements_def result_simps)
  then have l: "list_all2 (replacement_ok lines) chunks rs'"
    using replacements_from_ok [of ag src lines path chunks 0 "[]" rs'] by simp
  have "\<exists>ch \<in> set chunks. replacement_ok lines ch r" if "r \<in> set rs" for r
    using that l rs'(2) by (fastforce simp: list_all2_conv_all_nth in_set_conv_nth)
  then show ?thesis
    using list_all2_lengthD [OF l] rs'(2)
    by (fastforce simp: replacement_ok_def located_ok_def matches_at_def)
qed

definition demo_chunk :: patch_chunk where
  "demo_chunk = \<lparr>change_context = None, chunk_lines = [Context (rt ''b''), Removal (rt ''c''), Addition (rt ''d'')],
     is_end_of_file = False\<rparr>"

definition demo_grep :: ast_grep where
  "demo_grep = \<lparr>ag_override = Inr MissingBinary, ag_env = None, ag_managed = [], ag_which = None,
     ag_exists = (\<lambda>_. False), ag_run = (\<lambda>_ _ _. Inl []), ag_json = (\<lambda>_. Inl []), ag_lower = id\<rparr>"

lemmas demo_defs = demo_chunk_def demo_grep_def rt_def to_segments_def

lemma demo_script: "script_at [rt ''a'', rt ''b'', rt ''c''] 0 [(1, demo_chunk)]"
  by (simp add: demo_defs hunk_at_def search_start_def)

definition demo_replacements :: "replacement list" where
  "demo_replacements = [(1, 2, [rt ''b'', rt ''d''])]"

lemma patch_replaces_named_lines_witness:
  "sorted (map fst demo_replacements) \<and> length demo_replacements = length [demo_chunk]
    \<and> (\<exists>old. length old = 2 \<and> blank_cut (fst (to_segments demo_chunk)) old
         \<and> blank_cut (snd (to_segments demo_chunk)) [rt ''b'', rt ''d'']
         \<and> (old = [] \<or> 1 + length old \<le> length [rt ''a'', rt ''b'', rt ''c'']
              \<and> map normalise_text (take (length old) (drop 1 [rt ''a'', rt ''b'', rt ''c'']))
                  = map normalise_text old))"
proof -
  have "compute_replacements demo_grep [] [rt ''a'', rt ''b'', rt ''c''] [demo_chunk] [] = Inr demo_replacements"
    using compute_script [OF demo_script, of demo_grep "[]" "[]"]
    by (simp add: script_replacements_def demo_replacements_def demo_defs)
  from patch_replaces_named_lines [OF this] show ?thesis by (simp add: demo_replacements_def)
qed

text \<open>C28: applying an edit script gives the edited file. When the lines of a file hold no stray carriage return and all end
  the same way (the last one may have no line ending), and every hunk of a patch, its lines without breaks and none marked
  end-of-file, has its old lines at the place the script
  says and nowhere earlier from the cursor on (after its context line, if it has one), the rendered text is the file with
  the lines between the hunks unchanged and each hunk's old lines replaced by its new ones, in the file's own line
  ending. When the file has a final line ending the result keeps it, but a blank last line of the result is taken for
  it and is lost, and a file with no line left keeps one line ending.\<close>

theorem patch_applies_edit_script:
  assumes "list_all clean_line ls" "clean_line tail" "script_at (uniform_lines ls tail) 0 s"
    "list_all (\<lambda>ch. list_all (\<lambda>l. no_breaks (line_text l)) (chunk_lines ch)) (map snd s)"
  shows "render_patched_text_from_content ag src (uniform_text (ending_text le) ls tail) (map snd s) path
           = Inr (script_text (ending_text (if ls = [] then LF else le)) (apply_script (uniform_lines ls tail) 0 s)
                    (ls \<noteq> [] \<and> tail = []))"
proof -
  let ?rs = "script_replacements s" and ?lines = "uniform_lines ls tail"
  have c: "compute_replacements ag src ?lines (map snd s) path = Inr ?rs" by (rule compute_script [OF assms(3)])
  have "list_all no_breaks ?lines" using assms(1,2) by (auto simp: uniform_lines_def list_all_iff clean_no_breaks)
  then have "list_all no_breaks (emitted ?lines ?rs 0)"
    using computed_no_breaks [OF c assms(4)] by (intro emitted_no_breaks) auto
  then have "list_all no_breaks (apply_script ?lines 0 s)" by (simp add: emitted_script)
  from render_lines [OF emitted_script this] show ?thesis
    using script_no_end [OF assms(3)]
    by (simp add: render_patched_text_from_content_def content_uniform [OF assms(1,2)] c)
qed

lemma patch_applies_edit_script_witness:
  "render_patched_text_from_content demo_grep [] (uniform_text (ending_text Crlf) [rt ''a'', rt ''b'', rt ''c''] [])
     (map snd [(1::nat, demo_chunk)]) []
   = Inr (uniform_text (ending_text Crlf) [rt ''a'', rt ''b'', rt ''d''] [])
   \<and> render_patched_text_from_content demo_grep [] (uniform_text (ending_text LF) [rt ''b'', rt ''c'', []] [])
     (map snd [(0::nat, demo_chunk)]) []
   = Inr (uniform_text (ending_text LF) [rt ''b'', rt ''d''] [])"
proof -
  have s: "script_at (uniform_lines [rt ''a'', rt ''b'', rt ''c''] []) 0 [(1, demo_chunk)]"
    "script_at (uniform_lines [rt ''b'', rt ''c'', []] []) 0 [(0, demo_chunk)]"
    using demo_script by (simp_all add: uniform_lines_def) (simp add: demo_defs hunk_at_def search_start_def)
  have c: "list_all clean_line [rt ''a'', rt ''b'', rt ''c'']" "list_all clean_line [rt ''b'', rt ''c'', []]" "clean_line []"
    and n: "list_all (\<lambda>ch. list_all (\<lambda>l. no_breaks (line_text l)) (chunk_lines ch)) (map snd [(k::nat, demo_chunk)])" for k
    by (simp_all add: demo_defs clean_line_def no_breaks_def nl_def cr_def)
  have e: "script_text e (apply_script (uniform_lines [rt ''a'', rt ''b'', rt ''c''] []) 0 [(1, demo_chunk)]) True
      = uniform_text e [rt ''a'', rt ''b'', rt ''d''] []"
    "script_text e (apply_script (uniform_lines [rt ''b'', rt ''c'', []] []) 0 [(0, demo_chunk)]) True
      = uniform_text e [rt ''b'', rt ''d''] []" for e
    by (simp_all add: demo_defs script_text_def uniform_lines_def)
  show ?thesis
    using patch_applies_edit_script [OF c(1,3) s(1) n [of 1], of demo_grep "[]" Crlf "[]"]
      patch_applies_edit_script [OF c(2,3) s(2) n [of 0], of demo_grep "[]" LF "[]"] e by simp
qed

text \<open>C31: the preview is what is written. For a file whose lines hold no stray carriage return and all end the same way
  (the last one may have no line ending), and hunks whose lines hold no break, the text rendered for display is, byte for byte, the text that the update writes from the lines it reads
  from disk: the reader, the renderer and the trailing-newline rule of the two code paths agree. The one exception is a
  result of a single blank line that needs a final line ending: the preview is that line ending, the file is written
  empty.\<close>

theorem patch_preview_is_written:
  assumes "list_all clean_line ls" "clean_line tail"
    "list_all (\<lambda>ch. list_all (\<lambda>l. no_breaks (line_text l)) (chunk_lines ch)) chunks"
    "render_patched_text_from_content ag src (uniform_text (ending_text le) ls tail) chunks path = Inr text"
  shows "\<exists>lines had ending rs. loaded_lines (uniform_text (ending_text le) ls tail) = (lines, had, ending)
    \<and> compute_replacements ag src lines chunks path = Inr rs
    \<and> concat (patched_writes lines rs (had \<or> list_ex is_end_of_file chunks) ending)
        = (if (had \<or> list_ex is_end_of_file chunks) \<and> emitted lines rs 0 = [[]] then [] else text)"
proof -
  let ?lines = "uniform_lines ls tail" and ?le = "if ls = [] then LF else le"
  let ?ensure = "(ls \<noteq> [] \<and> tail = []) \<or> list_ex is_end_of_file chunks"
  obtain rs where c: "compute_replacements ag src ?lines chunks path = Inr rs"
    and t: "render_patched_content ?lines rs ?ensure ?le = text"
    using assms(4) unfolding render_patched_text_from_content_def content_uniform [OF assms(1,2)]
    by (auto simp: result_simps)
  have "list_all no_breaks ?lines"
    using assms(1,2) by (auto simp: uniform_lines_def list_all_iff clean_no_breaks)
  then have n: "list_all no_breaks (emitted ?lines rs 0)"
    using computed_no_breaks [OF c assms(3)] by (intro emitted_no_breaks) auto
  have "concat (patched_writes ?lines rs ?ensure ?le)
      = (if ?ensure \<and> emitted ?lines rs 0 = [[]] then [] else text)"
  proof (cases "?ensure \<and> emitted ?lines rs 0 = [[]]")
    case True
    then show ?thesis using blank_line_is_dropped [of ?lines rs ?le] by simp
  next
    case False
    with writes_are_render [OF n, of ?ensure ?le] t show ?thesis by auto
  qed
  with c loaded_uniform [OF assms(1,2), of le] show ?thesis by auto
qed

lemma patch_preview_is_written_witness:
  "\<exists>lines had ending rs. loaded_lines (uniform_text (ending_text LF) [rt ''a'', rt ''b'', rt ''c''] []) = (lines, had, ending)
    \<and> compute_replacements demo_grep [] lines [demo_chunk] [] = Inr rs
    \<and> concat (patched_writes lines rs (had \<or> list_ex is_end_of_file [demo_chunk]) ending)
        = uniform_text (ending_text LF) [rt ''a'', rt ''b'', rt ''d''] []"
proof -
  have "apply_script [rt ''a'', rt ''b'', rt ''c''] 0 [(1, demo_chunk)] = [rt ''a'', rt ''b'', rt ''d'']"
    "emitted [rt ''a'', rt ''b'', rt ''c''] (script_replacements [(1, demo_chunk)]) 0 = [rt ''a'', rt ''b'', rt ''d'']"
    by (simp_all add: demo_defs script_replacements_def)
  note e = this(2)
  have "list_all no_breaks [rt ''a'', rt ''b'', rt ''d'']" by (simp add: no_breaks_def rt_def nl_def)
  moreover have "list_all clean_line [rt ''a'', rt ''b'', rt ''c'']"
    by (simp add: clean_line_def rt_def nl_def cr_def)
  ultimately have "render_patched_text_from_content demo_grep []
      (uniform_text (ending_text LF) [rt ''a'', rt ''b'', rt ''c''] []) [demo_chunk] []
      = Inr (uniform_text (ending_text LF) [rt ''a'', rt ''b'', rt ''d''] [])"
    using compute_script [OF demo_script, of demo_grep "[]" "[]"] content_uniform [of "[rt ''a'', rt ''b'', rt ''c'']" "[]" LF]
      render_lines [of "[rt ''a'', rt ''b'', rt ''c'']" "script_replacements [(1, demo_chunk)]" "[rt ''a'', rt ''b'', rt ''d'']" True LF] e
    by (simp add: render_patched_text_from_content_def uniform_lines_def clean_line_def rt_def script_text_def)
  from patch_preview_is_written [OF _ _ _ this]
  have "\<exists>lines had ending rs. loaded_lines (uniform_text (ending_text LF) [rt ''a'', rt ''b'', rt ''c''] []) = (lines, had, ending)
    \<and> compute_replacements demo_grep [] lines [demo_chunk] [] = Inr rs
    \<and> concat (patched_writes lines rs (had \<or> list_ex is_end_of_file [demo_chunk]) ending)
        = (if (had \<or> list_ex is_end_of_file [demo_chunk]) \<and> emitted lines rs 0 = [[]] then []
           else uniform_text (ending_text LF) [rt ''a'', rt ''b'', rt ''d''] [])"
    by (simp add: demo_defs clean_line_def no_breaks_def nl_def cr_def)
  moreover have "loaded_lines (uniform_text (ending_text LF) [rt ''a'', rt ''b'', rt ''c''] [])
      = ([rt ''a'', rt ''b'', rt ''c''], True, LF)"
    using loaded_uniform [of "[rt ''a'', rt ''b'', rt ''c'']" "[]" LF]
    by (simp add: clean_line_def rt_def nl_def cr_def uniform_lines_def)
  moreover note compute_script [OF demo_script, of demo_grep "[]" "[]"] e
  ultimately show ?thesis by auto
qed

text \<open>With mixed line endings the two code paths differ: the preview takes the carriage return anywhere in the file, the
  writer the ending of the first line.\<close>

lemma mixed_endings_differ:
  "let content = rt ''b'' @ [nl] @ rt ''c'' @ [cr, nl]
   in render_patched_text_from_content demo_grep [] content [demo_chunk] []
        = Inr (rt ''b'' @ [cr, nl] @ rt ''d'' @ [cr, nl])
    \<and> (case loaded_lines content of (lines, had, ending) \<Rightarrow>
         map_sum id (\<lambda>rs. concat (patched_writes lines rs had ending)) (compute_replacements demo_grep [] lines [demo_chunk] [])
           = Inr (rt ''b'' @ [nl] @ rt ''d'' @ [nl]))"
  by code_simp

end
