(* ===== verification/Patch_Store.thy ===== *)
theory Patch_Store
  imports Patch_Apply
begin

text \<open>
  The transaction of the patch tool on the files of the workspace, \<^verbatim>\<open>tools/editing/patch/applicator/\<close>: the
  atomic writer and the backups of \<^verbatim>\<open>io.rs\<close>, the operations, the effects and their undoing of \<^verbatim>\<open>lifecycle.rs\<close>,
  the journal, the planner, the runner and the entry point.

  The file system maps a path to a file (contents and mode) or a directory; symbolic links are seen by the
  containment check only, which reads its own \<open>filesystem\<close>. Every call of \<^verbatim>\<open>tokio::fs\<close> is one \<open>syscall\<close>: it
  fails when the environment says that call number does (\<open>ev_fault\<close>) and then changes nothing, and otherwise
  with the error the system gives for the state it finds. The buffer between a writer and its file is not
  modelled: a write reaches the temporary file at once. The clock readings that name temporary files are
  numbered too.
\<close>

section \<open>The file system\<close>

datatype file_bytes = Utf8 rtext | Undecodable nat

datatype node = FileNode file_bytes nat | DirNode

type_synonym nodes = "path \<Rightarrow> node option"

record store =
  st_nodes :: nodes
  st_calls :: nat
  st_stamps :: nat

record io_env =
  ev_fault :: "nat \<Rightarrow> bool"
  ev_now :: "nat \<Rightarrow> nat option"  \<comment> \<open>nanoseconds since the epoch, unless the clock is before it\<close>
  ev_pid :: nat
  ev_mode :: nat  \<comment> \<open>the mode of a new file\<close>

type_synonym ('e, 'a) io = "io_env \<Rightarrow> store \<Rightarrow> ('e + 'a) \<times> store"

definition io_return :: "'a \<Rightarrow> ('e, 'a) io" where
  "io_return x = (\<lambda>e s. (Inr x, s))"

definition io_fail :: "'e \<Rightarrow> ('e, 'a) io" where
  "io_fail err = (\<lambda>e s. (Inl err, s))"

definition io_then :: "('e, 'a) io \<Rightarrow> ('a \<Rightarrow> ('e, 'b) io) \<Rightarrow> ('e, 'b) io" where
  "io_then m f = (\<lambda>e s. case m e s of (Inl err, s') \<Rightarrow> (Inl err, s') | (Inr x, s') \<Rightarrow> f x e s')"

text \<open>\<open>io_match m f g\<close> goes on with \<open>f\<close> after success and with \<open>g\<close> after an error.\<close>

definition io_match :: "('d, 'a) io \<Rightarrow> ('a \<Rightarrow> ('e, 'b) io) \<Rightarrow> ('d \<Rightarrow> ('e, 'b) io) \<Rightarrow> ('e, 'b) io" where
  "io_match m f g = (\<lambda>e s. case m e s of (Inl err, s') \<Rightarrow> g err e s' | (Inr x, s') \<Rightarrow> f x e s')"

definition io_action :: "string \<Rightarrow> path \<Rightarrow> (io_kind, 'a) io \<Rightarrow> (patch_error, 'a) io" where
  "io_action action path m = io_match m io_return (\<lambda>kind. io_fail (Io action path kind))"

definition syscall :: "(io_env \<Rightarrow> nodes \<Rightarrow> io_kind + ('a \<times> nodes)) \<Rightarrow> (io_kind, 'a) io" where
  "syscall f = (\<lambda>e s.
     let s' = s\<lparr>st_calls := Suc (st_calls s)\<rparr>
     in if ev_fault e (st_calls s) then (Inl OtherError, s')
        else case f e (st_nodes s) of
               Inl kind \<Rightarrow> (Inl kind, s')
             | Inr (x, ns) \<Rightarrow> (Inr x, s'\<lparr>st_nodes := ns\<rparr>))"

fun is_file :: "node option \<Rightarrow> bool" where
  "is_file (Some (FileNode c m)) = True"
| "is_file _ = False"

definition file_above :: "nodes \<Rightarrow> path \<Rightarrow> bool" where
  "file_above ns p \<longleftrightarrow> list_ex (\<lambda>k. is_file (ns (take k p))) [1 ..< length p]"

definition missing_kind :: "nodes \<Rightarrow> path \<Rightarrow> io_kind" where
  "missing_kind ns p = (if file_above ns p then NotADirectory else NotFound)"

definition sys_metadata :: "path \<Rightarrow> (io_kind, node) io" where
  "sys_metadata p = syscall (\<lambda>e ns. case ns p of Some n \<Rightarrow> Inr (n, ns) | None \<Rightarrow> Inl (missing_kind ns p))"

definition has_entries :: "nodes \<Rightarrow> path \<Rightarrow> bool" where
  "has_entries ns p \<longleftrightarrow> (\<exists>c. ns (p @ [c]) \<noteq> None)"

definition move_entry :: "path \<Rightarrow> path \<Rightarrow> nodes \<Rightarrow> nodes" where
  "move_entry a b ns = (\<lambda>q. if prefix b q then ns (a @ drop (length b) q) else if prefix a q then None else ns q)"

definition rename_entry :: "path \<Rightarrow> path \<Rightarrow> nodes \<Rightarrow> io_kind + (unit \<times> nodes)" where
  "rename_entry a b ns =
     (case ns a of
        None \<Rightarrow> Inl (missing_kind ns a)
      | Some n \<Rightarrow>
          if ns (butlast b) \<noteq> Some DirNode then Inl (missing_kind ns b)
          else if a = b then Inr ((), ns)
          else case n of
                 FileNode _ _ \<Rightarrow>
                   if ns b = Some DirNode then Inl IsADirectory else Inr ((), move_entry a b ns)
               | DirNode \<Rightarrow>
                   if prefix a b then Inl OtherError
                   else if is_file (ns b) then Inl NotADirectory
                   else if ns b = Some DirNode \<and> has_entries ns b then Inl DirectoryNotEmpty
                   else Inr ((), move_entry a b ns))"

definition sys_rename :: "path \<Rightarrow> path \<Rightarrow> (io_kind, unit) io" where
  "sys_rename a b = syscall (\<lambda>e. rename_entry a b)"

definition sys_remove_file :: "path \<Rightarrow> (io_kind, unit) io" where
  "sys_remove_file p = syscall (\<lambda>e ns.
     case ns p of
       None \<Rightarrow> Inl (missing_kind ns p)
     | Some DirNode \<Rightarrow> Inl IsADirectory
     | Some (FileNode _ _) \<Rightarrow> Inr ((), ns(p := None)))"

definition sys_remove_dir_all :: "path \<Rightarrow> (io_kind, unit) io" where
  "sys_remove_dir_all p = syscall (\<lambda>e ns.
     case ns p of
       None \<Rightarrow> Inl (missing_kind ns p)
     | Some (FileNode _ _) \<Rightarrow> Inl NotADirectory
     | Some DirNode \<Rightarrow> Inr ((), \<lambda>q. if prefix p q then None else ns q))"

definition with_dirs :: "path \<Rightarrow> nodes \<Rightarrow> nodes" where
  "with_dirs p ns = (\<lambda>q. if ns q = None \<and> q \<noteq> [] \<and> prefix q p then Some DirNode else ns q)"

definition sys_create_dir_all :: "path \<Rightarrow> (io_kind, unit) io" where
  "sys_create_dir_all p = syscall (\<lambda>e ns.
     if is_file (ns p) then Inl AlreadyExists
     else if file_above ns p then Inl NotADirectory
     else Inr ((), with_dirs p ns))"

text \<open>\<open>File::create\<close>: an existing file is truncated and keeps its mode.\<close>

definition sys_create :: "path \<Rightarrow> (io_kind, unit) io" where
  "sys_create p = syscall (\<lambda>e ns.
     if ns (butlast p) \<noteq> Some DirNode then Inl (missing_kind ns p)
     else case ns p of
            Some DirNode \<Rightarrow> Inl IsADirectory
          | Some (FileNode _ m) \<Rightarrow> Inr ((), ns(p \<mapsto> FileNode (Utf8 []) m))
          | None \<Rightarrow> Inr ((), ns(p \<mapsto> FileNode (Utf8 []) (ev_mode e))))"

definition sys_write :: "path \<Rightarrow> rtext \<Rightarrow> (io_kind, unit) io" where
  "sys_write p t = syscall (\<lambda>e ns.
     case ns p of
       Some (FileNode (Utf8 c) m) \<Rightarrow> Inr ((), ns(p \<mapsto> FileNode (Utf8 (c @ t)) m))
     | _ \<Rightarrow> Inl OtherError)"

definition sys_flush :: "(io_kind, unit) io" where
  "sys_flush = syscall (\<lambda>e ns. Inr ((), ns))"

definition sys_set_mode :: "path \<Rightarrow> nat \<Rightarrow> (io_kind, unit) io" where
  "sys_set_mode p m = syscall (\<lambda>e ns.
     case ns p of
       None \<Rightarrow> Inl (missing_kind ns p)
     | Some (FileNode c _) \<Rightarrow> Inr ((), ns(p \<mapsto> FileNode c m))
     | Some DirNode \<Rightarrow> Inr ((), ns))"

definition sys_open :: "path \<Rightarrow> (io_kind, node) io" where
  "sys_open p = syscall (\<lambda>e ns. case ns p of Some n \<Rightarrow> Inr (n, ns) | None \<Rightarrow> Inl (missing_kind ns p))"

text \<open>One \<open>read_line\<close> of an open file.\<close>

definition sys_read_line :: "node \<Rightarrow> (io_kind, unit) io" where
  "sys_read_line n = syscall (\<lambda>e ns.
     case n of
       DirNode \<Rightarrow> Inl IsADirectory
     | FileNode (Undecodable _) _ \<Rightarrow> Inl OtherError
     | FileNode (Utf8 _) _ \<Rightarrow> Inr ((), ns))"

section \<open>Temporary files and backups\<close>

definition temp_name :: "string \<Rightarrow> nat \<Rightarrow> nat \<Rightarrow> string" where
  "temp_name name pid timestamp =
     ''.'' @ name @ ''.'' @ show_nat pid @ ''.'' @ show_nat timestamp @ ''.tmp''"

definition temp_path :: "path \<Rightarrow> nat \<Rightarrow> nat \<Rightarrow> path" where
  "temp_path target pid timestamp =
     (let parent = (case path_parent target of Some q \<Rightarrow> q | None \<Rightarrow> [CurDir]);
          name = (case path_file_name target of
                    Some n \<Rightarrow> if to_str n \<noteq> None then n else ''vtcode-patch''
                  | None \<Rightarrow> ''vtcode-patch'')
      in parent @ [Normal (temp_name name pid timestamp)])"

definition temporary_path :: "path \<Rightarrow> (patch_error, path) io" where
  "temporary_path target = (\<lambda>e s.
     let s' = s\<lparr>st_stamps := Suc (st_stamps s)\<rparr>
     in case ev_now e (st_stamps s) of
          None \<Rightarrow> (Inl (TempPath target), s')
        | Some timestamp \<Rightarrow> (Inr (temp_path target (ev_pid e) timestamp), s'))"

record atomic_writer =
  aw_path :: path
  aw_temp_path :: path
  aw_permissions :: "nat option"

definition writer_create :: "path \<Rightarrow> nat option \<Rightarrow> (patch_error, atomic_writer) io" where
  "writer_create path permissions =
     io_then (case path_parent path of
                Some parent \<Rightarrow> io_action ''create directories'' parent (sys_create_dir_all parent)
              | None \<Rightarrow> io_return ())
       (\<lambda>_. io_then (temporary_path path)
       (\<lambda>temp. io_then (io_action ''create'' temp (sys_create temp))
       (\<lambda>_. io_return \<lparr>aw_path = path, aw_temp_path = temp, aw_permissions = permissions\<rparr>)))"

definition write_all :: "atomic_writer \<Rightarrow> rtext \<Rightarrow> (patch_error, unit) io" where
  "write_all w bytes = io_action ''write'' (aw_temp_path w) (sys_write (aw_temp_path w) bytes)"

fun write_each :: "atomic_writer \<Rightarrow> rtext list \<Rightarrow> (patch_error, unit) io" where
  "write_each w [] = io_return ()"
| "write_each w (t # ts) = io_then (write_all w t) (\<lambda>_. write_each w ts)"

definition writer_commit :: "atomic_writer \<Rightarrow> (patch_error, unit) io" where
  "writer_commit w =
     io_then (io_action ''flush'' (aw_temp_path w) sys_flush)
       (\<lambda>_. io_then (case aw_permissions w of
                      Some m \<Rightarrow> io_action ''set permissions'' (aw_temp_path w) (sys_set_mode (aw_temp_path w) m)
                    | None \<Rightarrow> io_return ())
       (\<lambda>_. io_match (sys_rename (aw_temp_path w) (aw_path w)) io_return
              (\<lambda>kind. let failed = io_fail (Io ''rename'' (aw_path w) kind)
                      in io_match (sys_remove_file (aw_temp_path w)) (\<lambda>_. failed) (\<lambda>_. failed))))"

definition writer_rollback :: "atomic_writer \<Rightarrow> (patch_error, unit) io" where
  "writer_rollback w =
     io_match (sys_remove_file (aw_temp_path w)) io_return
       (\<lambda>kind. if kind = NotFound then io_return () else io_fail (Io ''delete'' (aw_temp_path w) kind))"

datatype backup_kind = BackupFile | BackupDirectory

record backup_entry =
  bk_path :: path
  bk_kind :: backup_kind

definition backup_create :: "path \<Rightarrow> backup_kind \<Rightarrow> (patch_error, backup_entry) io" where
  "backup_create target kind =
     io_then (temporary_path target)
       (\<lambda>backup_path. io_then (io_action ''rename'' target (sys_rename target backup_path))
       (\<lambda>_. io_return \<lparr>bk_path = backup_path, bk_kind = kind\<rparr>))"

definition backup_remove :: "backup_entry \<Rightarrow> (patch_error, unit) io" where
  "backup_remove b =
     io_match (case bk_kind b of BackupFile \<Rightarrow> sys_remove_file (bk_path b)
                               | BackupDirectory \<Rightarrow> sys_remove_dir_all (bk_path b))
       io_return
       (\<lambda>kind. if kind = NotFound then io_return () else io_fail (Io ''delete'' (bk_path b) kind))"

definition remove_existing_entry :: "path \<Rightarrow> (patch_error, unit) io" where
  "remove_existing_entry p =
     io_match (sys_metadata p)
       (\<lambda>n. io_action ''delete'' p (if n = DirNode then sys_remove_dir_all p else sys_remove_file p))
       (\<lambda>kind. if kind = NotFound then io_return () else io_fail (Io ''inspect'' p kind))"

definition backup_restore :: "backup_entry \<Rightarrow> path \<Rightarrow> (patch_error, unit) io" where
  "backup_restore b destination =
     io_match (sys_rename (bk_path b) destination) io_return
       (\<lambda>kind. if kind = AlreadyExists
               then io_then (remove_existing_entry destination)
                      (\<lambda>_. io_action ''rename'' destination (sys_rename (bk_path b) destination))
               else io_fail (Io ''restore'' destination kind))"

definition snapshot_for :: "path \<Rightarrow> (patch_error, backup_entry option) io" where
  "snapshot_for p =
     io_match (sys_metadata p)
       (\<lambda>n. io_then (backup_create p (if n = DirNode then BackupDirectory else BackupFile)) (\<lambda>b. io_return (Some b)))
       (\<lambda>kind. if kind = NotFound then io_return None else io_fail (Io ''inspect'' p kind))"

section \<open>Effects, journal and operations\<close>

datatype operation_state =
    AddedFile path
  | DeletedFile path backup_entry
  | UpdatedFile path path backup_entry

datatype operation_effect = Applied operation_state rtext | Skipped rtext

fun commit_state :: "operation_state \<Rightarrow> (patch_error, unit) io" where
  "commit_state (AddedFile p) = io_return ()"
| "commit_state (DeletedFile p b) = backup_remove b"
| "commit_state (UpdatedFile p q b) = backup_remove b"

fun rollback_state :: "operation_state \<Rightarrow> (patch_error, unit) io" where
  "rollback_state (AddedFile p) = remove_existing_entry p"
| "rollback_state (DeletedFile p b) = backup_restore b p"
| "rollback_state (UpdatedFile original written_path b) =
     io_then (remove_existing_entry written_path) (\<lambda>_. backup_restore b original)"

text \<open>The journal is the list of recorded states, the last one first.\<close>

fun rollback_all :: "operation_state list \<Rightarrow> patch_error option \<Rightarrow> (patch_error, unit) io" where
  "rollback_all [] first = (case first of Some err \<Rightarrow> io_fail err | None \<Rightarrow> io_return ())"
| "rollback_all (st # sts) first =
     io_match (rollback_state st) (\<lambda>_. rollback_all sts first)
       (\<lambda>err. rollback_all sts (case first of Some f \<Rightarrow> Some f | None \<Rightarrow> Some err))"

fun commit_all :: "operation_state list \<Rightarrow> (patch_error, unit) io" where
  "commit_all [] = io_return ()"
| "commit_all (st # sts) = io_then (commit_state st) (\<lambda>_. commit_all sts)"

fun read_lines :: "node \<Rightarrow> nat \<Rightarrow> (io_kind, unit) io" where
  "read_lines n 0 = sys_read_line n"
| "read_lines n (Suc k) = io_then (sys_read_line n) (\<lambda>_. read_lines n k)"

fun node_text :: "node \<Rightarrow> rtext" where
  "node_text (FileNode (Utf8 t) _) = t"
| "node_text _ = []"

text \<open>\<open>Path::display\<close> of a path whose bytes are UTF-8.\<close>

definition shown_path :: "path \<Rightarrow> rtext" where
  "shown_path p = (case to_str (display_path p) of Some t \<Rightarrow> t | None \<Rightarrow> map of_char (display_path p))"

definition load_file_lines :: "path \<Rightarrow> (patch_error, rtext list \<times> bool \<times> line_ending) io" where
  "load_file_lines p =
     io_match (sys_open p)
       (\<lambda>n. io_then (io_action ''read'' p (read_lines n (length (split_inclusive (node_text n)))))
              (\<lambda>_. io_return (loaded_lines (node_text n))))
       (\<lambda>kind. if kind = NotFound then io_fail (MissingFile (shown_path p))
               else io_fail (Io ''read'' p kind))"

definition write_patched_content ::
  "atomic_writer \<Rightarrow> rtext list \<Rightarrow> replacement list \<Rightarrow> bool \<Rightarrow> line_ending \<Rightarrow> (patch_error, unit) io" where
  "write_patched_content w original_lines replacements ensure_trailing_newline ending =
     write_each w (patched_writes original_lines replacements ensure_trailing_newline ending)"

definition join_root :: "path \<Rightarrow> rtext \<Rightarrow> path" where
  "join_root root p = path_join root (components (utf8 p))"

definition add_operation :: "path \<Rightarrow> rtext \<Rightarrow> rtext \<Rightarrow> (patch_error, operation_effect) io" where
  "add_operation root path content =
     (let full_path = join_root root path
      in io_then (writer_create full_path None)
           (\<lambda>w. io_then (write_all w content)
           (\<lambda>_. io_then (writer_commit w)
           (\<lambda>_. io_return (Applied (AddedFile full_path)
                  (rt ''Added file: '' @ path @ rt '' ('' @ rt (show_nat (blen content)) @ rt '' bytes)''))))))"

definition delete_operation :: "path \<Rightarrow> rtext \<Rightarrow> (patch_error, operation_effect) io" where
  "delete_operation root path =
     (let full_path = join_root root path
      in io_then (snapshot_for full_path)
           (\<lambda>backup. case backup of
                       Some b \<Rightarrow> io_return (Applied (DeletedFile full_path b) (rt ''Deleted file: '' @ path))
                     | None \<Rightarrow> io_return (Skipped (rt ''File not found, skipped deletion: '' @ path))))"

text \<open>\<open>restore\<close>, then the error, unless restoring fails itself.\<close>

definition restore_and_fail :: "backup_entry \<Rightarrow> path \<Rightarrow> patch_error \<Rightarrow> (patch_error, 'a) io" where
  "restore_and_fail b source_path err = io_then (backup_restore b source_path) (\<lambda>_. io_fail err)"

definition updated_detail :: "rtext \<Rightarrow> rtext option \<Rightarrow> patch_chunk list \<Rightarrow> rtext" where
  "updated_detail path new_path chunks =
     (let count = length chunks;
          tail = rt '' ('' @ rt (show_nat count) @ rt '' '' @ rt (if count = 1 then ''chunk'' else ''chunks'') @ rt '')''
      in case new_path of
           Some dest \<Rightarrow> if dest \<noteq> path then rt ''Updated file: '' @ path @ rt '' -> '' @ dest @ tail
                        else rt ''Updated file: '' @ path @ tail
         | None \<Rightarrow> rt ''Updated file: '' @ path @ tail)"

definition update_operation ::
  "ast_grep \<Rightarrow> path \<Rightarrow> rtext \<Rightarrow> rtext option \<Rightarrow> patch_chunk list \<Rightarrow> nat \<Rightarrow> (patch_error, operation_effect) io" where
  "update_operation ag root path new_path chunks permissions =
     (let source_path = join_root root path
      in io_then (load_file_lines source_path) (\<lambda>(original_lines, had_trailing_newline, ending).
         case compute_replacements ag source_path original_lines chunks path of
           Inl err \<Rightarrow> io_fail err
         | Inr replacements \<Rightarrow>
             let ensure = had_trailing_newline \<or> list_ex is_end_of_file chunks
             in io_then (snapshot_for source_path) (\<lambda>snapshot.
                case snapshot of
                  None \<Rightarrow> io_fail (MissingFile path)
                | Some backup \<Rightarrow>
                    let destination_path = (case new_path of Some rel \<Rightarrow> join_root root rel | None \<Rightarrow> source_path)
                    in io_match (writer_create destination_path (Some permissions))
                         (\<lambda>w. io_match (write_patched_content w original_lines replacements ensure ending)
                            (\<lambda>_. io_match (writer_commit w)
                               (\<lambda>_. io_return (Applied (UpdatedFile source_path destination_path backup)
                                                 (updated_detail path new_path chunks)))
                               (\<lambda>err. restore_and_fail backup source_path err))
                            (\<lambda>err. io_match (writer_rollback w) (\<lambda>_. restore_and_fail backup source_path err)
                                     (\<lambda>_. restore_and_fail backup source_path err)))
                         (\<lambda>err. restore_and_fail backup source_path err))))"

section \<open>Planning and running\<close>

datatype prepared_operation =
    PrepareAdd rtext rtext
  | PrepareDelete rtext
  | PrepareUpdate rtext "rtext option" "patch_chunk list" nat

definition plan_destination :: "path \<Rightarrow> rtext \<Rightarrow> rtext option \<Rightarrow> (patch_error, unit) io" where
  "plan_destination root path new_path =
     (case new_path of
        None \<Rightarrow> io_return ()
      | Some dest_rel \<Rightarrow>
          if dest_rel = path then io_return ()
          else let destination = join_root root dest_rel
               in io_match (sys_metadata destination)
                    (\<lambda>existing. io_fail (InvalidOperation dest_rel
                        (rt (if existing = DirNode then ''destination is a directory''
                             else ''destination file already exists''))))
                    (\<lambda>kind. if kind = NotFound then io_return () else io_fail (Io ''inspect'' destination kind)))"

fun node_mode :: "node \<Rightarrow> nat" where
  "node_mode (FileNode _ m) = m"
| "node_mode DirNode = 0"

fun plan_operation :: "path \<Rightarrow> patch_operation \<Rightarrow> (patch_error, prepared_operation) io" where
  "plan_operation root (AddFile path content) =
     io_match (sys_metadata (join_root root path))
       (\<lambda>_. io_fail (InvalidOperation path (rt ''target already exists'')))
       (\<lambda>kind. if kind = NotFound then io_return (PrepareAdd path content)
               else io_fail (Io ''inspect'' (join_root root path) kind))"
| "plan_operation root (DeleteFile path) = io_return (PrepareDelete path)"
| "plan_operation root (UpdateFile path new_path chunks) =
     io_match (sys_metadata (join_root root path))
       (\<lambda>n. if n = DirNode
            then io_fail (InvalidOperation path (rt ''cannot apply text diff to directory''))
            else io_then (plan_destination root path new_path)
                   (\<lambda>_. io_return (PrepareUpdate path new_path chunks (node_mode n))))
       (\<lambda>kind. if kind = NotFound then io_fail (MissingFile path)
               else io_fail (Io ''inspect'' (join_root root path) kind))"

fun plan_each :: "path \<Rightarrow> patch_operation list \<Rightarrow> (patch_error, prepared_operation list) io" where
  "plan_each root [] = io_return []"
| "plan_each root (operation # operations) =
     io_then (plan_operation root operation)
       (\<lambda>p. io_then (plan_each root operations) (\<lambda>ps. io_return (p # ps)))"

definition plan_operations :: "path \<Rightarrow> patch_operation list \<Rightarrow> (patch_error, prepared_operation list) io" where
  "plan_operations root operations = (if operations = [] then io_fail NoOperations else plan_each root operations)"

fun execute :: "ast_grep \<Rightarrow> path \<Rightarrow> prepared_operation \<Rightarrow> (patch_error, operation_effect) io" where
  "execute ag root (PrepareAdd path content) = add_operation root path content"
| "execute ag root (PrepareDelete path) = delete_operation root path"
| "execute ag root (PrepareUpdate path new_path chunks permissions) =
     update_operation ag root path new_path chunks permissions"

definition annotate :: "nat \<Rightarrow> nat \<Rightarrow> rtext \<Rightarrow> rtext" where
  "annotate current total_ops detail =
     rt ''['' @ rt (show_nat current) @ rt ''/'' @ rt (show_nat total_ops) @ rt ''] '' @ detail"

fun run_plan ::
  "ast_grep \<Rightarrow> path \<Rightarrow> nat \<Rightarrow> nat \<Rightarrow> prepared_operation list \<Rightarrow> operation_state list \<Rightarrow> rtext list
     \<Rightarrow> (patch_error, rtext list) io" where
  "run_plan ag root total_ops index [] journal results = io_then (commit_all journal) (\<lambda>_. io_return results)"
| "run_plan ag root total_ops index (prepared # plan) journal results =
     io_match (execute ag root prepared)
       (\<lambda>effect. case effect of
          Applied st detail \<Rightarrow>
            run_plan ag root total_ops (index + 1) plan (st # journal)
              (results @ [annotate (index + 1) (max total_ops 1) detail])
        | Skipped detail \<Rightarrow>
            run_plan ag root total_ops (index + 1) plan journal
              (results @ [annotate (index + 1) (max total_ops 1) detail]))
       (\<lambda>err. io_match (rollback_all journal None)
          (\<lambda>_. io_fail (RolledBack err))
          (\<lambda>rollback_err. io_fail (Recovery err rollback_err)))"

definition execute_plan :: "ast_grep \<Rightarrow> path \<Rightarrow> prepared_operation list \<Rightarrow> (patch_error, rtext list) io" where
  "execute_plan ag root plan = run_plan ag root (length plan) 0 plan [] []"

definition ensure_target_within_workspace :: "filesystem \<Rightarrow> path \<Rightarrow> rtext \<Rightarrow> patch_error + unit" where
  "ensure_target_within_workspace fs root p =
     (case ensure_path_within_workspace_resolved fs (join_root root p) root of
        Inr _ \<Rightarrow> Inr ()
      | Inl error \<Rightarrow> Inl (InvalidPath ''apply'' p
          (rt ''workspace containment check failed: '' @ rt (hd error))))"

fun operation_targets :: "patch_operation \<Rightarrow> rtext list" where
  "operation_targets (AddFile p c) = [p]"
| "operation_targets (DeleteFile p) = [p]"
| "operation_targets (UpdateFile p q cs) = (case q of Some d \<Rightarrow> [p, d] | None \<Rightarrow> [p])"

definition ensure_operation_targets_within_workspace ::
  "filesystem \<Rightarrow> path \<Rightarrow> patch_operation list \<Rightarrow> patch_error + unit" where
  "ensure_operation_targets_within_workspace fs root operations =
     for_each (ensure_target_within_workspace fs root) (concat (map operation_targets operations))"

definition apply_patch ::
  "filesystem \<Rightarrow> ast_grep \<Rightarrow> path \<Rightarrow> patch_operation list \<Rightarrow> (patch_error, rtext list) io" where
  "apply_patch fs ag root operations =
     (case ensure_operation_targets_within_workspace fs root operations of
        Inl err \<Rightarrow> io_fail err
      | Inr _ \<Rightarrow> io_then (plan_operations root operations) (execute_plan ag root))"

end
