(* ===== verification/Patch_Calls.thy ===== *)
theory Patch_Calls
  imports Patch_Store
begin

text \<open>
  Reasoning about the calls of the patch transaction: a weakest precondition per construct, used as rewrite
  rules, what a call does in a tree-shaped store, and the names of temporary files, which differ from one
  clock reading to the next.
\<close>

section \<open>Weakest preconditions\<close>

definition wp :: "('e, 'a) io \<Rightarrow> ('e + 'a \<Rightarrow> store \<Rightarrow> bool) \<Rightarrow> io_env \<Rightarrow> store \<Rightarrow> bool" where
  "wp m Q e s = (case m e s of (r, s') \<Rightarrow> Q r s')"

named_theorems wp_simps \<open>weakest preconditions of the constructs\<close>

lemma wp_return [wp_simps]: "wp (io_return x) Q e s = Q (Inr x) s"
  by (simp add: wp_def io_return_def)

lemma wp_fail [wp_simps]: "wp (io_fail x) Q e s = Q (Inl x) s"
  by (simp add: wp_def io_fail_def)

lemma wp_then [wp_simps]:
  "wp (io_then m f) Q e s = wp m (\<lambda>r s'. case r of Inl err \<Rightarrow> Q (Inl err) s' | Inr x \<Rightarrow> wp (f x) Q e s') e s"
  by (auto simp: wp_def io_then_def split: prod.splits sum.splits)

lemma wp_match [wp_simps]:
  "wp (io_match m f g) Q e s
     = wp m (\<lambda>r s'. case r of Inl err \<Rightarrow> wp (g err) Q e s' | Inr x \<Rightarrow> wp (f x) Q e s') e s"
  by (auto simp: wp_def io_match_def split: prod.splits sum.splits)

lemma wp_action [wp_simps]:
  "wp (io_action a p m) Q e s
     = wp m (\<lambda>r s'. case r of Inl kind \<Rightarrow> Q (Inl (Io a p kind)) s' | Inr x \<Rightarrow> Q (Inr x) s') e s"
  by (simp add: io_action_def wp_simps cong: sum.case_cong)

lemma wp_mono: "wp m P e s \<Longrightarrow> (\<And>r s'. P r s' \<Longrightarrow> Q r s') \<Longrightarrow> wp m Q e s"
  by (auto simp: wp_def split: prod.splits)

lemma wpD: "wp m Q e s \<Longrightarrow> m e s = (r, s') \<Longrightarrow> Q r s'"
  by (simp add: wp_def)

lemma wpI: "(\<And>r s'. m e s = (r, s') \<Longrightarrow> Q r s') \<Longrightarrow> wp m Q e s"
  by (auto simp: wp_def split: prod.splits)

text \<open>No call fails from here on.\<close>

definition calm :: "io_env \<Rightarrow> store \<Rightarrow> bool" where
  "calm e s \<longleftrightarrow> (\<forall>n \<ge> st_calls s. \<not> ev_fault e n)"

definition one_fault :: "io_env \<Rightarrow> bool" where
  "one_fault e \<longleftrightarrow> (\<forall>m n. ev_fault e m \<and> ev_fault e n \<longrightarrow> m = n)"

text \<open>A call that the state lets succeed: it changes the nodes, or it is the fault and nothing fails any more.\<close>

lemma wp_call:
  assumes "f e (st_nodes s) = Inr (x, ns)"
    and "\<And>s'. st_nodes s' = ns \<Longrightarrow> st_stamps s' = st_stamps s \<Longrightarrow> (calm e s \<longrightarrow> calm e s') \<Longrightarrow> Q (Inr x) s'"
    and "\<And>s'. st_nodes s' = st_nodes s \<Longrightarrow> st_stamps s' = st_stamps s \<Longrightarrow> \<not> calm e s \<Longrightarrow>
      (one_fault e \<longrightarrow> calm e s') \<Longrightarrow> Q (Inl OtherError) s'"
  shows "wp (syscall f) Q e s"
proof (cases "ev_fault e (st_calls s)")
  case True
  then have "\<not> calm e s" "one_fault e \<longrightarrow> calm e (s\<lparr>st_calls := Suc (st_calls s)\<rparr>)"
    by (fastforce simp: calm_def one_fault_def)+
  with True show ?thesis by (auto simp: wp_def syscall_def intro!: assms(3))
next
  case False
  have "calm e s \<longrightarrow> calm e (s\<lparr>st_calls := Suc (st_calls s), st_nodes := ns\<rparr>)" by (simp add: calm_def)
  with False show ?thesis by (auto simp: wp_def syscall_def assms(1) intro!: assms(2))
qed

text \<open>A call that the state makes fail, or the fault does.\<close>

lemma wp_call_fails:
  assumes "f e (st_nodes s) = Inl k"
    and "\<And>s' k'. st_nodes s' = st_nodes s \<Longrightarrow> st_stamps s' = st_stamps s \<Longrightarrow> (calm e s \<longrightarrow> calm e s') \<Longrightarrow>
      k' = k \<or> k' = OtherError \<and> \<not> calm e s \<and> (one_fault e \<longrightarrow> calm e s') \<Longrightarrow> Q (Inl k') s'"
  shows "wp (syscall f) Q e s"
proof -
  have "ev_fault e (st_calls s) \<Longrightarrow> \<not> calm e s" "calm e s \<longrightarrow> calm e (s\<lparr>st_calls := Suc (st_calls s)\<rparr>)"
    "ev_fault e (st_calls s) \<Longrightarrow> one_fault e \<longrightarrow> calm e (s\<lparr>st_calls := Suc (st_calls s)\<rparr>)"
    by (fastforce simp: calm_def one_fault_def)+
  then show ?thesis by (auto simp: wp_def syscall_def assms(1) Let_def intro!: assms(2))
qed

section \<open>Trees\<close>

definition tree :: "nodes \<Rightarrow> bool" where
  "tree ns \<longleftrightarrow> (\<forall>p c. p \<noteq> [] \<longrightarrow> ns (p @ [c]) \<noteq> None \<longrightarrow> ns p = Some DirNode)"

lemma treeD: "tree ns \<Longrightarrow> ns (p @ [c]) = Some n \<Longrightarrow> p \<noteq> [] \<Longrightarrow> ns p = Some DirNode"
  unfolding tree_def by blast

lemma treeI: "(\<And>p c n. p \<noteq> [] \<Longrightarrow> ns (p @ [c]) = Some n \<Longrightarrow> ns p = Some DirNode) \<Longrightarrow> tree ns"
  unfolding tree_def by blast

lemma tree_prefix:
  assumes "tree ns" "ns q \<noteq> None" "strict_prefix p q" "p \<noteq> []"
  shows "ns p = Some DirNode"
proof -
  have step: "ns (q @ [c]) \<noteq> None \<Longrightarrow> q \<noteq> [] \<Longrightarrow> ns q = Some DirNode" for q c
    using treeD [OF assms(1)] by blast
  have "r \<noteq> [] \<Longrightarrow> ns (p @ r) \<noteq> None \<Longrightarrow> ns p = Some DirNode" for r
  proof (induction r rule: rev_induct)
    case (snoc c r)
    have "ns (p @ r) = Some DirNode" using step [of "p @ r" c] snoc.prems assms(4) by simp
    then show ?case using snoc.IH by (cases "r = []") simp_all
  qed simp
  moreover obtain r where "q = p @ r" "r \<noteq> []" using assms(3) by (auto simp: strict_prefix_def prefix_def)
  ultimately show ?thesis using assms(2) by blast
qed

lemma tree_below:
  assumes "tree ns" "ns p \<noteq> Some DirNode" "strict_prefix p q" "p \<noteq> []"
  shows "ns q = None"
  using tree_prefix assms by blast

lemma file_above_iff: "file_above ns p \<longleftrightarrow> (\<exists>q. q \<noteq> [] \<and> strict_prefix q p \<and> is_file (ns q))"
proof
  assume "file_above ns p"
  then obtain k where "1 \<le> k" "k < length p" "is_file (ns (take k p))" by (auto simp: file_above_def list_ex_iff)
  then show "\<exists>q. q \<noteq> [] \<and> strict_prefix q p \<and> is_file (ns q)"
    by (intro exI [of _ "take k p"]) (auto simp: strict_prefix_def take_is_prefix)
next
  assume "\<exists>q. q \<noteq> [] \<and> strict_prefix q p \<and> is_file (ns q)"
  then obtain q where q: "q \<noteq> []" "strict_prefix q p" "is_file (ns q)" by blast
  then have "take (length q) p = q" "length q < length p" by (auto simp: strict_prefix_def prefix_def)
  with q show "file_above ns p" by (force simp: file_above_def list_ex_iff Suc_le_eq)
qed

lemma strict_prefix_butlast: "p \<noteq> [] \<Longrightarrow> strict_prefix q p \<longleftrightarrow> prefix q (butlast p)"
  by (cases p rule: rev_cases) (auto simp: strict_prefix_def prefix_snoc)

lemma move_file:
  assumes "tree ns" "ns a = Some (FileNode c m)" "ns b \<noteq> Some DirNode" "a \<noteq> b" "a \<noteq> []" "b \<noteq> []"
  shows "move_entry a b ns = ns(a := None, b \<mapsto> FileNode c m)"
proof
  fix q
  have below: "ns r = None" if "strict_prefix a r \<or> strict_prefix b r" for r
    using that assms tree_below [OF assms(1), of a r] tree_below [OF assms(1), of b r] by auto
  show "move_entry a b ns q = (ns(a := None, b \<mapsto> FileNode c m)) q"
  proof (cases "prefix b q")
    case True
    then obtain r where q: "q = b @ r" by (auto simp: prefix_def)
    show ?thesis
    proof (cases "r = []")
      case False
      then have "strict_prefix a (a @ r)" "strict_prefix b q" by (auto simp: q strict_prefix_def)
      with below assms(2) q show ?thesis by (auto simp: move_entry_def)
    qed (simp add: q move_entry_def assms(2))
  next
    case False
    then have "q \<noteq> b" by auto
    have "ns q = None" if "prefix a q" "q \<noteq> a" using that below [of q] by (simp add: strict_prefix_def)
    with False \<open>q \<noteq> b\<close> show ?thesis by (cases "q = a") (simp_all add: move_entry_def)
  qed
qed

lemma tree_remove:
  assumes "tree ns" "ns p \<noteq> Some DirNode"
  shows "tree (ns(p := None))"
proof (rule treeI)
  fix q c n
  assume "q \<noteq> []" "(ns(p := None)) (q @ [c]) = Some n"
  then have "ns q = Some DirNode" using treeD [OF assms(1)] by (auto split: if_splits)
  with assms(2) show "(ns(p := None)) q = Some DirNode" by auto
qed

lemma tree_put:
  assumes "tree ns" "ns p \<noteq> Some DirNode" "p = d @ [c]" "ns d = Some DirNode"
  shows "tree (ns(p \<mapsto> FileNode x m))"
proof (rule treeI)
  fix q c' n
  assume q: "q \<noteq> []" "(ns(p \<mapsto> FileNode x m)) (q @ [c']) = Some n"
  then have "ns q = Some DirNode"
    using treeD [OF assms(1) _ q(1)] assms(3,4) by (cases "q @ [c'] = p") auto
  with assms(2) show "(ns(p \<mapsto> FileNode x m)) q = Some DirNode" by auto
qed

lemma tree_with_dirs:
  assumes "tree ns" "\<not> is_file (ns d)" "\<not> file_above ns d"
  shows "tree (with_dirs d ns)"
proof (rule treeI)
  fix p c n
  assume p: "p \<noteq> []" "with_dirs d ns (p @ [c]) = Some n"
  show "with_dirs d ns p = Some DirNode"
  proof (cases "ns (p @ [c]) = None")
    case False
    then have "ns p = Some DirNode" using treeD [OF assms(1) _ p(1)] by blast
    then show ?thesis by (simp add: with_dirs_def)
  next
    case True
    then have "prefix (p @ [c]) d" using p(2) by (auto simp: with_dirs_def split: if_splits)
    then have d: "strict_prefix p d" by (auto simp: strict_prefix_def prefix_def)
    then have "\<not> is_file (ns p)" using assms(3) p(1) by (auto simp: file_above_iff)
    then have "ns p = None \<or> ns p = Some DirNode" by (cases "ns p"; cases "the (ns p)") auto
    with d p(1) show ?thesis by (auto simp: with_dirs_def strict_prefix_def)
  qed
qed

lemma with_dirs_Some: "ns q = Some n \<Longrightarrow> with_dirs d ns q = Some n"
  by (simp add: with_dirs_def)

lemma with_dirs_at: "d \<noteq> [] \<Longrightarrow> \<not> is_file (ns d) \<Longrightarrow> with_dirs d ns d = Some DirNode"
  by (cases "ns d"; cases "the (ns d)") (auto simp: with_dirs_def)

section \<open>Names of temporary files\<close>

lemma show_nat_digits: "c \<in> set (show_nat n) \<Longrightarrow> c \<noteq> CHR ''.''"
proof (induction n rule: show_nat.induct)
  case (1 n)
  have d: "char_of (48 + k) \<noteq> CHR ''.''" if "k < 10" for k :: nat
  proof
    assume "char_of (48 + k) = CHR ''.''"
    then have "of_char (char_of (48 + k) :: char) = (46 :: nat)" by simp
    then show False using that by (simp add: of_char_of)
  qed
  from d have d': "CHR ''.'' \<noteq> char_of (48 + k)" if "k < 10" for k :: nat using that by metis
  from 1 d [of n] d' [of n] d [of "n mod 10"] d' [of "n mod 10"] show ?case by (subst (asm) (2) show_nat.simps) (auto split: if_splits)
qed

lemma digit_inj: "char_of (48 + i) = (char_of (48 + j) :: char) \<Longrightarrow> i < 10 \<Longrightarrow> j < 10 \<Longrightarrow> i = (j :: nat)"
proof -
  assume "char_of (48 + i) = (char_of (48 + j) :: char)" "i < 10" "j < 10"
  then have "of_char (char_of (48 + i) :: char) = (of_char (char_of (48 + j) :: char) :: nat)" by simp
  then show "i = j" using \<open>i < 10\<close> \<open>j < 10\<close> by (simp add: of_char_of)
qed

lemma show_nat_not_Nil [simp]: "show_nat n \<noteq> []" "[] \<noteq> show_nat n"
  by (subst show_nat.simps, simp)+

lemma show_nat_inj: "show_nat m = show_nat n \<Longrightarrow> m = n"
proof (induction m arbitrary: n rule: show_nat.induct)
  case (1 m)
  show ?case
  proof (cases "m < 10 \<or> n < 10")
    case True
    then show ?thesis using 1(2) digit_inj [of m n]
      by (subst (asm) (1 2) show_nat.simps) (auto split: if_splits)
  next
    case False
    then have "show_nat (m div 10) = show_nat (n div 10)"
      "char_of (48 + m mod 10) = (char_of (48 + n mod 10) :: char)"
      using 1(2) by (simp_all add: show_nat.simps [of m] show_nat.simps [of n])
    then have "m div 10 = n div 10" "m mod 10 = n mod 10"
      using 1(1) False digit_inj [of "m mod 10" "n mod 10"] by simp_all
    then show ?thesis by (metis div_mult_mod_eq)
  qed
qed

lemma temp_name_inj:
  assumes "temp_name a pid i = temp_name b pid j"
  shows "i = j"
proof -
  let ?P = "\<lambda>c. c \<noteq> CHR ''.''"
  have t: "takeWhile ?P (drop 4 (rev (temp_name a pid i))) = rev (show_nat i)" for a i
  proof -
    have "drop 4 (rev (temp_name a pid i)) = rev (show_nat i) @ CHR ''.'' # rev (''.'' @ a @ ''.'' @ show_nat pid)"
      by (simp add: temp_name_def)
    moreover have "takeWhile ?P (rev (show_nat i) @ CHR ''.'' # r) = rev (show_nat i)" for r
      by (subst takeWhile_append2) (auto dest: show_nat_digits)
    ultimately show ?thesis by simp
  qed
  from t [of a i] t [of b j] assms have "show_nat i = show_nat j" by simp
  then show ?thesis by (rule show_nat_inj)
qed

fun temp_like :: "component \<Rightarrow> bool" where
  "temp_like (Normal n) \<longleftrightarrow> prefix ''.'' n \<and> suffix ''.tmp'' n"
| "temp_like _ \<longleftrightarrow> False"

definition plain_path :: "path \<Rightarrow> bool" where
  "plain_path p \<longleftrightarrow> \<not> list_ex temp_like p"

lemma plain_prefix: "plain_path q \<Longrightarrow> prefix p q \<Longrightarrow> plain_path p"
  by (auto simp: plain_path_def prefix_def)

definition target_path :: "path \<Rightarrow> bool" where
  "target_path t \<longleftrightarrow> plain_path t \<and> path_file_name t \<noteq> None \<and> 2 \<le> length t"

lemma target_pathE:
  assumes "target_path t"
  obtains d n where "t = d @ [Normal n]" "d \<noteq> []" "path_parent t = Some d" "butlast t = d"
proof (cases t rule: rev_cases)
  case (snoc d c)
  with assms obtain n where "c = Normal n" by (cases c) (auto simp: target_path_def path_file_name_def)
  moreover have "d \<noteq> []" using snoc assms by (auto simp: target_path_def)
  ultimately show ?thesis using snoc by (intro that [of d n]) (simp_all add: path_parent_def)
qed (use assms in \<open>simp add: target_path_def\<close>)

definition tmp :: "io_env \<Rightarrow> path \<Rightarrow> nat \<Rightarrow> path" where
  "tmp e t i = temp_path t (ev_pid e) (the (ev_now e i))"

definition good_clock :: "io_env \<Rightarrow> bool" where
  "good_clock e \<longleftrightarrow> (\<forall>i. ev_now e i \<noteq> None) \<and> inj (ev_now e)"

lemma tmp_shape:
  assumes "target_path t"
  obtains nm where "tmp e t i = butlast t @ [Normal (temp_name nm (ev_pid e) (the (ev_now e i)))]"
  using assms by (elim target_pathE) (auto simp: tmp_def temp_path_def Let_def that)

lemma tmp_facts:
  assumes "target_path t"
  shows "\<not> plain_path (tmp e t i)" "butlast (tmp e t i) = butlast t" "tmp e t i \<noteq> []" "butlast t \<noteq> []"
proof -
  obtain nm where "tmp e t i = butlast t @ [Normal (temp_name nm (ev_pid e) (the (ev_now e i)))]"
    by (rule tmp_shape [OF assms])
  then show "\<not> plain_path (tmp e t i)" "butlast (tmp e t i) = butlast t" "tmp e t i \<noteq> []"
    by (auto simp: plain_path_def temp_name_def suffix_def)
  show "butlast t \<noteq> []" using assms by (elim target_pathE) simp
qed

lemma tmp_differs:
  assumes "target_path t" "target_path t'" "good_clock e" "tmp e t i = tmp e t' j"
  shows "i = j"
proof -
  obtain nm nm' where
    "tmp e t i = butlast t @ [Normal (temp_name nm (ev_pid e) (the (ev_now e i)))]"
    "tmp e t' j = butlast t' @ [Normal (temp_name nm' (ev_pid e) (the (ev_now e j)))]"
    by (meson tmp_shape assms(1,2))
  with assms(4) have "the (ev_now e i) = the (ev_now e j)" by (auto dest: temp_name_inj)
  with assms(3) have "ev_now e i = ev_now e j" unfolding good_clock_def by (metis option.exhaust_sel)
  with assms(3) show ?thesis by (auto simp: good_clock_def dest: injD)
qed

lemma wp_temporary_path [wp_simps]:
  assumes "good_clock e"
  shows "wp (temporary_path t) Q e s = Q (Inr (tmp e t (st_stamps s))) (s\<lparr>st_stamps := Suc (st_stamps s)\<rparr>)"
proof -
  obtain v where "ev_now e (st_stamps s) = Some v" using assms unfolding good_clock_def by blast
  then show ?thesis by (simp add: wp_def temporary_path_def tmp_def)
qed

lemma calm_stamps [simp]: "calm e (s\<lparr>st_stamps := k\<rparr>) = calm e s"
  by (simp add: calm_def)

end
