(* ===== verification/Patch_Transaction.thy ===== *)
theory Patch_Transaction
  imports Patch_Calls
begin

text \<open>
  What the writer, the backups and the operations of the patch transaction do to the nodes of a tree-shaped
  store: each success in full, and each failure as litter, new directories above the target and the temporary
  file of this step.
\<close>

section \<open>The atomic writer\<close>

definition litter :: "nodes \<Rightarrow> path \<Rightarrow> path \<Rightarrow> nodes \<Rightarrow> bool" where
  "litter ns d t ns' \<longleftrightarrow> tree ns' \<and> ns' t \<noteq> Some DirNode
     \<and> (\<forall>p. p \<noteq> t \<longrightarrow> ns' p = ns p \<or> ns' p = with_dirs d ns p)"

lemma litter_refl: "tree ns \<Longrightarrow> ns t = None \<Longrightarrow> litter ns d t ns"
  by (simp add: litter_def)

text \<open>A target whose directory can be made and whose temporary name is free.\<close>

definition writable_target :: "io_env \<Rightarrow> nodes \<Rightarrow> path \<Rightarrow> nat \<Rightarrow> bool" where
  "writable_target e ns x k \<longleftrightarrow> target_path x \<and> tree ns \<and> \<not> file_above ns x \<and> ns x \<noteq> Some DirNode
     \<and> ns (tmp e x k) = None \<and> good_clock e"

lemma writable_dir:
  assumes "writable_target e ns x k"
  shows "\<not> is_file (ns (butlast x))" "\<not> file_above ns (butlast x)" "tree (with_dirs (butlast x) ns)"
    "with_dirs (butlast x) ns (butlast x) = Some DirNode" "with_dirs (butlast x) ns (tmp e x k) = None"
    "with_dirs (butlast x) ns x = ns x" "path_parent x = Some (butlast x)"
proof -
  have t: "target_path x" "\<not> file_above ns x" "tree ns" "ns (tmp e x k) = None"
    using assms by (simp_all add: writable_target_def)
  obtain d n where x: "x = d @ [Normal n]" "d \<noteq> []" "path_parent x = Some d" "butlast x = d"
    using t(1) by (rule target_pathE)
  then show 1: "\<not> is_file (ns (butlast x))" "\<not> file_above ns (butlast x)" "path_parent x = Some (butlast x)"
    using t(2) by (auto simp: file_above_iff strict_prefix_def prefix_def)
  then show "tree (with_dirs (butlast x) ns)" "with_dirs (butlast x) ns (butlast x) = Some DirNode"
    using tree_with_dirs [OF t(3)] with_dirs_at x by auto
  have "\<not> prefix (tmp e x k) d"
    using tmp_facts(1) [OF t(1)] t(1) plain_prefix x(1) by (metis prefix_append target_path_def prefixI prefix_order.trans)
  then show "with_dirs (butlast x) ns (tmp e x k) = None" using t(4) x(4) by (simp add: with_dirs_def)
  have "\<not> prefix x d" using x(1) by (metis prefix_length_le length_append_singleton not_less_eq_eq order_refl)
  then show "with_dirs (butlast x) ns x = ns x" using x(4) by (simp add: with_dirs_def)
qed

lemma wp_writer_create:
  assumes ns: "writable_target e (st_nodes s) x (st_stamps s)"
    and ok: "\<And>s'. st_nodes s' = (with_dirs (butlast x) (st_nodes s))(tmp e x (st_stamps s) \<mapsto> FileNode (Utf8 []) (ev_mode e)) \<Longrightarrow>
      st_stamps s' = Suc (st_stamps s) \<Longrightarrow> (calm e s \<longrightarrow> calm e s') \<Longrightarrow>
      Q (Inr \<lparr>aw_path = x, aw_temp_path = tmp e x (st_stamps s), aw_permissions = perms\<rparr>) s'"
    and bad: "\<And>s' err. litter (st_nodes s) (butlast x) (tmp e x (st_stamps s)) (st_nodes s') \<Longrightarrow>
      st_stamps s \<le> st_stamps s' \<Longrightarrow> \<not> calm e s \<Longrightarrow> (one_fault e \<longrightarrow> calm e s') \<Longrightarrow> Q (Inl err) s'"
  shows "wp (writer_create x perms) Q e s"
proof -
  note d = writable_dir [OF ns]
  have c: "good_clock e" and f: "st_nodes s (tmp e x (st_stamps s)) = None" and t: "target_path x" and tr: "tree (st_nodes s)"
    using ns by (simp_all add: writable_target_def)
  have l1: "litter (st_nodes s) (butlast x) (tmp e x (st_stamps s)) (st_nodes s)"
    using tr f by (rule litter_refl)
  have l2: "litter (st_nodes s) (butlast x) (tmp e x (st_stamps s)) (with_dirs (butlast x) (st_nodes s))"
    using d(3,5) by (simp add: litter_def)
  show ?thesis
    unfolding writer_create_def d(7) option.case wp_then wp_action sys_create_dir_all_def
  proof (rule wp_call [where ns = "with_dirs (butlast x) (st_nodes s)" and x = "()"], goal_cases)
    case 1
    show ?case using d(1,2) by simp
  next
    case (2 s1)
    show ?case
      unfolding sum.case wp_temporary_path [OF c] sys_create_def wp_return
      by (rule wp_call [where ns = "(st_nodes s1)(tmp e x (st_stamps s) \<mapsto> FileNode (Utf8 []) (ev_mode e))" and x = "()"])
        (use 2 d(4,5) tmp_facts(2) [OF t] l2 in \<open>auto intro: ok bad\<close>)
  next
    case (3 s1)
    then show ?case using bad l1 by simp
  qed
qed

lemma wp_write_each:
  assumes "st_nodes s (aw_temp_path w) = Some (FileNode (Utf8 c) m)"
    and "\<And>s'. st_nodes s' = (st_nodes s)(aw_temp_path w \<mapsto> FileNode (Utf8 (c @ concat ts)) m) \<Longrightarrow>
      st_stamps s' = st_stamps s \<Longrightarrow> (calm e s \<longrightarrow> calm e s') \<Longrightarrow> Q (Inr ()) s'"
    and "\<And>s' err c'. st_nodes s' = (st_nodes s)(aw_temp_path w \<mapsto> FileNode (Utf8 c') m) \<Longrightarrow>
      st_stamps s' = st_stamps s \<Longrightarrow> \<not> calm e s \<Longrightarrow> (one_fault e \<longrightarrow> calm e s') \<Longrightarrow> Q (Inl err) s'"
  shows "wp (write_each w ts) Q e s"
  using assms
proof (induction ts arbitrary: s c)
  case Nil
  have "(st_nodes s)(aw_temp_path w \<mapsto> FileNode (Utf8 c) m) = st_nodes s" using Nil(1) by (simp add: fun_upd_idem)
  then show ?case using Nil by (simp add: wp_simps)
next
  case (Cons t ts)
  show ?case
    unfolding write_each.simps wp_then write_all_def wp_action sys_write_def
  proof (rule wp_call [where ns = "(st_nodes s)(aw_temp_path w \<mapsto> FileNode (Utf8 (c @ t)) m)" and x = "()"], goal_cases)
    case 1
    show ?case using Cons.prems(1) by simp
  next
    case (2 s1)
    note s1 = this
    show ?case unfolding sum.case
    proof (rule Cons.IH [where c = "c @ t"], goal_cases)
      case 1
      show ?case using s1(1) by simp
    next
      case (2 s')
      then have "st_nodes s' = (st_nodes s)(aw_temp_path w \<mapsto> FileNode (Utf8 (c @ concat (t # ts))) m)"
        using s1(1) by (auto simp: fun_eq_iff)
      then show ?case using s1 2 by (intro Cons.prems(2)) simp_all
    next
      case (3 s' c' err)
      then have "st_nodes s' = (st_nodes s)(aw_temp_path w \<mapsto> FileNode (Utf8 c') m)"
        using s1(1) by (auto simp: fun_eq_iff)
      then show ?case using s1 3 by (intro Cons.prems(3) [where c' = c']) auto
    qed
  next
    case (3 s1)
    have "(st_nodes s)(aw_temp_path w \<mapsto> FileNode (Utf8 c) m) = st_nodes s" using Cons.prems(1) by (simp add: fun_upd_idem)
    then show ?case using 3 Cons.prems(3) [of s1 c] by simp
  qed
qed

lemma tree_file_update: "tree ns \<Longrightarrow> ns t = Some (FileNode c m) \<Longrightarrow> tree (ns(t \<mapsto> FileNode c' m'))"
  by (rule treeI) (auto dest: treeD split: if_splits)

lemma wp_writer_commit:
  assumes ns: "tree (st_nodes s)" "st_nodes s t = Some (FileNode c m)" "st_nodes s x \<noteq> Some DirNode"
      "st_nodes s (butlast x) = Some DirNode" "t \<noteq> x" "t \<noteq> []" "x \<noteq> []" "t \<noteq> butlast x"
    and w: "w = \<lparr>aw_path = x, aw_temp_path = t, aw_permissions = perms\<rparr>"
    and ok: "\<And>s'. st_nodes s' = (st_nodes s)(t := None, x \<mapsto> FileNode c (case perms of Some m' \<Rightarrow> m' | None \<Rightarrow> m)) \<Longrightarrow>
      st_stamps s' = st_stamps s \<Longrightarrow> (calm e s \<longrightarrow> calm e s') \<Longrightarrow> Q (Inr ()) s'"
    and bad: "\<And>s' err. tree (st_nodes s') \<Longrightarrow> st_nodes s' t \<noteq> Some DirNode \<Longrightarrow>
      (\<forall>p. p \<noteq> t \<longrightarrow> st_nodes s' p = st_nodes s p) \<Longrightarrow>
      st_stamps s' = st_stamps s \<Longrightarrow> \<not> calm e s \<Longrightarrow> (one_fault e \<longrightarrow> calm e s') \<Longrightarrow> Q (Inl err) s'"
  shows "wp (writer_commit w) Q e s"
proof -
  let ?m = "case perms of Some m' \<Rightarrow> m' | None \<Rightarrow> m"
  have rename: "wp (io_match (sys_rename t x) io_return
      (\<lambda>kind. let failed = io_fail (Io ''rename'' x kind) in io_match (sys_remove_file t) (\<lambda>_. failed) (\<lambda>_. failed))) Q e s2"
    if s2: "st_nodes s2 = (st_nodes s)(t \<mapsto> FileNode c ?m)" "st_stamps s2 = st_stamps s" "calm e s \<longrightarrow> calm e s2" for s2
  proof -
    have tr: "tree (st_nodes s2)" using ns(1,2) s2(1) tree_file_update by simp
    have mv: "rename_entry t x (st_nodes s2) = Inr ((), (st_nodes s)(t := None, x \<mapsto> FileNode c ?m))"
      using move_file [OF tr, of t c ?m x] ns s2(1) by (auto simp: rename_entry_def)
    show ?thesis unfolding wp_match sys_rename_def
    proof (rule wp_call [where ns = "(st_nodes s)(t := None, x \<mapsto> FileNode c ?m)" and x = "()"], goal_cases)
      case 1
      show ?case by (rule mv)
    next
      case (2 s3)
      then show ?case using s2 by (auto simp: wp_simps intro: ok)
    next
      case (3 s3)
      show ?case unfolding sum.case Let_def wp_match sys_remove_file_def
        by (rule wp_call [where ns = "(st_nodes s)(t := None)" and x = "()"])
          (use 3 s2 ns tr in \<open>auto simp: wp_simps intro!: bad tree_remove\<close>)
    qed
  qed
  show ?thesis
    unfolding writer_commit_def w atomic_writer.simps wp_then wp_action sys_flush_def
  proof (rule wp_call [where ns = "st_nodes s" and x = "()"], goal_cases)
    case (2 s1)
    show ?case
    proof (cases perms)
      case None
      then have "st_nodes s1 = (st_nodes s)(t \<mapsto> FileNode c ?m)" using 2 ns(2) by (auto simp: fun_upd_idem)
      then show ?thesis using rename [of s1] 2 None by (simp add: wp_simps)
    next
      case (Some m')
      show ?thesis unfolding Some sum.case option.case wp_action sys_set_mode_def
        by (rule wp_call [where ns = "(st_nodes s)(t \<mapsto> FileNode c m')" and x = "()"])
          (use 2 ns rename Some in \<open>auto intro!: bad\<close>)
    qed
  next
    case (3 s1)
    then show ?case using ns by (auto intro!: bad)
  qed simp
qed

end
