(* ===== verification/Patch_Steps.thy ===== *)
theory Patch_Steps
  imports Patch_Transaction
begin

text \<open>
  The operations of the patch transaction, each as one step between states that are ready for the rest of the
  patch: what the store is after success, that a step that fails leaves the files as they were, and that
  undoing a step brings back the files it changed.
\<close>

section \<open>Ready states\<close>

text \<open>\<open>ns'\<close> has the files of \<open>ns\<close>; there may be new directories above targets, and the temporary names
  drawn before \<open>k\<close> are as they were.\<close>

definition keeps :: "io_env \<Rightarrow> path set \<Rightarrow> nat \<Rightarrow> nodes \<Rightarrow> nodes \<Rightarrow> bool" where
  "keeps e T k ns ns' \<longleftrightarrow>
     (\<forall>p. plain_path p \<longrightarrow> ns' p = ns p \<or> ns p = None \<and> ns' p = Some DirNode \<and> (\<exists>x \<in> T. strict_prefix p x))
     \<and> (\<forall>x \<in> T. \<forall>i < k. ns' (tmp e x i) = ns (tmp e x i))"

text \<open>The targets of a patch: plain paths below the root, none above another.\<close>

definition target_set :: "path set \<Rightarrow> bool" where
  "target_set T \<longleftrightarrow> (\<forall>x \<in> T. target_path x) \<and> (\<forall>x \<in> T. \<forall>y \<in> T. \<not> strict_prefix x y)"

definition ready :: "io_env \<Rightarrow> path set \<Rightarrow> nat \<Rightarrow> nodes \<Rightarrow> bool" where
  "ready e T k ns \<longleftrightarrow> tree ns \<and> good_clock e \<and> target_set T
     \<and> (\<forall>x \<in> T. ns x \<noteq> Some DirNode \<and> \<not> file_above ns x \<and> (\<forall>i \<ge> k. ns (tmp e x i) = None))"

lemma keeps_refl [simp]: "keeps e T k ns ns"
  by (simp add: keeps_def)

lemma keeps_trans: "keeps e T k a b \<Longrightarrow> keeps e T k' b c \<Longrightarrow> k \<le> k' \<Longrightarrow> keeps e T k a c"
  unfolding keeps_def by (smt (verit) order_less_le_trans)

lemma ready_writable: "ready e T k ns \<Longrightarrow> x \<in> T \<Longrightarrow> writable_target e ns x k"
  by (auto simp: ready_def writable_target_def target_set_def)

lemma target_facts:
  assumes "target_set T" "x \<in> T"
  shows "target_path x" "plain_path x" "x \<noteq> []" "butlast x \<noteq> []" "plain_path (butlast x)"
    "\<And>y i. y \<in> T \<Longrightarrow> tmp e y i \<noteq> x" "\<And>y i. y \<in> T \<Longrightarrow> tmp e y i \<noteq> butlast x"
    "\<And>y. y \<in> T \<Longrightarrow> \<not> prefix x (butlast y)" "\<And>y i. y \<in> T \<Longrightarrow> \<not> prefix (tmp e y i) (butlast x)"
proof -
  show t: "target_path x" "plain_path x" using assms by (auto simp: target_set_def target_path_def)
  show ne: "x \<noteq> []" using t(1) by (auto simp: target_path_def)
  show "butlast x \<noteq> []" using tmp_facts(4) [OF t(1)] .
  show pb: "plain_path (butlast x)" using t(2) by (rule plain_prefix) (simp add: prefixeq_butlast)
  fix y i
  assume y: "y \<in> T"
  then have ty: "target_path y" using assms(1) by (simp add: target_set_def)
  show "tmp e y i \<noteq> x" "tmp e y i \<noteq> butlast x" using tmp_facts(1) [OF ty] t(2) pb by metis+
  show "\<not> prefix (tmp e y i) (butlast x)" using tmp_facts(1) [OF ty] pb plain_prefix by metis
  have "y \<noteq> []" using ty by (auto simp: target_path_def)
  then show "\<not> prefix x (butlast y)"
    using assms y unfolding target_set_def by (metis strict_prefix_butlast)
qed

lemma ready_step:
  assumes "ready e T k ns" "tree ns'" "k \<le> k'" "\<And>p. plain_path p \<Longrightarrow> p \<notin> T \<Longrightarrow> ns' p = ns p \<or> ns' p = Some DirNode"
    "\<And>x. x \<in> T \<Longrightarrow> ns' x \<noteq> Some DirNode" "\<And>x i. x \<in> T \<Longrightarrow> k' \<le> i \<Longrightarrow> ns' (tmp e x i) = None"
  shows "ready e T k' ns'"
proof -
  have "\<not> file_above ns' x" if x: "x \<in> T" for x
  proof
    assume "file_above ns' x"
    then obtain q where q: "q \<noteq> []" "strict_prefix q x" "is_file (ns' q)" by (auto simp: file_above_iff)
    have "target_set T" using assms(1) by (simp add: ready_def)
    then have "plain_path q" "q \<notin> T"
      using q(2) x target_facts(2) plain_prefix by (metis strict_prefix_def, metis target_set_def)
    then have "is_file (ns q)" using assms(4) q(3) by fastforce
    then show False using assms(1) x q(1,2) by (auto simp: ready_def file_above_iff)
  qed
  with assms show ?thesis by (simp add: ready_def)
qed

lemma with_dirs_target: "target_set T \<Longrightarrow> x \<in> T \<Longrightarrow> y \<in> T \<Longrightarrow> with_dirs (butlast y) ns x = ns x"
  using target_facts(8) [of T x y] by (simp add: with_dirs_def)

lemma with_dirs_tmp: "target_set T \<Longrightarrow> x \<in> T \<Longrightarrow> y \<in> T \<Longrightarrow> with_dirs (butlast y) ns (tmp e x i) = ns (tmp e x i)"
  using target_facts(9) [of T y x] by (simp add: with_dirs_def)

lemma with_dirs_plain:
  assumes "target_set T" "y \<in> T"
  shows "with_dirs (butlast y) ns p = ns p
    \<or> ns p = None \<and> with_dirs (butlast y) ns p = Some DirNode \<and> (\<exists>x \<in> T. strict_prefix p x)"
  using assms target_facts(3) [OF assms] strict_prefix_butlast [of y p] by (auto simp: with_dirs_def)

lemma tmp_neq: "target_set T \<Longrightarrow> good_clock e \<Longrightarrow> x \<in> T \<Longrightarrow> y \<in> T \<Longrightarrow> i \<noteq> j \<Longrightarrow> tmp e x i \<noteq> tmp e y j"
  using tmp_differs by (metis target_set_def)

text \<open>Litter of the current step keeps the files.\<close>

lemma litter_keeps:
  assumes r: "ready e T k ns" and x: "x \<in> T" and l: "litter ns (butlast x) (tmp e x j) ns'" and "k \<le> j"
  shows "keeps e T k ns ns'"
proof -
  have T: "target_set T" "good_clock e" using r by (simp_all add: ready_def)
  have l': "p \<noteq> tmp e x j \<Longrightarrow> ns' p = ns p \<or> ns' p = with_dirs (butlast x) ns p" for p
    using l by (simp add: litter_def)
  show ?thesis unfolding keeps_def
  proof (intro conjI allI impI ballI)
    fix p assume "plain_path p"
    then have "p \<noteq> tmp e x j" using tmp_facts(1) T(1) x by (metis target_set_def)
    with l' [of p] with_dirs_plain [OF T(1) x, of ns p]
    show "ns' p = ns p \<or> ns p = None \<and> ns' p = Some DirNode \<and> (\<exists>x \<in> T. strict_prefix p x)" by metis
  next
    fix y i assume y: "y \<in> T" "i < k"
    then have "tmp e y i \<noteq> tmp e x j" using tmp_neq [OF T] x assms(4) by simp
    with l' [of "tmp e y i"] with_dirs_tmp [OF T(1) y(1) x] show "ns' (tmp e y i) = ns (tmp e y i)" by metis
  qed
qed

section \<open>Backups\<close>

lemma file_not_dir: "(FileNode c m = DirNode) = False"
  by simp

lemma wp_backup_restore:
  assumes ns: "tree (st_nodes s)" "st_nodes s (bk_path b) = Some (FileNode c m)" "st_nodes s x \<noteq> Some DirNode"
      "st_nodes s (butlast x) = Some DirNode" "bk_path b \<noteq> x" "bk_path b \<noteq> []" "x \<noteq> []"
    and ok: "\<And>s'. st_nodes s' = (st_nodes s)(bk_path b := None, x \<mapsto> FileNode c m) \<Longrightarrow>
      st_stamps s' = st_stamps s \<Longrightarrow> (calm e s \<longrightarrow> calm e s') \<Longrightarrow> Q (Inr ()) s'"
    and bad: "\<And>s' err. st_nodes s' = st_nodes s \<Longrightarrow> st_stamps s' = st_stamps s \<Longrightarrow> \<not> calm e s \<Longrightarrow> Q (Inl err) s'"
  shows "wp (backup_restore b x) Q e s"
proof -
  have "rename_entry (bk_path b) x (st_nodes s) = Inr ((), (st_nodes s)(bk_path b := None, x \<mapsto> FileNode c m))"
    using move_file [OF ns(1,2,3,5,6,7)] ns by (simp add: rename_entry_def)
  then show ?thesis unfolding backup_restore_def wp_match sys_rename_def
  proof (rule wp_call, goal_cases)
    case (1 s')
    then show ?case unfolding sum.case wp_return by (rule ok)
  next
    case (2 s')
    then show ?case using bad [of s'] by (simp add: wp_simps)
  qed
qed

lemma wp_remove_file_entry:
  assumes ns: "st_nodes s x = Some (FileNode c m)"
    and ok: "\<And>s'. st_nodes s' = (st_nodes s)(x := None) \<Longrightarrow> st_stamps s' = st_stamps s \<Longrightarrow> Q (Inr ()) s'"
    and bad: "\<And>s' err. st_nodes s' = st_nodes s \<Longrightarrow> st_stamps s' = st_stamps s \<Longrightarrow> Q (Inl err) s'"
  shows "wp (remove_existing_entry x) Q e s"
  unfolding remove_existing_entry_def wp_match sys_metadata_def
proof (rule wp_call [where x = "FileNode c m" and ns = "st_nodes s"], goal_cases)
  case (2 s1)
  show ?case unfolding sum.case wp_action file_not_dir if_False sys_remove_file_def
    by (rule wp_call [where x = "()" and ns = "(st_nodes s)(x := None)"])
      (use 2 ns in \<open>auto simp: wp_simps intro: ok bad\<close>)
qed (use ns in \<open>auto simp: wp_simps intro: bad\<close>)

lemma wp_snapshot_for:
  assumes ns: "tree (st_nodes s)" "target_path x" "st_nodes s x \<noteq> Some DirNode"
      "st_nodes s (tmp e x (st_stamps s)) = None" "good_clock e"
    and none: "\<And>s'. st_nodes s x = None \<Longrightarrow> st_nodes s' = st_nodes s \<Longrightarrow> st_stamps s' = st_stamps s \<Longrightarrow>
      (calm e s \<longrightarrow> calm e s') \<Longrightarrow> Q (Inr None) s'"
    and some: "\<And>s' c m. st_nodes s x = Some (FileNode c m) \<Longrightarrow>
      st_nodes s' = (st_nodes s)(x := None, tmp e x (st_stamps s) \<mapsto> FileNode c m) \<Longrightarrow>
      st_stamps s' = Suc (st_stamps s) \<Longrightarrow> (calm e s \<longrightarrow> calm e s') \<Longrightarrow>
      Q (Inr (Some \<lparr>bk_path = tmp e x (st_stamps s), bk_kind = BackupFile\<rparr>)) s'"
    and bad: "\<And>s' err. st_nodes s' = st_nodes s \<Longrightarrow> st_stamps s \<le> st_stamps s' \<Longrightarrow>
      \<not> calm e s \<or> file_above (st_nodes s) x \<Longrightarrow> Q (Inl err) s'"
  shows "wp (snapshot_for x) Q e s"
proof (cases "st_nodes s x")
  case None
  show ?thesis unfolding snapshot_for_def wp_match sys_metadata_def
    by (rule wp_call_fails [where k = "missing_kind (st_nodes s) x"])
      (use None in \<open>auto simp: wp_simps missing_kind_def split: if_splits intro: none bad\<close>)
next
  case (Some n)
  then obtain c m where n: "st_nodes s x = Some (FileNode c m)" using ns(3) by (cases n) auto
  let ?t = "tmp e x (st_stamps s)"
  have x: "x \<noteq> []" "butlast x \<noteq> []" "butlast ?t = butlast x" "?t \<noteq> []" "x \<noteq> ?t"
    using ns(2) tmp_facts [OF ns(2)] by (auto simp: target_path_def) metis
  have "strict_prefix (butlast x) x" using x(1) by (simp add: strict_prefix_butlast)
  then have d: "st_nodes s (butlast x) = Some DirNode" using tree_prefix [OF ns(1), of x "butlast x"] n x(2) by simp
  have mv: "rename_entry x ?t (st_nodes s) = Inr ((), (st_nodes s)(x := None, ?t \<mapsto> FileNode c m))"
    using move_file [OF ns(1) n, of ?t] ns(4) n d x by (simp add: rename_entry_def)
  show ?thesis unfolding snapshot_for_def wp_match sys_metadata_def
  proof (rule wp_call [where x = "FileNode c m" and ns = "st_nodes s"], goal_cases)
    case (2 s1)
    show ?case
      unfolding sum.case wp_then backup_create_def wp_temporary_path [OF ns(5)] wp_action sys_rename_def
      by (rule wp_call [where x = "()" and ns = "(st_nodes s)(x := None, ?t \<mapsto> FileNode c m)"])
        (use 2 mv in \<open>auto simp: wp_simps intro: some [OF n] bad\<close>)
  qed (use n in \<open>auto simp: wp_simps intro: bad\<close>)
qed

section \<open>The operations\<close>

definition fails_clean :: "io_env \<Rightarrow> path set \<Rightarrow> store \<Rightarrow> store \<Rightarrow> bool" where
  "fails_clean e T s s' \<longleftrightarrow>
     (one_fault e \<longrightarrow> tree (st_nodes s') \<and> keeps e T (st_stamps s) (st_nodes s) (st_nodes s'))"

lemma fails_clean_same: "ready e T (st_stamps s) (st_nodes s) \<Longrightarrow> st_nodes s' = st_nodes s \<Longrightarrow> fails_clean e T s s'"
  by (simp add: fails_clean_def ready_def)

lemma fails_clean_litter:
  "ready e T (st_stamps s) (st_nodes s) \<Longrightarrow> x \<in> T \<Longrightarrow>
   litter (st_nodes s) (butlast x) (tmp e x (st_stamps s)) (st_nodes s') \<Longrightarrow> fails_clean e T s s'"
  unfolding fails_clean_def using litter_keeps [of e T "st_stamps s" "st_nodes s" x "st_stamps s" "st_nodes s'"]
  by (auto simp: litter_def)

lemma write_all_each: "write_all w b = write_each w [b]"
proof (intro ext)
  fix e s
  show "write_all w b e s = write_each w [b] e s"
    by (cases "write_all w b e s" rule: prod.exhaust; cases "fst (write_all w b e s)")
      (auto simp: io_then_def io_return_def)
qed

text \<open>The nodes while the temporary file of a target is being written.\<close>

abbreviation writing :: "io_env \<Rightarrow> nodes \<Rightarrow> path \<Rightarrow> nat \<Rightarrow> rtext \<Rightarrow> nodes" where
  "writing e ns x k c \<equiv> (with_dirs (butlast x) ns)(tmp e x k \<mapsto> FileNode (Utf8 c) (ev_mode e))"

lemma writing_litter:
  assumes "writable_target e ns x k"
  shows "litter ns (butlast x) (tmp e x k) (writing e ns x k c)"
proof -
  note d = writable_dir [OF assms]
  have t: "target_path x" using assms by (simp add: writable_target_def)
  have "tmp e x k = butlast x @ [last (tmp e x k)]"
    using tmp_facts(2,3) [OF t] append_butlast_last_id by metis
  then have "tree (writing e ns x k c)" 
    using tree_put [OF d(3), of "tmp e x k" "butlast x" "last (tmp e x k)"] d(4,5) by simp
  then show ?thesis by (simp add: litter_def)
qed

lemma wp_commit_writing:
  assumes w: "writable_target e ns x k" and n: "st_nodes s = writing e ns x k c"
    and ok: "\<And>s'. st_nodes s' = (with_dirs (butlast x) ns)(x \<mapsto> FileNode (Utf8 c) (case perms of Some m \<Rightarrow> m | None \<Rightarrow> ev_mode e)) \<Longrightarrow>
      st_stamps s' = st_stamps s \<Longrightarrow> (calm e s \<longrightarrow> calm e s') \<Longrightarrow> Q (Inr ()) s'"
    and bad: "\<And>s' err. litter ns (butlast x) (tmp e x k) (st_nodes s') \<Longrightarrow>
      st_stamps s' = st_stamps s \<Longrightarrow> \<not> calm e s \<Longrightarrow> (one_fault e \<longrightarrow> calm e s') \<Longrightarrow> Q (Inl err) s'"
  shows "wp (writer_commit \<lparr>aw_path = x, aw_temp_path = tmp e x k, aw_permissions = perms\<rparr>) Q e s"
proof -
  note d = writable_dir [OF w]
  have t: "target_path x" and xd: "ns x \<noteq> Some DirNode" using w by (simp_all add: writable_target_def)
  have p: "plain_path x" "plain_path (butlast x)" "x \<noteq> []"
    using t plain_prefix [of x "butlast x"] by (auto simp: target_path_def prefixeq_butlast)
  have xt: "tmp e x k \<noteq> x" "tmp e x k \<noteq> butlast x" "tmp e x k \<noteq> []" using tmp_facts(1,3) [OF t, of e k] p by metis+
  show ?thesis
  proof (rule wp_writer_commit [where c = "Utf8 c" and m = "ev_mode e" and t = "tmp e x k" and x = x and perms = perms], goal_cases)
    case 1
    show ?case using writing_litter [OF w] n by (simp add: litter_def)
  next
    case (10 s')
    have "with_dirs (butlast x) ns = (with_dirs (butlast x) ns)(tmp e x k := None)" using d(5) by (simp add: fun_upd_idem)
    then have "st_nodes s' = (with_dirs (butlast x) ns)(x \<mapsto> FileNode (Utf8 c) (case perms of Some m \<Rightarrow> m | None \<Rightarrow> ev_mode e))"
      unfolding 10(1) n by (metis fun_upd_upd)
    then show ?case using 10 by (intro ok) simp_all
  next
    case (11 s' err)
    then have "litter ns (butlast x) (tmp e x k) (st_nodes s')" using n by (auto simp: litter_def)
    then show ?case using 11 by (intro bad) simp_all
  qed (use n xt p(3) xd d(4,6) in auto)
qed

lemma wp_write_writing:
  assumes w: "writable_target e ns x k" and n: "st_nodes s = writing e ns x k []"
    and ok: "\<And>s'. st_nodes s' = writing e ns x k (concat ts) \<Longrightarrow>
      st_stamps s' = st_stamps s \<Longrightarrow> (calm e s \<longrightarrow> calm e s') \<Longrightarrow> Q (Inr ()) s'"
    and bad: "\<And>s' err c. st_nodes s' = writing e ns x k c \<Longrightarrow>
      st_stamps s' = st_stamps s \<Longrightarrow> \<not> calm e s \<Longrightarrow> (one_fault e \<longrightarrow> calm e s') \<Longrightarrow> Q (Inl err) s'"
  shows "wp (write_each \<lparr>aw_path = x, aw_temp_path = tmp e x k, aw_permissions = perms\<rparr> ts) Q e s"
proof (rule wp_write_each [where c = "[]" and m = "ev_mode e"], goal_cases)
  case (2 s')
  then show ?case using n by (intro ok) simp_all
next
  case (3 s' err c)
  then show ?case using n by (intro bad [where c = c]) simp_all
qed (simp add: n)

lemma wp_add_operation:
  assumes r: "ready e T (st_stamps s) (st_nodes s)" and x: "x = join_root root path" "x \<in> T"
    and ok: "\<And>s' d. st_nodes s' = (with_dirs (butlast x) (st_nodes s))(x \<mapsto> FileNode (Utf8 content) (ev_mode e)) \<Longrightarrow>
      st_stamps s' = Suc (st_stamps s) \<Longrightarrow> (calm e s \<longrightarrow> calm e s') \<Longrightarrow> Q (Inr (Applied (AddedFile x) d)) s'"
    and bad: "\<And>s' err. fails_clean e T s s' \<Longrightarrow> \<not> calm e s \<Longrightarrow> Q (Inl err) s'"
  shows "wp (add_operation root path content) Q e s"
proof -
  have w: "writable_target e (st_nodes s) x (st_stamps s)" using ready_writable [OF r x(2)] .
  note lit = fails_clean_litter [OF r x(2)] writing_litter [OF w]
  show ?thesis unfolding add_operation_def x(1) [symmetric] Let_def wp_then write_all_each
  proof (rule wp_writer_create [OF w], goal_cases)
    case (1 s1)
    note s1 = this
    show ?case unfolding sum.case wp_then
    proof (rule wp_write_writing [OF w s1(1)], goal_cases)
      case (1 s2)
      note s2 = this
      show ?case unfolding sum.case wp_then wp_return
      proof (rule wp_commit_writing [OF w s2(1)], goal_cases)
        case (1 s3)
        then show ?case unfolding sum.case using s1 s2 by (intro ok) auto
      next
        case (2 s3 err)
        then show ?case using bad lit s1 s2 by simp
      qed
    next
      case (2 s2 err c)
      then show ?case using bad lit s1 by simp
    qed
  next
    case (2 s1 err)
    then show ?case using bad lit by simp
  qed
qed

lemma wp_delete_operation:
  assumes r: "ready e T (st_stamps s) (st_nodes s)" and x: "x = join_root root path" "x \<in> T"
    and skip: "\<And>s' d. st_nodes s x = None \<Longrightarrow> st_nodes s' = st_nodes s \<Longrightarrow> st_stamps s' = st_stamps s \<Longrightarrow>
      (calm e s \<longrightarrow> calm e s') \<Longrightarrow> Q (Inr (Skipped d)) s'"
    and ok: "\<And>s' d c m. st_nodes s x = Some (FileNode c m) \<Longrightarrow>
      st_nodes s' = (st_nodes s)(x := None, tmp e x (st_stamps s) \<mapsto> FileNode c m) \<Longrightarrow>
      st_stamps s' = Suc (st_stamps s) \<Longrightarrow> (calm e s \<longrightarrow> calm e s') \<Longrightarrow>
      Q (Inr (Applied (DeletedFile x \<lparr>bk_path = tmp e x (st_stamps s), bk_kind = BackupFile\<rparr>) d)) s'"
    and bad: "\<And>s' err. fails_clean e T s s' \<Longrightarrow> \<not> calm e s \<Longrightarrow> Q (Inl err) s'"
  shows "wp (delete_operation root path) Q e s"
proof -
  have p: "tree (st_nodes s)" "target_path x" "st_nodes s x \<noteq> Some DirNode"
    "st_nodes s (tmp e x (st_stamps s)) = None" "good_clock e" "\<not> file_above (st_nodes s) x"
    using r x(2) by (auto simp: ready_def target_set_def)
  show ?thesis unfolding delete_operation_def x(1) [symmetric] Let_def wp_then
  proof (rule wp_snapshot_for [OF p(1-5)], goal_cases)
    case (1 s')
    then show ?case unfolding sum.case option.case wp_return by (rule skip)
  next
    case (2 s' c m)
    then show ?case unfolding sum.case option.case wp_return by (intro ok) 
  next
    case (3 s' err)
    then show ?case using bad fails_clean_same [OF r] p(6) by simp
  qed
qed

fun is_text :: "node option \<Rightarrow> bool" where
  "is_text (Some (FileNode (Utf8 t) m)) = True"
| "is_text _ = False"

lemma wp_read_lines:
  assumes "\<And>s' c m. n = FileNode (Utf8 c) m \<Longrightarrow> st_nodes s' = st_nodes s \<Longrightarrow> st_stamps s' = st_stamps s \<Longrightarrow>
      (calm e s \<longrightarrow> calm e s') \<Longrightarrow> Q (Inr ()) s'"
    and "\<And>s' err. st_nodes s' = st_nodes s \<Longrightarrow> st_stamps s' = st_stamps s \<Longrightarrow>
      calm e s \<longrightarrow> \<not> is_text (Some n) \<Longrightarrow> Q (Inl err) s'"
  shows "wp (read_lines n k) Q e s"
proof -
  have one: "wp (sys_read_line n) R e s"
    if "\<And>s' c m. n = FileNode (Utf8 c) m \<Longrightarrow> st_nodes s' = st_nodes s \<Longrightarrow> st_stamps s' = st_stamps s \<Longrightarrow>
        (calm e s \<longrightarrow> calm e s') \<Longrightarrow> R (Inr ()) s'"
      "\<And>s' err. st_nodes s' = st_nodes s \<Longrightarrow> st_stamps s' = st_stamps s \<Longrightarrow>
        calm e s \<longrightarrow> \<not> is_text (Some n) \<Longrightarrow> R (Inl err) s'" for R s
  proof -
    consider c m where "n = FileNode (Utf8 c) m" | i m where "n = FileNode (Undecodable i) m" | "n = DirNode"
      by (metis node.exhaust file_bytes.exhaust)
    then show ?thesis
    proof cases
      case 1
      show ?thesis unfolding sys_read_line_def
        by (rule wp_call [where x = "()" and ns = "st_nodes s"]) (use 1 in \<open>auto intro: that\<close>)
    next
      case 2
      show ?thesis unfolding sys_read_line_def
        by (rule wp_call_fails [where k = OtherError]) (use 2 in \<open>auto intro: that\<close>)
    next
      case 3
      show ?thesis unfolding sys_read_line_def
        by (rule wp_call_fails [where k = IsADirectory]) (use 3 in \<open>auto intro: that\<close>)
    qed
  qed
  show ?thesis using assms
  proof (induction k arbitrary: s)
    case 0
    then show ?case unfolding read_lines.simps by (intro one) blast+
  next
    case (Suc k)
    show ?case unfolding read_lines.simps wp_then
    proof (rule one, goal_cases)
      case (1 s')
      show ?case unfolding sum.case by (rule Suc.IH) (use 1 Suc.prems in auto)
    next
      case (2 s' err)
      then show ?case using Suc.prems(2) by simp
    qed
  qed
qed

lemma wp_load_file_lines:
  assumes ok: "\<And>s' t m. st_nodes s x = Some (FileNode (Utf8 t) m) \<Longrightarrow> st_nodes s' = st_nodes s \<Longrightarrow>
      st_stamps s' = st_stamps s \<Longrightarrow> (calm e s \<longrightarrow> calm e s') \<Longrightarrow> Q (Inr (loaded_lines t)) s'"
    and bad: "\<And>s' err. st_nodes s' = st_nodes s \<Longrightarrow> calm e s \<longrightarrow> \<not> is_text (st_nodes s x) \<Longrightarrow> Q (Inl err) s'"
  shows "wp (load_file_lines x) Q e s"
proof (cases "st_nodes s x")
  case None
  show ?thesis unfolding load_file_lines_def wp_match sys_open_def
    by (rule wp_call_fails [where k = "missing_kind (st_nodes s) x"]) (use None in \<open>auto simp: wp_simps intro: bad\<close>)
next
  case (Some n)
  show ?thesis unfolding load_file_lines_def wp_match sys_open_def
  proof (rule wp_call [where x = n and ns = "st_nodes s"], goal_cases)
    case 1
    show ?case by (simp add: Some)
  next
    case (2 s1)
    note s1 = this
    show ?case unfolding sum.case wp_then wp_action wp_return
    proof (rule wp_read_lines, goal_cases)
      case (1 s2 c m)
      then show ?case using ok [of c m s2] s1 Some by simp
    next
      case (2 s2 err)
      then show ?case using bad s1 Some by simp
    qed
  qed (auto simp: wp_simps intro: bad)
qed

end
