(* ===== verification/Patch_Undo.thy ===== *)
theory Patch_Undo
  imports Patch_Steps
begin

text \<open>
  The update operation of the patch transaction, and the undoing of each operation: from any later state with
  the same files, rolling back one step brings back the files from before it.
\<close>

section \<open>Relations between states\<close>

lemma keeps_upd: "keeps e T k a b \<Longrightarrow> keeps e T k (a(p := v)) (b(p := v))"
  by (auto simp: keeps_def)

lemma keeps_weaken: "keeps e T k a b \<Longrightarrow> j \<le> k \<Longrightarrow> keeps e T j a b"
  by (auto simp: keeps_def)

lemma keeps_tmp:
  assumes "keeps e T k a b" "target_set T" "good_clock e" "x \<in> T" "k \<le> j"
  shows "keeps e T k a (b(tmp e x j := v))"
  unfolding keeps_def
proof (intro conjI allI impI ballI)
  fix p assume "plain_path p"
  then have "p \<noteq> tmp e x j" using target_facts(1) [OF assms(2,4)] tmp_facts(1) by metis
  then show "(b(tmp e x j := v)) p = a p \<or> a p = None \<and> (b(tmp e x j := v)) p = Some DirNode \<and> (\<exists>x \<in> T. strict_prefix p x)"
    using assms(1) \<open>plain_path p\<close> by (simp add: keeps_def)
next
  fix y i assume "y \<in> T" "i < k"
  then show "(b(tmp e x j := v)) (tmp e y i) = a (tmp e y i)"
    using tmp_neq [OF assms(2,3) _ assms(4), of y i j] assms(1,5) by (simp add: keeps_def)
qed

lemma keeps_at:
  assumes "keeps e T k a b" "target_set T" "x \<in> T"
  shows "b x = a x"
  using assms target_facts(2) [OF assms(2,3)] by (auto simp: keeps_def target_set_def)

lemma keeps_dir: "keeps e T k a b \<Longrightarrow> plain_path p \<Longrightarrow> a p = Some n \<Longrightarrow> b p = Some n"
  by (auto simp: keeps_def)

lemma with_dirs_keeps:
  assumes "target_set T" "x \<in> T"
  shows "keeps e T k ns (with_dirs (butlast x) ns)"
  unfolding keeps_def using with_dirs_plain [OF assms] with_dirs_tmp [OF assms(1) _ assms(2)] by blast

lemma parent_dir:
  assumes "tree ns" "target_path x" "ns x = Some n"
  shows "ns (butlast x) = Some DirNode"
proof -
  have "x \<noteq> []" using assms(2) by (auto simp: target_path_def)
  then show ?thesis
    using tree_prefix [OF assms(1), of x "butlast x"] strict_prefix_butlast [of x "butlast x"] tmp_facts(4) [OF assms(2)] assms(3)
    by simp
qed

text \<open>A target's file moved to its temporary name.\<close>

abbreviation moved_aside :: "io_env \<Rightarrow> nodes \<Rightarrow> path \<Rightarrow> nat \<Rightarrow> node \<Rightarrow> nodes" where
  "moved_aside e ns x k f \<equiv> ns(x := None, tmp e x k \<mapsto> f)"

lemma moved_aside_tree:
  assumes "tree ns" "target_path x" "ns x = Some (FileNode c m)" "ns (tmp e x k) = None"
  shows "tree (moved_aside e ns x k (FileNode c m))"
proof -
  note f = tmp_facts(1-3) [OF assms(2), of e k]
  have "x \<noteq> []" using assms(2) by (auto simp: target_path_def)
  then have x: "butlast x \<noteq> x" by (cases x rule: rev_cases) auto
  have "tmp e x k = butlast x @ [last (tmp e x k)]" using f(2,3) append_butlast_last_id by metis
  then show ?thesis
    using tree_put [OF tree_remove [OF assms(1), of x], of "tmp e x k" "butlast x" "last (tmp e x k)" c m]
      parent_dir [OF assms(1-3)] assms(3,4) x by simp
qed

lemma moved_aside_ready:
  assumes r: "ready e T k ns" and x: "x \<in> T" "ns x = Some (FileNode c m)"
  shows "ready e T (Suc k) (moved_aside e ns x k (FileNode c m))"
proof -
  have T: "target_set T" "good_clock e" "tree ns" "ns (tmp e x k) = None" using r x(1) by (auto simp: ready_def)
  note f = target_facts [OF T(1)]
  show ?thesis
  proof (rule ready_step [OF r])
    show "tree (moved_aside e ns x k (FileNode c m))" using moved_aside_tree [OF T(3) f(1) [OF x(1)] x(2) T(4)] .
  next
    fix p assume "plain_path p" "p \<notin> T"
    then show "moved_aside e ns x k (FileNode c m) p = ns p \<or> moved_aside e ns x k (FileNode c m) p = Some DirNode"
      using tmp_facts(1) [OF f(1) [OF x(1)]] x(1) by auto
  next
    fix y i assume "y \<in> T" "Suc k \<le> i"
    then show "moved_aside e ns x k (FileNode c m) (tmp e y i) = None"
      using tmp_neq [OF T(1,2) _ x(1), of y i k] r by (auto simp: ready_def)
  next
    fix y assume "y \<in> T"
    then show "moved_aside e ns x k (FileNode c m) y \<noteq> Some DirNode" using r by (auto simp: ready_def)
  qed simp
qed

lemma moved_back:
  assumes "ns x = Some f" "ns t = None" "t \<noteq> x"
  shows "(ns(x := None, t \<mapsto> f))(t := None, x \<mapsto> f) = ns"
  using assms by (auto simp: fun_eq_iff)

section \<open>Updating a file\<close>

definition updated_text :: "ast_grep \<Rightarrow> path \<Rightarrow> rtext \<Rightarrow> rtext \<Rightarrow> patch_chunk list \<Rightarrow> patch_error + rtext" where
  "updated_text ag x path t chunks =
     (case loaded_lines t of (lines, had, ending) \<Rightarrow>
        (case compute_replacements ag x lines chunks path of
           Inl err \<Rightarrow> Inl err
         | Inr rs \<Rightarrow> Inr (concat (patched_writes lines rs (had \<or> list_ex is_end_of_file chunks) ending))))"

text \<open>Putting the file back after a failed write.\<close>

lemma wp_restore_and_fail:
  assumes r: "ready e T (st_stamps s0) (st_nodes s0)" and x: "x \<in> T" "st_nodes s0 x = Some (FileNode c m)" and y: "y \<in> T"
    and l: "litter (moved_aside e (st_nodes s0) x (st_stamps s0) (FileNode c m)) (butlast y)
              (tmp e y (Suc (st_stamps s0))) (st_nodes s)"
    and calm: "one_fault e \<longrightarrow> calm e s"
    and bad: "\<And>s' err. fails_clean e T s0 s' \<Longrightarrow> Q (Inl err) s'"
  shows "wp (restore_and_fail \<lparr>bk_path = tmp e x (st_stamps s0), bk_kind = BackupFile\<rparr> x err) Q e s"
proof -
  let ?k = "st_stamps s0" and ?ns = "st_nodes s0"
  let ?t = "tmp e x ?k" and ?aside = "moved_aside e ?ns x ?k (FileNode c m)"
  have T: "target_set T" "good_clock e" "tree ?ns" "?ns ?t = None" using r x(1) by (auto simp: ready_def)
  note f = target_facts [OF T(1) x(1)]
  have t: "?t \<noteq> x" "?t \<noteq> butlast x" "?t \<noteq> []" using f(6,7) [OF x(1)] tmp_facts(3) [OF f(1)] by auto
  have k1: "keeps e T (Suc ?k) ?aside (st_nodes s)"
    by (rule litter_keeps [OF moved_aside_ready [OF r x] y l]) simp
  have "st_nodes s x = None" using keeps_at [OF k1 T(1) x(1)] t(1) by simp
  moreover have "?aside ?t = Some (FileNode c m)" by simp
  then have st: "st_nodes s ?t = Some (FileNode c m)" using k1 x(1) unfolding keeps_def by (metis lessI)
  moreover have "butlast x \<noteq> x" using f(8) [OF x(1)] by auto
  then have "?aside (butlast x) = Some DirNode" using parent_dir [OF T(3) f(1) x(2)] t(2) by auto
  then have dir: "st_nodes s (butlast x) = Some DirNode" using keeps_dir [OF k1 f(5)] by blast
  moreover have tr: "tree (st_nodes s)" using l by (simp add: litter_def)
  ultimately have pre: "tree (st_nodes s)" "st_nodes s ?t = Some (FileNode c m)" "st_nodes s x \<noteq> Some DirNode"
    "st_nodes s (butlast x) = Some DirNode" by simp_all
  have undone: "fails_clean e T s0 s'" if s': "st_nodes s' = (st_nodes s)(?t := None, x \<mapsto> FileNode c m)" for s'
  proof -
    have "tree ((st_nodes s)(?t := None))" using tree_remove [OF tr, of ?t] st by simp
    then have "tree (st_nodes s')"
      using tree_put [of "(st_nodes s)(?t := None)" x "butlast x" "last x" c m] pre t s' f(3) by auto
    moreover have "keeps e T ?k ?ns (st_nodes s')"
      using keeps_weaken [OF keeps_upd [OF keeps_upd [OF k1, of ?t None], of x "Some (FileNode c m)"], of ?k]
      unfolding moved_back [OF x(2) T(4) t(1)] s' by simp
    ultimately show ?thesis by (simp add: fails_clean_def)
  qed
  show ?thesis unfolding restore_and_fail_def wp_then
  proof (rule wp_backup_restore [where c = c and m = m], goal_cases)
    case (8 s')
    then show ?case unfolding sum.case wp_fail using undone [of s'] bad by simp
  next
    case (9 s' err)
    then show ?case using calm bad by (simp add: fails_clean_def)
  qed (use pre t f(3) in auto)
qed

text \<open>The file holds text in which every hunk is found.\<close>

definition updatable :: "ast_grep \<Rightarrow> path \<Rightarrow> rtext \<Rightarrow> patch_chunk list \<Rightarrow> node option \<Rightarrow> bool" where
  "updatable ag x path chunks n \<longleftrightarrow> (\<exists>c m t. n = Some (FileNode (Utf8 c) m) \<and> updated_text ag x path c chunks = Inr t)"

lemma updatable_text: "updatable ag x path chunks n \<Longrightarrow> is_text n"
  by (auto simp: updatable_def)

lemma wp_update_operation:
  assumes r: "ready e T (st_stamps s) (st_nodes s)" and x: "x = join_root root path" "x \<in> T"
    and y: "y = (case new_path of Some rel \<Rightarrow> join_root root rel | None \<Rightarrow> x)" "y \<in> T"
    and ok: "\<And>s' d c m t. st_nodes s x = Some (FileNode (Utf8 c) m) \<Longrightarrow> updated_text ag x path c chunks = Inr t \<Longrightarrow>
      st_nodes s' = (with_dirs (butlast y) (moved_aside e (st_nodes s) x (st_stamps s) (FileNode (Utf8 c) m)))
        (y \<mapsto> FileNode (Utf8 t) perms) \<Longrightarrow>
      st_stamps s' = Suc (Suc (st_stamps s)) \<Longrightarrow> (calm e s \<longrightarrow> calm e s') \<Longrightarrow>
      Q (Inr (Applied (UpdatedFile x y \<lparr>bk_path = tmp e x (st_stamps s), bk_kind = BackupFile\<rparr>) d)) s'"
    and bad: "\<And>s' err. fails_clean e T s s' \<Longrightarrow>
      (calm e s \<Longrightarrow> \<not> updatable ag x path chunks (st_nodes s x)) \<Longrightarrow> Q (Inl err) s'"
  shows "wp (update_operation ag root path new_path chunks perms) Q e s"
  unfolding update_operation_def x(1) [symmetric] Let_def wp_then
proof (rule wp_load_file_lines, goal_cases)
  case (2 s1 err)
  then show ?case unfolding sum.case using bad fails_clean_same [OF r] updatable_text by metis
next
  case (1 s1 c0 m0)
  note s1 = this
  have p: "tree (st_nodes s1)" "target_path x" "st_nodes s1 x \<noteq> Some DirNode"
    "st_nodes s1 (tmp e x (st_stamps s1)) = None" "good_clock e" "\<not> file_above (st_nodes s1) x"
    using r x(2) s1 by (auto simp: ready_def target_set_def)
  obtain lines had ending where l: "loaded_lines c0 = (lines, had, ending)" by (metis prod_cases3)
  show ?case
  proof (cases "compute_replacements ag x lines chunks path")
    case (Inl err)
    then show ?thesis using bad fails_clean_same [OF r, of s1] s1 l
      by (simp add: wp_simps updatable_def updated_text_def)
  next
    case (Inr rs)
    have u: "updated_text ag x path c0 chunks
        = Inr (concat (patched_writes lines rs (had \<or> list_ex is_end_of_file chunks) ending))"
      by (simp add: updated_text_def l Inr)
    show ?thesis unfolding sum.case l prod.case Inr wp_then
    proof (rule wp_snapshot_for [OF p(1-5)], goal_cases)
      case (1 s2)
      then show ?case using s1 by simp
    next
      case (3 s2 err)
      then show ?case unfolding sum.case using bad fails_clean_same [OF r, of s2] s1 p(6) by auto
    next
      case (2 s2 c m)
      have cm: "c = Utf8 c0" "m = m0" using 2(1) s1 by simp_all
      note s2 = 2(2-4) [unfolded s1(2,3) cm]
      have r2: "ready e T (st_stamps s2) (st_nodes s2)"
        using moved_aside_ready [OF r x(2) s1(1)] s2 by simp
      note w = ready_writable [OF r2 y(2)]
      have c2: "calm e s \<longrightarrow> calm e s2" using s1(4) s2(3) by blast
      have calm2: "\<not> calm e s \<Longrightarrow> Q (Inl err) s'" if "fails_clean e T s s'" for err s' using that bad by blast
      note restored = wp_restore_and_fail [where ?s0.0 = s, OF r x(2) s1(1) y(2), where ?Q = Q, OF _ _ calm2]
      note lit = writing_litter [OF w]
      show ?case
        unfolding sum.case option.case y(1) [symmetric] wp_match
      proof (rule wp_writer_create [OF w], goal_cases)
        case (2 s3 err)
        then show ?case unfolding sum.case s1(3) using c2 by (intro restored) (auto simp: s2(1,2))
      next
        case (1 s3)
        note s3 = this
        show ?case unfolding sum.case wp_match write_patched_content_def
        proof (rule wp_write_writing [OF w s3(1)], goal_cases)
          case (1 s4)
          note s4 = this
          show ?case unfolding sum.case wp_match
          proof (rule wp_commit_writing [OF w s4(1)], goal_cases)
            case (1 s5)
            then show ?case unfolding sum.case wp_return s1(3) using c2 s3(3) s4(3)
              by (intro ok [OF s1(1) u]) (auto simp: s2(1,2) s3(2) s4(2))
          next
            case (2 s5 err)
            then show ?case unfolding sum.case s1(3) using c2 s3(3) s4(3)
              by (intro restored) (auto simp: s2(1,2))
          qed
        next
          case (2 s4 err c)
          note s4 = this
          have gone: "litter (st_nodes s2) (butlast y) (tmp e y (st_stamps s2)) ((writing e (st_nodes s2) y (st_stamps s2) c)(tmp e y (st_stamps s2) := None))"
            using lit [of c] tree_remove [of "writing e (st_nodes s2) y (st_stamps s2) c" "tmp e y (st_stamps s2)"]
            by (auto simp: litter_def)
          show ?case unfolding sum.case wp_match writer_rollback_def atomic_writer.simps sys_remove_file_def
          proof (rule wp_call [where x = "()" and ns = "(st_nodes s4)(tmp e y (st_stamps s2) := None)"], goal_cases)
            case 1
            show ?case by (simp add: s4(1))
          next
            case (2 s5)
            then show ?case unfolding sum.case wp_return s1(3)
              using gone s4 c2 s3(3) by (intro restored) (auto simp: s2(1,2))
          next
            case (3 s5)
            then show ?case using lit [of c] s4 c2 s3(3) by (auto simp: wp_simps s1(3) s2(1,2) intro!: restored)
          qed
        qed
      qed
    qed
  qed
qed

end
