(* ===== verification/Patch_Rollback.thy ===== *)
theory Patch_Rollback
  imports Patch_Undo
begin

text \<open>
  Rolling back the patch transaction: what each recorded state says of the step it was recorded for, and that
  undoing the recorded states, the last one first, leads back to the files from before the first of them.
\<close>

fun op_done :: "io_env \<Rightarrow> path set \<Rightarrow> nat \<Rightarrow> operation_state \<Rightarrow> nodes \<Rightarrow> nodes \<Rightarrow> bool" where
  "op_done e T k (AddedFile x) ns ns' \<longleftrightarrow>
     x \<in> T \<and> ns x = None \<and> is_file (ns' x) \<and> keeps e T k ns (ns'(x := None))"
| "op_done e T k (DeletedFile x b) ns ns' \<longleftrightarrow>
     x \<in> T \<and> b = \<lparr>bk_path = tmp e x k, bk_kind = BackupFile\<rparr> \<and> is_file (ns x) \<and> ns' x = None
     \<and> ns' (tmp e x k) = ns x \<and> keeps e T k ns (ns'(x := ns x))"
| "op_done e T k (UpdatedFile x y b) ns ns' \<longleftrightarrow>
     x \<in> T \<and> y \<in> T \<and> b = \<lparr>bk_path = tmp e x k, bk_kind = BackupFile\<rparr> \<and> is_file (ns x) \<and> is_file (ns' y)
     \<and> (y \<noteq> x \<longrightarrow> ns' x = None) \<and> ns' (tmp e x k) = ns x \<and> keeps e T k ns (ns'(y := None, x := ns x))"

lemma is_fileE:
  assumes "is_file v"
  obtains c m where "v = Some (FileNode c m)"
  using assms by (cases v rule: is_file.cases) auto

lemma wp_undo_move:
  assumes r: "ready e T k ns" and x: "x \<in> T" "ns x = Some (FileNode c m)" and k: "k < k'"
    and tr: "tree (st_nodes s)" and old: "st_nodes s (tmp e x k) = ns x" "st_nodes s x \<noteq> Some DirNode"
    and keep: "keeps e T k ns ((st_nodes s)(x := ns x))"
    and ok: "\<And>s'. tree (st_nodes s') \<Longrightarrow> keeps e T k ns (st_nodes s') \<Longrightarrow> Q (Inr ()) s'"
    and bad: "\<And>s' err. Q (Inl err) s'"
  shows "wp (backup_restore \<lparr>bk_path = tmp e x k, bk_kind = BackupFile\<rparr> x) Q e s"
proof -
  have T: "target_set T" "good_clock e" "tree ns" using r by (auto simp: ready_def)
  note f = target_facts [OF T(1) x(1)]
  have t: "tmp e x k \<noteq> x" "tmp e x k \<noteq> butlast x" "tmp e x k \<noteq> []" using f(6,7) [OF x(1)] tmp_facts(3) [OF f(1)] by auto
  have "butlast x \<noteq> x" using f(8) [OF x(1)] by auto
  then have d: "st_nodes s (butlast x) = Some DirNode"
    using keeps_dir [OF keep f(5) parent_dir [OF T(3) f(1) x(2)]] by simp
  show ?thesis
  proof (rule wp_backup_restore [where c = c and m = m], goal_cases)
    case (8 s')
    have "tree ((st_nodes s)(tmp e x k := None))" using tree_remove [OF tr, of "tmp e x k"] old(1) x(2) by simp
    then have "tree (st_nodes s')"
      using tree_put [of "(st_nodes s)(tmp e x k := None)" x "butlast x" "last x" c m] 8 d t old(2) f(3) by auto
    moreover have "keeps e T k ns (((st_nodes s)(x := ns x))(tmp e x k := None))"
      using keeps_tmp [OF keep T(1,2) x(1)] by simp
    then have "keeps e T k ns (st_nodes s')" using 8(1) t(1) x(2) by (simp add: fun_upd_twist)
    ultimately show ?case by (rule ok)
  qed (use old x(2) d t f(3) tr bad in auto)
qed

lemma wp_rollback_state:
  assumes r: "ready e T k ns" and op: "op_done e T k st ns ns'" and k: "k < k'"
    and tr: "tree (st_nodes s)" and keep: "keeps e T k' ns' (st_nodes s)"
    and ok: "\<And>s'. tree (st_nodes s') \<Longrightarrow> keeps e T k ns (st_nodes s') \<Longrightarrow> Q (Inr ()) s'"
    and bad: "\<And>s' err. Q (Inl err) s'"
  shows "wp (rollback_state st) Q e s"
proof -
  have T: "target_set T" "good_clock e" using r by (auto simp: ready_def)
  note at = keeps_at [OF keep T(1)]
  have at_tmp: "st_nodes s (tmp e x k) = ns' (tmp e x k)" if "x \<in> T" for x
    using keep k that by (simp add: keeps_def)
  have trans: "keeps e T k ns (f (ns'))  \<Longrightarrow> keeps e T k' (f ns') (f (st_nodes s)) \<Longrightarrow> keeps e T k ns (f (st_nodes s))" for f
    using keeps_trans k less_imp_le by metis
  show ?thesis
  proof (cases st)
    case (AddedFile x)
    then have x: "x \<in> T" "is_file (ns' x)" "keeps e T k ns (ns'(x := None))" using op by simp_all
    then obtain c m where f: "st_nodes s x = Some (FileNode c m)" using at by (metis is_fileE)
    have "keeps e T k ns ((st_nodes s)(x := None))"
      using trans [of "\<lambda>g. g(x := None)"] x(3) keeps_upd [OF keep] by simp
    moreover have "tree ((st_nodes s)(x := None))" using tree_remove [OF tr] f by simp
    ultimately show ?thesis unfolding AddedFile rollback_state.simps
      by (intro wp_remove_file_entry [where c = c and m = m]) (auto simp: f intro: ok bad)
  next
    case (DeletedFile x b)
    then have x: "x \<in> T" "is_file (ns x)" "ns' x = None" "ns' (tmp e x k) = ns x" "keeps e T k ns (ns'(x := ns x))"
      and b: "b = \<lparr>bk_path = tmp e x k, bk_kind = BackupFile\<rparr>" using op by simp_all
    obtain c m where f: "ns x = Some (FileNode c m)" using x(2) by (rule is_fileE)
    have "keeps e T k ns ((st_nodes s)(x := ns x))"
      using trans [of "\<lambda>g. g(x := ns x)"] x(5) keeps_upd [OF keep] by simp
    then show ?thesis unfolding DeletedFile rollback_state.simps b
      by (intro wp_undo_move [OF r x(1) f k tr]) (auto simp: x at at_tmp ok bad)
  next
    case (UpdatedFile x y b)
    then have x: "x \<in> T" "y \<in> T" "is_file (ns x)" "is_file (ns' y)" "y \<noteq> x \<longrightarrow> ns' x = None" "ns' (tmp e x k) = ns x"
        "keeps e T k ns (ns'(y := None, x := ns x))"
      and b: "b = \<lparr>bk_path = tmp e x k, bk_kind = BackupFile\<rparr>" using op by simp_all
    obtain c m where f: "ns x = Some (FileNode c m)" using x(3) by (rule is_fileE)
    obtain c' m' where g: "st_nodes s y = Some (FileNode c' m')" using x(4) at [OF x(2)] by (metis is_fileE)
    have "keeps e T k ns ((st_nodes s)(y := None, x := ns x))"
      using trans [of "\<lambda>g. g(y := None, x := ns x)"] x(7) keeps_upd [OF keeps_upd [OF keep]] by simp
    moreover have "tree ((st_nodes s)(y := None))" using tree_remove [OF tr] g by simp
    moreover have "x \<noteq> y \<Longrightarrow> ns' x = None" using x(5) by simp
    moreover have "tmp e x k \<noteq> y" using target_facts(6) [OF T(1) x(2,1)] .
    ultimately show ?thesis unfolding UpdatedFile rollback_state.simps wp_then b
      by (intro wp_remove_file_entry [where c = c' and m = m'] g)
        (auto simp: x(1,2,6) at at_tmp ok bad split: if_splits intro!: wp_undo_move [OF r x(1) f k])
  qed
qed

lemma wp_rollback_failed: "wp (rollback_all sts (Some err)) (\<lambda>r s'. r \<noteq> Inr ()) e s"
proof (induction sts arbitrary: s)
  case (Cons st sts)
  show ?case unfolding rollback_all.simps wp_match
    by (rule wpI) (simp add: Cons.IH split: sum.splits)
qed (simp add: wp_simps)

text \<open>Rolling back \<open>sts\<close> from any state with the files of \<open>ns'\<close> gives the files of \<open>ns\<close>, if it succeeds.\<close>

definition rolls_back :: "io_env \<Rightarrow> path set \<Rightarrow> nat \<Rightarrow> nodes \<Rightarrow> operation_state list \<Rightarrow> nat \<Rightarrow> nodes \<Rightarrow> bool" where
  "rolls_back e T k ns sts k' ns' \<longleftrightarrow>
     (\<forall>s :: store. tree (st_nodes s) \<longrightarrow> keeps e T k' ns' (st_nodes s) \<longrightarrow>
        wp (rollback_all sts None) (\<lambda>r s'. r = Inr () \<longrightarrow> keeps e T k ns (st_nodes s')) e s)"

lemma rolls_back_Nil: "rolls_back e T k ns [] k ns"
  by (simp add: rolls_back_def wp_simps)

lemma rolls_back_same: "rolls_back e T k ns sts j a \<Longrightarrow> keeps e T j a b \<Longrightarrow> j \<le> k' \<Longrightarrow> rolls_back e T k ns sts k' b"
  unfolding rolls_back_def using keeps_trans by blast

lemma rolls_back_Cons:
  assumes "rolls_back e T k ns sts j a" "ready e T j a" "op_done e T j st a b" "j < k'"
  shows "rolls_back e T k ns (st # sts) k' b"
  unfolding rolls_back_def rollback_all.simps wp_match
proof (intro allI impI)
  fix s :: store assume s: "tree (st_nodes s)" "keeps e T k' b (st_nodes s)"
  show "wp (rollback_state st)
      (\<lambda>r s'. case r of
          Inl err \<Rightarrow> wp (rollback_all sts (case None of None \<Rightarrow> Some err | Some f \<Rightarrow> Some f))
            (\<lambda>r s'. r = Inr () \<longrightarrow> keeps e T k ns (st_nodes s')) e s'
        | Inr x \<Rightarrow> wp (rollback_all sts None) (\<lambda>r s'. r = Inr () \<longrightarrow> keeps e T k ns (st_nodes s')) e s') e s"
  proof (rule wp_rollback_state [OF assms(2-4) s], goal_cases)
    case (1 s')
    then show ?case using assms(1) by (simp add: rolls_back_def)
  next
    case (2 s' err)
    show ?case unfolding sum.case option.case by (rule wp_mono [OF wp_rollback_failed]) auto
  qed
qed

end
