(* ===== verification/Patch_Runs.thy ===== *)
theory Patch_Runs
  imports Patch_Rollback
begin

text \<open>
  Runs of the patch transaction against what a patch means: the abstract edit of each operation, one operation
  carried out on a ready state, and the plan, the commit and the whole run.
\<close>

section \<open>What a patch means\<close>

fun target_paths :: "path \<Rightarrow> patch_operation \<Rightarrow> path list" where
  "target_paths root (AddFile path content) = [join_root root path]"
| "target_paths root (DeleteFile path) = [join_root root path]"
| "target_paths root (UpdateFile path new_path chunks) =
     join_root root path # (case new_path of Some d \<Rightarrow> if d = path then [] else [join_root root d] | None \<Rightarrow> [])"

definition destination :: "path \<Rightarrow> rtext \<Rightarrow> rtext option \<Rightarrow> path" where
  "destination root path new_path = join_root root (case new_path of Some d \<Rightarrow> d | None \<Rightarrow> path)"

text \<open>The edit of one operation, \<open>None\<close> where it is not possible.\<close>

fun edited :: "ast_grep \<Rightarrow> path \<Rightarrow> nat \<Rightarrow> patch_operation \<Rightarrow> nodes \<Rightarrow> nodes option" where
  "edited ag root mode (AddFile path content) ns =
     (if ns (join_root root path) = None then Some (ns(join_root root path \<mapsto> FileNode (Utf8 content) mode)) else None)"
| "edited ag root mode (DeleteFile path) ns = Some (ns(join_root root path := None))"
| "edited ag root mode (UpdateFile path new_path chunks) ns =
     (let x = join_root root path; y = destination root path new_path
      in case ns x of
           Some (FileNode (Utf8 c) m) \<Rightarrow>
             (case updated_text ag x path c chunks of
                Inr t \<Rightarrow> if y = x \<or> ns y = None then Some (ns(x := None, y \<mapsto> FileNode (Utf8 t) m)) else None
              | Inl _ \<Rightarrow> None)
         | _ \<Rightarrow> None)"

fun edited_all :: "ast_grep \<Rightarrow> path \<Rightarrow> nat \<Rightarrow> patch_operation list \<Rightarrow> nodes \<Rightarrow> nodes option" where
  "edited_all ag root mode [] ns = Some ns"
| "edited_all ag root mode (op # ops) ns =
     (case edited ag root mode op ns of None \<Rightarrow> None | Some ns' \<Rightarrow> edited_all ag root mode ops ns')"

lemma updatable_edited:
  assumes "\<not> updatable ag (join_root root path) path chunks (ns (join_root root path))"
  shows "edited ag root mode (UpdateFile path new_path chunks) ns = None"
  using assms by (auto simp: updatable_def Let_def split: option.splits node.splits file_bytes.splits sum.splits)

section \<open>One operation\<close>

fun prepared_for :: "path \<Rightarrow> nodes \<Rightarrow> patch_operation \<Rightarrow> prepared_operation \<Rightarrow> bool" where
  "prepared_for root ns (AddFile path content) prep \<longleftrightarrow> prep = PrepareAdd path content \<and> ns (join_root root path) = None"
| "prepared_for root ns (DeleteFile path) prep \<longleftrightarrow> prep = PrepareDelete path"
| "prepared_for root ns (UpdateFile path new_path chunks) prep \<longleftrightarrow>
     (\<exists>n. ns (join_root root path) = Some n \<and> prep = PrepareUpdate path new_path chunks (node_mode n))
     \<and> (\<forall>d. new_path = Some d \<longrightarrow> d \<noteq> path \<longrightarrow> ns (join_root root d) = None)"

fun backup_paths :: "operation_state \<Rightarrow> path list" where
  "backup_paths (AddedFile x) = []"
| "backup_paths (DeletedFile x b) = [bk_path b]"
| "backup_paths (UpdatedFile x y b) = [bk_path b]"

text \<open>What the runner records of a step from \<open>ns\<close> to \<open>ns'\<close>.\<close>

fun recorded :: "io_env \<Rightarrow> path set \<Rightarrow> nat \<Rightarrow> nat \<Rightarrow> operation_effect \<Rightarrow> nodes \<Rightarrow> nodes \<Rightarrow> bool" where
  "recorded e T k k' (Skipped d) ns ns' \<longleftrightarrow> k' = k \<and> ns' = ns"
| "recorded e T k k' (Applied st d) ns ns' \<longleftrightarrow> k < k' \<and> op_done e T k st ns ns'
     \<and> (\<forall>y \<in> T. \<forall>i. ns' (tmp e y i) = ns (tmp e y i) \<or> is_file (ns' (tmp e y i)) \<and> tmp e y i \<in> set (backup_paths st))"

lemma put_file:
  assumes r: "ready e T k ns" and y: "y \<in> T" and k: "k \<le> k'"
    and ns'_def: "ns' = (with_dirs (butlast y) ns)(y \<mapsto> FileNode c m)"
  shows "ready e T k' ns'" "keeps e T j (ns(y \<mapsto> FileNode c m)) ns'" "keeps e T j (ns(y := None)) (ns'(y := None))"
    "z \<in> T \<Longrightarrow> ns' (tmp e z i) = ns (tmp e z i)" "z \<in> T \<Longrightarrow> z \<noteq> y \<Longrightarrow> ns' z = ns z"
proof -
  have T: "target_set T" "good_clock e" using r by (auto simp: ready_def)
  note d = writable_dir [OF ready_writable [OF r y]] and f = target_facts [OF T(1)]
  show tm: "z \<in> T \<Longrightarrow> ns' (tmp e z i) = ns (tmp e z i)" for z i
    using with_dirs_tmp [OF T(1) _ y] f(6) [OF y] by (simp add: ns'_def)
  show at: "z \<in> T \<Longrightarrow> z \<noteq> y \<Longrightarrow> ns' z = ns z" for z using with_dirs_target [OF T(1) _ y] by (simp add: ns'_def)
  show "keeps e T j (ns(y \<mapsto> FileNode c m)) ns'" "keeps e T j (ns(y := None)) (ns'(y := None))"
    using keeps_upd [OF with_dirs_keeps [OF T(1) y]] by (simp_all add: ns'_def)
  have "tree ns'"
    using tree_put [OF d(3), of y "butlast y" "last y" c m] d(4,6) f(3) [OF y] r y by (simp add: ns'_def ready_def)
  then show "ready e T k' ns'"
  proof (rule ready_step [OF r _ k])
    fix p assume "p \<notin> T"
    then show "ns' p = ns p \<or> ns' p = Some DirNode" using y by (auto simp: ns'_def with_dirs_def)
  next
    fix x assume "x \<in> T"
    then show "ns' x \<noteq> Some DirNode" using at [of x] r by (cases "x = y") (auto simp: ready_def ns'_def)
  next
    fix x i assume "x \<in> T" "k' \<le> i"
    then show "ns' (tmp e x i) = None" using tm r k by (simp add: ready_def)
  qed
qed

lemma wp_execute:
  assumes r: "ready e T (st_stamps s) (st_nodes s)" and p: "prepared_for root (st_nodes s) op prep"
    and t: "set (target_paths root op) \<subseteq> T" "distinct (target_paths root op)"
    and ok: "\<And>s' eff ns. edited ag root (ev_mode e) op (st_nodes s) = Some ns \<Longrightarrow> keeps e T 0 ns (st_nodes s') \<Longrightarrow>
      ready e T (st_stamps s') (st_nodes s') \<Longrightarrow> (calm e s \<longrightarrow> calm e s') \<Longrightarrow>
      recorded e T (st_stamps s) (st_stamps s') eff (st_nodes s) (st_nodes s') \<Longrightarrow> Q (Inr eff) s'"
    and bad: "\<And>s' err. fails_clean e T s s' \<Longrightarrow>
      (calm e s \<Longrightarrow> edited ag root (ev_mode e) op (st_nodes s) = None) \<Longrightarrow> Q (Inl err) s'"
  shows "wp (execute ag root prep) Q e s"
proof (cases op)
  case (AddFile path content)
  let ?x = "join_root root path"
  have x: "?x \<in> T" and none: "st_nodes s ?x = None" and prep: "prep = PrepareAdd path content"
    using p t by (simp_all add: AddFile)
  note put = put_file [OF r x le_SucI [OF order_refl] refl, where c = "Utf8 content" and m = "ev_mode e"]
  show ?thesis unfolding prep execute.simps
  proof (rule wp_add_operation [OF r refl x], goal_cases)
    case (1 s' d)
    have "recorded e T (st_stamps s) (st_stamps s') (Applied (AddedFile ?x) d) (st_nodes s) (st_nodes s')"
      using 1 put(3) [of "st_stamps s"] put(4) none x by (simp add: fun_upd_idem)
    then show ?case using 1 put(1) put(2) [of 0] none by (intro ok) (simp_all add: AddFile)
  qed (use bad in auto)
next
  case (DeleteFile path)
  let ?x = "join_root root path" and ?t = "tmp e (join_root root path) (st_stamps s)"
  have x: "?x \<in> T" and prep: "prep = PrepareDelete path" using p t by (simp_all add: DeleteFile)
  have T: "target_set T" "good_clock e" using r by (auto simp: ready_def)
  have tx: "?t \<noteq> ?x" using target_facts(6) [OF T(1) x x] .
  show ?thesis unfolding prep execute.simps
  proof (rule wp_delete_operation [OF r refl x], goal_cases)
    case (1 s' d)
    then show ?case using r by (intro ok) (auto simp: DeleteFile fun_upd_idem)
  next
    case (2 s' d c m)
    have "recorded e T (st_stamps s) (st_stamps s')
        (Applied (DeletedFile ?x \<lparr>bk_path = ?t, bk_kind = BackupFile\<rparr>) d) (st_nodes s) (st_nodes s')"
      using 2 x tx keeps_tmp [OF keeps_refl [of e T "st_stamps s" "st_nodes s"] T x, of "st_stamps s" "Some (FileNode c m)"]
      by (auto simp: fun_upd_twist fun_upd_idem dest: target_facts(6) [OF T(1) x])
    then show ?case
      using 2 moved_aside_ready [OF r x 2(1)] keeps_tmp [OF keeps_refl [of e T 0 "(st_nodes s)(?x := None)"] T x]
      by (intro ok) (simp_all add: DeleteFile)
  qed (use bad in auto)
next
  case (UpdateFile path new_path chunks)
  let ?x = "join_root root path" and ?y = "destination root path new_path"
  let ?t = "tmp e ?x (st_stamps s)" and ?b = "\<lparr>bk_path = tmp e (join_root root path) (st_stamps s), bk_kind = BackupFile\<rparr>"
  have x: "?x \<in> T" "?y \<in> T" and y: "?y = ?x \<or> st_nodes s ?y = None"
      "?y = (case new_path of Some rel \<Rightarrow> join_root root rel | None \<Rightarrow> ?x)"
    using p t by (auto simp: UpdateFile destination_def split: option.splits if_splits)
  obtain n where n: "st_nodes s ?x = Some n" "prep = PrepareUpdate path new_path chunks (node_mode n)"
    using p by (auto simp: UpdateFile)
  have T: "target_set T" "good_clock e" using r by (auto simp: ready_def)
  have tx: "?t \<noteq> ?x" "?t \<noteq> ?y" using target_facts(6) [OF T(1)] x by auto
  show ?thesis unfolding n(2) execute.simps
  proof (rule wp_update_operation [OF r refl x(1) y(2) x(2)], goal_cases)
    case (1 s' d c m t)
    let ?F = "FileNode (Utf8 c) m" and ?G = "FileNode (Utf8 t) m"
    let ?A = "moved_aside e (st_nodes s) ?x (st_stamps s) ?F"
    have s': "st_nodes s' = (with_dirs (butlast ?y) ?A)(?y \<mapsto> ?G)" using 1(1,3) n by simp
    note put = put_file [OF moved_aside_ready [OF r x(1) 1(1)] x(2) le_SucI [OF order_refl] s']
    have e: "edited ag root (ev_mode e) op (st_nodes s) = Some ((st_nodes s)(?x := None, ?y \<mapsto> ?G))"
      using 1(1,2) y(1) by (auto simp: UpdateFile Let_def)
    have "keeps e T 0 ((st_nodes s)(?x := None, ?y \<mapsto> ?G)) (?A(?y \<mapsto> ?G))"
      by (rule keeps_upd, rule keeps_tmp [OF keeps_refl T x(1)]) simp
    then have k: "keeps e T 0 ((st_nodes s)(?x := None, ?y \<mapsto> ?G)) (st_nodes s')"
      using keeps_trans put(2) by blast
    have "?A(?y := None, ?x := st_nodes s ?x) = (st_nodes s)(?t \<mapsto> ?F)"
      using y(1) tx 1(1) by (auto simp: fun_eq_iff)
    then have "keeps e T (st_stamps s) (st_nodes s) (?A(?y := None, ?x := st_nodes s ?x))"
      using keeps_tmp [OF keeps_refl T x(1)] by simp
    then have k': "keeps e T (st_stamps s) (st_nodes s) ((st_nodes s')(?y := None, ?x := st_nodes s ?x))"
      using keeps_trans [OF _ keeps_upd [OF put(3)]] by blast
    have "?y \<noteq> ?x \<longrightarrow> st_nodes s' ?x = None" using put(5) [OF x(1)] tx by auto
    moreover have "is_file (st_nodes s' ?y)" by (simp add: s')
    ultimately have "recorded e T (st_stamps s) (st_stamps s') (Applied (UpdatedFile ?x ?y ?b) d) (st_nodes s) (st_nodes s')"
      using 1(1,4) x k' put(4) [OF x(1), of "st_stamps s"] put(4) target_facts(6) [OF T(1) x(1)] by (auto split: if_splits)
    then show ?case using 1(4,5) put(1) k e by (intro ok) simp_all
  next
    case (2 s' err)
    then show ?case using bad updatable_edited unfolding UpdateFile by blast
  qed
qed

end
