(* ===== verification/Patch_Outcome.thy ===== *)
theory Patch_Outcome
  imports Patch_Runs
begin

text \<open>
  The plan, the commit and the run of the patch transaction: what the store holds for each result of
  \<open>apply_patch\<close>.
\<close>

section \<open>Edits and the files they read\<close>

lemma destination_cases:
  "destination root path new_path = join_root root path \<or> destination root path new_path \<in> set (target_paths root (UpdateFile path new_path cs))"
  by (auto simp: destination_def split: option.splits)

lemma edited_None_cong:
  assumes "\<And>z. z \<in> set (target_paths root op) \<Longrightarrow> a z = b z"
  shows "edited ag root m op a = None \<longleftrightarrow> edited ag root m op b = None"
proof (cases op)
  case (UpdateFile path new_path cs)
  have "a (join_root root path) = b (join_root root path)" "a (destination root path new_path) = b (destination root path new_path)"
    using assms destination_cases [of root path new_path cs] UpdateFile by auto
  then show ?thesis
    by (auto simp: UpdateFile Let_def split: option.splits node.splits file_bytes.splits sum.splits)
qed (use assms in auto)

lemma edited_elsewhere:
  assumes "edited ag root m op a = Some b" "z \<notin> set (target_paths root op)"
  shows "b z = a z"
proof (cases op)
  case (UpdateFile path new_path cs)
  then show ?thesis
    using assms destination_cases [of root path new_path cs]
    by (auto simp: Let_def split: option.splits node.splits file_bytes.splits sum.splits if_splits)
qed (use assms in \<open>auto split: if_splits\<close>)

lemma edited_keeps:
  assumes "edited ag root m op b = Some b'" "keeps e T 0 a b" "target_set T" "set (target_paths root op) \<subseteq> T"
  obtains a' where "edited ag root m op a = Some a'" "keeps e T 0 a' b'"
proof (cases op)
  case (AddFile path c)
  then show ?thesis using assms that keeps_at [OF assms(2,3)] keeps_upd [OF assms(2)] by (auto split: if_splits)
next
  case (DeleteFile path)
  then show ?thesis using assms that keeps_upd [OF assms(2)] by auto
next
  case (UpdateFile path new_path cs)
  let ?x = "join_root root path" and ?y = "destination root path new_path"
  have "?x \<in> T" "?y \<in> T" using assms(4) destination_cases [of root path new_path cs] UpdateFile by auto
  then have "a ?x = b ?x" "a ?y = b ?y" using keeps_at [OF assms(2,3)] by auto
  moreover obtain c n t where b: "b ?x = Some (FileNode (Utf8 c) n)" "updated_text ag ?x path c cs = Inr t"
    "?y = ?x \<or> b ?y = None" "b' = b(?x := None, ?y \<mapsto> FileNode (Utf8 t) n)"
    using assms(1) by (auto simp: UpdateFile Let_def split: option.splits node.splits file_bytes.splits sum.splits if_splits)
  ultimately have "edited ag root m op a = Some (a(?x := None, ?y \<mapsto> FileNode (Utf8 t) n))"
    by (auto simp: UpdateFile Let_def)
  then show ?thesis using keeps_upd [OF keeps_upd [OF assms(2)]] b(4) by (intro that) auto
qed

lemma prepared_cong:
  assumes "\<And>z. z \<in> set (target_paths root op) \<Longrightarrow> a z = b z"
  shows "prepared_for root a op prep \<longleftrightarrow> prepared_for root b op prep"
  using assms by (cases op) auto

definition all_targets :: "path \<Rightarrow> patch_operation list \<Rightarrow> path list" where
  "all_targets root ops = concat (map (target_paths root) ops)"

lemma edited_all_each:
  assumes "edited_all ag root m ops ns \<noteq> None" "distinct (all_targets root ops)" "op \<in> set ops"
  shows "edited ag root m op ns \<noteq> None"
  using assms
proof (induction ops arbitrary: ns)
  case (Cons o1 ops)
  then obtain ns1 where n: "edited ag root m o1 ns = Some ns1" "edited_all ag root m ops ns1 \<noteq> None"
    by (auto split: option.splits)
  show ?case
  proof (cases "op = o1")
    case False
    then have "op \<in> set ops" using Cons.prems(3) by simp
    then have "edited ag root m op ns1 \<noteq> None" using Cons n by (simp add: all_targets_def)
    moreover have "z \<in> set (target_paths root op) \<Longrightarrow> ns1 z = ns z" for z
      using edited_elsewhere [OF n(1), of z] Cons.prems(2) \<open>op \<in> set ops\<close> by (auto simp: all_targets_def)
    ultimately show ?thesis using edited_None_cong [of root op ns1 ns ag m] by simp
  qed (use n in simp)
qed simp

section \<open>The plan\<close>

text \<open>The errors of the checks before the first change.\<close>

fun planning_error :: "patch_error \<Rightarrow> bool" where
  "planning_error (RolledBack err) = False"
| "planning_error (Recovery err err') = False"
| "planning_error (Io action p k) \<longleftrightarrow> action = ''inspect''"
| "planning_error err = True"

lemma wp_metadata:
  assumes "\<And>s' n. st_nodes s p = Some n \<Longrightarrow> st_nodes s' = st_nodes s \<Longrightarrow> st_stamps s' = st_stamps s \<Longrightarrow>
      (calm e s \<longrightarrow> calm e s') \<Longrightarrow> Q (Inr n) s'"
    and "\<And>s'. st_nodes s p = None \<Longrightarrow> st_nodes s' = st_nodes s \<Longrightarrow> st_stamps s' = st_stamps s \<Longrightarrow>
      (calm e s \<longrightarrow> calm e s') \<Longrightarrow> Q (Inl NotFound) s'"
    and "\<And>s' k. k \<noteq> NotFound \<Longrightarrow> st_nodes s' = st_nodes s \<Longrightarrow> st_stamps s' = st_stamps s \<Longrightarrow>
      calm e s \<longrightarrow> file_above (st_nodes s) p \<Longrightarrow> Q (Inl k) s'"
  shows "wp (sys_metadata p) Q e s"
proof (cases "st_nodes s p")
  case None
  show ?thesis unfolding sys_metadata_def
    by (rule wp_call_fails [where k = "missing_kind (st_nodes s) p"])
      (use None in \<open>auto simp: missing_kind_def split: if_splits intro: assms\<close>)
next
  case (Some n)
  show ?thesis unfolding sys_metadata_def
    by (rule wp_call [where x = n and ns = "st_nodes s"]) (use Some in \<open>auto intro: assms\<close>)
qed

lemma wp_plan_operation:
  assumes t: "distinct (target_paths root op)"
    and ok: "\<And>s' prep. prepared_for root (st_nodes s) op prep \<Longrightarrow> st_nodes s' = st_nodes s \<Longrightarrow>
      st_stamps s' = st_stamps s \<Longrightarrow> (calm e s \<longrightarrow> calm e s') \<Longrightarrow> Q (Inr prep) s'"
    and bad: "\<And>s' err. planning_error err \<Longrightarrow> st_nodes s' = st_nodes s \<Longrightarrow>
      (calm e s \<Longrightarrow> edited ag root m op (st_nodes s) = None \<or> (\<exists>x \<in> set (target_paths root op). file_above (st_nodes s) x)) \<Longrightarrow>
      Q (Inl err) s'"
  shows "wp (plan_operation root op) Q e s"
proof (cases op)
  case (AddFile path content)
  show ?thesis unfolding AddFile plan_operation.simps wp_match
    by (rule wp_metadata) (auto simp: wp_simps AddFile intro: ok bad)
next
  case (DeleteFile path)
  then show ?thesis by (auto simp: wp_simps intro: ok)
next
  case (UpdateFile path new_path chunks)
  let ?x = "join_root root path"
  show ?thesis unfolding UpdateFile plan_operation.simps wp_match
  proof (rule wp_metadata, goal_cases)
    case (1 s1 n)
    note s1 = this
    show ?case
    proof (cases "n = DirNode")
      case True
      then show ?thesis using s1 by (auto simp: wp_simps UpdateFile intro: bad)
    next
      case False
      show ?thesis
      proof (cases "case new_path of None \<Rightarrow> True | Some d \<Rightarrow> d = path")
        case True
        then show ?thesis unfolding plan_destination_def using s1 False
          by (auto simp: wp_simps UpdateFile split: option.splits intro: ok)
      next
        case no: False
        then obtain d where d: "new_path = Some d" "d \<noteq> path" by (auto split: option.splits)
        then have y: "destination root path new_path = join_root root d" "join_root root d \<noteq> ?x"
          using t by (auto simp: UpdateFile destination_def)
        have gone: "edited ag root m (UpdateFile path (Some d) chunks) (st_nodes s) = None"
          if "st_nodes s (join_root root d) = Some n'" for n'
          using that y by (simp add: d(1) Let_def split: option.splits node.splits file_bytes.splits sum.splits)
        have tp: "join_root root d \<in> set (target_paths root (UpdateFile path (Some d) chunks))" using d(2) by simp
        have "wp (plan_destination root path new_path)
            (\<lambda>r s'. case r of Inl err \<Rightarrow> Q (Inl err) s' | Inr x \<Rightarrow> Q (Inr (PrepareUpdate path new_path chunks (node_mode n))) s') e s1"
          unfolding plan_destination_def d(1) option.case Let_def
          using d(2) by (simp, unfold wp_match)
            (rule wp_metadata; use s1 d tp in \<open>auto simp: wp_simps UpdateFile gone simp del: edited.simps target_paths.simps intro!: ok bad\<close>)
        then show ?thesis using False by (simp add: wp_then wp_return cong: sum.case_cong)
      qed
    qed
  qed (auto simp: wp_simps UpdateFile Let_def intro: bad)
qed

lemma wp_plan_each:
  assumes "distinct (all_targets root ops)"
    and "\<And>s' ps. list_all2 (prepared_for root (st_nodes s)) ops ps \<Longrightarrow> st_nodes s' = st_nodes s \<Longrightarrow>
      st_stamps s' = st_stamps s \<Longrightarrow> (calm e s \<longrightarrow> calm e s') \<Longrightarrow> Q (Inr ps) s'"
    and "\<And>s' err. planning_error err \<Longrightarrow> st_nodes s' = st_nodes s \<Longrightarrow>
      (calm e s \<Longrightarrow> (\<exists>op \<in> set ops. edited ag root m op (st_nodes s) = None) \<or> (\<exists>x \<in> set (all_targets root ops). file_above (st_nodes s) x)) \<Longrightarrow>
      Q (Inl err) s'"
  shows "wp (plan_each root ops) Q e s"
  using assms
proof (induction ops arbitrary: s Q)
  case Nil
  then show ?case by (simp add: wp_simps)
next
  case (Cons op ops)
  show ?case unfolding plan_each.simps wp_then
  proof (rule wp_plan_operation [where ag = ag and m = m], goal_cases)
    case 1
    show ?case using Cons.prems(1) by (simp add: all_targets_def)
  next
    case (2 s1 prep)
    note s1 = this
    show ?case unfolding sum.case wp_then wp_return
    proof (rule Cons.IH, goal_cases)
      case 1
      show ?case using Cons.prems(1) by (simp add: all_targets_def)
    next
      case (2 s2 ps)
      then show ?case unfolding sum.case using s1 by (intro Cons.prems(2)) auto
    next
      case (3 s2 err)
      then show ?case unfolding sum.case using s1 by (intro Cons.prems(3)) (auto simp: all_targets_def)
    qed
  next
    case (3 s1 err)
    then show ?case unfolding sum.case by (intro Cons.prems(3)) (auto simp: all_targets_def)
  qed
qed

section \<open>The commit\<close>

fun backup_of :: "operation_state \<Rightarrow> backup_entry option" where
  "backup_of (AddedFile x) = None"
| "backup_of (DeletedFile x b) = Some b"
| "backup_of (UpdatedFile x y b) = Some b"

definition removable :: "nodes \<Rightarrow> operation_state \<Rightarrow> bool" where
  "removable ns st \<longleftrightarrow> (case backup_of st of None \<Rightarrow> True | Some b \<Rightarrow> bk_kind b = BackupFile
     \<and> (ns (bk_path b) = None \<or> is_file (ns (bk_path b))) \<and> \<not> file_above ns (bk_path b))"

lemma file_above_remove: "file_above (ns(p := None)) q \<Longrightarrow> file_above ns q"
  by (auto simp: file_above_iff split: if_splits)

lemma removable_upd: "removable ns st \<Longrightarrow> removable (ns(p := None)) st"
  by (cases "backup_of st") (auto simp: removable_def dest: file_above_remove)

lemma wp_commit_state:
  assumes r: "removable (st_nodes s) st"
    and ok: "\<And>s'. st_nodes s' = (case backup_of st of None \<Rightarrow> st_nodes s | Some b \<Rightarrow> (st_nodes s)(bk_path b := None)) \<Longrightarrow>
      (calm e s \<longrightarrow> calm e s') \<Longrightarrow> Q (Inr ()) s'"
    and bad: "\<And>s' p k. st_nodes s' = st_nodes s \<Longrightarrow> \<not> calm e s \<Longrightarrow> Q (Inl (Io ''delete'' p k)) s'"
  shows "wp (commit_state st) Q e s"
proof (cases "backup_of st")
  case None
  then show ?thesis using ok by (cases st) (simp_all add: wp_simps)
next
  case (Some b)
  have "commit_state st = backup_remove b" using Some by (cases st) simp_all
  moreover have b: "bk_kind b = BackupFile" "\<not> file_above (st_nodes s) (bk_path b)"
    "st_nodes s (bk_path b) = None \<or> is_file (st_nodes s (bk_path b))"
    using r Some by (simp_all add: removable_def)
  have "wp (backup_remove b) Q e s"
    unfolding backup_remove_def b(1) backup_kind.case wp_match sys_remove_file_def
  proof (cases "st_nodes s (bk_path b)")
    case None
    have idem: "(st_nodes s)(bk_path b := None) = st_nodes s" using None by (simp add: fun_upd_idem)
    show "wp (syscall (\<lambda>e ns. case ns (bk_path b) of None \<Rightarrow> Inl (missing_kind ns (bk_path b))
           | Some (FileNode c m) \<Rightarrow> Inr ((), ns(bk_path b := None)) | Some DirNode \<Rightarrow> Inl IsADirectory))
        (\<lambda>r s'. case r of Inl kind \<Rightarrow> wp (if kind = NotFound then io_return () else io_fail (Io ''delete'' (bk_path b) kind)) Q e s'
          | Inr x \<Rightarrow> wp (io_return x) Q e s') e s"
      by (rule wp_call_fails [where k = NotFound])
        (use None b(2) Some idem in \<open>auto simp: missing_kind_def wp_simps intro: ok bad\<close>)
  next
    case (Some n)
    then obtain c m where "st_nodes s (bk_path b) = Some (FileNode c m)" using b(3) by (metis is_fileE option.distinct(1))
    then show "wp (syscall (\<lambda>e ns. case ns (bk_path b) of None \<Rightarrow> Inl (missing_kind ns (bk_path b))
           | Some (FileNode c m) \<Rightarrow> Inr ((), ns(bk_path b := None)) | Some DirNode \<Rightarrow> Inl IsADirectory))
        (\<lambda>r s'. case r of Inl kind \<Rightarrow> wp (if kind = NotFound then io_return () else io_fail (Io ''delete'' (bk_path b) kind)) Q e s'
          | Inr x \<Rightarrow> wp (io_return x) Q e s') e s"
      by (intro wp_call [where x = "()" and ns = "(st_nodes s)(bk_path b := None)"])
        (use \<open>backup_of st = Some b\<close> in \<open>auto simp: wp_simps intro: ok bad\<close>)
  qed
  ultimately show ?thesis by simp
qed

text \<open>Paths gone from \<open>ns\<close>, all of them when \<open>all\<close>.\<close>

definition cleared :: "path set \<Rightarrow> bool \<Rightarrow> nodes \<Rightarrow> nodes \<Rightarrow> bool" where
  "cleared D all ns ns' \<longleftrightarrow> (\<forall>p. ns' p = ns p \<or> p \<in> D \<and> ns' p = None) \<and> (all \<longrightarrow> (\<forall>p \<in> D. ns' p = None))"

lemma cleared_trans:
  assumes "cleared D True a b" "cleared D' all b c"
  shows "cleared (D \<union> D') all a c"
  unfolding cleared_def
proof (intro conjI allI impI ballI)
  fix p
  have "b p = a p \<or> p \<in> D \<and> b p = None" "c p = b p \<or> p \<in> D' \<and> c p = None"
    using assms unfolding cleared_def by blast+
  then show "c p = a p \<or> p \<in> D \<union> D' \<and> c p = None" by auto
next
  fix p assume "all" "p \<in> D \<union> D'"
  with assms show "c p = None" unfolding cleared_def by (metis Un_iff)
qed

lemma wp_commit_all:
  assumes "\<forall>st \<in> set sts. removable (st_nodes s) st"
    and "\<And>s'. cleared (set (concat (map backup_paths sts))) True (st_nodes s) (st_nodes s') \<Longrightarrow> Q (Inr ()) s'"
    and "\<And>s' p k. cleared (set (concat (map backup_paths sts))) False (st_nodes s) (st_nodes s') \<Longrightarrow> \<not> calm e s \<Longrightarrow>
      Q (Inl (Io ''delete'' p k)) s'"
  shows "wp (commit_all sts) Q e s"
  using assms
proof (induction sts arbitrary: s)
  case Nil
  then show ?case by (simp add: wp_simps cleared_def)
next
  case (Cons st sts)
  have b: "set (backup_paths st) = (case backup_of st of None \<Rightarrow> {} | Some b \<Rightarrow> {bk_path b})"
    by (cases st) simp_all
  show ?case unfolding commit_all.simps wp_then
  proof (rule wp_commit_state, goal_cases)
    case 1
    show ?case using Cons.prems(1) by simp
  next
    case (2 s1)
    note s1 = this
    have c: "cleared (set (backup_paths st)) True (st_nodes s) (st_nodes s1)"
      unfolding b s1(1) by (auto simp: cleared_def split: option.splits)
    show ?case unfolding sum.case
    proof (rule Cons.IH, goal_cases)
      case 1
      show ?case using Cons.prems(1) removable_upd unfolding s1(1) by (auto split: option.splits)
    next
      case (2 s2)
      then show ?case using cleared_trans [OF c] by (intro Cons.prems(2)) simp
    next
      case (3 s2 p k)
      then show ?case using cleared_trans [OF c] s1(2) by (intro Cons.prems(3)) auto
    qed
  next
    case (3 s1 p k)
    then show ?case unfolding sum.case by (intro Cons.prems(3)) (auto simp: cleared_def)
  qed
qed

end
