(* ===== verification/Patch_Invariant.thy ===== *)
theory Patch_Invariant
  imports Patch_Outcome
begin

text \<open>
  The invariant of a run of the patch transaction, and the result of the run: applied, rolled back, or failed
  while the backups were removed.
\<close>

definition backed_up :: "io_env \<Rightarrow> path set \<Rightarrow> operation_state \<Rightarrow> bool" where
  "backed_up e T st \<longleftrightarrow> (case backup_of st of None \<Rightarrow> True
     | Some b \<Rightarrow> bk_kind b = BackupFile \<and> (\<exists>y \<in> T. \<exists>i. bk_path b = tmp e y i))"

definition only_backups :: "io_env \<Rightarrow> path set \<Rightarrow> operation_state list \<Rightarrow> nodes \<Rightarrow> bool" where
  "only_backups e T journal ns \<longleftrightarrow> (\<forall>y \<in> T. \<forall>i. ns (tmp e y i) = None
     \<or> is_file (ns (tmp e y i)) \<and> tmp e y i \<in> set (concat (map backup_paths journal)))"

text \<open>The run started on \<open>ns0\<close>; the operations so far edit it to \<open>sp\<close>.\<close>

definition running :: "io_env \<Rightarrow> path set \<Rightarrow> nodes \<Rightarrow> operation_state list \<Rightarrow> nodes \<Rightarrow> store \<Rightarrow> bool" where
  "running e T ns0 journal sp s \<longleftrightarrow> ready e T (st_stamps s) (st_nodes s) \<and> keeps e T 0 sp (st_nodes s)
     \<and> rolls_back e T 0 ns0 journal (st_stamps s) (st_nodes s)
     \<and> only_backups e T journal (st_nodes s) \<and> (\<forall>st \<in> set journal. backed_up e T st)"

fun journal_with :: "operation_effect \<Rightarrow> operation_state list \<Rightarrow> operation_state list" where
  "journal_with (Applied st d) journal = st # journal"
| "journal_with (Skipped d) journal = journal"

lemma op_done_backed_up: "op_done e T k st ns ns' \<Longrightarrow> backed_up e T st"
  by (cases st) (auto simp: backed_up_def)

lemma running_step:
  assumes "running e T ns0 journal sp s" "recorded e T (st_stamps s) (st_stamps s') eff (st_nodes s) (st_nodes s')"
    "ready e T (st_stamps s') (st_nodes s')" "keeps e T 0 sp' (st_nodes s')"
  shows "running e T ns0 (journal_with eff journal) sp' s'"
proof (cases eff)
  case (Skipped d)
  then show ?thesis using assms by (simp add: running_def)
next
  case (Applied st d)
  have r: "rolls_back e T 0 ns0 journal (st_stamps s) (st_nodes s)" "ready e T (st_stamps s) (st_nodes s)"
    "only_backups e T journal (st_nodes s)" "\<forall>st \<in> set journal. backed_up e T st"
    using assms(1) by (simp_all add: running_def)
  have st: "st_stamps s < st_stamps s'" "op_done e T (st_stamps s) st (st_nodes s) (st_nodes s')"
    "\<And>y i. y \<in> T \<Longrightarrow> st_nodes s' (tmp e y i) = st_nodes s (tmp e y i)
       \<or> is_file (st_nodes s' (tmp e y i)) \<and> tmp e y i \<in> set (backup_paths st)"
    using assms(2) by (auto simp: Applied)
  have "only_backups e T (st # journal) (st_nodes s')"
    unfolding only_backups_def
  proof (intro ballI allI)
    fix y i assume y: "y \<in> T"
    have "st_nodes s (tmp e y i) = None \<or> is_file (st_nodes s (tmp e y i)) \<and> tmp e y i \<in> set (concat (map backup_paths journal))"
      using r(3) y unfolding only_backups_def by blast
    with st(3) [OF y, of i] show "st_nodes s' (tmp e y i) = None
      \<or> is_file (st_nodes s' (tmp e y i)) \<and> tmp e y i \<in> set (concat (map backup_paths (st # journal)))"
      by auto
  qed
  then show ?thesis
    using assms(3,4) rolls_back_Cons [OF r(1,2) st(2,1)] r(4) op_done_backed_up [OF st(2)]
    by (simp add: running_def Applied)
qed

lemma tmp_not_below_file:
  assumes "ready e T k ns" "y \<in> T"
  shows "\<not> file_above ns (tmp e y i)"
proof -
  have y: "target_path y" "y \<noteq> []" using assms target_facts(1,3) by (auto simp: ready_def)
  have "strict_prefix q (tmp e y i) \<longleftrightarrow> strict_prefix q y" for q
    using strict_prefix_butlast [OF y(2), of q] strict_prefix_butlast [OF tmp_facts(3) [OF y(1)], of q e i]
      tmp_facts(2) [OF y(1), of e i] by simp
  moreover have "\<not> file_above ns y" using assms by (simp add: ready_def)
  ultimately show ?thesis by (simp add: file_above_iff)
qed

lemma running_removable:
  assumes "running e T ns0 journal sp s" "st \<in> set journal"
  shows "removable (st_nodes s) st"
proof (cases "backup_of st")
  case (Some b)
  moreover have "backed_up e T st" using assms by (simp add: running_def)
  ultimately obtain y i where b: "bk_kind b = BackupFile" "y \<in> T" "bk_path b = tmp e y i"
    by (auto simp: backed_up_def)
  have "st_nodes s (tmp e y i) = None \<or> is_file (st_nodes s (tmp e y i))"
    using assms(1) b(2) unfolding running_def only_backups_def by blast
  moreover have "\<not> file_above (st_nodes s) (tmp e y i)"
    using tmp_not_below_file assms(1) b(2) unfolding running_def by blast
  ultimately show ?thesis using b \<open>backup_of st = Some b\<close> by (simp add: removable_def)
qed (simp add: removable_def)

lemma backup_paths_of: "p \<in> set (backup_paths st) \<Longrightarrow> \<exists>b. backup_of st = Some b \<and> p = bk_path b"
  by (cases st) auto

lemma backup_not_plain:
  assumes "target_set T" "\<forall>st \<in> set journal. backed_up e T st" "p \<in> set (concat (map backup_paths journal))"
  shows "\<not> plain_path p"
proof -
  obtain st where st: "st \<in> set journal" "p \<in> set (backup_paths st)" using assms(3) by auto
  then obtain b where "backup_of st = Some b" "p = bk_path b" using backup_paths_of by blast
  then obtain y i where "y \<in> T" "p = tmp e y i" using assms(2) st(1) by (fastforce simp: backed_up_def)
  then show ?thesis using tmp_facts(1) target_facts(1) [OF assms(1)] by simp
qed

lemma running_cleared:
  assumes "running e T ns0 journal sp s"
    "cleared (set (concat (map backup_paths journal))) all (st_nodes s) ns'"
  shows "keeps e T 0 sp ns'" "all \<Longrightarrow> y \<in> T \<Longrightarrow> ns' (tmp e y i) = None"
proof -
  have j: "target_set T" "\<forall>st \<in> set journal. backed_up e T st" using assms(1) by (auto simp: running_def ready_def)
  have "plain_path p \<Longrightarrow> ns' p = st_nodes s p" for p
    using assms(2) backup_not_plain [OF j] unfolding cleared_def by blast
  then show "keeps e T 0 sp ns'" using assms(1) by (simp add: running_def keeps_def)
  assume "all" "y \<in> T"
  moreover have "only_backups e T journal (st_nodes s)" using assms(1) by (simp add: running_def)
  ultimately show "ns' (tmp e y i) = None"
    using assms(2) unfolding cleared_def only_backups_def by metis
qed

section \<open>The run\<close>

text \<open>What the store holds when the run of \<open>ops\<close> ends with \<open>r\<close>; no call failed if \<open>quiet\<close>.\<close>

fun run_outcome :: "io_env \<Rightarrow> path set \<Rightarrow> nodes \<Rightarrow> nodes option \<Rightarrow> bool \<Rightarrow> patch_error + rtext list \<Rightarrow> nodes \<Rightarrow> bool" where
  "run_outcome e T ns0 goal quiet (Inr out) ns' \<longleftrightarrow>
     (\<exists>ns. goal = Some ns \<and> keeps e T 0 ns ns') \<and> (\<forall>y \<in> T. \<forall>i. ns' (tmp e y i) = None)"
| "run_outcome e T ns0 goal quiet (Inl (RolledBack err)) ns' \<longleftrightarrow>
     (one_fault e \<longrightarrow> keeps e T 0 ns0 ns') \<and> (quiet \<longrightarrow> goal = None)"
| "run_outcome e T ns0 goal quiet (Inl (Recovery err err')) ns' \<longleftrightarrow> (quiet \<longrightarrow> goal = None)"
| "run_outcome e T ns0 goal quiet (Inl (Io action p k)) ns' \<longleftrightarrow>
     action = ''delete'' \<and> \<not> quiet \<and> (\<exists>ns. goal = Some ns \<and> keeps e T 0 ns ns')"
| "run_outcome e T ns0 goal quiet _ ns' \<longleftrightarrow> False"

lemma run_outcome_quiet: "run_outcome e T ns0 goal q r ns' \<Longrightarrow> (quiet \<longrightarrow> q) \<Longrightarrow> run_outcome e T ns0 goal quiet r ns'"
  by (induction e T ns0 goal q r ns' rule: run_outcome.induct) auto

lemma wp_run_plan:
  assumes "running e T ns0 journal sp s" "list_all2 (prepared_for root (st_nodes s)) ops plan"
    "set (all_targets root ops) \<subseteq> T" "distinct (all_targets root ops)"
  shows "wp (run_plan ag root num index plan journal results)
    (\<lambda>r s'. run_outcome e T ns0 (edited_all ag root (ev_mode e) ops sp) (calm e s) r (st_nodes s')) e s"
  using assms
proof (induction ops arbitrary: plan journal sp s index results)
  case Nil
  then have run: "running e T ns0 journal sp s" and plan: "plan = []" by simp_all
  show ?case unfolding plan run_plan.simps wp_then
  proof (rule wp_commit_all, goal_cases)
    case 1
    show ?case using running_removable [OF run] by blast
  next
    case (2 s')
    then show ?case using running_cleared [OF run] by (simp add: wp_return)
  next
    case (3 s' p k)
    then show ?case using running_cleared(1) [OF run] by simp
  qed
next
  case (Cons op ops)
  obtain prep plan' where plan: "plan = prep # plan'" "prepared_for root (st_nodes s) op prep"
      "list_all2 (prepared_for root (st_nodes s)) ops plan'"
    using Cons.prems(2) by (auto simp: list_all2_Cons1)
  have r: "ready e T (st_stamps s) (st_nodes s)" and T: "target_set T" and sp: "keeps e T 0 sp (st_nodes s)"
    using Cons.prems(1) by (auto simp: running_def ready_def)
  have t: "set (target_paths root op) \<subseteq> T" "distinct (target_paths root op)" "set (all_targets root ops) \<subseteq> T"
    "distinct (all_targets root ops)" "set (target_paths root op) \<inter> set (all_targets root ops) = {}"
    using Cons.prems(3,4) by (auto simp: all_targets_def)
  show ?case unfolding plan(1) run_plan.simps wp_match
  proof (rule wp_execute [OF r plan(2) t(1,2)], goal_cases)
    case (1 s1 eff ns)
    obtain sp1 where sp1: "edited ag root (ev_mode e) op sp = Some sp1" "keeps e T 0 sp1 (st_nodes s1)"
    proof (rule edited_keeps [OF 1(1) sp T t(1)])
      fix a assume "edited ag root (ev_mode e) op sp = Some a" "keeps e T 0 a ns"
      then show thesis using that keeps_trans [OF _ 1(2)] by blast
    qed
    have run1: "running e T ns0 (journal_with eff journal) sp1 s1"
      by (rule running_step [OF Cons.prems(1) 1(5,3) sp1(2)])
    have "st_nodes s1 z = st_nodes s z" if "z \<in> set (all_targets root ops)" for z
    proof -
      have "z \<in> T" "z \<notin> set (target_paths root op)" using that t(3,5) by auto
      then show ?thesis using keeps_at [OF 1(2) T] edited_elsewhere [OF 1(1)] by simp
    qed
    then have "prepared_for root (st_nodes s1) op' prep' \<longleftrightarrow> prepared_for root (st_nodes s) op' prep'" if "op' \<in> set ops" for op' prep'
      using that by (intro prepared_cong) (auto simp: all_targets_def)
    then have "list_all2 (prepared_for root (st_nodes s1)) ops plan'"
      using plan(3) by (simp add: list_all2_conv_all_nth)
    then have IH: "wp (run_plan ag root num index' plan' (journal_with eff journal) results')
        (\<lambda>r s'. run_outcome e T ns0 (edited_all ag root (ev_mode e) ops sp1) (calm e s1) r (st_nodes s')) e s1" for index' results'
      by (intro Cons.IH [OF run1 _ t(3,4)])
    have IH': "wp (run_plan ag root num index' plan' (journal_with eff journal) results')
        (\<lambda>r s'. run_outcome e T ns0 (edited_all ag root (ev_mode e) (op # ops) sp) (calm e s) r (st_nodes s')) e s1" for index' results'
      by (rule wp_mono [OF IH]) (use 1(4) sp1(1) in \<open>auto intro: run_outcome_quiet\<close>)
    then show ?case by (cases eff) simp_all
  next
    case (2 s1 err)
    have none: "edited_all ag root (ev_mode e) (op # ops) sp = None" if "calm e s"
    proof -
      have "z \<in> set (target_paths root op) \<Longrightarrow> st_nodes s z = sp z" for z using keeps_at [OF sp T] t(1) by blast
      then show ?thesis using 2(2) [OF that] edited_None_cong [of root op "st_nodes s" sp] by simp
    qed
    have "wp (rollback_all journal None) (\<lambda>r s'. r = Inr () \<longrightarrow> one_fault e \<longrightarrow> keeps e T 0 ns0 (st_nodes s')) e s1"
    proof (cases "one_fault e")
      case True
      then show ?thesis
        using 2(1) Cons.prems(1) unfolding fails_clean_def running_def rolls_back_def by (auto intro: wp_mono)
    qed (simp add: wpI)
    then show ?case unfolding sum.case wp_match wp_fail
      by (rule wp_mono) (use none in \<open>auto split: sum.splits\<close>)
  qed
qed

section \<open>The whole transaction\<close>

lemma ready_later: "ready e T 0 ns \<Longrightarrow> ready e T k ns"
  by (simp add: ready_def)

text \<open>With the errors of the checks, which leave the nodes as they are.\<close>

definition patch_outcome ::
  "io_env \<Rightarrow> path set \<Rightarrow> nodes \<Rightarrow> nodes option \<Rightarrow> bool \<Rightarrow> patch_error + rtext list \<Rightarrow> nodes \<Rightarrow> bool" where
  "patch_outcome e T ns0 goal quiet r ns' \<longleftrightarrow>
     (\<exists>err. r = Inl err \<and> planning_error err \<and> ns' = ns0 \<and> (quiet \<longrightarrow> goal = None)) \<or> run_outcome e T ns0 goal quiet r ns'"

lemma wp_plan_and_run:
  assumes r: "ready e T 0 (st_nodes s)" and T: "T = set (all_targets root ops)" "distinct (all_targets root ops)" and ne: "ops \<noteq> []"
  shows "wp (io_then (plan_operations root ops) (execute_plan ag root))
    (\<lambda>r s'. patch_outcome e T (st_nodes s) (edited_all ag root (ev_mode e) ops (st_nodes s)) (calm e s) r (st_nodes s')) e s"
  unfolding wp_then plan_operations_def if_not_P [OF ne]
proof (rule wp_plan_each [OF T(2), where ag = ag and m = "ev_mode e"], goal_cases)
  case (1 s1 ps)
  have "only_backups e T [] (st_nodes s1)" using r 1(2) by (simp add: only_backups_def ready_def)
  moreover have "rolls_back e T 0 (st_nodes s) [] (st_stamps s1) (st_nodes s1)"
    by (rule rolls_back_same [OF rolls_back_Nil]) (simp_all add: 1(2))
  ultimately have run: "running e T (st_nodes s) [] (st_nodes s) s1"
    using ready_later [OF r] 1(2) by (simp add: running_def)
  have "wp (execute_plan ag root ps)
      (\<lambda>r s'. run_outcome e T (st_nodes s) (edited_all ag root (ev_mode e) ops (st_nodes s)) (calm e s1) r (st_nodes s')) e s1"
    unfolding execute_plan_def by (rule wp_run_plan [OF run]) (use 1 T in auto)
  then show ?case unfolding sum.case
    by (rule wp_mono) (use 1(4) in \<open>auto simp: patch_outcome_def intro: run_outcome_quiet\<close>)
next
  case (2 s1 err)
  have "edited_all ag root (ev_mode e) ops (st_nodes s) = None" if "calm e s"
  proof -
    have "\<not> file_above (st_nodes s) x" if "x \<in> set (all_targets root ops)" for x using r that T(1) by (simp add: ready_def)
    then obtain op where "op \<in> set ops" "edited ag root (ev_mode e) op (st_nodes s) = None" using 2(3) [OF \<open>calm e s\<close>] by auto
    then show ?thesis using edited_all_each [OF _ T(2)] by blast
  qed
  then show ?case using 2(1,2) by (simp add: patch_outcome_def)
qed

lemma apply_patch_outcome:
  assumes "ready e T 0 (st_nodes s)" "T = set (all_targets root ops)" "distinct (all_targets root ops)" "ops \<noteq> []"
    "ensure_operation_targets_within_workspace fs root ops = Inr ()" "apply_patch fs ag root ops e s = (r, s')"
  shows "patch_outcome e T (st_nodes s) (edited_all ag root (ev_mode e) ops (st_nodes s)) (calm e s) r (st_nodes s')"
  using wpD [OF wp_plan_and_run [OF assms(1-4), of ag], of r s'] assms(5,6) by (simp add: apply_patch_def)

end
