(* ===== verification/Patch_Footprint.thy ===== *)
theory Patch_Footprint
  imports Patch_Store
begin

text \<open>
  The footprint of the patch transaction, whatever calls fail and whatever the store holds: which paths each
  step can change.
\<close>

text \<open>\<open>m\<close> changes no path outside \<open>F\<close>, and what it returns satisfies \<open>P\<close>.\<close>

definition touches :: "path set \<Rightarrow> ('a \<Rightarrow> bool) \<Rightarrow> ('e, 'a) io \<Rightarrow> bool" where
  "touches F P m \<longleftrightarrow> (\<forall>e s. case m e s of (r, s') \<Rightarrow>
     (\<forall>p. p \<notin> F \<longrightarrow> st_nodes s' p = st_nodes s p) \<and> (\<forall>x. r = Inr x \<longrightarrow> P x))"

lemma touchesD:
  assumes "touches F P m" "m e s = (r, s')" "p \<notin> F"
  shows "st_nodes s' p = st_nodes s p"
  using spec [OF spec [OF assms(1) [unfolded touches_def], of e], of s] assms(2,3) by simp

named_theorems touches_rules \<open>footprints of the constructs and the calls\<close>

lemma touches_return [touches_rules]: "P x \<Longrightarrow> touches F P (io_return x)"
  by (simp add: touches_def io_return_def)

lemma touches_fail [touches_rules]: "touches F P (io_fail err)"
  by (simp add: touches_def io_fail_def)

lemma touches_then:
  assumes "touches F P m" "\<And>x. P x \<Longrightarrow> touches F Q (f x)"
  shows "touches F Q (io_then m f)"
  using assms unfolding touches_def io_then_def by (fastforce split: prod.splits sum.splits)

lemma touches_match:
  assumes "touches F P m" "\<And>x. P x \<Longrightarrow> touches F Q (f x)" "\<And>err. touches F Q (g err)"
  shows "touches F Q (io_match m f g)"
  using assms unfolding touches_def io_match_def by (fastforce split: prod.splits sum.splits)

lemma touches_action [touches_rules]: "touches F P m \<Longrightarrow> touches F P (io_action a p m)"
  unfolding io_action_def by (rule touches_match [where P = P]) (rule touches_return touches_fail | assumption)+

lemma touches_seq [touches_rules]:
  "touches F (\<lambda>_. True) m \<Longrightarrow> (\<And>x. touches F Q (f x)) \<Longrightarrow> touches F Q (io_then m f)"
  by (rule touches_then)

lemma touches_try [touches_rules]:
  "touches F (\<lambda>_. True) m \<Longrightarrow> (\<And>x. touches F Q (f x)) \<Longrightarrow> (\<And>err. touches F Q (g err)) \<Longrightarrow>
   touches F Q (io_match m f g)"
  by (rule touches_match)

lemma touches_if [touches_rules]: "(b \<Longrightarrow> touches F P m) \<Longrightarrow> (\<not> b \<Longrightarrow> touches F P n) \<Longrightarrow> touches F P (if b then m else n)"
  by simp

lemma touches_option [touches_rules]:
  "(x = None \<Longrightarrow> touches F P m) \<Longrightarrow> (\<And>y. x = Some y \<Longrightarrow> touches F P (f y)) \<Longrightarrow>
   touches F P (case x of None \<Rightarrow> m | Some y \<Rightarrow> f y)"
  by (cases x) simp_all

lemma touches_prod: "(\<And>a b. touches F P (f a b)) \<Longrightarrow> touches F P (case x of (a, b) \<Rightarrow> f a b)"
  by (cases x) simp

lemma touches_sum:
  "(\<And>a. touches F P (f a)) \<Longrightarrow> (\<And>b. touches F P (g b)) \<Longrightarrow> touches F P (case x of Inl a \<Rightarrow> f a | Inr b \<Rightarrow> g b)"
  by (cases x) simp_all

lemma touches_weaken: "touches F P m \<Longrightarrow> (\<And>x. P x \<Longrightarrow> Q x) \<Longrightarrow> touches F Q m"
  unfolding touches_def by (fastforce split: prod.splits)

lemma touches_call:
  assumes "\<And>e ns x ns' p. f e ns = Inr (x, ns') \<Longrightarrow> p \<notin> F \<Longrightarrow> ns' p = ns p"
  shows "touches F (\<lambda>x. True) (syscall f)"
  using assms by (fastforce simp: touches_def syscall_def Let_def split: sum.splits prod.splits if_splits)

text \<open>\<open>p\<close> and everything below it may change.\<close>

definition inside :: "path set \<Rightarrow> path \<Rightarrow> bool" where
  "inside F p \<longleftrightarrow> (\<forall>q. prefix p q \<longrightarrow> q \<in> F)"

lemma inside_self: "inside F p \<Longrightarrow> p \<in> F"
  by (simp add: inside_def)

lemma touches_metadata [touches_rules]: "touches F (\<lambda>x. True) (sys_metadata p)"
  unfolding sys_metadata_def by (rule touches_call) (auto split: option.splits)

lemma touches_open [touches_rules]: "touches F (\<lambda>x. True) (sys_open p)"
  unfolding sys_open_def by (rule touches_call) (auto split: option.splits)

lemma touches_read_line [touches_rules]: "touches F (\<lambda>x. True) (sys_read_line n)"
  unfolding sys_read_line_def by (rule touches_call) (auto split: node.splits file_bytes.splits)

lemma touches_flush [touches_rules]: "touches F (\<lambda>x. True) sys_flush"
  unfolding sys_flush_def by (rule touches_call) auto

lemma touches_write [touches_rules]: "inside F p \<Longrightarrow> touches F (\<lambda>x. True) (sys_write p t)"
  unfolding sys_write_def
  by (rule touches_call) (auto dest: inside_self split: option.splits node.splits file_bytes.splits)

lemma touches_create [touches_rules]: "inside F p \<Longrightarrow> touches F (\<lambda>x. True) (sys_create p)"
  unfolding sys_create_def by (rule touches_call) (auto dest: inside_self split: option.splits node.splits if_splits)

lemma touches_set_mode [touches_rules]: "inside F p \<Longrightarrow> touches F (\<lambda>x. True) (sys_set_mode p m)"
  unfolding sys_set_mode_def by (rule touches_call) (auto dest: inside_self split: option.splits node.splits)

lemma touches_remove_file [touches_rules]: "inside F p \<Longrightarrow> touches F (\<lambda>x. True) (sys_remove_file p)"
  unfolding sys_remove_file_def by (rule touches_call) (auto dest: inside_self split: option.splits node.splits)

lemma touches_remove_dir_all [touches_rules]: "inside F p \<Longrightarrow> touches F (\<lambda>x. True) (sys_remove_dir_all p)"
  unfolding sys_remove_dir_all_def inside_def by (rule touches_call) (auto split: option.splits node.splits)

lemma touches_rename [touches_rules]: "inside F a \<Longrightarrow> inside F b \<Longrightarrow> touches F (\<lambda>x. True) (sys_rename a b)"
  unfolding sys_rename_def inside_def
  by (rule touches_call) (auto simp: rename_entry_def move_entry_def split: option.splits node.splits if_splits)

text \<open>The paths a target stands for: itself and what is below it, the directories above it, and the entries
  whose name is a temporary name of the target.\<close>

definition near :: "path \<Rightarrow> path set" where
  "near x = {p. prefix x p \<or> prefix p x \<or> (\<exists>pid stamp. prefix (temp_path x pid stamp) p)}"

definition owns :: "path set \<Rightarrow> path \<Rightarrow> bool" where
  "owns F x \<longleftrightarrow> near x \<subseteq> F"

lemma owns_inside: "owns F x \<Longrightarrow> inside F x"
  by (auto simp: owns_def near_def inside_def)

definition temp_of :: "path \<Rightarrow> path \<Rightarrow> bool" where
  "temp_of x p \<longleftrightarrow> (\<exists>pid stamp. p = temp_path x pid stamp)"

lemma owns_temp: "owns F x \<Longrightarrow> temp_of x p \<Longrightarrow> inside F p"
  by (auto simp: owns_def near_def inside_def temp_of_def)

lemma touches_create_parent:
  assumes "owns F x" "path_parent x = Some q"
  shows "touches F (\<lambda>x. True) (sys_create_dir_all q)"
proof -
  have "prefix q x" using assms(2) by (auto simp: path_parent_def prefixeq_butlast split: if_splits)
  then have "prefix p q \<Longrightarrow> p \<in> F" for p
    using assms(1) prefix_order.trans [of p q x] by (auto simp: owns_def near_def)
  then show ?thesis
    unfolding sys_create_dir_all_def by (intro touches_call) (auto simp: with_dirs_def split: if_splits)
qed

lemma touches_temporary_path: "touches F (temp_of x) (temporary_path x)"
  by (auto simp: touches_def temporary_path_def temp_of_def Let_def split: option.splits)

section \<open>The writer and the backups\<close>

definition writer_for :: "path set \<Rightarrow> atomic_writer \<Rightarrow> bool" where
  "writer_for F w \<longleftrightarrow> inside F (aw_path w) \<and> inside F (aw_temp_path w)"

definition backup_for :: "path set \<Rightarrow> backup_entry \<Rightarrow> bool" where
  "backup_for F b \<longleftrightarrow> inside F (bk_path b)"

lemma touches_writer_create: "owns F x \<Longrightarrow> touches F (writer_for F) (writer_create x perms)"
  unfolding writer_create_def
  by (intro touches_seq touches_then [OF touches_temporary_path] touches_option touches_action touches_return
      touches_create_parent touches_create)
    (auto simp: writer_for_def intro: owns_inside owns_temp)

lemma touches_write_all: "writer_for F w \<Longrightarrow> touches F (\<lambda>_. True) (write_all w t)"
  unfolding write_all_def writer_for_def by (intro touches_rules) simp

lemma touches_write_each: "writer_for F w \<Longrightarrow> touches F (\<lambda>_. True) (write_each w ts)"
  by (induction ts) (auto intro!: touches_return touches_seq touches_write_all)

lemma touches_writer_commit: "writer_for F w \<Longrightarrow> touches F (\<lambda>_. True) (writer_commit w)"
  unfolding writer_commit_def writer_for_def Let_def by (intro touches_rules; simp)

lemma touches_writer_rollback: "writer_for F w \<Longrightarrow> touches F (\<lambda>_. True) (writer_rollback w)"
  unfolding writer_rollback_def writer_for_def by (intro touches_rules; simp)

lemma touches_backup_create: "owns F x \<Longrightarrow> touches F (backup_for F) (backup_create x kind)"
  unfolding backup_create_def
  by (intro touches_then [OF touches_temporary_path] touches_rules)
    (auto simp: backup_for_def intro: owns_inside owns_temp)

lemma touches_backup_remove: "backup_for F b \<Longrightarrow> touches F (\<lambda>_. True) (backup_remove b)"
  unfolding backup_remove_def backup_for_def by (cases "bk_kind b") (simp_all, (intro touches_rules; simp)+)

lemma touches_remove_entry: "inside F x \<Longrightarrow> touches F (\<lambda>_. True) (remove_existing_entry x)"
  unfolding remove_existing_entry_def by (intro touches_rules; simp)

lemma touches_backup_restore: "inside F x \<Longrightarrow> backup_for F b \<Longrightarrow> touches F (\<lambda>_. True) (backup_restore b x)"
  unfolding backup_restore_def backup_for_def by (intro touches_rules touches_remove_entry; simp)

lemma touches_snapshot_for: "owns F x \<Longrightarrow> touches F (\<lambda>b. \<forall>b'. b = Some b' \<longrightarrow> backup_for F b') (snapshot_for x)"
  unfolding snapshot_for_def
  by (intro touches_try touches_metadata touches_then [OF touches_backup_create] touches_if touches_return touches_fail) auto

section \<open>The operations and the run\<close>

fun state_in :: "path set \<Rightarrow> operation_state \<Rightarrow> bool" where
  "state_in F (AddedFile x) \<longleftrightarrow> inside F x"
| "state_in F (DeletedFile x b) \<longleftrightarrow> inside F x \<and> backup_for F b"
| "state_in F (UpdatedFile x y b) \<longleftrightarrow> inside F x \<and> inside F y \<and> backup_for F b"

fun effect_in :: "path set \<Rightarrow> operation_effect \<Rightarrow> bool" where
  "effect_in F (Applied st d) \<longleftrightarrow> state_in F st"
| "effect_in F (Skipped d) \<longleftrightarrow> True"

lemma touches_rollback_state: "state_in F st \<Longrightarrow> touches F (\<lambda>_. True) (rollback_state st)"
  by (cases st) (auto intro!: touches_remove_entry touches_backup_restore touches_seq)

lemma touches_commit_state: "state_in F st \<Longrightarrow> touches F (\<lambda>_. True) (commit_state st)"
  by (cases st) (auto intro!: touches_backup_remove touches_return)

lemma touches_rollback_all: "list_all (state_in F) sts \<Longrightarrow> touches F (\<lambda>_. True) (rollback_all sts first)"
  by (induction sts arbitrary: first)
    (auto intro!: touches_return touches_fail touches_option touches_try touches_rollback_state)

lemma touches_commit_all: "list_all (state_in F) sts \<Longrightarrow> touches F (\<lambda>_. True) (commit_all sts)"
  by (induction sts) (auto intro!: touches_return touches_seq touches_commit_state)

lemma touches_read_lines: "touches F (\<lambda>_. True) (read_lines n k)"
  by (induction k) (auto intro!: touches_rules)

lemma touches_load: "touches F (\<lambda>_. True) (load_file_lines p)"
  unfolding load_file_lines_def by (intro touches_rules touches_read_lines; simp)

lemma touches_add: "owns F (join_root root path) \<Longrightarrow> touches F (effect_in F) (add_operation root path content)"
  unfolding add_operation_def Let_def
  by (intro touches_then [OF touches_writer_create] touches_seq touches_write_all touches_writer_commit touches_return)
    (simp_all add: owns_inside)

lemma touches_delete: "owns F (join_root root path) \<Longrightarrow> touches F (effect_in F) (delete_operation root path)"
  unfolding delete_operation_def Let_def
  by (intro touches_then [OF touches_snapshot_for] touches_option touches_return) (simp_all add: owns_inside)

lemma touches_restore_and_fail: "inside F x \<Longrightarrow> backup_for F b \<Longrightarrow> touches F P (restore_and_fail b x err)"
  unfolding restore_and_fail_def by (intro touches_seq touches_backup_restore touches_fail)

lemma touches_update:
  assumes "owns F (join_root root path)" "owns F (case new_path of Some rel \<Rightarrow> join_root root rel | None \<Rightarrow> join_root root path)"
  shows "touches F (effect_in F) (update_operation ag root path new_path chunks perms)"
  unfolding update_operation_def Let_def write_patched_content_def
  by (intro touches_seq [OF touches_load] touches_prod touches_sum touches_then [OF touches_snapshot_for]
      touches_match [OF touches_writer_create] touches_option touches_try touches_write_each touches_writer_commit
      touches_writer_rollback touches_restore_and_fail touches_return touches_fail)
    (use assms in \<open>simp_all add: owns_inside\<close>)

fun prepared_in :: "path set \<Rightarrow> path \<Rightarrow> prepared_operation \<Rightarrow> bool" where
  "prepared_in F root (PrepareAdd p c) \<longleftrightarrow> owns F (join_root root p)"
| "prepared_in F root (PrepareDelete p) \<longleftrightarrow> owns F (join_root root p)"
| "prepared_in F root (PrepareUpdate p q cs m) \<longleftrightarrow> owns F (join_root root p)
     \<and> owns F (case q of Some rel \<Rightarrow> join_root root rel | None \<Rightarrow> join_root root p)"

lemma touches_execute: "prepared_in F root prep \<Longrightarrow> touches F (effect_in F) (execute ag root prep)"
  by (cases prep) (auto intro: touches_add touches_delete touches_update)

lemma touches_run_plan:
  "list_all (prepared_in F root) plan \<Longrightarrow> list_all (state_in F) journal \<Longrightarrow>
   touches F (\<lambda>_. True) (run_plan ag root num index plan journal results)"
proof (induction plan arbitrary: index journal results)
  case Nil
  then show ?case by (auto intro!: touches_seq touches_commit_all touches_return)
next
  case (Cons prep plan)
  show ?case unfolding run_plan.simps
  proof (rule touches_match [OF touches_execute], goal_cases)
    case (2 eff)
    then show ?case using Cons by (cases eff) auto
  next
    case (3 err)
    show ?case using Cons.prems(2) by (intro touches_try touches_rollback_all touches_fail)
  qed (use Cons.prems in simp)
qed

lemma touches_plan_operation:
  assumes "\<And>p. p \<in> set (operation_targets op) \<Longrightarrow> owns F (join_root root p)"
  shows "touches F (prepared_in F root) (plan_operation root op)"
  by (cases op) (use assms in \<open>auto simp: plan_destination_def Let_def
    intro!: touches_try touches_seq touches_metadata touches_return touches_fail touches_if touches_option split: option.splits\<close>)

lemma touches_plan_each:
  assumes "\<And>p. p \<in> set (concat (map operation_targets ops)) \<Longrightarrow> owns F (join_root root p)"
  shows "touches F (list_all (prepared_in F root)) (plan_each root ops)"
  using assms
proof (induction ops)
  case (Cons op ops)
  show ?case unfolding plan_each.simps
    by (rule touches_then [OF touches_plan_operation], simp add: Cons.prems,
        rule touches_then [OF Cons.IH], simp add: Cons.prems, rule touches_return) simp
qed (simp add: touches_return)

lemma touches_apply_patch:
  assumes "\<And>p. p \<in> set (concat (map operation_targets ops)) \<Longrightarrow> owns F (join_root root p)"
  shows "touches F (\<lambda>_. True) (io_then (plan_operations root ops) (execute_plan ag root))"
  unfolding plan_operations_def execute_plan_def
  by (rule touches_then [where P = "list_all (prepared_in F root)"])
    (use assms in \<open>auto intro!: touches_if touches_fail touches_plan_each touches_run_plan\<close>)

end
