(* ===== verification/Patch_Transaction_Theorems.thy ===== *)
theory Patch_Transaction_Theorems
  imports Patch_Invariant Patch_Footprint Patch_Theorems
begin

text \<open>The properties of the patch transaction: what a patch does to the files of the workspace, whichever of
  its calls to the system fail.\<close>

section \<open>The same files\<close>

text \<open>\<open>ns'\<close> has the files of \<open>ns\<close>, up to temporary names and new directories above targets.\<close>

definition same_files :: "path set \<Rightarrow> nodes \<Rightarrow> nodes \<Rightarrow> bool" where
  "same_files T ns ns' \<longleftrightarrow>
     (\<forall>p. plain_path p \<longrightarrow> ns' p = ns p \<or> ns p = None \<and> ns' p = Some DirNode \<and> (\<exists>x \<in> T. strict_prefix p x))"

lemma keeps_same_files: "keeps e T 0 ns ns' \<longleftrightarrow> same_files T ns ns'"
  by (simp add: keeps_def same_files_def)

lemma same_files_refl [simp]: "same_files T ns ns"
  by (simp add: same_files_def)

text \<open>The targets of a patch are distinct files or missing, none lies below a file or another target, no
  entry has a temporary name of theirs, and the clock never repeats.\<close>

definition patch_ready :: "io_env \<Rightarrow> path \<Rightarrow> patch_operation list \<Rightarrow> nodes \<Rightarrow> bool" where
  "patch_ready e root ops ns \<longleftrightarrow> distinct (all_targets root ops) \<and> ready e (set (all_targets root ops)) 0 ns"

lemma apply_patch_result:
  assumes "patch_ready e root ops (st_nodes s)" "apply_patch fs ag root ops e s = (r, s')"
  shows "(\<exists>err. r = Inl err \<and> st_nodes s' = st_nodes s
      \<and> (ops = [] \<or> ensure_operation_targets_within_workspace fs root ops \<noteq> Inr ()))
    \<or> patch_outcome e (set (all_targets root ops)) (st_nodes s)
        (edited_all ag root (ev_mode e) ops (st_nodes s)) (calm e s) r (st_nodes s')"
proof (cases "ops = [] \<or> ensure_operation_targets_within_workspace fs root ops \<noteq> Inr ()")
  case True
  have "\<exists>err. r = Inl err \<and> st_nodes s' = st_nodes s"
  proof (cases "ensure_operation_targets_within_workspace fs root ops")
    case (Inl err)
    then show ?thesis using assms(2) by (auto simp: apply_patch_def io_fail_def)
  next
    case (Inr u)
    then have "ops = []" using True by simp
    then show ?thesis using assms(2) Inr by (auto simp: apply_patch_def plan_operations_def io_then_def io_fail_def)
  qed
  with True show ?thesis by blast
next
  case False
  then show ?thesis
    using apply_patch_outcome [of e "set (all_targets root ops)" s root ops fs ag r s'] assms by (auto simp: patch_ready_def)
qed

lemma run_outcome_isl: "run_outcome e T ns0 goal q r ns' \<Longrightarrow> q \<Longrightarrow> isl r \<longleftrightarrow> goal = None"
  by (induction e T ns0 goal q r ns' rule: run_outcome.induct) auto


text \<open>C2: a patch is all or nothing. When at most one call to the system fails, at any point, a patch that
  ends in an error has left every file as it was, contents and modes, by undoing the operations done so far;
  or the error is the one that says that undoing failed, or that a backup could not be deleted after all
  edits were made.\<close>

theorem patch_failure_restores:
  assumes "apply_patch fs ag root ops e s = (Inl err, s')" "patch_ready e root ops (st_nodes s)" "one_fault e"
  shows "same_files (set (all_targets root ops)) (st_nodes s) (st_nodes s')
    \<or> (\<exists>cause err'. err = Recovery cause err')
    \<or> (\<exists>p k ns. err = Io ''delete'' p k \<and> edited_all ag root (ev_mode e) ops (st_nodes s) = Some ns
         \<and> same_files (set (all_targets root ops)) ns (st_nodes s'))"
  using apply_patch_result [OF assms(2,1)] assms(3)
  by (cases err) (auto simp: patch_outcome_def keeps_same_files)

text \<open>What the planner asks of the store before the first operation runs: a file to add is missing, a file to update is
  a file, and the place it moves to is free.\<close>

fun plannable :: "path \<Rightarrow> nodes \<Rightarrow> patch_operation \<Rightarrow> bool" where
  "plannable root ns (AddFile path content) \<longleftrightarrow> ns (join_root root path) = None"
| "plannable root ns (DeleteFile path) \<longleftrightarrow> True"
| "plannable root ns (UpdateFile path new_path chunks) \<longleftrightarrow> is_file (ns (join_root root path))
     \<and> (\<forall>d. new_path = Some d \<longrightarrow> d = path \<or> ns (join_root root d) = None)"

lemmas io_simps = io_then_def io_match_def io_action_def io_return_def io_fail_def

lemma metadata_result:
  assumes "sys_metadata p e s = (r, s')"
  shows "st_nodes s' = st_nodes s" "r = Inr n \<Longrightarrow> st_nodes s p = Some n" "r = Inl NotFound \<Longrightarrow> st_nodes s p = None"
  using assms by (auto simp: sys_metadata_def syscall_def Let_def split: if_splits option.splits)

lemma plan_operation_result:
  assumes "plan_operation root op e s = (r, s')"
  shows "st_nodes s' = st_nodes s \<and> (r = Inr prep \<longrightarrow> plannable root (st_nodes s) op)"
proof (cases op)
  case (AddFile path content)
  obtain r1 s1 where m: "sys_metadata (join_root root path) e s = (r1, s1)" by (metis surj_pair)
  show ?thesis using assms m metadata_result [OF m]
    by (cases r1) (auto simp: AddFile io_simps split: if_splits)
next
  case (DeleteFile path)
  with assms show ?thesis by (simp add: io_simps)
next
  case (UpdateFile path new_path chunks)
  have dest: "st_nodes s2 = st_nodes s1 \<and> (r2 = Inr () \<longrightarrow> (\<forall>d. new_path = Some d \<longrightarrow> d = path \<or> st_nodes s1 (join_root root d) = None))"
    if "plan_destination root path new_path e s1 = (r2, s2)" for r2 s1 s2
  proof (cases "\<exists>d. new_path = Some d \<and> d \<noteq> path")
    case True
    then obtain d where d: "new_path = Some d" "d \<noteq> path" by blast
    obtain r3 s3 where m: "sys_metadata (join_root root d) e s1 = (r3, s3)" by (metis surj_pair)
    show ?thesis using that d m metadata_result [OF m]
      by (cases r3) (auto simp: plan_destination_def io_simps Let_def split: if_splits)
  qed (use that in \<open>auto simp: plan_destination_def io_simps split: option.splits\<close>)
  obtain r1 s1 where m: "sys_metadata (join_root root path) e s = (r1, s1)" by (metis surj_pair)
  obtain r2 s2 where d: "plan_destination root path new_path e s1 = (r2, s2)" by (metis surj_pair)
  show ?thesis
  proof (cases r1)
    case (Inl kind)
    with assms m metadata_result(1) [OF m] show ?thesis by (auto simp: UpdateFile io_simps split: if_splits)
  next
    case (Inr n)
    then have n: "st_nodes s (join_root root path) = Some n" "st_nodes s1 = st_nodes s" using metadata_result [OF m] by simp_all
    show ?thesis using assms m Inr n d dest [OF d]
      by (cases n; cases r2) (auto simp: UpdateFile io_simps)
  qed
qed

lemma plan_each_result:
  "plan_each root ops e s = (r, s') \<Longrightarrow>
   st_nodes s' = st_nodes s \<and> (r = Inr plan \<longrightarrow> (\<forall>op \<in> set ops. plannable root (st_nodes s) op))"
proof (induction ops arbitrary: s r s' plan)
  case (Cons op ops)
  obtain r1 s1 where p: "plan_operation root op e s = (r1, s1)" by (metis surj_pair)
  obtain r2 s2 where q: "plan_each root ops e s1 = (r2, s2)" by (metis surj_pair)
  show ?case using Cons.prems p q plan_operation_result [OF p] Cons.IH [OF q]
    by (cases r1; cases r2) (auto simp: io_simps)
qed (simp add: io_simps)

lemma unplannable_refused:
  assumes "op \<in> set ops" "\<not> plannable root (st_nodes s) op"
  shows "\<exists>err s'. apply_patch fs ag root ops e s = (Inl err, s') \<and> st_nodes s' = st_nodes s"
proof -
  obtain r s' where p: "plan_each root ops e s = (r, s')" by (metis surj_pair)
  from plan_each_result [OF p] assms obtain err where "r = Inl err" "st_nodes s' = st_nodes s" by (cases r) auto
  with p show ?thesis using assms(1)
    by (auto simp: apply_patch_def plan_operations_def io_simps split: sum.splits)
qed

lemma edited_each_all:
  assumes "distinct (all_targets root ops)" "\<forall>op \<in> set ops. edited ag root m op ns \<noteq> None"
  shows "edited_all ag root m ops ns \<noteq> None"
  using assms
proof (induction ops arbitrary: ns)
  case (Cons o1 ops)
  then obtain ns1 where n: "edited ag root m o1 ns = Some ns1" by auto
  have "edited ag root m op ns1 \<noteq> None" if op: "op \<in> set ops" for op
  proof -
    have "z \<in> set (target_paths root op) \<Longrightarrow> ns1 z = ns z" for z
      using edited_elsewhere [OF n, of z] Cons.prems(1) op by (auto simp: all_targets_def)
    then show ?thesis using edited_None_cong [of root op ns1 ns ag m] Cons.prems(2) op by simp
  qed
  then show ?case using Cons n by (simp add: all_targets_def)
qed simp

lemma edited_all_None:
  "distinct (all_targets root ops) \<Longrightarrow>
   edited_all ag root m ops ns = None \<longleftrightarrow> (\<exists>op \<in> set ops. edited ag root m op ns = None)"
  by (metis edited_each_all edited_all_each)

text \<open>C27: which patches succeed. Whatever calls fail, and however the operations depend on one another, a patch is refused
  without a change when one of its operations is impossible in the store as it is before the patch: a file to add
  exists, a file to update is missing or no file, or the place it moves to is taken, even when an earlier operation of
  the same patch would have made it possible. A patch whose targets are distinct files or missing, none below another,
  and pass the containment check succeeds, when no call fails, exactly when each of its edits is possible in that
  store, every hunk of an update being found.\<close>

theorem patch_applies_iff_possible:
  "(\<forall>op \<in> set ops. \<not> plannable root (st_nodes s) op \<longrightarrow>
      (\<exists>err s'. apply_patch fs ag root ops e s = (Inl err, s') \<and> st_nodes s' = st_nodes s))
   \<and> (patch_ready e root ops (st_nodes s) \<longrightarrow> ops \<noteq> [] \<longrightarrow> calm e s \<longrightarrow>
       ensure_operation_targets_within_workspace fs root ops = Inr () \<longrightarrow>
       (isl (fst (apply_patch fs ag root ops e s)) \<longleftrightarrow>
          (\<exists>op \<in> set ops. edited ag root (ev_mode e) op (st_nodes s) = None)))"
proof (intro conjI impI ballI)
  assume ready: "patch_ready e root ops (st_nodes s)" and run: "ops \<noteq> []" "calm e s"
    "ensure_operation_targets_within_workspace fs root ops = Inr ()"
  obtain r s' where r: "apply_patch fs ag root ops e s = (r, s')" by (metis surj_pair)
  let ?goal = "edited_all ag root (ev_mode e) ops (st_nodes s)"
  from apply_patch_result [OF ready r] run
  have "patch_outcome e (set (all_targets root ops)) (st_nodes s) ?goal True r (st_nodes s')" by auto
  then have "isl r \<longleftrightarrow> ?goal = None" using run_outcome_isl by (auto simp: patch_outcome_def)
  moreover have "?goal = None \<longleftrightarrow> (\<exists>op \<in> set ops. edited ag root (ev_mode e) op (st_nodes s) = None)"
    using edited_all_None ready by (simp add: patch_ready_def)
  ultimately show "isl (fst (apply_patch fs ag root ops e s)) \<longleftrightarrow>
      (\<exists>op \<in> set ops. edited ag root (ev_mode e) op (st_nodes s) = None)" by (simp add: r)
qed (use unplannable_refused in blast)

text \<open>Two patches whose second operation depends on the first: the first is refused over any store, the second over any
  store that has the file.\<close>

lemma add_then_update_refused:
  "\<exists>err s'. apply_patch fs ag root [AddFile p c, UpdateFile p d cs] e s = (Inl err, s') \<and> st_nodes s' = st_nodes s"
proof (cases "st_nodes s (join_root root p) = None")
  case True
  then show ?thesis by (intro unplannable_refused [of "UpdateFile p d cs"]) simp_all
qed (rule unplannable_refused [of "AddFile p c"]; simp)

lemma delete_then_add_refused:
  assumes "st_nodes s (join_root root p) \<noteq> None"
  shows "\<exists>err s'. apply_patch fs ag root [DeleteFile p, AddFile p c] e s = (Inl err, s') \<and> st_nodes s' = st_nodes s"
  by (rule unplannable_refused [of "AddFile p c"]) (use assms in simp_all)

text \<open>C26: whatever the store holds and whichever calls fail, a patch changes nothing but its targets, what is
  below them, the directories above them and the temporary names next to them; and it changes nothing at all
  before every target, of every operation and every move, has passed the containment check that resolves
  links.\<close>

theorem patch_touches_only_targets:
  assumes "apply_patch fs ag root ops e s = (r, s')" "st_nodes s' p \<noteq> st_nodes s p"
  shows "(\<exists>t \<in> set (concat (map operation_targets ops)). p \<in> near (join_root root t))
    \<and> (\<forall>t \<in> set (concat (map operation_targets ops)).
         \<exists>q. ensure_path_within_workspace_resolved fs (join_root root t) root = Inr q)"
proof -
  let ?ts = "concat (map operation_targets ops)"
  have ok: "ensure_operation_targets_within_workspace fs root ops = Inr ()"
    and run: "io_then (plan_operations root ops) (execute_plan ag root) e s = (r, s')"
    using assms by (auto simp: apply_patch_def io_fail_def split: sum.splits)
  let ?F = "\<Union>t \<in> set ?ts. near (join_root root t)"
  have "touches ?F (\<lambda>_. True) (io_then (plan_operations root ops) (execute_plan ag root))"
    by (rule touches_apply_patch) (auto simp: owns_def)
  from touchesD [OF this run, of p] have "p \<in> ?F" using assms(2) by blast
  moreover have "ensure_target_within_workspace fs root t = Inr ()" if "t \<in> set ?ts" for t
    using ok that unfolding ensure_operation_targets_within_workspace_def for_each_Inr_iff by blast
  then have "\<exists>q. ensure_path_within_workspace_resolved fs (join_root root t) root = Inr q" if "t \<in> set ?ts" for t
    using that by (fastforce simp: ensure_target_within_workspace_def split: sum.splits)
  ultimately show ?thesis by auto
qed

section \<open>A workspace with two files\<close>

abbreviation demo_root :: path where
  "demo_root \<equiv> [RootDir, Normal ''w'']"

definition demo_text :: rtext where
  "demo_text = rt ''b'' @ [nl] @ rt ''c'' @ [nl]"

definition demo_result :: rtext where
  "demo_result = rt ''b'' @ [nl] @ rt ''d'' @ [nl]"

definition demo_store :: store where
  "demo_store = \<lparr>st_nodes = [[RootDir] \<mapsto> DirNode, demo_root \<mapsto> DirNode,
       demo_root @ [Normal ''a''] \<mapsto> FileNode (Utf8 (rt ''x'')) 384,
       demo_root @ [Normal ''d''] \<mapsto> FileNode (Utf8 demo_text) 420],
     st_calls = 0, st_stamps = 0\<rparr>"

definition demo_env :: io_env where
  "demo_env = \<lparr>ev_fault = (\<lambda>n. False), ev_now = Some, ev_pid = 7, ev_mode = 420\<rparr>"

definition demo_fs :: filesystem where
  "demo_fs = \<lparr>fs_canon = Inr, fs_lstat = (\<lambda>p. LNotFound), fs_stat = (\<lambda>p. Inr (False, True)), fs_exists = (\<lambda>p. False),
     fs_cwd = Inr demo_root, fs_home = None\<rparr>"

text \<open>Deletes \<open>a\<close>, adds \<open>n/b\<close> and updates \<open>d\<close>; the second patch has a hunk longer than \<open>d\<close>.\<close>

definition demo_patch :: "patch_operation list" where
  "demo_patch = [DeleteFile (rt ''a''), AddFile (rt ''n/b'') (rt ''y''), UpdateFile (rt ''d'') None [demo_chunk]]"

definition failing_patch :: "patch_operation list" where
  "failing_patch = [DeleteFile (rt ''a''), AddFile (rt ''n/b'') (rt ''y''),
     UpdateFile (rt ''d'') None [demo_chunk\<lparr>chunk_lines := replicate 3 (Removal (rt ''q''))\<rparr>]]"

lemma demo_paths:
  "join_root demo_root (rt ''a'') = [RootDir, Normal ''w'', Normal ''a'']"
  "join_root demo_root (rt ''n/b'') = [RootDir, Normal ''w'', Normal ''n'', Normal ''b'']"
  "join_root demo_root (rt ''d'') = [RootDir, Normal ''w'', Normal ''d'']"
  by code_simp+

lemma demo_targets:
  "all_targets demo_root demo_patch = [[RootDir, Normal ''w'', Normal ''a''],
     [RootDir, Normal ''w'', Normal ''n'', Normal ''b''], [RootDir, Normal ''w'', Normal ''d'']]"
  "all_targets demo_root failing_patch = all_targets demo_root demo_patch"
  by (simp_all add: all_targets_def demo_patch_def failing_patch_def demo_paths)

lemma demo_tree: "tree (st_nodes demo_store)"
proof (rule treeI)
  fix p c n assume "p \<noteq> []" "st_nodes demo_store (p @ [c]) = Some n"
  then show "st_nodes demo_store p = Some DirNode"
    by (auto simp: demo_store_def append_eq_Cons_conv split: if_splits)
qed

lemma demo_clock: "good_clock demo_env" "calm demo_env s" "one_fault demo_env"
  by (simp_all add: good_clock_def demo_env_def calm_def one_fault_def)

lemma demo_plain: "\<not> plain_path p \<Longrightarrow> st_nodes demo_store p = None"
  by (auto simp: demo_store_def plain_path_def split: if_splits)

lemma demo_ready: "patch_ready demo_env demo_root demo_patch (st_nodes demo_store)"
    "patch_ready demo_env demo_root failing_patch (st_nodes demo_store)"
proof -
  let ?T = "set (all_targets demo_root demo_patch)"
  have T: "target_set ?T"
    by (auto simp: demo_targets target_set_def target_path_def plain_path_def path_file_name_def strict_prefix_def)
  have "st_nodes demo_store x \<noteq> Some DirNode \<and> \<not> file_above (st_nodes demo_store) x
      \<and> (\<forall>i\<ge>0. st_nodes demo_store (tmp demo_env x i) = None)" if "x \<in> ?T" for x
  proof -
    have "st_nodes demo_store (tmp demo_env x i) = None" for i
      using demo_plain tmp_facts(1) target_facts(1) [OF T that] by blast
    moreover have "is_file (st_nodes demo_store q) \<Longrightarrow> q = demo_root @ [Normal ''a''] \<or> q = demo_root @ [Normal ''d'']" for q
      by (auto simp: demo_store_def split: if_splits)
    then have "\<not> file_above (st_nodes demo_store) x"
      using that by (fastforce simp: demo_targets file_above_iff strict_prefix_def)
    moreover have "st_nodes demo_store x \<noteq> Some DirNode" using that by (auto simp: demo_targets demo_store_def)
    ultimately show ?thesis by simp
  qed
  then have "ready demo_env ?T 0 (st_nodes demo_store)" using T demo_tree demo_clock by (simp add: ready_def)
  then show "patch_ready demo_env demo_root demo_patch (st_nodes demo_store)"
    "patch_ready demo_env demo_root failing_patch (st_nodes demo_store)"
    by (simp_all add: patch_ready_def demo_targets)
qed

lemma demo_updates:
  "updated_text demo_grep [RootDir, Normal ''w'', Normal ''d''] (rt ''d'') demo_text [demo_chunk] = Inr demo_result"
  "isl (updated_text demo_grep [RootDir, Normal ''w'', Normal ''d''] (rt ''d'') demo_text
     [demo_chunk\<lparr>chunk_lines := replicate 3 (Removal (rt ''q''))\<rparr>])"
proof -
  have l: "loaded_lines demo_text = ([rt ''b'', rt ''c''], True, LF)" by code_simp
  have c: "compute_replacements demo_grep [RootDir, Normal ''w'', Normal ''d''] [rt ''b'', rt ''c''] [demo_chunk] (rt ''d'')
      = Inr [(0, 2, [rt ''b'', rt ''d''])]" by code_simp
  have w: "concat (patched_writes [rt ''b'', rt ''c''] [(0, 2, [rt ''b'', rt ''d''])] True LF) = demo_result" by code_simp
  show "updated_text demo_grep [RootDir, Normal ''w'', Normal ''d''] (rt ''d'') demo_text [demo_chunk] = Inr demo_result"
    by (simp add: updated_text_def l c w)
  have "isl (compute_replacements demo_grep [RootDir, Normal ''w'', Normal ''d''] [rt ''b'', rt ''c'']
      [demo_chunk\<lparr>chunk_lines := replicate 3 (Removal (rt ''q''))\<rparr>] (rt ''d''))" by code_simp
  then show "isl (updated_text demo_grep [RootDir, Normal ''w'', Normal ''d''] (rt ''d'') demo_text
     [demo_chunk\<lparr>chunk_lines := replicate 3 (Removal (rt ''q''))\<rparr>])"
    by (auto simp: updated_text_def l isl_def)
qed

lemma demo_contained:
  "ensure_operation_targets_within_workspace demo_fs demo_root demo_patch = Inr ()"
  "ensure_operation_targets_within_workspace demo_fs demo_root failing_patch = Inr ()"
  by code_simp+

definition demo_after :: nodes where
  "demo_after = (st_nodes demo_store)(demo_root @ [Normal ''a''] := None,
     demo_root @ [Normal ''n'', Normal ''b''] \<mapsto> FileNode (Utf8 (rt ''y'')) 420,
     demo_root @ [Normal ''d''] \<mapsto> FileNode (Utf8 demo_result) 420)"

lemma demo_edited:
  "edited_all demo_grep demo_root 420 demo_patch (st_nodes demo_store) = Some demo_after"
  "edited_all demo_grep demo_root 420 failing_patch (st_nodes demo_store) = None"
proof -
  show "edited_all demo_grep demo_root 420 demo_patch (st_nodes demo_store) = Some demo_after"
    by (simp add: demo_patch_def demo_paths destination_def Let_def demo_after_def demo_store_def demo_updates(1))
  show "edited_all demo_grep demo_root 420 failing_patch (st_nodes demo_store) = None"
    using demo_updates(2)
    by (auto simp: failing_patch_def demo_paths destination_def Let_def demo_store_def isl_def)
qed

lemma demo_nonempty: "demo_patch \<noteq> []" "failing_patch \<noteq> []"
  by (simp_all add: demo_patch_def failing_patch_def)

lemma demo_at:
  assumes "same_files (set (all_targets demo_root demo_patch)) demo_after ns" "x \<in> set (all_targets demo_root demo_patch)"
  shows "ns x = demo_after x"
  using keeps_at [of demo_env _ 0 demo_after ns x] assms demo_ready(1)
  by (simp add: patch_ready_def ready_def keeps_same_files)

lemma demo_mode: "ev_mode demo_env = 420"
  by (simp add: demo_env_def)

lemma demo_runs:
  obtains out s' where "apply_patch demo_fs demo_grep demo_root demo_patch demo_env demo_store = (Inr out, s')"
    "same_files (set (all_targets demo_root demo_patch)) demo_after (st_nodes s')"
proof -
  obtain r s' where r: "apply_patch demo_fs demo_grep demo_root demo_patch demo_env demo_store = (r, s')" by (metis surj_pair)
  have o: "patch_outcome demo_env (set (all_targets demo_root demo_patch)) (st_nodes demo_store) (Some demo_after) True r (st_nodes s')"
    using apply_patch_result [OF demo_ready(1) r] demo_contained(1) demo_clock demo_nonempty
    by (auto simp: demo_mode demo_edited)
  then have "\<not> isl r" using run_outcome_isl by (fastforce simp: patch_outcome_def)
  then obtain out where "r = Inr out" by (cases r) auto
  with o r that show ?thesis by (auto simp: patch_outcome_def keeps_same_files)
qed

lemma failing_runs:
  obtains err s' where "apply_patch demo_fs demo_grep demo_root failing_patch demo_env demo_store = (Inl err, s')"
proof -
  obtain r s' where r: "apply_patch demo_fs demo_grep demo_root failing_patch demo_env demo_store = (r, s')" by (metis surj_pair)
  have "isl r"
    using apply_patch_result [OF demo_ready(2) r] run_outcome_isl by (fastforce simp: patch_outcome_def demo_mode demo_edited demo_clock)
  then show ?thesis using that r by (cases r) auto
qed


theorem patch_failure_restores_witness:
  "\<exists>err s'. apply_patch demo_fs demo_grep demo_root failing_patch demo_env demo_store = (Inl err, s')
     \<and> (same_files (set (all_targets demo_root failing_patch)) (st_nodes demo_store) (st_nodes s')
        \<or> (\<exists>cause err'. err = Recovery cause err'))"
proof -
  obtain err s' where r: "apply_patch demo_fs demo_grep demo_root failing_patch demo_env demo_store = (Inl err, s')" by (rule failing_runs)
  from patch_failure_restores [OF this demo_ready(2)] r show ?thesis by (auto simp: demo_mode demo_edited demo_clock)
qed

theorem patch_applies_iff_possible_witness:
  "\<not> isl (fst (apply_patch demo_fs demo_grep demo_root demo_patch demo_env demo_store))
   \<and> isl (fst (apply_patch demo_fs demo_grep demo_root failing_patch demo_env demo_store))
   \<and> isl (fst (apply_patch demo_fs demo_grep demo_root [DeleteFile (rt ''a''), AddFile (rt ''a'') []] demo_env demo_store))"
proof -
  note iff = patch_applies_iff_possible [of _ demo_root demo_store demo_fs demo_grep demo_env]
  have each: "(\<exists>op \<in> set ops. edited demo_grep demo_root 420 op (st_nodes demo_store) = None)
      \<longleftrightarrow> edited_all demo_grep demo_root 420 ops (st_nodes demo_store) = None"
    if "patch_ready demo_env demo_root ops (st_nodes demo_store)" for ops
    using edited_all_None that by (metis patch_ready_def)
  have "\<not> isl (fst (apply_patch demo_fs demo_grep demo_root demo_patch demo_env demo_store))"
    using iff [of demo_patch, THEN conjunct2] demo_ready(1) demo_clock(2) demo_contained(1) demo_nonempty(1)
    unfolding demo_mode each [OF demo_ready(1)] demo_edited by blast
  moreover have "isl (fst (apply_patch demo_fs demo_grep demo_root failing_patch demo_env demo_store))"
    using iff [of failing_patch, THEN conjunct2] demo_ready(2) demo_clock(2) demo_contained(2) demo_nonempty(2)
    unfolding demo_mode each [OF demo_ready(2)] demo_edited by blast
  moreover have "\<not> plannable demo_root (st_nodes demo_store) (AddFile (rt ''a'') [])"
    by (simp add: demo_paths demo_store_def)
  then have "isl (fst (apply_patch demo_fs demo_grep demo_root [DeleteFile (rt ''a''), AddFile (rt ''a'') []] demo_env demo_store))"
    using iff [of "[DeleteFile (rt ''a''), AddFile (rt ''a'') []]", THEN conjunct1] by fastforce
  ultimately show ?thesis by blast
qed

theorem patch_touches_only_targets_witness:
  "(\<exists>q. ensure_path_within_workspace_resolved demo_fs (join_root demo_root (rt ''n/b'')) demo_root = Inr q)
   \<and> (demo_root @ [Normal ''a''] \<in> near (join_root demo_root (rt ''a''))
      \<or> demo_root @ [Normal ''a''] \<in> near (join_root demo_root (rt ''n/b''))
      \<or> demo_root @ [Normal ''a''] \<in> near (join_root demo_root (rt ''d'')))"
proof -
  obtain out s' where r: "apply_patch demo_fs demo_grep demo_root demo_patch demo_env demo_store = (Inr out, s')"
    "same_files (set (all_targets demo_root demo_patch)) demo_after (st_nodes s')" by (rule demo_runs)
  have "st_nodes s' (demo_root @ [Normal ''a'']) \<noteq> st_nodes demo_store (demo_root @ [Normal ''a''])"
    using demo_at [OF r(2), of "demo_root @ [Normal ''a'']"] by (simp add: demo_targets demo_after_def demo_store_def)
  from patch_touches_only_targets [OF r(1) this] show ?thesis by (auto simp: demo_patch_def)
qed

section \<open>Two faults, and what a failed addition leaves\<close>

text \<open>Every call from number \<open>k\<close> on fails.\<close>

definition stops_at :: "nat \<Rightarrow> io_env" where
  "stops_at k = \<lparr>ev_fault = (\<lambda>n. k \<le> n), ev_now = Some, ev_pid = 7, ev_mode = 420\<rparr>"

lemmas io_defs = io_then_def io_match_def io_action_def io_return_def io_fail_def syscall_def Let_def

lemma demo_load: "load_file_lines (demo_root @ [Normal ''d'']) (stops_at 6) demo_store
   = (Inr ([rt ''b'', rt ''c''], True, LF), demo_store\<lparr>st_calls := 4\<rparr>)"
proof -
  have l: "loaded_lines demo_text = ([rt ''b'', rt ''c''], True, LF)" "length (split_inclusive demo_text) = 2" by code_simp+
  have s: "split_inclusive demo_text \<noteq> []" using l(2) by auto
  show ?thesis
  by (simp add: load_file_lines_def io_defs sys_open_def sys_read_line_def stops_at_def demo_store_def l numeral_2_eq_2)
qed

lemma small_digits: "show_nat 7 = ''7''" "show_nat 0 = ''0''"
  by (subst show_nat.simps, simp add: char_of_eq_iff)+

lemma demo_temp: "temp_path (demo_root @ [Normal ''d'']) 7 0 = demo_root @ [Normal ''.d.7.0.tmp'']"
  "temp_path (demo_root @ [Normal ''n'', Normal ''b'']) 7 0 = demo_root @ [Normal ''n'', Normal ''.b.7.0.tmp'']"
proof -
  have "to_str ''d'' \<noteq> None" "to_str ''b'' \<noteq> None"
    by (simp_all add: to_str_def utf8_def utf8_char_def scalar_value_def char_of_eq_iff)
  then show "temp_path (demo_root @ [Normal ''d'']) 7 0 = demo_root @ [Normal ''.d.7.0.tmp'']"
  "temp_path (demo_root @ [Normal ''n'', Normal ''b'']) 7 0 = demo_root @ [Normal ''n'', Normal ''.b.7.0.tmp'']"
  by (simp_all add: temp_path_def temp_name_def path_parent_def path_file_name_def small_digits)
qed

lemma demo_snapshot: "snapshot_for (demo_root @ [Normal ''d'']) (stops_at 6) (demo_store\<lparr>st_calls := 4\<rparr>)
   = (Inr (Some \<lparr>bk_path = demo_root @ [Normal ''.d.7.0.tmp''], bk_kind = BackupFile\<rparr>),
      \<lparr>st_nodes = (st_nodes demo_store)(demo_root @ [Normal ''d''] := None, demo_root @ [Normal ''.d.7.0.tmp''] \<mapsto> FileNode (Utf8 demo_text) 420),
       st_calls = 6, st_stamps = 1\<rparr>)"
proof -
  have m: "move_entry (demo_root @ [Normal ''d'']) (demo_root @ [Normal ''.d.7.0.tmp'']) (st_nodes demo_store)
    = (st_nodes demo_store)(demo_root @ [Normal ''d''] := None, demo_root @ [Normal ''.d.7.0.tmp''] \<mapsto> FileNode (Utf8 demo_text) 420)"
    by (rule move_file [OF demo_tree]) (simp_all add: demo_store_def)
  have n: "st_nodes demo_store (demo_root @ [Normal ''d'']) = Some (FileNode (Utf8 demo_text) 420)"
     "st_nodes demo_store demo_root = Some DirNode" "st_nodes demo_store (demo_root @ [Normal ''.d.7.0.tmp'']) = None"
    by (simp_all add: demo_store_def)
  have r: "rename_entry (demo_root @ [Normal ''d'']) (demo_root @ [Normal ''.d.7.0.tmp'']) (st_nodes demo_store)
    = Inr ((), (st_nodes demo_store)(demo_root @ [Normal ''d''] := None, demo_root @ [Normal ''.d.7.0.tmp''] \<mapsto> FileNode (Utf8 demo_text) 420))"
    using m n by (simp add: rename_entry_def)
  show ?thesis
    using n(1) r demo_temp(1) by (simp add: snapshot_for_def backup_create_def io_defs sys_metadata_def temporary_path_def sys_rename_def stops_at_def demo_store_def)
qed

text \<open>With a second fault in the same update the file is gone, and the error still says that the patch was
  rolled back: the failed restore is reported as the cause of an empty rollback.\<close>

theorem rolled_back_without_file:
  "\<exists>s'. execute_plan demo_grep demo_root [PrepareUpdate (rt ''d'') None [demo_chunk] 420] (stops_at 6) demo_store
     = (Inl (RolledBack (Io ''restore'' (demo_root @ [Normal ''d'']) OtherError)), s')
   \<and> st_nodes s' (demo_root @ [Normal ''d'']) = None"
proof -
  have c: "compute_replacements demo_grep (demo_root @ [Normal ''d'']) [rt ''b'', rt ''c''] [demo_chunk] (rt ''d'')
      = Inr [(0, 2, [rt ''b'', rt ''d''])]" by code_simp
  show ?thesis
    using demo_load demo_snapshot c demo_paths(3)
    by (simp add: execute_plan_def update_operation_def writer_create_def restore_and_fail_def backup_restore_def io_defs
      path_parent_def sys_create_dir_all_def sys_rename_def stops_at_def)
qed

text \<open>A failed write leaves the temporary file of an added file behind.\<close>

theorem failed_add_leaves_temporary_file:
  "\<exists>s'. execute_plan demo_grep demo_root [PrepareAdd (rt ''n/b'') (rt ''y'')] (stops_at 2) demo_store
     = (Inl (RolledBack (Io ''write'' (demo_root @ [Normal ''n'', Normal ''.b.7.0.tmp'']) OtherError)), s')
   \<and> st_nodes s' (demo_root @ [Normal ''n'', Normal ''.b.7.0.tmp'']) = Some (FileNode (Utf8 []) 420)"
  using demo_temp(2) demo_paths(2)
  by (simp add: execute_plan_def add_operation_def writer_create_def write_all_def io_defs path_parent_def
      sys_create_dir_all_def sys_create_def sys_write_def stops_at_def temporary_path_def demo_store_def with_dirs_def
      file_above_def upt_rec)

end
