(* ===== verification/Diff_Model.thy ===== *)
theory Diff_Model
  imports Patch_Text
begin

text \<open>
  The structured diffs of \<^verbatim>\<open>crates/common/vtcode-diff/src/lib.rs\<close>: splitting into lines, the document computed
  from two texts, the parser and the printer of unified diffs, and the chunks of characters. The alignment is
  computed by the crate \<open>similar\<close>, a parameter (\<open>diff_lib\<close>): the groups of changes of two lists of lines, and the
  changes of two texts by character and by word. Line numbers are 32-bit and saturate.
\<close>

section \<open>The types\<close>

datatype diff_algorithm = Myers | Patience | Histogram

datatype change_tag = TagEqual | TagDelete | TagInsert

record change =
  ch_tag :: change_tag
  ch_old_index :: "nat option"
  ch_new_index :: "nat option"
  ch_value :: rtext

text \<open>What the library answers: for each group of operations, the changes of each operation.\<close>

record diff_lib =
  lib_groups :: "diff_algorithm \<Rightarrow> nat \<Rightarrow> rtext list \<Rightarrow> rtext list \<Rightarrow> nat \<Rightarrow> change list list list"
  lib_chars :: "rtext \<Rightarrow> rtext \<Rightarrow> change list"
  lib_words :: "rtext \<Rightarrow> rtext \<Rightarrow> change list"
  lib_alike :: "rtext \<Rightarrow> rtext \<Rightarrow> bool"  \<comment> \<open>the ratio of the word diff is at least 0.35\<close>
  lib_char_width :: "rchar \<Rightarrow> nat option"
  lib_text_width :: "rtext \<Rightarrow> nat"

datatype chunk = EqualChunk rtext | DeleteChunk rtext | InsertChunk rtext

record diff_options =
  context_lines :: nat
  old_label :: "rtext option"
  new_label :: "rtext option"
  missing_newline_hint :: bool
  algorithm :: diff_algorithm
  timeout :: nat
  inline_timeout :: nat

definition default_inline_timeout :: nat where
  "default_inline_timeout = 40"

definition default_diff_options :: diff_options where
  "default_diff_options = \<lparr>context_lines = 3, old_label = None, new_label = None, missing_newline_hint = True,
     algorithm = Myers, timeout = 200, inline_timeout = 40\<rparr>"

datatype diff_line_kind = KContext | KAddition | KDeletion

record diff_line =
  dl_kind :: diff_line_kind
  dl_old_line :: "nat option"
  dl_new_line :: "nat option"
  dl_text :: rtext

record diff_hunk =
  old_start :: nat
  old_lines :: nat
  new_start :: nat
  new_lines :: nat
  hunk_lines :: "diff_line list"

record diff_stats =
  ds_additions :: nat
  ds_deletions :: nat
  ds_context :: nat
  ds_hunks :: nat
  ds_omitted_rows :: nat

record diff_document =
  dd_hunks :: "diff_hunk list"
  dd_stats :: diff_stats
  dd_inline_timeout :: nat

section \<open>Lines\<close>

text \<open>The first line with its terminator, and the rest: a line ends at \<open>\r\n\<close>, \<open>\n\<close> or a lone \<open>\r\<close>.\<close>

fun take_line :: "rtext \<Rightarrow> rtext \<times> rtext" where
  "take_line [] = ([], [])"
| "take_line (c # s) =
     (if c = nl then ([nl], s)
      else if c = cr then (if s \<noteq> [] \<and> hd s = nl then ([cr, nl], tl s) else ([cr], s))
      else case take_line s of (l, r) \<Rightarrow> (c # l, r))"

lemma take_line_append: "take_line s = (l, r) \<Longrightarrow> l @ r = s"
  by (induction s arbitrary: l r) (auto split: if_splits prod.splits simp: neq_Nil_conv)

lemma take_line_shorter: "s \<noteq> [] \<Longrightarrow> length (snd (take_line s)) < length s"
proof -
  assume "s \<noteq> []"
  obtain l r where t: "take_line s = (l, r)" by (cases "take_line s")
  then have "l \<noteq> []" using \<open>s \<noteq> []\<close> by (cases s) (auto split: if_splits prod.splits)
  then show ?thesis using take_line_append [OF t] t by (cases l) auto
qed

function split_line_slices :: "rtext \<Rightarrow> rtext list" where
  "split_line_slices s = (if s = [] then [] else fst (take_line s) # split_line_slices (snd (take_line s)))"
  by auto
termination by (relation "measure length") (auto simp: take_line_shorter)

declare split_line_slices.simps [simp del]

definition trim_line_ending :: "rtext \<Rightarrow> rtext" where
  "trim_line_ending t =
     (if suffix [cr, nl] t then butlast (butlast t)
      else if t \<noteq> [] \<and> (last t = nl \<or> last t = cr) then butlast t
      else t)"

section \<open>The document of two texts\<close>

definition one_based_u32 :: "nat \<Rightarrow> nat option" where
  "one_based_u32 i = (if i + 1 < 2 ^ 32 then Some (i + 1) else None)"

fun line_of_change :: "change \<Rightarrow> diff_line" where
  "line_of_change c =
     (case ch_tag c of
        TagEqual \<Rightarrow> \<lparr>dl_kind = KContext, dl_old_line = Option.bind (ch_old_index c) one_based_u32,
                     dl_new_line = Option.bind (ch_new_index c) one_based_u32, dl_text = ch_value c\<rparr>
      | TagDelete \<Rightarrow> \<lparr>dl_kind = KDeletion, dl_old_line = Option.bind (ch_old_index c) one_based_u32,
                      dl_new_line = None, dl_text = ch_value c\<rparr>
      | TagInsert \<Rightarrow> \<lparr>dl_kind = KAddition, dl_old_line = None,
                      dl_new_line = Option.bind (ch_new_index c) one_based_u32, dl_text = ch_value c\<rparr>)"

fun find_map :: "('a \<Rightarrow> 'b option) \<Rightarrow> 'a list \<Rightarrow> 'b option" where
  "find_map f [] = None"
| "find_map f (x # xs) = (case f x of Some y \<Rightarrow> Some y | None \<Rightarrow> find_map f xs)"

definition hunk_start_from_lines :: "diff_line list \<Rightarrow> bool \<Rightarrow> nat" where
  "hunk_start_from_lines ls old_side =
     (case find_map (if old_side then dl_old_line else dl_new_line) ls of
        Some n \<Rightarrow> max n 1
      | None \<Rightarrow>
          (case find_map (if old_side then dl_new_line else dl_old_line) ls of
             Some n \<Rightarrow> max n 1
           | None \<Rightarrow> 1))"

definition count_old :: "diff_line list \<Rightarrow> nat" where
  "count_old ls = length (filter (\<lambda>l. dl_kind l \<noteq> KAddition) ls)"

definition count_new :: "diff_line list \<Rightarrow> nat" where
  "count_new ls = length (filter (\<lambda>l. dl_kind l \<noteq> KDeletion) ls)"

definition hunk_of_group :: "change list list \<Rightarrow> diff_hunk" where
  "hunk_of_group grp =
     (let ls = map line_of_change (concat grp)
      in \<lparr>old_start = hunk_start_from_lines ls True, old_lines = count_old ls,
          new_start = hunk_start_from_lines ls False, new_lines = count_new ls, hunk_lines = ls\<rparr>)"

fun count_line :: "diff_line \<Rightarrow> diff_stats \<Rightarrow> diff_stats" where
  "count_line l st =
     (case dl_kind l of
        KContext \<Rightarrow> st\<lparr>ds_context := ds_context st + 1\<rparr>
      | KAddition \<Rightarrow> st\<lparr>ds_additions := ds_additions st + 1\<rparr>
      | KDeletion \<Rightarrow> st\<lparr>ds_deletions := ds_deletions st + 1\<rparr>)"

definition from_hunks :: "diff_hunk list \<Rightarrow> diff_document" where
  "from_hunks hunks =
     \<lparr>dd_hunks = hunks,
      dd_stats = fold count_line (concat (map hunk_lines hunks))
        \<lparr>ds_additions = 0, ds_deletions = 0, ds_context = 0, ds_hunks = length hunks, ds_omitted_rows = 0\<rparr>,
      dd_inline_timeout = default_inline_timeout\<rparr>"

definition between :: "diff_lib \<Rightarrow> rtext \<Rightarrow> rtext \<Rightarrow> diff_options \<Rightarrow> diff_document" where
  "between lib old new opts =
     (let groups = lib_groups lib (algorithm opts) (timeout opts) (split_line_slices old) (split_line_slices new)
                     (context_lines opts)
      in (from_hunks (map hunk_of_group (filter (\<lambda>g. g \<noteq> []) groups)))\<lparr>dd_inline_timeout := inline_timeout opts\<rparr>)"

record diff_bundle =
  db_hunks :: "diff_hunk list"
  db_formatted :: rtext
  db_is_empty :: bool

definition compute_diff ::
  "diff_lib \<Rightarrow> rtext \<Rightarrow> rtext \<Rightarrow> diff_options \<Rightarrow> (diff_hunk list \<Rightarrow> diff_options \<Rightarrow> rtext) \<Rightarrow> diff_bundle" where
  "compute_diff lib old new opts formatter =
     (if old = new then \<lparr>db_hunks = [], db_formatted = [], db_is_empty = True\<rparr>
      else let hunks = dd_hunks (between lib old new opts)
           in \<lparr>db_hunks = hunks, db_formatted = formatter hunks opts, db_is_empty = False\<rparr>)"

record diff_change_counts =
  dc_additions :: nat
  dc_deletions :: nat

definition total_changes :: "diff_change_counts \<Rightarrow> nat" where
  "total_changes c = dc_additions c + dc_deletions c"

fun count_change :: "diff_line \<Rightarrow> diff_change_counts \<Rightarrow> diff_change_counts" where
  "count_change l c =
     (case dl_kind l of
        KAddition \<Rightarrow> c\<lparr>dc_additions := dc_additions c + 1\<rparr>
      | KDeletion \<Rightarrow> c\<lparr>dc_deletions := dc_deletions c + 1\<rparr>
      | KContext \<Rightarrow> c)"

definition count_diff_changes :: "diff_hunk list \<Rightarrow> diff_change_counts" where
  "count_diff_changes hunks =
     fold count_change (concat (map hunk_lines hunks)) \<lparr>dc_additions = 0, dc_deletions = 0\<rparr>"

section \<open>Printing\<close>

definition format_unified_range :: "nat \<Rightarrow> nat \<Rightarrow> rtext" where
  "format_unified_range start count =
     (if count = 0 then rt (show_nat (start - 1)) @ rt '',0''
      else if count = 1 then rt (show_nat start)
      else rt (show_nat start) @ rt '','' @ rt (show_nat count))"

definition format_hunk_header :: "nat \<Rightarrow> nat \<Rightarrow> nat \<Rightarrow> nat \<Rightarrow> rtext" where
  "format_hunk_header os oc ns nc =
     rt ''@@ -'' @ format_unified_range os oc @ rt '' +'' @ format_unified_range ns nc @ rt '' @@''"

fun kind_prefix :: "diff_line_kind \<Rightarrow> rchar" where
  "kind_prefix KContext = 32"
| "kind_prefix KAddition = 43"
| "kind_prefix KDeletion = 45"

definition no_newline_marker :: rtext where
  "no_newline_marker = 92 # rt '' No newline at end of file''"

definition format_line :: "bool \<Rightarrow> diff_line \<Rightarrow> rtext" where
  "format_line hint l =
     kind_prefix (dl_kind l) # trim_line_ending (dl_text l) @ [nl]
     @ (if hint \<and> \<not> (dl_text l \<noteq> [] \<and> (last (dl_text l) = nl \<or> last (dl_text l) = cr))
        then no_newline_marker @ [nl] else [])"

definition format_hunk :: "bool \<Rightarrow> diff_hunk \<Rightarrow> rtext" where
  "format_hunk hint h =
     rt ''@@ -'' @ format_unified_range (old_start h) (old_lines h) @ rt '' +''
     @ format_unified_range (new_start h) (new_lines h) @ rt '' @@'' @ [nl]
     @ concat (map (format_line hint) (hunk_lines h))"

definition format_unified_hunks :: "diff_hunk list \<Rightarrow> diff_options \<Rightarrow> rtext" where
  "format_unified_hunks hunks opts =
     (if hunks = [] then []
      else (case (old_label opts, new_label opts) of
              (Some o_label, Some n_label) \<Rightarrow> rt ''--- '' @ o_label @ [nl] @ rt ''+++ '' @ n_label @ [nl]
            | _ \<Rightarrow> [])
           @ concat (map (format_hunk (missing_newline_hint opts)) hunks))"

definition format_unified_diff :: "diff_lib \<Rightarrow> rtext \<Rightarrow> rtext \<Rightarrow> diff_options \<Rightarrow> rtext" where
  "format_unified_diff lib old new opts = format_unified_hunks (dd_hunks (between lib old new opts)) opts"

section \<open>Parsing\<close>

definition u32_limit :: nat where
  "u32_limit = 2 ^ 32 - 1"

definition sat_u32 :: "nat \<Rightarrow> nat" where
  "sat_u32 n = min n u32_limit"

definition sat_add_u32 :: "nat \<Rightarrow> nat \<Rightarrow> nat" where
  "sat_add_u32 a b = sat_u32 (a + b)"

definition parse_u32_text :: "rtext \<Rightarrow> nat option" where
  "parse_u32_text s = (case number_of_text s of Some n \<Rightarrow> if n < 2 ^ 32 then Some n else None | None \<Rightarrow> None)"

text \<open>\<open>splitn(2, ',')\<close>: before the first comma, and after it.\<close>

fun split_comma :: "rtext \<Rightarrow> rtext \<times> rtext option" where
  "split_comma [] = ([], None)"
| "split_comma (c # s) = (if c = 44 then ([], Some s) else case split_comma s of (a, b) \<Rightarrow> (c # a, b))"

definition parse_range :: "rtext \<Rightarrow> rchar \<Rightarrow> (nat \<times> nat) option" where
  "parse_range value marker =
     do { range \<leftarrow> strip_text [marker] value;
          start \<leftarrow> parse_u32_text (fst (split_comma range));
          count \<leftarrow> (case snd (split_comma range) of None \<Rightarrow> Some 1 | Some c \<Rightarrow> number_of_text c);
          Some (start, count) }"

text \<open>\<open>split(" @@").next()\<close>: the text before the first occurrence.\<close>

fun before_text :: "rtext \<Rightarrow> rtext \<Rightarrow> rtext" where
  "before_text p [] = []"
| "before_text p (c # s) = (if prefix p (c # s) then [] else c # before_text p s)"

definition parse_hunk_range :: "rtext \<Rightarrow> (nat \<times> nat \<times> nat \<times> nat) option" where
  "parse_hunk_range line =
     do { rest \<leftarrow> strip_text (rt ''@@ '') line;
          let parts = words (before_text (rt '' @@'') rest);
          old_part \<leftarrow> (case parts of [] \<Rightarrow> None | p # _ \<Rightarrow> Some p);
          (os, oc) \<leftarrow> parse_range old_part 45;
          new_part \<leftarrow> (case parts of _ # p # _ \<Rightarrow> Some p | _ \<Rightarrow> None);
          (ns, nc) \<leftarrow> parse_range new_part 43;
          Some (os, oc, ns, nc) }"

definition parse_hunk_starts :: "rtext \<Rightarrow> (nat \<times> nat) option" where
  "parse_hunk_starts line = map_option (\<lambda>(os, _, ns, _). (os, ns)) (parse_hunk_range line)"

definition strip_suffix_text :: "rtext \<Rightarrow> rtext \<Rightarrow> rtext option" where
  "strip_suffix_text p s = (if suffix p s then Some (take (length s - length p) s) else None)"

definition parse_omitted_line_count :: "rtext \<Rightarrow> nat option" where
  "parse_omitted_line_count line =
     do { a \<leftarrow> strip_text (rt ''... '') (rtrim line);
          b \<leftarrow> strip_suffix_text (rt '' lines omitted ...'') a;
          number_of_text b }"

definition metadata_prefixes :: "string list" where
  "metadata_prefixes =
     [''--- '', ''+++ '', ''new file mode '', ''deleted file mode '', ''rename from '', ''rename to '',
      ''copy from '', ''copy to '', ''similarity index '', ''dissimilarity index '', ''old mode '', ''new mode '',
      ''Binary files '', ''literal '', ''delta '']"

definition is_unified_metadata_line :: "rtext \<Rightarrow> bool" where
  "is_unified_metadata_line line \<longleftrightarrow>
     list_ex (\<lambda>p. prefix (rt p) line) metadata_prefixes \<or> line = rt ''GIT binary patch''"

definition validate_hunk_counts :: "diff_hunk \<Rightarrow> nat \<Rightarrow> nat \<Rightarrow> string + unit" where
  "validate_hunk_counts h expected_old expected_new =
     (if old_lines h = expected_old \<and> new_lines h = expected_new then Inr ()
      else Inl ''hunk line counts do not match header'')"

text \<open>The lines after an omission are numbered back from the declared end of the hunk.\<close>

fun number_tail :: "nat list \<Rightarrow> nat \<Rightarrow> nat \<Rightarrow> diff_line list \<Rightarrow> diff_line list" where
  "number_tail [] o_line n_line ls = ls"
| "number_tail (i # is) o_line n_line ls =
     (case dl_kind (ls ! i) of
        KAddition \<Rightarrow> number_tail is o_line (sat_add_u32 n_line 1) (ls[i := (ls ! i)\<lparr>dl_new_line := Some n_line\<rparr>])
      | KDeletion \<Rightarrow> number_tail is (sat_add_u32 o_line 1) n_line (ls[i := (ls ! i)\<lparr>dl_old_line := Some o_line\<rparr>])
      | KContext \<Rightarrow> number_tail is (sat_add_u32 o_line 1) (sat_add_u32 n_line 1)
                     (ls[i := (ls ! i)\<lparr>dl_old_line := Some o_line, dl_new_line := Some n_line\<rparr>]))"

definition assign_omitted_hunk_tail_line_numbers :: "diff_hunk \<Rightarrow> nat list \<Rightarrow> nat \<Rightarrow> nat \<Rightarrow> diff_hunk" where
  "assign_omitted_hunk_tail_line_numbers h tail expected_old expected_new =
     (if tail = [] then h
      else let ls = hunk_lines h;
               old_tail = count_old (map ((!) ls) tail);
               new_tail = count_new (map ((!) ls) tail);
               o_line = sat_add_u32 (sat_u32 (old_start h)) (sat_u32 expected_old) - sat_u32 old_tail;
               n_line = sat_add_u32 (sat_u32 (new_start h)) (sat_u32 expected_new) - sat_u32 new_tail
           in h\<lparr>hunk_lines := number_tail tail o_line n_line ls\<rparr>)"

record unified_state =
  us_hunks :: "diff_hunk list"
  us_current :: "diff_hunk option"
  us_old_line :: nat
  us_new_line :: nat
  us_expected_old :: nat
  us_expected_new :: nat
  us_omitted_in_hunk :: bool
  us_omitted_rows :: nat
  us_tail :: "nat list"

definition unified_start :: unified_state where
  "unified_start = \<lparr>us_hunks = [], us_current = None, us_old_line = 0, us_new_line = 0, us_expected_old = 0,
     us_expected_new = 0, us_omitted_in_hunk = False, us_omitted_rows = 0, us_tail = []\<rparr>"

text \<open>Closing the hunk being read.\<close>

definition close_hunk :: "unified_state \<Rightarrow> string + diff_hunk list" where
  "close_hunk s =
     (case us_current s of
        None \<Rightarrow> Inr (us_hunks s)
      | Some h0 \<Rightarrow>
          let h = assign_omitted_hunk_tail_line_numbers h0 (us_tail s) (us_expected_old s) (us_expected_new s)
          in bindr (if us_omitted_in_hunk s then Inr () else validate_hunk_counts h (us_expected_old s) (us_expected_new s))
               (\<lambda>_. Inr (us_hunks s @ [h])))"

definition open_hunk :: "rtext \<Rightarrow> unified_state \<Rightarrow> string + unified_state" where
  "open_hunk raw s =
     bindr (close_hunk s) (\<lambda>hunks.
       case parse_hunk_range raw of
         None \<Rightarrow> Inl ''invalid hunk header''
       | Some (os, oc, ns, nc) \<Rightarrow>
           Inr (s\<lparr>us_hunks := hunks,
                  us_current := Some \<lparr>old_start = os, old_lines = 0, new_start = ns, new_lines = 0, hunk_lines = []\<rparr>,
                  us_old_line := os, us_new_line := ns, us_expected_old := oc, us_expected_new := nc,
                  us_omitted_in_hunk := False, us_tail := []\<rparr>))"

definition skip_omitted :: "nat \<Rightarrow> diff_hunk \<Rightarrow> unified_state \<Rightarrow> unified_state" where
  "skip_omitted omitted h s =
     (let advance = min (min omitted (us_expected_old s - old_lines h)) (us_expected_new s - new_lines h)
      in s\<lparr>us_omitted_in_hunk := True,
           us_old_line := sat_add_u32 (us_old_line s) (sat_u32 advance),
           us_new_line := sat_add_u32 (us_new_line s) (sat_u32 advance),
           us_current := Some (h\<lparr>old_lines := old_lines h + advance, new_lines := new_lines h + advance\<rparr>),
           us_omitted_rows := min (us_omitted_rows s + omitted) (2 ^ 64 - 1)\<rparr>)"

definition push_body :: "diff_line_kind \<Rightarrow> rtext \<Rightarrow> diff_hunk \<Rightarrow> unified_state \<Rightarrow> unified_state" where
  "push_body kind body_text h s =
     (let in_old = kind \<noteq> KAddition; in_new = kind \<noteq> KDeletion;
          l = \<lparr>dl_kind = kind, dl_old_line = (if in_old then Some (us_old_line s) else None),
               dl_new_line = (if in_new then Some (us_new_line s) else None), dl_text = body_text\<rparr>;
          h' = h\<lparr>old_lines := old_lines h + (if in_old then 1 else 0), new_lines := new_lines h + (if in_new then 1 else 0),
                 hunk_lines := hunk_lines h @ [l]\<rparr>
      in s\<lparr>us_current := Some h',
           us_old_line := (if in_old then sat_add_u32 (us_old_line s) 1 else us_old_line s),
           us_new_line := (if in_new then sat_add_u32 (us_new_line s) 1 else us_new_line s),
           us_tail := (if us_omitted_in_hunk s then us_tail s @ [length (hunk_lines h)] else us_tail s)\<rparr>)"

definition parse_body :: "rtext \<Rightarrow> rtext \<Rightarrow> diff_hunk \<Rightarrow> unified_state \<Rightarrow> string + unified_state" where
  "parse_body raw raw_with_ending h s =
     (let first = (case raw of [] \<Rightarrow> None | c # _ \<Rightarrow> Some c); body_text = tl raw_with_ending
      in if first = Some 45
         then (if us_expected_old s \<le> old_lines h then Inl ''too many old-side lines for hunk header''
               else Inr (push_body KDeletion body_text h s))
         else if first = Some 43
         then (if us_expected_new s \<le> new_lines h then Inl ''too many new-side lines for hunk header''
               else Inr (push_body KAddition body_text h s))
         else if first = Some 32
         then (if us_expected_old s \<le> old_lines h \<or> us_expected_new s \<le> new_lines h
               then Inl ''too many context lines for hunk header''
               else Inr (push_body KContext body_text h s))
         else Inl ''invalid unified diff body line'')"

definition is_body_line :: "rtext \<Rightarrow> bool" where
  "is_body_line raw \<longleftrightarrow> raw \<noteq> [] \<and> hd raw \<in> {45, 43, 32}"

definition unified_step :: "rtext \<Rightarrow> unified_state \<Rightarrow> string + unified_state" where
  "unified_step raw_with_ending s =
     (let raw = trim_line_ending raw_with_ending
      in if prefix (rt ''@@'') raw then open_hunk raw s
         else if prefix (rt ''diff '') raw \<or> prefix (rt ''index '') raw \<or> raw = no_newline_marker \<or> raw = [] then Inr s
         else let hunk_complete = (case us_current s of
                    None \<Rightarrow> False
                  | Some h \<Rightarrow> us_expected_old s \<le> old_lines h \<and> us_expected_new s \<le> new_lines h)
              in if (us_current s = None \<or> hunk_complete) \<and> is_unified_metadata_line raw then Inr s
                 else if hunk_complete \<and> (prefix (rt ''--- '') raw \<or> prefix (rt ''+++ '') raw) then Inr s
                 else case us_current s of
                        None \<Rightarrow> Inl ''diff body appears before a hunk header''
                      | Some h \<Rightarrow>
                          (case (if is_body_line raw then None else parse_omitted_line_count raw) of
                             Some omitted \<Rightarrow> Inr (skip_omitted omitted h s)
                           | None \<Rightarrow> parse_body raw raw_with_ending h s))"

fun unified_steps :: "rtext list \<Rightarrow> unified_state \<Rightarrow> string + unified_state" where
  "unified_steps [] s = Inr s"
| "unified_steps (l # ls) s = bindr (unified_step l s) (unified_steps ls)"

definition from_unified :: "rtext \<Rightarrow> string + diff_document" where
  "from_unified input =
     bindr (unified_steps (split_line_slices input) unified_start) (\<lambda>s.
       bindr (close_hunk s) (\<lambda>hunks.
         let d = from_hunks hunks
         in Inr (d\<lparr>dd_stats := (dd_stats d)\<lparr>ds_omitted_rows := us_omitted_rows s\<rparr>\<rparr>)))"

section \<open>Chunks of characters\<close>

text \<open>The state of the loop: the chunks, the two offsets and the run being joined.\<close>

definition push_chunk ::
  "chunk list \<Rightarrow> change_tag \<Rightarrow> nat \<Rightarrow> nat \<Rightarrow> rtext \<Rightarrow> rtext \<Rightarrow> chunk list option" where
  "push_chunk chunks tag start stop old new =
     (case tag of
        TagEqual \<Rightarrow> map_option (\<lambda>t. chunks @ [EqualChunk t]) (slice old start stop)
      | TagDelete \<Rightarrow> map_option (\<lambda>t. chunks @ [DeleteChunk t]) (slice old start stop)
      | TagInsert \<Rightarrow> map_option (\<lambda>t. chunks @ [InsertChunk t]) (slice new start stop))"

fun chunk_loop ::
  "rtext \<Rightarrow> rtext \<Rightarrow> change list \<Rightarrow> chunk list \<Rightarrow> nat \<Rightarrow> nat \<Rightarrow> (change_tag \<times> nat \<times> nat) option \<Rightarrow> chunk list option" where
  "chunk_loop old new [] chunks old_offset new_offset run =
     (case run of
        Some (tag, start, stop) \<Rightarrow> push_chunk chunks tag start stop old new
      | None \<Rightarrow> Some chunks)"
| "chunk_loop old new (c # cs) chunks old_offset new_offset run =
     (let n = blen (ch_value c);
          start = (if ch_tag c = TagInsert then new_offset else old_offset);
          stop = start + n;
          old' = (if ch_tag c = TagInsert then old_offset else old_offset + n);
          new' = (if ch_tag c = TagDelete then new_offset else new_offset + n)
      in case run of
           Some (tag, run_start, run_end) \<Rightarrow>
             if tag = ch_tag c \<and> run_end = start
             then chunk_loop old new cs chunks old' new' (Some (tag, run_start, stop))
             else Option.bind (push_chunk chunks tag run_start run_end old new)
                    (\<lambda>chunks'. chunk_loop old new cs chunks' old' new' (Some (ch_tag c, start, stop)))
         | None \<Rightarrow> chunk_loop old new cs chunks old' new' (Some (ch_tag c, start, stop)))"

definition compute_diff_chunks :: "diff_lib \<Rightarrow> rtext \<Rightarrow> rtext \<Rightarrow> chunk list option" where
  "compute_diff_chunks lib old new =
     (if old = new then Some (if old = [] then [] else [EqualChunk old])
      else chunk_loop old new (lib_chars lib old new) [] 0 0 None)"

end
