(* ===== verification/Diff_Facts.thy ===== *)
theory Diff_Facts
  imports Diff_Model
begin

text \<open>
  Facts on structured diffs: splitting into lines, numbers and headers read back, and the body of a printed
  hunk read back line by line.
\<close>

section \<open>Lines\<close>

lemma take_line_plain: "nl \<notin> set l \<Longrightarrow> cr \<notin> set l \<Longrightarrow> take_line (l @ nl # s) = (l @ [nl], s)"
  by (induction l) auto

lemma split_line_slices_Nil [simp]: "split_line_slices [] = []"
  by (simp add: split_line_slices.simps)

lemma split_line_slices_concat: "concat (split_line_slices s) = s"
proof (induction s rule: split_line_slices.induct)
  case (1 s)
  obtain l r where "take_line s = (l, r)" by (cases "take_line s")
  then show ?case using 1 take_line_append by (subst split_line_slices.simps) auto
qed

definition unbroken :: "rtext \<Rightarrow> bool" where
  "unbroken l \<longleftrightarrow> nl \<notin> set l \<and> cr \<notin> set l"

lemma unbroken_append [simp]: "unbroken (a @ b) \<longleftrightarrow> unbroken a \<and> unbroken b"
  by (auto simp: unbroken_def)

lemma unbroken_Cons [simp]: "unbroken (c # b) \<longleftrightarrow> c \<noteq> nl \<and> c \<noteq> cr \<and> unbroken b"
  by (auto simp: unbroken_def)

lemma unbroken_Nil [simp]: "unbroken []"
  by (simp add: unbroken_def)

lemma split_plain: "unbroken l \<Longrightarrow> split_line_slices (l @ nl # s) = (l @ [nl]) # split_line_slices s"
  by (subst split_line_slices.simps) (simp add: take_line_plain unbroken_def)

lemma trim_plain: "unbroken l \<Longrightarrow> trim_line_ending (l @ [nl]) = l"
  by (cases l rule: rev_cases) (auto simp: trim_line_ending_def suffix_def nl_def cr_def butlast_append)

lemma trim_unbroken: "unbroken l \<Longrightarrow> trim_line_ending l = l"
  by (cases l rule: rev_cases) (auto simp: trim_line_ending_def suffix_def)

text \<open>A line as \<open>split_line_slices\<close> gives it: no break but at its end.\<close>

definition line_slice :: "rtext \<Rightarrow> bool" where
  "line_slice l \<longleftrightarrow> l \<noteq> [] \<and> unbroken (trim_line_ending l)"

lemma trim_take_line: "take_line s = (l, r) \<Longrightarrow> unbroken (trim_line_ending l)"
proof (induction s arbitrary: l r)
  case (Cons c s)
  show ?case
  proof (cases "c = nl \<or> c = cr")
    case True
    then show ?thesis using Cons.prems by (auto simp: trim_line_ending_def suffix_def nl_def cr_def split: if_splits)
  next
    case False
    then obtain l' where l: "l = c # l'" "take_line s = (l', r)" using Cons.prems by (auto split: prod.splits)
    then have "unbroken (trim_line_ending l')" using Cons.IH by blast
    moreover have "trim_line_ending (c # l') = c # trim_line_ending l'"
      using False by (cases l' rule: rev_cases; cases "butlast l'" rule: rev_cases)
        (auto simp: trim_line_ending_def suffix_def Cons_eq_append_conv butlast_append)
    ultimately show ?thesis using l False by simp
  qed
qed (simp add: trim_line_ending_def suffix_def)

lemma split_lines_are_slices: "l \<in> set (split_line_slices s) \<Longrightarrow> line_slice l"
proof (induction s rule: split_line_slices.induct)
  case (1 s)
  obtain a r where t: "take_line s = (a, r)" by (cases "take_line s")
  show ?case
  proof (cases "s = []")
    case False
    then have "a \<noteq> []" using t by (cases s) (auto split: if_splits prod.splits)
    then have "line_slice a" using trim_take_line [OF t] by (simp add: line_slice_def)
    moreover have "l = a \<or> l \<in> set (split_line_slices r)" using 1(2) False t by (subst (asm) split_line_slices.simps) auto
    ultimately show ?thesis using 1(1) [OF False] t by auto
  qed (use 1(2) in simp)
qed

section \<open>Numbers and headers\<close>

lemma rt_append [simp]: "rt (a @ b) = rt a @ rt b"
  by (simp add: rt_def)

lemma digits_of_number: "list_all (\<lambda>d. 48 \<le> d \<and> d \<le> 57) (rt (show_nat n))"
proof (induction n rule: show_nat.induct)
  case (1 n)
  have "\<And>d :: nat. d < 10 \<Longrightarrow> of_char (char_of (48 + d) :: char) = 48 + d" by (simp add: of_char_of)
  moreover have "n mod 10 < 10" by simp
  ultimately show ?case using 1 by (subst show_nat.simps) (auto simp: rt_def)
qed

lemma value_of_number: "foldl (\<lambda>a d. 10 * a + (d - 48)) 0 (rt (show_nat n)) = n"
proof (induction n rule: show_nat.induct)
  case (1 n)
  have "\<And>d :: nat. d < 10 \<Longrightarrow> of_char (char_of (48 + d) :: char) = 48 + d" by (simp add: of_char_of)
  moreover have "n mod 10 < 10" by simp
  ultimately show ?case using 1 by (subst show_nat.simps) (auto simp: rt_def)
qed

lemma number_not_Nil [simp]: "rt (show_nat n) \<noteq> []"
  by (subst show_nat.simps) (simp add: rt_def)

lemma number_chars: "c \<in> set (rt (show_nat n)) \<Longrightarrow> 48 \<le> c \<and> c \<le> 57"
  using digits_of_number by (auto simp: list_all_iff)

lemma number_of_number: "n < 2 ^ 64 \<Longrightarrow> number_of_text (rt (show_nat n)) = Some n"
proof -
  assume "n < 2 ^ 64"
  moreover have "hd (rt (show_nat n)) \<noteq> 43" using number_chars [of "hd (rt (show_nat n))" n] by auto
  ultimately show ?thesis
    using digits_of_number [of n] value_of_number [of n] by (simp add: number_of_text_def Let_def)
qed

lemma split_comma_plain: "44 \<notin> set a \<Longrightarrow> split_comma a = (a, None)" "44 \<notin> set a \<Longrightarrow> split_comma (a @ 44 # b) = (a, Some b)"
  by (induction a) auto

definition printed_start :: "nat \<Rightarrow> nat \<Rightarrow> nat" where
  "printed_start start count = (if count = 0 then start - 1 else start)"

lemma comma_free: "44 \<notin> set (rt (show_nat n))"
  using number_chars [of 44 n] by auto

lemma parse_range_printed:
  assumes "start < 2 ^ 32" "count < 2 ^ 64"
  shows "parse_range (m # format_unified_range start count) m = Some (printed_start start count, count)"
proof -
  have n: "parse_u32_text (rt (show_nat k)) = Some k" if "k < 2 ^ 32" for k
    using that number_of_number [of k] by (simp add: parse_u32_text_def)
  have comma: "rt '','' = [44]" "rt '',0'' = 44 # rt (show_nat 0)" by (simp_all add: rt_def show_nat.simps)
  show ?thesis
    using n [of "start - 1"] n [of start] assms number_of_number [of count] number_of_number [of 0]
    by (auto simp: parse_range_def strip_text_def format_unified_range_def printed_start_def comma
        split_comma_plain comma_free)
qed

lemma words_go_word: "w \<noteq> [] \<or> a \<noteq> [] \<Longrightarrow> list_all (\<lambda>c. \<not> char_is_whitespace c) a \<Longrightarrow> char_is_whitespace c \<Longrightarrow>
    words_go w (a @ c # s) = (rev w @ a) # words_go [] s"
  by (induction a arbitrary: w) auto

lemma words_go_last: "w \<noteq> [] \<or> a \<noteq> [] \<Longrightarrow> list_all (\<lambda>c. \<not> char_is_whitespace c) a \<Longrightarrow> words_go w a = [rev w @ a]"
  by (induction a arbitrary: w) auto

lemma range_chars: "c \<in> set (format_unified_range start count) \<Longrightarrow> 44 \<le> c \<and> c \<le> 57"
  using number_chars [of c] by (fastforce simp: format_unified_range_def rt_def split: if_splits)

lemma before_text_first: "64 \<notin> set a \<Longrightarrow> before_text [32, 64, 64] (a @ [32, 64, 64]) = a"
proof (induction a)
  case (Cons c a)
  then have "\<not> prefix [32, 64, 64] (c # a @ [32, 64, 64])" by (cases a) auto
  with Cons show ?case by simp
qed simp

lemma parse_header:
  assumes "os < 2 ^ 32" "ns < 2 ^ 32" "oc < 2 ^ 64" "nc < 2 ^ 64"
  shows "parse_hunk_range (format_hunk_header os oc ns nc) = Some (printed_start os oc, oc, printed_start ns nc, nc)"
proof -
  let ?a = "45 # format_unified_range os oc" and ?b = "43 # format_unified_range ns nc"
  have ne: "format_unified_range a b \<noteq> []" for a b by (simp add: format_unified_range_def)
  have r: "rt '' @@'' = [32, 64, 64]" "rt ''@@ -'' = [64, 64, 32, 45]" "rt '' +'' = [32, 43]" "rt ''@@ '' = [64, 64, 32]"
    by (simp_all add: rt_def)
  have h: "format_hunk_header os oc ns nc = rt ''@@ '' @ ?a @ 32 # ?b @ [32, 64, 64]"
    by (simp add: format_hunk_header_def r)
  have "64 \<notin> set (?a @ 32 # ?b)" using range_chars [of 64] by auto
  from before_text_first [OF this]
  have b: "before_text (rt '' @@'') (?a @ 32 # ?b @ [32, 64, 64]) = ?a @ 32 # ?b" by (simp add: r)
  have ws: "\<not> char_is_whitespace c" if "c = 43 \<or> c = 45 \<or> 44 \<le> c \<and> c \<le> 57" for c
    using that by (auto simp: char_is_whitespace_def)
  have w: "list_all (\<lambda>c. \<not> char_is_whitespace c) ?a" "list_all (\<lambda>c. \<not> char_is_whitespace c) ?b"
    using ws range_chars by (auto simp: list_all_iff)
  have sp: "char_is_whitespace 32" by (simp add: char_is_whitespace_def)
  have "words (?a @ 32 # ?b) = [?a, ?b]"
    unfolding words_def using words_go_word [OF _ w(1) sp, of "[]" ?b] words_go_last [OF _ w(2), of "[]"] by simp
  then show ?thesis
    using parse_range_printed [OF assms(1,3), of 45] parse_range_printed [OF assms(2,4), of 43]
    unfolding parse_hunk_range_def h strip_text_def using b by simp
qed

end
