(* ===== verification/Diff_Roundtrip.thy ===== *)
theory Diff_Roundtrip
  imports Diff_Facts
begin

text \<open>
  A printed diff is read back: the parser on the lines of a printed hunk, hunk after hunk.
\<close>

section \<open>What is read back\<close>

text \<open>The printer writes every terminator as \<open>\n\<close>, and the start of an empty side as the line before it.\<close>

definition printed_line :: "diff_line \<Rightarrow> diff_line" where
  "printed_line l = l\<lparr>dl_text := trim_line_ending (dl_text l) @ [nl]\<rparr>"

definition printed_hunk :: "diff_hunk \<Rightarrow> diff_hunk" where
  "printed_hunk h = h\<lparr>old_start := printed_start (old_start h) (old_lines h),
     new_start := printed_start (new_start h) (new_lines h), hunk_lines := map printed_line (hunk_lines h)\<rparr>"

fun numbered :: "nat \<Rightarrow> nat \<Rightarrow> diff_line list \<Rightarrow> bool" where
  "numbered o_line n_line [] \<longleftrightarrow> True"
| "numbered o_line n_line (l # ls) \<longleftrightarrow>
     (case dl_kind l of
        KContext \<Rightarrow> dl_old_line l = Some o_line \<and> dl_new_line l = Some n_line \<and> numbered (o_line + 1) (n_line + 1) ls
      | KDeletion \<Rightarrow> dl_old_line l = Some o_line \<and> dl_new_line l = None \<and> numbered (o_line + 1) n_line ls
      | KAddition \<Rightarrow> dl_old_line l = None \<and> dl_new_line l = Some n_line \<and> numbered o_line (n_line + 1) ls)"

definition wf_hunk :: "diff_hunk \<Rightarrow> bool" where
  "wf_hunk h \<longleftrightarrow> old_lines h = count_old (hunk_lines h) \<and> new_lines h = count_new (hunk_lines h)
     \<and> list_all (\<lambda>l. unbroken (trim_line_ending (dl_text l))) (hunk_lines h)
     \<and> numbered (printed_start (old_start h) (old_lines h)) (printed_start (new_start h) (new_lines h)) (hunk_lines h)
     \<and> old_start h + old_lines h \<le> u32_limit \<and> new_start h + new_lines h \<le> u32_limit"

section \<open>The lines of the printed text\<close>

abbreviation ended :: "rtext \<Rightarrow> rtext" where
  "ended l \<equiv> l @ [nl]"

definition line_texts :: "bool \<Rightarrow> diff_line \<Rightarrow> rtext list" where
  "line_texts hint l =
     (kind_prefix (dl_kind l) # trim_line_ending (dl_text l))
     # (if hint \<and> \<not> (dl_text l \<noteq> [] \<and> (last (dl_text l) = nl \<or> last (dl_text l) = cr)) then [no_newline_marker] else [])"

definition hunk_texts :: "bool \<Rightarrow> diff_hunk \<Rightarrow> rtext list" where
  "hunk_texts hint h =
     format_hunk_header (old_start h) (old_lines h) (new_start h) (new_lines h)
     # concat (map (line_texts hint) (hunk_lines h))"

definition label_texts :: "diff_options \<Rightarrow> rtext list" where
  "label_texts opts =
     (case (old_label opts, new_label opts) of
        (Some o_label, Some n_label) \<Rightarrow> [rt ''--- '' @ o_label, rt ''+++ '' @ n_label]
      | _ \<Rightarrow> [])"

lemma split_ended: "list_all unbroken ls \<Longrightarrow> split_line_slices (concat (map ended ls)) = map ended ls"
  by (induction ls) (auto simp: split_plain)

lemma format_line_texts: "format_line hint l = concat (map ended (line_texts hint l))"
  by (simp add: format_line_def line_texts_def)

lemma format_lines_texts: "concat (map (format_line hint) ls) = concat (map ended (concat (map (line_texts hint) ls)))"
  by (induction ls) (auto simp: format_line_texts)

lemma format_hunk_texts: "format_hunk hint h = concat (map ended (hunk_texts hint h))"
  by (simp add: format_hunk_def hunk_texts_def format_hunk_header_def format_lines_texts)

lemma format_hunks_texts:
  "format_unified_hunks hunks opts =
     (if hunks = [] then []
      else concat (map ended (label_texts opts @ concat (map (hunk_texts (missing_newline_hint opts)) hunks))))"
proof -
  have "concat (map (format_hunk hint) hs) = concat (map ended (concat (map (hunk_texts hint) hs)))" for hint hs
    by (induction hs) (auto simp: format_hunk_texts)
  then show ?thesis
    by (auto simp: format_unified_hunks_def label_texts_def split: option.splits)
qed

lemma unbroken_texts: "c \<noteq> nl \<Longrightarrow> c \<noteq> cr \<Longrightarrow> unbroken t \<Longrightarrow> unbroken (c # t)"
  by simp

lemma marker_unbroken: "unbroken no_newline_marker"
  by (simp add: no_newline_marker_def rt_def unbroken_def nl_def cr_def)

lemma line_texts_unbroken:
  "unbroken (trim_line_ending (dl_text l)) \<Longrightarrow> t \<in> set (line_texts hint l) \<Longrightarrow> unbroken t"
  using marker_unbroken by (cases "dl_kind l") (auto simp: line_texts_def nl_def cr_def split: if_splits)

lemma header_unbroken: "unbroken (format_hunk_header a b c d)"
proof -
  have "unbroken (format_unified_range a b)" for a b
    using range_chars [of nl a b] range_chars [of cr a b] by (auto simp: unbroken_def nl_def cr_def)
  then show ?thesis by (simp add: format_hunk_header_def rt_def) (simp add: nl_def cr_def)
qed

lemma hunk_texts_unbroken: "wf_hunk h \<Longrightarrow> t \<in> set (hunk_texts hint h) \<Longrightarrow> unbroken t"
  using header_unbroken line_texts_unbroken by (fastforce simp: hunk_texts_def wf_hunk_def list_all_iff)

section \<open>Reading the lines\<close>

lemma unified_steps_append: "unified_steps (a @ b) s = bindr (unified_steps a s) (unified_steps b)"
proof (induction a arbitrary: s)
  case (Cons l a)
  then show ?case by (cases "unified_step l s") simp_all
qed simp

lemma step_marker: "unified_step (ended no_newline_marker) s = Inr s"
  unfolding unified_step_def trim_plain [OF marker_unbroken] Let_def
  by (simp add: no_newline_marker_def rt_def)

lemma step_body:
  assumes "us_current s = Some h" "unbroken t"
    "k \<noteq> KAddition \<longrightarrow> old_lines h < us_expected_old s" "k \<noteq> KDeletion \<longrightarrow> new_lines h < us_expected_new s"
  shows "unified_step (ended (kind_prefix k # t)) s = Inr (push_body k (ended t) h s)"
proof -
  have "unbroken (kind_prefix k # t)" using assms(2) by (cases k) (auto simp: nl_def cr_def)
  then have trim: "trim_line_ending (ended (kind_prefix k # t)) = kind_prefix k # t" by (rule trim_plain)
  show ?thesis
    unfolding unified_step_def Let_def trim using assms
    by (cases k) (auto simp: rt_def no_newline_marker_def is_body_line_def parse_body_def Let_def)
qed

lemma steps_lines:
  assumes "us_current s = Some h" "\<not> us_omitted_in_hunk s" "numbered (us_old_line s) (us_new_line s) ls"
    "list_all (\<lambda>l. unbroken (trim_line_ending (dl_text l))) ls"
    "old_lines h + count_old ls \<le> us_expected_old s" "new_lines h + count_new ls \<le> us_expected_new s"
    "us_old_line s + count_old ls \<le> u32_limit" "us_new_line s + count_new ls \<le> u32_limit"
  shows "unified_steps (map ended (concat (map (line_texts hint) ls))) s =
    Inr (s\<lparr>us_current := Some (h\<lparr>old_lines := old_lines h + count_old ls, new_lines := new_lines h + count_new ls,
             hunk_lines := hunk_lines h @ map printed_line ls\<rparr>),
           us_old_line := us_old_line s + count_old ls, us_new_line := us_new_line s + count_new ls\<rparr>)"
  using assms
proof (induction ls arbitrary: s h)
  case Nil
  then show ?case by (simp add: count_old_def count_new_def)
next
  case (Cons l ls)
  let ?t = "trim_line_ending (dl_text l)" and ?k = "dl_kind l"
  have c: "count_old (l # ls) = (if ?k = KAddition then 0 else 1) + count_old ls"
    "count_new (l # ls) = (if ?k = KDeletion then 0 else 1) + count_new ls" by (simp_all add: count_old_def count_new_def)
  let ?s1 = "push_body ?k (ended ?t) h s"
  have step: "unified_step (ended (kind_prefix ?k # ?t)) s = Inr ?s1"
    using Cons.prems c by (intro step_body) auto
  let ?h1 = "h\<lparr>old_lines := old_lines h + (if ?k = KAddition then 0 else 1), new_lines := new_lines h + (if ?k = KDeletion then 0 else 1),
     hunk_lines := hunk_lines h @ [printed_line l]\<rparr>"
  have s1: "?s1 = s\<lparr>us_current := Some ?h1, us_old_line := us_old_line s + (if ?k = KAddition then 0 else 1),
      us_new_line := us_new_line s + (if ?k = KDeletion then 0 else 1)\<rparr>"
    using Cons.prems(2,3,7,8) c
    by (cases ?k) (auto simp: push_body_def Let_def printed_line_def sat_add_u32_def sat_u32_def)
  have rest: "unified_steps (map ended (concat (map (line_texts hint) ls))) ?s1 =
    Inr (?s1\<lparr>us_current := Some (?h1\<lparr>old_lines := old_lines ?h1 + count_old ls, new_lines := new_lines ?h1 + count_new ls,
             hunk_lines := hunk_lines ?h1 @ map printed_line ls\<rparr>),
           us_old_line := us_old_line ?s1 + count_old ls, us_new_line := us_new_line ?s1 + count_new ls\<rparr>)"
  proof (rule Cons.IH)
    show "numbered (us_old_line ?s1) (us_new_line ?s1) ls"
      unfolding s1 using Cons.prems(3) by (cases ?k) auto
  qed (use Cons.prems c s1 in auto)
  have "unified_steps (map ended (line_texts hint l)) s = Inr ?s1"
    using step step_marker by (simp add: line_texts_def)
  then show ?case
    using rest unfolding s1 by (simp add: unified_steps_append c)
qed

lemma step_header:
  assumes "close_hunk s = Inr hs" "os < 2 ^ 32" "ns < 2 ^ 32" "oc < 2 ^ 64" "nc < 2 ^ 64"
  shows "unified_step (ended (format_hunk_header os oc ns nc)) s =
    Inr (s\<lparr>us_hunks := hs,
           us_current := Some \<lparr>old_start = printed_start os oc, old_lines = 0, new_start = printed_start ns nc,
             new_lines = 0, hunk_lines = []\<rparr>,
           us_old_line := printed_start os oc, us_new_line := printed_start ns nc, us_expected_old := oc,
           us_expected_new := nc, us_omitted_in_hunk := False, us_tail := []\<rparr>)"
proof -
  have "prefix (rt ''@@'') (format_hunk_header os oc ns nc)" by (simp add: format_hunk_header_def rt_def)
  then show ?thesis
    unfolding unified_step_def Let_def trim_plain [OF header_unbroken]
    using parse_header [OF assms(2-5)] assms(1) by (simp add: open_hunk_def)
qed

lemma steps_hunk:
  assumes "close_hunk s = Inr hs" "us_omitted_rows s = 0" "wf_hunk h"
  obtains s' where "unified_steps (map ended (hunk_texts hint h)) s = Inr s'" "close_hunk s' = Inr (hs @ [printed_hunk h])"
    "us_omitted_rows s' = 0"
proof -
  let ?o = "printed_start (old_start h) (old_lines h)" and ?n = "printed_start (new_start h) (new_lines h)"
  have w: "old_lines h = count_old (hunk_lines h)" "new_lines h = count_new (hunk_lines h)"
    "list_all (\<lambda>l. unbroken (trim_line_ending (dl_text l))) (hunk_lines h)" "numbered ?o ?n (hunk_lines h)"
    "old_start h + old_lines h \<le> u32_limit" "new_start h + new_lines h \<le> u32_limit"
    using assms(3) by (auto simp: wf_hunk_def)
  have b: "old_start h < 2 ^ 32" "new_start h < 2 ^ 32" "old_lines h < 2 ^ 64" "new_lines h < 2 ^ 64"
    "?o \<le> old_start h" "?n \<le> new_start h"
    using w(5,6) by (auto simp: u32_limit_def printed_start_def)
  define s1 where "s1 = s\<lparr>us_hunks := hs,
           us_current := Some \<lparr>old_start = ?o, old_lines = 0, new_start = ?n, new_lines = 0, hunk_lines = []\<rparr>,
           us_old_line := ?o, us_new_line := ?n, us_expected_old := old_lines h,
           us_expected_new := new_lines h, us_omitted_in_hunk := False, us_tail := []\<rparr>"
  have hd: "unified_step (ended (format_hunk_header (old_start h) (old_lines h) (new_start h) (new_lines h))) s = Inr s1"
    using step_header [OF assms(1) b(1,2,3,4)] by (simp add: s1_def)
  let ?h0 = "\<lparr>old_start = ?o, old_lines = 0, new_start = ?n, new_lines = 0, hunk_lines = []\<rparr>"
  have body: "unified_steps (map ended (concat (map (line_texts hint) (hunk_lines h)))) s1 =
    Inr (s1\<lparr>us_current := Some (?h0\<lparr>old_lines := old_lines ?h0 + count_old (hunk_lines h), new_lines := new_lines ?h0 + count_new (hunk_lines h),
             hunk_lines := hunk_lines ?h0 @ map printed_line (hunk_lines h)\<rparr>),
           us_old_line := us_old_line s1 + count_old (hunk_lines h), us_new_line := us_new_line s1 + count_new (hunk_lines h)\<rparr>)"
    by (rule steps_lines) (use w b in \<open>auto simp: s1_def\<close>)
  show ?thesis
  proof (rule that)
    show "unified_steps (map ended (hunk_texts hint h)) s =
      Inr (s1\<lparr>us_current := Some (?h0\<lparr>old_lines := old_lines ?h0 + count_old (hunk_lines h), new_lines := new_lines ?h0 + count_new (hunk_lines h),
             hunk_lines := hunk_lines ?h0 @ map printed_line (hunk_lines h)\<rparr>),
           us_old_line := us_old_line s1 + count_old (hunk_lines h), us_new_line := us_new_line s1 + count_new (hunk_lines h)\<rparr>)"
      using hd body by (simp add: hunk_texts_def)
  qed (use w assms(2) in \<open>auto simp: s1_def close_hunk_def Let_def assign_omitted_hunk_tail_line_numbers_def
        validate_hunk_counts_def printed_hunk_def\<close>)
qed

lemma steps_hunks:
  assumes "close_hunk s = Inr hs" "us_omitted_rows s = 0" "list_all wf_hunk hunks"
  obtains s' where "unified_steps (map ended (concat (map (hunk_texts hint) hunks))) s = Inr s'"
    "close_hunk s' = Inr (hs @ map printed_hunk hunks)" "us_omitted_rows s' = 0"
  using assms
proof (induction hunks arbitrary: s hs thesis)
  case Nil
  then show ?case by simp
next
  case (Cons h hunks)
  obtain s1 where s1: "unified_steps (map ended (hunk_texts hint h)) s = Inr s1" "close_hunk s1 = Inr (hs @ [printed_hunk h])"
    "us_omitted_rows s1 = 0"
    using steps_hunk [OF Cons.prems(2,3), of h] Cons.prems(4) by auto
  obtain s2 where "unified_steps (map ended (concat (map (hunk_texts hint) hunks))) s1 = Inr s2"
    "close_hunk s2 = Inr ((hs @ [printed_hunk h]) @ map printed_hunk hunks)" "us_omitted_rows s2 = 0"
    by (rule Cons.IH [OF _ s1(2,3)]) (use Cons.prems(4) in auto)
  with s1(1) show ?case by (intro Cons.prems(1) [of s2]) (auto simp: unified_steps_append)
qed

definition plain_label :: "rtext option \<Rightarrow> bool" where
  "plain_label l \<longleftrightarrow> (case l of Some t \<Rightarrow> unbroken t | None \<Rightarrow> True)"

lemma steps_labels:
  assumes "plain_label (old_label opts)" "plain_label (new_label opts)"
  shows "unified_steps (map ended (label_texts opts)) unified_start = Inr unified_start"
    "list_all unbroken (label_texts opts)"
proof -
  have step: "unified_step (ended (rt p @ t)) unified_start = Inr unified_start"
    if "p = ''--- '' \<or> p = ''+++ ''" "unbroken t" for p t
  proof -
    have u: "unbroken (rt p @ t)" using that by (auto simp: rt_def nl_def cr_def)
    show ?thesis
      unfolding unified_step_def Let_def trim_plain [OF u]
      using that(1) by (auto simp: unified_start_def is_unified_metadata_line_def metadata_prefixes_def rt_def no_newline_marker_def)
  qed
  show "list_all unbroken (label_texts opts)"
    using assms by (auto simp: label_texts_def plain_label_def rt_def nl_def cr_def split: option.splits)
  show "unified_steps (map ended (label_texts opts)) unified_start = Inr unified_start"
    using assms step by (auto simp: label_texts_def plain_label_def split: option.splits)
qed

lemma parse_printed:
  assumes "list_all wf_hunk hunks" "plain_label (old_label opts)" "plain_label (new_label opts)"
  shows "from_unified (format_unified_hunks hunks opts) = Inr (from_hunks (map printed_hunk hunks))"
proof -
  let ?texts = "if hunks = [] then [] else label_texts opts @ concat (map (hunk_texts (missing_newline_hint opts)) hunks)"
  note labels = steps_labels [OF assms(2,3)]
  have start: "close_hunk unified_start = Inr []" "us_omitted_rows unified_start = 0"
    by (simp_all add: unified_start_def close_hunk_def)
  have "list_all unbroken ?texts"
    using labels(2) assms(1) hunk_texts_unbroken by (fastforce simp: list_all_iff)
  moreover have "format_unified_hunks hunks opts = concat (map ended ?texts)" by (simp add: format_hunks_texts)
  ultimately have lines: "split_line_slices (format_unified_hunks hunks opts) = map ended ?texts"
    using split_ended [of ?texts] by simp
  obtain s' where "unified_steps (map ended (concat (map (hunk_texts (missing_newline_hint opts)) hunks))) unified_start = Inr s'"
    "close_hunk s' = Inr ([] @ map printed_hunk hunks)" "us_omitted_rows s' = 0"
    by (rule steps_hunks [OF start assms(1)])
  moreover have "(d\<lparr>dd_stats := (dd_stats d)\<lparr>ds_omitted_rows := 0\<rparr>\<rparr>) = d" if "d = from_hunks hs" for d hs
  proof -
    have "ds_omitted_rows (fold count_line ls st) = ds_omitted_rows st" for ls st
      by (induction ls arbitrary: st) (auto split: diff_line_kind.splits)
    then show ?thesis using that by (simp add: from_hunks_def)
  qed
  ultimately show ?thesis
    using labels(1) start unfolding from_unified_def lines by (auto simp: unified_steps_append Let_def)
qed

end
