(* ===== verification/Diff_Alignment.thy ===== *)
theory Diff_Alignment
  imports Diff_Roundtrip
begin

text \<open>
  What the alignment library promises, and what follows for the documents computed with it: their hunks are
  well formed, and applied to the old lines they give the new ones.
\<close>

section \<open>The promise of the library\<close>

text \<open>Changes that walk through both texts from positions \<open>i\<close> and \<open>j\<close>, with the indices they report.\<close>

fun aligned :: "rtext list \<Rightarrow> rtext list \<Rightarrow> nat \<Rightarrow> nat \<Rightarrow> change list \<Rightarrow> bool" where
  "aligned old new i j [] \<longleftrightarrow> True"
| "aligned old new i j (c # cs) \<longleftrightarrow>
     (case ch_tag c of
        TagEqual \<Rightarrow> i < length old \<and> j < length new \<and> ch_old_index c = Some i \<and> ch_new_index c = Some j
          \<and> ch_value c = old ! i \<and> ch_value c = new ! j \<and> aligned old new (Suc i) (Suc j) cs
      | TagDelete \<Rightarrow> i < length old \<and> ch_old_index c = Some i \<and> ch_value c = old ! i \<and> aligned old new (Suc i) j cs
      | TagInsert \<Rightarrow> j < length new \<and> ch_new_index c = Some j \<and> ch_value c = new ! j \<and> aligned old new i (Suc j) cs)"

definition old_part :: "change list \<Rightarrow> nat" where
  "old_part cs = length (filter (\<lambda>c. ch_tag c \<noteq> TagInsert) cs)"

definition new_part :: "change list \<Rightarrow> nat" where
  "new_part cs = length (filter (\<lambda>c. ch_tag c \<noteq> TagDelete) cs)"

text \<open>Groups of changes in order, separated by equal lines, with equal lines after the last.\<close>

fun aligned_groups :: "rtext list \<Rightarrow> rtext list \<Rightarrow> nat \<Rightarrow> nat \<Rightarrow> change list list \<Rightarrow> bool" where
  "aligned_groups old new i j [] \<longleftrightarrow> drop i old = drop j new"
| "aligned_groups old new i j (g # gs) \<longleftrightarrow>
     (\<exists>k. (0 < i + j \<longrightarrow> 0 < k) \<and> i + k \<le> length old \<and> j + k \<le> length new
        \<and> take k (drop i old) = take k (drop j new) \<and> aligned old new (i + k) (j + k) g
        \<and> aligned_groups old new (i + k + old_part g) (j + k + new_part g) gs)"

text \<open>What \<open>similar\<close> documents of \<open>grouped_ops\<close>: the groups align the two texts, and with context lines a group
  has a line of the old text, if there is one.\<close>

definition documented_groups :: "diff_lib \<Rightarrow> bool" where
  "documented_groups lib \<longleftrightarrow>
     (\<forall>alg t old new n. let gs = map concat (filter (\<lambda>g. g \<noteq> []) (lib_groups lib alg t old new n)) in
        aligned_groups old new 0 0 gs \<and> (0 < n \<and> old \<noteq> [] \<longrightarrow> list_all (\<lambda>g. 0 < old_part g) gs))"

lemma aligned_bounds: "aligned old new i j g \<Longrightarrow> i + old_part g \<le> max i (length old) \<and> j + new_part g \<le> max j (length new)"
  by (induction g arbitrary: i j) (fastforce simp: old_part_def new_part_def split: change_tag.splits)+

section \<open>Hunks\<close>

abbreviation lines_of :: "change list \<Rightarrow> diff_line list" where
  "lines_of g \<equiv> map line_of_change g"

lemma count_lines_of: "count_old (lines_of g) = old_part g" "count_new (lines_of g) = new_part g"
  by (induction g) (auto simp: count_old_def count_new_def old_part_def new_part_def split: change_tag.splits)

lemma numbered_lines_of:
  assumes "aligned old new i j g" "length old < u32_limit" "length new < u32_limit"
  shows "numbered (i + 1) (j + 1) (lines_of g)"
  using assms(1)
proof (induction g arbitrary: i j)
  case (Cons c g)
  then show ?case using assms(2,3)
    by (cases "ch_tag c") (auto simp: one_based_u32_def u32_limit_def)
qed simp

lemma numbered_other_side:
  "count_old ls = 0 \<Longrightarrow> numbered a n ls \<Longrightarrow> numbered b n ls"
  "count_new ls = 0 \<Longrightarrow> numbered a n ls \<Longrightarrow> numbered a m ls"
  by (induction ls arbitrary: n a) (auto simp: count_old_def count_new_def split: diff_line_kind.splits if_splits)

lemma first_old_line:
  assumes "numbered a n ls"
  shows "find_map dl_old_line ls = (if count_old ls = 0 then None else Some a)"
    "find_map dl_new_line ls = (if count_new ls = 0 then None else Some n)"
  using assms by (induction ls arbitrary: a n) (auto simp: count_old_def count_new_def split: diff_line_kind.splits)

lemma hunk_start:
  assumes "numbered (i + 1) (j + 1) ls"
  shows "hunk_start_from_lines ls True = (if count_old ls \<noteq> 0 then i + 1 else if count_new ls \<noteq> 0 then j + 1 else 1)"
    "hunk_start_from_lines ls False = (if count_new ls \<noteq> 0 then j + 1 else if count_old ls \<noteq> 0 then i + 1 else 1)"
  using first_old_line [OF assms] by (auto simp: hunk_start_from_lines_def)

lemma numbered_printed_start:
  assumes n: "numbered (i + 1) (j + 1) ls"
  shows "numbered (printed_start (hunk_start_from_lines ls True) (count_old ls))
    (printed_start (hunk_start_from_lines ls False) (count_new ls)) ls"
proof -
  have o: "numbered (printed_start (hunk_start_from_lines ls True) (count_old ls)) (j + 1) ls"
  proof (cases "count_old ls = 0")
    case True
    show ?thesis by (rule numbered_other_side(1) [OF True n])
  qed (use n hunk_start(1) [OF n] in \<open>simp add: printed_start_def\<close>)
  show ?thesis
  proof (cases "count_new ls = 0")
    case True
    show ?thesis by (rule numbered_other_side(2) [OF True o])
  qed (use o hunk_start(2) [OF n] in \<open>simp add: printed_start_def\<close>)
qed

definition group_hunk :: "change list \<Rightarrow> diff_hunk" where
  "group_hunk g = hunk_of_group [g]"

lemma hunk_of_concat: "hunk_of_group grp = group_hunk (concat grp)"
  by (simp add: hunk_of_group_def group_hunk_def)

lemma aligned_values: "aligned old new i j g \<Longrightarrow> c \<in> set g \<Longrightarrow> ch_value c \<in> set old \<union> set new"
  by (induction g arbitrary: i j) (auto split: change_tag.splits)

lemma text_of_change: "dl_text (line_of_change c) = ch_value c"
  by (simp split: change_tag.splits)

lemma hunk_wf:
  assumes a: "aligned old new i j g" and l: "length old < u32_limit" "length new < u32_limit" "i \<le> length old" "j \<le> length new"
    and s: "\<forall>t \<in> set old \<union> set new. line_slice t"
  shows "wf_hunk (group_hunk g)"
proof -
  let ?ls = "lines_of g"
  note n = numbered_lines_of [OF a l(1,2)]
  note st = hunk_start [OF n]
  have b: "i + count_old ?ls \<le> length old" "j + count_new ?ls \<le> length new"
    using aligned_bounds [OF a] l(3,4) by (auto simp: count_lines_of)
  have t: "list_all (\<lambda>l. unbroken (trim_line_ending (dl_text l))) ?ls"
    using aligned_values [OF a] s by (auto simp: list_all_iff line_slice_def text_of_change simp del: line_of_change.simps)
  have "numbered (printed_start (hunk_start_from_lines ?ls True) (count_old ?ls))
      (printed_start (hunk_start_from_lines ?ls False) (count_new ?ls)) ?ls"
    by (rule numbered_printed_start [OF n])
  moreover have "hunk_start_from_lines ?ls True + count_old ?ls \<le> u32_limit" "hunk_start_from_lines ?ls False + count_new ?ls \<le> u32_limit"
    using st b l by (auto simp: u32_limit_def)
  ultimately show ?thesis using t by (simp add: wf_hunk_def group_hunk_def hunk_of_group_def Let_def)
qed

lemma hunks_wf:
  assumes "aligned_groups old new i j gs" "length old < u32_limit" "length new < u32_limit" "\<forall>t \<in> set old \<union> set new. line_slice t"
    "i \<le> length old" "j \<le> length new"
  shows "list_all wf_hunk (map group_hunk gs)"
  using assms
proof (induction gs arbitrary: i j)
  case (Cons g gs)
  then obtain k where k: "i + k \<le> length old" "j + k \<le> length new" "aligned old new (i + k) (j + k) g"
    "aligned_groups old new (i + k + old_part g) (j + k + new_part g) gs" by auto
  have "wf_hunk (group_hunk g)" using hunk_wf [OF k(3)] Cons.prems k by blast
  moreover have "list_all wf_hunk (map group_hunk gs)"
    using Cons.IH [OF k(4)] Cons.prems aligned_bounds [OF k(3)] k by simp
  ultimately show ?case by simp
qed simp

lemma between_hunks:
  "dd_hunks (between lib old new opts) =
     map group_hunk (map concat (filter (\<lambda>g. g \<noteq> []) (lib_groups lib (algorithm opts) (timeout opts) (split_line_slices old)
       (split_line_slices new) (context_lines opts))))"
  by (simp add: between_def from_hunks_def Let_def hunk_of_concat)

lemma between_wf:
  assumes "documented_groups lib" "length (split_line_slices old) < u32_limit" "length (split_line_slices new) < u32_limit"
  shows "list_all wf_hunk (dd_hunks (between lib old new opts))"
  unfolding between_hunks
  by (rule hunks_wf [of "split_line_slices old" "split_line_slices new" 0 0])
    (use assms split_lines_are_slices in \<open>auto simp: documented_groups_def Let_def\<close>)

section \<open>Applying hunks\<close>

definition old_side :: "diff_hunk \<Rightarrow> rtext list" where
  "old_side h = map dl_text (filter (\<lambda>l. dl_kind l \<noteq> KAddition) (hunk_lines h))"

definition new_side :: "diff_hunk \<Rightarrow> rtext list" where
  "new_side h = map dl_text (filter (\<lambda>l. dl_kind l \<noteq> KDeletion) (hunk_lines h))"

text \<open>Hunks applied in order to lines of which \<open>pos\<close> are done: the lines before a hunk are kept, its old side
  has to be there, and its new side takes its place.\<close>

fun apply_hunks :: "nat \<Rightarrow> diff_hunk list \<Rightarrow> rtext list \<Rightarrow> rtext list option" where
  "apply_hunks pos [] old = Some (drop pos old)"
| "apply_hunks pos (h # hs) old =
     (let start = old_start h - 1
      in if pos \<le> start \<and> take (old_lines h) (drop start old) = old_side h
         then map_option (\<lambda>rest. take (start - pos) (drop pos old) @ new_side h @ rest)
                (apply_hunks (start + old_lines h) hs old)
         else None)"

lemma kind_of_change:
  "dl_kind (line_of_change c) = (case ch_tag c of TagEqual \<Rightarrow> KContext | TagDelete \<Rightarrow> KDeletion | TagInsert \<Rightarrow> KAddition)"
  by (simp split: change_tag.splits)

lemma values_aligned:
  "aligned old new i j g \<Longrightarrow> map ch_value (filter (\<lambda>c. ch_tag c \<noteq> TagInsert) g) = take (old_part g) (drop i old)"
  "aligned old new i j g \<Longrightarrow> map ch_value (filter (\<lambda>c. ch_tag c \<noteq> TagDelete) g) = take (new_part g) (drop j new)"
proof (induction g arbitrary: i j)
  case (Cons c g)
  {
    case 1
    then show ?case using Cons.IH(1) by (cases "ch_tag c") (auto simp: old_part_def take_Suc_conv_app_nth Cons_nth_drop_Suc [symmetric])
  next
    case 2
    then show ?case using Cons.IH(2) by (cases "ch_tag c") (auto simp: new_part_def Cons_nth_drop_Suc [symmetric])
  }
qed (simp_all add: old_part_def new_part_def)

lemma sides_aligned:
  assumes "aligned old new i j g"
  shows "old_side (group_hunk g) = take (old_part g) (drop i old)" "new_side (group_hunk g) = take (new_part g) (drop j new)"
proof -
  have k: "dl_kind (line_of_change c) \<noteq> KAddition \<longleftrightarrow> ch_tag c \<noteq> TagInsert" "dl_kind (line_of_change c) \<noteq> KDeletion \<longleftrightarrow> ch_tag c \<noteq> TagDelete" for c
    by (simp_all only: kind_of_change split: change_tag.splits) auto
  show "old_side (group_hunk g) = take (old_part g) (drop i old)" "new_side (group_hunk g) = take (new_part g) (drop j new)"
    using values_aligned [OF assms]
    by (simp_all add: old_side_def new_side_def group_hunk_def hunk_of_group_def Let_def filter_map comp_def k text_of_change
        del: line_of_change.simps)
qed

lemma apply_aligned:
  assumes "aligned_groups old new i j gs" "length old < u32_limit" "length new < u32_limit"
    "list_all (\<lambda>g. 0 < old_part g \<or> old = []) gs" "i \<le> length old" "j \<le> length new"
  shows "apply_hunks i (map group_hunk gs) old = Some (drop j new)"
  using assms
proof (induction gs arbitrary: i j)
  case (Cons g gs)
  then obtain k where k: "0 < i + j \<longrightarrow> 0 < k" "i + k \<le> length old" "j + k \<le> length new" "aligned old new (i + k) (j + k) g"
    "take k (drop i old) = take k (drop j new)"
    "aligned_groups old new (i + k + old_part g) (j + k + new_part g) gs" by auto
  note n = numbered_lines_of [OF k(4) Cons.prems(2,3)]
  have b: "i + k + old_part g \<le> length old" "j + k + new_part g \<le> length new" using aligned_bounds [OF k(4)] k(2,3) by auto
  have start: "old_start (group_hunk g) - 1 = i + k"
  proof (cases "0 < old_part g")
    case True
    then show ?thesis using hunk_start(1) [OF n] by (simp add: group_hunk_def hunk_of_group_def Let_def count_lines_of)
  next
    case False
    then have "old = []" using Cons.prems(4) by simp
    then have "i = 0" "k = 0" "j = 0" using k(1,2) Cons.prems(5) by auto
    then show ?thesis using hunk_start(1) [OF n] False by (simp add: group_hunk_def hunk_of_group_def Let_def count_lines_of)
  qed
  have IH: "apply_hunks (i + k + old_part g) (map group_hunk gs) old = Some (drop (j + k + new_part g) new)"
    by (rule Cons.IH [OF k(6) Cons.prems(2,3)]) (use Cons.prems b in auto)
  have ol: "old_lines (group_hunk g) = old_part g" by (simp add: group_hunk_def hunk_of_group_def Let_def count_lines_of)
  have "take k (drop j new) @ take (new_part g) (drop (j + k) new) @ drop (j + k + new_part g) new = drop j new"
    by (metis append_take_drop_id drop_drop add.commute)
  then show ?case using sides_aligned [OF k(4)] start IH ol k(5) by (simp add: Let_def)
qed simp

end
