(* ===== verification/Diff_Display.thy ===== *)
theory Diff_Display
  imports Diff_Model
begin

text \<open>
  The preview of a diff (\<^verbatim>\<open>crates/common/vtcode-diff/src/lib.rs\<close>): display lines and the words changed in them,
  paired rows, wrapping at the terminal width, and the collector that keeps at most a given number of rows. A
  slice that would panic is \<open>None\<close>. The clock of the word analysis is the number of pairs it allows.
\<close>

section \<open>Display lines\<close>

datatype display_kind = DMetadata | DHunkHeader | DContext | DAddition | DDeletion

fun is_diff_kind :: "display_kind \<Rightarrow> bool" where
  "is_diff_kind DMetadata \<longleftrightarrow> False"
| "is_diff_kind DHunkHeader \<longleftrightarrow> False"
| "is_diff_kind _ \<longleftrightarrow> True"

record display_line =
  dp_kind :: display_kind
  dp_old_line :: "nat option"
  dp_new_line :: "nat option"
  dp_text :: rtext
  dp_changed :: "(nat \<times> nat) list"

definition display_body :: "display_kind \<Rightarrow> nat option \<Rightarrow> nat option \<Rightarrow> rtext \<Rightarrow> display_line" where
  "display_body kind o_line n_line t =
     \<lparr>dp_kind = kind, dp_old_line = o_line, dp_new_line = n_line, dp_text = t, dp_changed = []\<rparr>"

definition or_zero :: "nat option \<Rightarrow> nat" where
  "or_zero n = (case n of Some k \<Rightarrow> k | None \<Rightarrow> 0)"

definition gutter :: "rchar \<Rightarrow> nat \<Rightarrow> nat \<Rightarrow> rtext \<Rightarrow> rtext" where
  "gutter marker width n t =
     marker # replicate (width - length (show_nat n)) 32 @ rt (show_nat n) @ [32, 9474, 32] @ t"

definition numbered_text :: "display_line \<Rightarrow> nat \<Rightarrow> rtext" where
  "numbered_text l width =
     (case dp_kind l of
        DMetadata \<Rightarrow> dp_text l
      | DHunkHeader \<Rightarrow> dp_text l
      | DDeletion \<Rightarrow> gutter 45 width (or_zero (dp_old_line l)) (dp_text l)
      | DAddition \<Rightarrow> gutter 43 width (or_zero (dp_new_line l)) (dp_text l)
      | DContext \<Rightarrow> gutter 32 width
          (or_zero (case dp_new_line l of Some n \<Rightarrow> Some n | None \<Rightarrow> dp_old_line l)) (dp_text l))"

section \<open>Words changed in a pair of lines\<close>

definition push_range :: "(nat \<times> nat) list \<Rightarrow> nat \<Rightarrow> nat \<Rightarrow> (nat \<times> nat) list" where
  "push_range ranges start stop =
     (if ranges \<noteq> [] \<and> snd (last ranges) = start then butlast ranges @ [(fst (last ranges), stop)]
      else ranges @ [(start, stop)])"

fun word_ranges ::
  "change list \<Rightarrow> nat \<Rightarrow> nat \<Rightarrow> (nat \<times> nat) list \<Rightarrow> (nat \<times> nat) list \<Rightarrow> (nat \<times> nat) list \<times> (nat \<times> nat) list" where
  "word_ranges [] old_offset new_offset old_ranges new_ranges = (old_ranges, new_ranges)"
| "word_ranges (c # cs) old_offset new_offset old_ranges new_ranges =
     (let n = blen (ch_value c)
      in case ch_tag c of
           TagEqual \<Rightarrow> word_ranges cs (old_offset + n) (new_offset + n) old_ranges new_ranges
         | TagDelete \<Rightarrow> word_ranges cs (old_offset + n) new_offset (push_range old_ranges old_offset (old_offset + n)) new_ranges
         | TagInsert \<Rightarrow> word_ranges cs old_offset (new_offset + n) old_ranges (push_range new_ranges new_offset (new_offset + n)))"

definition word_level_changed_ranges :: "diff_lib \<Rightarrow> rtext \<Rightarrow> rtext \<Rightarrow> (nat \<times> nat) list \<times> (nat \<times> nat) list" where
  "word_level_changed_ranges lib old new =
     (if old = [] \<or> new = [] \<or> 16384 < blen old + blen new then ([], [])
      else if \<not> lib_alike lib old new then ([], [])
      else word_ranges (lib_words lib old new) 0 0 [] [])"

fun annotate_pairs :: "diff_lib \<Rightarrow> nat \<Rightarrow> display_line list \<Rightarrow> display_line list \<Rightarrow> display_line list \<times> display_line list" where
  "annotate_pairs lib (Suc n) (d # ds) (a # as) =
     (let (o_ranges, n_ranges) = word_level_changed_ranges lib (dp_text d) (dp_text a);
          (ds', as') = annotate_pairs lib n ds as
      in (d\<lparr>dp_changed := o_ranges\<rparr> # ds', a\<lparr>dp_changed := n_ranges\<rparr> # as'))"
| "annotate_pairs lib n ds as = (ds, as)"

abbreviation of_kind :: "display_kind \<Rightarrow> display_line \<Rightarrow> bool" where
  "of_kind k l \<equiv> dp_kind l = k"

lemma dropWhile_twice_shorter [simp]: "length (dropWhile P (dropWhile Q ls)) < Suc (length ls)"
  using length_dropWhile_le [of P "dropWhile Q ls"] length_dropWhile_le [of Q ls] by linarith

text \<open>\<open>budget\<close> is the number of pairs analysed before the deadline.\<close>

function annotate_loop :: "diff_lib \<Rightarrow> nat \<Rightarrow> display_line list \<Rightarrow> display_line list" where
  "annotate_loop lib budget [] = []"
| "annotate_loop lib budget (l # ls) =
     (if dp_kind l \<noteq> DDeletion then l # annotate_loop lib budget ls
      else let dels = l # takeWhile (of_kind DDeletion) ls; rest = dropWhile (of_kind DDeletion) ls;
               adds = takeWhile (of_kind DAddition) rest; rest' = dropWhile (of_kind DAddition) rest;
               pairs = min (length dels) (length adds);
               (dels', adds') = annotate_pairs lib (min budget pairs) dels adds
           in if budget < pairs then dels' @ adds' @ rest'
              else dels' @ adds' @ annotate_loop lib (budget - pairs) rest')"
  by pat_completeness auto
termination
  by (relation "measure (\<lambda>(_, _, ls). length ls)") auto

declare annotate_loop.simps(2) [simp del]

definition annotate_word_level_diffs :: "diff_lib \<Rightarrow> nat \<Rightarrow> display_line list \<Rightarrow> display_line list" where
  "annotate_word_level_diffs lib budget ls =
     (if list_ex (\<lambda>l. 0 \<in> set (dp_text l)) ls then ls else annotate_loop lib budget ls)"

fun display_kind_of :: "diff_line_kind \<Rightarrow> display_kind" where
  "display_kind_of KContext = DContext"
| "display_kind_of KAddition = DAddition"
| "display_kind_of KDeletion = DDeletion"

definition display_of_hunk :: "diff_hunk \<Rightarrow> display_line list" where
  "display_of_hunk h =
     display_body DHunkHeader None None (format_hunk_header (old_start h) (old_lines h) (new_start h) (new_lines h))
     # map (\<lambda>l. display_body (display_kind_of (dl_kind l)) (dl_old_line l) (dl_new_line l) (trim_line_ending (dl_text l)))
         (hunk_lines h)"

definition display_lines_from_hunks :: "diff_lib \<Rightarrow> nat \<Rightarrow> diff_hunk list \<Rightarrow> display_line list" where
  "display_lines_from_hunks lib budget hunks = annotate_word_level_diffs lib budget (concat (map display_of_hunk hunks))"

section \<open>Display lines of a unified diff\<close>

record display_state =
  vs_output :: "display_line list"
  vs_old_line :: nat
  vs_new_line :: nat
  vs_in_hunk :: bool
  vs_remaining_old :: nat
  vs_remaining_new :: nat
  vs_omission :: bool
  vs_hunk_old_start :: nat
  vs_hunk_new_start :: nat
  vs_hunk_old_count :: nat
  vs_hunk_new_count :: nat
  vs_tail :: "nat list"

definition display_start :: display_state where
  "display_start = \<lparr>vs_output = [], vs_old_line = 0, vs_new_line = 0, vs_in_hunk = False, vs_remaining_old = 0,
     vs_remaining_new = 0, vs_omission = False, vs_hunk_old_start = 0, vs_hunk_new_start = 0,
     vs_hunk_old_count = 0, vs_hunk_new_count = 0, vs_tail = []\<rparr>"

fun number_display_tail :: "nat list \<Rightarrow> nat \<Rightarrow> nat \<Rightarrow> display_line list \<Rightarrow> display_line list" where
  "number_display_tail [] o_line n_line ls = ls"
| "number_display_tail (i # is) o_line n_line ls =
     (case dp_kind (ls ! i) of
        DAddition \<Rightarrow> number_display_tail is o_line (sat_add_u32 n_line 1) (ls[i := (ls ! i)\<lparr>dp_new_line := Some n_line\<rparr>])
      | DDeletion \<Rightarrow> number_display_tail is (sat_add_u32 o_line 1) n_line (ls[i := (ls ! i)\<lparr>dp_old_line := Some o_line\<rparr>])
      | DContext \<Rightarrow> number_display_tail is (sat_add_u32 o_line 1) (sat_add_u32 n_line 1)
                      (ls[i := (ls ! i)\<lparr>dp_old_line := Some o_line, dp_new_line := Some n_line\<rparr>])
      | _ \<Rightarrow> number_display_tail is o_line n_line ls)"

definition assign_omitted_tail_line_numbers ::
  "display_line list \<Rightarrow> nat list \<Rightarrow> nat \<Rightarrow> nat \<Rightarrow> nat \<Rightarrow> nat \<Rightarrow> display_line list" where
  "assign_omitted_tail_line_numbers ls tail o_start o_count n_start n_count =
     (if tail = [] then ls
      else let old_tail = length (filter (\<lambda>i. dp_kind (ls ! i) \<noteq> DAddition) tail);
               new_tail = length (filter (\<lambda>i. dp_kind (ls ! i) \<noteq> DDeletion) tail)
           in number_display_tail tail (sat_add_u32 o_start (sat_u32 o_count) - sat_u32 old_tail)
                (sat_add_u32 n_start (sat_u32 n_count) - sat_u32 new_tail) ls)"

definition close_display :: "display_state \<Rightarrow> display_line list" where
  "close_display s = assign_omitted_tail_line_numbers (vs_output s) (vs_tail s) (vs_hunk_old_start s)
     (vs_hunk_old_count s) (vs_hunk_new_start s) (vs_hunk_new_count s)"

definition display_header :: "rtext \<Rightarrow> nat \<Rightarrow> nat \<Rightarrow> display_state \<Rightarrow> display_state" where
  "display_header raw o_start n_start s =
     (let s1 = s\<lparr>vs_output := close_display s, vs_tail := [], vs_old_line := o_start, vs_new_line := n_start\<rparr>;
          s2 = (case parse_hunk_range raw of
                  Some (_, o_count, _, n_count) \<Rightarrow>
                    s1\<lparr>vs_remaining_old := o_count, vs_remaining_new := n_count, vs_hunk_old_count := o_count,
                       vs_hunk_new_count := n_count\<rparr>
                | None \<Rightarrow> s1)
      in s2\<lparr>vs_hunk_old_start := o_start, vs_hunk_new_start := n_start, vs_in_hunk := True, vs_omission := False,
            vs_output := vs_output s2 @ [display_body DHunkHeader None None raw]\<rparr>)"

definition display_push :: "display_kind \<Rightarrow> rtext \<Rightarrow> display_state \<Rightarrow> display_state" where
  "display_push kind raw s =
     (let in_old = kind \<noteq> DAddition; in_new = kind \<noteq> DDeletion; shown = \<not> vs_omission s
      in s\<lparr>vs_output := vs_output s @ [display_body kind
              (if in_old \<and> shown then Some (vs_old_line s) else None)
              (if in_new \<and> shown then Some (vs_new_line s) else None) (tl raw)],
           vs_tail := (if shown then vs_tail s else vs_tail s @ [length (vs_output s)]),
           vs_old_line := (if in_old then sat_add_u32 (vs_old_line s) 1 else vs_old_line s),
           vs_new_line := (if in_new then sat_add_u32 (vs_new_line s) 1 else vs_new_line s),
           vs_remaining_old := (if in_old then vs_remaining_old s - 1 else vs_remaining_old s),
           vs_remaining_new := (if in_new then vs_remaining_new s - 1 else vs_remaining_new s)\<rparr>)"

definition display_omitted :: "rtext \<Rightarrow> nat \<Rightarrow> display_state \<Rightarrow> display_state" where
  "display_omitted raw n s =
     (let omitted = min (min n (vs_remaining_old s)) (vs_remaining_new s)
      in s\<lparr>vs_output := vs_output s @ [display_body DMetadata None None raw], vs_omission := True,
           vs_old_line := sat_add_u32 (vs_old_line s) (sat_u32 omitted),
           vs_new_line := sat_add_u32 (vs_new_line s) (sat_u32 omitted),
           vs_remaining_old := vs_remaining_old s - omitted, vs_remaining_new := vs_remaining_new s - omitted\<rparr>)"

definition display_step :: "display_state \<Rightarrow> rtext \<Rightarrow> display_state" where
  "display_step s raw =
     (case parse_hunk_starts raw of
        Some (o_start, n_start) \<Rightarrow> display_header raw o_start n_start s
      | None \<Rightarrow>
          if vs_in_hunk s \<and> (vs_omission s \<or> 0 < vs_remaining_new s) \<and> prefix [43] raw then display_push DAddition raw s
          else if vs_in_hunk s \<and> (vs_omission s \<or> 0 < vs_remaining_old s) \<and> prefix [45] raw then display_push DDeletion raw s
          else if vs_in_hunk s \<and> (vs_omission s \<or> 0 < vs_remaining_old s \<and> 0 < vs_remaining_new s) \<and> prefix [32] raw
          then display_push DContext raw s
          else case (if vs_in_hunk s then parse_omitted_line_count raw else None) of
                 Some n \<Rightarrow> display_omitted raw n s
               | None \<Rightarrow> s\<lparr>vs_output := vs_output s @ [display_body DMetadata None None raw]\<rparr>)"

definition display_lines_from_unified_diff :: "diff_lib \<Rightarrow> nat \<Rightarrow> rtext \<Rightarrow> display_line list" where
  "display_lines_from_unified_diff lib budget input =
     annotate_word_level_diffs lib budget (close_display (foldl display_step display_start (rlines input)))"

section \<open>The gutter\<close>

fun decimal_digits :: "nat \<Rightarrow> nat" where
  "decimal_digits n = (if 10 \<le> n then decimal_digits (n div 10) + 1 else 1)"

declare decimal_digits.simps [simp del]

definition clamp :: "nat \<Rightarrow> nat \<Rightarrow> nat \<Rightarrow> nat" where
  "clamp n lo hi = min (max n lo) hi"

definition diff_display_line_number_width :: "display_line list \<Rightarrow> nat" where
  "diff_display_line_number_width ls =
     clamp (decimal_digits (foldl max 0 (concat (map (\<lambda>l. [or_zero (dp_old_line l), or_zero (dp_new_line l)]) ls)))) 5 6"

definition format_numbered_unified_diff :: "diff_lib \<Rightarrow> nat \<Rightarrow> rtext \<Rightarrow> rtext list" where
  "format_numbered_unified_diff lib budget input =
     (let ls = display_lines_from_unified_diff lib budget input; width = diff_display_line_number_width ls
      in map (\<lambda>l. numbered_text l width) ls)"

definition diff_min_side_by_side_width :: nat where
  "diff_min_side_by_side_width = 60"

definition diff_side_by_side_fits :: "nat option \<Rightarrow> bool" where
  "diff_side_by_side_fits available = (case available of Some w \<Rightarrow> diff_min_side_by_side_width \<le> w | None \<Rightarrow> True)"

definition diff_min_body_width_with_gutter :: nat where
  "diff_min_body_width_with_gutter = 20"

definition diff_gutter_width :: "nat \<Rightarrow> nat" where
  "diff_gutter_width number_width = number_width + 4"

definition diff_gutter_fits :: "nat \<Rightarrow> nat \<Rightarrow> bool" where
  "diff_gutter_fits available number_width \<longleftrightarrow> diff_gutter_width number_width + diff_min_body_width_with_gutter \<le> available"

definition diff_layout_width :: "nat \<Rightarrow> nat \<Rightarrow> bool \<Rightarrow> nat" where
  "diff_layout_width available number_width show_gutter =
     (if show_gutter then available else available + diff_gutter_width number_width)"

section \<open>Pairs\<close>

function side_by_side_pairs :: "display_line list \<Rightarrow> (display_line option \<times> display_line option) list" where
  "side_by_side_pairs [] = []"
| "side_by_side_pairs (l # ls) =
     (case dp_kind l of
        DHunkHeader \<Rightarrow> (Some l, None) # side_by_side_pairs ls
      | DMetadata \<Rightarrow> (Some l, None) # side_by_side_pairs ls
      | DContext \<Rightarrow> (Some l, Some l) # side_by_side_pairs ls
      | DDeletion \<Rightarrow>
          (let dels = l # takeWhile (of_kind DDeletion) ls; rest = dropWhile (of_kind DDeletion) ls;
               adds = takeWhile (of_kind DAddition) rest
           in map (\<lambda>i. (if i < length dels then Some (dels ! i) else None, if i < length adds then Some (adds ! i) else None))
                [0 ..< max (length dels) (length adds)]
              @ side_by_side_pairs (dropWhile (of_kind DAddition) rest))
      | DAddition \<Rightarrow> (None, Some l) # side_by_side_pairs ls)"
  by pat_completeness auto
termination
  by (relation "measure length") auto

declare side_by_side_pairs.simps(2) [simp del]

record side_by_side_row =
  sr_left :: "display_line option"
  sr_right :: "display_line option"

definition is_full_width :: "display_line option \<Rightarrow> display_line option \<Rightarrow> bool" where
  "is_full_width left right \<longleftrightarrow>
     right = None \<and> (case left of Some l \<Rightarrow> dp_kind l = DHunkHeader \<or> dp_kind l = DMetadata | None \<Rightarrow> False)"

definition side_by_side_rows :: "display_line list \<Rightarrow> side_by_side_row list" where
  "side_by_side_rows ls = map (\<lambda>(l, r). \<lparr>sr_left = l, sr_right = r\<rparr>) (side_by_side_pairs ls)"

end
