(* ===== verification/Diff_Paths.thy ===== *)
theory Diff_Paths
  imports Diff_Alignment Diff_Display
begin

text \<open>
  The two ways to a preview agree: the display lines of a printed diff are those of its hunks.
\<close>

section \<open>Lines of a printed text\<close>

lemma rlines_ended:
  assumes "list_all unbroken ls"
  shows "rlines (concat (map ended ls)) = ls"
proof -
  have s: "split_nl (l @ nl # t) = l # split_nl t" if "unbroken l" for l t
    using that by (induction l) auto
  have "split_nl (concat (map ended ls)) = ls @ [[]]" using assms by (induction ls) (auto simp: s)
  moreover have "map strip_cr ls = ls" using assms by (induction ls) (auto simp: strip_cr_def unbroken_def, metis last_in_set)
  ultimately show ?thesis by (simp add: rlines_def)
qed

definition display_of_line :: "diff_line \<Rightarrow> display_line" where
  "display_of_line l = display_body (display_kind_of (dl_kind l)) (dl_old_line l) (dl_new_line l) (trim_line_ending (dl_text l))"

definition body_text :: "diff_line \<Rightarrow> rtext" where
  "body_text l = kind_prefix (dl_kind l) # trim_line_ending (dl_text l)"

lemma line_texts_plain: "line_texts False l = [body_text l]"
  by (simp add: line_texts_def body_text_def)

lemma body_not_header: "parse_hunk_starts (body_text l) = None"
  by (cases "dl_kind l") (simp_all add: parse_hunk_starts_def parse_hunk_range_def strip_text_def body_text_def rt_def)

section \<open>Hunks\<close>

definition bodies_shown :: "diff_line list \<Rightarrow> display_state \<Rightarrow> display_state" where
  "bodies_shown ls s = s\<lparr>vs_output := vs_output s @ map display_of_line ls,
     vs_old_line := vs_old_line s + count_old ls, vs_new_line := vs_new_line s + count_new ls,
     vs_remaining_old := vs_remaining_old s - count_old ls, vs_remaining_new := vs_remaining_new s - count_new ls\<rparr>"

lemma counts_Cons:
  "count_old (l # ls) = (if dl_kind l = KAddition then 0 else 1) + count_old ls"
  "count_new (l # ls) = (if dl_kind l = KDeletion then 0 else 1) + count_new ls"
  by (simp_all add: count_old_def count_new_def)

lemma display_one:
  assumes "vs_in_hunk s" "\<not> vs_omission s" "numbered (vs_old_line s) (vs_new_line s) [l]"
    "vs_old_line s + count_old [l] \<le> u32_limit" "vs_new_line s + count_new [l] \<le> u32_limit"
    "count_old [l] \<le> vs_remaining_old s" "count_new [l] \<le> vs_remaining_new s"
  shows "display_step s (body_text l) = bodies_shown [l] s"
  using assms unfolding display_step_def body_not_header
  by (cases "dl_kind l") (auto simp: body_text_def display_push_def bodies_shown_def display_of_line_def count_old_def count_new_def
      sat_add_u32_def sat_u32_def Let_def)

lemma display_bodies:
  assumes "vs_in_hunk s" "\<not> vs_omission s" "numbered (vs_old_line s) (vs_new_line s) ls"
    "vs_old_line s + count_old ls \<le> u32_limit" "vs_new_line s + count_new ls \<le> u32_limit"
    "count_old ls \<le> vs_remaining_old s" "count_new ls \<le> vs_remaining_new s"
  shows "foldl display_step s (map body_text ls) = bodies_shown ls s"
  using assms
proof (induction ls arbitrary: s)
  case Nil
  then show ?case by (simp add: bodies_shown_def count_old_def count_new_def)
next
  case (Cons l ls)
  have n: "numbered (vs_old_line s) (vs_new_line s) [l]"
    "numbered (vs_old_line s + count_old [l]) (vs_new_line s + count_new [l]) ls"
    using Cons.prems(3) by (auto simp: count_old_def count_new_def split: diff_line_kind.splits)
  have "display_step s (body_text l) = bodies_shown [l] s"
    by (rule display_one) (use Cons.prems n in \<open>auto simp: counts_Cons count_old_def count_new_def split: if_splits\<close>)
  moreover have "foldl display_step (bodies_shown [l] s) (map body_text ls) = bodies_shown ls (bodies_shown [l] s)"
    by (rule Cons.IH) (use Cons.prems n in \<open>auto simp: bodies_shown_def counts_Cons count_old_def count_new_def split: if_splits\<close>)
  moreover have "bodies_shown ls (bodies_shown [l] s) = bodies_shown (l # ls) s"
    by (simp add: bodies_shown_def counts_Cons add.assoc) (simp add: count_old_def count_new_def)
  ultimately show ?case by simp
qed

lemma display_of_hunk_lines:
  "display_of_hunk h = display_body DHunkHeader None None (format_hunk_header (old_start h) (old_lines h) (new_start h) (new_lines h))
     # map display_of_line (hunk_lines h)"
  by (simp add: display_of_hunk_def display_of_line_def comp_def)

lemma display_hunk:
  assumes "wf_hunk h" "vs_tail s = []"
  shows "vs_output (foldl display_step s (hunk_texts False h)) = vs_output s @ display_of_hunk h"
    "vs_tail (foldl display_step s (hunk_texts False h)) = []"
proof -
  let ?o = "printed_start (old_start h) (old_lines h)" and ?n = "printed_start (new_start h) (new_lines h)"
  let ?head = "format_hunk_header (old_start h) (old_lines h) (new_start h) (new_lines h)"
  have w: "old_lines h = count_old (hunk_lines h)" "new_lines h = count_new (hunk_lines h)"
    "numbered ?o ?n (hunk_lines h)" "old_start h + old_lines h \<le> u32_limit" "new_start h + new_lines h \<le> u32_limit"
    using assms(1) by (auto simp: wf_hunk_def)
  have b: "?o \<le> old_start h" "?n \<le> new_start h" by (auto simp: printed_start_def)
  have p: "parse_hunk_range ?head = Some (?o, old_lines h, ?n, new_lines h)"
    by (rule parse_header) (use w in \<open>auto simp: u32_limit_def\<close>)
  define s1 where "s1 = display_step s ?head"
  have s1: "s1 = s\<lparr>vs_output := vs_output s @ [display_body DHunkHeader None None ?head], vs_tail := [], vs_old_line := ?o,
      vs_new_line := ?n, vs_remaining_old := old_lines h, vs_remaining_new := new_lines h, vs_hunk_old_count := old_lines h,
      vs_hunk_new_count := new_lines h, vs_hunk_old_start := ?o, vs_hunk_new_start := ?n, vs_in_hunk := True, vs_omission := False\<rparr>"
    using assms(2) by (simp add: s1_def display_step_def parse_hunk_starts_def p display_header_def Let_def close_display_def
        assign_omitted_tail_line_numbers_def)
  have "foldl display_step s1 (map body_text (hunk_lines h)) = bodies_shown (hunk_lines h) s1"
    by (rule display_bodies) (use w b in \<open>auto simp: s1\<close>)
  moreover have "concat (map (line_texts False) ls) = map body_text ls" for ls by (induction ls) (simp_all add: line_texts_plain)
  then have "hunk_texts False h = ?head # map body_text (hunk_lines h)" by (simp add: hunk_texts_def)
  ultimately have f: "foldl display_step s (hunk_texts False h) = bodies_shown (hunk_lines h) s1" by (simp add: s1_def)
  show "vs_output (foldl display_step s (hunk_texts False h)) = vs_output s @ display_of_hunk h"
    "vs_tail (foldl display_step s (hunk_texts False h)) = []"
    unfolding f by (simp_all add: bodies_shown_def s1 display_of_hunk_lines)
qed

lemma display_hunks:
  assumes "list_all wf_hunk hunks" "vs_tail s = []"
  shows "close_display (foldl display_step s (concat (map (hunk_texts False) hunks))) = vs_output s @ concat (map display_of_hunk hunks)"
  using assms
proof (induction hunks arbitrary: s)
  case Nil
  then show ?case by (simp add: close_display_def assign_omitted_tail_line_numbers_def)
next
  case (Cons h hunks)
  then show ?case using display_hunk [of h s] by simp
qed

definition metadata :: "rtext \<Rightarrow> display_line" where
  "metadata t = display_body DMetadata None None t"

lemma display_labels:
  "foldl display_step display_start (label_texts opts) = display_start\<lparr>vs_output := map metadata (label_texts opts)\<rparr>"
proof -
  have "display_step (display_start\<lparr>vs_output := out\<rparr>) (rt p @ t) = display_start\<lparr>vs_output := out @ [metadata (rt p @ t)]\<rparr>"
    if "p = ''--- '' \<or> p = ''+++ ''" for p t out
    using that by (auto simp: display_step_def display_start_def parse_hunk_starts_def parse_hunk_range_def strip_text_def rt_def metadata_def)
  from this [of _ _] this [of _ "[]"] show ?thesis
    by (auto simp: label_texts_def display_start_def split: option.splits)
qed

lemma annotate_metadata:
  assumes "list_all (\<lambda>t. 0 \<notin> set t) ts"
  shows "annotate_word_level_diffs lib budget (map metadata ts @ ls) = map metadata ts @ annotate_word_level_diffs lib budget ls"
proof -
  have "annotate_loop lib budget (map metadata ts @ ls) = map metadata ts @ annotate_loop lib budget ls"
    by (induction ts) (simp_all add: annotate_loop.simps(2) metadata_def display_body_def)
  moreover have "list_ex (\<lambda>l. 0 \<in> set (dp_text l)) (map metadata ts @ ls) = list_ex (\<lambda>l. 0 \<in> set (dp_text l)) ls"
    using assms by (induction ts) (auto simp: metadata_def display_body_def)
  ultimately show ?thesis by (simp add: annotate_word_level_diffs_def)
qed

lemma display_printed:
  assumes "list_all wf_hunk hunks" "hunks \<noteq> []" "plain_label (old_label opts)" "plain_label (new_label opts)" "\<not> missing_newline_hint opts"
    "list_all (\<lambda>t. 0 \<notin> set t) (label_texts opts)"
  shows "display_lines_from_unified_diff lib budget (format_unified_hunks hunks opts) =
    map metadata (label_texts opts) @ display_lines_from_hunks lib budget hunks"
proof -
  let ?texts = "label_texts opts @ concat (map (hunk_texts False) hunks)"
  have "list_all unbroken ?texts"
    using steps_labels(2) [OF assms(3,4)] assms(1) hunk_texts_unbroken by (fastforce simp: list_all_iff)
  then have "rlines (format_unified_hunks hunks opts) = ?texts"
    using rlines_ended [of ?texts] assms(2,5) by (simp add: format_hunks_texts)
  moreover have "close_display (foldl display_step display_start ?texts) = map metadata (label_texts opts) @ concat (map display_of_hunk hunks)"
  proof -
    have "vs_tail (display_start\<lparr>vs_output := map metadata (label_texts opts)\<rparr>) = []" by (simp add: display_start_def)
    from display_hunks [OF assms(1) this] show ?thesis by (simp add: display_labels)
  qed
  ultimately show ?thesis
    by (simp add: display_lines_from_unified_diff_def display_lines_from_hunks_def annotate_metadata [OF assms(6)])
qed

end
