(* ===== verification/Diff_Chunks.thy ===== *)
theory Diff_Chunks
  imports Diff_Model
begin

text \<open>
  The chunks of characters: the runs joined by \<open>compute_diff_chunks\<close> are slices of the two texts, and together they
  are the two texts.
\<close>

section \<open>The two sides of chunks and of changes\<close>

fun chunk_tag :: "chunk \<Rightarrow> change_tag" where
  "chunk_tag (EqualChunk t) = TagEqual"
| "chunk_tag (DeleteChunk t) = TagDelete"
| "chunk_tag (InsertChunk t) = TagInsert"

fun chunk_text :: "chunk \<Rightarrow> rtext" where
  "chunk_text (EqualChunk t) = t"
| "chunk_text (DeleteChunk t) = t"
| "chunk_text (InsertChunk t) = t"

definition chunks_old :: "chunk list \<Rightarrow> rtext" where
  "chunks_old chunks = concat (map chunk_text (filter (\<lambda>c. chunk_tag c \<noteq> TagInsert) chunks))"

definition chunks_new :: "chunk list \<Rightarrow> rtext" where
  "chunks_new chunks = concat (map chunk_text (filter (\<lambda>c. chunk_tag c \<noteq> TagDelete) chunks))"

definition old_values :: "change list \<Rightarrow> rtext" where
  "old_values cs = concat (map ch_value (filter (\<lambda>c. ch_tag c \<noteq> TagInsert) cs))"

definition new_values :: "change list \<Rightarrow> rtext" where
  "new_values cs = concat (map ch_value (filter (\<lambda>c. ch_tag c \<noteq> TagDelete) cs))"

lemma sides_append [simp]:
  "chunks_old (a @ b) = chunks_old a @ chunks_old b" "chunks_new (a @ b) = chunks_new a @ chunks_new b"
  by (simp_all add: chunks_old_def chunks_new_def)

text \<open>What \<open>similar\<close> documents of a diff of characters: its changes spell out the two texts.\<close>

definition documented_chars :: "diff_lib \<Rightarrow> bool" where
  "documented_chars lib \<longleftrightarrow> (\<forall>old new. old_values (lib_chars lib old new) = old \<and> new_values (lib_chars lib old new) = new)"

definition no_repeat :: "chunk list \<Rightarrow> bool" where
  "no_repeat chunks \<longleftrightarrow> successively (\<lambda>a b. chunk_tag a \<noteq> chunk_tag b) chunks"

section \<open>The loop\<close>

fun chunk_of :: "change_tag \<Rightarrow> rtext \<Rightarrow> chunk" where
  "chunk_of TagEqual t = EqualChunk t"
| "chunk_of TagDelete t = DeleteChunk t"
| "chunk_of TagInsert t = InsertChunk t"

lemma chunk_of_simps [simp]: "chunk_tag (chunk_of tag t) = tag" "chunk_text (chunk_of tag t) = t"
  by (cases tag; simp)+

lemma sides_one [simp]:
  "chunks_old [] = []" "chunks_new [] = []"
  "chunks_old (chunk_of tag t # r) = (if tag = TagInsert then [] else t) @ chunks_old r"
  "chunks_new (chunk_of tag t # r) = (if tag = TagDelete then [] else t) @ chunks_new r"
  by (simp_all add: chunks_old_def chunks_new_def)

definition started :: "change_tag \<Rightarrow> chunk list \<Rightarrow> nat" where
  "started tag chunks = blen (if tag = TagInsert then chunks_new chunks else chunks_old chunks)"

lemma push_chunk_run:
  assumes "old = chunks_old (chunks @ [chunk_of tag t]) @ os" "new = chunks_new (chunks @ [chunk_of tag t]) @ ns"
  shows "push_chunk chunks tag (started tag chunks) (started tag chunks + blen t) old new = Some (chunks @ [chunk_of tag t])"
  using assms by (cases tag) (simp_all add: push_chunk_def started_def chunks_old_def chunks_new_def)

lemma no_repeat_snoc:
  "no_repeat (chunks @ [c]) \<longleftrightarrow> no_repeat chunks \<and> (chunks \<noteq> [] \<longrightarrow> chunk_tag (last chunks) \<noteq> chunk_tag c)"
  by (auto simp: no_repeat_def successively_append_iff)

lemma chunk_loop_run:
  assumes "old = chunks_old (chunks @ [chunk_of tag t]) @ old_values cs" "new = chunks_new (chunks @ [chunk_of tag t]) @ new_values cs"
    "no_repeat (chunks @ [chunk_of tag t])"
  shows "\<exists>r. chunk_loop old new cs chunks (blen (chunks_old (chunks @ [chunk_of tag t]))) (blen (chunks_new (chunks @ [chunk_of tag t])))
        (Some (tag, started tag chunks, started tag chunks + blen t)) = Some r
      \<and> chunks_old r = old \<and> chunks_new r = new \<and> no_repeat r"
  using assms
proof (induction cs arbitrary: chunks tag t)
  case Nil
  have "push_chunk chunks tag (started tag chunks) (started tag chunks + blen t) old new = Some (chunks @ [chunk_of tag t])"
    by (rule push_chunk_run [OF Nil.prems(1,2)])
  then show ?case using Nil.prems by (simp add: old_values_def new_values_def)
next
  case (Cons c cs)
  show ?case
  proof (cases "tag = ch_tag c")
    case True
    have "no_repeat (chunks @ [chunk_of tag (t @ ch_value c)])" using Cons.prems(3) by (simp add: no_repeat_snoc)
    moreover have "old = chunks_old (chunks @ [chunk_of tag (t @ ch_value c)]) @ old_values cs"
      "new = chunks_new (chunks @ [chunk_of tag (t @ ch_value c)]) @ new_values cs"
      using Cons.prems(1,2) True by (cases "ch_tag c"; simp add: chunks_old_def chunks_new_def old_values_def new_values_def)+
    ultimately show ?thesis using Cons.IH [of chunks tag "t @ ch_value c"] True
      by (cases "ch_tag c") (simp_all add: Let_def started_def chunks_old_def chunks_new_def add.assoc)
  next
    case False
    let ?chunks = "chunks @ [chunk_of tag t]"
    have p: "push_chunk chunks tag (started tag chunks) (started tag chunks + blen t) old new = Some ?chunks"
      by (rule push_chunk_run [OF Cons.prems(1,2)])
    have "no_repeat (?chunks @ [chunk_of (ch_tag c) (ch_value c)])" using Cons.prems(3) False by (simp only: no_repeat_snoc) simp
    moreover have "old = chunks_old (?chunks @ [chunk_of (ch_tag c) (ch_value c)]) @ old_values cs"
      "new = chunks_new (?chunks @ [chunk_of (ch_tag c) (ch_value c)]) @ new_values cs"
      using Cons.prems(1,2) by (cases "ch_tag c"; simp add: chunks_old_def chunks_new_def old_values_def new_values_def)+
    ultimately have "\<exists>r. chunk_loop old new cs ?chunks (blen (chunks_old (?chunks @ [chunk_of (ch_tag c) (ch_value c)])))
        (blen (chunks_new (?chunks @ [chunk_of (ch_tag c) (ch_value c)])))
        (Some (ch_tag c, started (ch_tag c) ?chunks, started (ch_tag c) ?chunks + blen (ch_value c))) = Some r
      \<and> chunks_old r = old \<and> chunks_new r = new \<and> no_repeat r" using Cons.IH by blast
    moreover have "chunk_loop old new (c # cs) chunks (blen (chunks_old (chunks @ [chunk_of tag t]))) (blen (chunks_new (chunks @ [chunk_of tag t])))
        (Some (tag, started tag chunks, started tag chunks + blen t))
      = chunk_loop old new cs ?chunks (blen (chunks_old (?chunks @ [chunk_of (ch_tag c) (ch_value c)])))
        (blen (chunks_new (?chunks @ [chunk_of (ch_tag c) (ch_value c)])))
        (Some (ch_tag c, started (ch_tag c) ?chunks, started (ch_tag c) ?chunks + blen (ch_value c)))"
      using False p by (cases "ch_tag c") (simp_all add: Let_def started_def add.assoc del: chunk_of.simps)
    ultimately show ?thesis by simp
  qed
qed

lemma compute_chunks:
  assumes "documented_chars lib"
  shows "\<exists>r. compute_diff_chunks lib old new = Some r \<and> chunks_old r = old \<and> chunks_new r = new \<and> no_repeat r"
proof (cases "old = new")
  case True
  then show ?thesis by (simp add: compute_diff_chunks_def chunks_old_def chunks_new_def no_repeat_def)
next
  case False
  have v: "old_values (lib_chars lib old new) = old" "new_values (lib_chars lib old new) = new"
    using assms by (auto simp: documented_chars_def)
  show ?thesis
  proof (cases "lib_chars lib old new")
    case Nil
    then show ?thesis using v False by (simp add: old_values_def new_values_def)
  next
    case (Cons c cs)
    have "no_repeat ([] @ [chunk_of (ch_tag c) (ch_value c)])" by (simp add: no_repeat_def)
    moreover have "old = chunks_old ([] @ [chunk_of (ch_tag c) (ch_value c)]) @ old_values cs"
      "new = chunks_new ([] @ [chunk_of (ch_tag c) (ch_value c)]) @ new_values cs"
      using v Cons by (cases "ch_tag c"; auto simp: chunks_old_def chunks_new_def old_values_def new_values_def)+
    ultimately have "\<exists>r. chunk_loop old new cs [] (blen (chunks_old ([] @ [chunk_of (ch_tag c) (ch_value c)])))
        (blen (chunks_new ([] @ [chunk_of (ch_tag c) (ch_value c)]))) (Some (ch_tag c, started (ch_tag c) [], started (ch_tag c) [] + blen (ch_value c))) = Some r
      \<and> chunks_old r = old \<and> chunks_new r = new \<and> no_repeat r" using chunk_loop_run by blast
    then show ?thesis using False Cons
      by (cases "ch_tag c") (simp_all add: compute_diff_chunks_def Let_def started_def chunks_old_def chunks_new_def)
  qed
qed

end
