(* ===== verification/Diff_Words.thy ===== *)
theory Diff_Words
  imports Diff_Display Diff_Chunks
begin

text \<open>
  The words marked as changed in a pair of lines: the ranges are cut at characters, and what they leave is the
  same on both sides.
\<close>

definition documented_words :: "diff_lib \<Rightarrow> bool" where
  "documented_words lib \<longleftrightarrow> (\<forall>old new. old_values (lib_words lib old new) = old \<and> new_values (lib_words lib old new) = new)"

definition in_ranges :: "(nat \<times> nat) list \<Rightarrow> nat \<Rightarrow> bool" where
  "in_ranges ranges p \<longleftrightarrow> list_ex (\<lambda>r. fst r \<le> p \<and> p < snd r) ranges"

text \<open>The characters of a text whose first byte is in none of the ranges.\<close>

fun outside :: "(nat \<times> nat) list \<Rightarrow> nat \<Rightarrow> rtext \<Rightarrow> rtext" where
  "outside ranges p [] = []"
| "outside ranges p (c # t) = (if in_ranges ranges p then [] else [c]) @ outside ranges (p + len_utf8 c) t"

definition ranges_in :: "rtext \<Rightarrow> (nat \<times> nat) list \<Rightarrow> bool" where
  "ranges_in t ranges \<longleftrightarrow> list_all (\<lambda>r. fst r \<le> snd r \<and> is_char_boundary t (fst r) \<and> is_char_boundary t (snd r)) ranges"

lemma outside_append: "outside ranges p (a @ b) = outside ranges p a @ outside ranges (p + blen a) b"
  by (induction a arbitrary: p) (simp_all add: add.assoc)

lemma outside_cong:
  "(\<And>q. p \<le> q \<Longrightarrow> q < p + blen t \<Longrightarrow> in_ranges r q = in_ranges r' q) \<Longrightarrow> outside r p t = outside r' p t"
proof (induction t arbitrary: p)
  case (Cons c t)
  have "outside r (p + len_utf8 c) t = outside r' (p + len_utf8 c) t" by (rule Cons.IH) (use Cons.prems in auto)
  moreover have "in_ranges r p = in_ranges r' p" using Cons.prems [of p] by simp
  ultimately show ?case by simp
qed simp

lemma outside_all: "(\<And>q. p \<le> q \<Longrightarrow> q < p + blen t \<Longrightarrow> in_ranges r q) \<Longrightarrow> outside r p t = []"
proof (induction t arbitrary: p)
  case (Cons c t)
  have "outside r (p + len_utf8 c) t = []" by (rule Cons.IH) (use Cons.prems in auto)
  moreover have "in_ranges r p" using Cons.prems [of p] by simp
  ultimately show ?case by simp
qed simp

lemma outside_none: "(\<And>q. p \<le> q \<Longrightarrow> \<not> in_ranges r q) \<Longrightarrow> outside r p t = t"
  by (induction t arbitrary: p) simp_all

lemma in_push_range:
  assumes "ranges_in t ranges" "start \<le> stop"
  shows "in_ranges (push_range ranges start stop) p \<longleftrightarrow> in_ranges ranges p \<or> start \<le> p \<and> p < stop"
proof (cases ranges rule: rev_cases)
  case (snoc rs r)
  then show ?thesis using assms by (auto simp: in_ranges_def push_range_def ranges_in_def)
qed (simp add: in_ranges_def push_range_def)

lemma ranges_push:
  assumes "ranges_in a ranges" "a = l @ v" "\<forall>r \<in> set ranges. snd r \<le> blen l"
  shows "ranges_in a (push_range ranges (blen l) (blen l + blen v))"
proof (cases ranges rule: rev_cases)
  case (snoc rs r)
  then show ?thesis using assms boundary_ends(2) [of a] boundary_append [of l v]
    by (auto simp: push_range_def ranges_in_def)
qed (use assms boundary_ends(2) [of a] boundary_append [of l v] in \<open>auto simp: push_range_def ranges_in_def\<close>)

lemma boundary_grow: "is_char_boundary a p \<Longrightarrow> is_char_boundary (a @ b) p"
  by (elim boundaryE) (metis append.assoc boundary_append)

lemma ranges_in_append: "ranges_in a ranges \<Longrightarrow> ranges_in (a @ b) ranges"
  using boundary_grow by (auto simp: ranges_in_def list_all_iff)

lemma ranges_in_bound: "ranges_in a ranges \<Longrightarrow> r \<in> set ranges \<Longrightarrow> snd r \<le> blen a"
  using boundary_le by (auto simp: ranges_in_def list_all_iff)

lemma outside_push:
  assumes "ranges_in a ranges"
  shows "outside (push_range ranges (blen a) (blen a + blen v)) 0 (a @ v) = outside ranges 0 a"
proof -
  let ?r = "push_range ranges (blen a) (blen a + blen v)"
  have p: "in_ranges ?r p \<longleftrightarrow> in_ranges ranges p \<or> blen a \<le> p \<and> p < blen a + blen v" for p
    by (rule in_push_range [OF assms]) simp
  have "outside ?r 0 a = outside ranges 0 a" by (rule outside_cong) (auto simp: p)
  moreover have "outside ?r (0 + blen a) v = []" by (rule outside_all) (auto simp: p)
  ultimately show ?thesis by (simp add: outside_append)
qed

lemma outside_equal:
  assumes "ranges_in a ranges"
  shows "outside ranges 0 (a @ v) = outside ranges 0 a @ v"
proof -
  have "outside ranges (blen a) v = v"
    by (rule outside_none) (use ranges_in_bound [OF assms] in \<open>fastforce simp: in_ranges_def list_ex_iff\<close>)
  then show ?thesis by (simp add: outside_append)
qed

lemma push_step:
  assumes "ranges_in a ranges"
  shows "ranges_in (a @ v) (push_range ranges (blen a) (blen a + blen v))"
  by (rule ranges_push [where l = a]) (use assms ranges_in_append ranges_in_bound in auto)

lemma word_ranges_run:
  assumes "ranges_in a o_ranges" "ranges_in b n_ranges" "outside o_ranges 0 a = outside n_ranges 0 b"
  shows "\<exists>o' n'. word_ranges cs (blen a) (blen b) o_ranges n_ranges = (o', n') \<and> ranges_in (a @ old_values cs) o'
     \<and> ranges_in (b @ new_values cs) n' \<and> outside o' 0 (a @ old_values cs) = outside n' 0 (b @ new_values cs)"
  using assms
proof (induction cs arbitrary: a b o_ranges n_ranges)
  case Nil
  then show ?case by (simp add: old_values_def new_values_def)
next
  case (Cons c cs)
  let ?v = "ch_value c"
  show ?case
  proof (cases "ch_tag c")
    case TagEqual
    then show ?thesis
      using Cons.IH [of "a @ ?v" o_ranges "b @ ?v" n_ranges] Cons.prems outside_equal [of a o_ranges ?v] outside_equal [of b n_ranges ?v]
      by (simp add: ranges_in_append old_values_def new_values_def Let_def)
  next
    case TagDelete
    then show ?thesis
      using Cons.IH [of "a @ ?v" "push_range o_ranges (blen a) (blen a + blen ?v)" b n_ranges] Cons.prems
        outside_push [of a o_ranges ?v] push_step [of a o_ranges ?v]
      by (simp add: old_values_def new_values_def Let_def)
  next
    case TagInsert
    then show ?thesis
      using Cons.IH [of a o_ranges "b @ ?v" "push_range n_ranges (blen b) (blen b + blen ?v)"] Cons.prems
        outside_push [of b n_ranges ?v] push_step [of b n_ranges ?v]
      by (simp add: old_values_def new_values_def Let_def)
  qed
qed

lemma word_ranges_text:
  assumes "documented_words lib" "word_ranges (lib_words lib old new) 0 0 [] [] = (o_ranges, n_ranges)"
  shows "ranges_in old o_ranges" "ranges_in new n_ranges" "outside o_ranges 0 old = outside n_ranges 0 new"
proof -
  have e: "ranges_in [] []" by (simp add: ranges_in_def)
  show "ranges_in old o_ranges" "ranges_in new n_ranges" "outside o_ranges 0 old = outside n_ranges 0 new"
    using word_ranges_run [OF e e refl, of "lib_words lib old new"] assms by (auto simp: documented_words_def)
qed

end
