(* ===== verification/Diff_Layout.thy ===== *)
theory Diff_Layout
  imports Diff_Display
begin

text \<open>
  The rows of a preview (\<^verbatim>\<open>crates/common/vtcode-diff/src/lib.rs\<close>): a source line cut into segments at the changed
  words and wrapped at a width, the unified and the side-by-side layout, and the bounded collection of rows.
\<close>

section \<open>The types\<close>

datatype diff_layout = UnifiedLayout | SideBySideLayout

record layout_options =
  lo_layout :: diff_layout
  lo_width :: nat
  lo_max_rows :: nat
  lo_wrap :: bool
  lo_min_side_by_side_width :: nat

definition default_layout_options :: layout_options where
  "default_layout_options = \<lparr>lo_layout = UnifiedLayout, lo_width = 80, lo_max_rows = 2000, lo_wrap = True,
     lo_min_side_by_side_width = diff_min_side_by_side_width\<rparr>"

datatype diff_row_kind = RMetadata | RHunkHeader | RContext | RAddition | RDeletion | ROmission

record diff_segment =
  sg_text :: rtext
  sg_emphasized :: bool

record diff_cell =
  ce_old_line :: "nat option"
  ce_new_line :: "nat option"
  ce_marker :: rchar
  ce_segments :: "diff_segment list"

record diff_row =
  rw_kind :: diff_row_kind
  rw_marker :: rchar
  rw_hunk_index :: "nat option"
  rw_continuation :: bool
  rw_left :: "diff_cell option"
  rw_right :: "diff_cell option"

section \<open>Segments\<close>

text \<open>The ends of the changed ranges inside a slice, where they are character boundaries.\<close>

definition range_ends :: "rtext \<Rightarrow> nat \<Rightarrow> nat \<Rightarrow> nat \<times> nat \<Rightarrow> nat list" where
  "range_ends t start stop r =
     (if fst r < stop \<and> start < snd r
      then let a = min (max (fst r) start) stop; b = min (max (snd r) start) stop
           in if is_char_boundary t a \<and> is_char_boundary t b then [a, b] else []
      else [])"

definition segment_of :: "rtext \<Rightarrow> (nat \<times> nat) list \<Rightarrow> nat \<times> nat \<Rightarrow> diff_segment option" where
  "segment_of t changed p =
     map_option (\<lambda>s. \<lparr>sg_text = s, sg_emphasized = list_ex (\<lambda>r. fst r \<le> fst p \<and> snd p \<le> snd r) changed\<rparr>)
       (slice t (fst p) (snd p))"

definition segment_slice :: "rtext \<Rightarrow> (nat \<times> nat) list \<Rightarrow> nat \<Rightarrow> nat \<Rightarrow> diff_segment list option" where
  "segment_slice t changed start stop =
     (if start = stop then Some [\<lparr>sg_text = [], sg_emphasized = False\<rparr>]
      else let bs = remdups_adj (sort (start # stop # concat (map (range_ends t start stop) changed)))
           in those (map (segment_of t changed) (filter (\<lambda>p. fst p < snd p) (zip bs (tl bs)))))"

definition char_width :: "diff_lib \<Rightarrow> rchar \<Rightarrow> nat" where
  "char_width lib c = or_zero (lib_char_width lib c)"

fun wrap_loop ::
  "diff_lib \<Rightarrow> rtext \<Rightarrow> (nat \<times> nat) list \<Rightarrow> nat \<Rightarrow> rtext \<Rightarrow> nat \<Rightarrow> nat \<Rightarrow> nat \<Rightarrow> diff_segment list list
     \<Rightarrow> diff_segment list list option" where
  "wrap_loop lib t changed width [] byte byte_start display_width rows =
     map_option (\<lambda>r. rows @ [r]) (segment_slice t changed byte_start (blen t))"
| "wrap_loop lib t changed width (c # cs) byte byte_start display_width rows =
     (let w = char_width lib c
      in if 0 < display_width \<and> width < display_width + w
         then Option.bind (segment_slice t changed byte_start byte)
                (\<lambda>r. wrap_loop lib t changed width cs (byte + len_utf8 c) byte w (rows @ [r]))
         else wrap_loop lib t changed width cs (byte + len_utf8 c) byte_start (display_width + w) rows)"

definition wrap_segments :: "diff_lib \<Rightarrow> rtext \<Rightarrow> (nat \<times> nat) list \<Rightarrow> nat \<Rightarrow> bool \<Rightarrow> diff_segment list list option" where
  "wrap_segments lib t changed width wrap =
     (if \<not> wrap \<or> lib_text_width lib t \<le> width then map_option (\<lambda>r. [r]) (segment_slice t changed 0 (blen t))
      else wrap_loop lib t changed width t 0 0 0 [])"

section \<open>Rows\<close>

fun marker_for_kind :: "display_kind \<Rightarrow> rchar" where
  "marker_for_kind DAddition = 43"
| "marker_for_kind DDeletion = 45"
| "marker_for_kind DHunkHeader = 64"
| "marker_for_kind DMetadata = 32"
| "marker_for_kind DContext = 32"

fun row_kind :: "display_kind \<Rightarrow> diff_row_kind" where
  "row_kind DAddition = RAddition"
| "row_kind DDeletion = RDeletion"
| "row_kind DHunkHeader = RHunkHeader"
| "row_kind DMetadata = RMetadata"
| "row_kind DContext = RContext"

definition plain_cell :: "rchar \<Rightarrow> rtext \<Rightarrow> diff_cell" where
  "plain_cell marker t = \<lparr>ce_old_line = None, ce_new_line = None, ce_marker = marker,
     ce_segments = [\<lparr>sg_text = t, sg_emphasized = False\<rparr>]\<rparr>"

definition header_row :: "rtext \<Rightarrow> nat option \<Rightarrow> diff_row" where
  "header_row t hunk_index = \<lparr>rw_kind = RHunkHeader, rw_marker = 64, rw_hunk_index = hunk_index,
     rw_continuation = False, rw_left = Some (plain_cell 64 t), rw_right = None\<rparr>"

definition metadata_row :: "rtext \<Rightarrow> nat option \<Rightarrow> diff_row" where
  "metadata_row t hunk_index = \<lparr>rw_kind = RMetadata, rw_marker = 32, rw_hunk_index = hunk_index,
     rw_continuation = False, rw_left = Some (plain_cell 32 t), rw_right = None\<rparr>"

definition omission_row :: "nat \<Rightarrow> diff_row" where
  "omission_row omitted = \<lparr>rw_kind = ROmission, rw_marker = 8230, rw_hunk_index = None, rw_continuation = False,
     rw_left = Some (plain_cell 8230 (rt (show_nat omitted) @ rt '' rows omitted'')), rw_right = None\<rparr>"

section \<open>The bounded collection\<close>

record row_collector =
  rc_head :: "diff_row list"
  rc_tail :: "diff_row list"
  rc_max_rows :: nat
  rc_total_rows :: nat
  rc_overflowed :: bool

definition new_collector :: "nat \<Rightarrow> row_collector" where
  "new_collector max_rows = \<lparr>rc_head = [], rc_tail = [], rc_max_rows = max_rows, rc_total_rows = 0, rc_overflowed = False\<rparr>"

definition push_row :: "row_collector \<Rightarrow> diff_row \<Rightarrow> row_collector" where
  "push_row c0 row =
     (let c = c0\<lparr>rc_total_rows := rc_total_rows c0 + 1\<rparr>;
          retained = rc_max_rows c - 1; head_count = (retained + 1) div 2; tail_count = retained div 2
      in if rc_max_rows c = 0 then c
         else if \<not> rc_overflowed c
         then (let head = rc_head c @ [row]
               in if length head \<le> rc_max_rows c then c\<lparr>rc_head := head\<rparr>
                  else if 0 < tail_count
                  then c\<lparr>rc_tail := drop (length head - tail_count) head,
                         rc_head := take head_count (take (length head - tail_count) head), rc_overflowed := True\<rparr>
                  else c\<lparr>rc_head := take head_count head, rc_overflowed := True\<rparr>)
         else if 0 < tail_count
         then c\<lparr>rc_tail := (if length (rc_tail c) = tail_count then tl (rc_tail c) else rc_tail c) @ [row]\<rparr>
         else c)"

definition finish_rows :: "row_collector \<Rightarrow> diff_row list" where
  "finish_rows c =
     (if \<not> rc_overflowed c then rc_head c
      else rc_head c @ [omission_row (rc_total_rows c - length (rc_head c) - length (rc_tail c))] @ rc_tail c)"

definition bounded_display_lines :: "display_line list \<Rightarrow> nat \<Rightarrow> display_line list" where
  "bounded_display_lines ls max_rows =
     (if max_rows = 0 then []
      else if length ls \<le> max_rows then ls
      else let retained = max_rows - 1; head_count = (retained + 1) div 2; tail_count = retained div 2;
               omitted = length ls - (head_count + tail_count)
           in take head_count ls
              @ [display_body DMetadata None None (rt ''... '' @ rt (show_nat omitted) @ rt '' lines omitted ...'')]
              @ (if 0 < tail_count then drop (length ls - tail_count) ls else []))"

section \<open>The layouts\<close>

definition next_hunk :: "nat option \<Rightarrow> nat option" where
  "next_hunk h = Some (case h of Some i \<Rightarrow> i + 1 | None \<Rightarrow> 0)"

definition cell_of :: "display_line \<Rightarrow> nat \<Rightarrow> diff_segment list \<Rightarrow> diff_cell" where
  "cell_of l offset segments =
     \<lparr>ce_old_line = (if offset = 0 then dp_old_line l else None), ce_new_line = (if offset = 0 then dp_new_line l else None),
      ce_marker = marker_for_kind (dp_kind l), ce_segments = segments\<rparr>"

definition unified_rows :: "display_line \<Rightarrow> nat option \<Rightarrow> diff_segment list list \<Rightarrow> diff_row list" where
  "unified_rows l hunk_index parts =
     map (\<lambda>(offset, segments). \<lparr>rw_kind = row_kind (dp_kind l), rw_marker = marker_for_kind (dp_kind l),
            rw_hunk_index = hunk_index, rw_continuation = 0 < offset, rw_left = Some (cell_of l offset segments),
            rw_right = None\<rparr>) (enumerate 0 parts)"

fun layout_unified :: "diff_lib \<Rightarrow> nat \<Rightarrow> bool \<Rightarrow> nat option \<Rightarrow> display_line list \<Rightarrow> row_collector \<Rightarrow> row_collector option" where
  "layout_unified lib content_width wrap hunk_index [] rows = Some rows"
| "layout_unified lib content_width wrap hunk_index (l # ls) rows =
     (if dp_kind l = DMetadata
      then layout_unified lib content_width wrap hunk_index ls (push_row rows (metadata_row (dp_text l) hunk_index))
      else if dp_kind l = DHunkHeader
      then layout_unified lib content_width wrap (next_hunk hunk_index) ls
             (push_row rows (header_row (dp_text l) (next_hunk hunk_index)))
      else Option.bind (wrap_segments lib (dp_text l) (dp_changed l) content_width wrap)
             (\<lambda>parts. layout_unified lib content_width wrap hunk_index ls
                (foldl push_row rows (unified_rows l hunk_index parts))))"

definition side_parts :: "diff_lib \<Rightarrow> nat \<Rightarrow> bool \<Rightarrow> display_line option \<Rightarrow> diff_segment list list option" where
  "side_parts lib content_width wrap side =
     (case side of None \<Rightarrow> Some [[]] | Some l \<Rightarrow> wrap_segments lib (dp_text l) (dp_changed l) content_width wrap)"

definition side_cell :: "display_line option \<Rightarrow> diff_segment list list \<Rightarrow> nat \<Rightarrow> diff_cell option" where
  "side_cell side parts offset =
     Option.bind side (\<lambda>l. if offset < length parts then Some (cell_of l offset (parts ! offset)) else None)"

definition or_else :: "'a option \<Rightarrow> 'a option \<Rightarrow> 'a option" where
  "or_else a b = (case a of Some x \<Rightarrow> Some x | None \<Rightarrow> b)"

definition pair_row ::
  "display_line option \<Rightarrow> display_line option \<Rightarrow> nat option \<Rightarrow> diff_segment list list \<Rightarrow> diff_segment list list \<Rightarrow> nat
     \<Rightarrow> diff_row" where
  "pair_row left right hunk_index left_parts right_parts offset =
     (let left_cell = side_cell left left_parts offset; right_cell = side_cell right right_parts offset
      in \<lparr>rw_kind = (case or_else right left of Some l \<Rightarrow> row_kind (dp_kind l) | None \<Rightarrow> RContext),
          rw_marker = (case or_else right_cell left_cell of Some c \<Rightarrow> ce_marker c | None \<Rightarrow> 32),
          rw_hunk_index = hunk_index, rw_continuation = 0 < offset, rw_left = left_cell, rw_right = right_cell\<rparr>)"

definition pair_rows ::
  "display_line option \<Rightarrow> display_line option \<Rightarrow> nat option \<Rightarrow> diff_segment list list \<Rightarrow> diff_segment list list
     \<Rightarrow> diff_row list" where
  "pair_rows left right hunk_index left_parts right_parts =
     map (pair_row left right hunk_index left_parts right_parts) [0 ..< max (length left_parts) (length right_parts)]"

definition full_width_row :: "display_line option \<Rightarrow> nat option \<Rightarrow> diff_row \<times> nat option" where
  "full_width_row left hunk_index =
     (let t = (case left of Some l \<Rightarrow> dp_text l | None \<Rightarrow> [])
      in if (case left of Some l \<Rightarrow> dp_kind l = DHunkHeader | None \<Rightarrow> False)
         then (header_row t (next_hunk hunk_index), next_hunk hunk_index)
         else (metadata_row t hunk_index, hunk_index))"

fun layout_pairs ::
  "diff_lib \<Rightarrow> nat \<Rightarrow> bool \<Rightarrow> nat option \<Rightarrow> (display_line option \<times> display_line option) list \<Rightarrow> row_collector
     \<Rightarrow> row_collector option" where
  "layout_pairs lib content_width wrap hunk_index [] rows = Some rows"
| "layout_pairs lib content_width wrap hunk_index ((left, right) # ps) rows =
     (if is_full_width left right
      then layout_pairs lib content_width wrap (snd (full_width_row left hunk_index)) ps
             (push_row rows (fst (full_width_row left hunk_index)))
      else Option.bind (side_parts lib content_width wrap left) (\<lambda>left_parts.
           Option.bind (side_parts lib content_width wrap right) (\<lambda>right_parts.
             layout_pairs lib content_width wrap hunk_index ps
               (foldl push_row rows (pair_rows left right hunk_index left_parts right_parts)))))"

definition unified_content_width :: "display_line list \<Rightarrow> nat \<Rightarrow> nat" where
  "unified_content_width ls width = max (width - (diff_display_line_number_width ls + 4)) 1"

definition pane_content_width :: "nat \<Rightarrow> nat" where
  "pane_content_width width = max ((width - 1) div 2 - 6) 1"

definition uses_side_by_side :: "layout_options \<Rightarrow> bool" where
  "uses_side_by_side opts \<longleftrightarrow> lo_layout opts = SideBySideLayout \<and> lo_min_side_by_side_width opts \<le> lo_width opts"

definition layout_display_lines :: "diff_lib \<Rightarrow> display_line list \<Rightarrow> layout_options \<Rightarrow> diff_row list option" where
  "layout_display_lines lib display opts =
     map_option finish_rows
       (if uses_side_by_side opts
        then layout_pairs lib (pane_content_width (lo_width opts)) (lo_wrap opts) None (side_by_side_pairs display)
               (new_collector (lo_max_rows opts))
        else layout_unified lib (unified_content_width display (lo_width opts)) (lo_wrap opts) None display
               (new_collector (lo_max_rows opts)))"

definition layout_document :: "diff_lib \<Rightarrow> nat \<Rightarrow> diff_document \<Rightarrow> layout_options \<Rightarrow> diff_row list option" where
  "layout_document lib budget doc opts = layout_display_lines lib (display_lines_from_hunks lib budget (dd_hunks doc)) opts"

section \<open>Plain rendering\<close>

text \<open>\<open>render_ansi_rows\<close> with a style as the pair of the codes written before and after a segment.\<close>

record ansi_palette =
  ap_header :: rtext
  ap_context :: rtext
  ap_addition :: rtext
  ap_deletion :: rtext
  ap_emphasis :: rtext

definition cell_style :: "ansi_palette \<Rightarrow> diff_cell \<Rightarrow> rtext" where
  "cell_style palette cell =
     (if ce_marker cell = 43 then ap_addition palette
      else if ce_marker cell = 45 then ap_deletion palette
      else if ce_marker cell = 64 \<or> ce_marker cell = 8230 then ap_header palette
      else ap_context palette)"

definition render_cell :: "ansi_palette \<Rightarrow> rtext \<Rightarrow> bool \<Rightarrow> diff_cell \<Rightarrow> rtext" where
  "render_cell palette reset color cell =
     concat (map (\<lambda>s. if color
                      then (if sg_emphasized s then ap_emphasis palette else cell_style palette cell) @ sg_text s @ reset
                      else sg_text s) (ce_segments cell))"

definition render_ansi_rows :: "ansi_palette \<Rightarrow> rtext \<Rightarrow> bool \<Rightarrow> diff_row list \<Rightarrow> rtext list" where
  "render_ansi_rows palette reset color rows =
     map (\<lambda>row. rw_marker row # 32
            # (case rw_left row of Some c \<Rightarrow> render_cell palette reset color c | None \<Rightarrow> [])
            @ (case rw_right row of Some c \<Rightarrow> [32, 9474, 32] @ render_cell palette reset color c | None \<Rightarrow> [])) rows"

end
