(* ===== verification/Diff_Layout_Facts.thy ===== *)
theory Diff_Layout_Facts
  imports Diff_Layout
begin

text \<open>
  The rows of a preview: pairing keeps both sides, segments and wrapped rows spell out the line, no slice panics,
  and the collector keeps the first and the last rows.
\<close>

section \<open>Pairs\<close>

definition lefts :: "('a option \<times> 'b option) list \<Rightarrow> 'a list" where
  "lefts ps = List.map_filter fst ps"

definition rights :: "('a option \<times> 'b option) list \<Rightarrow> 'b list" where
  "rights ps = List.map_filter snd ps"

lemma sides_simps [simp]:
  "lefts [] = []" "rights [] = []"
  "lefts ((a, b) # ps) = (case a of Some x \<Rightarrow> x # lefts ps | None \<Rightarrow> lefts ps)"
  "rights ((a, b) # ps) = (case b of Some x \<Rightarrow> x # rights ps | None \<Rightarrow> rights ps)"
  "lefts (ps @ qs) = lefts ps @ lefts qs" "rights (ps @ qs) = rights ps @ rights qs"
  by (simp_all add: lefts_def rights_def List.map_filter_def split: option.splits)

lemma map_filter_nth:
  assumes "length xs \<le> n"
  shows "List.map_filter (\<lambda>i. if i < length xs then Some (xs ! i) else None) [0 ..< n] = xs"
proof -
  have "[0 ..< n] = [0 ..< length xs] @ [length xs ..< n]" using assms by (metis le_add_diff_inverse upt_add_eq_append zero_le)
  moreover have "filter (\<lambda>i. i < length xs) [length xs ..< n] = []" by (simp add: filter_empty_conv)
  moreover have "filter (\<lambda>i. i < length xs) [0 ..< length xs] = [0 ..< length xs]" by (simp add: filter_id_conv)
  moreover have "map (\<lambda>i. the (if i < length xs then Some (xs ! i) else None)) [0 ..< length xs] = map ((!) xs) [0 ..< length xs]"
    by (rule map_cong) auto
  ultimately show ?thesis by (simp add: List.map_filter_def comp_def map_nth)
qed

lemma sides_of_run:
  assumes "length xs \<le> n" "length ys \<le> n"
  shows "lefts (map (\<lambda>i. (if i < length xs then Some (xs ! i) else None, if i < length ys then Some (ys ! i) else None)) [0 ..< n]) = xs"
    "rights (map (\<lambda>i. (if i < length xs then Some (xs ! i) else None, if i < length ys then Some (ys ! i) else None)) [0 ..< n]) = ys"
  using map_filter_nth [OF assms(1)] map_filter_nth [OF assms(2)]
  by (simp_all add: lefts_def rights_def List.map_filter_def filter_map comp_def)

lemma runs_split:
  "ls = takeWhile (of_kind DDeletion) ls @ takeWhile (of_kind DAddition) (dropWhile (of_kind DDeletion) ls)
     @ dropWhile (of_kind DAddition) (dropWhile (of_kind DDeletion) ls)"
  by simp

lemma filter_runs:
  "filter (\<lambda>l. dp_kind l \<noteq> DAddition) (takeWhile (of_kind DDeletion) ls) = takeWhile (of_kind DDeletion) ls"
  "filter (\<lambda>l. dp_kind l \<noteq> DAddition) (takeWhile (of_kind DAddition) ls) = []"
  "filter (\<lambda>l. dp_kind l = DContext \<or> dp_kind l = DAddition) (takeWhile (of_kind DDeletion) ls) = []"
  "filter (\<lambda>l. dp_kind l = DContext \<or> dp_kind l = DAddition) (takeWhile (of_kind DAddition) ls) = takeWhile (of_kind DAddition) ls"
  by (auto simp: filter_id_conv filter_empty_conv dest: set_takeWhileD)

lemma pairs_keep_sides:
  "lefts (side_by_side_pairs ls) = filter (\<lambda>l. dp_kind l \<noteq> DAddition) ls
   \<and> rights (side_by_side_pairs ls) = filter (\<lambda>l. dp_kind l = DContext \<or> dp_kind l = DAddition) ls"
proof (induction ls rule: side_by_side_pairs.induct)
  case (2 l ls)
  show ?case
  proof (cases "dp_kind l = DDeletion")
    case True
    let ?dels = "takeWhile (of_kind DDeletion) ls" and ?rest = "dropWhile (of_kind DDeletion) ls"
    let ?adds = "takeWhile (of_kind DAddition) ?rest" and ?behind = "dropWhile (of_kind DAddition) ?rest"
    have IH: "lefts (side_by_side_pairs ?behind) = filter (\<lambda>l. dp_kind l \<noteq> DAddition) ?behind"
      "rights (side_by_side_pairs ?behind) = filter (\<lambda>l. dp_kind l = DContext \<or> dp_kind l = DAddition) ?behind"
      using 2(5) [OF True refl refl] by auto
    let ?n = "max (length (l # ?dels)) (length ?adds)"
    have run: "lefts (map (\<lambda>i. (if i < length (l # ?dels) then Some ((l # ?dels) ! i) else None,
          if i < length ?adds then Some (?adds ! i) else None)) [0 ..< ?n]) = l # ?dels"
      "rights (map (\<lambda>i. (if i < length (l # ?dels) then Some ((l # ?dels) ! i) else None,
          if i < length ?adds then Some (?adds ! i) else None)) [0 ..< ?n]) = ?adds"
      by (rule sides_of_run; simp)+
    have ls: "filter P ls = filter P ?dels @ filter P ?adds @ filter P ?behind" for P
      by (subst runs_split [of ls]) (simp only: filter_append)
    show ?thesis unfolding side_by_side_pairs.simps(2) True display_kind.case Let_def sides_simps run IH
      using True by (simp add: ls filter_runs)
  next
    case False
    then show ?thesis using 2(1,2,3,4) by (cases "dp_kind l") (simp_all add: side_by_side_pairs.simps(2))
  qed
qed simp

section \<open>Segments\<close>

lemma slice_Some: "slice t a b = Some m \<longleftrightarrow> (\<exists>l r. t = l @ m @ r \<and> a = blen l \<and> b = blen l + blen m)"
proof
  assume s: "slice t a b = Some m"
  then have "a \<le> b" "is_char_boundary t a" "is_char_boundary t b" using slice_defined [of t a b] by auto
  then obtain l m' r where "t = l @ m' @ r" "a = blen l" "b = blen l + blen m'" by (rule slice_split)
  with s show "\<exists>l r. t = l @ m @ r \<and> a = blen l \<and> b = blen l + blen m" by auto
qed auto

lemma slice_join:
  assumes "slice t a b = Some m" "slice t b c = Some s"
  shows "slice t a c = Some (m @ s)"
proof -
  obtain l r where "t = l @ m @ r" "a = blen l" "b = blen l + blen m" using assms(1) slice_Some by blast
  moreover obtain l' r' where "t = l' @ s @ r'" "b = blen l'" "c = blen l' + blen s" using assms(2) slice_Some by blast
  moreover from calculation have "(l @ m) @ r = l' @ (s @ r')" "blen (l @ m) = blen l'" by simp_all
  then have "l @ m = l' \<and> r = s @ r'" by (rule append_eq_blen)
  ultimately have "t = l @ (m @ s) @ r' \<and> a = blen l \<and> c = blen l + blen (m @ s)" by auto
  then show ?thesis unfolding slice_Some by blast
qed

definition seg_text :: "diff_segment list \<Rightarrow> rtext" where
  "seg_text segs = concat (map sg_text segs)"

lemma those_Cons: "those (x # xs) = (case x of Some y \<Rightarrow> map_option ((#) y) (those xs) | None \<Rightarrow> None)"
  by simp

lemma segments_chain:
  assumes "list_all (is_char_boundary t) bs" "sorted bs" "bs \<noteq> []"
  shows "\<exists>segs. those (map (segment_of t changed) (filter (\<lambda>p. fst p < snd p) (zip bs (tl bs)))) = Some segs
     \<and> slice t (hd bs) (last bs) = Some (seg_text segs)"
  using assms
proof (induction bs)
  case (Cons x bs)
  show ?case
  proof (cases bs)
    case Nil
    have "slice t x x \<noteq> None" using Cons.prems by (simp only: slice_defined) simp
    then have "slice t x x = Some []" by (auto simp: slice_Some)
    then show ?thesis using Nil by (simp add: seg_text_def)
  next
    case b: (Cons y ys)
    then obtain segs where segs: "those (map (segment_of t changed) (filter (\<lambda>p. fst p < snd p) (zip bs (tl bs)))) = Some segs"
      "slice t y (last bs) = Some (seg_text segs)" using Cons by auto
    have "slice t x y \<noteq> None" using Cons.prems b by (simp only: slice_defined) simp
    then obtain m where m: "slice t x y = Some m" by auto
    have j: "slice t x (last bs) = Some (m @ seg_text segs)" by (rule slice_join [OF m segs(2)])
    show ?thesis
    proof (cases "x < y")
      case True
      then obtain e where "segment_of t changed (x, y) = Some \<lparr>sg_text = m, sg_emphasized = e\<rparr>" using m by (simp add: segment_of_def)
      then show ?thesis using j segs(1) b True by (simp add: seg_text_def)
    next
      case False
      then have "m = []" using m by (auto simp: slice_Some)
      then show ?thesis using j segs(1) b False by simp
    qed
  qed
qed simp

lemma sorted_ends:
  assumes "sorted bs" "(a :: nat) \<in> set bs" "b \<in> set bs" "\<forall>x \<in> set bs. a \<le> x \<and> x \<le> b"
  shows "hd bs = a" "last bs = b"
proof -
  have n: "bs \<noteq> []" using assms(2) by auto
  have "hd bs \<le> a" using assms(1,2) n by (cases bs) auto
  then show "hd bs = a" using assms(4) n by (meson hd_in_set le_antisym)
  have "b \<le> last bs" using assms(1,3) n by (induction bs) auto
  then show "last bs = b" using assms(4) n by (meson last_in_set le_antisym)
qed

lemma segment_slice_text:
  assumes "slice t a b = Some m"
  shows "\<exists>segs. segment_slice t changed a b = Some segs \<and> seg_text segs = m"
proof (cases "a = b")
  case True
  then have "m = []" using assms by (auto simp: slice_Some)
  then show ?thesis using True by (simp add: segment_slice_def seg_text_def)
next
  case False
  define xs where "xs = a # b # concat (map (range_ends t a b) changed)"
  define bs where "bs = remdups_adj (sort xs)"
  have ab: "a \<le> b" "is_char_boundary t a" "is_char_boundary t b" using assms slice_defined [of t a b] by auto
  have bs: "set bs = set xs" "sorted bs" by (simp_all add: bs_def)
  have ends: "a \<le> x \<and> x \<le> b \<and> is_char_boundary t x" if "x \<in> set xs" for x
    using that ab by (auto simp: xs_def range_ends_def Let_def split: if_splits)
  have ab_in: "a \<in> set bs" "b \<in> set bs" unfolding bs(1) by (simp_all add: xs_def)
  have "hd bs = a" "last bs = b" using sorted_ends [OF bs(2) ab_in] bs(1) ends by auto
  moreover have "list_all (is_char_boundary t) bs" using bs(1) ends by (auto simp: list_all_iff)
  moreover have "bs \<noteq> []" using ab_in by auto
  moreover have "segment_slice t changed a b = those (map (segment_of t changed) (filter (\<lambda>p. fst p < snd p) (zip bs (tl bs))))"
    using False by (simp only: segment_slice_def bs_def xs_def Let_def if_False)
  ultimately show ?thesis using segments_chain [of t bs changed] bs(2) assms by auto
qed

section \<open>Wrapped rows\<close>

definition widths :: "diff_lib \<Rightarrow> rtext \<Rightarrow> nat" where
  "widths lib t = sum_list (map (char_width lib) t)"

lemma widths_simps [simp]:
  "widths lib [] = 0" "widths lib (c # t) = char_width lib c + widths lib t" "widths lib (s @ t) = widths lib s + widths lib t"
  by (simp_all add: widths_def)

text \<open>A row is wider than the width only by its last character.\<close>

definition row_fits :: "diff_lib \<Rightarrow> nat \<Rightarrow> rtext \<Rightarrow> bool" where
  "row_fits lib width t \<longleftrightarrow> widths lib t \<le> width \<or> widths lib (butlast t) = 0"

definition rows_text :: "diff_segment list list \<Rightarrow> rtext" where
  "rows_text rows = concat (map seg_text rows)"

lemma rows_text_append [simp]: "rows_text (a @ b) = rows_text a @ rows_text b" "rows_text [] = []" "rows_text (r # a) = seg_text r @ rows_text a"
  by (simp_all add: rows_text_def)

lemma wrap_loop_text:
  assumes "t = rows_text rows @ pending @ cs" "list_all (row_fits lib width) (map seg_text rows)" "row_fits lib width pending"
  shows "\<exists>r. wrap_loop lib t changed width cs (blen (rows_text rows @ pending)) (blen (rows_text rows)) (widths lib pending) rows = Some r
     \<and> rows_text r = t \<and> list_all (row_fits lib width) (map seg_text r)"
  using assms
proof (induction cs arbitrary: rows pending)
  case Nil
  have "slice t (blen (rows_text rows)) (blen t) = Some pending"
    using Nil.prems(1) slice_mid [of "rows_text rows" pending "[]"] by simp
  then obtain segs where "segment_slice t changed (blen (rows_text rows)) (blen t) = Some segs" "seg_text segs = pending"
    using segment_slice_text by blast
  then show ?case using Nil.prems by simp
next
  case (Cons c cs)
  let ?w = "char_width lib c"
  show ?case
  proof (cases "0 < widths lib pending \<and> width < widths lib pending + ?w")
    case True
    have "slice t (blen (rows_text rows)) (blen (rows_text rows @ pending)) = Some pending"
      using Cons.prems(1) slice_mid [of "rows_text rows" pending "c # cs"] by simp
    then obtain segs where segs: "segment_slice t changed (blen (rows_text rows)) (blen (rows_text rows @ pending)) = Some segs" "seg_text segs = pending"
      using segment_slice_text by blast
    have "\<exists>r. wrap_loop lib t changed width cs (blen (rows_text (rows @ [segs]) @ [c])) (blen (rows_text (rows @ [segs]))) (widths lib [c])
        (rows @ [segs]) = Some r \<and> rows_text r = t \<and> list_all (row_fits lib width) (map seg_text r)"
      by (rule Cons.IH) (use Cons.prems segs in \<open>simp_all add: row_fits_def\<close>)
    then show ?thesis using True segs by (simp add: Let_def add.assoc)
  next
    case False
    have fits: "row_fits lib width (pending @ [c])"
    proof (cases "0 < widths lib pending")
      case True
      then have "widths lib pending + ?w \<le> width" using False by linarith
      then show ?thesis by (simp add: row_fits_def)
    qed (simp add: row_fits_def)
    have "\<exists>r. wrap_loop lib t changed width cs (blen (rows_text rows @ pending @ [c])) (blen (rows_text rows)) (widths lib (pending @ [c]))
        rows = Some r \<and> rows_text r = t \<and> list_all (row_fits lib width) (map seg_text r)"
      by (rule Cons.IH) (use Cons.prems fits in simp_all)
    moreover have "wrap_loop lib t changed width (c # cs) (blen (rows_text rows @ pending)) (blen (rows_text rows)) (widths lib pending) rows
      = wrap_loop lib t changed width cs (blen (rows_text rows @ pending @ [c])) (blen (rows_text rows)) (widths lib (pending @ [c])) rows"
      using False by (auto simp: Let_def add.assoc)
    ultimately show ?thesis by simp
  qed
qed

lemma wrap_segments_text:
  "\<exists>rows. wrap_segments lib t changed width wrap = Some rows \<and> rows_text rows = t
     \<and> (wrap \<and> width < lib_text_width lib t \<longrightarrow> list_all (row_fits lib width) (map seg_text rows))"
proof (cases "\<not> wrap \<or> lib_text_width lib t \<le> width")
  case True
  have "slice t 0 (blen t) = Some t" using slice_mid [of "[]" t "[]"] by simp
  then obtain segs where "segment_slice t changed 0 (blen t) = Some segs" "seg_text segs = t" using segment_slice_text by blast
  then show ?thesis using True by (auto simp: wrap_segments_def)
next
  case False
  have "\<exists>r. wrap_loop lib t changed width t (blen (rows_text [] @ [])) (blen (rows_text [])) (widths lib []) [] = Some r
     \<and> rows_text r = t \<and> list_all (row_fits lib width) (map seg_text r)"
    by (rule wrap_loop_text) (simp_all add: row_fits_def)
  then show ?thesis using False by (simp add: wrap_segments_def)
qed

section \<open>The collector\<close>

definition head_rows :: "nat \<Rightarrow> nat" where
  "head_rows m = m div 2"

definition tail_rows :: "nat \<Rightarrow> nat" where
  "tail_rows m = (m - 1) div 2"

text \<open>Rows beyond the bound: the first, a row that says how many are missing, and the last.\<close>

definition bounded_rows :: "nat \<Rightarrow> diff_row list \<Rightarrow> diff_row list" where
  "bounded_rows m rows =
     (if m = 0 then []
      else if length rows \<le> m then rows
      else take (head_rows m) rows @ [omission_row (length rows - head_rows m - tail_rows m)]
           @ drop (length rows - tail_rows m) rows)"

lemma split_rows: "0 < m \<Longrightarrow> head_rows m + tail_rows m + 1 = m"
proof (cases m)
  case (Suc n)
  have "Suc n div 2 + n div 2 = n" by presburger
  then show ?thesis using Suc by (simp add: head_rows_def tail_rows_def)
qed simp

lemma drop_tl: "n < length xs \<Longrightarrow> drop (length xs - Suc n) (tl xs) = drop (length xs - n) xs"
  by (metis Suc_diff_Suc drop_Suc)

definition collected :: "nat \<Rightarrow> diff_row list \<Rightarrow> row_collector" where
  "collected m rows =
     (if m = 0 then \<lparr>rc_head = [], rc_tail = [], rc_max_rows = m, rc_total_rows = length rows, rc_overflowed = False\<rparr>
      else if length rows \<le> m
      then \<lparr>rc_head = rows, rc_tail = [], rc_max_rows = m, rc_total_rows = length rows, rc_overflowed = False\<rparr>
      else \<lparr>rc_head = take (head_rows m) rows, rc_tail = drop (length rows - tail_rows m) rows, rc_max_rows = m,
            rc_total_rows = length rows, rc_overflowed = True\<rparr>)"

lemma push_collected: "push_row (collected m rows) row = collected m (rows @ [row])"
proof (cases "m = 0")
  case False
  then have m: "head_rows m + tail_rows m + 1 = m" "(m - 1 + 1) div 2 = head_rows m" "(m - 1) div 2 = tail_rows m"
    by (auto simp: split_rows head_rows_def tail_rows_def)
  consider "length rows < m" | "length rows = m" | "m < length rows" by linarith
  then show ?thesis
  proof cases
    case 1
    then show ?thesis using False by (simp add: push_row_def collected_def Let_def)
  next
    case 2
    then show ?thesis using False m by (simp add: push_row_def collected_def Let_def)
  next
    case 3
    then show ?thesis using False m
      by (cases "tail_rows m") (simp_all add: push_row_def collected_def Let_def drop_tl tl_drop)
  qed
qed (simp add: push_row_def collected_def Let_def)

lemma push_rows_collected: "foldl push_row (collected m rows) added = collected m (rows @ added)"
  by (induction added arbitrary: rows) (simp_all add: push_collected)

lemma new_collected: "new_collector m = collected m []"
  by (simp add: new_collector_def collected_def)

lemma finish_collected: "finish_rows (collected m rows) = bounded_rows m rows"
  using split_rows [of m] by (auto simp: finish_rows_def collected_def bounded_rows_def add.commute)

lemma bounded_rows_length: "length (bounded_rows m rows) \<le> m"
  using split_rows [of m] by (auto simp: bounded_rows_def)

section \<open>The layouts\<close>

definition cell_text :: "diff_cell option \<Rightarrow> rtext" where
  "cell_text c = (case c of Some c \<Rightarrow> seg_text (ce_segments c) | None \<Rightarrow> [])"

definition left_text :: "diff_row list \<Rightarrow> rtext" where
  "left_text rows = concat (map (\<lambda>r. cell_text (rw_left r)) rows)"

definition right_text :: "diff_row list \<Rightarrow> rtext" where
  "right_text rows = concat (map (\<lambda>r. cell_text (rw_right r)) rows)"

lemma side_text_simps [simp]:
  "left_text [] = []" "right_text [] = []"
  "left_text (r # rows) = cell_text (rw_left r) @ left_text rows" "right_text (r # rows) = cell_text (rw_right r) @ right_text rows"
  "left_text (a @ b) = left_text a @ left_text b" "right_text (a @ b) = right_text a @ right_text b"
  by (simp_all add: left_text_def right_text_def)

lemma plain_rows_text [simp]:
  "cell_text (rw_left (metadata_row t h)) = t" "cell_text (rw_right (metadata_row t h)) = []"
  "cell_text (rw_left (header_row t h)) = t" "cell_text (rw_right (header_row t h)) = []"
  by (simp_all add: cell_text_def metadata_row_def header_row_def plain_cell_def seg_text_def)

lemma unified_rows_text: "left_text (unified_rows l h parts) = rows_text parts" "right_text (unified_rows l h parts) = []"
proof -
  have "map (seg_text \<circ> snd) (enumerate 0 parts) = map seg_text parts"
    by (metis list.map_comp map_snd_enumerate)
  then show "left_text (unified_rows l h parts) = rows_text parts" "right_text (unified_rows l h parts) = []"
    by (simp_all add: left_text_def right_text_def unified_rows_def cell_text_def cell_of_def rows_text_def comp_def split_beta)
qed

lemma layout_unified_rows:
  "\<exists>added. layout_unified lib w wrap h ls (collected m rows) = Some (collected m (rows @ added))
     \<and> left_text added = concat (map dp_text ls) \<and> right_text added = []"
proof (induction ls arbitrary: h rows)
  case (Cons l ls)
  let ?plain = "if dp_kind l = DMetadata then metadata_row (dp_text l) h else header_row (dp_text l) (next_hunk h)"
  show ?case
  proof (cases "dp_kind l = DMetadata \<or> dp_kind l = DHunkHeader")
    case True
    then obtain h' where "layout_unified lib w wrap h (l # ls) (collected m rows) = layout_unified lib w wrap h' ls (collected m (rows @ [?plain]))"
      by (auto simp: push_collected)
    moreover obtain added where "layout_unified lib w wrap h' ls (collected m (rows @ [?plain])) = Some (collected m ((rows @ [?plain]) @ added))"
      "left_text added = concat (map dp_text ls)" "right_text added = []" using Cons.IH by blast
    ultimately show ?thesis by (intro exI [of _ "?plain # added"]) auto
  next
    case False
    obtain parts where parts: "wrap_segments lib (dp_text l) (dp_changed l) w wrap = Some parts" "rows_text parts = dp_text l"
      using wrap_segments_text by blast
    obtain added where "layout_unified lib w wrap h ls (collected m (rows @ unified_rows l h parts)) = Some (collected m ((rows @ unified_rows l h parts) @ added))"
      "left_text added = concat (map dp_text ls)" "right_text added = []" using Cons.IH by blast
    then show ?thesis using False parts
      by (intro exI [of _ "unified_rows l h parts @ added"]) (auto simp: push_rows_collected unified_rows_text)
  qed
qed (intro exI [of _ "[]"], simp)

lemma side_cells_text:
  assumes "length parts \<le> n"
  shows "concat (map (\<lambda>i. cell_text (side_cell side parts i)) [0 ..< n]) = (case side of None \<Rightarrow> [] | Some l \<Rightarrow> rows_text parts)"
proof (cases side)
  case (Some l)
  have "[0 ..< n] = [0 ..< length parts] @ [length parts ..< n]" using assms by (metis le_add_diff_inverse upt_add_eq_append zero_le)
  moreover have "concat (map (\<lambda>i. cell_text (side_cell side parts i)) [length parts ..< n]) = []"
    by (auto simp: side_cell_def cell_text_def Some concat_eq_Nil_conv)
  moreover have "map (\<lambda>i. cell_text (side_cell side parts i)) [0 ..< length parts] = map (\<lambda>i. seg_text (parts ! i)) [0 ..< length parts]"
    by (rule map_cong) (auto simp: side_cell_def cell_text_def Some cell_of_def)
  moreover have "map (\<lambda>i. seg_text (parts ! i)) [0 ..< length parts] = map seg_text parts"
    by (metis (no_types, lifting) list.map_comp comp_apply map_nth map_eq_conv)
  ultimately show ?thesis by (simp add: rows_text_def Some)
qed (simp add: side_cell_def cell_text_def)

lemma pair_rows_text:
  "left_text (pair_rows left right h lp rp) = (case left of None \<Rightarrow> [] | Some l \<Rightarrow> rows_text lp)"
  "right_text (pair_rows left right h lp rp) = (case right of None \<Rightarrow> [] | Some l \<Rightarrow> rows_text rp)"
  using side_cells_text [of lp "max (length lp) (length rp)" left] side_cells_text [of rp "max (length lp) (length rp)" right]
  by (simp_all add: left_text_def right_text_def pair_rows_def pair_row_def Let_def comp_def)

lemma side_parts_text:
  "\<exists>parts. side_parts lib w wrap side = Some parts \<and> (case side of None \<Rightarrow> [] | Some l \<Rightarrow> rows_text parts) = (case side of None \<Rightarrow> [] | Some l \<Rightarrow> dp_text l)"
proof (cases side)
  case (Some l)
  obtain parts where "wrap_segments lib (dp_text l) (dp_changed l) w wrap = Some parts" "rows_text parts = dp_text l"
    using wrap_segments_text by blast
  then show ?thesis using Some by (simp add: side_parts_def)
qed (simp add: side_parts_def)

lemma layout_pairs_rows:
  "\<exists>added. layout_pairs lib w wrap h ps (collected m rows) = Some (collected m (rows @ added))
     \<and> left_text added = concat (map dp_text (lefts ps)) \<and> right_text added = concat (map dp_text (rights ps))"
proof (induction ps arbitrary: h rows)
  case (Cons p ps)
  obtain left right where p: "p = (left, right)" by (cases p)
  show ?case
  proof (cases "is_full_width left right")
    case True
    let ?row = "fst (full_width_row left h)" and ?h = "snd (full_width_row left h)"
    obtain added where "layout_pairs lib w wrap ?h ps (collected m (rows @ [?row])) = Some (collected m ((rows @ [?row]) @ added))"
      "left_text added = concat (map dp_text (lefts ps))" "right_text added = concat (map dp_text (rights ps))" using Cons.IH by blast
    moreover obtain l where "left = Some l" "right = None" using True by (auto simp: is_full_width_def split: option.splits)
    ultimately show ?thesis using True p
      by (intro exI [of _ "?row # added"]) (simp add: push_collected full_width_row_def Let_def)
  next
    case False
    obtain lp where lp: "side_parts lib w wrap left = Some lp"
      "(case left of None \<Rightarrow> [] | Some l \<Rightarrow> rows_text lp) = (case left of None \<Rightarrow> [] | Some l \<Rightarrow> dp_text l)" using side_parts_text by blast
    obtain rp where rp: "side_parts lib w wrap right = Some rp"
      "(case right of None \<Rightarrow> [] | Some l \<Rightarrow> rows_text rp) = (case right of None \<Rightarrow> [] | Some l \<Rightarrow> dp_text l)" using side_parts_text by blast
    let ?rows = "pair_rows left right h lp rp"
    obtain added where "layout_pairs lib w wrap h ps (collected m (rows @ ?rows)) = Some (collected m ((rows @ ?rows) @ added))"
      "left_text added = concat (map dp_text (lefts ps))" "right_text added = concat (map dp_text (rights ps))" using Cons.IH by blast
    then show ?thesis using False p lp rp
      by (intro exI [of _ "?rows @ added"]) (auto simp: push_rows_collected pair_rows_text split: option.splits)
  qed
qed (intro exI [of _ "[]"], simp)

lemma layout_rows:
  "\<exists>rows. layout_display_lines lib ls opts = Some (bounded_rows (lo_max_rows opts) rows)
     \<and> (if uses_side_by_side opts
         then left_text rows = concat (map dp_text (filter (\<lambda>l. dp_kind l \<noteq> DAddition) ls))
            \<and> right_text rows = concat (map dp_text (filter (\<lambda>l. dp_kind l = DContext \<or> dp_kind l = DAddition) ls))
         else left_text rows = concat (map dp_text ls) \<and> right_text rows = [])"
proof (cases "uses_side_by_side opts")
  case True
  obtain rows where "layout_pairs lib (pane_content_width (lo_width opts)) (lo_wrap opts) None (side_by_side_pairs ls) (collected (lo_max_rows opts) [])
      = Some (collected (lo_max_rows opts) ([] @ rows))"
    "left_text rows = concat (map dp_text (lefts (side_by_side_pairs ls)))" "right_text rows = concat (map dp_text (rights (side_by_side_pairs ls)))"
    using layout_pairs_rows by blast
  then show ?thesis using True pairs_keep_sides [of ls] by (auto simp: layout_display_lines_def new_collected finish_collected)
next
  case False
  obtain rows where "layout_unified lib (unified_content_width ls (lo_width opts)) (lo_wrap opts) None ls (collected (lo_max_rows opts) [])
      = Some (collected (lo_max_rows opts) ([] @ rows))" "left_text rows = concat (map dp_text ls)" "right_text rows = []"
    using layout_unified_rows by blast
  then show ?thesis using False by (auto simp: layout_display_lines_def new_collected finish_collected)
qed

end
