(* ===== verification/Diff_Theorems.thy ===== *)
theory Diff_Theorems
  imports Diff_Paths Diff_Words Diff_Layout_Facts
begin

text \<open>
  What the diff engine guarantees, for any alignment library that keeps its documented promise, and a library that
  keeps it: the old text deleted and the new one inserted.
\<close>

section \<open>A library that keeps the promise\<close>

definition deletions :: "rtext list \<Rightarrow> change list" where
  "deletions ls = map (\<lambda>i. \<lparr>ch_tag = TagDelete, ch_old_index = Some i, ch_new_index = None, ch_value = ls ! i\<rparr>) [0 ..< length ls]"

definition insertions :: "rtext list \<Rightarrow> change list" where
  "insertions ls = map (\<lambda>j. \<lparr>ch_tag = TagInsert, ch_old_index = None, ch_new_index = Some j, ch_value = ls ! j\<rparr>) [0 ..< length ls]"

definition replaced_text :: "rtext \<Rightarrow> rtext \<Rightarrow> change list" where
  "replaced_text old new = deletions [old] @ insertions [new]"

definition replacing_lib :: diff_lib where
  "replacing_lib = \<lparr>lib_groups = (\<lambda>_ _ old new _. if old = new then [] else [[deletions old, insertions new]]),
     lib_chars = replaced_text, lib_words = replaced_text, lib_alike = (\<lambda>_ _. True),
     lib_char_width = (\<lambda>c. Some 1), lib_text_width = length\<rparr>"

lemma aligned_deletions:
  "i \<le> length old \<Longrightarrow> aligned old new (length old) j rest \<Longrightarrow>
   aligned old new i j (map (\<lambda>i. \<lparr>ch_tag = TagDelete, ch_old_index = Some i, ch_new_index = None, ch_value = old ! i\<rparr>)
     [i ..< length old] @ rest)"
proof (induction "length old - i" arbitrary: i)
  case (Suc n)
  then have "[i ..< length old] = i # [Suc i ..< length old]" by (simp add: upt_conv_Cons)
  with Suc show ?case by simp
qed simp

lemma aligned_insertions:
  "j \<le> length new \<Longrightarrow>
   aligned old new i j (map (\<lambda>j. \<lparr>ch_tag = TagInsert, ch_old_index = None, ch_new_index = Some j, ch_value = new ! j\<rparr>)
     [j ..< length new])"
proof (induction "length new - j" arbitrary: j)
  case (Suc n)
  then have "[j ..< length new] = j # [Suc j ..< length new]" by (simp add: upt_conv_Cons)
  with Suc show ?case by simp
qed simp

lemma parts_replaced:
  "old_part (deletions old @ insertions new) = length old" "new_part (deletions old @ insertions new) = length new"
  by (simp_all add: old_part_def new_part_def deletions_def insertions_def filter_map comp_def)

lemma replacing_documented: "documented_groups replacing_lib" "documented_chars replacing_lib" "documented_words replacing_lib"
proof -
  have "aligned old new 0 0 (deletions old @ insertions new)" for old new
    unfolding deletions_def insertions_def by (rule aligned_deletions [OF _ aligned_insertions]) simp_all
  then show "documented_groups replacing_lib"
    by (auto simp: documented_groups_def replacing_lib_def parts_replaced Let_def)
  show "documented_chars replacing_lib" "documented_words replacing_lib"
    by (simp_all add: documented_chars_def documented_words_def replacing_lib_def replaced_text_def deletions_def insertions_def
      old_values_def new_values_def)
qed

section \<open>Documents\<close>

text \<open>A printed diff is read back: the same hunks and lines, with the line endings written as line feeds and the start of
  an empty side as the line before it.\<close>

theorem printed_diff_is_read_back:
  assumes "documented_groups lib" "length (split_line_slices old) < u32_limit" "length (split_line_slices new) < u32_limit"
    "plain_label (old_label opts)" "plain_label (new_label opts)"
  shows "from_unified (format_unified_diff lib old new opts)
    = Inr (from_hunks (map printed_hunk (dd_hunks (between lib old new opts))))"
  unfolding format_unified_diff_def by (rule parse_printed [OF between_wf [OF assms(1-3)] assms(4,5)])

text \<open>The hunks of two texts, applied to the old text, give the new one.\<close>

theorem diff_rebuilds_text:
  assumes "documented_groups lib" "length (split_line_slices old) < u32_limit" "length (split_line_slices new) < u32_limit"
    "0 < context_lines opts"
  shows "map_option concat (apply_hunks 0 (dd_hunks (between lib old new opts)) (split_line_slices old)) = Some new"
proof -
  let ?gs = "map concat (filter (\<lambda>g. g \<noteq> []) (lib_groups lib (algorithm opts) (timeout opts) (split_line_slices old)
       (split_line_slices new) (context_lines opts)))"
  have g: "aligned_groups (split_line_slices old) (split_line_slices new) 0 0 ?gs"
    "split_line_slices old \<noteq> [] \<longrightarrow> list_all (\<lambda>g. 0 < old_part g) ?gs"
    using assms(1,4) unfolding documented_groups_def Let_def by blast+
  have "list_all (\<lambda>g. 0 < old_part g \<or> split_line_slices old = []) ?gs"
    using g(2) by (cases "split_line_slices old = []") (auto simp: list_all_iff)
  from apply_aligned [OF g(1) assms(2,3) this] show ?thesis
    unfolding between_hunks by (simp add: split_line_slices_concat)
qed

theorem diff_rebuilds_text_witness:
  "map_option concat (apply_hunks 0 (dd_hunks (between replacing_lib [97, nl] [98] default_diff_options)) [[97, nl]]) = Some [98]
   \<and> from_unified (format_unified_diff replacing_lib [97, nl] [98] default_diff_options)
       = Inr (from_hunks (map printed_hunk (dd_hunks (between replacing_lib [97, nl] [98] default_diff_options))))"
proof -
  have s: "split_line_slices [97, nl] = [[97, nl]]" "split_line_slices [98] = [[98]]"
    by (simp_all add: split_line_slices.simps nl_def cr_def)
  have o: "0 < context_lines default_diff_options" "plain_label (old_label default_diff_options)"
    "plain_label (new_label default_diff_options)"
    by (simp_all add: default_diff_options_def plain_label_def)
  have n: "length (split_line_slices [97, nl]) < u32_limit" "length (split_line_slices [98]) < u32_limit"
    by (simp_all add: s u32_limit_def)
  show ?thesis
    using diff_rebuilds_text [OF replacing_documented(1) n o(1)] printed_diff_is_read_back [OF replacing_documented(1) n o(2,3)]
    by (simp add: s)
qed

text \<open>Without context lines a group may hold insertions only, and then the start of its old side is the line of the
  new text, wherever the insertion stands in the old one.\<close>

theorem insertion_only_hunk_start:
  assumes "aligned old new i j g" "length old < u32_limit" "length new < u32_limit" "old_part g = 0" "g \<noteq> []"
  shows "old_start (group_hunk g) = j + 1 \<and> old_lines (group_hunk g) = 0"
proof -
  note n = numbered_lines_of [OF assms(1-3)]
  have "0 < old_part g + new_part g"
    using assms(5) by (cases g; cases "ch_tag (hd g)") (simp_all add: old_part_def new_part_def)
  then show ?thesis using hunk_start(1) [OF n] assms(4)
    by (simp add: group_hunk_def hunk_of_group_def Let_def count_lines_of)
qed

section \<open>Chunks, words and rows\<close>

text \<open>The chunks of two texts spell out both, no slice panics, and no two neighbours are of the same kind.\<close>

theorem chunks_spell_both_texts:
  assumes "documented_chars lib"
  shows "\<exists>chunks. compute_diff_chunks lib old new = Some chunks \<and> chunks_old chunks = old \<and> chunks_new chunks = new
    \<and> no_repeat chunks"
  by (rule compute_chunks [OF assms])

theorem chunks_spell_both_texts_witness:
  "\<exists>chunks. compute_diff_chunks replacing_lib [0xE9, 97] [98] = Some chunks \<and> chunks_old chunks = [0xE9, 97]
    \<and> chunks_new chunks = [98]"
  using chunks_spell_both_texts [OF replacing_documented(2), of "[0xE9, 97]" "[98]"] by blast

text \<open>The words marked in a pair of lines: every range is cut at characters, and what is not marked is the same text on
  both sides.\<close>

theorem marked_words_explain_change:
  assumes "documented_words lib" "lib_alike lib old new" "old \<noteq> []" "new \<noteq> []" "blen old + blen new \<le> 16384"
    "word_level_changed_ranges lib old new = (o_ranges, n_ranges)"
  shows "ranges_in old o_ranges \<and> ranges_in new n_ranges \<and> outside o_ranges 0 old = outside n_ranges 0 new"
  using word_ranges_text [OF assms(1)] assms(2-6) by (auto simp: word_level_changed_ranges_def)

theorem marked_words_explain_change_witness:
  "ranges_in [97] (fst (word_level_changed_ranges replacing_lib [97] [98]))"
  using marked_words_explain_change [OF replacing_documented(3), of "[97]" "[98]"]
  by (cases "word_level_changed_ranges replacing_lib [97] [98]") (simp add: replacing_lib_def len_utf8_def)

text \<open>A layout never panics. It is the bounded list of rows that spell out every line: in one column in order, side by
  side the lines of the old text (with headers and metadata) on the left and those of the new one on the right.\<close>

theorem layout_keeps_text:
  "\<exists>rows. layout_display_lines lib ls opts = Some (bounded_rows (lo_max_rows opts) rows)
     \<and> length (bounded_rows (lo_max_rows opts) rows) \<le> lo_max_rows opts
     \<and> (if uses_side_by_side opts
         then left_text rows = concat (map dp_text (filter (\<lambda>l. dp_kind l \<noteq> DAddition) ls))
            \<and> right_text rows = concat (map dp_text (filter (\<lambda>l. dp_kind l = DContext \<or> dp_kind l = DAddition) ls))
         else left_text rows = concat (map dp_text ls) \<and> right_text rows = [])"
  using layout_rows [of lib ls opts] bounded_rows_length by blast

text \<open>The two ways to a preview agree: the display lines of the printed diff of two texts are the labels and the display
  lines of its hunks.\<close>

theorem printed_preview_agrees:
  assumes "documented_groups lib" "length (split_line_slices old) < u32_limit" "length (split_line_slices new) < u32_limit"
    "plain_label (old_label opts)" "plain_label (new_label opts)" "\<not> missing_newline_hint opts"
    "list_all (\<lambda>t. 0 \<notin> set t) (label_texts opts)" "dd_hunks (between lib old new opts) \<noteq> []"
  shows "display_lines_from_unified_diff lib budget (format_unified_diff lib old new opts)
    = map metadata (label_texts opts) @ display_lines_from_hunks lib budget (dd_hunks (between lib old new opts))"
  unfolding format_unified_diff_def
  by (rule display_printed [OF between_wf [OF assms(1-3)] assms(8,4-7)])

end
