(* ===== verification/Spec2Isabelle.thy ===== *)
theory Spec2Isabelle
  imports Paths_Facts Safety_Gate Sandbox_Facts Policy_Facts Validator_Facts Retry_Facts Rate_Facts Composer_Theorems Patch_Theorems Patch_Transaction_Theorems Diff_Theorems
begin

section \<open>VT Code: what an agent may run, how failures are handled, and how text is edited\<close>

text \<open>
  VT Code is a coding agent for the terminal: a language model proposes shell commands, patches and tool calls,
  and the program decides whether to run them, runs them, copes with their failures and shows the session in a
  full-screen interface whose prompt editor (the composer) has a Vim mode. This development models the parts of
  it that decide and compute, as HOL functions translated from the Rust sources, and proves what they guarantee.
  Paths below are relative to the repository; \<^verbatim>\<open>core\<close> stands for \<^verbatim>\<open>crates/codegen/vtcode-core/src\<close>,
  \<^verbatim>\<open>safety\<close> for \<^verbatim>\<open>crates/codegen/vtcode-safety/src\<close>, \<^verbatim>\<open>commons\<close> for
  \<^verbatim>\<open>crates/common/vtcode-commons/src\<close> and \<^verbatim>\<open>ui\<close> for \<^verbatim>\<open>crates/codegen/vtcode-ui/src\<close>.
\<close>

subsection \<open>The parts and how they interact\<close>

text \<open>
  \<^item> \<^bold>\<open>May this command run?\<close> A shell string is split and parsed (\<^verbatim>\<open>safety/command_safety/shell_parser.rs\<close>), each
    command in it is examined by the dangerous-command detector (\<^verbatim>\<open>dangerous_commands.rs\<close>) and the allow lists
    (\<^verbatim>\<open>safe_command_registry.rs\<close>, \<^verbatim>\<open>command_db.rs\<close>); the evaluator (\<^verbatim>\<open>unified.rs\<close>) combines them behind a cache
    (\<^verbatim>\<open>cache.rs\<close>) and writes an audit log (\<^verbatim>\<open>audit.rs\<close>); \<^verbatim>\<open>mod.rs\<close> holds the entry points. The execution policy
    (\<^verbatim>\<open>safety/exec_policy/\<close>) adds prefix rules, session approvals and the modes of asking; the validators of
    \<^verbatim>\<open>safety/exec_policy/command_validation.rs\<close> check the arguments of the commands that run without asking; the
    sandbox (\<^verbatim>\<open>safety/sandboxing/\<close>) says what an allowed command may touch and rewrites it to run confined.
    All of them rest on the path functions of \<^verbatim>\<open>commons/paths.rs\<close>.
  \<^item> \<^bold>\<open>What happens when it fails?\<close> Errors are classified (\<^verbatim>\<open>commons/error_category.rs\<close>,
    \<^verbatim>\<open>commons/misconfiguration.rs\<close>), retried (\<^verbatim>\<open>commons/retry.rs\<close>, \<^verbatim>\<open>core/retry.rs\<close>), and counted by the circuit
    breaker and the rate limiters of \<^verbatim>\<open>core/tools/resilience/\<close>, which a facade asks in turn.
  \<^item> \<^bold>\<open>Editing files.\<close> The patch tool (\<^verbatim>\<open>core/tools/editing/patch/\<close>) parses a patch, locates its hunks in the files
    of the workspace and applies it as a transaction; its containment check is the resolving check of
    \<^verbatim>\<open>commons/paths.rs\<close>.
    Its changes are shown by the diff engine (\<^verbatim>\<open>crates/common/vtcode-diff\<close>): hunks from two texts, unified diffs
    printed and parsed, numbered lines with the changed words marked, and rows wrapped to the width of the terminal.
  \<^item> \<^bold>\<open>Editing the prompt.\<close> The input manager (\<^verbatim>\<open>ui/tui/core_tui/session/input_manager.rs\<close>) keeps the prompt in a
    third-party text area, addresses it by byte offsets (\<^verbatim>\<open>textarea_bridge.rs\<close>), and the Vim engine
    (\<^verbatim>\<open>ui/vim/\<close>) edits it through an editor interface that \<^verbatim>\<open>editing.rs\<close> provides.
\<close>

subsection \<open>The theories\<close>

text \<open>
  \<^item> \<^theory_text>\<open>VT_Prelude\<close>: Rust's results (\<open>err + 'a\<close>), ASCII character classes and string functions, the collection
    \<open>result_simps\<close>. \<^theory_text>\<open>Utf8_Text\<close>: texts as lists of scalar values addressed by UTF-8 byte offsets, where slicing
    off a boundary is \<open>None\<close>. \<^theory_text>\<open>Rust_Float\<close>: \<open>f64\<close> as rounded rationals and \<open>Duration\<close>.
  \<^item> \<^theory_text>\<open>Paths_Model\<close>, \<^theory_text>\<open>Paths_Facts\<close>: \<^verbatim>\<open>paths.rs\<close>; a path is its list of components, the file system a record
    of queries.
  \<^item> \<^theory_text>\<open>Shell_Syntax\<close>, \<^theory_text>\<open>Shell_Tree\<close>, \<^theory_text>\<open>Shell_Facts\<close>: \<^verbatim>\<open>shell_parser.rs\<close>. \<^theory_text>\<open>Dangerous_Commands\<close>,
    \<^theory_text>\<open>Dangerous_Facts\<close>: \<^verbatim>\<open>dangerous_commands.rs\<close>. \<^theory_text>\<open>Safe_Registry\<close>, \<^theory_text>\<open>Safety_Cache\<close>,
    \<^theory_text>\<open>Unified_Evaluator\<close>, \<^theory_text>\<open>Evaluator_Facts\<close>, \<^theory_text>\<open>Safety_Gate\<close>: registry and database, cache and audit log,
    evaluator, entry points.
  \<^item> \<^theory_text>\<open>Sandbox_Policy\<close>, \<^theory_text>\<open>Sandbox_Exec\<close>, \<^theory_text>\<open>Sandbox_Facts\<close>: policies and permissions, environment filters and
    the transformation of a command. \<^theory_text>\<open>Exec_Policy\<close>, \<^theory_text>\<open>Policy_Manager\<close>, \<^theory_text>\<open>Policy_Facts\<close>: rules, approvals, the
    rule parser, the manager. \<^theory_text>\<open>Command_Validators\<close>, \<^theory_text>\<open>Validator_Facts\<close>: the argument checks.
  \<^item> \<^theory_text>\<open>Error_Category\<close>, \<^theory_text>\<open>Retry_Loop\<close>, \<^theory_text>\<open>Retry_Facts\<close>: taxonomy, retry policy and loop. \<^theory_text>\<open>Circuit_Breaker\<close>,
    \<^theory_text>\<open>Circuit_Facts\<close>, \<^theory_text>\<open>Rate_Limits\<close>, \<^theory_text>\<open>Rate_Facts\<close>: breaker, limiters, facade.
  \<^item> \<^theory_text>\<open>Vim_Text\<close>, \<^theory_text>\<open>Vim_Engine\<close>, \<^theory_text>\<open>Vim_Facts\<close>, \<^theory_text>\<open>Vim_Effects\<close>: \<^verbatim>\<open>ui/vim/\<close>. \<^theory_text>\<open>Text_Bridge\<close>,
    \<^theory_text>\<open>Input_Manager\<close>, \<^theory_text>\<open>Composer_Edits\<close>, \<^theory_text>\<open>Input_Facts\<close>, \<^theory_text>\<open>Text_Area\<close>, \<^theory_text>\<open>Composer_Facts\<close>,
    \<^theory_text>\<open>Composer_Theorems\<close>: the composer.
  \<^item> \<^theory_text>\<open>Patch_Text\<close> (types, \<^verbatim>\<open>path.rs\<close>, shape tests), \<^theory_text>\<open>Patch_Parser\<close> (\<^verbatim>\<open>parser.rs\<close>), \<^theory_text>\<open>Patch_Roundtrip\<close> (a printer
    and the facts that the parser reads it back), \<^theory_text>\<open>Ast_Language\<close> (\<^verbatim>\<open>ast_grep_language.rs\<close>), \<^theory_text>\<open>Patch_Apply\<close>
    (\<^verbatim>\<open>matcher.rs\<close>, \<^verbatim>\<open>semantic.rs\<close>, \<^verbatim>\<open>applicator/text.rs\<close>), \<^theory_text>\<open>Patch_Facts\<close>, \<^theory_text>\<open>Patch_Render\<close> and
    \<^theory_text>\<open>Patch_Theorems\<close>: the patch language and the text of a patched file.
  \<^item> \<^theory_text>\<open>Patch_Store\<close>: the transaction (the other files of \<^verbatim>\<open>applicator/\<close>). The store maps paths to files and
    directories and counts the calls of \<^verbatim>\<open>tokio::fs\<close>; an environment says which calls fail. \<^theory_text>\<open>Patch_Calls\<close>
    (weakest preconditions, trees, temporary names), \<^theory_text>\<open>Patch_Transaction\<close> (the writer), \<^theory_text>\<open>Patch_Steps\<close> and
    \<^theory_text>\<open>Patch_Undo\<close> (backups and the three operations), \<^theory_text>\<open>Patch_Rollback\<close> (undoing recorded steps),
    \<^theory_text>\<open>Patch_Runs\<close> (the abstract edit \<open>edited\<close> and one step against it), \<^theory_text>\<open>Patch_Outcome\<close> (plan and commit),
    \<^theory_text>\<open>Patch_Invariant\<close> (the invariant of a run), \<^theory_text>\<open>Patch_Footprint\<close> (which paths can change at all) and
    \<^theory_text>\<open>Patch_Transaction_Theorems\<close>.
  \<^item> \<^theory_text>\<open>Diff_Model\<close> (documents, printer, parser, chunks), \<^theory_text>\<open>Diff_Display\<close> (display lines, words, pairs) and
    \<^theory_text>\<open>Diff_Layout\<close> (segments, rows, layouts): \<^verbatim>\<open>vtcode-diff\<close>. \<^theory_text>\<open>Diff_Facts\<close> and \<^theory_text>\<open>Diff_Roundtrip\<close> (the parser on printed
    lines), \<^theory_text>\<open>Diff_Alignment\<close> (what the alignment library promises, hunks applied), \<^theory_text>\<open>Diff_Paths\<close> (the two ways to a
    preview), \<^theory_text>\<open>Diff_Chunks\<close>, \<^theory_text>\<open>Diff_Words\<close>, \<^theory_text>\<open>Diff_Layout_Facts\<close> and \<^theory_text>\<open>Diff_Theorems\<close>.
\<close>

subsection \<open>How the code is rendered\<close>

text \<open>
  A struct is a record, an enum a datatype, a \<open>Result\<close> a sum with the error on the left, a method that changes
  \<open>self\<close> returns the new record. A panic is the value \<open>None\<close>: the release profile sets overflow checks and
  \<open>panic = "abort"\<close>, so an index out of range, a slice inside a character and an unsigned underflow end the
  program, and the composer and Vim theories keep all of them. Offsets and counters are \<open>nat\<close>; where the code
  saturates, wraps or compares with the maximum of its type the model does too (the 16-bit rows and columns of
  the text area bound the composer's texts by 65,535; counters of the breaker and the limiters are 32 and 64 bits
  wide). Clocks, random choices and identifiers are arguments.

  Code outside the repository is a parameter: the record \<open>shell_lib\<close> (the tree-sitter bash grammar and
  \<open>shell_words\<close>), \<open>filesystem\<close> (queries of the operating system), the choice of a victim among equal cache
  entries, \<open>decoders\<close> and \<open>json_lib\<close> (JSON and TOML), \<open>rule_store\<close> and \<open>host\<close> (configuration and operating system),
  \<open>powi\<close> (a float operation whose precision Rust leaves open), the Unicode tables of alphanumeric characters,
  word boundaries and case, \<open>textarea_lib\<close> (the text-area crate), \<open>ast_grep\<close> (the structural search program) and \<open>diff_lib\<close> (the crate \<open>similar\<close> and the widths of
  characters).
  What a proof needs of one is a named hypothesis or a locale, and each is shown to be satisfiable.

  Two recursions of the detector through shell scripts carry fuel; \<open>classifiers_return\<close> proves that fuel above
  the size of the command (\<open>Suc (command_size command)\<close>, what the definitions pass) always gives the verdict. All
  other loops are structural or come with a termination proof, the parsers by \<open>parse_operation_consumes\<close> and its
  kin.
\<close>

subsection \<open>Interfaces\<close>

text \<open>
  \<open>decision_cache\<close> (what a lookup returns after an insertion) is interpreted on the cache; \<open>prefix_matcher\<close> on the
  policy rules and on the trusted patterns; \<open>editor\<close> is what the Vim engine needs of the text below it, and every
  fact on keys is proved for any editor that keeps it; \<open>textarea\<close> is the documented behaviour of the text-area
  crate, a sublocale makes the composer an \<open>editor\<close> for any such crate, and \<open>Text_Area\<close> interprets it on a
  concrete one. Decisions and permissions are instances of \<open>linorder\<close>.
\<close>

subsection \<open>What is proved\<close>

text \<open>
  \<^item> The evaluator with its cache agrees with the uncached verdict; vectors, scripts and strings are judged alike;
    wrappers such as \<open>sudo\<close> do not hide a command; what the registry allows the detector calls dangerous only for
    an executable written with an expansion character (or behind an assignment). Exactly when a command proceeds,
    asks or is forbidden.
  \<^item> An accepted path stays in the workspace through links; operands of the commands that run unasked lie inside;
    an accepted \<open>sed\<close> script belongs to a stated grammar; a restrictive policy runs behind its sandbox program, with
    its profile or helper arguments, or not at all; exactly which paths a workspace policy lets a command write.
  \<^item> A retried operation returns within its budget; the breaker keeps its invariant under any interleaving and
    recovers after its own wait; a bucket admits at most its burst plus its rate times the time, and polling does not
    starve it.
  \<^item> A composer command keeps the state coherent and crashes in exactly two cases; Vim keys panic at
    the end of an insertion with a stale start, and otherwise only at two named positions; replacing a range is \<open>String::replace_range\<close>; pasted blocks, selection, history and
    attachments behave as stated.
  \<^item> A printed patch is parsed back; a patch removes only lines its hunks name; edit scripts are applied, to the
    final line ending; the preview is what is written, for files whose lines all end the same way.
  \<^item> The patch transaction refines the abstract edit: success means exactly the edits, an error with at most one
    failing call means the files as before (but for two named errors), without failing calls it succeeds exactly
    when each edit is possible in the store before it, and it never changes a path away from its checked targets. The
    first three assume that the targets are distinct files or missing, none below another, and that the clock never
    repeats. Whatever the targets, an operation that is impossible before the patch refuses it without a change; the
    findings say what else happens.
  \<^item> A printed diff is parsed back, the hunks of two texts applied to the old one give the new one, chunks spell out both
    texts, unmarked words are the same on both sides, a layout shows every line and never panics, and the preview of a
    printed diff is that of its hunks (all in \<open>Diff_Theorems\<close>).
  \<^item> The facts that end in a defect of the code are theorems too, named in the list of findings: among them
    \<open>rolled_back_without_file\<close>, \<open>find_panics_iff\<close>, \<open>capture_panics\<close>, \<open>open_above_types_into_old_line\<close>, \<open>parent_steps_not_resolved\<close>,
    \<open>git_read_only_admits_writes\<close>, \<open>inline_code_admitted\<close>, \<open>registry_reads_assignment\<close>, \<open>stale_capture_panics\<close>,
    \<open>add_then_update_refused\<close>, \<open>mixed_endings_differ\<close> and \<open>insertion_only_hunk_start\<close>.
\<close>

subsection \<open>Not modelled\<close>

text \<open>
  The Windows command analysis (compiled out on the modelled system), the sandbox system calls, file and terminal
  output, the language-model providers, authentication, the protocol adapters (MCP, ACP, A2A), the PTY runner, the
  configuration records and the asynchronous agent loop: they are input and output, external services, or
  serialisation around the parts above. In the patch transaction a call that fails has no effect (a failed
  \<open>remove_dir_all\<close> may have deleted a part), writes are not buffered, symbolic links are seen by the containment
  check only, and the file system is not changed by others between two calls.
  The rendering of the interface, the memory, indexer and skills crates and the context compaction
  hold further pure code that a continuation would take next.
\<close>

end
